(* ===== verification/Prelude.thy ===== *)
theory Prelude
  imports Main "HOL-Library.Word" "HOL-Library.Monad_Syntax"
begin

unbundle bit_operations_syntax

text \<open>
  Shared vocabulary of the development: the machine integer types of the Rust sources, writes
  into fixed-size buffers (\<open>poke\<close> for \<open>buf[i] = v\<close> and \<open>blit\<close> for
  \<open>buf[i..i + n].copy_from_slice(..)\<close>, both \<open>None\<close> where Rust panics on an index out of
  range), little-endian integer conversions, and the generic lemmas on them.
  A computation that may panic has an \<open>option\<close> type whose \<open>None\<close> is the panic; a
  \<open>Result\<close> of the sources is a sum whose left side is the error.
\<close>

type_synonym u8 = "8 word"
type_synonym u16 = "16 word"
type_synonym u32 = "32 word"
type_synonym u64 = "64 word"

named_theorems buf_simps \<open>rewrite rules for writes into fixed-size buffers\<close>
named_theorems le_simps \<open>rewrite rules for little-endian integer conversions\<close>

section \<open>Writes into buffers\<close>

definition blit :: "'a list \<Rightarrow> nat \<Rightarrow> 'a list \<Rightarrow> 'a list option" where
  "blit buf i xs =
     (if i + length xs \<le> length buf
      then Some (take i buf @ xs @ drop (i + length xs) buf) else None)"

definition poke :: "'a list \<Rightarrow> nat \<Rightarrow> 'a \<Rightarrow> 'a list option" where
  "poke buf i x = (if i < length buf then Some (buf[i := x]) else None)"

lemma blit_append [buf_simps]:
  "i = length pre \<Longrightarrow> length xs \<le> length suf \<Longrightarrow>
   blit (pre @ suf) i xs = Some (pre @ xs @ drop (length xs) suf)"
  by (simp add: blit_def)

lemma blit_zero [buf_simps]:
  "length xs \<le> length suf \<Longrightarrow> blit suf 0 xs = Some (xs @ drop (length xs) suf)"
  by (simp add: blit_def)

lemma poke_append_Cons [buf_simps]:
  "i = length pre \<Longrightarrow> poke (pre @ y # suf) i x = Some (pre @ x # suf)"
  by (simp add: poke_def)

lemma poke_zero_Cons [buf_simps]: "poke (y # suf) 0 x = Some (x # suf)"
  by (simp add: poke_def)

lemma poke_append [buf_simps]:
  "i = length pre \<Longrightarrow> suf \<noteq> [] \<Longrightarrow> poke (pre @ suf) i x = Some (pre @ x # tl suf)"
  by (cases suf) (simp_all add: poke_def)

lemma length_blit: "blit buf i xs = Some buf' \<Longrightarrow> length buf' = length buf"
  by (auto simp: blit_def split: if_splits)

lemma length_poke: "poke buf i x = Some buf' \<Longrightarrow> length buf' = length buf"
  by (auto simp: poke_def split: if_splits)

lemma split_buffer:
  assumes "n \<le> length (buf :: 'a list)"
  obtains a b where "buf = a @ b" and "length a = n"
  using assms by (metis append_take_drop_id length_take min_absorb2)

section \<open>Little-endian integers\<close>

definition to_le16 :: "u16 \<Rightarrow> u8 list" where
  "to_le16 w = [ucast w, ucast (drop_bit 8 w)]"

definition from_le16 :: "u8 \<Rightarrow> u8 \<Rightarrow> u16" where
  "from_le16 a b = ucast a OR push_bit 8 (ucast b)"

definition to_le32 :: "u32 \<Rightarrow> u8 list" where
  "to_le32 w =
     [ucast w, ucast (drop_bit 8 w), ucast (drop_bit 16 w), ucast (drop_bit 24 w)]"

definition from_le32 :: "u8 \<Rightarrow> u8 \<Rightarrow> u8 \<Rightarrow> u8 \<Rightarrow> u32" where
  "from_le32 a b c d =
     ucast a OR push_bit 8 (ucast b) OR push_bit 16 (ucast c) OR push_bit 24 (ucast d)"

lemma length_to_le [simp]: "length (to_le16 w) = 2" "length (to_le32 v) = 4"
  by (simp_all add: to_le16_def to_le32_def)

lemma from_to_le16 [le_simps]: "from_le16 (ucast w) (ucast (drop_bit 8 w)) = w"
  by (rule bit_word_eqI) (auto simp: from_le16_def bit_simps)

lemma from_to_le32 [le_simps]:
  "from_le32 (ucast w) (ucast (drop_bit 8 w)) (ucast (drop_bit 16 w)) (ucast (drop_bit 24 w)) = w"
proof (rule bit_word_eqI)
  fix n assume "n < LENGTH(32)"
  then consider "n < 8" | "8 \<le> n \<and> n < 16" | "16 \<le> n \<and> n < 24" | "24 \<le> n \<and> n < 32"
    by fastforce
  then show "bit (from_le32 (ucast w) (ucast (drop_bit 8 w)) (ucast (drop_bit 16 w))
      (ucast (drop_bit 24 w))) n = bit w n"
    by cases (auto simp: from_le32_def bit_simps less_diff_conv2)
qed

lemma to_from_le16 [le_simps]: "to_le16 (from_le16 a b) = [a, b]"
proof -
  have "ucast (from_le16 a b) = a"
    by (rule bit_word_eqI) (auto simp: from_le16_def bit_simps)
  moreover have "ucast (drop_bit 8 (from_le16 a b)) = b"
    by (rule bit_word_eqI) (auto simp: from_le16_def bit_simps dest: bit_imp_le_length)
  ultimately show ?thesis
    by (simp add: to_le16_def)
qed

lemma to_from_le32 [le_simps]: "to_le32 (from_le32 a b c d) = [a, b, c, d]"
proof -
  have "ucast (from_le32 a b c d) = a"
    by (rule bit_word_eqI) (auto simp: from_le32_def bit_simps)
  moreover have "ucast (drop_bit 8 (from_le32 a b c d)) = b"
    by (rule bit_word_eqI) (auto simp: from_le32_def bit_simps dest: bit_imp_le_length)
  moreover have "ucast (drop_bit 16 (from_le32 a b c d)) = c"
    by (rule bit_word_eqI) (auto simp: from_le32_def bit_simps dest: bit_imp_le_length)
  moreover have "ucast (drop_bit 24 (from_le32 a b c d)) = d"
    by (rule bit_word_eqI) (auto simp: from_le32_def bit_simps dest: bit_imp_le_length)
  ultimately show ?thesis
    by (simp add: to_le32_def)
qed

lemma from_le16_inj: "from_le16 a b = from_le16 c d \<longleftrightarrow> a = c \<and> b = d"
  by (metis list.inject to_from_le16)

lemma unat_of_nat_u16: "n < 65536 \<Longrightarrow> unat (of_nat n :: u16) = n"
  by (simp add: unat_of_nat take_bit_nat_eq_self_iff)

lemma unat_of_nat_u8: "n < 256 \<Longrightarrow> unat (of_nat n :: u8) = n"
  by (simp add: unat_of_nat take_bit_nat_eq_self_iff)

lemma of_nat_u8_eq: "n < 256 \<Longrightarrow> k < 256 \<Longrightarrow> (of_nat n :: u8) = of_nat k \<longleftrightarrow> n = k"
  by (metis unat_of_nat_u8)

section \<open>Checks and fallible iteration\<close>

text \<open>
  \<open>first_error\<close> runs a sequence of checks, each ending in \<open>?\<close>, and \<open>collect_results\<close> is
  \<open>iter.map(f).collect::<Result<Vec<_>>>()\<close>: both stop at the first error.
\<close>

fun first_error :: "('e + unit) list \<Rightarrow> 'e + unit" where
  "first_error [] = Inr ()"
| "first_error (c # cs) = (case c of Inl e \<Rightarrow> Inl e | Inr _ \<Rightarrow> first_error cs)"

fun collect_results :: "('a \<Rightarrow> 'e + 'b) \<Rightarrow> 'a list \<Rightarrow> 'e + 'b list" where
  "collect_results f [] = Inr []"
| "collect_results f (x # xs) =
     (case f x of
        Inl e \<Rightarrow> Inl e
      | Inr y \<Rightarrow> (case collect_results f xs of Inl e \<Rightarrow> Inl e | Inr ys \<Rightarrow> Inr (y # ys)))"

lemma first_error_ok: "first_error cs = Inr () \<longleftrightarrow> (\<forall>c \<in> set cs. c = Inr ())"
  by (induction cs) (auto split: sum.splits)

lemma collect_results_ok:
  "collect_results f xs = Inr ys \<longleftrightarrow> list_all2 (\<lambda>x y. f x = Inr y) xs ys"
proof (induction xs arbitrary: ys)
  case (Cons x xs)
  show ?case
    by (cases ys; cases "collect_results f xs") (auto simp: Cons.IH [symmetric] split: sum.splits)
qed auto

lemma collect_results_map:
  "(\<And>x. x \<in> set xs \<Longrightarrow> f x = Inr (g x)) \<Longrightarrow> collect_results f xs = Inr (map g xs)"
  by (induction xs) simp_all

section \<open>Splitting into words\<close>

text \<open>
  \<open>split_words ws s\<close> is the sequence of maximal runs of characters outside \<open>ws\<close>, as Rust's
  \<open>split_whitespace\<close> and \<open>split_ascii_whitespace\<close> iterate over them; \<open>cur\<close> is the open run.
\<close>

fun split_words_from :: "('c \<Rightarrow> bool) \<Rightarrow> 'c list \<Rightarrow> 'c list \<Rightarrow> 'c list list" where
  "split_words_from ws cur [] = (if cur = [] then [] else [cur])"
| "split_words_from ws cur (c # cs) =
     (if ws c then (if cur = [] then split_words_from ws [] cs else cur # split_words_from ws [] cs)
      else split_words_from ws (cur @ [c]) cs)"

definition split_words :: "('c \<Rightarrow> bool) \<Rightarrow> 'c list \<Rightarrow> 'c list list" where
  "split_words ws s = split_words_from ws [] s"

lemma split_words_from_run:
  "\<forall>c \<in> set w. \<not> ws c \<Longrightarrow> split_words_from ws cur (w @ s) = split_words_from ws (cur @ w) s"
  by (induction w arbitrary: cur) auto

lemma split_words_tokens:
  assumes "ws sp" and "\<forall>w \<in> set tokens. w \<noteq> [] \<and> (\<forall>c \<in> set w. \<not> ws c)"
  shows "split_words ws (concat (map (\<lambda>w. w @ [sp]) tokens)) = tokens"
  using assms(2)
proof (induction tokens)
  case Nil
  then show ?case by (simp add: split_words_def)
next
  case (Cons w tokens)
  then have "split_words_from ws [] (w @ sp # concat (map (\<lambda>w. w @ [sp]) tokens)) =
      split_words_from ws w (sp # concat (map (\<lambda>w. w @ [sp]) tokens))"
    using split_words_from_run [of w ws "[]"] by simp
  with Cons assms(1) show ?case
    by (auto simp: split_words_def)
qed

lemma split_words_from_nonempty:
  "w \<in> set (split_words_from ws cur s) \<Longrightarrow> w \<noteq> []"
  by (induction ws cur s rule: split_words_from.induct) (auto split: if_splits)

lemma split_words_nonempty: "w \<in> set (split_words ws s) \<Longrightarrow> w \<noteq> []"
  by (simp add: split_words_def split_words_from_nonempty)

end
