(* ===== verification/Pca9685.thy ===== *)
theory Pca9685
  imports Prelude
begin

unbundle bit_operations_syntax

text \<open>
  \<open>src/pca9685.rs\<close>: the driver of the PWM controller, as reads and writes of its registers. The I2C
  device is the record \<open>i2c_env\<close>: a read yields the register or an error, a write says whether it
  worked, and both may change the device; \<open>f64\<close> arithmetic is the record \<open>f64_ops\<close>. Error texts are
  constructors.
\<close>

section \<open>Registers and parameters\<close>

definition MODE1 :: u8 where "MODE1 = 0x00"
definition MODE2 :: u8 where "MODE2 = 0x01"
definition PRESCALE :: u8 where "PRESCALE = 0xfe"
definition ALL_LED_ON_L :: u8 where "ALL_LED_ON_L = 0xfa"
definition ALL_LED_ON_H :: u8 where "ALL_LED_ON_H = 0xfb"
definition ALL_LED_OFF_L :: u8 where "ALL_LED_OFF_L = 0xfc"
definition ALL_LED_OFF_H :: u8 where "ALL_LED_OFF_H = 0xfd"
definition MODE1_RESTART :: u8 where "MODE1_RESTART = 0x80"
definition MODE1_AUTO_INCREMENT :: u8 where "MODE1_AUTO_INCREMENT = 0x20"
definition MODE1_SLEEP :: u8 where "MODE1_SLEEP = 0x10"
definition FULL_OFF :: u8 where "FULL_OFF = 0x10"
definition LED0_ON_L :: u8 where "LED0_ON_L = 0x06"
definition CHANNEL_REGISTER_STRIDE :: u8 where "CHANNEL_REGISTER_STRIDE = 4"
definition CHANNEL_COUNT :: u8 where "CHANNEL_COUNT = 16"
definition ABSOLUTE_MIN_CALIBRATION_PULSE_US :: u16 where "ABSOLUTE_MIN_CALIBRATION_PULSE_US = 300"
definition ABSOLUTE_MAX_CALIBRATION_PULSE_US :: u16 where "ABSOLUTE_MAX_CALIBRATION_PULSE_US = 2800"

lemmas pca_consts = MODE1_def MODE2_def PRESCALE_def ALL_LED_ON_L_def ALL_LED_ON_H_def ALL_LED_OFF_L_def
  ALL_LED_OFF_H_def MODE1_RESTART_def MODE1_AUTO_INCREMENT_def MODE1_SLEEP_def FULL_OFF_def LED0_ON_L_def
  CHANNEL_REGISTER_STRIDE_def CHANNEL_COUNT_def ABSOLUTE_MIN_CALIBRATION_PULSE_US_def
  ABSOLUTE_MAX_CALIBRATION_PULSE_US_def

text \<open>\<open>d_lit n\<close> is the literal \<open>n.0\<close>; the casts are Rust's \<open>as\<close>.\<close>

record 'f f64_ops =
  d_lit :: "nat \<Rightarrow> 'f"
  d_of_u8 :: "u8 \<Rightarrow> 'f"
  d_of_u16 :: "u16 \<Rightarrow> 'f"
  d_add :: "'f \<Rightarrow> 'f \<Rightarrow> 'f"
  d_sub :: "'f \<Rightarrow> 'f \<Rightarrow> 'f"
  d_mul :: "'f \<Rightarrow> 'f \<Rightarrow> 'f"
  d_div :: "'f \<Rightarrow> 'f \<Rightarrow> 'f"
  d_round :: "'f \<Rightarrow> 'f"
  d_le :: "'f \<Rightarrow> 'f \<Rightarrow> bool"
  d_less :: "'f \<Rightarrow> 'f \<Rightarrow> bool"
  d_finite :: "'f \<Rightarrow> bool"
  d_as_u8 :: "'f \<Rightarrow> u8"
  d_as_u16 :: "'f \<Rightarrow> u16"

record 'b i2c_env =
  i2c_read :: "'b \<Rightarrow> u8 \<Rightarrow> u8 option \<times> 'b"
  i2c_write :: "'b \<Rightarrow> u8 \<Rightarrow> u8 \<Rightarrow> bool \<times> 'b"
  i2c_sleep :: "nat \<Rightarrow> 'b \<Rightarrow> 'b"

datatype pca_error =
    CannotRead string
  | CannotWrite string
  | PcaAsleep
  | WrongRate
  | NoChannels
  | ChannelOutOfRange u8
  | DuplicateChannel u8
  | PulseOutOfRange u16
  | BadFrequency
  | FrequencyOutOfRange
  | PulseDoesNotFit u16

text \<open>A step of the driver and its continuation with \<open>?\<close>, and a loop of such steps.\<close>

type_synonym ('x, 'b) driven = "(pca_error + 'x) \<times> 'b"

definition pca_then :: "('x, 'b) driven \<Rightarrow> ('x \<Rightarrow> 'b \<Rightarrow> ('y, 'b) driven) \<Rightarrow> ('y, 'b) driven" where
  "pca_then a f = (case a of (Inl e, b) \<Rightarrow> (Inl e, b) | (Inr x, b) \<Rightarrow> f x b)"

fun pca_each :: "('a \<Rightarrow> 'b \<Rightarrow> (unit, 'b) driven) \<Rightarrow> 'a list \<Rightarrow> 'b \<Rightarrow> (unit, 'b) driven" where
  "pca_each f [] b = (Inr (), b)"
| "pca_each f (x # xs) b = pca_then (f x b) (\<lambda>_. pca_each f xs)"

section \<open>Status\<close>

record pca_status =
  ps_mode1 :: u8
  ps_mode2 :: u8
  ps_prescale :: u8

definition sleeping :: "pca_status \<Rightarrow> bool" where
  "sleeping st \<longleftrightarrow> ps_mode1 st AND MODE1_SLEEP \<noteq> 0"

definition auto_increment :: "pca_status \<Rightarrow> bool" where
  "auto_increment st \<longleftrightarrow> ps_mode1 st AND MODE1_AUTO_INCREMENT \<noteq> 0"

definition all_call_enabled :: "pca_status \<Rightarrow> bool" where
  "all_call_enabled st \<longleftrightarrow> ps_mode1 st AND 0x01 \<noteq> 0"

definition push_pull_output :: "pca_status \<Rightarrow> bool" where
  "push_pull_output st \<longleftrightarrow> ps_mode2 st AND 0x04 \<noteq> 0"

definition OSCILLATOR_HZ :: "'f f64_ops \<Rightarrow> 'f" where
  "OSCILLATOR_HZ F = d_lit F 25000000"

definition PWM_STEPS :: "'f f64_ops \<Rightarrow> 'f" where
  "PWM_STEPS F = d_lit F 4096"

definition pwm_hz :: "'f f64_ops \<Rightarrow> pca_status \<Rightarrow> 'f" where
  "pwm_hz F st = d_div F (OSCILLATOR_HZ F)
     (d_mul F (PWM_STEPS F) (d_add F (d_of_u8 F (ps_prescale st)) (d_lit F 1)))"

definition read_byte :: "'b i2c_env \<Rightarrow> u8 \<Rightarrow> string \<Rightarrow> 'b \<Rightarrow> (u8, 'b) driven" where
  "read_byte E r what b = (case i2c_read E b r of (None, b) \<Rightarrow> (Inl (CannotRead what), b) | (Some v, b) \<Rightarrow> (Inr v, b))"

definition pca_read_status :: "'b i2c_env \<Rightarrow> 'b \<Rightarrow> (pca_status, 'b) driven" where
  "pca_read_status E b =
     pca_then (read_byte E MODE1 ''MODE1'' b) (\<lambda>mode1 b.
     pca_then (read_byte E MODE2 ''MODE2'' b) (\<lambda>mode2 b.
     pca_then (read_byte E PRESCALE ''PRESCALE'' b) (\<lambda>prescale b.
       (Inr \<lparr> ps_mode1 = mode1, ps_mode2 = mode2, ps_prescale = prescale \<rparr>, b))))"

section \<open>Validation and pulse widths\<close>

fun validate_pulses :: "(u8 \<times> u16) list \<Rightarrow> (u8 \<times> u16) list \<Rightarrow> pca_error + unit" where
  "validate_pulses seen [] = Inr ()"
| "validate_pulses seen ((channel, pulse_us) # cs) =
     (if channel \<ge> CHANNEL_COUNT then Inl (ChannelOutOfRange channel)
      else if list_ex (\<lambda>(existing, _). existing = channel) seen then Inl (DuplicateChannel channel)
      else if \<not> (ABSOLUTE_MIN_CALIBRATION_PULSE_US \<le> pulse_us \<and> pulse_us \<le> ABSOLUTE_MAX_CALIBRATION_PULSE_US)
        then Inl (PulseOutOfRange pulse_us)
      else validate_pulses (seen @ [(channel, pulse_us)]) cs)"

definition validate_channels :: "(u8 \<times> u16) list \<Rightarrow> pca_error + unit" where
  "validate_channels cs = (if cs = [] then Inl NoChannels else validate_pulses [] cs)"

fun validate_ids :: "u8 list \<Rightarrow> u8 list \<Rightarrow> pca_error + unit" where
  "validate_ids seen [] = Inr ()"
| "validate_ids seen (channel # cs) =
     (if channel \<ge> CHANNEL_COUNT then Inl (ChannelOutOfRange channel)
      else if channel \<in> set seen then Inl (DuplicateChannel channel)
      else validate_ids (seen @ [channel]) cs)"

definition validate_channel_ids :: "u8 list \<Rightarrow> pca_error + unit" where
  "validate_channel_ids cs = (if cs = [] then Inl NoChannels else validate_ids [] cs)"

definition prescale_for_hz :: "'f f64_ops \<Rightarrow> 'f \<Rightarrow> pca_error + u8" where
  "prescale_for_hz F hz =
     (if \<not> d_finite F hz \<or> d_le F hz (d_lit F 0) then Inl BadFrequency
      else let raw = d_round F (d_sub F (d_div F (OSCILLATOR_HZ F) (d_mul F (PWM_STEPS F) hz)) (d_lit F 1)) in
        if \<not> (d_le F (d_lit F 3) raw \<and> d_le F raw (d_lit F 255)) then Inl FrequencyOutOfRange
        else Inr (d_as_u8 F raw))"

definition pulse_ticks :: "'f f64_ops \<Rightarrow> u16 \<Rightarrow> 'f \<Rightarrow> pca_error + u16" where
  "pulse_ticks F pulse_us hz =
     (let ticks = d_round F (d_div F (d_mul F (d_mul F (d_of_u16 F pulse_us) hz) (PWM_STEPS F)) (d_lit F 1000000)) in
      if \<not> (d_le F (d_lit F 1) ticks \<and> d_less F ticks (PWM_STEPS F)) then Inl (PulseDoesNotFit pulse_us)
      else Inr (d_as_u16 F ticks))"

section \<open>Register writes\<close>

definition pca_write_byte :: "'b i2c_env \<Rightarrow> u8 \<Rightarrow> u8 \<Rightarrow> string \<Rightarrow> 'b \<Rightarrow> (unit, 'b) driven" where
  "pca_write_byte E register v operation b =
     (case i2c_write E b register v of (ok, b) \<Rightarrow> (if ok then Inr () else Inl (CannotWrite operation), b))"

definition channel_base :: "u8 \<Rightarrow> u8" where
  "channel_base channel = LED0_ON_L + channel * CHANNEL_REGISTER_STRIDE"

definition force_all_channels_off :: "'b i2c_env \<Rightarrow> 'b \<Rightarrow> (unit, 'b) driven" where
  "force_all_channels_off E =
     pca_each (\<lambda>channel. pca_write_byte E (channel_base channel + 3) FULL_OFF ''disable PCA9685 channel'')
       (map of_nat [0..<unat CHANNEL_COUNT])"

definition clear_global_all_led_control :: "'b i2c_env \<Rightarrow> 'b \<Rightarrow> (unit, 'b) driven" where
  "clear_global_all_led_control E b =
     pca_then (pca_write_byte E ALL_LED_ON_L 0 ''clear global PCA9685 on-time low'' b) (\<lambda>_ b.
     pca_then (pca_write_byte E ALL_LED_ON_H 0 ''clear global PCA9685 on-time high'' b) (\<lambda>_ b.
     pca_then (pca_write_byte E ALL_LED_OFF_L 0 ''clear global PCA9685 off-time low'' b) (\<lambda>_ b.
       pca_write_byte E ALL_LED_OFF_H 0 ''clear global PCA9685 off-time high'' b)))"

definition sleeping_mode :: "u8 \<Rightarrow> u8" where
  "sleeping_mode mode1 = (mode1 AND NOT MODE1_RESTART) OR MODE1_SLEEP"

definition awake_mode :: "u8 \<Rightarrow> u8" where
  "awake_mode mode1 = (mode1 OR MODE1_AUTO_INCREMENT) AND NOT (MODE1_SLEEP OR MODE1_RESTART)"

text \<open>Waking up: the oscillator gets 500 microseconds before the restart.\<close>

definition wake_pca :: "'b i2c_env \<Rightarrow> u8 \<Rightarrow> 'b \<Rightarrow> (unit, 'b) driven" where
  "wake_pca E mode1 b =
     pca_then (pca_write_byte E MODE1 (awake_mode mode1) ''wake PCA9685'' b) (\<lambda>_ b.
       pca_write_byte E MODE1 (awake_mode mode1 OR MODE1_RESTART) ''restart PCA9685 oscillator'' (i2c_sleep E 500 b))"

definition initialize_safe_pwm :: "'b i2c_env \<Rightarrow> 'f f64_ops \<Rightarrow> 'f \<Rightarrow> 'b \<Rightarrow> (pca_status, 'b) driven" where
  "initialize_safe_pwm E F frequency_hz b =
     (case prescale_for_hz F frequency_hz of
        Inl e \<Rightarrow> (Inl e, b)
      | Inr prescale \<Rightarrow>
          pca_then (pca_read_status E b) (\<lambda>before b.
          pca_then (pca_write_byte E MODE1 (sleeping_mode (ps_mode1 before)) ''put PCA9685 into sleep'' b) (\<lambda>_ b.
          pca_then (clear_global_all_led_control E b) (\<lambda>_ b.
          pca_then (force_all_channels_off E b) (\<lambda>_ b.
          pca_then (pca_write_byte E PRESCALE prescale ''set PCA9685 PWM prescale'' b) (\<lambda>_ b.
          pca_then (wake_pca E (ps_mode1 before) b) (\<lambda>_ b. pca_read_status E b)))))))"

definition prepare_individual_channel_control :: "'b i2c_env \<Rightarrow> u8 \<Rightarrow> 'b \<Rightarrow> (unit, 'b) driven" where
  "prepare_individual_channel_control E mode1 b =
     pca_then (pca_write_byte E MODE1 (sleeping_mode mode1) ''put PCA9685 into sleep'' b) (\<lambda>_ b.
     pca_then (clear_global_all_led_control E b) (\<lambda>_ b.
     pca_then (force_all_channels_off E b) (\<lambda>_ b. wake_pca E mode1 b)))"

definition ready_status :: "'b i2c_env \<Rightarrow> 'f f64_ops \<Rightarrow> 'b \<Rightarrow> (pca_status, 'b) driven" where
  "ready_status E F b =
     pca_then (pca_read_status E b) (\<lambda>st b.
       if sleeping st then (Inl PcaAsleep, b)
       else if \<not> (d_le F (d_lit F 40) (pwm_hz F st) \<and> d_le F (pwm_hz F st) (d_lit F 60)) then (Inl WrongRate, b)
       else (Inr st, b))"

text \<open>The three loops: disable, set the pulse, enable.\<close>

definition disable_channel :: "'b i2c_env \<Rightarrow> string \<Rightarrow> u8 \<Rightarrow> 'b \<Rightarrow> (unit, 'b) driven" where
  "disable_channel E what channel = pca_write_byte E (channel_base channel + 3) FULL_OFF what"

definition write_pulse :: "'b i2c_env \<Rightarrow> 'f f64_ops \<Rightarrow> 'f \<Rightarrow> u8 \<times> u16 \<Rightarrow> 'b \<Rightarrow> (unit, 'b) driven" where
  "write_pulse E F hz c b =
     (case pulse_ticks F (snd c) hz of
        Inl e \<Rightarrow> (Inl e, b)
      | Inr ticks \<Rightarrow>
          let base = channel_base (fst c) in
          pca_then (pca_write_byte E base 0 ''set selected channel on-time low'' b) (\<lambda>_ b.
          pca_then (pca_write_byte E (base + 1) 0 ''set selected channel on-time high'' b) (\<lambda>_ b.
            pca_write_byte E (base + 2) (ucast (ticks AND 0xff)) ''set selected channel off-time low'' b)))"

definition enable_pulse :: "'b i2c_env \<Rightarrow> 'f f64_ops \<Rightarrow> 'f \<Rightarrow> u8 \<times> u16 \<Rightarrow> 'b \<Rightarrow> (unit, 'b) driven" where
  "enable_pulse E F hz c b =
     (case pulse_ticks F (snd c) hz of
        Inl e \<Rightarrow> (Inl e, b)
      | Inr ticks \<Rightarrow> pca_write_byte E (channel_base (fst c) + 3) (ucast (drop_bit 8 ticks)) ''set selected channel off-time high'' b)"

definition write_channels :: "'b i2c_env \<Rightarrow> 'f f64_ops \<Rightarrow> (u8 \<times> u16) list \<Rightarrow> 'f \<Rightarrow> 'b \<Rightarrow> (unit, 'b) driven" where
  "write_channels E F channels hz b =
     (case validate_channels channels of
        Inl e \<Rightarrow> (Inl e, b)
      | Inr _ \<Rightarrow>
          pca_then (pca_each (\<lambda>c. disable_channel E ''disable channel before updating its pulse'' (fst c)) channels b) (\<lambda>_ b.
          pca_then (pca_each (write_pulse E F hz) channels b) (\<lambda>_ b.
            pca_each (enable_pulse E F hz) channels b)))"

section \<open>The public operations\<close>

definition pca_set_channels :: "'b i2c_env \<Rightarrow> 'f f64_ops \<Rightarrow> (u8 \<times> u16) list \<Rightarrow> 'b \<Rightarrow> (unit, 'b) driven" where
  "pca_set_channels E F channels b =
     pca_then (ready_status E F b) (\<lambda>st b. write_channels E F channels (pwm_hz F st) b)"

definition pca_all_off :: "'b i2c_env \<Rightarrow> 'b \<Rightarrow> (unit, 'b) driven" where
  "pca_all_off E = force_all_channels_off E"

definition pca_disable_channels :: "'b i2c_env \<Rightarrow> u8 list \<Rightarrow> 'b \<Rightarrow> (unit, 'b) driven" where
  "pca_disable_channels E channels b =
     (case validate_channel_ids channels of
        Inl e \<Rightarrow> (Inl e, b)
      | Inr _ \<Rightarrow> pca_each (disable_channel E ''disable selected PCA9685 channel'') channels b)"

definition begin_pulse_channels :: "'b i2c_env \<Rightarrow> 'f f64_ops \<Rightarrow> (u8 \<times> u16) list \<Rightarrow> 'b \<Rightarrow> (unit, 'b) driven" where
  "begin_pulse_channels E F channels b =
     pca_then (ready_status E F b) (\<lambda>st b.
     pca_then (prepare_individual_channel_control E (ps_mode1 st) b) (\<lambda>_ b.
     pca_then (force_all_channels_off E b) (\<lambda>_ b. write_channels E F channels (pwm_hz F st) b)))"

definition pulse_channels_for :: "'b i2c_env \<Rightarrow> 'f f64_ops \<Rightarrow> (u8 \<times> u16) list \<Rightarrow> nat \<Rightarrow> 'b \<Rightarrow> (unit, 'b) driven" where
  "pulse_channels_for E F channels duration b =
     pca_then (begin_pulse_channels E F channels b) (\<lambda>_ b. force_all_channels_off E (i2c_sleep E duration b))"

definition pulse_channel_for :: "'b i2c_env \<Rightarrow> 'f f64_ops \<Rightarrow> u8 \<Rightarrow> u16 \<Rightarrow> nat \<Rightarrow> 'b \<Rightarrow> (unit, 'b) driven" where
  "pulse_channel_for E F channel pulse_us duration = pulse_channels_for E F [(channel, pulse_us)] duration"

end
