(* ===== verification/Cobs.thy ===== *)
theory Cobs
  imports Prelude
begin

text \<open>
  \<open>crates/rubik-link-protocol/src/cobs.rs\<close>, consistent overhead byte stuffing into a
  caller-supplied buffer. The loops recurse over the unread input (\<open>input[read..]\<close>); the
  buffer, the write position, the index of the pending code byte and the code itself are threaded
  as the source's local variables. \<open>None\<close> is an index panic. The reference function
  \<open>cobs_blocks\<close> gives the encoding as a list, and the lemmas show that both loops implement it,
  never panic, and are inverse to each other.
\<close>

datatype wire_error =
    OutputTooSmall
  | PayloadTooLarge
  | PacketTooShort
  | UnsupportedVersion u8
  | UnknownMessageKind u8
  | LengthMismatch
  | CrcMismatch u16 u16
  | MissingUartDelimiter
  | MalformedCobs

definition max_encoded_len :: "nat \<Rightarrow> nat" where
  "max_encoded_len input_len = input_len + input_len div 254 + 1"

fun encode_loop :: "u8 list \<Rightarrow> nat \<Rightarrow> nat \<Rightarrow> u8 \<Rightarrow> u8 list \<Rightarrow> (nat \<times> u8 list) option" where
  "encode_loop [] wr code_index code output = do {
     output \<leftarrow> poke output code_index code;
     Some (wr, output) }"
| "encode_loop (b # bs) wr code_index code output =
     (if b = 0 then do {
        output \<leftarrow> poke output code_index code;
        encode_loop bs (wr + 1) wr 1 output }
      else do {
        output \<leftarrow> poke output wr b;
        let wr = wr + 1; code = code + 1 in
        if code = 0xff then do {
          output \<leftarrow> poke output code_index code;
          encode_loop bs (wr + 1) wr 1 output }
        else encode_loop bs wr code_index code output })"

definition encode :: "u8 list \<Rightarrow> u8 list \<Rightarrow> ((wire_error + nat) \<times> u8 list) option" where
  "encode input output =
     (if length output < max_encoded_len (length input) then Some (Inl OutputTooSmall, output)
      else do {
        (wr, output) \<leftarrow> encode_loop input 1 0 1 output;
        Some (Inr wr, output) })"

function decode_loop :: "u8 list \<Rightarrow> nat \<Rightarrow> u8 list \<Rightarrow> ((wire_error + nat) \<times> u8 list) option" where
  "decode_loop [] wr output = Some (Inr wr, output)"
| "decode_loop (code # input) wr output =
     (if code = 0 then Some (Inl MalformedCobs, output)
      else let block_len = unat code - 1 in
        if block_len > length input \<or> wr + block_len > length output then
          Some (Inl (if block_len > length input then MalformedCobs else OutputTooSmall), output)
        else do {
          output \<leftarrow> blit output wr (take block_len input);
          let input = drop block_len input; wr = wr + block_len in
          if code \<noteq> 0xff \<and> input \<noteq> [] then
            (if wr = length output then Some (Inl OutputTooSmall, output)
             else do {
               output \<leftarrow> poke output wr 0;
               decode_loop input (wr + 1) output })
          else decode_loop input wr output })"
  by pat_completeness auto
termination
  by (relation "measure (\<lambda>(input, wr, output). length input)") auto

declare decode_loop.simps(2) [simp del]

definition decode :: "u8 list \<Rightarrow> u8 list \<Rightarrow> ((wire_error + nat) \<times> u8 list) option" where
  "decode input output =
     (if input = [] then Some (Inl MalformedCobs, output) else decode_loop input 0 output)"

section \<open>The reference encoding\<close>

text \<open>
  \<open>block_code n\<close> is the code byte of a block of \<open>n\<close> data bytes, and \<open>cobs_blocks blk bs\<close> the
  encoding of \<open>bs\<close> when \<open>blk\<close> is the open block.
\<close>

definition block_code :: "nat \<Rightarrow> u8" where
  "block_code n = of_nat (n + 1)"

lemma unat_block_code: "n < 255 \<Longrightarrow> unat (block_code n) = n + 1"
  unfolding block_code_def by (rule unat_of_nat_u8) simp

lemma block_code_nz: "n < 255 \<Longrightarrow> block_code n \<noteq> 0"
  using unat_block_code [of n] by auto

lemma block_code_0: "block_code 0 = 1"
  by (simp add: block_code_def)

lemma block_code_254: "block_code 254 = 0xff"
  by (simp add: block_code_def)

lemma block_code_nff: "n < 254 \<Longrightarrow> block_code n \<noteq> 0xff"
  using unat_block_code [of n] by auto

lemma block_code_Suc: "block_code n + 1 = block_code (Suc n)"
  by (simp add: block_code_def)

lemmas block_codes = unat_block_code block_code_nz block_code_0 block_code_254 block_code_nff
  block_code_Suc

fun cobs_blocks :: "u8 list \<Rightarrow> u8 list \<Rightarrow> u8 list" where
  "cobs_blocks blk [] = block_code (length blk) # blk"
| "cobs_blocks blk (b # bs) =
     (if b = 0 then (block_code (length blk) # blk) @ cobs_blocks [] bs
      else if length blk + 1 = 254 then (0xff # blk @ [b]) @ cobs_blocks [] bs
      else cobs_blocks (blk @ [b]) bs)"

lemma length_cobs_blocks_ge: "length blk + 1 \<le> length (cobs_blocks blk bs)"
  by (induction blk bs rule: cobs_blocks.induct) auto

lemma cobs_blocks_Cons: obtains c cs where "cobs_blocks blk bs = c # cs"
  using length_cobs_blocks_ge [of blk bs] by (cases "cobs_blocks blk bs") auto

lemma cobs_blocks_nonempty [simp]: "cobs_blocks blk bs \<noteq> []"
  using length_cobs_blocks_ge [of blk bs] by auto

lemma cobs_blocks_no_zero:
  "length blk < 254 \<Longrightarrow> 0 \<notin> set blk \<Longrightarrow> 0 \<notin> set (cobs_blocks blk bs)"
proof (induction blk bs rule: cobs_blocks.induct)
  case (1 blk)
  then show ?case using block_code_nz [of "length blk"] by simp
next
  case (2 blk b bs)
  have "block_code (length blk) \<noteq> 0"
    using "2.prems" by (intro block_code_nz) simp
  with 2 show ?case by auto
qed

lemma length_cobs_blocks:
  "length blk < 254 \<Longrightarrow>
   length (cobs_blocks blk bs) \<le> max_encoded_len (length blk + length bs)"
proof (induction blk bs rule: cobs_blocks.induct)
  case (1 blk)
  then show ?case by (simp add: max_encoded_len_def)
next
  case (2 blk b bs)
  consider "b = 0" | "b \<noteq> 0" "length blk = 253" | "b \<noteq> 0" "length blk < 253"
    using "2.prems" by linarith
  then show ?case
  proof cases
    case 1
    have "length bs div 254 \<le> (length blk + Suc (length bs)) div 254"
      by (rule div_le_mono) simp
    with 1 "2.IH"(1) show ?thesis by (simp add: max_encoded_len_def)
  next
    case 2
    then have "length blk + length (b # bs) = length bs + 254" by simp
    then have "(length blk + length (b # bs)) div 254 = length bs div 254 + 1" by simp
    with 2 "2.IH"(2) show ?thesis by (simp add: max_encoded_len_def)
  next
    case 3
    with "2.IH"(3) show ?thesis by simp
  qed
qed

section \<open>The encoder implements it\<close>

lemma encode_loop_zero:
  "encode_loop (0 # bs) (length pre + 1 + length blk) (length pre) code (pre @ x # blk @ y # rest) =
   encode_loop bs (length (pre @ code # blk) + 1) (length (pre @ code # blk)) 1
     ((pre @ code # blk) @ y # rest)"
  by (simp add: buf_simps)

lemma encode_loop_full:
  assumes "b \<noteq> 0" and "code + 1 = 0xff"
  shows "encode_loop (b # bs) (length pre + 1 + length blk) (length pre) code
      (pre @ x # blk @ y # z # rest) =
   encode_loop bs (length (pre @ 0xff # blk @ [b]) + 1) (length (pre @ 0xff # blk @ [b])) 1
     ((pre @ 0xff # blk @ [b]) @ z # rest)"
  using assms poke_append_Cons [of "length pre + 1 + length blk" "pre @ x # blk" y "z # rest" b]
    poke_append_Cons [of "length pre" pre x "blk @ b # z # rest" "0xff :: u8"]
  by (simp add: Let_def)

lemma encode_loop_more:
  assumes "b \<noteq> 0" and "code + 1 \<noteq> 0xff"
  shows "encode_loop (b # bs) (length pre + 1 + length blk) (length pre) code
      (pre @ x # blk @ y # rest) =
   encode_loop bs (length pre + 1 + length (blk @ [b])) (length pre) (code + 1)
     (pre @ x # (blk @ [b]) @ rest)"
  using assms poke_append_Cons [of "length pre + 1 + length blk" "pre @ x # blk" y rest b]
  by (simp add: Let_def)

lemma encode_loop_blocks:
  assumes "length blk < 254" and "length (cobs_blocks blk bs) \<le> length blk + 1 + length rest"
  shows "encode_loop bs (length pre + 1 + length blk) (length pre) (block_code (length blk))
           (pre @ x # blk @ rest) =
         Some (length pre + length (cobs_blocks blk bs),
               pre @ cobs_blocks blk bs @
                 drop (length (cobs_blocks blk bs) - (length blk + 1)) rest)"
  using assms
proof (induction blk bs arbitrary: pre x rest rule: cobs_blocks.induct)
  case (1 blk)
  then show ?case by (simp add: buf_simps)
next
  case (2 blk b bs)
  obtain c cs where cobs: "cobs_blocks [] bs = c # cs" by (rule cobs_blocks_Cons)
  consider (zero) "b = 0" | (full) "b \<noteq> 0" "length blk = 253" | (more) "b \<noteq> 0" "length blk < 253"
    using "2.prems" by linarith
  then show ?case
  proof cases
    case zero
    with "2.prems" cobs obtain y rest' where rest: "rest = y # rest'" by (cases rest) auto
    with zero "2.prems" have len: "length (cobs_blocks [] bs) \<le> length [] + 1 + length rest'" by simp
    let ?pre = "pre @ block_code (length blk) # blk"
    have "encode_loop (b # bs) (length pre + 1 + length blk) (length pre) (block_code (length blk))
        (pre @ x # blk @ rest) =
      encode_loop bs (length ?pre + 1 + length ([] :: u8 list)) (length ?pre) (block_code (length ([] :: u8 list)))
        (?pre @ y # [] @ rest')"
      unfolding zero rest encode_loop_zero by (simp add: block_code_0)
    also have "\<dots> = Some (length ?pre + length (cobs_blocks [] bs), ?pre @ cobs_blocks [] bs @
        drop (length (cobs_blocks [] bs) - (length ([] :: u8 list) + 1)) rest')"
      by (rule "2.IH"(1) [OF zero _ len]) simp
    finally show ?thesis
      using zero rest cobs by simp
  next
    case full
    with "2.prems" cobs obtain y rest1 where rest1: "rest = y # rest1" by (cases rest) auto
    with full "2.prems" cobs obtain z rest' where rest: "rest = y # z # rest'" by (cases rest1) auto
    with full "2.prems" have len: "length (cobs_blocks [] bs) \<le> length [] + 1 + length rest'" by simp
    from full have code: "block_code (length blk) + 1 = 0xff"
      by (simp add: block_code_Suc block_code_254)
    let ?pre = "pre @ 0xff # blk @ [b]"
    have "encode_loop (b # bs) (length pre + 1 + length blk) (length pre) (block_code (length blk))
        (pre @ x # blk @ rest) =
      encode_loop bs (length ?pre + 1 + length ([] :: u8 list)) (length ?pre) (block_code (length ([] :: u8 list)))
        (?pre @ z # [] @ rest')"
      unfolding rest encode_loop_full [OF full(1) code] by (simp add: block_code_0)
    also have "\<dots> = Some (length ?pre + length (cobs_blocks [] bs), ?pre @ cobs_blocks [] bs @
        drop (length (cobs_blocks [] bs) - (length ([] :: u8 list) + 1)) rest')"
      using full by (intro "2.IH"(2) [OF full(1) _ _ len]) simp_all
    finally show ?thesis
      using full rest cobs by simp
  next
    case more
    from more have cb: "cobs_blocks blk (b # bs) = cobs_blocks (blk @ [b]) bs" by simp
    have "length blk + 2 \<le> length (cobs_blocks (blk @ [b]) bs)"
      using length_cobs_blocks_ge [of "blk @ [b]" bs] by simp
    with "2.prems" cb obtain y rest' where rest: "rest = y # rest'"
      by (cases rest) auto
    from more rest "2.prems" have len:
      "length (cobs_blocks (blk @ [b]) bs) \<le> length (blk @ [b]) + 1 + length rest'" by simp
    from more have code: "block_code (length blk) + 1 \<noteq> 0xff"
      by (simp add: block_code_Suc block_code_nff)
    have "encode_loop (b # bs) (length pre + 1 + length blk) (length pre) (block_code (length blk))
        (pre @ x # blk @ rest) =
      encode_loop bs (length pre + 1 + length (blk @ [b])) (length pre)
        (block_code (length (blk @ [b]))) (pre @ x # (blk @ [b]) @ rest')"
      unfolding rest encode_loop_more [OF more(1) code] by (simp add: block_code_Suc)
    also have "\<dots> = Some (length pre + length (cobs_blocks (blk @ [b]) bs), pre @
        cobs_blocks (blk @ [b]) bs @
        drop (length (cobs_blocks (blk @ [b]) bs) - (length (blk @ [b]) + 1)) rest')"
      using more by (intro "2.IH"(3) [OF more(1) _ _ len]) simp_all
    finally show ?thesis
      using cb rest \<open>length blk + 2 \<le> _\<close> by (simp add: drop_Cons')
  qed
qed

lemma encode_blocks:
  assumes "max_encoded_len (length input) \<le> length out"
  shows "encode input out =
    Some (Inr (length (cobs_blocks [] input)),
          cobs_blocks [] input @ drop (length (cobs_blocks [] input)) out)"
proof -
  obtain c cs where cobs: "cobs_blocks [] input = c # cs" by (rule cobs_blocks_Cons)
  have le: "length (cobs_blocks [] input) \<le> length out"
    using length_cobs_blocks [of "[]" input] assms by simp
  with cobs obtain x rest where out: "out = x # rest"
    by (cases out) auto
  with le have "encode_loop input 1 0 1 out =
      Some (length (cobs_blocks [] input), cobs_blocks [] input @
        drop (length (cobs_blocks [] input) - 1) rest)"
    using encode_loop_blocks [of "[]" input rest "[]" x] by (simp add: block_code_0)
  with assms out cobs show ?thesis
    by (simp add: encode_def)
qed

lemma encode_small:
  "length out < max_encoded_len (length input) \<Longrightarrow> encode input out = Some (Inl OutputTooSmall, out)"
  by (simp add: encode_def)

section \<open>The decoder inverts it\<close>

text \<open>One decoded block: its data is copied, and a zero follows unless it was full or last.\<close>

lemma decode_block:
  assumes "length blk < 255" and "wr + length blk \<le> length out"
  shows "decode_loop (block_code (length blk) # blk @ input) wr out =
    (let out' = take wr out @ blk @ drop (wr + length blk) out; w = wr + length blk in
     if block_code (length blk) \<noteq> 0xff \<and> input \<noteq> [] then
       (if w = length out then Some (Inl OutputTooSmall, out')
        else decode_loop input (w + 1) (out'[w := 0]))
     else decode_loop input w out')"
  using assms block_code_nz [OF assms(1)]
  by (simp add: decode_loop.simps(2) unat_block_code blit_def poke_def Let_def)

lemma decode_loop_blocks:
  assumes "length blk < 254" and "wr + length blk + length bs \<le> length out"
  shows "decode_loop (cobs_blocks blk bs) wr out =
    Some (Inr (wr + length blk + length bs),
          take wr out @ blk @ bs @ drop (wr + length blk + length bs) out)"
  using assms
proof (induction blk bs arbitrary: wr out rule: cobs_blocks.induct)
  case (1 blk)
  then show ?case
    using decode_block [of blk wr out "[]"] by (simp add: Let_def)
next
  case (2 blk b bs)
  consider (zero) "b = 0" | (full) "b \<noteq> 0" "length blk = 253" | (more) "b \<noteq> 0" "length blk < 253"
    using "2.prems" by linarith
  then show ?case
  proof cases
    case zero
    let ?w = "wr + length blk"
    let ?out = "(take wr out @ blk @ drop ?w out)[?w := 0]"
    have step: "decode_loop (cobs_blocks blk (b # bs)) wr out = decode_loop (cobs_blocks [] bs) (?w + 1) ?out"
      using zero "2.prems" decode_block [of blk wr out "cobs_blocks [] bs"]
      by (simp add: Let_def block_code_nff)
    obtain y ys where suf: "drop ?w out = y # ys"
      using "2.prems" by (cases "drop ?w out") auto
    then have out_eq: "?out = take wr out @ blk @ 0 # ys" and ys: "ys = drop (?w + 1) out"
      using "2.prems" by (simp_all add: list_update_append drop_Suc tl_drop [symmetric])
    from "2.IH"(1) [OF zero, of "?w + 1" ?out] "2.prems" show ?thesis
      unfolding step unfolding out_eq using zero ys by (simp add: ac_simps)
  next
    case full
    let ?out = "take wr out @ (blk @ [b]) @ drop (wr + 254) out"
    have step: "decode_loop (cobs_blocks blk (b # bs)) wr out =
        decode_loop (cobs_blocks [] bs) (wr + 254) ?out"
      using full "2.prems" decode_block [of "blk @ [b]" wr out "cobs_blocks [] bs"]
      by (simp add: Let_def block_code_254)
    from "2.IH"(2) [OF full(1), of "wr + 254" ?out] "2.prems" full show ?thesis
      unfolding step by (simp add: ac_simps)
  next
    case more
    with "2.IH"(3) [OF more(1), of wr out] "2.prems" show ?thesis by simp
  qed
qed

lemma decode_blocks:
  "length input \<le> length out \<Longrightarrow>
   decode (cobs_blocks [] input) out = Some (Inr (length input), input @ drop (length input) out)"
  using decode_loop_blocks [of "[]" 0 input out] by (simp add: decode_def)

text \<open>On every input the decoder stays inside its buffer: no index panic.\<close>

lemma decode_loop_total:
  "wr \<le> length out \<Longrightarrow> \<exists>r out'. decode_loop input wr out = Some (r, out') \<and>
    length out' = length out \<and> (\<forall>n. r = Inr n \<longrightarrow> n \<le> length out)"
proof (induction input wr out rule: decode_loop.induct)
  case (1 wr out)
  then show ?case by simp
next
  case (2 code input wr out)
  let ?n = "unat code - 1"
  let ?out = "take wr out @ take ?n input @ drop (wr + ?n) out"
  show ?case
  proof (cases "code = 0 \<or> ?n > length input \<or> wr + ?n > length out")
    case True
    then show ?thesis by (auto simp: decode_loop.simps(2) Let_def)
  next
    case False
    then have b: "blit out wr (take ?n input) = Some ?out" and len: "length ?out = length out"
      by (simp_all add: blit_def)
    consider "code \<noteq> 0xff \<and> drop ?n input \<noteq> []" "wr + ?n = length out"
      | (more) "code \<noteq> 0xff \<and> drop ?n input \<noteq> []" "wr + ?n < length out"
      | (last) "\<not> (code \<noteq> 0xff \<and> drop ?n input \<noteq> [])"
      using False by linarith
    then show ?thesis
    proof cases
      case 1
      with False b len show ?thesis by (simp add: decode_loop.simps(2) Let_def)
    next
      case more
      with len have "poke ?out (wr + ?n) 0 = Some (?out[wr + ?n := 0])" by (simp add: poke_def)
      with "2.IH"(1) [of ?n ?out "drop ?n input" "wr + ?n" "?out[wr + ?n := 0]"] False more b len
      show ?thesis by (simp add: decode_loop.simps(2) Let_def)
    next
      case last
      with "2.IH"(2) [of ?n ?out "drop ?n input" "wr + ?n"] False b len
      show ?thesis by (auto simp: decode_loop.simps(2) Let_def)
    qed
  qed
qed

lemma decode_total:
  "\<exists>r out'. decode input out = Some (r, out') \<and> length out' = length out \<and>
    (\<forall>n. r = Inr n \<longrightarrow> n \<le> length out)"
  using decode_loop_total [of 0 out input] by (simp add: decode_def)

end
