(* ===== verification/Crc.thy ===== *)
theory Crc
  imports Prelude
begin

unbundle bit_operations_syntax

text \<open>
  \<open>crates/rubik-link-protocol/src/crc.rs\<close>: CRC-16/CCITT-FALSE, bit by bit as the source computes
  it. The lemmas show that a message step is a bijection of the register, so a change confined to
  one byte always changes the checksum.
\<close>

definition POLYNOMIAL :: u16 where "POLYNOMIAL = 0x1021"

definition INITIAL_VALUE :: u16 where "INITIAL_VALUE = 0xffff"

definition crc_bit :: "u16 \<Rightarrow> u16" where
  "crc_bit crc =
     (if crc AND 0x8000 \<noteq> 0 then push_bit 1 crc XOR POLYNOMIAL else push_bit 1 crc)"

definition crc_byte :: "u16 \<Rightarrow> u8 \<Rightarrow> u16" where
  "crc_byte crc byte = (crc_bit ^^ 8) (crc XOR push_bit 8 (ucast byte))"

definition crc16_ccitt_false :: "u8 list \<Rightarrow> u16" where
  "crc16_ccitt_false bytes = fold (\<lambda>byte crc. crc_byte crc byte) bytes INITIAL_VALUE"

section \<open>The register step is a bijection\<close>

lemma msb_test: "(c :: u16) AND 0x8000 \<noteq> 0 \<longleftrightarrow> bit c 15"
proof -
  have "(0x8000 :: u16) = push_bit 15 1" by simp
  then show ?thesis
    by (metis and_exp_eq_0_iff_not_bit push_bit_of_1)
qed

lemma xor_cancel: "(a :: 'a::len word) XOR c = b XOR c \<longleftrightarrow> a = b"
  by (auto simp: bit_eq_iff bit_simps)

lemma crc_bit_odd: "bit (crc_bit c) 0 = bit c 15"
  by (auto simp add: crc_bit_def msb_test POLYNOMIAL_def bit_xor_iff bit_push_bit_iff simp del: push_bit_of_Suc_0 push_bit_Suc)

lemma crc_bit_inj: "crc_bit a = crc_bit b \<longleftrightarrow> a = b"
proof
  assume eq: "crc_bit a = crc_bit b"
  then have msb: "bit a 15 = bit b 15"
    by (metis crc_bit_odd)
  with eq have sh: "push_bit 1 a = push_bit 1 b"
    by (simp add: crc_bit_def msb_test xor_cancel split: if_splits)
  show "a = b"
  proof (rule bit_word_eqI)
    fix n assume n: "n < LENGTH(16)"
    show "bit a n = bit b n"
    proof (cases "n = 15")
      case True
      with msb show ?thesis by simp
    next
      case False
      with n have "bit (push_bit 1 a) (Suc n) = bit a n" "bit (push_bit 1 b) (Suc n) = bit b n"
        by (auto simp: bit_push_bit_iff simp del: push_bit_of_Suc_0 push_bit_Suc push_bit_numeral_minus_1)
      with sh show ?thesis by simp
    qed
  qed
qed simp

lemma crc_bit_pow_inj: "(crc_bit ^^ n) a = (crc_bit ^^ n) b \<longleftrightarrow> a = b"
  by (induction n) (simp_all add: crc_bit_inj)

lemma crc_byte_register_inj: "crc_byte a x = crc_byte b x \<longleftrightarrow> a = b"
  by (simp add: crc_byte_def crc_bit_pow_inj xor_cancel)

lemma push_byte_inj: "push_bit 8 (ucast (x :: u8) :: u16) = push_bit 8 (ucast y) \<longleftrightarrow> x = y"
proof
  assume eq: "push_bit 8 (ucast x :: u16) = push_bit 8 (ucast y)"
  show "x = y"
  proof (rule bit_word_eqI)
    fix n assume "n < LENGTH(8)"
    moreover from eq have "bit (push_bit 8 (ucast x :: u16)) (n + 8) =
        bit (push_bit 8 (ucast y :: u16)) (n + 8)"
      by simp
    ultimately show "bit x n = bit y n"
      by (simp add: bit_simps)
  qed
qed simp

lemma crc_byte_inj: "crc_byte c x = crc_byte c y \<longleftrightarrow> x = y"
  by (simp add: crc_byte_def crc_bit_pow_inj xor.commute [of c] xor_cancel push_byte_inj)

definition crc_from :: "u16 \<Rightarrow> u8 list \<Rightarrow> u16" where
  "crc_from c bytes = fold (\<lambda>byte crc. crc_byte crc byte) bytes c"

lemma crc_from_simps [simp]:
  "crc_from c [] = c" "crc_from c (x # xs) = crc_from (crc_byte c x) xs"
  "crc_from c (xs @ ys) = crc_from (crc_from c xs) ys"
  by (simp_all add: crc_from_def)

lemma crc16_eq_crc_from: "crc16_ccitt_false xs = crc_from INITIAL_VALUE xs"
  by (simp add: crc16_ccitt_false_def crc_from_def)

lemma crc_from_inj: "crc_from a xs = crc_from b xs \<longleftrightarrow> a = b"
  by (induction xs arbitrary: a b) (simp_all add: crc_byte_register_inj)

lemma crc16_one_byte:
  "crc16_ccitt_false (pre @ x # suf) = crc16_ccitt_false (pre @ y # suf) \<longleftrightarrow> x = y"
  by (simp add: crc16_eq_crc_from crc_from_inj crc_byte_inj)

end
