(* ===== verification/Opcode.thy ===== *)
theory Opcode
  imports Prelude
begin

text \<open>
  \<open>crates/rubik-link-protocol/src/opcode.rs\<close>: the three opcode families, the discriminant of each
  variant (\<open>From\<close>) and the checked conversion back (\<open>TryFrom\<close>, whose error is the raw value),
  as the macro \<open>opcode_enum\<close> generates them.
\<close>

datatype request_opcode =
    GetStatus | Grip | StartScan | Solve | Execute | ScanSolveExecute | Open | RecoverToOpen
  | ExecuteMoves | Abort

datatype response_opcode = CommandAccepted | CommandRejected | StatusSnapshot

datatype event_opcode =
    RobotStateChanged | StandStateChanged | FaceScanned | PlanChanged | ActionStarted
  | ActionCompleted | OperationCompleted | Aborted | CubeSessionChanged | OperationFailed | Fault

fun request_u16 :: "request_opcode \<Rightarrow> u16" where
  "request_u16 GetStatus = 0x0001"
| "request_u16 Grip = 0x0010"
| "request_u16 StartScan = 0x0011"
| "request_u16 Solve = 0x0012"
| "request_u16 Execute = 0x0013"
| "request_u16 ScanSolveExecute = 0x0014"
| "request_u16 Open = 0x0015"
| "request_u16 RecoverToOpen = 0x0016"
| "request_u16 ExecuteMoves = 0x0017"
| "request_u16 Abort = 0x00ff"

definition request_try_from :: "u16 \<Rightarrow> u16 + request_opcode" where
  "request_try_from value =
     (if value = 0x0001 then Inr GetStatus
      else if value = 0x0010 then Inr Grip
      else if value = 0x0011 then Inr StartScan
      else if value = 0x0012 then Inr Solve
      else if value = 0x0013 then Inr Execute
      else if value = 0x0014 then Inr ScanSolveExecute
      else if value = 0x0015 then Inr Open
      else if value = 0x0016 then Inr RecoverToOpen
      else if value = 0x0017 then Inr ExecuteMoves
      else if value = 0x00ff then Inr Abort
      else Inl value)"

fun response_u16 :: "response_opcode \<Rightarrow> u16" where
  "response_u16 CommandAccepted = 0x1000"
| "response_u16 CommandRejected = 0x1001"
| "response_u16 StatusSnapshot = 0x1002"

definition response_try_from :: "u16 \<Rightarrow> u16 + response_opcode" where
  "response_try_from value =
     (if value = 0x1000 then Inr CommandAccepted
      else if value = 0x1001 then Inr CommandRejected
      else if value = 0x1002 then Inr StatusSnapshot
      else Inl value)"

fun event_u16 :: "event_opcode \<Rightarrow> u16" where
  "event_u16 RobotStateChanged = 0x2000"
| "event_u16 StandStateChanged = 0x2001"
| "event_u16 FaceScanned = 0x2002"
| "event_u16 PlanChanged = 0x2003"
| "event_u16 ActionStarted = 0x2004"
| "event_u16 ActionCompleted = 0x2005"
| "event_u16 OperationCompleted = 0x2006"
| "event_u16 Aborted = 0x2007"
| "event_u16 CubeSessionChanged = 0x2008"
| "event_u16 OperationFailed = 0x2009"
| "event_u16 Fault = 0x20ff"

definition event_try_from :: "u16 \<Rightarrow> u16 + event_opcode" where
  "event_try_from value =
     (if value = 0x2000 then Inr RobotStateChanged
      else if value = 0x2001 then Inr StandStateChanged
      else if value = 0x2002 then Inr FaceScanned
      else if value = 0x2003 then Inr PlanChanged
      else if value = 0x2004 then Inr ActionStarted
      else if value = 0x2005 then Inr ActionCompleted
      else if value = 0x2006 then Inr OperationCompleted
      else if value = 0x2007 then Inr Aborted
      else if value = 0x2008 then Inr CubeSessionChanged
      else if value = 0x2009 then Inr OperationFailed
      else if value = 0x20ff then Inr Fault
      else Inl value)"

section \<open>Discriminants and conversions agree\<close>

lemma request_try_from_u16 [simp]: "request_try_from (request_u16 opc) = Inr opc"
  by (cases opc) (simp_all add: request_try_from_def)

lemma request_u16_try_from: "request_try_from v = Inr opc \<Longrightarrow> request_u16 opc = v"
  by (auto simp: request_try_from_def split: if_splits)

lemma request_try_from_iff: "request_try_from v = Inr opc \<longleftrightarrow> v = request_u16 opc"
  by (metis request_try_from_u16 request_u16_try_from)

lemma response_try_from_iff: "response_try_from v = Inr opc \<longleftrightarrow> v = response_u16 opc"
  by (cases opc) (auto simp: response_try_from_def)

lemma event_try_from_iff: "event_try_from v = Inr opc \<longleftrightarrow> v = event_u16 opc"
  by (cases opc) (auto simp: event_try_from_def)

lemma request_family: "request_u16 q < 0x1000"
  by (cases q) simp_all

lemma response_family: "0x1000 \<le> response_u16 r \<and> response_u16 r < 0x2000"
  by (cases r) simp_all

lemma event_family: "0x2000 \<le> event_u16 e"
  by (cases e) simp_all

end
