(* ===== verification/Wire.thy ===== *)
theory Wire
  imports Cobs Crc Opcode
begin

text \<open>
  \<open>crates/rubik-link-protocol/src/wire.rs\<close>: the packet header, its checksum, and UART framing.
  Encoders write into the caller's buffers with \<open>blit\<close>/\<open>poke\<close> at the source's offsets;
  \<open>None\<close> is an index panic. \<open>packet_bytes\<close> is the reference encoding: the encoder writes
  exactly it, and the decoder accepts exactly the images of packets within the payload bound.
\<close>

definition PROTOCOL_VERSION :: u8 where "PROTOCOL_VERSION = 1"
definition HEADER_LEN :: nat where "HEADER_LEN = 10"
definition CRC_LEN :: nat where "CRC_LEN = 2"
definition MAX_PAYLOAD_LEN :: nat where "MAX_PAYLOAD_LEN = 1024"
definition MAX_PACKET_LEN :: nat where "MAX_PACKET_LEN = HEADER_LEN + MAX_PAYLOAD_LEN + CRC_LEN"
definition MAX_UART_FRAME_LEN :: nat where
  "MAX_UART_FRAME_LEN = MAX_PACKET_LEN + MAX_PACKET_LEN div 254 + 2"
definition UART_DELIMITER :: u8 where "UART_DELIMITER = 0"

lemmas wire_consts = PROTOCOL_VERSION_def HEADER_LEN_def CRC_LEN_def MAX_PAYLOAD_LEN_def
  MAX_PACKET_LEN_def MAX_UART_FRAME_LEN_def UART_DELIMITER_def

datatype message_kind = Request | Response | Event

fun message_kind_u8 :: "message_kind \<Rightarrow> u8" where
  "message_kind_u8 Request = 1"
| "message_kind_u8 Response = 2"
| "message_kind_u8 Event = 3"

definition message_kind_try_from :: "u8 \<Rightarrow> wire_error + message_kind" where
  "message_kind_try_from value =
     (if value = 1 then Inr Request
      else if value = 2 then Inr Response
      else if value = 3 then Inr Event
      else Inl (UnknownMessageKind value))"

record packet =
  pkt_kind :: message_kind
  pkt_opcode :: u16
  pkt_request_id :: u32
  pkt_payload :: "u8 list"

definition encode_packet :: "packet \<Rightarrow> u8 list \<Rightarrow> ((wire_error + nat) \<times> u8 list) option" where
  "encode_packet p output =
     (if length (pkt_payload p) > MAX_PAYLOAD_LEN \<or> length (pkt_payload p) > 65535
      then Some (Inl PayloadTooLarge, output)
      else let packet_len = HEADER_LEN + length (pkt_payload p) + CRC_LEN in
        if length output < packet_len then Some (Inl OutputTooSmall, output)
        else do {
          output \<leftarrow> poke output 0 PROTOCOL_VERSION;
          output \<leftarrow> poke output 1 (message_kind_u8 (pkt_kind p));
          output \<leftarrow> blit output 2 (to_le16 (pkt_opcode p));
          output \<leftarrow> blit output 4 (to_le32 (pkt_request_id p));
          output \<leftarrow> blit output 8 (to_le16 (of_nat (length (pkt_payload p))));
          output \<leftarrow> blit output HEADER_LEN (pkt_payload p);
          let crc_offset = HEADER_LEN + length (pkt_payload p);
              crc = crc16_ccitt_false (take crc_offset output) in do {
          output \<leftarrow> blit output crc_offset (to_le16 crc);
          Some (Inr packet_len, output) } })"

definition decode_packet :: "u8 list \<Rightarrow> wire_error + packet" where
  "decode_packet input =
     (if length input < HEADER_LEN + CRC_LEN then Inl PacketTooShort
      else if input ! 0 \<noteq> PROTOCOL_VERSION then Inl (UnsupportedVersion (input ! 0))
      else let payload_len = unat (from_le16 (input ! 8) (input ! 9)) in
        if payload_len > MAX_PAYLOAD_LEN then Inl PayloadTooLarge
        else let expected_len = HEADER_LEN + payload_len + CRC_LEN in
          if length input \<noteq> expected_len then Inl LengthMismatch
          else let crc_offset = HEADER_LEN + payload_len;
                   expected = from_le16 (input ! crc_offset) (input ! (crc_offset + 1));
                   actual = crc16_ccitt_false (take crc_offset input) in
            if expected \<noteq> actual then Inl (CrcMismatch expected actual)
            else case message_kind_try_from (input ! 1) of
              Inl e \<Rightarrow> Inl e
            | Inr kind \<Rightarrow> Inr \<lparr> pkt_kind = kind,
                pkt_opcode = from_le16 (input ! 2) (input ! 3),
                pkt_request_id = from_le32 (input ! 4) (input ! 5) (input ! 6) (input ! 7),
                pkt_payload = drop HEADER_LEN (take crc_offset input) \<rparr>)"

definition frame_uart ::
    "packet \<Rightarrow> u8 list \<Rightarrow> u8 list \<Rightarrow> ((wire_error + nat) \<times> u8 list \<times> u8 list) option" where
  "frame_uart p packet_scratch output = do {
     (r, packet_scratch) \<leftarrow> encode_packet p packet_scratch;
     case r of
       Inl e \<Rightarrow> Some (Inl e, packet_scratch, output)
     | Inr packet_len \<Rightarrow>
         if length output < max_encoded_len packet_len + 1
         then Some (Inl OutputTooSmall, packet_scratch, output)
         else do {
           (r, output) \<leftarrow> encode (take packet_len packet_scratch) output;
           case r of
             Inl e \<Rightarrow> Some (Inl e, packet_scratch, output)
           | Inr encoded_len \<Rightarrow> do {
               output \<leftarrow> poke output encoded_len UART_DELIMITER;
               Some (Inr (encoded_len + 1), packet_scratch, output) } } }"

definition parse_uart_frame ::
    "u8 list \<Rightarrow> u8 list \<Rightarrow> ((wire_error + packet) \<times> u8 list) option" where
  "parse_uart_frame frame decoded =
     (if frame = [] \<or> last frame \<noteq> UART_DELIMITER then Some (Inl MissingUartDelimiter, decoded)
      else do {
        (r, decoded) \<leftarrow> decode (take (length frame - 1) frame) decoded;
        case r of
          Inl e \<Rightarrow> Some (Inl e, decoded)
        | Inr decoded_len \<Rightarrow>
            if decoded_len > length decoded then None
            else Some (decode_packet (take decoded_len decoded), decoded) })"

section \<open>The reference encoding\<close>

definition packet_header :: "packet \<Rightarrow> u8 list" where
  "packet_header p = [PROTOCOL_VERSION, message_kind_u8 (pkt_kind p)] @ to_le16 (pkt_opcode p) @
     to_le32 (pkt_request_id p) @ to_le16 (of_nat (length (pkt_payload p)))"

definition packet_body :: "packet \<Rightarrow> u8 list" where
  "packet_body p = packet_header p @ pkt_payload p"

definition packet_bytes :: "packet \<Rightarrow> u8 list" where
  "packet_bytes p = packet_body p @ to_le16 (crc16_ccitt_false (packet_body p))"

definition packet_ok :: "packet \<Rightarrow> bool" where
  "packet_ok p \<longleftrightarrow> length (pkt_payload p) \<le> MAX_PAYLOAD_LEN"

lemma length_packet_header [simp]: "length (packet_header p) = 10"
  by (simp add: packet_header_def)

lemma length_packet_body [simp]: "length (packet_body p) = 10 + length (pkt_payload p)"
  by (simp add: packet_body_def)

lemma length_packet_bytes [simp]: "length (packet_bytes p) = 12 + length (pkt_payload p)"
  by (simp add: packet_bytes_def)

lemma message_kind_try_from_iff: "message_kind_try_from v = Inr k \<longleftrightarrow> v = message_kind_u8 k"
  by (cases k) (auto simp: message_kind_try_from_def)

lemma list_of_length_10:
  assumes "length xs = 10"
  obtains a b c d e f g h i j where "xs = [a, b, c, d, e, f, g, h, i, j]"
  using assms by (auto simp: length_Suc_conv numeral_eq_Suc)

lemma list_of_length_2:
  assumes "length xs = 2"
  obtains a b where "xs = [a, b]"
  using assms by (auto simp: length_Suc_conv numeral_eq_Suc)

lemma header_offsets:
  "take (10 + n) (a # b # c # d # e # f # g # h # i # j # xs) = a # b # c # d # e # f # g # h # i # j # take n xs"
  "drop (10 + n) (a # b # c # d # e # f # g # h # i # j # xs) = drop n xs"
  "drop (12 + n) (a # b # c # d # e # f # g # h # i # j # xs) = drop (2 + n) xs"
  "(a # b # c # d # e # f # g # h # i # j # xs) ! (10 + n) = xs ! n"
  "(a # b # c # d # e # f # g # h # i # j # xs) ! (11 + n) = xs ! Suc n"
  by (simp_all add: numeral_eq_Suc)

lemma encode_packet_bytes:
  assumes "packet_ok p" and "length (packet_bytes p) \<le> length out"
  shows "encode_packet p out =
    Some (Inr (length (packet_bytes p)), packet_bytes p @ drop (length (packet_bytes p)) out)"
proof -
  obtain hd r where r: "out = hd @ r" "length hd = 10"
    using split_buffer [of 10 out] assms by auto
  obtain zs r' where r': "r = zs @ r'" "length zs = length (pkt_payload p)"
    using split_buffer [of "length (pkt_payload p)" r] assms r by auto
  obtain crc rest where rest: "r' = crc @ rest" "length crc = 2"
    using split_buffer [of 2 r'] assms r r' by auto
  obtain a b c d e f g h i j where hd: "hd = [a, b, c, d, e, f, g, h, i, j]"
    using list_of_length_10 [OF r(2)] .
  show ?thesis
    using assms r' rest
    by (simp add: r(1) hd encode_packet_def packet_ok_def wire_consts poke_def blit_def to_le16_def
        to_le32_def packet_bytes_def packet_body_def packet_header_def Let_def header_offsets
        add.commute [of 2])
qed

lemma packet_bytes_eq:
  "packet_bytes p =
     PROTOCOL_VERSION # message_kind_u8 (pkt_kind p) # ucast (pkt_opcode p) #
     ucast (drop_bit 8 (pkt_opcode p)) # ucast (pkt_request_id p) #
     ucast (drop_bit 8 (pkt_request_id p)) # ucast (drop_bit 16 (pkt_request_id p)) #
     ucast (drop_bit 24 (pkt_request_id p)) # ucast (of_nat (length (pkt_payload p)) :: u16) #
     ucast (drop_bit 8 (of_nat (length (pkt_payload p)) :: u16)) #
     pkt_payload p @ to_le16 (crc16_ccitt_false (packet_body p))"
  by (simp add: packet_bytes_def packet_body_def packet_header_def to_le16_def to_le32_def)

lemma packet_body_eq: "take (10 + length (pkt_payload p)) (packet_bytes p) = packet_body p"
  by (simp add: packet_bytes_def)

lemma decode_packet_bytes:
  assumes "packet_ok p"
  shows "decode_packet (packet_bytes p) = Inr p"
proof -
  let ?n = "length (pkt_payload p)"
  have n: "?n \<le> 1024" using assms by (simp add: packet_ok_def MAX_PAYLOAD_LEN_def)
  then have un: "unat (of_nat ?n :: u16) = ?n" by (intro unat_of_nat_u16) simp
  have crc: "from_le16 (packet_bytes p ! (10 + ?n)) (packet_bytes p ! (11 + ?n)) =
      crc16_ccitt_false (packet_body p)"
    unfolding packet_bytes_eq header_offsets
    by (simp add: nth_append to_le16_def from_to_le16)
  have pay: "drop 10 (packet_body p) = pkt_payload p"
    by (simp add: packet_body_def)
  have idx: "packet_bytes p ! 0 = 1" "packet_bytes p ! 1 = message_kind_u8 (pkt_kind p)"
    "from_le16 (packet_bytes p ! 2) (packet_bytes p ! 3) = pkt_opcode p"
    "from_le32 (packet_bytes p ! 4) (packet_bytes p ! 5) (packet_bytes p ! 6)
       (packet_bytes p ! 7) = pkt_request_id p"
    "from_le16 (packet_bytes p ! 8) (packet_bytes p ! 9) = of_nat ?n"
    unfolding packet_bytes_eq by (simp_all add: le_simps PROTOCOL_VERSION_def)
  show ?thesis
    using n crc un message_kind_try_from_iff [of "message_kind_u8 (pkt_kind p)" "pkt_kind p"]
      packet_body_eq [of p]
    by (simp add: decode_packet_def wire_consts idx [simplified] Let_def pay
        add.commute add.left_commute)
qed

text \<open>The decoder accepts nothing else: every accepted input is the encoding of its result.\<close>

lemma decode_packet_image:
  assumes "decode_packet input = Inr p"
  shows "packet_ok p \<and> input = packet_bytes p"
proof -
  let ?n = "unat (from_le16 (input ! 8) (input ! 9))"
  from assms have len: "length input = 12 + ?n" and n: "?n \<le> 1024"
    and version: "input ! 0 = PROTOCOL_VERSION"
    and crc: "from_le16 (input ! (10 + ?n)) (input ! (11 + ?n)) =
      crc16_ccitt_false (take (10 + ?n) input)"
    by (auto simp: decode_packet_def wire_consts Let_def add.commute add.left_commute
        split: if_splits sum.splits)
  from assms obtain kind where kind: "input ! 1 = message_kind_u8 kind"
    and p: "p = \<lparr> pkt_kind = kind, pkt_opcode = from_le16 (input ! 2) (input ! 3),
      pkt_request_id = from_le32 (input ! 4) (input ! 5) (input ! 6) (input ! 7),
      pkt_payload = drop 10 (take (10 + ?n) input) \<rparr>"
    by (auto simp: decode_packet_def wire_consts Let_def message_kind_try_from_iff
        split: if_splits sum.splits)
  obtain hd r where r: "input = hd @ r" "length hd = 10"
    using split_buffer [of 10 input] len by auto
  obtain pay crc where pc: "r = pay @ crc" "length pay = ?n"
    using split_buffer [of ?n r] len r by auto
  obtain u v where uv: "crc = [u, v]"
    using list_of_length_2 [of crc] len r pc by auto
  obtain a b c d e f g h i j where hd: "hd = [a, b, c, d, e, f, g, h, i, j]"
    using list_of_length_10 [OF r(2)] .
  define m where "m = length pay"
  have ij: "?n = unat (from_le16 i j)" by (simp add: r(1) hd)
  have m: "unat (from_le16 i j) = m" using pc(2) ij by (simp add: m_def)
  then have lij: "to_le16 (of_nat m) = [i, j]"
    by (simp add: m [symmetric] to_from_le16)
  have p': "p = \<lparr> pkt_kind = kind, pkt_opcode = from_le16 c d,
      pkt_request_id = from_le32 e f g h, pkt_payload = pay \<rparr>"
    unfolding p ij m by (simp add: r(1) hd pc(1) m_def header_offsets)
  have "packet_body p = take (10 + m) input"
    using version kind lij
    by (simp add: p' packet_body_def packet_header_def le_simps r(1) hd pc(1) m_def header_offsets)
  moreover have "to_le16 (crc16_ccitt_false (take (10 + m) input)) = [u, v]"
    using crc [symmetric]
    unfolding ij m by (simp add: r(1) hd pc(1) uv m_def nth_append le_simps header_offsets)
  ultimately have "packet_bytes p = input"
    by (simp add: packet_bytes_def r(1) hd pc(1) uv m_def header_offsets)
  moreover have "packet_ok p"
    using n by (simp add: packet_ok_def p' ij m m_def MAX_PAYLOAD_LEN_def)
  ultimately show ?thesis by simp
qed

lemma decode_packet_iff: "decode_packet input = Inr p \<longleftrightarrow> packet_ok p \<and> input = packet_bytes p"
  using decode_packet_bytes decode_packet_image by blast

section \<open>Corruption\<close>

text \<open>Two accepted packets never differ in exactly one byte.\<close>

lemma packet_bytes_one_byte:
  assumes "packet_bytes p = pre @ x # suf" and "packet_bytes q = pre @ y # suf"
  shows "x = y"
proof -
  let ?k = "10 + length (pkt_payload p)"
  have len: "length (pkt_payload q) = length (pkt_payload p)"
    using assms by (metis length_append length_Cons add_left_cancel length_packet_bytes)
  have p: "packet_body p = take ?k (pre @ x # suf)"
      "to_le16 (crc16_ccitt_false (packet_body p)) = drop ?k (pre @ x # suf)"
    unfolding assms(1) [symmetric] by (simp_all add: packet_bytes_def)
  have q: "packet_body q = take ?k (pre @ y # suf)"
      "to_le16 (crc16_ccitt_false (packet_body q)) = drop ?k (pre @ y # suf)"
    unfolding assms(2) [symmetric] by (simp_all add: packet_bytes_def len)
  have le16_inj: "to_le16 v = to_le16 w \<Longrightarrow> v = w" for v w
    by (metis from_to_le16 list.inject to_le16_def)
  show ?thesis
  proof (cases "length pre < ?k")
    case True
    then obtain m where m: "?k - length pre = Suc m" by (cases "?k - length pre") auto
    have "drop ?k (pre @ x # suf) = drop ?k (pre @ y # suf)"
      using True m by simp
    with p q have "crc16_ccitt_false (packet_body p) = crc16_ccitt_false (packet_body q)"
      by (metis le16_inj)
    moreover have "packet_body p = pre @ x # take m suf" "packet_body q = pre @ y # take m suf"
      unfolding p(1) q(1) using True m by simp_all
    ultimately show ?thesis by (simp add: crc16_one_byte)
  next
    case False
    then have "packet_body p = packet_body q"
      unfolding p(1) q(1) by simp
    then have "packet_bytes p = packet_bytes q"
      by (simp add: packet_bytes_def)
    with assms show ?thesis by simp
  qed
qed

section \<open>UART frames\<close>

definition uart_frame_bytes :: "packet \<Rightarrow> u8 list" where
  "uart_frame_bytes p = cobs_blocks [] (packet_bytes p) @ [UART_DELIMITER]"

lemma cobs_body_no_delimiter: "UART_DELIMITER \<notin> set (cobs_blocks [] bs)"
  using cobs_blocks_no_zero [of "[]" bs] by (simp add: UART_DELIMITER_def)

lemma length_uart_frame:
  assumes "packet_ok p"
  shows "length (uart_frame_bytes p) \<le> MAX_UART_FRAME_LEN"
proof -
  let ?n = "length (packet_bytes p)"
  have "length (cobs_blocks [] (packet_bytes p)) \<le> ?n + ?n div 254 + 1"
    using length_cobs_blocks [of "[]" "packet_bytes p"] by (simp add: max_encoded_len_def)
  moreover have n: "?n \<le> MAX_PACKET_LEN"
    using assms by (simp add: packet_ok_def wire_consts)
  moreover from n have "?n div 254 \<le> MAX_PACKET_LEN div 254"
    by (rule div_le_mono)
  ultimately show ?thesis
    by (simp add: uart_frame_bytes_def MAX_UART_FRAME_LEN_def)
qed

lemma frame_uart_bytes:
  assumes "packet_ok p" and "length (packet_bytes p) \<le> length scratch"
    and "max_encoded_len (length (packet_bytes p)) + 1 \<le> length out"
  shows "frame_uart p scratch out =
    Some (Inr (length (uart_frame_bytes p)),
          packet_bytes p @ drop (length (packet_bytes p)) scratch,
          uart_frame_bytes p @ drop (length (uart_frame_bytes p)) out)"
proof -
  let ?c = "cobs_blocks [] (packet_bytes p)"
  have "length ?c < length out"
    using length_cobs_blocks [of "[]" "packet_bytes p"] assms(3) by simp
  then obtain y ys where "drop (length ?c) out = y # ys"
    by (cases "drop (length ?c) out") auto
  moreover from this have "ys = drop (Suc (length ?c)) out"
    by (metis drop_Suc drop_tl list.sel(3))
  ultimately show ?thesis
    using assms encode_blocks [of "packet_bytes p" out]
    by (simp add: frame_uart_def encode_packet_bytes [OF assms(1,2)] buf_simps uart_frame_bytes_def)
qed

lemma parse_uart_frame_bytes:
  assumes "packet_ok p" and "length (packet_bytes p) \<le> length decoded"
  shows "parse_uart_frame (uart_frame_bytes p) decoded =
    Some (Inr p, packet_bytes p @ drop (length (packet_bytes p)) decoded)"
  using assms
  by (simp add: parse_uart_frame_def uart_frame_bytes_def decode_blocks decode_packet_bytes)

lemma parse_uart_frame_total:
  "\<exists>r decoded'. parse_uart_frame frame decoded = Some (r, decoded') \<and> length decoded' = length decoded"
proof (cases "frame = [] \<or> last frame \<noteq> UART_DELIMITER")
  case True
  then show ?thesis by (auto simp: parse_uart_frame_def)
next
  case False
  obtain r d where d: "decode (take (length frame - 1) frame) decoded = Some (r, d)"
    "length d = length decoded" "\<forall>n. r = Inr n \<longrightarrow> n \<le> length decoded"
    using decode_total by blast
  with False show ?thesis
    by (cases r) (auto simp: parse_uart_frame_def)
qed

lemma parse_uart_frame_ok:
  assumes "parse_uart_frame frame decoded = Some (Inr p, decoded')"
  shows "packet_ok p \<and> length (packet_bytes p) \<le> length decoded"
proof -
  from assms obtain n d where "decode (take (length frame - 1) frame) decoded = Some (Inr n, d)"
    "n \<le> length d" "decode_packet (take n d) = Inr p"
    by (auto simp: parse_uart_frame_def split: if_splits option.splits sum.splits
        Option.bind_splits)
  moreover from this have "length d = length decoded"
    using decode_total [of "take (length frame - 1) frame" decoded] by auto
  ultimately show ?thesis
    using decode_packet_image [of "take n d" p] by (auto dest: arg_cong [where f = length])
qed

text \<open>What the parser makes of a delimited chunk: a packet it returns is valid, and a frame yields its packet.\<close>

lemma frame_outcome:
  assumes "length decoded = MAX_PACKET_LEN"
  shows "\<exists>r decoded'. parse_uart_frame (xs @ [UART_DELIMITER]) decoded = Some (r, decoded') \<and>
    length decoded' = length decoded \<and> (\<forall>q. r = Inr q \<longrightarrow> packet_ok q) \<and>
    (\<forall>p. packet_ok p \<longrightarrow> uart_frame_bytes p = xs @ [UART_DELIMITER] \<longrightarrow> r = Inr p)"
proof -
  obtain r decoded' where r: "parse_uart_frame (xs @ [UART_DELIMITER]) decoded = Some (r, decoded')"
    "length decoded' = length decoded"
    using parse_uart_frame_total by blast
  moreover have "\<forall>q. r = Inr q \<longrightarrow> packet_ok q"
    using parse_uart_frame_ok r(1) by blast
  moreover have "r = Inr p" if "packet_ok p" "uart_frame_bytes p = xs @ [UART_DELIMITER]" for p
    using parse_uart_frame_bytes [OF that(1), of decoded] that assms r(1)
    by (simp add: packet_ok_def wire_consts)
  ultimately show ?thesis by blast
qed

lemma uart_frame_shape:
  assumes "packet_ok p"
  shows "\<exists>body. uart_frame_bytes p = body @ [UART_DELIMITER] \<and> body \<noteq> [] \<and>
    UART_DELIMITER \<notin> set body \<and> length body \<le> MAX_UART_FRAME_LEN - 1"
  using length_uart_frame [OF assms] cobs_body_no_delimiter [of "packet_bytes p"]
  by (intro exI [of _ "cobs_blocks [] (packet_bytes p)"]) (simp add: uart_frame_bytes_def)

end
