(* ===== verification/Stream.thy ===== *)
theory Stream
  imports Wire
begin

text \<open>
  The interface of an incremental frame decoder, shared by the daemon's \<open>UartStreamDecoder\<close>
  (\<open>src/robot_link.rs\<close>) and the gateway's \<open>StreamDecoder\<close>
  (\<open>crates/rubik-link-gateway/src/lib.rs\<close>): bytes are pushed one at a time, a zero byte ends a
  frame, an oversized frame is dropped up to its delimiter. \<open>feed\<close> is the loop both callers run
  over a received chunk. From the laws of one push the locale derives delivery of every complete
  frame, in order, and resynchronisation after arbitrary noise.
\<close>

fun feed :: "('st \<Rightarrow> u8 \<Rightarrow> ('st \<times> 'r option) option) \<Rightarrow> 'st \<Rightarrow> u8 list \<Rightarrow> ('st \<times> 'r list) option" where
  "feed push s [] = Some (s, [])"
| "feed push s (b # bs) = do {
     (s, r) \<leftarrow> push s b;
     (s, rs) \<leftarrow> feed push s bs;
     Some (s, (case r of None \<Rightarrow> rs | Some r \<Rightarrow> r # rs)) }"

lemma feed_append:
  "feed push s (xs @ ys) = do {
     (s, rs) \<leftarrow> feed push s xs;
     (s, rs') \<leftarrow> feed push s ys;
     Some (s, rs @ rs') }"
proof (induction xs arbitrary: s)
  case Nil
  then show ?case by (cases "feed push s ys") auto
next
  case (Cons b xs)
  show ?case
  proof (cases "push s b")
    case (Some sr)
    then obtain s' r where sr: "push s b = Some (s', r)" by (cases sr) auto
    with Cons.IH [of s'] show ?thesis
      by (cases "feed push s' xs") (auto split: option.splits Option.bind_splits)
  qed simp
qed

locale stream_decoder =
  fixes push :: "'st \<Rightarrow> u8 \<Rightarrow> ('st \<times> 'r option) option"
    and inv :: "'st \<Rightarrow> bool"
    and pending :: "'st \<Rightarrow> u8 list option"
    and capacity :: nat
    and frame :: "'p \<Rightarrow> u8 list"
    and good :: "'p \<Rightarrow> bool"
    and accept :: "'p \<Rightarrow> 'r"
  assumes push_data: "inv s \<Longrightarrow> b \<noteq> UART_DELIMITER \<Longrightarrow> pending s = Some xs \<Longrightarrow> length xs < capacity \<Longrightarrow>
      \<exists>s'. push s b = Some (s', None) \<and> inv s' \<and> pending s' = Some (xs @ [b])"
    and push_over: "inv s \<Longrightarrow> b \<noteq> UART_DELIMITER \<Longrightarrow> pending s = None \<or> pending s = Some xs \<and> capacity \<le> length xs \<Longrightarrow>
      \<exists>s'. push s b = Some (s', None) \<and> inv s' \<and> pending s' = None"
    and push_end: "inv s \<Longrightarrow> pending s = Some xs \<Longrightarrow> xs \<noteq> [] \<Longrightarrow>
      \<exists>s' r. push s UART_DELIMITER = Some (s', Some r) \<and> inv s' \<and> pending s' = Some [] \<and>
        (\<forall>p. good p \<longrightarrow> frame p = xs @ [UART_DELIMITER] \<longrightarrow> r = accept p)"
    and push_sync: "inv s \<Longrightarrow> pending s = Some [] \<or> pending s = None \<Longrightarrow>
      \<exists>s' r. push s UART_DELIMITER = Some (s', r) \<and> inv s' \<and> pending s' = Some []"
    and frame_shape: "good p \<Longrightarrow>
      \<exists>body. frame p = body @ [UART_DELIMITER] \<and> body \<noteq> [] \<and> UART_DELIMITER \<notin> set body \<and> length body \<le> capacity"
begin

lemma push_total: "inv s \<Longrightarrow> \<exists>s' r. push s b = Some (s', r) \<and> inv s'"
  using push_data [of s b] push_over [of s b] push_end [of s] push_sync [of s]
  by (cases "b = UART_DELIMITER"; cases "pending s") (metis not_le_imp_less)+

lemma feed_total: "inv s \<Longrightarrow> \<exists>s' rs. feed push s bs = Some (s', rs) \<and> inv s'"
proof (induction bs arbitrary: s)
  case (Cons b bs)
  obtain s1 r where "push s b = Some (s1, r)" "inv s1"
    using push_total [OF Cons.prems] by blast
  moreover from this(2) obtain s2 rs where "feed push s1 bs = Some (s2, rs)" "inv s2"
    using Cons.IH by blast
  ultimately show ?case by auto
qed simp

lemma delimiter_syncs: "inv s \<Longrightarrow> \<exists>s' r. push s UART_DELIMITER = Some (s', r) \<and> inv s' \<and> pending s' = Some []"
  using push_end [of s] push_sync [of s] by (cases "pending s") blast+

lemma feed_body:
  assumes "inv s" and "pending s = Some xs" and "UART_DELIMITER \<notin> set body"
    and "length xs + length body \<le> capacity"
  shows "\<exists>s'. feed push s body = Some (s', []) \<and> inv s' \<and> pending s' = Some (xs @ body)"
  using assms
proof (induction body arbitrary: s xs)
  case (Cons b body)
  then obtain s1 where s1: "push s b = Some (s1, None)" "inv s1" "pending s1 = Some (xs @ [b])"
    using push_data [of s b xs] by auto
  with Cons.IH [of s1 "xs @ [b]"] Cons.prems show ?case by auto
qed simp

lemma feed_frame:
  assumes "inv s" and "pending s = Some []" and "good p"
  shows "\<exists>s'. feed push s (frame p) = Some (s', [accept p]) \<and> inv s' \<and> pending s' = Some []"
proof -
  obtain body where f: "frame p = body @ [UART_DELIMITER]" and b: "body \<noteq> []" "UART_DELIMITER \<notin> set body"
    "length body \<le> capacity"
    using frame_shape [OF assms(3)] by blast
  obtain s1 where s1: "feed push s body = Some (s1, [])" "inv s1" "pending s1 = Some body"
    using feed_body [OF assms(1,2) b(2)] b(3) by auto
  obtain s2 where "push s1 UART_DELIMITER = Some (s2, Some (accept p))" "inv s2" "pending s2 = Some []"
    using push_end [OF s1(2,3) b(1)] f assms(3) by blast
  with s1 show ?thesis
    by (simp add: f feed_append)
qed

lemma feed_frames:
  assumes "inv s" and "pending s = Some []" and "\<forall>p \<in> set ps. good p"
  shows "\<exists>s'. feed push s (concat (map frame ps)) = Some (s', map accept ps) \<and> inv s' \<and>
    pending s' = Some []"
  using assms
proof (induction ps arbitrary: s)
  case (Cons p ps)
  then obtain s1 where "feed push s (frame p) = Some (s1, [accept p])" "inv s1" "pending s1 = Some []"
    using feed_frame [of s p] by auto
  with Cons.IH [of s1] Cons.prems show ?case
    by (auto simp: feed_append)
qed simp

text \<open>Whatever was received before it, one delimiter makes the next frames readable.\<close>

lemma feed_resync:
  assumes "inv s" and "\<forall>p \<in> set ps. good p"
  shows "\<exists>s' rs. feed push s (noise @ [UART_DELIMITER] @ concat (map frame ps)) =
    Some (s', rs @ map accept ps) \<and> inv s' \<and> pending s' = Some []"
proof -
  obtain s1 rs where s1: "feed push s noise = Some (s1, rs)" "inv s1"
    using feed_total [OF assms(1)] by blast
  obtain s2 r where s2: "push s1 UART_DELIMITER = Some (s2, r)" "inv s2" "pending s2 = Some []"
    using delimiter_syncs [OF s1(2)] by blast
  obtain s3 where "feed push s2 (concat (map frame ps)) = Some (s3, map accept ps)" "inv s3"
    "pending s3 = Some []"
    using feed_frames [OF s2(2,3) assms(2)] by blast
  with s1 s2 show ?thesis
    by (cases r) (auto simp: feed_append)
qed

end

end
