(* ===== verification/RobotLink.thy ===== *)
theory RobotLink
  imports Stream
begin

text \<open>
  \<open>src/robot_link.rs\<close> and \<open>crates/rubik-link-protocol/src/payload.rs\<close>: the reusable frame encoder
  and the incremental decoder of the daemon. The serializer (\<open>postcard::to_slice\<close> and
  \<open>postcard::take_from_bytes\<close>) is third-party code and is a parameter. \<open>None\<close> is an index panic.
\<close>

section \<open>Payloads\<close>

datatype 'pe payload_error = Serialize 'pe | Deserialize 'pe | TrailingBytes

definition encode_payload ::
    "('t \<Rightarrow> u8 list \<Rightarrow> ('pe + nat) \<times> u8 list) \<Rightarrow> 't \<Rightarrow> u8 list \<Rightarrow> ('pe payload_error + nat) \<times> u8 list" where
  "encode_payload to_slice val buf =
     (case to_slice val buf of
        (Inl e, buf) \<Rightarrow> (Inl (Serialize e), buf)
      | (Inr n, buf) \<Rightarrow> (Inr n, buf))"

definition decode_payload ::
    "(u8 list \<Rightarrow> 'pe + ('t \<times> u8 list)) \<Rightarrow> u8 list \<Rightarrow> 'pe payload_error + 't" where
  "decode_payload take_from_bytes input =
     (case take_from_bytes input of
        Inl e \<Rightarrow> Inl (Deserialize e)
      | Inr (val, remaining) \<Rightarrow> if remaining \<noteq> [] then Inl TrailingBytes else Inr val)"

section \<open>The encoder\<close>

datatype 'pe frame_encode_error = Payload "'pe payload_error" | Wire wire_error

record uart_frame_encoder =
  enc_payload :: "u8 list"
  enc_packet :: "u8 list"
  enc_frame :: "u8 list"

definition default_encoder :: uart_frame_encoder where
  "default_encoder = \<lparr> enc_payload = replicate MAX_PAYLOAD_LEN 0,
     enc_packet = replicate MAX_PACKET_LEN 0, enc_frame = replicate MAX_UART_FRAME_LEN 0 \<rparr>"

definition encode_raw ::
    "uart_frame_encoder \<Rightarrow> message_kind \<Rightarrow> u16 \<Rightarrow> u32 \<Rightarrow> nat \<Rightarrow>
     (('pe frame_encode_error + u8 list) \<times> uart_frame_encoder) option" where
  "encode_raw e knd opc rid payload_len =
     (if payload_len > length (enc_payload e) then None
      else let p = \<lparr> pkt_kind = knd, pkt_opcode = opc, pkt_request_id = rid,
                     pkt_payload = take payload_len (enc_payload e) \<rparr> in do {
        (r, pk, fr) \<leftarrow> frame_uart p (enc_packet e) (enc_frame e);
        let e = e\<lparr> enc_packet := pk, enc_frame := fr \<rparr> in
        case r of
          Inl err \<Rightarrow> Some (Inl (Wire err), e)
        | Inr len \<Rightarrow> if len > length fr then None else Some (Inr (take len fr), e) })"

definition encode_frame ::
    "('t \<Rightarrow> u8 list \<Rightarrow> ('pe + nat) \<times> u8 list) \<Rightarrow> uart_frame_encoder \<Rightarrow> message_kind \<Rightarrow> u16 \<Rightarrow> u32 \<Rightarrow> 't \<Rightarrow>
     (('pe frame_encode_error + u8 list) \<times> uart_frame_encoder) option" where
  "encode_frame to_slice e knd opc rid payload =
     (case encode_payload to_slice payload (enc_payload e) of
        (Inl err, buf) \<Rightarrow> Some (Inl (Payload err), e\<lparr> enc_payload := buf \<rparr>)
      | (Inr payload_len, buf) \<Rightarrow> encode_raw (e\<lparr> enc_payload := buf \<rparr>) knd opc rid payload_len)"

definition encode_empty ::
    "uart_frame_encoder \<Rightarrow> message_kind \<Rightarrow> u16 \<Rightarrow> u32 \<Rightarrow>
     (('pe frame_encode_error + u8 list) \<times> uart_frame_encoder) option" where
  "encode_empty e knd opc rid = encode_raw e knd opc rid 0"

definition encoder_ok :: "uart_frame_encoder \<Rightarrow> bool" where
  "encoder_ok e \<longleftrightarrow> length (enc_payload e) = MAX_PAYLOAD_LEN \<and>
     length (enc_packet e) = MAX_PACKET_LEN \<and> length (enc_frame e) = MAX_UART_FRAME_LEN"

lemma default_encoder_ok: "encoder_ok default_encoder"
  by (simp add: encoder_ok_def default_encoder_def)

lemma max_frame_fits:
  "packet_ok p \<Longrightarrow> max_encoded_len (length (packet_bytes p)) + 1 \<le> MAX_UART_FRAME_LEN"
proof -
  assume "packet_ok p"
  then have n: "length (packet_bytes p) \<le> MAX_PACKET_LEN"
    by (simp add: packet_ok_def wire_consts)
  then have "length (packet_bytes p) div 254 \<le> MAX_PACKET_LEN div 254"
    by (rule div_le_mono)
  with n show ?thesis
    by (simp add: max_encoded_len_def MAX_UART_FRAME_LEN_def)
qed

lemma encode_raw_frame:
  assumes "encoder_ok e" and "n \<le> MAX_PAYLOAD_LEN"
  shows "\<exists>e'. encode_raw e knd opc rid n =
      Some (Inr (uart_frame_bytes \<lparr> pkt_kind = knd, pkt_opcode = opc, pkt_request_id = rid,
        pkt_payload = take n (enc_payload e) \<rparr>), e') \<and> encoder_ok e'"
proof -
  let ?p = "\<lparr> pkt_kind = knd, pkt_opcode = opc, pkt_request_id = rid,
    pkt_payload = take n (enc_payload e) \<rparr>"
  have ok: "packet_ok ?p"
    using assms by (simp add: packet_ok_def encoder_ok_def)
  have pk: "length (packet_bytes ?p) \<le> length (enc_packet e)"
    using assms by (simp add: encoder_ok_def wire_consts)
  have fr: "max_encoded_len (length (packet_bytes ?p)) + 1 \<le> length (enc_frame e)"
    using max_frame_fits [OF ok] assms(1) unfolding encoder_ok_def by metis
  show ?thesis
    using assms frame_uart_bytes [OF ok pk fr] length_uart_frame [OF ok] pk
    by (auto simp: encode_raw_def encoder_ok_def Let_def)
qed

section \<open>The decoder\<close>

record received_packet =
  rp_kind :: message_kind
  rp_opcode :: u16
  rp_request_id :: u32
  rp_payload_len :: nat
  rp_payload :: "u8 list"

definition payload :: "received_packet \<Rightarrow> u8 list" where
  "payload p = take (rp_payload_len p) (rp_payload p)"

datatype stream_decode_error = FrameTooLong | WireError wire_error

record uart_stream_decoder =
  usd_encoded :: "u8 list"
  usd_encoded_len :: nat
  usd_decoded :: "u8 list"
  usd_overflowed :: bool

definition default_decoder :: uart_stream_decoder where
  "default_decoder = \<lparr> usd_encoded = replicate MAX_UART_FRAME_LEN 0, usd_encoded_len = 0,
     usd_decoded = replicate MAX_PACKET_LEN 0, usd_overflowed = False \<rparr>"

definition reset_frame :: "uart_stream_decoder \<Rightarrow> uart_stream_decoder" where
  "reset_frame d = d\<lparr> usd_encoded_len := 0, usd_overflowed := False \<rparr>"

definition received :: "packet \<Rightarrow> received_packet option" where
  "received p = do {
     buf \<leftarrow> blit (replicate MAX_PAYLOAD_LEN 0) 0 (pkt_payload p);
     Some \<lparr> rp_kind = pkt_kind p, rp_opcode = pkt_opcode p, rp_request_id = pkt_request_id p,
            rp_payload_len = length (pkt_payload p), rp_payload = buf \<rparr> }"

definition push :: "uart_stream_decoder \<Rightarrow> u8 \<Rightarrow>
    (uart_stream_decoder \<times> (stream_decode_error + received_packet) option) option" where
  "push d byte =
     (if byte \<noteq> UART_DELIMITER then
        (if usd_overflowed d then Some (d, None)
         else if usd_encoded_len d \<ge> MAX_UART_FRAME_LEN - 1 then
           Some (d\<lparr> usd_overflowed := True \<rparr>, None)
         else do {
           enc \<leftarrow> poke (usd_encoded d) (usd_encoded_len d) byte;
           Some (d\<lparr> usd_encoded := enc, usd_encoded_len := usd_encoded_len d + 1 \<rparr>, None) })
      else if usd_overflowed d then Some (reset_frame d, Some (Inl FrameTooLong))
      else if usd_encoded_len d = 0 then Some (d, None)
      else do {
        enc \<leftarrow> poke (usd_encoded d) (usd_encoded_len d) UART_DELIMITER;
        let frame_len = usd_encoded_len d + 1 in
        if frame_len > length enc then None
        else do {
          (r, decoded) \<leftarrow> parse_uart_frame (take frame_len enc) (usd_decoded d);
          result \<leftarrow> (case r of
              Inl e \<Rightarrow> Some (Inl (WireError e))
            | Inr p \<Rightarrow> map_option Inr (received p));
          Some (reset_frame (d\<lparr> usd_encoded := enc, usd_decoded := decoded \<rparr>), Some result) } })"

definition decoder_ok :: "uart_stream_decoder \<Rightarrow> bool" where
  "decoder_ok d \<longleftrightarrow> length (usd_encoded d) = MAX_UART_FRAME_LEN \<and>
     length (usd_decoded d) = MAX_PACKET_LEN \<and> usd_encoded_len d < MAX_UART_FRAME_LEN"

definition decoder_pending :: "uart_stream_decoder \<Rightarrow> u8 list option" where
  "decoder_pending d =
     (if usd_overflowed d then None else Some (take (usd_encoded_len d) (usd_encoded d)))"

definition delivered :: "packet \<Rightarrow> received_packet" where
  "delivered p = \<lparr> rp_kind = pkt_kind p, rp_opcode = pkt_opcode p,
     rp_request_id = pkt_request_id p, rp_payload_len = length (pkt_payload p),
     rp_payload = pkt_payload p @ replicate (MAX_PAYLOAD_LEN - length (pkt_payload p)) 0 \<rparr>"

lemma received_ok: "packet_ok p \<Longrightarrow> received p = Some (delivered p)"
  by (simp add: received_def delivered_def packet_ok_def blit_def)

lemma payload_delivered [simp]: "payload (delivered p) = pkt_payload p"
  by (simp add: payload_def delivered_def)

lemma default_decoder_ok: "decoder_ok default_decoder"
  by (simp add: decoder_ok_def default_decoder_def wire_consts)

lemma default_decoder_pending: "decoder_pending default_decoder = Some []"
  by (simp add: decoder_pending_def default_decoder_def)

lemma push_end_frame:
  assumes "decoder_ok d" and "decoder_pending d = Some xs" and "xs \<noteq> []"
  shows "\<exists>d' r. push d UART_DELIMITER = Some (d', Some r) \<and> decoder_ok d' \<and>
    decoder_pending d' = Some [] \<and>
    (\<forall>p. packet_ok p \<longrightarrow> uart_frame_bytes p = xs @ [UART_DELIMITER] \<longrightarrow> r = Inr (delivered p))"
proof -
  let ?n = "usd_encoded_len d"
  let ?enc = "(usd_encoded d)[?n := UART_DELIMITER]"
  from assms have no: "\<not> usd_overflowed d" and xs: "xs = take ?n (usd_encoded d)" and n0: "?n \<noteq> 0"
    and n: "?n < length (usd_encoded d)"
    by (auto simp: decoder_pending_def decoder_ok_def split: if_splits)
  have enc: "poke (usd_encoded d) ?n UART_DELIMITER = Some ?enc" "length ?enc = length (usd_encoded d)"
    using n by (simp_all add: poke_def)
  have frame: "take (?n + 1) ?enc = xs @ [UART_DELIMITER]"
    using n xs by (simp add: take_Suc_conv_app_nth)
  obtain r dec where dec: "parse_uart_frame (xs @ [UART_DELIMITER]) (usd_decoded d) = Some (r, dec)"
    "length dec = length (usd_decoded d)" "\<forall>q. r = Inr q \<longrightarrow> packet_ok q"
    "\<forall>p. packet_ok p \<longrightarrow> uart_frame_bytes p = xs @ [UART_DELIMITER] \<longrightarrow> r = Inr p"
    using frame_outcome [of "usd_decoded d" xs] assms(1) unfolding decoder_ok_def by blast
  define d' where "d' = reset_frame (d\<lparr> usd_encoded := ?enc, usd_decoded := dec \<rparr>)"
  have d': "decoder_ok d'" "decoder_pending d' = Some []"
    using assms(1) enc dec(2) by (simp_all add: d'_def decoder_ok_def reset_frame_def decoder_pending_def)
  have "push d UART_DELIMITER = Some (d', Some (case r of Inl e \<Rightarrow> Inl (WireError e) | Inr q \<Rightarrow> Inr (delivered q)))"
  proof (cases r)
    case (Inl e)
    then show ?thesis
      using no n0 n enc dec(1) frame by (simp add: push_def d'_def Let_def del: One_nat_def)
  next
    case (Inr q)
    then have "received q = Some (delivered q)" using dec(3) received_ok by blast
    with Inr show ?thesis
      using no n0 n enc dec(1) frame by (simp add: push_def d'_def Let_def del: One_nat_def)
  qed
  with d' dec(4) show ?thesis by auto
qed

interpretation usd: stream_decoder push decoder_ok decoder_pending "MAX_UART_FRAME_LEN - 1"
  uart_frame_bytes packet_ok "\<lambda>p. Inr (delivered p)"
proof (unfold_locales, goal_cases)
  case (1 s b xs)
  then show ?case
    by (auto simp: push_def decoder_ok_def decoder_pending_def poke_def take_Suc_conv_app_nth
        split: if_splits)
next
  case (2 s b xs)
  then show ?case
    by (auto simp: push_def decoder_ok_def decoder_pending_def min_def split: if_splits)
next
  case (3 s xs)
  then show ?case by (rule push_end_frame)
next
  case (4 s)
  then show ?case
    by (auto simp: push_def decoder_ok_def decoder_pending_def reset_frame_def split: if_splits)
next
  case (5 p)
  then show ?case by (rule uart_frame_shape)
qed

end
