(* ===== verification/LinkState.thy ===== *)
theory LinkState
  imports Prelude
begin

unbundle bit_operations_syntax

text \<open>
  \<open>crates/rubik-link-protocol/src/state.rs\<close> and the data of \<open>message.rs\<close>: the status snapshot the
  daemon publishes, the commands, responses and events, their \<open>validate\<close> checks, and the packed
  representation of a manual move command. Types that also exist in the domain model carry the
  prefix \<open>link_\<close>, as the sources write \<open>link::\<close>; discriminants are written with the type's name.
\<close>

definition AXIS_COUNT :: nat where "AXIS_COUNT = 4"
definition FACE_COUNT :: nat where "FACE_COUNT = 6"
definition STICKERS_PER_FACE :: nat where "STICKERS_PER_FACE = 9"
definition MAX_SOLUTION_MOVES :: nat where "MAX_SOLUTION_MOVES = 32"
definition MAX_PLAN_PREVIEW_ACTIONS :: nat where "MAX_PLAN_PREVIEW_ACTIONS = 16"

lemmas link_consts = AXIS_COUNT_def FACE_COUNT_def STICKERS_PER_FACE_def MAX_SOLUTION_MOVES_def
  MAX_PLAN_PREVIEW_ACTIONS_def

datatype schema_error =
    InvalidScannedFaceMask u8
  | TooManySolutionMoves u8
  | CompletedMovesExceedTotal u8 u8
  | TooManyPreviewActions u8
  | TooManyRequestedMoves u8
  | CurrentActionExceedsTotal u16 u16

section \<open>Enumerations\<close>

datatype axis = Left | Right | Top | Bottom

datatype cube_face = Up | Right | Front | Down | Left | Back

datatype link_sticker_color = White | Yellow | Red | Orange | Green | Blue | Unknown

datatype link_rail_position = Open | Grip

datatype link_gripper_orientation = FrameParallel | FramePerpendicular | FrameParallelReversed

datatype axis_motion = Unknown | Stable | Moving

datatype stand_pose_kind = Unknown | Open | CanonicalGrip | ScanPose | MovePose | Transitional

datatype controller_state = Booting | Ready | Busy | Aborted | Faulted

datatype operation_kind =
    Grip | Scan | Solve | Execute | ScanSolveExecute | Open | RecoverToOpen | ExecuteMoves

datatype scan_state_kind = None' | InProgress | Valid | Invalid

datatype scan_validation_error =
    WrongDetectionCount | WrongColorCount | DuplicateCenterColor | InvalidFacelet | CameraFailure
  | InferenceFailure

datatype turn_amount = Clockwise | CounterClockwise | Half

datatype solution_state_kind = None' | Solving | Ready | Executing | Completed

datatype mechanical_action_kind = SetRail | SetGripper | Wait | CaptureFace | RecognizeFace

datatype action_state = Pending | Running | Completed | Cancelled | Failed

datatype fault_code =
    InvalidState | I2c | Camera | Tpu | Recognition | InvalidFacelet | Solver | MotionPlan | Internal

datatype operation_failure_kind = Recognition | InvalidFacelet | SolverNoSolution | Camera | Inference

datatype rejection_reason =
    InvalidControllerState | StandPositionUnknown | StandPoseMismatch | SessionUnavailable
  | SessionMismatch | ScanUnavailable | ScanRevisionMismatch | SolutionUnavailable
  | SolutionMismatch | OperationAlreadyActive | InvalidPayload | UnsupportedCommand

text \<open>Discriminants used as array indices or bit positions (\<open>as usize\<close>, \<open>as u8\<close>).\<close>

fun axis_index :: "axis \<Rightarrow> nat" where
  "axis_index axis.Left = 0"
| "axis_index axis.Right = 1"
| "axis_index axis.Top = 2"
| "axis_index axis.Bottom = 3"

fun cube_face_index :: "cube_face \<Rightarrow> nat" where
  "cube_face_index cube_face.Up = 0"
| "cube_face_index cube_face.Right = 1"
| "cube_face_index cube_face.Front = 2"
| "cube_face_index cube_face.Down = 3"
| "cube_face_index cube_face.Left = 4"
| "cube_face_index cube_face.Back = 5"

fun link_sticker_color_u8 :: "link_sticker_color \<Rightarrow> u8" where
  "link_sticker_color_u8 link_sticker_color.White = 0"
| "link_sticker_color_u8 link_sticker_color.Yellow = 1"
| "link_sticker_color_u8 link_sticker_color.Red = 2"
| "link_sticker_color_u8 link_sticker_color.Orange = 3"
| "link_sticker_color_u8 link_sticker_color.Green = 4"
| "link_sticker_color_u8 link_sticker_color.Blue = 5"
| "link_sticker_color_u8 link_sticker_color.Unknown = 255"

fun turn_amount_u8 :: "turn_amount \<Rightarrow> u8" where
  "turn_amount_u8 turn_amount.Clockwise = 0"
| "turn_amount_u8 turn_amount.CounterClockwise = 1"
| "turn_amount_u8 turn_amount.Half = 2"

section \<open>Status structures\<close>

record rail_status =
  rail_motion :: axis_motion
  rail_current :: "link_rail_position option"
  rail_target :: "link_rail_position option"

record gripper_status =
  gripper_motion :: axis_motion
  gripper_current :: "link_gripper_orientation option"
  gripper_target :: "link_gripper_orientation option"

record stand_pose =
  pose_kind :: stand_pose_kind
  pose_camera_face :: "cube_face option"

record stand_state =
  stand_pose :: stand_pose
  stand_rails :: "rail_status list"
  stand_grippers :: "gripper_status list"
  stand_outputs_enabled :: bool

record cube_session_status =
  cs_id :: u32

record recognized_face =
  rf_colors :: "link_sticker_color list"
  rf_confidence :: "u8 list"

record scan_status =
  scan_state :: scan_state_kind
  scan_revision :: "u32 option"
  scan_current_face :: "cube_face option"
  scan_camera_face :: "recognized_face option"
  scan_scanned_faces :: u8
  scan_faces :: "recognized_face option list"
  scan_color_counts :: "u8 list"
  scan_validation_error :: "scan_validation_error option"

record link_cube_move =
  lm_face :: cube_face
  lm_turn :: turn_amount

record solution_status =
  sol_state :: solution_state_kind
  sol_id :: "u32 option"
  sol_source_scan_revision :: "u32 option"
  sol_moves :: "link_cube_move list"
  sol_move_count :: u8
  sol_completed_moves :: u8

record mechanical_action =
  ma_id :: u32
  ma_kind :: mechanical_action_kind
  ma_state :: action_state
  ma_axis :: "axis option"
  ma_rail_target :: "link_rail_position option"
  ma_gripper_target :: "link_gripper_orientation option"
  ma_face :: "cube_face option"
  ma_duration_ms :: u32

record operation_status =
  op_id :: u32
  op_kind :: operation_kind
  op_current_action :: u16
  op_action_count :: u16

record robot_fault =
  fault_code :: fault_code
  fault_detail :: u32

record status_snapshot =
  st_controller :: controller_state
  st_stand :: stand_state
  st_cube_session :: "cube_session_status option"
  st_scan :: scan_status
  st_solution :: solution_status
  st_active_operation :: "operation_status option"
  st_plan :: "mechanical_action option list"
  st_plan_count :: u8
  st_fault :: "robot_fault option"

section \<open>Commands\<close>

record solve_command =
  solve_session_id :: u32
  solve_scan_revision :: u32

record execute_command =
  exec_session_id :: u32
  exec_scan_revision :: u32
  exec_solution_id :: u32

record execute_moves_command =
  em_session_id :: u32
  em_moves :: "link_cube_move list"
  em_move_count :: u8

definition empty_move :: link_cube_move where
  "empty_move = \<lparr> lm_face = cube_face.Up, lm_turn = turn_amount.Clockwise \<rparr>"

definition pack_move :: "link_cube_move \<Rightarrow> u8" where
  "pack_move m = of_nat (cube_face_index (lm_face m)) * 3 + turn_amount_u8 (lm_turn m)"

definition serialize_execute_moves :: "execute_moves_command \<Rightarrow> u32 \<times> u8 list \<times> u8" where
  "serialize_execute_moves c = (em_session_id c, map pack_move (em_moves c), em_move_count c)"

datatype unpack_error = TooManyMoves | InvalidPackedFace

definition unpack_move :: "u8 \<Rightarrow> unpack_error + link_cube_move" where
  "unpack_move b =
     (let f = unat b div 3; t = unat b mod 3;
          turn = (if t = 0 then turn_amount.Clockwise else if t = 1 then turn_amount.CounterClockwise
                  else turn_amount.Half)
      in if f = 0 then Inr \<lparr> lm_face = cube_face.Up, lm_turn = turn \<rparr>
         else if f = 1 then Inr \<lparr> lm_face = cube_face.Right, lm_turn = turn \<rparr>
         else if f = 2 then Inr \<lparr> lm_face = cube_face.Front, lm_turn = turn \<rparr>
         else if f = 3 then Inr \<lparr> lm_face = cube_face.Down, lm_turn = turn \<rparr>
         else if f = 4 then Inr \<lparr> lm_face = cube_face.Left, lm_turn = turn \<rparr>
         else if f = 5 then Inr \<lparr> lm_face = cube_face.Back, lm_turn = turn \<rparr>
         else Inl InvalidPackedFace)"

fun unpack_moves :: "u8 list \<Rightarrow> unpack_error + link_cube_move list" where
  "unpack_moves [] = Inr []"
| "unpack_moves (b # bs) =
     (case unpack_move b of
        Inl e \<Rightarrow> Inl e
      | Inr m \<Rightarrow> (case unpack_moves bs of Inl e \<Rightarrow> Inl e | Inr ms \<Rightarrow> Inr (m # ms)))"

definition deserialize_execute_moves ::
    "u32 \<times> u8 list \<times> u8 \<Rightarrow> unpack_error + execute_moves_command" where
  "deserialize_execute_moves wire =
     (case wire of (session_id, packed, move_count) \<Rightarrow>
        if unat move_count > MAX_SOLUTION_MOVES then Inl TooManyMoves
        else (case unpack_moves (take (unat move_count) packed) of
            Inl e \<Rightarrow> Inl e
          | Inr ms \<Rightarrow> Inr \<lparr> em_session_id = session_id,
              em_moves = ms @ replicate (MAX_SOLUTION_MOVES - length ms) empty_move,
              em_move_count = move_count \<rparr>))"

definition execute_moves_validate :: "execute_moves_command \<Rightarrow> schema_error + unit" where
  "execute_moves_validate c =
     (if unat (em_move_count c) > MAX_SOLUTION_MOVES then Inl (TooManyRequestedMoves (em_move_count c))
      else Inr ())"

section \<open>Validation of a snapshot\<close>

definition solution_validate :: "solution_status \<Rightarrow> schema_error + unit" where
  "solution_validate s =
     (if unat (sol_move_count s) > MAX_SOLUTION_MOVES then Inl (TooManySolutionMoves (sol_move_count s))
      else if sol_completed_moves s > sol_move_count s then
        Inl (CompletedMovesExceedTotal (sol_completed_moves s) (sol_move_count s))
      else Inr ())"

definition operation_validate :: "operation_status \<Rightarrow> schema_error + unit" where
  "operation_validate s =
     (if op_current_action s > op_action_count s then
        Inl (CurrentActionExceedsTotal (op_current_action s) (op_action_count s))
      else Inr ())"

definition ALL_FACES_MASK :: u8 where
  "ALL_FACES_MASK = push_bit FACE_COUNT 1 - 1"

definition scan_validate :: "scan_status \<Rightarrow> schema_error + unit" where
  "scan_validate s =
     (if scan_scanned_faces s AND (NOT ALL_FACES_MASK) \<noteq> 0 then
        Inl (InvalidScannedFaceMask (scan_scanned_faces s))
      else Inr ())"

definition snapshot_validate :: "status_snapshot \<Rightarrow> schema_error + unit" where
  "snapshot_validate s =
     (if unat (st_plan_count s) > MAX_PLAN_PREVIEW_ACTIONS then
        Inl (TooManyPreviewActions (st_plan_count s))
      else case scan_validate (st_scan s) of
        Inl e \<Rightarrow> Inl e
      | Inr _ \<Rightarrow> (case solution_validate (st_solution s) of
          Inl e \<Rightarrow> Inl e
        | Inr _ \<Rightarrow> (case st_active_operation s of
            Some operation \<Rightarrow> operation_validate operation
          | None \<Rightarrow> Inr ())))"

lemma snapshot_validate_iff:
  "snapshot_validate s = Inr () \<longleftrightarrow>
     unat (st_plan_count s) \<le> 16 \<and> scan_validate (st_scan s) = Inr () \<and>
     solution_validate (st_solution s) = Inr () \<and>
     (\<forall>operation. st_active_operation s = Some operation \<longrightarrow> operation_validate operation = Inr ())"
  by (auto simp: snapshot_validate_def link_consts split: sum.splits option.splits)

section \<open>Packed moves\<close>

lemma unpack_pack_move [simp]: "unpack_move (pack_move m) = Inr m"
proof -
  obtain f t where "m = \<lparr> lm_face = f, lm_turn = t \<rparr>" by (cases m)
  then show ?thesis
    by (cases f; cases t) (simp_all add: pack_move_def unpack_move_def)
qed

lemma unpack_pack_moves [simp]: "unpack_moves (map pack_move ms) = Inr ms"
  by (induction ms) simp_all

lemma deserialize_serialize:
  assumes "unat (em_move_count c) \<le> length (em_moves c)" and "length (em_moves c) = MAX_SOLUTION_MOVES"
  shows "deserialize_execute_moves (serialize_execute_moves c) =
    Inr (c\<lparr> em_moves := take (unat (em_move_count c)) (em_moves c) @
      replicate (MAX_SOLUTION_MOVES - unat (em_move_count c)) empty_move \<rparr>)"
  using assms by (simp add: serialize_execute_moves_def deserialize_execute_moves_def take_map min_def)

lemma length_unpack_moves: "unpack_moves bs = Inr ms \<Longrightarrow> length ms = length bs"
  by (induction bs arbitrary: ms) (auto split: sum.splits)

lemma deserialize_valid:
  assumes "deserialize_execute_moves wire = Inr c" and "length (fst (snd wire)) = MAX_SOLUTION_MOVES"
  shows "execute_moves_validate c = Inr () \<and> length (em_moves c) = MAX_SOLUTION_MOVES"
  using assms
  by (cases wire) (auto simp: deserialize_execute_moves_def execute_moves_validate_def
      split: if_splits sum.splits dest!: length_unpack_moves)

end
