(* ===== verification/Cube.thy ===== *)
theory Cube
  imports Prelude
begin

text \<open>
  \<open>src/cube.rs\<close>: scanned faces, the validated facelet string, the adapter around the solver and
  the parser of its answer. \<open>min2phase::solve\<close> is a third-party function and a parameter. Rust
  strings are lists of \<open>char\<close>, one per Unicode character up to U+00FF, and \<open>anyhow\<close> errors are
  the constructors of \<open>cube_error\<close>. \<open>facelet_string\<close> is an \<open>option\<close> because the source
  panics (\<open>expect\<close>) when a sticker colour is not a centre colour.
\<close>

definition FACELET_LEN :: nat where "FACELET_LEN = 54"

datatype sticker_color = White | Yellow | Red | Orange | Green | Blue

definition ALL_COLORS :: "sticker_color list" where
  "ALL_COLORS = [sticker_color.White, sticker_color.Yellow, sticker_color.Red, sticker_color.Orange,
     sticker_color.Green, sticker_color.Blue]"

fun color_symbol :: "sticker_color \<Rightarrow> char" where
  "color_symbol sticker_color.White = CHR ''W''"
| "color_symbol sticker_color.Yellow = CHR ''Y''"
| "color_symbol sticker_color.Red = CHR ''R''"
| "color_symbol sticker_color.Orange = CHR ''O''"
| "color_symbol sticker_color.Green = CHR ''G''"
| "color_symbol sticker_color.Blue = CHR ''B''"

datatype logical_face = Up | Right | Front | Down | Left | Back

definition ALL_FACES :: "logical_face list" where
  "ALL_FACES = [logical_face.Up, logical_face.Right, logical_face.Front, logical_face.Down,
     logical_face.Left, logical_face.Back]"

fun face_index :: "logical_face \<Rightarrow> nat" where
  "face_index logical_face.Up = 0"
| "face_index logical_face.Right = 1"
| "face_index logical_face.Front = 2"
| "face_index logical_face.Down = 3"
| "face_index logical_face.Left = 4"
| "face_index logical_face.Back = 5"

fun face_symbol :: "logical_face \<Rightarrow> char" where
  "face_symbol logical_face.Up = CHR ''U''"
| "face_symbol logical_face.Right = CHR ''R''"
| "face_symbol logical_face.Front = CHR ''F''"
| "face_symbol logical_face.Down = CHR ''D''"
| "face_symbol logical_face.Left = CHR ''L''"
| "face_symbol logical_face.Back = CHR ''B''"

datatype cube_error =
    UnknownColor char
  | WrongStickerCount nat
  | BadQuarterTurns u8
  | AlreadyScanned logical_face
  | MissingScan logical_face
  | DuplicateCenter sticker_color
  | WrongColorCount sticker_color u8
  | WrongFaceletLength nat
  | SolverError string
  | InvalidMove string

definition color_try_from :: "char \<Rightarrow> cube_error + sticker_color" where
  "color_try_from c =
     (if c = CHR ''W'' then Inr sticker_color.White
      else if c = CHR ''Y'' then Inr sticker_color.Yellow
      else if c = CHR ''R'' then Inr sticker_color.Red
      else if c = CHR ''O'' then Inr sticker_color.Orange
      else if c = CHR ''G'' then Inr sticker_color.Green
      else if c = CHR ''B'' then Inr sticker_color.Blue
      else Inl (UnknownColor c))"

fun color_index :: "sticker_color \<Rightarrow> nat" where
  "color_index sticker_color.White = 0"
| "color_index sticker_color.Yellow = 1"
| "color_index sticker_color.Red = 2"
| "color_index sticker_color.Orange = 3"
| "color_index sticker_color.Green = 4"
| "color_index sticker_color.Blue = 5"

section \<open>Faces\<close>

text \<open>A \<open>Face\<close> is the array of its nine stickers, row by row.\<close>

record face =
  stickers :: "sticker_color list"

definition from_symbols :: "string \<Rightarrow> cube_error + face" where
  "from_symbols symbols =
     (if length symbols \<noteq> 9 then Inl (WrongStickerCount (length symbols))
      else case collect_results color_try_from symbols of
        Inl e \<Rightarrow> Inl e
      | Inr cs \<Rightarrow> Inr \<lparr> stickers = cs \<rparr>)"

definition center :: "face \<Rightarrow> sticker_color" where
  "center f = stickers f ! 4"

definition compact :: "face \<Rightarrow> string" where
  "compact f = map color_symbol (stickers f)"

datatype quarter_turns = Zero | One | Two | Three

fun quarter_turns_u8 :: "quarter_turns \<Rightarrow> nat" where
  "quarter_turns_u8 quarter_turns.Zero = 0"
| "quarter_turns_u8 quarter_turns.One = 1"
| "quarter_turns_u8 quarter_turns.Two = 2"
| "quarter_turns_u8 quarter_turns.Three = 3"

definition quarter_turns_try_from :: "u8 \<Rightarrow> cube_error + quarter_turns" where
  "quarter_turns_try_from v =
     (if v = 0 then Inr quarter_turns.Zero
      else if v = 1 then Inr quarter_turns.One
      else if v = 2 then Inr quarter_turns.Two
      else if v = 3 then Inr quarter_turns.Three
      else Inl (BadQuarterTurns v))"

definition rotate_once :: "face \<Rightarrow> face" where
  "rotate_once f = f\<lparr> stickers := [stickers f ! 6, stickers f ! 3, stickers f ! 0, stickers f ! 7,
     stickers f ! 4, stickers f ! 1, stickers f ! 8, stickers f ! 5, stickers f ! 2] \<rparr>"

definition rotated :: "face \<Rightarrow> quarter_turns \<Rightarrow> face" where
  "rotated f q = (rotate_once ^^ quarter_turns_u8 q) f"

record scan_pose =
  sp_face :: logical_face
  sp_camera_to_face :: quarter_turns

section \<open>The scanned cube\<close>

record cube_state =
  faces :: "face option list"

definition default_cube :: cube_state where
  "default_cube = \<lparr> faces = replicate 6 None \<rparr>"

definition record_scan :: "cube_state \<Rightarrow> scan_pose \<Rightarrow> face \<Rightarrow> (cube_error + unit) \<times> cube_state" where
  "record_scan c pose camera_face =
     (let i = face_index (sp_face pose) in
      if faces c ! i \<noteq> None then (Inl (AlreadyScanned (sp_face pose)), c)
      else (Inr (), c\<lparr> faces := (faces c)[i := Some (rotated camera_face (sp_camera_to_face pose))] \<rparr>))"

text \<open>
  \<open>center_map\<close> is the loop that inverts the centre colours; its accumulator is the array
  \<open>center_to_face\<close>, indexed by colour. \<open>count_stickers\<close> is the inner loop over all stickers.
\<close>

fun center_map :: "(logical_face \<times> face) list \<Rightarrow> logical_face option list \<Rightarrow>
    cube_error + logical_face option list" where
  "center_map [] m = Inr m"
| "center_map ((l, f) # fs) m =
     (let i = color_index (center f) in
      if m ! i \<noteq> None then Inl (DuplicateCenter (center f)) else center_map fs (m[i := Some l]))"

fun count_stickers :: "logical_face option list \<Rightarrow> sticker_color list \<Rightarrow> u8 list \<Rightarrow> string \<Rightarrow>
    (u8 list \<times> string) option" where
  "count_stickers m [] counts facelets = Some (counts, facelets)"
| "count_stickers m (color # colors) counts facelets =
     (let i = color_index color; counts = counts[i := counts ! i + 1] in
      case m ! i of
        None \<Rightarrow> None
      | Some l \<Rightarrow> count_stickers m colors counts (facelets @ [face_symbol l]))"

definition facelet_string :: "cube_state \<Rightarrow> (cube_error + string) option" where
  "facelet_string c =
     (case collect_results (\<lambda>(l, f). case f of None \<Rightarrow> Inl (MissingScan l) | Some f \<Rightarrow> Inr f)
          (zip ALL_FACES (faces c)) of
        Inl e \<Rightarrow> Some (Inl e)
      | Inr fs \<Rightarrow> (case center_map (zip ALL_FACES fs) (replicate 6 None) of
          Inl e \<Rightarrow> Some (Inl e)
        | Inr m \<Rightarrow> do {
            (counts, facelets) \<leftarrow> count_stickers m (concat (map stickers fs)) (replicate 6 0) [];
            case first_error (map (\<lambda>color. if counts ! color_index color \<noteq> 9
                then Inl (WrongColorCount color (counts ! color_index color)) else Inr ()) ALL_COLORS) of
              Inl e \<Rightarrow> Some (Inl e)
            | Inr _ \<Rightarrow> Some (Inr facelets) }))"

section \<open>The solver and its answer\<close>

definition is_whitespace :: "char \<Rightarrow> bool" where
  "is_whitespace c \<longleftrightarrow> (let n = (of_char c :: nat) in 9 \<le> n \<and> n \<le> 13 \<or> n = 32 \<or> n = 133 \<or> n = 160)"

definition trim :: "string \<Rightarrow> string" where
  "trim s = rev (dropWhile is_whitespace (rev (dropWhile is_whitespace s)))"

definition solve_facelets :: "(string \<Rightarrow> nat \<Rightarrow> string) \<Rightarrow> string \<Rightarrow> nat \<Rightarrow> cube_error + string" where
  "solve_facelets min2phase_solve facelets max_moves =
     (if length facelets \<noteq> FACELET_LEN then Inl (WrongFaceletLength (length facelets))
      else let solution = min2phase_solve facelets max_moves in
        if take 6 solution = ''Error '' then Inl (SolverError (drop 6 solution))
        else Inr (trim solution))"

definition cube_solve :: "(string \<Rightarrow> nat \<Rightarrow> string) \<Rightarrow> cube_state \<Rightarrow> nat \<Rightarrow> (cube_error + string) option" where
  "cube_solve min2phase_solve c max_moves = do {
     r \<leftarrow> facelet_string c;
     case r of Inl e \<Rightarrow> Some (Inl e) | Inr s \<Rightarrow> Some (solve_facelets min2phase_solve s max_moves) }"

datatype move_turn = Clockwise | CounterClockwise | Half

record cube_move =
  mv_face :: logical_face
  mv_turn :: move_turn

definition parse_move :: "string \<Rightarrow> cube_error + cube_move" where
  "parse_move token =
     (let face = (case token of
          [] \<Rightarrow> None
        | c # _ \<Rightarrow>
            if c = CHR ''U'' then Some logical_face.Up
            else if c = CHR ''R'' then Some logical_face.Right
            else if c = CHR ''F'' then Some logical_face.Front
            else if c = CHR ''D'' then Some logical_face.Down
            else if c = CHR ''L'' then Some logical_face.Left
            else if c = CHR ''B'' then Some logical_face.Back
            else None)
      in case face of
           None \<Rightarrow> Inl (InvalidMove token)
         | Some face \<Rightarrow>
             if tl token = [] then Inr \<lparr> mv_face = face, mv_turn = move_turn.Clockwise \<rparr>
             else if tl token = [CHR 0x27] then Inr \<lparr> mv_face = face, mv_turn = move_turn.CounterClockwise \<rparr>
             else if tl token = ''2'' then Inr \<lparr> mv_face = face, mv_turn = move_turn.Half \<rparr>
             else Inl (InvalidMove token))"

definition parse_solution :: "string \<Rightarrow> cube_error + cube_move list" where
  "parse_solution solution = collect_results parse_move (split_words is_whitespace solution)"

section \<open>Faces: conversions and rotation\<close>

definition face_ok :: "face \<Rightarrow> bool" where
  "face_ok f \<longleftrightarrow> length (stickers f) = 9"

lemma color_try_from_symbol [simp]: "color_try_from (color_symbol c) = Inr c"
  by (cases c) (simp_all add: color_try_from_def)

lemma color_try_from_iff: "color_try_from ch = Inr c \<longleftrightarrow> ch = color_symbol c"
  by (cases c) (auto simp: color_try_from_def split: if_splits)

lemma collect_colors: "collect_results color_try_from (map color_symbol cs) = Inr cs"
  by (induction cs) simp_all

lemma from_symbols_iff: "from_symbols s = Inr f \<longleftrightarrow> face_ok f \<and> s = compact f"
proof
  assume "from_symbols s = Inr f"
  then have "length s = 9" "list_all2 (\<lambda>ch c. color_try_from ch = Inr c) s (stickers f)"
    by (auto simp: from_symbols_def collect_results_ok split: if_splits sum.splits)
  then show "face_ok f \<and> s = compact f"
    by (auto simp: face_ok_def compact_def color_try_from_iff list_all2_conv_all_nth
        intro!: nth_equalityI)
next
  assume "face_ok f \<and> s = compact f"
  then show "from_symbols s = Inr f"
    by (simp add: from_symbols_def face_ok_def compact_def collect_colors)
qed

lemma face_cases:
  assumes "face_ok f"
  obtains a b c d e g h i j where "f = \<lparr> stickers = [a, b, c, d, e, g, h, i, j] \<rparr>"
  using assms by (cases f) (auto simp: face_ok_def length_Suc_conv numeral_eq_Suc)

lemma rotate_once_ok [simp]: "face_ok (rotate_once f)"
  by (simp add: face_ok_def rotate_once_def)

lemma rotate_pow_ok: "face_ok f \<Longrightarrow> face_ok ((rotate_once ^^ n) f)"
  by (induction n) simp_all

lemma rotated_ok: "face_ok f \<Longrightarrow> face_ok (rotated f q)"
  by (simp add: rotated_def rotate_pow_ok)

lemma center_rotate_once [simp]: "center (rotate_once f) = center f"
  by (simp add: center_def rotate_once_def)

lemma center_rotated [simp]: "center (rotated f q) = center f"
proof -
  have "center ((rotate_once ^^ n) f) = center f" for n
    by (induction n) simp_all
  then show ?thesis by (simp add: rotated_def)
qed

lemma mset_rotate_once: "face_ok f \<Longrightarrow> count_list (stickers (rotate_once f)) c = count_list (stickers f) c"
  by (erule face_cases) (simp add: rotate_once_def)

lemma rotate_four: "face_ok f \<Longrightarrow> (rotate_once ^^ 4) f = f"
  by (erule face_cases) (simp add: rotate_once_def numeral_eq_Suc)

section \<open>The facelet string\<close>

definition cube_ok :: "cube_state \<Rightarrow> bool" where
  "cube_ok c \<longleftrightarrow> length (faces c) = 6 \<and> (\<forall>f. Some f \<in> set (faces c) \<longrightarrow> face_ok f)"

lemma face_index_less [simp]: "face_index l < 6"
  by (cases l) simp_all

lemma color_index_less [simp]: "color_index c < 6"
  by (cases c) simp_all

lemma color_index_inj [simp]: "color_index a = color_index b \<longleftrightarrow> a = b"
  by (cases a; cases b) simp_all

lemma face_index_inj [simp]: "face_index a = face_index b \<longleftrightarrow> a = b"
  by (cases a; cases b) simp_all

lemma nth_ALL_FACES [simp]: "ALL_FACES ! face_index l = l"
  by (cases l) (simp_all add: ALL_FACES_def)

lemma set_ALL_COLORS: "set ALL_COLORS = UNIV"
proof -
  have "c \<in> set ALL_COLORS" for c by (cases c) (simp_all add: ALL_COLORS_def)
  then show ?thesis by blast
qed

lemma card_colors: "card (UNIV :: sticker_color set) = 6"
  unfolding set_ALL_COLORS [symmetric] by (simp add: ALL_COLORS_def)

lemma default_cube_ok: "cube_ok default_cube"
  by (simp add: cube_ok_def default_cube_def)

lemma record_scan_ok:
  assumes "cube_ok c" and "face_ok f"
  shows "cube_ok (snd (record_scan c pose f))"
proof -
  have "Some g \<in> set ((faces c)[i := Some (rotated f q)]) \<Longrightarrow> face_ok g" for g i q
    using assms set_update_subset_insert [of "faces c" i "Some (rotated f q)"]
    by (auto simp: cube_ok_def rotated_ok)
  with assms show ?thesis
    by (simp add: record_scan_def cube_ok_def Let_def)
qed

text \<open>\<open>center_face fs c\<close> is the logical face whose centre sticker is \<open>c\<close>.\<close>

definition center_assoc :: "(logical_face \<times> face) list \<Rightarrow> (sticker_color \<times> logical_face) list" where
  "center_assoc lfs = map (\<lambda>(l, f). (center f, l)) lfs"

definition center_face :: "face list \<Rightarrow> sticker_color \<Rightarrow> logical_face" where
  "center_face fs c = the (map_of (center_assoc (zip ALL_FACES fs)) c)"

lemma center_assoc_simps [simp]:
  "center_assoc [] = []" "center_assoc ((l, f) # lfs) = (center f, l) # center_assoc lfs"
  by (simp_all add: center_assoc_def)

lemma center_map_spec:
  assumes "length m = 6"
  shows "case center_map lfs m of
      Inl e \<Rightarrow> \<not> (distinct (map fst (center_assoc lfs)) \<and>
        (\<forall>c \<in> fst ` set (center_assoc lfs). m ! color_index c = None))
    | Inr m' \<Rightarrow> distinct (map fst (center_assoc lfs)) \<and>
        (\<forall>c \<in> fst ` set (center_assoc lfs). m ! color_index c = None) \<and> length m' = 6 \<and>
        (\<forall>c. m' ! color_index c =
          (case map_of (center_assoc lfs) c of Some l \<Rightarrow> Some l | None \<Rightarrow> m ! color_index c))"
  using assms
proof (induction lfs arbitrary: m)
  case Nil
  then show ?case by simp
next
  case (Cons lf lfs)
  obtain l f where lf: "lf = (l, f)" by (cases lf)
  show ?case
  proof (cases "m ! color_index (center f) = None")
    case False
    then show ?thesis by (simp add: lf)
  next
    case True
    let ?m = "m[color_index (center f) := Some l]"
    let ?C = "fst ` set (center_assoc lfs)"
    have upd: "?m ! color_index c = (if c = center f then Some l else m ! color_index c)" for c
      using Cons.prems by (simp add: nth_list_update)
    then have free: "(\<forall>c \<in> ?C. ?m ! color_index c = None) \<longleftrightarrow>
        center f \<notin> ?C \<and> (\<forall>c \<in> ?C. m ! color_index c = None)"
      by (auto intro: rev_image_eqI)
    have IH: "case center_map lfs ?m of
        Inl e \<Rightarrow> \<not> (distinct (map fst (center_assoc lfs)) \<and>
          (\<forall>c \<in> ?C. ?m ! color_index c = None))
      | Inr m' \<Rightarrow> distinct (map fst (center_assoc lfs)) \<and> (\<forall>c \<in> ?C. ?m ! color_index c = None) \<and>
          length m' = 6 \<and> (\<forall>c. m' ! color_index c =
            (case map_of (center_assoc lfs) c of Some l \<Rightarrow> Some l | None \<Rightarrow> ?m ! color_index c))"
      by (rule Cons.IH) (use Cons.prems in simp)
    show ?thesis
    proof (cases "center_map lfs ?m")
      case (Inl e)
      with IH free have "distinct (map fst (center_assoc lfs)) \<longrightarrow> center f \<notin> ?C \<longrightarrow>
          \<not> (\<forall>c \<in> ?C. m ! color_index c = None)"
        by (simp only: sum.case) blast
      with True Inl show ?thesis by (auto simp: lf)
    next
      case (Inr m')
      with IH free have fresh: "center f \<notin> ?C" and rest: "distinct (map fst (center_assoc lfs))"
        "\<forall>c \<in> ?C. m ! color_index c = None" "length m' = 6"
        "\<And>c. m' ! color_index c = (case map_of (center_assoc lfs) c of
          Some l \<Rightarrow> Some l | None \<Rightarrow> ?m ! color_index c)"
        by auto
      then have "map_of (center_assoc lfs) (center f) = None"
        by (simp add: map_of_eq_None_iff)
      then have "m' ! color_index c = (case map_of ((center f, l) # center_assoc lfs) c of
          Some l \<Rightarrow> Some l | None \<Rightarrow> m ! color_index c)" for c
        using rest(4) [of c] upd [of c] by (auto split: option.splits)
      with True Inr fresh rest(1-3) show ?thesis by (simp add: lf)
    qed
  qed
qed

lemma count_stickers_spec:
  assumes "\<forall>c \<in> set colors. m ! color_index c = Some (g c)" and "length counts = 6"
  shows "\<exists>counts'. count_stickers m colors counts fl =
      Some (counts', fl @ map (\<lambda>c. face_symbol (g c)) colors) \<and>
    (\<forall>c. counts' ! color_index c = counts ! color_index c + of_nat (count_list colors c))"
  using assms
proof (induction colors arbitrary: counts fl)
  case (Cons c colors)
  let ?counts = "counts[color_index c := counts ! color_index c + 1]"
  obtain counts' where c': "count_stickers m colors ?counts (fl @ [face_symbol (g c)]) =
      Some (counts', (fl @ [face_symbol (g c)]) @ map (\<lambda>c. face_symbol (g c)) colors)"
    "\<forall>d. counts' ! color_index d = ?counts ! color_index d + of_nat (count_list colors d)"
    using Cons.IH [of ?counts "fl @ [face_symbol (g c)]"] Cons.prems by auto
  then show ?case
    using Cons.prems by (auto simp: Let_def nth_list_update)
qed simp

lemma collect_faces:
  assumes "length fs = 6"
  shows "collect_results (\<lambda>(l, f). case f of None \<Rightarrow> Inl (MissingScan l) | Some f \<Rightarrow> Inr f)
      (zip ALL_FACES fs) = Inr gs \<longleftrightarrow> fs = map Some gs"
proof -
  obtain a b c d e f where "fs = [a, b, c, d, e, f]"
    using assms by (auto simp: length_Suc_conv numeral_eq_Suc)
  then show ?thesis
    by (auto simp: ALL_FACES_def split: option.splits)
qed

lemma finite_colors [simp]: "finite (A :: sticker_color set)"
  by (metis finite_subset set_ALL_COLORS List.finite_set subset_UNIV)

lemma centers_cover:
  assumes "distinct (map center fs)" and "length fs = 6"
  shows "set (map center fs) = UNIV"
proof (rule card_subset_eq)
  show "card (set (map center fs)) = card (UNIV :: sticker_color set)"
    using assms distinct_card [of "map center fs"] by (simp add: card_colors)
qed simp_all

lemma fst_center_assoc: "length fs = 6 \<Longrightarrow> map fst (center_assoc (zip ALL_FACES fs)) = map center fs"
  by (auto simp: center_assoc_def ALL_FACES_def length_Suc_conv numeral_eq_Suc)

definition facelets_of :: "face list \<Rightarrow> string" where
  "facelets_of fs = map (\<lambda>c. face_symbol (center_face fs c)) (concat (map stickers fs))"

lemma count_list_le: "count_list xs c \<le> length xs"
  by (induction xs) auto

lemma facelet_string_spec:
  assumes "cube_ok c"
  shows "\<exists>r. facelet_string c = Some r \<and> (\<forall>s. r = Inr s \<longleftrightarrow>
    (\<exists>fs. faces c = map Some fs \<and> distinct (map center fs) \<and>
      (\<forall>col. count_list (concat (map stickers fs)) col = 9) \<and> s = facelets_of fs))"
proof -
  let ?collect = "collect_results (\<lambda>(l, f). case f of None \<Rightarrow> Inl (MissingScan l) | Some f \<Rightarrow> Inr f)
      (zip ALL_FACES (faces c))"
  from assms have len: "length (faces c) = 6" by (simp add: cube_ok_def)
  show ?thesis
  proof (cases ?collect)
    case (Inl e)
    then have "\<nexists>fs. faces c = map Some fs"
      using collect_faces [OF len] by (metis Inl_Inr_False)
    with Inl show ?thesis by (auto simp: facelet_string_def)
  next
    case (Inr fs)
    then have fs: "faces c = map Some fs" using collect_faces [OF len] by blast
    then have len_fs: "length fs = 6" and ok: "\<forall>f \<in> set fs. face_ok f"
      using assms by (auto simp: cube_ok_def dest: arg_cong [where f = length])
    have len54: "length (concat (map stickers fs)) = 54"
      using len_fs ok by (auto simp: face_ok_def length_Suc_conv numeral_eq_Suc)
    have fs_only: "gs = fs" if "faces c = map Some gs" for gs
      using that fs by (metis list.inj_map_strong option.inject)
    note spec = center_map_spec [of "replicate 6 None" "zip ALL_FACES fs"]
    show ?thesis
    proof (cases "center_map (zip ALL_FACES fs) (replicate 6 None)")
      case cm: (Inl e)
      then have "\<not> distinct (map center fs)"
        using spec by (simp add: fst_center_assoc [OF len_fs])
      then have "\<forall>gs. faces c = map Some gs \<longrightarrow> \<not> distinct (map center gs)"
        using fs_only by blast
      with Inr cm show ?thesis by (auto simp: facelet_string_def)
    next
      case cm: (Inr m)
      then have dist: "distinct (map center fs)"
        and m: "m ! color_index col = (case map_of (center_assoc (zip ALL_FACES fs)) col of
          Some l \<Rightarrow> Some l | None \<Rightarrow> None)" for col
        using spec by (simp_all add: fst_center_assoc [OF len_fs] split: option.split)
      have "map_of (center_assoc (zip ALL_FACES fs)) col \<noteq> None" for col
        using centers_cover [OF dist len_fs] fst_center_assoc [OF len_fs]
        by (metis UNIV_I list.set_map map_of_eq_None_iff)
      then have g: "\<forall>col \<in> set (concat (map stickers fs)).
          m ! color_index col = Some (center_face fs col)"
        using m by (auto simp: center_face_def split: option.splits)
      obtain counts where counts: "count_stickers m (concat (map stickers fs)) (replicate 6 0) [] =
          Some (counts, facelets_of fs)"
        and cnt: "\<forall>col. counts ! color_index col = of_nat (count_list (concat (map stickers fs)) col)"
        using count_stickers_spec [OF g, of "replicate 6 0" "[]"] by (auto simp: facelets_of_def)
      have small: "count_list (concat (map stickers fs)) col < 256" for col
        using count_list_le [of "concat (map stickers fs)" col] len54 by linarith
      have nine: "counts ! color_index col = 9 \<longleftrightarrow> count_list (concat (map stickers fs)) col = 9" for col
        using cnt of_nat_u8_eq [OF small, of 9 col] by simp
      have *: "first_error (map (\<lambda>color. if counts ! color_index color \<noteq> 9
          then Inl (WrongColorCount color (counts ! color_index color)) else Inr ()) ALL_COLORS) =
          Inr () \<longleftrightarrow> (\<forall>col. count_list (concat (map stickers fs)) col = 9)"
        using nine by (auto simp: first_error_ok set_ALL_COLORS)
      then have "facelet_string c = Some (Inr (facelets_of fs))"
        if "\<forall>col. count_list (concat (map stickers fs)) col = 9"
        using Inr cm counts that by (simp add: facelet_string_def)
      moreover have "\<exists>e. facelet_string c = Some (Inl e)"
        if "\<not> (\<forall>col. count_list (concat (map stickers fs)) col = 9)"
        using Inr cm counts that * by (auto simp: facelet_string_def split: sum.splits)
      ultimately show ?thesis
        using fs fs_only dist by (cases "\<forall>col. count_list (concat (map stickers fs)) col = 9") blast+
    qed
  qed
qed

end
