(* ===== verification/Stand.thy ===== *)
theory Stand
  imports Prelude
begin

text \<open>
  \<open>src/stand.rs\<close>: the eight servo axes and their wiring, the collision rule for gripper
  configurations, the calibration with its defaults, and its validation. Durations are numbers of
  milliseconds. Reading the TOML file is I/O and not modelled; \<open>calibration_validate\<close> is the check
  it ends with.
\<close>

datatype stand_axis =
    RightGripper | BottomGripper | TopGripper | LeftGripper | TopRail | LeftRail | BottomRail
  | RightRail

definition GRIPPER_WORKING_MIN_PULSE_US :: u16 where "GRIPPER_WORKING_MIN_PULSE_US = 400"
definition GRIPPER_WORKING_MAX_PULSE_US :: u16 where "GRIPPER_WORKING_MAX_PULSE_US = 2700"

datatype gripper_orientation = FrameParallel | FramePerpendicular | FrameParallelReversed

definition gripper_orientation_from_str :: "string \<Rightarrow> string + gripper_orientation" where
  "gripper_orientation_from_str val =
     (if val = ''frame-parallel'' \<or> val = ''frame_parallel'' then Inr gripper_orientation.FrameParallel
      else if val = ''frame-perpendicular'' \<or> val = ''frame_perpendicular'' then
        Inr gripper_orientation.FramePerpendicular
      else if val = ''frame-parallel-reversed'' \<or> val = ''frame_parallel_reversed'' then
        Inr gripper_orientation.FrameParallelReversed
      else Inl val)"

fun gripper_orientation_name :: "gripper_orientation \<Rightarrow> string" where
  "gripper_orientation_name gripper_orientation.FrameParallel = ''frame-parallel''"
| "gripper_orientation_name gripper_orientation.FramePerpendicular = ''frame-perpendicular''"
| "gripper_orientation_name gripper_orientation.FrameParallelReversed = ''frame-parallel-reversed''"

fun is_frame_parallel :: "gripper_orientation \<Rightarrow> bool" where
  "is_frame_parallel gripper_orientation.FrameParallel = True"
| "is_frame_parallel gripper_orientation.FrameParallelReversed = True"
| "is_frame_parallel gripper_orientation.FramePerpendicular = False"

record grip_configuration =
  gc_left :: gripper_orientation
  gc_top :: gripper_orientation
  gc_right :: gripper_orientation
  gc_bottom :: gripper_orientation

definition all_frame_perpendicular :: grip_configuration where
  "all_frame_perpendicular = \<lparr> gc_left = gripper_orientation.FramePerpendicular,
     gc_top = gripper_orientation.FramePerpendicular,
     gc_right = gripper_orientation.FramePerpendicular,
     gc_bottom = gripper_orientation.FramePerpendicular \<rparr>"

datatype grip_error = AdjacentParallel string string

definition grip_configuration_validate :: "grip_configuration \<Rightarrow> grip_error + unit" where
  "grip_configuration_validate c = first_error (map
     (\<lambda>(first_name, first, second_name, second).
        if is_frame_parallel first \<and> is_frame_parallel second
        then Inl (AdjacentParallel first_name second_name) else Inr ())
     [(''left'', gc_left c, ''top'', gc_top c),
      (''top'', gc_top c, ''right'', gc_right c),
      (''right'', gc_right c, ''bottom'', gc_bottom c),
      (''bottom'', gc_bottom c, ''left'', gc_left c)])"

section \<open>Axes\<close>

definition GRIPPERS :: "stand_axis list" where
  "GRIPPERS = [RightGripper, BottomGripper, TopGripper, LeftGripper]"

definition RAILS :: "stand_axis list" where
  "RAILS = [TopRail, LeftRail, BottomRail, RightRail]"

definition ALL_AXES :: "stand_axis list" where
  "ALL_AXES = [RightGripper, BottomGripper, TopGripper, LeftGripper, TopRail, LeftRail, BottomRail,
     RightRail]"

fun channel :: "stand_axis \<Rightarrow> u8" where
  "channel RightGripper = 0"
| "channel BottomGripper = 1"
| "channel TopGripper = 2"
| "channel LeftGripper = 3"
| "channel TopRail = 4"
| "channel LeftRail = 5"
| "channel BottomRail = 6"
| "channel RightRail = 7"

fun stand_axis_name :: "stand_axis \<Rightarrow> string" where
  "stand_axis_name RightGripper = ''right-gripper''"
| "stand_axis_name BottomGripper = ''bottom-gripper''"
| "stand_axis_name TopGripper = ''top-gripper''"
| "stand_axis_name LeftGripper = ''left-gripper''"
| "stand_axis_name TopRail = ''top-rail''"
| "stand_axis_name LeftRail = ''left-rail''"
| "stand_axis_name BottomRail = ''bottom-rail''"
| "stand_axis_name RightRail = ''right-rail''"

definition stand_axis_from_str :: "string \<Rightarrow> string + stand_axis" where
  "stand_axis_from_str val =
     (if val = ''right-gripper'' then Inr RightGripper
      else if val = ''bottom-gripper'' then Inr BottomGripper
      else if val = ''top-gripper'' then Inr TopGripper
      else if val = ''left-gripper'' then Inr LeftGripper
      else if val = ''top-rail'' then Inr TopRail
      else if val = ''left-rail'' then Inr LeftRail
      else if val = ''bottom-rail'' then Inr BottomRail
      else if val = ''right-rail'' then Inr RightRail
      else Inl val)"

definition is_gripper :: "stand_axis \<Rightarrow> bool" where
  "is_gripper axis \<longleftrightarrow> channel axis < 4"

section \<open>Calibration\<close>

record rail_calibration =
  far_open_us :: u16
  near_grip_us :: u16
  left_near_grip_us :: "u16 option"
  right_near_grip_us :: "u16 option"

record gripper_calibration =
  frame_parallel_us :: u16
  frame_perpendicular_us :: u16
  frame_parallel_reversed_us :: u16

record grippers_calibration =
  cal_right :: gripper_calibration
  cal_bottom :: gripper_calibration
  cal_top :: gripper_calibration
  cal_left :: gripper_calibration

record timing_calibration =
  rails_open_ms :: u64
  rails_grip_ms :: u64
  gripper_pose_ms :: u64

record stand_calibration =
  rails :: rail_calibration
  grippers :: grippers_calibration
  timing :: timing_calibration

definition default_calibration :: stand_calibration where
  "default_calibration = \<lparr>
     rails = \<lparr> far_open_us = 2500, near_grip_us = 1200, left_near_grip_us = Some 1175,
               right_near_grip_us = Some 1175 \<rparr>,
     grippers = \<lparr>
       cal_right = \<lparr> frame_parallel_us = 450, frame_perpendicular_us = 1500,
                     frame_parallel_reversed_us = 2500 \<rparr>,
       cal_bottom = \<lparr> frame_parallel_us = 400, frame_perpendicular_us = 1450,
                      frame_parallel_reversed_us = 2500 \<rparr>,
       cal_top = \<lparr> frame_parallel_us = 400, frame_perpendicular_us = 1450,
                   frame_parallel_reversed_us = 2450 \<rparr>,
       cal_left = \<lparr> frame_parallel_us = 400, frame_perpendicular_us = 1450,
                    frame_parallel_reversed_us = 2450 \<rparr> \<rparr>,
     timing = \<lparr> rails_open_ms = 1200, rails_grip_ms = 1200, gripper_pose_ms = 1000 \<rparr> \<rparr>"

datatype rail_position = FarOpen | NearGrip

fun rail_pulse :: "stand_calibration \<Rightarrow> stand_axis \<Rightarrow> rail_position \<Rightarrow> u16" where
  "rail_pulse c axis FarOpen = far_open_us (rails c)"
| "rail_pulse c axis NearGrip =
     (case axis of
        LeftRail \<Rightarrow> (case left_near_grip_us (rails c) of Some p \<Rightarrow> p | None \<Rightarrow> near_grip_us (rails c))
      | RightRail \<Rightarrow> (case right_near_grip_us (rails c) of Some p \<Rightarrow> p | None \<Rightarrow> near_grip_us (rails c))
      | _ \<Rightarrow> near_grip_us (rails c))"

definition rail_duration :: "stand_calibration \<Rightarrow> rail_position \<Rightarrow> nat" where
  "rail_duration c position =
     (case position of
        FarOpen \<Rightarrow> unat (rails_open_ms (timing c))
      | NearGrip \<Rightarrow> unat (rails_grip_ms (timing c)))"

definition gripper_pose_duration :: "stand_calibration \<Rightarrow> nat" where
  "gripper_pose_duration c = unat (gripper_pose_ms (timing c))"

definition gripper_pulse :: "stand_calibration \<Rightarrow> stand_axis \<Rightarrow> gripper_orientation \<Rightarrow> u16 option" where
  "gripper_pulse c axis orientation = do {
     gripper \<leftarrow> (case axis of
         RightGripper \<Rightarrow> Some (cal_right (grippers c))
       | BottomGripper \<Rightarrow> Some (cal_bottom (grippers c))
       | TopGripper \<Rightarrow> Some (cal_top (grippers c))
       | LeftGripper \<Rightarrow> Some (cal_left (grippers c))
       | _ \<Rightarrow> None);
     Some (case orientation of
         gripper_orientation.FrameParallel \<Rightarrow> frame_parallel_us gripper
       | gripper_orientation.FramePerpendicular \<Rightarrow> frame_perpendicular_us gripper
       | gripper_orientation.FrameParallelReversed \<Rightarrow> frame_parallel_reversed_us gripper) }"

datatype calibration_error =
    DurationRange string u64
  | PulseRange string u16 u16 u16

definition validate_duration :: "string \<Rightarrow> u64 \<Rightarrow> calibration_error + unit" where
  "validate_duration name milliseconds =
     (if \<not> (100 \<le> milliseconds \<and> milliseconds \<le> 5000) then Inl (DurationRange name milliseconds)
      else Inr ())"

definition validate_pulse :: "string \<Rightarrow> u16 \<Rightarrow> u16 \<Rightarrow> u16 \<Rightarrow> calibration_error + unit" where
  "validate_pulse name pulse lo hi =
     (if \<not> (lo \<le> pulse \<and> pulse \<le> hi) then Inl (PulseRange name lo hi pulse) else Inr ())"

definition gripper_checks :: "string \<Rightarrow> gripper_calibration \<Rightarrow> (calibration_error + unit) list" where
  "gripper_checks name g = map
     (\<lambda>(pose, pulse). validate_pulse (name @ ''.'' @ pose) pulse GRIPPER_WORKING_MIN_PULSE_US
        GRIPPER_WORKING_MAX_PULSE_US)
     [(''frame_parallel_us'', frame_parallel_us g),
      (''frame_perpendicular_us'', frame_perpendicular_us g),
      (''frame_parallel_reversed_us'', frame_parallel_reversed_us g)]"

definition calibration_validate :: "stand_calibration \<Rightarrow> calibration_error + unit" where
  "calibration_validate c = first_error
     ([validate_pulse ''rails.far_open_us'' (far_open_us (rails c)) 300 2800,
       validate_pulse ''rails.near_grip_us'' (near_grip_us (rails c)) 300 2800] @
      (case left_near_grip_us (rails c) of
         Some pulse \<Rightarrow> [validate_pulse ''rails.left_near_grip_us'' pulse 300 2800] | None \<Rightarrow> []) @
      (case right_near_grip_us (rails c) of
         Some pulse \<Rightarrow> [validate_pulse ''rails.right_near_grip_us'' pulse 300 2800] | None \<Rightarrow> []) @
      [validate_duration ''timing.rails_open_ms'' (rails_open_ms (timing c)),
       validate_duration ''timing.rails_grip_ms'' (rails_grip_ms (timing c)),
       validate_duration ''timing.gripper_pose_ms'' (gripper_pose_ms (timing c))] @
      gripper_checks ''grippers.right'' (cal_right (grippers c)) @
      gripper_checks ''grippers.bottom'' (cal_bottom (grippers c)) @
      gripper_checks ''grippers.top'' (cal_top (grippers c)) @
      gripper_checks ''grippers.left'' (cal_left (grippers c)))"

section \<open>Facts\<close>

lemma stand_axis_from_name [simp]: "stand_axis_from_str (stand_axis_name a) = Inr a"
  by (cases a) (simp_all add: stand_axis_from_str_def)

lemma gripper_orientation_from_name [simp]:
  "gripper_orientation_from_str (gripper_orientation_name g) = Inr g"
  by (cases g) (simp_all add: gripper_orientation_from_str_def)

lemma channels_contiguous: "map channel ALL_AXES = [0, 1, 2, 3, 4, 5, 6, 7]"
  by (simp add: ALL_AXES_def)

lemma channel_inj: "channel a = channel b \<longleftrightarrow> a = b"
  by (cases a; cases b) simp_all

lemma is_gripper_iff: "is_gripper a \<longleftrightarrow> a \<in> {RightGripper, BottomGripper, TopGripper, LeftGripper}"
  by (cases a) (simp_all add: is_gripper_def)

lemma gripper_pulse_defined: "(\<exists>p. gripper_pulse c axis orientation = Some p) \<longleftrightarrow> is_gripper axis"
  by (cases axis) (simp_all add: gripper_pulse_def is_gripper_def)

lemma grip_configuration_validate_iff:
  "grip_configuration_validate c = Inr () \<longleftrightarrow>
     \<not> (is_frame_parallel (gc_left c) \<and> is_frame_parallel (gc_top c)) \<and>
     \<not> (is_frame_parallel (gc_top c) \<and> is_frame_parallel (gc_right c)) \<and>
     \<not> (is_frame_parallel (gc_right c) \<and> is_frame_parallel (gc_bottom c)) \<and>
     \<not> (is_frame_parallel (gc_bottom c) \<and> is_frame_parallel (gc_left c))"
  by (auto simp: grip_configuration_validate_def)

lemma validate_pulse_ok: "validate_pulse n p lo hi = Inr () \<longleftrightarrow> lo \<le> p \<and> p \<le> hi"
  by (simp add: validate_pulse_def)

lemma validate_duration_ok: "validate_duration n ms = Inr () \<longleftrightarrow> 100 \<le> ms \<and> ms \<le> 5000"
  by (simp add: validate_duration_def)

lemmas validate_ok = validate_pulse_ok validate_duration_ok

lemma calibration_rail_pulse:
  assumes "calibration_validate c = Inr ()"
  shows "300 \<le> rail_pulse c axis position \<and> rail_pulse c axis position \<le> 2800"
  using assms unfolding calibration_validate_def first_error_ok
  by (cases position; cases axis) (auto simp: validate_ok split: option.splits)

lemma calibration_gripper_pulse:
  assumes "calibration_validate c = Inr ()" and "gripper_pulse c axis orientation = Some p"
  shows "400 \<le> p \<and> p \<le> 2700"
  using assms unfolding calibration_validate_def first_error_ok
  by (cases axis; cases orientation)
     (auto simp: validate_ok gripper_checks_def gripper_pulse_def GRIPPER_WORKING_MIN_PULSE_US_def GRIPPER_WORKING_MAX_PULSE_US_def)

lemma calibration_rail_duration:
  assumes "calibration_validate c = Inr ()"
  shows "100 \<le> rail_duration c position \<and> rail_duration c position \<le> 5000"
  using assms unfolding calibration_validate_def first_error_ok
  by (cases position) (simp_all add: validate_ok rail_duration_def word_le_nat_alt)

lemma calibration_gripper_duration:
  assumes "calibration_validate c = Inr ()"
  shows "100 \<le> gripper_pose_duration c \<and> gripper_pose_duration c \<le> 5000"
  using assms unfolding calibration_validate_def first_error_ok
  by (simp add: validate_ok gripper_pose_duration_def word_le_nat_alt)

lemma default_calibration_valid: "calibration_validate default_calibration = Inr ()"
  unfolding calibration_validate_def first_error_ok
  by (simp add: default_calibration_def validate_ok gripper_checks_def GRIPPER_WORKING_MIN_PULSE_US_def GRIPPER_WORKING_MAX_PULSE_US_def)

end
