(* ===== verification/MovePlanner.thy ===== *)
theory MovePlanner
  imports Cube Stand
begin

text \<open>
  \<open>src/move_planner.rs\<close>: mechanical plans for sequences of face turns. The queue the source pushes
  to is a list extended on the right and threaded with the planner state. \<open>None\<close> is a reached
  \<open>unreachable!\<close> or an index panic.
\<close>

datatype rail_pair = LeftRight | TopBottom

datatype rail_target = Pair rail_pair | Single stand_axis

datatype move_plan_step =
    SetRails rail_target rail_position
  | SetGrippers "(stand_axis \<times> gripper_orientation) list"
  | MoveCompleted
  | AllOff

datatype axis_group = LeftRight | TopBottom

record planner_state =
  left_dirty :: bool
  right_dirty :: bool
  top_dirty :: bool
  bottom_dirty :: bool

definition default_planner :: planner_state where
  "default_planner = \<lparr> left_dirty = False, right_dirty = False, top_dirty = False,
     bottom_dirty = False \<rparr>"

fun is_dirty :: "planner_state \<Rightarrow> stand_axis \<Rightarrow> bool" where
  "is_dirty s LeftGripper = left_dirty s"
| "is_dirty s RightGripper = right_dirty s"
| "is_dirty s TopGripper = top_dirty s"
| "is_dirty s BottomGripper = bottom_dirty s"
| "is_dirty s _ = False"

fun set_dirty :: "planner_state \<Rightarrow> stand_axis \<Rightarrow> bool \<Rightarrow> planner_state option" where
  "set_dirty s LeftGripper dirty = Some (s\<lparr> left_dirty := dirty \<rparr>)"
| "set_dirty s RightGripper dirty = Some (s\<lparr> right_dirty := dirty \<rparr>)"
| "set_dirty s TopGripper dirty = Some (s\<lparr> top_dirty := dirty \<rparr>)"
| "set_dirty s BottomGripper dirty = Some (s\<lparr> bottom_dirty := dirty \<rparr>)"
| "set_dirty s _ dirty = None"

fun set_dirty_all :: "planner_state \<Rightarrow> stand_axis list \<Rightarrow> bool \<Rightarrow> planner_state option" where
  "set_dirty_all s [] dirty = Some s"
| "set_dirty_all s (g # gs) dirty = do { s \<leftarrow> set_dirty s g dirty; set_dirty_all s gs dirty }"

fun group_grippers :: "axis_group \<Rightarrow> stand_axis list" where
  "group_grippers axis_group.LeftRight = [LeftGripper, RightGripper]"
| "group_grippers axis_group.TopBottom = [TopGripper, BottomGripper]"

definition dirty_grippers :: "planner_state \<Rightarrow> axis_group \<Rightarrow> stand_axis list" where
  "dirty_grippers s grp = filter (is_dirty s) (group_grippers grp)"

fun group_for_gripper :: "stand_axis \<Rightarrow> axis_group option" where
  "group_for_gripper LeftGripper = Some axis_group.LeftRight"
| "group_for_gripper RightGripper = Some axis_group.LeftRight"
| "group_for_gripper TopGripper = Some axis_group.TopBottom"
| "group_for_gripper BottomGripper = Some axis_group.TopBottom"
| "group_for_gripper _ = None"

fun rail_for_gripper :: "stand_axis \<Rightarrow> stand_axis option" where
  "rail_for_gripper LeftGripper = Some LeftRail"
| "rail_for_gripper RightGripper = Some RightRail"
| "rail_for_gripper TopGripper = Some TopRail"
| "rail_for_gripper BottomGripper = Some BottomRail"
| "rail_for_gripper _ = None"

fun direct_axis :: "logical_face \<Rightarrow> (axis_group \<times> stand_axis \<times> stand_axis) option" where
  "direct_axis logical_face.Left = Some (axis_group.LeftRight, LeftGripper, LeftRail)"
| "direct_axis logical_face.Right = Some (axis_group.LeftRight, RightGripper, RightRail)"
| "direct_axis logical_face.Up = Some (axis_group.TopBottom, TopGripper, TopRail)"
| "direct_axis logical_face.Down = Some (axis_group.TopBottom, BottomGripper, BottomRail)"
| "direct_axis _ = None"

definition flush_grippers :: "move_plan_step list \<Rightarrow> planner_state \<Rightarrow> stand_axis list \<Rightarrow>
    (move_plan_step list \<times> planner_state) option" where
  "flush_grippers steps state gs = do {
     first \<leftarrow> (case gs of [] \<Rightarrow> None | g # _ \<Rightarrow> Some g);
     target \<leftarrow> (if length gs = 2 then do {
         grp \<leftarrow> group_for_gripper first;
         Some (Pair (case grp of axis_group.LeftRight \<Rightarrow> rail_pair.LeftRight
                     | axis_group.TopBottom \<Rightarrow> rail_pair.TopBottom)) }
       else map_option Single (rail_for_gripper first));
     state \<leftarrow> set_dirty_all state gs False;
     Some (steps @ [SetRails target FarOpen,
                    SetGrippers (map (\<lambda>axis. (axis, gripper_orientation.FramePerpendicular)) gs),
                    SetRails target NearGrip], state) }"

definition flush_group :: "move_plan_step list \<Rightarrow> planner_state \<Rightarrow> axis_group \<Rightarrow>
    (move_plan_step list \<times> planner_state) option" where
  "flush_group steps state grp =
     (let dirty = dirty_grippers state grp in
      if dirty \<noteq> [] then flush_grippers steps state dirty else Some (steps, state))"

fun turn_steps :: "stand_axis \<Rightarrow> stand_axis \<Rightarrow> move_turn \<Rightarrow> move_plan_step list" where
  "turn_steps gripper rail move_turn.Clockwise =
     [SetGrippers [(gripper, gripper_orientation.FrameParallelReversed)]]"
| "turn_steps gripper rail move_turn.CounterClockwise =
     [SetGrippers [(gripper, gripper_orientation.FrameParallel)]]"
| "turn_steps gripper rail move_turn.Half =
     [SetRails (Single rail) FarOpen,
      SetGrippers [(gripper, gripper_orientation.FrameParallel)],
      SetRails (Single rail) NearGrip,
      SetGrippers [(gripper, gripper_orientation.FrameParallelReversed)]]"

definition lazy_direct_turn :: "move_plan_step list \<Rightarrow> planner_state \<Rightarrow> stand_axis \<Rightarrow> stand_axis \<Rightarrow>
    move_turn \<Rightarrow> (move_plan_step list \<times> planner_state) option" where
  "lazy_direct_turn steps state gripper rail turn = do {
     (steps, state) \<leftarrow> (if is_dirty state gripper then flush_grippers steps state [gripper]
                        else Some (steps, state));
     state \<leftarrow> set_dirty state gripper True;
     Some (steps @ turn_steps gripper rail turn, state) }"

definition baseline_direct_turn :: "move_plan_step list \<Rightarrow> stand_axis \<Rightarrow> stand_axis \<Rightarrow> move_turn \<Rightarrow>
    move_plan_step list option" where
  "baseline_direct_turn steps gripper rail turn = do {
     (steps, state) \<leftarrow> lazy_direct_turn steps default_planner gripper rail turn;
     (steps, state) \<leftarrow> flush_grippers steps state [gripper];
     Some steps }"

text \<open>
  Whole-cube turns about the vertical axis, with the top and bottom grippers at the given end
  orientations; \<open>position_front_back\<close> and \<open>restore_front\<close> are its two directions.
\<close>

definition whole_turn :: "gripper_orientation \<Rightarrow> gripper_orientation \<Rightarrow> move_plan_step list" where
  "whole_turn top' bottom' =
     [SetRails (Pair rail_pair.LeftRight) FarOpen,
      SetGrippers [(TopGripper, top'), (BottomGripper, bottom')],
      SetRails (Pair rail_pair.LeftRight) NearGrip,
      SetRails (Pair rail_pair.TopBottom) FarOpen,
      SetGrippers [(TopGripper, gripper_orientation.FramePerpendicular),
                   (BottomGripper, gripper_orientation.FramePerpendicular)],
      SetRails (Pair rail_pair.TopBottom) NearGrip]"

definition position_front_back :: "move_plan_step list \<Rightarrow> move_plan_step list" where
  "position_front_back steps =
     steps @ whole_turn gripper_orientation.FrameParallel gripper_orientation.FrameParallelReversed"

definition restore_front :: "move_plan_step list \<Rightarrow> move_plan_step list" where
  "restore_front steps =
     steps @ whole_turn gripper_orientation.FrameParallelReversed gripper_orientation.FrameParallel"

definition reorient_front_fused :: "move_plan_step list \<Rightarrow> planner_state \<Rightarrow> gripper_orientation \<Rightarrow>
    gripper_orientation \<Rightarrow> (move_plan_step list \<times> planner_state) option" where
  "reorient_front_fused steps state top' bottom' =
     (let dirty = dirty_grippers state axis_group.LeftRight in if dirty = [] then None else do {
        state \<leftarrow> set_dirty_all state dirty False;
        Some (steps @
          [SetRails (Pair rail_pair.LeftRight) FarOpen,
           SetGrippers (map (\<lambda>axis. (axis, gripper_orientation.FramePerpendicular)) dirty),
           SetGrippers [(TopGripper, top'), (BottomGripper, bottom')],
           SetRails (Pair rail_pair.LeftRight) NearGrip,
           SetRails (Pair rail_pair.TopBottom) FarOpen,
           SetGrippers [(TopGripper, gripper_orientation.FramePerpendicular),
                        (BottomGripper, gripper_orientation.FramePerpendicular)],
           SetRails (Pair rail_pair.TopBottom) NearGrip], state) })"

definition position_front_back_fused :: "move_plan_step list \<Rightarrow> planner_state \<Rightarrow>
    (move_plan_step list \<times> planner_state) option" where
  "position_front_back_fused steps state =
     (if dirty_grippers state axis_group.LeftRight = [] then Some (position_front_back steps, state)
      else reorient_front_fused steps state gripper_orientation.FrameParallel
             gripper_orientation.FrameParallelReversed)"

definition restore_front_fused :: "move_plan_step list \<Rightarrow> planner_state \<Rightarrow>
    (move_plan_step list \<times> planner_state) option" where
  "restore_front_fused steps state =
     (if dirty_grippers state axis_group.LeftRight = [] then Some (restore_front steps, state)
      else reorient_front_fused steps state gripper_orientation.FrameParallelReversed
             gripper_orientation.FrameParallel)"

section \<open>The baseline planner\<close>

definition baseline_move :: "move_plan_step list \<Rightarrow> cube_move \<Rightarrow> move_plan_step list option" where
  "baseline_move steps m = do {
     steps \<leftarrow> (case mv_face m of
         logical_face.Left \<Rightarrow> baseline_direct_turn steps LeftGripper LeftRail (mv_turn m)
       | logical_face.Right \<Rightarrow> baseline_direct_turn steps RightGripper RightRail (mv_turn m)
       | logical_face.Up \<Rightarrow> baseline_direct_turn steps TopGripper TopRail (mv_turn m)
       | logical_face.Down \<Rightarrow> baseline_direct_turn steps BottomGripper BottomRail (mv_turn m)
       | logical_face.Front \<Rightarrow> do {
           steps \<leftarrow> baseline_direct_turn (position_front_back steps) RightGripper RightRail (mv_turn m);
           Some (restore_front steps) }
       | logical_face.Back \<Rightarrow> do {
           steps \<leftarrow> baseline_direct_turn (position_front_back steps) LeftGripper LeftRail (mv_turn m);
           Some (restore_front steps) });
     Some (steps @ [MoveCompleted]) }"

fun baseline_loop :: "cube_move list \<Rightarrow> move_plan_step list \<Rightarrow> move_plan_step list option" where
  "baseline_loop [] steps = Some steps"
| "baseline_loop (m # ms) steps = do { steps \<leftarrow> baseline_move steps m; baseline_loop ms steps }"

definition baseline_held_steps :: "cube_move list \<Rightarrow> move_plan_step list option" where
  "baseline_held_steps moves = baseline_loop moves []"

section \<open>The optimized planner\<close>

datatype finish = CanonicalHeld | Release

datatype frame = Canonical | RotatedFb

definition move_axes :: "frame \<Rightarrow> logical_face \<Rightarrow> (axis_group \<times> stand_axis \<times> stand_axis) option" where
  "move_axes frame f =
     (if frame = RotatedFb \<and> f = logical_face.Front then
        Some (axis_group.LeftRight, RightGripper, RightRail)
      else if frame = RotatedFb \<and> f = logical_face.Back then
        Some (axis_group.LeftRight, LeftGripper, LeftRail)
      else direct_axis f)"

definition reframe :: "move_plan_step list \<Rightarrow> planner_state \<Rightarrow> frame \<Rightarrow> logical_face \<Rightarrow>
    (move_plan_step list \<times> planner_state \<times> frame) option" where
  "reframe steps state frame f =
     (if frame = Canonical \<and> (f = logical_face.Front \<or> f = logical_face.Back) then do {
        (steps, state) \<leftarrow> flush_group steps state axis_group.TopBottom;
        (steps, state) \<leftarrow> position_front_back_fused steps state;
        Some (steps, state, RotatedFb) }
      else if frame = RotatedFb \<and> (f = logical_face.Left \<or> f = logical_face.Right) then do {
        (steps, state) \<leftarrow> flush_group steps state axis_group.TopBottom;
        (steps, state) \<leftarrow> restore_front_fused steps state;
        Some (steps, state, Canonical) }
      else Some (steps, state, frame))"

definition optimized_move :: "move_plan_step list \<Rightarrow> planner_state \<Rightarrow> frame \<Rightarrow> cube_move \<Rightarrow>
    (move_plan_step list \<times> planner_state \<times> frame) option" where
  "optimized_move steps state frame m = do {
     (steps, state, frame) \<leftarrow> reframe steps state frame (mv_face m);
     (grp, gripper, rail) \<leftarrow> move_axes frame (mv_face m);
     let other = (case grp of axis_group.LeftRight \<Rightarrow> axis_group.TopBottom
                  | axis_group.TopBottom \<Rightarrow> axis_group.LeftRight) in do {
     (steps, state) \<leftarrow> flush_group steps state other;
     (steps, state) \<leftarrow> lazy_direct_turn steps state gripper rail (mv_turn m);
     Some (steps @ [MoveCompleted], state, frame) } }"

fun optimized_loop :: "cube_move list \<Rightarrow> move_plan_step list \<Rightarrow> planner_state \<Rightarrow> frame \<Rightarrow>
    (move_plan_step list \<times> planner_state \<times> frame) option" where
  "optimized_loop [] steps state frame = Some (steps, state, frame)"
| "optimized_loop (m # ms) steps state frame = do {
     (steps, state, frame) \<leftarrow> optimized_move steps state frame m;
     optimized_loop ms steps state frame }"

definition finish_held :: "move_plan_step list \<Rightarrow> planner_state \<Rightarrow> frame \<Rightarrow> move_plan_step list option" where
  "finish_held steps state frame = do {
     (steps, state) \<leftarrow> (if frame = RotatedFb then do {
         (steps, state) \<leftarrow> flush_group steps state axis_group.TopBottom;
         restore_front_fused steps state }
       else Some (steps, state));
     (steps, state) \<leftarrow> flush_group steps state axis_group.LeftRight;
     (steps, state) \<leftarrow> flush_group steps state axis_group.TopBottom;
     Some steps }"

definition optimized_steps :: "cube_move list \<Rightarrow> finish \<Rightarrow> move_plan_step list option" where
  "optimized_steps moves finish = do {
     (steps, state, frame) \<leftarrow> optimized_loop moves [] default_planner Canonical;
     if finish = CanonicalHeld then finish_held steps state frame else Some steps }"

definition optimized_held_steps :: "cube_move list \<Rightarrow> move_plan_step list option" where
  "optimized_held_steps moves = optimized_steps moves CanonicalHeld"

definition optimized_execute_steps :: "cube_move list \<Rightarrow> move_plan_step list option" where
  "optimized_execute_steps moves = optimized_steps moves Release"

definition append_open_steps :: "move_plan_step list \<Rightarrow> move_plan_step list" where
  "append_open_steps steps =
     steps @ [SetRails (Pair rail_pair.LeftRight) FarOpen,
              SetRails (Pair rail_pair.TopBottom) FarOpen,
              AllOff]"

section \<open>Plan measures\<close>

fun step_duration :: "stand_calibration \<Rightarrow> move_plan_step \<Rightarrow> nat" where
  "step_duration c (SetRails _ position) = rail_duration c position"
| "step_duration c (SetGrippers _) = gripper_pose_duration c"
| "step_duration c MoveCompleted = 0"
| "step_duration c AllOff = 0"

definition estimated_duration :: "move_plan_step list \<Rightarrow> stand_calibration \<Rightarrow> nat" where
  "estimated_duration steps c = fold (\<lambda>step total. total + step_duration c step) steps 0"

fun step_targets :: "move_plan_step \<Rightarrow> nat" where
  "step_targets (SetRails (Pair _) _) = 2"
| "step_targets (SetRails (Single _) _) = 1"
| "step_targets (SetGrippers poses) = length poses"
| "step_targets MoveCompleted = 0"
| "step_targets AllOff = 0"

definition servo_target_count :: "move_plan_step list \<Rightarrow> nat" where
  "servo_target_count steps = sum_list (map step_targets steps)"

end
