(* ===== verification/ServiceTypes.thy ===== *)
theory ServiceTypes
  imports RobotLink LinkState MovePlanner
begin

unbundle bit_operations_syntax

text \<open>
  The data of \<open>src/robot_service.rs\<close>: messages, motion steps, active operations, the service state,
  and the pure helper functions at the end of that file (fixed plans, conversions between domain
  and protocol types, initial statuses). The PWM output, the face scanner, the two-phase solver and
  the payload codec are not in the repository's sources or are hardware: they are the functions of
  the record \<open>backend\<close>, which every operation takes.
\<close>

definition REQUEST_CACHE_CAPACITY :: nat where "REQUEST_CACHE_CAPACITY = 16"
definition SOLVER_MAX_MOVES :: nat where "SOLVER_MAX_MOVES = 21"

section \<open>Messages\<close>

datatype response_payload =
    Accepted "u32 option"
  | Rejected rejection_reason controller_state
  | Status status_snapshot

record response_message =
  rsp_request_id :: u32
  rsp_opcode :: response_opcode
  rsp_payload :: response_payload

datatype event_message =
    RobotStateChanged controller_state "operation_status option"
  | StandStateChanged stand_state
  | CubeSessionChanged "cube_session_status option"
  | FaceScanned u32 cube_face recognized_face u8
  | OperationFailed u32 operation_failure_kind
  | OperationCompleted u32 operation_kind
  | Aborted "u32 option"
  | Fault "u32 option" robot_fault

datatype service_message = Response response_message | Event event_message

datatype local_command = RecoverToOpen | Grip | ScanSolveExecute u32 | Abort

datatype local_command_outcome = Accepted "u32 option" | Rejected rejection_reason

record cached_response =
  cached_opcode :: u16
  cached_message :: response_message

text \<open>\<open>encode_uart\<close>: the header fields and payload each message is encoded with.\<close>

fun event_opcode_of :: "event_message \<Rightarrow> event_opcode" where
  "event_opcode_of (event_message.RobotStateChanged _ _) = event_opcode.RobotStateChanged"
| "event_opcode_of (event_message.StandStateChanged _) = event_opcode.StandStateChanged"
| "event_opcode_of (event_message.CubeSessionChanged _) = event_opcode.CubeSessionChanged"
| "event_opcode_of (event_message.FaceScanned _ _ _ _) = event_opcode.FaceScanned"
| "event_opcode_of (event_message.OperationFailed _ _) = event_opcode.OperationFailed"
| "event_opcode_of (event_message.OperationCompleted _ _) = event_opcode.OperationCompleted"
| "event_opcode_of (event_message.Aborted _) = event_opcode.Aborted"
| "event_opcode_of (event_message.Fault _ _) = event_opcode.Fault"

fun encode_uart ::
    "(response_payload \<Rightarrow> u8 list \<Rightarrow> ('pe + nat) \<times> u8 list) \<Rightarrow>
     (event_message \<Rightarrow> u8 list \<Rightarrow> ('pe + nat) \<times> u8 list) \<Rightarrow>
     service_message \<Rightarrow> uart_frame_encoder \<Rightarrow>
     (('pe frame_encode_error + u8 list) \<times> uart_frame_encoder) option" where
  "encode_uart ser_response ser_event (Response response) encoder =
     encode_frame ser_response encoder message_kind.Response (response_u16 (rsp_opcode response))
       (rsp_request_id response) (rsp_payload response)"
| "encode_uart ser_response ser_event (Event event) encoder =
     encode_frame ser_event encoder message_kind.Event (event_u16 (event_opcode_of event)) 0 event"

section \<open>Operations in progress\<close>

datatype motion_phase =
    RecoverStart | RecoverFinishLeftRight | RecoverFinishTopBottom | RecoverFinishGrippers
  | GripStart | GripFinishGrippers | GripFinishRails

record active_motion =
  am_operation_id :: u32
  am_kind :: operation_kind
  am_phase :: motion_phase
  am_deadline :: "nat option"

datatype motion_step =
    SetRails rail_target rail_position
  | SetGrippers "(stand_axis \<times> gripper_orientation) list"
  | Capture cube_face
  | MoveCompleted
  | AllOff

datatype pending_motion_step =
    Rails rail_target rail_position
  | Grippers "(stand_axis \<times> gripper_orientation) list"

record active_scan =
  as_operation_id :: u32
  as_kind :: operation_kind
  as_steps :: "motion_step list"
  as_pending :: "pending_motion_step option"
  as_deadline :: "nat option"
  as_cube :: cube_state
  as_failure :: "operation_failure_kind option"

text \<open>The channel to the solver thread is represented by what the thread was started with.\<close>

record active_solve =
  av_operation_id :: u32
  av_kind :: operation_kind
  av_scan_revision :: u32
  av_facelets :: string

record active_execute =
  ae_operation_id :: u32
  ae_kind :: operation_kind
  ae_steps :: "motion_step list"
  ae_pending :: "pending_motion_step option"
  ae_deadline :: "nat option"

record ('d, 's) service =
  svc_output :: 'd
  svc_calibration :: stand_calibration
  svc_status :: status_snapshot
  svc_motion :: "active_motion option"
  svc_scan :: "active_scan option"
  svc_solve :: "active_solve option"
  svc_execute :: "active_execute option"
  svc_scanner :: 's
  next_operation_id :: u32
  next_session_id :: u32
  next_scan_revision :: u32
  next_solution_id :: u32
  request_cache :: "cached_response list"
  svc_events :: "event_message list"

section \<open>What the service calls\<close>

datatype capture_error = WrongDetectionCountError | OtherCaptureError

record ('d, 's) backend =
  set_channels :: "'d \<Rightarrow> (u8 \<times> u16) list \<Rightarrow> bool \<times> 'd"
  disable_channels :: "'d \<Rightarrow> u8 list \<Rightarrow> bool \<times> 'd"
  all_off :: "'d \<Rightarrow> bool \<times> 'd"
  available :: "'s \<Rightarrow> bool"
  begin_scan :: "'s \<Rightarrow> u32 \<Rightarrow> bool \<times> 's"
  capture_face :: "'s \<Rightarrow> cube_face \<Rightarrow> (capture_error + recognized_face) \<times> 's"
  finish_scan :: "'s \<Rightarrow> scan_status \<Rightarrow> 's"
  abort_scan :: "'s \<Rightarrow> 's"
  min2phase :: "string \<Rightarrow> nat \<Rightarrow> string"
  take_session :: "u8 list \<Rightarrow> string + (u32 \<times> u8 list)"
  take_solve :: "u8 list \<Rightarrow> string + (solve_command \<times> u8 list)"
  take_execute :: "u8 list \<Rightarrow> string + (execute_command \<times> u8 list)"
  take_moves :: "u8 list \<Rightarrow> string + ((u32 \<times> u8 list \<times> u8) \<times> u8 list)"

definition take_execute_moves :: "('d, 's) backend \<Rightarrow> u8 list \<Rightarrow> string + (execute_moves_command \<times> u8 list)" where
  "take_execute_moves B input =
     (case take_moves B input of
        Inl e \<Rightarrow> Inl e
      | Inr (wire, rest) \<Rightarrow> (case deserialize_execute_moves wire of
          Inl TooManyMoves \<Rightarrow> Inl ''too many requested moves''
        | Inl InvalidPackedFace \<Rightarrow> Inl ''invalid packed cube face''
        | Inr command \<Rightarrow> Inr (command, rest)))"

text \<open>The solver thread: its result, and what \<open>try_recv\<close> finds in its channel.\<close>

definition solver_worker :: "('d, 's) backend \<Rightarrow> string \<Rightarrow> cube_error + cube_move list" where
  "solver_worker B facelets =
     (case solve_facelets (min2phase B) facelets SOLVER_MAX_MOVES of
        Inl e \<Rightarrow> Inl e
      | Inr solution \<Rightarrow> parse_solution solution)"

datatype try_recv = Delivered | Empty | Disconnected

section \<open>Conversions\<close>

fun stand_axis_index :: "stand_axis \<Rightarrow> nat" where
  "stand_axis_index LeftRail = axis_index axis.Left"
| "stand_axis_index LeftGripper = axis_index axis.Left"
| "stand_axis_index RightRail = axis_index axis.Right"
| "stand_axis_index RightGripper = axis_index axis.Right"
| "stand_axis_index TopRail = axis_index axis.Top"
| "stand_axis_index TopGripper = axis_index axis.Top"
| "stand_axis_index BottomRail = axis_index axis.Bottom"
| "stand_axis_index BottomGripper = axis_index axis.Bottom"

fun rail_pair_axes :: "rail_pair \<Rightarrow> stand_axis list \<times> axis list" where
  "rail_pair_axes rail_pair.LeftRight = ([LeftRail, RightRail], [axis.Left, axis.Right])"
| "rail_pair_axes rail_pair.TopBottom = ([TopRail, BottomRail], [axis.Top, axis.Bottom])"

fun to_link_gripper_orientation :: "gripper_orientation \<Rightarrow> link_gripper_orientation" where
  "to_link_gripper_orientation gripper_orientation.FrameParallel = link_gripper_orientation.FrameParallel"
| "to_link_gripper_orientation gripper_orientation.FramePerpendicular = link_gripper_orientation.FramePerpendicular"
| "to_link_gripper_orientation gripper_orientation.FrameParallelReversed =
     link_gripper_orientation.FrameParallelReversed"

fun to_link_rail_position :: "rail_position \<Rightarrow> link_rail_position" where
  "to_link_rail_position FarOpen = link_rail_position.Open"
| "to_link_rail_position NearGrip = link_rail_position.Grip"

fun to_logical_face :: "cube_face \<Rightarrow> logical_face" where
  "to_logical_face cube_face.Up = logical_face.Up"
| "to_logical_face cube_face.Right = logical_face.Right"
| "to_logical_face cube_face.Front = logical_face.Front"
| "to_logical_face cube_face.Down = logical_face.Down"
| "to_logical_face cube_face.Left = logical_face.Left"
| "to_logical_face cube_face.Back = logical_face.Back"

fun protocol_face :: "logical_face \<Rightarrow> cube_face" where
  "protocol_face logical_face.Up = cube_face.Up"
| "protocol_face logical_face.Right = cube_face.Right"
| "protocol_face logical_face.Front = cube_face.Front"
| "protocol_face logical_face.Down = cube_face.Down"
| "protocol_face logical_face.Left = cube_face.Left"
| "protocol_face logical_face.Back = cube_face.Back"

fun protocol_turn :: "move_turn \<Rightarrow> turn_amount" where
  "protocol_turn move_turn.Clockwise = turn_amount.Clockwise"
| "protocol_turn move_turn.CounterClockwise = turn_amount.CounterClockwise"
| "protocol_turn move_turn.Half = turn_amount.Half"

fun internal_turn :: "turn_amount \<Rightarrow> move_turn" where
  "internal_turn turn_amount.Clockwise = move_turn.Clockwise"
| "internal_turn turn_amount.CounterClockwise = move_turn.CounterClockwise"
| "internal_turn turn_amount.Half = move_turn.Half"

definition protocol_move :: "cube_move \<Rightarrow> link_cube_move" where
  "protocol_move m = \<lparr> lm_face = protocol_face (mv_face m), lm_turn = protocol_turn (mv_turn m) \<rparr>"

definition internal_move :: "link_cube_move \<Rightarrow> cube_move" where
  "internal_move m = \<lparr> mv_face = to_logical_face (lm_face m), mv_turn = internal_turn (lm_turn m) \<rparr>"

fun protocol_color_symbol :: "link_sticker_color \<Rightarrow> char" where
  "protocol_color_symbol link_sticker_color.White = CHR ''W''"
| "protocol_color_symbol link_sticker_color.Yellow = CHR ''Y''"
| "protocol_color_symbol link_sticker_color.Red = CHR ''R''"
| "protocol_color_symbol link_sticker_color.Orange = CHR ''O''"
| "protocol_color_symbol link_sticker_color.Green = CHR ''G''"
| "protocol_color_symbol link_sticker_color.Blue = CHR ''B''"
| "protocol_color_symbol link_sticker_color.Unknown = CHR ''?''"

definition record_recognized_face ::
    "cube_state \<Rightarrow> cube_face \<Rightarrow> recognized_face \<Rightarrow> (cube_error + unit) \<times> cube_state" where
  "record_recognized_face cube logical recognized =
     (case from_symbols (map protocol_color_symbol (rf_colors recognized)) of
        Inl e \<Rightarrow> (Inl e, cube)
      | Inr f \<Rightarrow> record_scan cube
          \<lparr> sp_face = to_logical_face logical, sp_camera_to_face = quarter_turns.Zero \<rparr> f)"

datatype cube_from_scan_error = MissingFace cube_face | BadFace cube_error

fun cube_from_faces :: "recognized_face option list \<Rightarrow> cube_face list \<Rightarrow> cube_state \<Rightarrow>
    (cube_from_scan_error + cube_state) option" where
  "cube_from_faces fcs [] cube = Some (Inr cube)"
| "cube_from_faces fcs (f # fs) cube =
     (if length fcs \<le> cube_face_index f then None
      else case fcs ! cube_face_index f of
        None \<Rightarrow> Some (Inl (MissingFace f))
      | Some recognized \<Rightarrow> (case record_recognized_face cube f recognized of
          (Inl e, _) \<Rightarrow> Some (Inl (BadFace e))
        | (Inr _, cube) \<Rightarrow> cube_from_faces fcs fs cube))"

definition cube_from_scan :: "scan_status \<Rightarrow> (cube_from_scan_error + cube_state) option" where
  "cube_from_scan scan = cube_from_faces (scan_faces scan)
     [cube_face.Up, cube_face.Right, cube_face.Front, cube_face.Down, cube_face.Left, cube_face.Back]
     default_cube"

definition saturating_inc8 :: "u8 \<Rightarrow> u8" where
  "saturating_inc8 n = (if n = - 1 then n else n + 1)"

definition saturating_add16 :: "u16 \<Rightarrow> u16 \<Rightarrow> u16" where
  "saturating_add16 a b = (if unat a + unat b < 65536 then a + b else - 1)"

fun add_color_counts :: "u8 list \<Rightarrow> link_sticker_color list \<Rightarrow> u8 list option" where
  "add_color_counts counts [] = Some counts"
| "add_color_counts counts (color # colors) =
     (if color = link_sticker_color.Unknown then add_color_counts counts colors
      else do {
        counts \<leftarrow> (let i = unat (link_sticker_color_u8 color) in
           if i < length counts then poke counts i (saturating_inc8 (counts ! i)) else None);
        add_color_counts counts colors })"

section \<open>Plans\<close>

fun motion_step_of :: "move_plan_step \<Rightarrow> motion_step" where
  "motion_step_of (move_plan_step.SetRails t p) = motion_step.SetRails t p"
| "motion_step_of (move_plan_step.SetGrippers poses) = motion_step.SetGrippers poses"
| "motion_step_of move_plan_step.MoveCompleted = motion_step.MoveCompleted"
| "motion_step_of move_plan_step.AllOff = motion_step.AllOff"

definition motion_steps :: "move_plan_step list \<Rightarrow> motion_step list" where
  "motion_steps plan = map motion_step_of plan"

definition execute_steps :: "cube_move list \<Rightarrow> motion_step list option" where
  "execute_steps moves = do {
     plan \<leftarrow> optimized_execute_steps moves;
     Some (motion_steps (append_open_steps plan)) }"

definition held_execute_steps :: "cube_move list \<Rightarrow> motion_step list option" where
  "held_execute_steps moves = map_option motion_steps (optimized_held_steps moves)"

definition open_steps :: "motion_step list" where
  "open_steps = motion_steps (append_open_steps [])"

abbreviation "Par \<equiv> gripper_orientation.FrameParallel"
abbreviation "Rev \<equiv> gripper_orientation.FrameParallelReversed"
abbreviation "Perp \<equiv> gripper_orientation.FramePerpendicular"
abbreviation "RailsLR \<equiv> Pair rail_pair.LeftRight"
abbreviation "RailsTB \<equiv> Pair rail_pair.TopBottom"

definition scan_steps :: "motion_step list" where
  "scan_steps =
    [motion_step.SetRails RailsLR FarOpen,
     motion_step.SetGrippers [(TopGripper, Par), (BottomGripper, Rev)],
     Capture cube_face.Left,
     motion_step.SetGrippers [(TopGripper, Perp), (BottomGripper, Perp)],
     motion_step.SetGrippers [(TopGripper, Rev), (BottomGripper, Par)],
     Capture cube_face.Right,
     motion_step.SetGrippers [(TopGripper, Perp), (BottomGripper, Perp)],
     motion_step.SetRails RailsLR NearGrip,
     motion_step.SetRails RailsTB FarOpen,
     motion_step.SetGrippers [(LeftGripper, Par), (RightGripper, Rev)],
     Capture cube_face.Down,
     motion_step.SetGrippers [(LeftGripper, Perp), (RightGripper, Perp)],
     motion_step.SetGrippers [(LeftGripper, Rev), (RightGripper, Par)],
     Capture cube_face.Up,
     motion_step.SetGrippers [(LeftGripper, Perp), (RightGripper, Perp)],
     motion_step.SetGrippers [(TopGripper, Par), (BottomGripper, Rev)],
     motion_step.SetRails RailsTB NearGrip,
     motion_step.SetRails RailsLR FarOpen,
     Capture cube_face.Front,
     motion_step.SetGrippers [(TopGripper, Rev), (BottomGripper, Par)],
     Capture cube_face.Back,
     motion_step.SetGrippers [(TopGripper, Par), (BottomGripper, Rev)],
     motion_step.SetRails RailsLR NearGrip,
     motion_step.SetRails RailsTB FarOpen,
     motion_step.SetGrippers [(TopGripper, Perp), (BottomGripper, Perp)],
     motion_step.SetRails RailsTB NearGrip]"

section \<open>Initial statuses\<close>

definition transitional_pose :: stand_pose where
  "transitional_pose = \<lparr> pose_kind = Transitional, pose_camera_face = None \<rparr>"

definition canonical_grip_pose :: stand_pose where
  "canonical_grip_pose = \<lparr> pose_kind = CanonicalGrip, pose_camera_face = Some cube_face.Front \<rparr>"

definition open_pose :: stand_pose where
  "open_pose = \<lparr> pose_kind = stand_pose_kind.Open, pose_camera_face = None \<rparr>"

definition unknown_stand :: stand_state where
  "unknown_stand = \<lparr>
     stand_pose = \<lparr> pose_kind = stand_pose_kind.Unknown, pose_camera_face = None \<rparr>,
     stand_rails = replicate AXIS_COUNT
       \<lparr> rail_motion = axis_motion.Unknown, rail_current = None, rail_target = None \<rparr>,
     stand_grippers = replicate AXIS_COUNT
       \<lparr> gripper_motion = axis_motion.Unknown, gripper_current = None, gripper_target = None \<rparr>,
     stand_outputs_enabled = False \<rparr>"

definition empty_scan :: scan_status where
  "empty_scan = \<lparr> scan_state = scan_state_kind.None', scan_revision = None, scan_current_face = None,
     scan_camera_face = None, scan_scanned_faces = 0, scan_faces = replicate FACE_COUNT None,
     scan_color_counts = replicate FACE_COUNT 0, scan_validation_error = None \<rparr>"

definition empty_solution :: solution_status where
  "empty_solution = \<lparr> sol_state = solution_state_kind.None', sol_id = None,
     sol_source_scan_revision = None, sol_moves = replicate MAX_SOLUTION_MOVES empty_move,
     sol_move_count = 0, sol_completed_moves = 0 \<rparr>"

definition unknown_status :: status_snapshot where
  "unknown_status = \<lparr> st_controller = controller_state.Ready, st_stand = unknown_stand,
     st_cube_session = None, st_scan = empty_scan, st_solution = empty_solution,
     st_active_operation = None, st_plan = replicate MAX_PLAN_PREVIEW_ACTIONS None,
     st_plan_count = 0, st_fault = None \<rparr>"

end
