(* ===== verification/ScanData.thy ===== *)
theory ScanData
  imports ServiceTypes
begin

unbundle bit_operations_syntax

text \<open>
  The scanned cube, kept twice by the service: as a \<open>CubeState\<close> while a scan runs and as recognised
  faces in the status. The two agree, so a scan the service reports as valid can be rebuilt from
  the status and has a facelet string.
\<close>

text \<open>The domain face of a recognised one, \<open>None\<close> if a sticker is unknown or missing.\<close>

definition seen :: "recognized_face \<Rightarrow> face option" where
  "seen r = (case from_symbols (map protocol_color_symbol (rf_colors r)) of Inr f \<Rightarrow> Some f | Inl _ \<Rightarrow> None)"

definition solvable :: "scan_status \<Rightarrow> bool" where
  "solvable sc \<longleftrightarrow> (\<exists>cube f. cube_from_scan sc = Some (Inr cube) \<and> facelet_string cube = Some (Inr f))"

definition scan_matches :: "cube_state \<Rightarrow> recognized_face option list \<Rightarrow> bool" where
  "scan_matches cube fcs \<longleftrightarrow> length fcs = 6 \<and>
     faces cube = map (\<lambda>r. case r of None \<Rightarrow> None | Some r \<Rightarrow> seen r) fcs \<and>
     (\<forall>r. Some r \<in> set fcs \<longrightarrow> seen r \<noteq> None)"

lemma cube_face_index_logical: "cube_face_index f = face_index (to_logical_face f)"
  by (cases f) simp_all

lemma cube_face_index_less [simp]: "cube_face_index f < 6"
  by (cases f) simp_all

lemma rotated_zero [simp]: "rotated f quarter_turns.Zero = f"
  by (simp add: rotated_def)

lemma seen_ok: "seen r = Some f \<Longrightarrow> face_ok f"
  by (auto simp: seen_def from_symbols_iff split: sum.splits)

lemma scan_matches_empty: "scan_matches default_cube (replicate 6 None)"
  by (auto simp: scan_matches_def default_cube_def)

lemma scan_matches_cube_ok: "scan_matches cube fcs \<Longrightarrow> cube_ok cube"
  by (auto simp: scan_matches_def cube_ok_def seen_ok split: option.splits)

text \<open>Recording a face adds its domain face at its place, or leaves the cube as it was.\<close>

lemma record_recognized_face_cases:
  "(\<exists>e. record_recognized_face cube f r = (Inl e, cube) \<and>
      (seen r = None \<or> faces cube ! cube_face_index f \<noteq> None)) \<or>
   (\<exists>g. seen r = Some g \<and> faces cube ! cube_face_index f = None \<and>
      record_recognized_face cube f r = (Inr (), cube\<lparr> faces := (faces cube)[cube_face_index f := Some g] \<rparr>))"
  by (cases "from_symbols (map protocol_color_symbol (rf_colors r))")
    (auto simp: record_recognized_face_def seen_def record_scan_def cube_face_index_logical Let_def)

lemma scan_matches_record:
  assumes "scan_matches cube fcs" and "record_recognized_face cube f r = (Inr u, cube')"
  shows "scan_matches cube' (fcs[cube_face_index f := Some r])"
proof -
  obtain g where "seen r = Some g" "cube' = cube\<lparr> faces := (faces cube)[cube_face_index f := Some g] \<rparr>"
    using record_recognized_face_cases [of cube f r] assms(2) by auto
  then show ?thesis
    using assms(1) set_update_subset_insert [of fcs "cube_face_index f" "Some r"]
    by (auto simp: scan_matches_def map_update)
qed

lemma scan_matches_solvable:
  assumes m: "scan_matches cube (scan_faces sc)" and f: "facelet_string cube = Some (Inr fl)"
  shows "solvable sc"
proof -
  obtain fs where fs: "faces cube = map Some fs"
    using facelet_string_spec [OF scan_matches_cube_ok [OF m]] f by auto
  obtain a b c d e g where sc: "scan_faces sc = [a, b, c, d, e, g]"
    using m by (auto simp: scan_matches_def length_Suc_conv numeral_eq_Suc)
  obtain a' b' c' d' e' g' where r: "a = Some a'" "b = Some b'" "c = Some c'" "d = Some d'" "e = Some e'" "g = Some g'"
    using m fs unfolding scan_matches_def sc by (auto simp: Cons_eq_map_conv split: option.splits)
  have s: "seen x \<noteq> None" if "x \<in> {a', b', c', d', e', g'}" for x
    using m that r unfolding scan_matches_def sc by auto
  have step: "record_recognized_face k f x = (Inr (), k\<lparr> faces := (faces k)[cube_face_index f := seen x] \<rparr>)"
    if "x \<in> {a', b', c', d', e', g'}" "faces k ! cube_face_index f = None" for k f x
    using record_recognized_face_cases [of k f x] s [OF that(1)] that(2) by auto
  have "cube_from_scan sc = Some (Inr (default_cube\<lparr> faces := map seen [a', b', c', d', e', g'] \<rparr>))"
    using sc r by (simp add: cube_from_scan_def step default_cube_def numeral_eq_Suc)
  moreover have "faces cube = map seen [a', b', c', d', e', g']"
    using m r by (simp add: scan_matches_def sc)
  then have "default_cube\<lparr> faces := map seen [a', b', c', d', e', g'] \<rparr> = cube"
    by (cases cube) simp
  ultimately show ?thesis
    using f by (auto simp: solvable_def)
qed

lemma cube_from_faces_ok:
  assumes "length fcs = 6" "cube_ok cube"
  shows "\<exists>r. cube_from_faces fcs fs cube = Some r \<and> (\<forall>c. r = Inr c \<longrightarrow> cube_ok c)"
  using assms(2)
proof (induction fs arbitrary: cube)
  case (Cons f fs)
  show ?case
  proof (cases "fcs ! cube_face_index f")
    case (Some r)
    have "cube_ok (cube\<lparr> faces := (faces cube)[cube_face_index f := Some g] \<rparr>)" if "seen r = Some g" for g
      using Cons.prems seen_ok [OF that] set_update_subset_insert [of "faces cube" "cube_face_index f" "Some g"]
      by (auto simp: cube_ok_def)
    then show ?thesis
      using record_recognized_face_cases [of cube f r] Some Cons assms(1)
      by (fastforce simp: not_le)
  qed (use assms(1) in \<open>simp add: not_le\<close>)
qed simp

lemma cube_from_scan_ok:
  assumes "length (scan_faces sc) = 6"
  shows "\<exists>r. cube_from_scan sc = Some r \<and> (\<forall>c. r = Inr c \<longrightarrow> cube_ok c)"
  unfolding cube_from_scan_def by (rule cube_from_faces_ok [OF assms default_cube_ok])

section \<open>Counters and masks\<close>

lemma add_color_counts_ok:
  assumes "length counts = 6"
  shows "\<exists>counts'. add_color_counts counts colors = Some counts' \<and> length counts' = 6"
  using assms
proof (induction colors arbitrary: counts)
  case (Cons color colors)
  have "unat (link_sticker_color_u8 color) < 6" if "color \<noteq> link_sticker_color.Unknown"
    using that by (cases color) simp_all
  with Cons show ?case
    by (auto simp: poke_def Let_def)
qed simp

lemma mask_or:
  assumes "(m :: u8) AND (NOT ALL_FACES_MASK) = 0"
  shows "(m OR push_bit (cube_face_index f) 1) AND (NOT ALL_FACES_MASK) = 0"
proof -
  have "push_bit (cube_face_index f) 1 AND (NOT ALL_FACES_MASK) = 0"
    by (cases f) (simp_all add: ALL_FACES_MASK_def FACE_COUNT_def)
  then show ?thesis
    using assms by (simp add: bit.conj_disj_distrib2)
qed

end
