(* ===== verification/Mechanics.thy ===== *)
theory Mechanics
  imports MovePlanner
begin

text \<open>
  What a plan does to the stand and to the cube: the abstract machine the planner's promises are
  stated on. It combines the two checks the planner's own tests run on every plan
  (\<open>assert_safe_held_plan\<close>: the cube is always held by a closed pair and two closed adjacent
  grippers are never both parallel to the frame; \<open>assert_decodes_to_moves\<close>: which turns the plan
  makes) and executes them step by step, \<open>None\<close> being an unsafe step. A gripper with a closed rail
  that rotates while the other pair holds the cube turns the face in front of it; two opposite
  grippers that rotate in opposite senses while the other pair is open turn the whole cube.
\<close>

datatype side = SL | SR | ST | SB

datatype place = PLeft | PRight | PTop | PBottom | PCamera | PRear

fun side_of :: "stand_axis \<Rightarrow> side" where
  "side_of LeftGripper = SL"
| "side_of LeftRail = SL"
| "side_of RightGripper = SR"
| "side_of RightRail = SR"
| "side_of TopGripper = ST"
| "side_of TopRail = ST"
| "side_of BottomGripper = SB"
| "side_of BottomRail = SB"

fun place_of :: "side \<Rightarrow> place" where
  "place_of SL = PLeft"
| "place_of SR = PRight"
| "place_of ST = PTop"
| "place_of SB = PBottom"

text \<open>
  \<open>shows p\<close> is the logical face at place \<open>p\<close>, \<open>turned\<close> the face turns since the last completed
  move (face and clockwise quarter turns) and \<open>completed\<close> those of the moves before it.
\<close>

record machine =
  rail :: "side \<Rightarrow> rail_position"
  grip :: "side \<Rightarrow> gripper_orientation"
  shows_face :: "place \<Rightarrow> logical_face"
  turned :: "(logical_face \<times> int) list"
  completed :: "(logical_face \<times> int) list list"

fun orientation_index :: "gripper_orientation \<Rightarrow> int" where
  "orientation_index gripper_orientation.FrameParallel = 0"
| "orientation_index gripper_orientation.FramePerpendicular = 1"
| "orientation_index gripper_orientation.FrameParallelReversed = 2"

definition held :: "machine \<Rightarrow> bool" where
  "held m \<longleftrightarrow> rail m SL = NearGrip \<and> rail m SR = NearGrip \<or>
     rail m ST = NearGrip \<and> rail m SB = NearGrip"

definition clash :: "machine \<Rightarrow> side \<Rightarrow> side \<Rightarrow> bool" where
  "clash m a b \<longleftrightarrow> rail m a = NearGrip \<and> rail m b = NearGrip \<and>
     is_frame_parallel (grip m a) \<and> is_frame_parallel (grip m b)"

definition safe :: "machine \<Rightarrow> bool" where
  "safe m \<longleftrightarrow> held m \<and> \<not> clash m SL ST \<and> \<not> clash m ST SR \<and> \<not> clash m SR SB \<and> \<not> clash m SB SL"

text \<open>A quarter turn of the whole cube, clockwise seen from the top or from the right.\<close>

definition spin_vertical :: "(place \<Rightarrow> logical_face) \<Rightarrow> place \<Rightarrow> logical_face" where
  "spin_vertical s p = (case p of
     PCamera \<Rightarrow> s PRight | PLeft \<Rightarrow> s PCamera | PRear \<Rightarrow> s PLeft | PRight \<Rightarrow> s PRear | _ \<Rightarrow> s p)"

definition spin_horizontal :: "(place \<Rightarrow> logical_face) \<Rightarrow> place \<Rightarrow> logical_face" where
  "spin_horizontal s p = (case p of
     PTop \<Rightarrow> s PCamera | PRear \<Rightarrow> s PTop | PBottom \<Rightarrow> s PRear | PCamera \<Rightarrow> s PBottom | _ \<Rightarrow> s p)"

definition moving :: "machine \<Rightarrow> (stand_axis \<times> gripper_orientation) list \<Rightarrow> (side \<times> int) list" where
  "moving m poses = filter (\<lambda>(s, d). rail m s = NearGrip \<and> d \<noteq> 0)
     (map (\<lambda>(axis, o'). (side_of axis, orientation_index o' - orientation_index (grip m (side_of axis))))
        poses)"

definition pair_closed :: "machine \<Rightarrow> side \<Rightarrow> side \<Rightarrow> bool" where
  "pair_closed m a b \<longleftrightarrow> rail m a = NearGrip \<and> rail m b = NearGrip"

definition pair_open :: "machine \<Rightarrow> side \<Rightarrow> side \<Rightarrow> bool" where
  "pair_open m a b \<longleftrightarrow> rail m a = FarOpen \<and> rail m b = FarOpen"

text \<open>The effect of rotating closed grippers on the cube.\<close>

definition rotate_cube :: "machine \<Rightarrow> (side \<times> int) list \<Rightarrow> machine option" where
  "rotate_cube m movers =
     (if movers = [] then Some m
      else if (\<forall>(s, d) \<in> set movers. s = SL \<or> s = SR) \<and> pair_closed m ST SB \<or>
              (\<forall>(s, d) \<in> set movers. s = ST \<or> s = SB) \<and> pair_closed m SL SR then
        Some (m\<lparr> turned := turned m @ map (\<lambda>(s, d). (shows_face m (place_of s), d)) movers \<rparr>)
      else case movers of
        [(a, d), (b, e)] \<Rightarrow>
          if a = ST \<and> b = SB \<and> e = - d \<and> pair_open m SL SR then
            Some (m\<lparr> shows_face := (spin_vertical ^^ nat (d mod 4)) (shows_face m) \<rparr>)
          else if a = SL \<and> b = SR \<and> e = - d \<and> pair_open m ST SB then
            Some (m\<lparr> shows_face := (spin_horizontal ^^ nat (e mod 4)) (shows_face m) \<rparr>)
          else None
      | _ \<Rightarrow> None)"

fun pose_grips :: "machine \<Rightarrow> (stand_axis \<times> gripper_orientation) list \<Rightarrow> machine" where
  "pose_grips m [] = m"
| "pose_grips m ((axis, o') # poses) = pose_grips (m\<lparr> grip := (grip m)(side_of axis := o') \<rparr>) poses"

fun target_sides :: "rail_target \<Rightarrow> side list" where
  "target_sides (Pair rail_pair.LeftRight) = [SL, SR]"
| "target_sides (Pair rail_pair.TopBottom) = [ST, SB]"
| "target_sides (Single axis) = [side_of axis]"

definition move_rails :: "machine \<Rightarrow> side list \<Rightarrow> rail_position \<Rightarrow> machine" where
  "move_rails m ss position =
     m\<lparr> rail := (\<lambda>s. if s \<in> set ss then position else rail m s) \<rparr>"

definition checked :: "machine \<Rightarrow> machine option" where
  "checked m = (if safe m then Some m else None)"

fun exec_step :: "move_plan_step \<Rightarrow> machine \<Rightarrow> machine option" where
  "exec_step (SetRails target position) m = checked (move_rails m (target_sides target) position)"
| "exec_step (SetGrippers poses) m = do {
     m' \<leftarrow> rotate_cube m (moving m poses);
     checked (pose_grips m' poses) }"
| "exec_step MoveCompleted m =
     Some (m\<lparr> completed := completed m @ [turned m], turned := [] \<rparr>)"
| "exec_step AllOff m = None"

fun exec :: "move_plan_step list \<Rightarrow> machine \<Rightarrow> machine option" where
  "exec [] m = Some m"
| "exec (s # ss) m = do { m \<leftarrow> exec_step s m; exec ss m }"

lemma exec_append: "exec (xs @ ys) m = do { m \<leftarrow> exec xs m; exec ys m }"
proof (induction xs arbitrary: m)
  case (Cons x xs)
  then show ?case by (cases "exec_step x m") simp_all
qed simp

fun canonical_face :: "place \<Rightarrow> logical_face" where
  "canonical_face PLeft = logical_face.Left"
| "canonical_face PRight = logical_face.Right"
| "canonical_face PTop = logical_face.Up"
| "canonical_face PBottom = logical_face.Down"
| "canonical_face PCamera = logical_face.Front"
| "canonical_face PRear = logical_face.Back"

definition canonical_grip :: machine where
  "canonical_grip = \<lparr> rail = (\<lambda>_. NearGrip), grip = (\<lambda>_. gripper_orientation.FramePerpendicular),
     shows_face = canonical_face, turned = [], completed = [] \<rparr>"

fun quarters :: "move_turn \<Rightarrow> int" where
  "quarters move_turn.Clockwise = 1"
| "quarters move_turn.CounterClockwise = -1"
| "quarters move_turn.Half = 2"

definition turn_of :: "cube_move \<Rightarrow> (logical_face \<times> int) list" where
  "turn_of m = [(mv_face m, quarters (mv_turn m))]"

end
