(* ===== verification/PlannerSafety.thy ===== *)
theory PlannerSafety
  imports Mechanics
begin

text \<open>
  The plans of \<open>MovePlanner\<close> on the machine of \<open>Mechanics\<close>: between two moves all rails are closed,
  a gripper is parallel to the frame only if the planner has it marked dirty, the dirty grippers
  belong to one pair, and the cube stands as the planner's frame says. Every planner operation
  keeps this (lemmas \<open>*_tracks\<close>), so every plan runs on the machine to its end, and makes the moves
  it was asked for.
\<close>

fun frame_view :: "frame \<Rightarrow> place \<Rightarrow> logical_face" where
  "frame_view Canonical p = canonical_face p"
| "frame_view RotatedFb PLeft = logical_face.Back"
| "frame_view RotatedFb PRight = logical_face.Front"
| "frame_view RotatedFb PTop = logical_face.Up"
| "frame_view RotatedFb PBottom = logical_face.Down"
| "frame_view RotatedFb PCamera = logical_face.Left"
| "frame_view RotatedFb PRear = logical_face.Right"

definition grip_ok :: "bool \<Rightarrow> gripper_orientation \<Rightarrow> bool" where
  "grip_ok dirty o' = (if dirty then is_frame_parallel o' else o' = gripper_orientation.FramePerpendicular)"

definition lr_dirty :: "planner_state \<Rightarrow> bool" where
  "lr_dirty s \<longleftrightarrow> left_dirty s \<or> right_dirty s"

definition tb_dirty :: "planner_state \<Rightarrow> bool" where
  "tb_dirty s \<longleftrightarrow> top_dirty s \<or> bottom_dirty s"

text \<open>\<open>tracks s fr m\<close>: the planner state \<open>s\<close> and frame \<open>fr\<close> describe the machine \<open>m\<close>.\<close>

definition tracks :: "planner_state \<Rightarrow> frame \<Rightarrow> machine \<Rightarrow> bool" where
  "tracks s fr m \<longleftrightarrow> rail m = (\<lambda>_. NearGrip) \<and> shows_face m = frame_view fr \<and>
     grip_ok (left_dirty s) (grip m SL) \<and> grip_ok (right_dirty s) (grip m SR) \<and>
     grip_ok (top_dirty s) (grip m ST) \<and> grip_ok (bottom_dirty s) (grip m SB) \<and>
     \<not> (lr_dirty s \<and> tb_dirty s)"

text \<open>\<open>reaches m0 steps s fr t c\<close>: running \<open>steps\<close> from \<open>m0\<close> is safe and ends where \<open>s\<close> and \<open>fr\<close> say,
  with the current turns \<open>t\<close> and the completed moves \<open>c\<close>.\<close>

definition reaches :: "machine \<Rightarrow> move_plan_step list \<Rightarrow> planner_state \<Rightarrow> frame \<Rightarrow>
    (logical_face \<times> int) list \<Rightarrow> (logical_face \<times> int) list list \<Rightarrow> bool" where
  "reaches m0 steps s fr t c \<longleftrightarrow>
     (\<exists>m. exec steps m0 = Some m \<and> tracks s fr m \<and> turned m = t \<and> completed m = c)"

lemmas exec_defs = checked_def safe_def held_def clash_def move_rails_def moving_def rotate_cube_def
  pair_closed_def pair_open_def

lemmas track_defs = tracks_def grip_ok_def lr_dirty_def tb_dirty_def

lemma frame_view_canonical: "frame_view Canonical = canonical_face"
  by (rule ext) simp

lemma frame_view_rotated:
  assumes "\<forall>p. s p = canonical_face p"
  shows "spin_vertical (spin_vertical (spin_vertical s)) p = frame_view RotatedFb p"
  using assms by (cases p) (simp_all add: spin_vertical_def)

lemma frame_view_restored:
  assumes "\<forall>p. s p = frame_view RotatedFb p"
  shows "spin_vertical s p = canonical_face p"
  using assms by (cases p) (simp_all add: spin_vertical_def)

lemma reaches_step:
  assumes "reaches m0 steps s fr t c"
    and "\<And>m. tracks s fr m \<Longrightarrow> turned m = t \<Longrightarrow> completed m = c \<Longrightarrow>
       \<exists>m'. exec xs m = Some m' \<and> tracks s' fr' m' \<and> turned m' = t' \<and> completed m' = c'"
  shows "reaches m0 (steps @ xs) s' fr' t' c'"
  using assms by (fastforce simp: reaches_def exec_append)

lemma parallel_not_perpendicular [simp]:
  "is_frame_parallel o' \<Longrightarrow> o' \<noteq> gripper_orientation.FramePerpendicular"
  "\<not> is_frame_parallel gripper_orientation.FramePerpendicular"
  by auto

text \<open>One clean-up of the dirty grippers of a pair.\<close>

definition clean_group :: "planner_state \<Rightarrow> axis_group \<Rightarrow> planner_state" where
  "clean_group s g = (case g of
     axis_group.LeftRight \<Rightarrow> s\<lparr> left_dirty := False, right_dirty := False \<rparr>
   | axis_group.TopBottom \<Rightarrow> s\<lparr> top_dirty := False, bottom_dirty := False \<rparr>)"

lemma flush_group_state:
  "\<exists>xs. \<forall>steps. flush_group steps s g = Some (steps @ xs, clean_group s g)"
  by (cases g; cases s)
    (auto simp: flush_group_def dirty_grippers_def flush_grippers_def clean_group_def)

lemma flush_group_tracks:
  assumes "reaches m0 steps s fr t c"
  shows "\<exists>steps'. flush_group steps s g = Some (steps', clean_group s g) \<and>
    reaches m0 steps' (clean_group s g) fr t c"
proof -
  have *: "reaches m0 (steps @ xs) (clean_group s g) fr t c"
    if "flush_group steps s g = Some (steps @ xs, clean_group s g)" for xs
    using assms
  proof (rule reaches_step)
    fix m assume "tracks s fr m" "turned m = t" "completed m = c"
    then show "\<exists>m'. exec xs m = Some m' \<and> tracks (clean_group s g) fr m' \<and> turned m' = t \<and> completed m' = c"
      using that
      by (cases g; cases s; cases m)
        (auto simp: flush_group_def dirty_grippers_def flush_grippers_def clean_group_def
          exec_defs track_defs fun_eq_iff cong: if_cong split: if_splits)
  qed
  with flush_group_state [of s g] show ?thesis by metis
qed

text \<open>One turn, and the whole-cube turns.\<close>

fun gripper_group :: "side \<Rightarrow> axis_group" where
  "gripper_group SL = axis_group.LeftRight"
| "gripper_group SR = axis_group.LeftRight"
| "gripper_group ST = axis_group.TopBottom"
| "gripper_group SB = axis_group.TopBottom"

fun other_group :: "axis_group \<Rightarrow> axis_group" where
  "other_group axis_group.LeftRight = axis_group.TopBottom"
| "other_group axis_group.TopBottom = axis_group.LeftRight"

fun gripper_of :: "side \<Rightarrow> stand_axis" where
  "gripper_of SL = LeftGripper"
| "gripper_of SR = RightGripper"
| "gripper_of ST = TopGripper"
| "gripper_of SB = BottomGripper"

fun rail_of :: "side \<Rightarrow> stand_axis" where
  "rail_of SL = LeftRail"
| "rail_of SR = RightRail"
| "rail_of ST = TopRail"
| "rail_of SB = BottomRail"

definition marked :: "planner_state \<Rightarrow> side \<Rightarrow> planner_state" where
  "marked s d = the (set_dirty s (gripper_of d) True)"

lemma marked_simps [simp]:
  "marked s SL = s\<lparr> left_dirty := True \<rparr>"
  "marked s SR = s\<lparr> right_dirty := True \<rparr>"
  "marked s ST = s\<lparr> top_dirty := True \<rparr>"
  "marked s SB = s\<lparr> bottom_dirty := True \<rparr>"
  by (simp_all add: marked_def)

definition group_clean :: "planner_state \<Rightarrow> axis_group \<Rightarrow> bool" where
  "group_clean s g = (case g of axis_group.LeftRight \<Rightarrow> \<not> lr_dirty s | axis_group.TopBottom \<Rightarrow> \<not> tb_dirty s)"

lemma lazy_direct_turn_state:
  "lazy_direct_turn steps s (gripper_of d) (rail_of d) turn =
     Some (steps @ (if is_dirty s (gripper_of d) then
         [SetRails (Single (rail_of d)) FarOpen,
          SetGrippers [(gripper_of d, gripper_orientation.FramePerpendicular)],
          SetRails (Single (rail_of d)) NearGrip] else []) @
       turn_steps (gripper_of d) (rail_of d) turn, marked s d)"
  by (cases d) (auto simp: lazy_direct_turn_def flush_grippers_def)

lemma lazy_direct_turn_tracks:
  assumes "reaches m0 steps s fr t c" "group_clean s (other_group (gripper_group d))"
  shows "\<exists>steps'. lazy_direct_turn steps s (gripper_of d) (rail_of d) turn = Some (steps', marked s d) \<and>
    reaches m0 steps' (marked s d) fr (t @ [(frame_view fr (place_of d), quarters turn)]) c"
  unfolding lazy_direct_turn_state
proof (intro exI conjI, rule refl, rule reaches_step [OF assms(1)])
  fix m assume "tracks s fr m" "turned m = t" "completed m = c"
  then show "\<exists>m'. exec ((if is_dirty s (gripper_of d) then
         [SetRails (Single (rail_of d)) FarOpen,
          SetGrippers [(gripper_of d, gripper_orientation.FramePerpendicular)],
          SetRails (Single (rail_of d)) NearGrip] else []) @
       turn_steps (gripper_of d) (rail_of d) turn) m = Some m' \<and>
     tracks (marked s d) fr m' \<and>
     turned m' = t @ [(frame_view fr (place_of d), quarters turn)] \<and> completed m' = c"
    using assms(2)
    by (cases d; cases turn; cases s; cases m)
      (auto simp: group_clean_def exec_defs track_defs fun_eq_iff cong: if_cong split: if_splits)
qed

definition lr_reset :: "planner_state \<Rightarrow> move_plan_step list" where
  "lr_reset s = (if dirty_grippers s axis_group.LeftRight = [] then [] else
     [SetGrippers (map (\<lambda>axis. (axis, gripper_orientation.FramePerpendicular))
        (dirty_grippers s axis_group.LeftRight))])"

lemma set_dirty_lr:
  "set_dirty_all s (dirty_grippers s axis_group.LeftRight) False = Some (clean_group s axis_group.LeftRight)"
  by (cases s) (auto simp: dirty_grippers_def clean_group_def)

lemma lr_clean_state:
  "dirty_grippers s axis_group.LeftRight = [] \<Longrightarrow> clean_group s axis_group.LeftRight = s"
  by (cases s) (auto simp: dirty_grippers_def clean_group_def split: if_splits)

lemma fused_state:
  "position_front_back_fused steps s = Some (steps @
     hd (whole_turn gripper_orientation.FrameParallel gripper_orientation.FrameParallelReversed) #
     lr_reset s @
     tl (whole_turn gripper_orientation.FrameParallel gripper_orientation.FrameParallelReversed),
     clean_group s axis_group.LeftRight)"
  "restore_front_fused steps s = Some (steps @
     hd (whole_turn gripper_orientation.FrameParallelReversed gripper_orientation.FrameParallel) #
     lr_reset s @
     tl (whole_turn gripper_orientation.FrameParallelReversed gripper_orientation.FrameParallel),
     clean_group s axis_group.LeftRight)"
  by (simp_all add: position_front_back_fused_def restore_front_fused_def reorient_front_fused_def
      position_front_back_def restore_front_def lr_reset_def whole_turn_def set_dirty_lr lr_clean_state
      Let_def)

lemma position_fused_tracks:
  assumes "reaches m0 steps s Canonical t c" "\<not> tb_dirty s"
  shows "\<exists>steps'. position_front_back_fused steps s = Some (steps', clean_group s axis_group.LeftRight) \<and>
    reaches m0 steps' (clean_group s axis_group.LeftRight) RotatedFb t c"
  unfolding fused_state
proof (intro exI conjI, rule refl, rule reaches_step [OF assms(1)])
  fix m assume "tracks s Canonical m" "turned m = t" "completed m = c"
  then show "\<exists>m'. exec (hd (whole_turn gripper_orientation.FrameParallel gripper_orientation.FrameParallelReversed) #
     lr_reset s @
     tl (whole_turn gripper_orientation.FrameParallel gripper_orientation.FrameParallelReversed)) m = Some m' \<and>
     tracks (clean_group s axis_group.LeftRight) RotatedFb m' \<and> turned m' = t \<and> completed m' = c"
    using assms(2)
    by (cases s; cases m)
      (auto simp: whole_turn_def lr_reset_def dirty_grippers_def clean_group_def eval_nat_numeral
        exec_defs track_defs frame_view_canonical frame_view_rotated fun_eq_iff cong: if_cong split: if_splits)
qed

lemma restore_fused_tracks:
  assumes "reaches m0 steps s RotatedFb t c" "\<not> tb_dirty s"
  shows "\<exists>steps'. restore_front_fused steps s = Some (steps', clean_group s axis_group.LeftRight) \<and>
    reaches m0 steps' (clean_group s axis_group.LeftRight) Canonical t c"
  unfolding fused_state
proof (intro exI conjI, rule refl, rule reaches_step [OF assms(1)])
  fix m assume "tracks s RotatedFb m" "turned m = t" "completed m = c"
  then show "\<exists>m'. exec (hd (whole_turn gripper_orientation.FrameParallelReversed gripper_orientation.FrameParallel) #
     lr_reset s @
     tl (whole_turn gripper_orientation.FrameParallelReversed gripper_orientation.FrameParallel)) m = Some m' \<and>
     tracks (clean_group s axis_group.LeftRight) Canonical m' \<and> turned m' = t \<and> completed m' = c"
    using assms(2)
    by (cases s; cases m)
      (auto simp: whole_turn_def lr_reset_def dirty_grippers_def clean_group_def eval_nat_numeral
        exec_defs track_defs frame_view_canonical frame_view_restored fun_eq_iff cong: if_cong split: if_splits)
qed

text \<open>One move, and all of them.\<close>

lemma clean_group_clean [simp]:
  "group_clean (clean_group s g) g"
  "group_clean s h \<Longrightarrow> group_clean (clean_group s g) h"
  by (cases g; cases h; auto simp: group_clean_def clean_group_def lr_dirty_def tb_dirty_def)+

lemma group_clean_tb: "group_clean s axis_group.TopBottom \<longleftrightarrow> \<not> tb_dirty s"
  by (simp add: group_clean_def)

lemma completed_tracks:
  assumes "reaches m0 steps s fr t c"
  shows "reaches m0 (steps @ [MoveCompleted]) s fr [] (c @ [t])"
  using assms by (rule reaches_step) (auto simp: tracks_def)

fun side_for :: "frame \<Rightarrow> logical_face \<Rightarrow> side" where
  "side_for fr logical_face.Left = SL"
| "side_for fr logical_face.Right = SR"
| "side_for fr logical_face.Up = ST"
| "side_for fr logical_face.Down = SB"
| "side_for fr logical_face.Front = SR"
| "side_for fr logical_face.Back = SL"

fun frame_for :: "frame \<Rightarrow> logical_face \<Rightarrow> frame" where
  "frame_for fr logical_face.Left = Canonical"
| "frame_for fr logical_face.Right = Canonical"
| "frame_for fr logical_face.Front = RotatedFb"
| "frame_for fr logical_face.Back = RotatedFb"
| "frame_for fr _ = fr"

lemma reframe_tracks:
  assumes "reaches m0 steps s fr t c"
  shows "\<exists>steps' s'. reframe steps s fr f = Some (steps', s', frame_for fr f) \<and>
    reaches m0 steps' s' (frame_for fr f) t c"
proof (cases "frame_for fr f = fr")
  case True
  then show ?thesis
    using assms by (cases fr; cases f) (auto simp: reframe_def)
next
  case False
  obtain steps1 where 1: "flush_group steps s axis_group.TopBottom = Some (steps1, clean_group s axis_group.TopBottom)"
    "reaches m0 steps1 (clean_group s axis_group.TopBottom) fr t c"
    using flush_group_tracks [OF assms] by blast
  have "\<not> tb_dirty (clean_group s axis_group.TopBottom)"
    using clean_group_clean(1) group_clean_tb by blast
  with 1 False position_fused_tracks restore_fused_tracks show ?thesis
    by (cases fr; cases f) (fastforce simp: reframe_def)+
qed

lemma move_axes_side:
  "move_axes (frame_for fr f) f =
     Some (gripper_group (side_for fr f), gripper_of (side_for fr f), rail_of (side_for fr f))"
  by (cases f) (auto simp: move_axes_def)

lemma frame_view_side: "frame_view (frame_for fr f) (place_of (side_for fr f)) = f"
  by (cases fr; cases f) auto

lemma optimized_move_tracks:
  assumes "reaches m0 steps s fr [] c"
  shows "\<exists>steps' s' fr'. optimized_move steps s fr m = Some (steps', s', fr') \<and>
    reaches m0 steps' s' fr' [] (c @ [turn_of m])"
proof -
  let ?fr = "frame_for fr (mv_face m)" and ?d = "side_for fr (mv_face m)"
  let ?other = "other_group (gripper_group ?d)"
  obtain steps1 s1 where 1: "reframe steps s fr (mv_face m) = Some (steps1, s1, ?fr)"
    "reaches m0 steps1 s1 ?fr [] c"
    using reframe_tracks [OF assms] by blast
  obtain steps2 where 2: "flush_group steps1 s1 ?other = Some (steps2, clean_group s1 ?other)"
    "reaches m0 steps2 (clean_group s1 ?other) ?fr [] c"
    using flush_group_tracks [OF 1(2)] by blast
  obtain steps3 where 3: "lazy_direct_turn steps2 (clean_group s1 ?other) (gripper_of ?d) (rail_of ?d) (mv_turn m) =
      Some (steps3, marked (clean_group s1 ?other) ?d)"
    "reaches m0 steps3 (marked (clean_group s1 ?other) ?d) ?fr
      ([] @ [(frame_view ?fr (place_of ?d), quarters (mv_turn m))]) c"
    using lazy_direct_turn_tracks [OF 2(2) clean_group_clean(1)] by blast
  have "reaches m0 (steps3 @ [MoveCompleted]) (marked (clean_group s1 ?other) ?d) ?fr [] (c @ [turn_of m])"
    using completed_tracks [OF 3(2)] by (simp add: frame_view_side turn_of_def)
  with 1(1) 2(1) 3(1) show ?thesis
    by (cases "gripper_group ?d") (auto simp: optimized_move_def move_axes_side)
qed

lemma optimized_loop_tracks:
  assumes "reaches m0 steps s fr [] c"
  shows "\<exists>steps' s' fr'. optimized_loop ms steps s fr = Some (steps', s', fr') \<and>
    reaches m0 steps' s' fr' [] (c @ map turn_of ms)"
  using assms
proof (induction ms arbitrary: steps s fr c)
  case (Cons m ms)
  obtain steps1 s1 fr1 where 1: "optimized_move steps s fr m = Some (steps1, s1, fr1)"
    "reaches m0 steps1 s1 fr1 [] (c @ [turn_of m])"
    using optimized_move_tracks [OF Cons.prems] by blast
  show ?case using Cons.IH [OF 1(2)] 1(1) by simp
qed simp

lemma finish_held_tracks:
  assumes "reaches m0 steps s fr t c"
  shows "\<exists>steps'. finish_held steps s fr = Some steps' \<and> reaches m0 steps' default_planner Canonical t c"
proof -
  obtain steps1 s1 where 1:
    "(if fr = RotatedFb then do {
         (steps, state) \<leftarrow> flush_group steps s axis_group.TopBottom;
         restore_front_fused steps state }
       else Some (steps, s)) = Some (steps1, s1)"
    "reaches m0 steps1 s1 Canonical t c"
  proof (cases fr)
    case RotatedFb
    obtain steps1 where *: "flush_group steps s axis_group.TopBottom = Some (steps1, clean_group s axis_group.TopBottom)"
      "reaches m0 steps1 (clean_group s axis_group.TopBottom) RotatedFb t c"
      using flush_group_tracks [OF assms] RotatedFb by blast
    have "\<not> tb_dirty (clean_group s axis_group.TopBottom)"
      using clean_group_clean(1) group_clean_tb by blast
    from restore_fused_tracks [OF *(2) this] show ?thesis
      using *(1) RotatedFb that by auto
  qed (use assms in \<open>simp add: that\<close>)
  obtain steps2 where 2: "flush_group steps1 s1 axis_group.LeftRight = Some (steps2, clean_group s1 axis_group.LeftRight)"
    "reaches m0 steps2 (clean_group s1 axis_group.LeftRight) Canonical t c"
    using flush_group_tracks [OF 1(2)] by blast
  obtain steps3 where 3: "flush_group steps2 (clean_group s1 axis_group.LeftRight) axis_group.TopBottom =
      Some (steps3, clean_group (clean_group s1 axis_group.LeftRight) axis_group.TopBottom)"
    "reaches m0 steps3 (clean_group (clean_group s1 axis_group.LeftRight) axis_group.TopBottom) Canonical t c"
    using flush_group_tracks [OF 2(2)] by blast
  have "clean_group (clean_group s1 axis_group.LeftRight) axis_group.TopBottom = default_planner"
    by (cases s1) (simp add: clean_group_def default_planner_def)
  with 1(1) 2(1) 3 show ?thesis
    by (auto simp: finish_held_def)
qed

lemma reaches_start: "reaches canonical_grip [] default_planner Canonical [] []"
  by (simp add: reaches_def canonical_grip_def track_defs default_planner_def frame_view_canonical)

lemma reaches_default:
  assumes "reaches m0 steps default_planner Canonical [] c"
  shows "exec steps m0 = Some (canonical_grip\<lparr> completed := c \<rparr>)"
proof -
  obtain m where m: "exec steps m0 = Some m" "tracks default_planner Canonical m" "turned m = []" "completed m = c"
    using assms by (auto simp: reaches_def)
  have "grip m d = gripper_orientation.FramePerpendicular" for d
    using m(2) by (cases d) (auto simp: track_defs default_planner_def)
  then have "m = canonical_grip\<lparr> completed := c \<rparr>"
    using m by (cases m) (auto simp: tracks_def canonical_grip_def fun_eq_iff)
  with m(1) show ?thesis by simp
qed

lemma optimized_held_run:
  "\<exists>steps. optimized_held_steps moves = Some steps \<and>
     exec steps canonical_grip = Some (canonical_grip\<lparr> completed := map turn_of moves \<rparr>)"
proof -
  obtain steps s fr where 1: "optimized_loop moves [] default_planner Canonical = Some (steps, s, fr)"
    "reaches canonical_grip steps s fr [] ([] @ map turn_of moves)"
    using optimized_loop_tracks [OF reaches_start] by blast
  from finish_held_tracks [OF 1(2)] reaches_default show ?thesis
    by (fastforce simp: optimized_held_steps_def optimized_steps_def 1(1))
qed

lemma optimized_execute_run:
  "\<exists>steps m. optimized_execute_steps moves = Some steps \<and> exec steps canonical_grip = Some m \<and>
     completed m = map turn_of moves \<and> turned m = [] \<and> (\<forall>d. rail m d = NearGrip)"
  using optimized_loop_tracks [OF reaches_start, of moves]
  by (fastforce simp: optimized_execute_steps_def optimized_steps_def reaches_def tracks_def)

section \<open>The baseline planner\<close>

lemma baseline_direct_turn_tracks:
  assumes "reaches m0 steps default_planner fr t c"
  shows "\<exists>steps'. baseline_direct_turn steps (gripper_of d) (rail_of d) turn = Some steps' \<and>
    reaches m0 steps' default_planner fr (t @ [(frame_view fr (place_of d), quarters turn)]) c"
proof -
  have clean: "group_clean default_planner g" for g
    by (cases g) (simp_all add: group_clean_def default_planner_def lr_dirty_def tb_dirty_def)
  obtain steps1 where 1: "lazy_direct_turn steps default_planner (gripper_of d) (rail_of d) turn =
      Some (steps1, marked default_planner d)"
    "reaches m0 steps1 (marked default_planner d) fr (t @ [(frame_view fr (place_of d), quarters turn)]) c"
    using lazy_direct_turn_tracks [OF assms clean] by blast
  have "flush_grippers steps1 (marked default_planner d) [gripper_of d] =
      flush_group steps1 (marked default_planner d) (gripper_group d)"
    by (cases d) (simp_all add: flush_group_def dirty_grippers_def default_planner_def)
  moreover have "clean_group (marked default_planner d) (gripper_group d) = default_planner"
    by (cases d) (simp_all add: clean_group_def default_planner_def)
  ultimately show ?thesis
    using flush_group_tracks [OF 1(2), of "gripper_group d"] 1(1)
    by (auto simp: baseline_direct_turn_def)
qed

lemma whole_turn_tracks:
  "reaches m0 steps default_planner Canonical t c \<Longrightarrow>
     reaches m0 (position_front_back steps) default_planner RotatedFb t c"
  "reaches m0 steps default_planner RotatedFb t c \<Longrightarrow>
     reaches m0 (restore_front steps) default_planner Canonical t c"
proof -
  have *: "position_front_back_fused steps default_planner = Some (position_front_back steps, default_planner)"
    "restore_front_fused steps default_planner = Some (restore_front steps, default_planner)"
    "\<not> tb_dirty default_planner"
    by (simp_all add: position_front_back_fused_def restore_front_fused_def dirty_grippers_def
        default_planner_def tb_dirty_def)
  show "reaches m0 steps default_planner Canonical t c \<Longrightarrow>
     reaches m0 (position_front_back steps) default_planner RotatedFb t c"
    using position_fused_tracks [of m0 steps default_planner t c] * by auto
  show "reaches m0 steps default_planner RotatedFb t c \<Longrightarrow>
     reaches m0 (restore_front steps) default_planner Canonical t c"
    using restore_fused_tracks [of m0 steps default_planner t c] * by auto
qed

lemma baseline_move_tracks:
  assumes "reaches m0 steps default_planner Canonical [] c"
  shows "\<exists>steps'. baseline_move steps m = Some steps' \<and>
    reaches m0 steps' default_planner Canonical [] (c @ [turn_of m])"
proof -
  let ?f = "mv_face m" and ?q = "quarters (mv_turn m)"
  have "\<exists>steps'. (case ?f of
         logical_face.Left \<Rightarrow> baseline_direct_turn steps LeftGripper LeftRail (mv_turn m)
       | logical_face.Right \<Rightarrow> baseline_direct_turn steps RightGripper RightRail (mv_turn m)
       | logical_face.Up \<Rightarrow> baseline_direct_turn steps TopGripper TopRail (mv_turn m)
       | logical_face.Down \<Rightarrow> baseline_direct_turn steps BottomGripper BottomRail (mv_turn m)
       | logical_face.Front \<Rightarrow> do {
           steps \<leftarrow> baseline_direct_turn (position_front_back steps) RightGripper RightRail (mv_turn m);
           Some (restore_front steps) }
       | logical_face.Back \<Rightarrow> do {
           steps \<leftarrow> baseline_direct_turn (position_front_back steps) LeftGripper LeftRail (mv_turn m);
           Some (restore_front steps) }) = Some steps' \<and>
      reaches m0 steps' default_planner Canonical [(?f, ?q)] c"
    using baseline_direct_turn_tracks [OF assms, of SL "mv_turn m"]
      baseline_direct_turn_tracks [OF assms, of SR "mv_turn m"]
      baseline_direct_turn_tracks [OF assms, of ST "mv_turn m"]
      baseline_direct_turn_tracks [OF assms, of SB "mv_turn m"]
      baseline_direct_turn_tracks [OF whole_turn_tracks(1) [OF assms], of SL "mv_turn m"]
      baseline_direct_turn_tracks [OF whole_turn_tracks(1) [OF assms], of SR "mv_turn m"]
    by (cases ?f) (auto intro: whole_turn_tracks)
  with completed_tracks show ?thesis
    by (fastforce simp: baseline_move_def turn_of_def)
qed

lemma baseline_loop_tracks:
  assumes "reaches m0 steps default_planner Canonical [] c"
  shows "\<exists>steps'. baseline_loop ms steps = Some steps' \<and>
    reaches m0 steps' default_planner Canonical [] (c @ map turn_of ms)"
  using assms
proof (induction ms arbitrary: steps c)
  case (Cons m ms)
  obtain steps1 where 1: "baseline_move steps m = Some steps1"
    "reaches m0 steps1 default_planner Canonical [] (c @ [turn_of m])"
    using baseline_move_tracks [OF Cons.prems] by blast
  show ?case using Cons.IH [OF 1(2)] 1(1) by simp
qed simp

lemma baseline_held_run:
  "\<exists>steps. baseline_held_steps moves = Some steps \<and>
     exec steps canonical_grip = Some (canonical_grip\<lparr> completed := map turn_of moves \<rparr>)"
  using baseline_loop_tracks [OF reaches_start, of moves] reaches_default
  by (fastforce simp: baseline_held_steps_def)

end
