(* ===== verification/ScanSafety.thy ===== *)
theory ScanSafety
  imports ScanData PlannerSafety
begin

text \<open>
  The fixed scanning plan on the machine of \<open>Mechanics\<close>: it never loses the cube or lets two closed
  grippers collide, each \<open>Capture\<close> happens while the camera looks at the face it is recorded for,
  with both left and right rails or both top and bottom rails open, and the cube ends where it began.
\<close>

definition camera_free :: "machine \<Rightarrow> bool" where
  "camera_free m \<longleftrightarrow> pair_open m SL SR \<or> pair_open m ST SB"

fun exec_motion :: "motion_step \<Rightarrow> machine \<Rightarrow> machine option" where
  "exec_motion (motion_step.SetRails target position) m = exec_step (move_plan_step.SetRails target position) m"
| "exec_motion (motion_step.SetGrippers poses) m = exec_step (move_plan_step.SetGrippers poses) m"
| "exec_motion (Capture f) m =
     (if shows_face m PCamera = to_logical_face f \<and> camera_free m then Some m else None)"
| "exec_motion motion_step.MoveCompleted m = exec_step move_plan_step.MoveCompleted m"
| "exec_motion motion_step.AllOff m = exec_step move_plan_step.AllOff m"

fun exec_motions :: "motion_step list \<Rightarrow> machine \<Rightarrow> machine option" where
  "exec_motions [] m = Some m"
| "exec_motions (x # xs) m = do { m \<leftarrow> exec_motion x m; exec_motions xs m }"

definition captured :: "motion_step list \<Rightarrow> cube_face list" where
  "captured steps = List.map_filter (\<lambda>x. case x of Capture f \<Rightarrow> Some f | _ \<Rightarrow> None) steps"

lemma exec_motions_plan: "exec_motions (motion_steps plan) m = exec plan m"
proof (induction plan arbitrary: m)
  case (Cons x plan)
  have "exec_motion (motion_step_of x) m = exec_step x m" by (cases x) simp_all
  with Cons have "exec_motions (motion_steps plan) = exec plan" by blast
  then show ?case by (simp add: motion_steps_def \<open>exec_motion (motion_step_of x) m = exec_step x m\<close>)
qed (simp add: motion_steps_def)

lemma side_all: "(\<forall>d. p d) \<longleftrightarrow> p SL \<and> p SR \<and> p ST \<and> p SB"
  by (metis side.exhaust)

lemma place_all: "(\<forall>q. p q) \<longleftrightarrow> p PLeft \<and> p PRight \<and> p PTop \<and> p PBottom \<and> p PCamera \<and> p PRear"
  by (metis place.exhaust)

lemma machine_eqI:
  "(\<forall>d. rail m d = rail k d) \<Longrightarrow> (\<forall>d. grip m d = grip k d) \<Longrightarrow> (\<forall>q. shows_face m q = shows_face k q) \<Longrightarrow>
     turned m = turned k \<Longrightarrow> completed m = completed k \<Longrightarrow> m = k"
  for m k :: machine
  by (cases m; cases k) (auto simp: fun_eq_iff)

lemma scan_steps_run: "exec_motions scan_steps canonical_grip = Some canonical_grip"
proof -
  have "\<exists>m. exec_motions scan_steps canonical_grip = Some m \<and>
      (\<forall>d. rail m d = NearGrip) \<and> (\<forall>d. grip m d = Perp) \<and>
      (\<forall>q. shows_face m q = canonical_face q) \<and> turned m = [] \<and> completed m = []"
    by (simp add: scan_steps_def canonical_grip_def exec_defs camera_free_def side_all place_all
        spin_vertical_def spin_horizontal_def eval_nat_numeral)
  then obtain m where m: "exec_motions scan_steps canonical_grip = Some m" and
    *: "\<forall>d. rail m d = NearGrip" "\<forall>d. grip m d = Perp" "\<forall>q. shows_face m q = canonical_face q"
      "turned m = []" "completed m = []"
    by blast
  have "m = canonical_grip"
    by (rule machine_eqI) (use * in \<open>simp_all add: canonical_grip_def\<close>)
  with m show ?thesis by simp
qed

lemma scan_steps_faces:
  "captured scan_steps = [cube_face.Left, cube_face.Right, cube_face.Down, cube_face.Up, cube_face.Front, cube_face.Back]"
  by (simp add: captured_def scan_steps_def List.map_filter_def)

end
