(* ===== verification/StandRuntime.thy ===== *)
theory StandRuntime
  imports MovePlanner
begin

text \<open>
  \<open>src/stand_runtime.rs\<close>: the synchronous runtime of the diagnostic tools. It commands the PWM output,
  sleeps for the calibrated durations and tracks the commanded state; an output error makes it
  \<open>Faulted\<close>. The output and the delay are the functions of \<open>runtime_env\<close>. A method returns the new
  runtime in \<open>Finished\<close>, or in \<open>Stopped\<close> with the error that \<open>?\<close> propagates.
\<close>

section \<open>State\<close>

datatype scan_face = Front | Left | Right | Up | Down | Back

fun scan_face_name :: "scan_face \<Rightarrow> string" where
  "scan_face_name scan_face.Front = ''front''"
| "scan_face_name scan_face.Left = ''left''"
| "scan_face_name scan_face.Right = ''right''"
| "scan_face_name scan_face.Up = ''up''"
| "scan_face_name scan_face.Down = ''down''"
| "scan_face_name scan_face.Back = ''back''"

datatype commanded_stand_state =
    Unknown | OutputsOff | SafeOpen | Gripped | ScanHold scan_face | Faulted

datatype runtime_rail_pair = LeftRight | TopBottom

datatype scan_side = Left | Right

datatype physical_turn_face = Left | Right | Top | Bottom

record ('d, 't) stand_runtime =
  rt_output :: 'd
  rt_calibration :: stand_calibration
  rt_delay :: 't
  rt_state :: commanded_stand_state
  rt_holding_pair :: "runtime_rail_pair option"

record ('d, 't) runtime_env =
  pwm_set_channels :: "'d \<Rightarrow> (u8 \<times> u16) list \<Rightarrow> bool \<times> 'd"
  pwm_disable_channels :: "'d \<Rightarrow> u8 list \<Rightarrow> bool \<times> 'd"
  pwm_all_off :: "'d \<Rightarrow> bool \<times> 'd"
  delay_sleep :: "'t \<Rightarrow> nat \<Rightarrow> 't"

datatype runtime_error =
    OutputFailed string
  | OutputFailedTwice string
  | NoCalibratedPose stand_axis gripper_orientation
  | BadGrip grip_error
  | NotOperational string commanded_stand_state
  | WouldReleaseCube scan_face
  | ExpectedGripped commanded_stand_state
  | NoTransition commanded_stand_state "runtime_rail_pair option" scan_face
  | CannotFinishScan commanded_stand_state "runtime_rail_pair option"

datatype 'r attempt = Finished 'r | Stopped runtime_error 'r

fun on_finish :: "'r attempt \<Rightarrow> ('r \<Rightarrow> 'r attempt) \<Rightarrow> 'r attempt" where
  "on_finish (Finished r) f = f r"
| "on_finish (Stopped e r) f = Stopped e r"

definition with_delay :: "'d \<Rightarrow> stand_calibration \<Rightarrow> 't \<Rightarrow> ('d, 't) stand_runtime" where
  "with_delay dev c delay = \<lparr> rt_output = dev, rt_calibration = c, rt_delay = delay,
     rt_state = commanded_stand_state.Unknown, rt_holding_pair = None \<rparr>"

definition set_state :: "commanded_stand_state \<Rightarrow> runtime_rail_pair option \<Rightarrow>
    ('d, 't) stand_runtime \<Rightarrow> ('d, 't) stand_runtime" where
  "set_state st pair r = r\<lparr> rt_state := st, rt_holding_pair := pair \<rparr>"

section \<open>Channels\<close>

fun pair_rails :: "runtime_rail_pair \<Rightarrow> stand_axis list" where
  "pair_rails runtime_rail_pair.LeftRight = [LeftRail, RightRail]"
| "pair_rails runtime_rail_pair.TopBottom = [TopRail, BottomRail]"

definition rail_channels :: "stand_calibration \<Rightarrow> rail_position \<Rightarrow> (u8 \<times> u16) list" where
  "rail_channels c position = map (\<lambda>axis. (channel axis, rail_pulse c axis position)) RAILS"

definition rail_pair_channels :: "stand_calibration \<Rightarrow> runtime_rail_pair \<Rightarrow> rail_position \<Rightarrow>
    (u8 \<times> u16) list" where
  "rail_pair_channels c pair position =
     map (\<lambda>axis. (channel axis, rail_pulse c axis position)) (pair_rails pair)"

definition rail_channel_ids_all :: "u8 list" where
  "rail_channel_ids_all = map channel RAILS"

definition rail_channel_ids :: "runtime_rail_pair \<Rightarrow> u8 list" where
  "rail_channel_ids pair = map channel (pair_rails pair)"

definition gripper_channel :: "stand_calibration \<Rightarrow> stand_axis \<times> gripper_orientation \<Rightarrow>
    runtime_error + (u8 \<times> u16)" where
  "gripper_channel c pose = (case pose of (axis, orientation) \<Rightarrow>
     (case gripper_pulse c axis orientation of
        None \<Rightarrow> Inl (NoCalibratedPose axis orientation)
      | Some pulse \<Rightarrow> Inr (channel axis, pulse)))"

definition gripper_channels :: "stand_calibration \<Rightarrow> grip_configuration \<Rightarrow>
    runtime_error + (u8 \<times> u16) list" where
  "gripper_channels c g = collect_results (gripper_channel c)
     [(RightGripper, gc_right g), (BottomGripper, gc_bottom g), (TopGripper, gc_top g), (LeftGripper, gc_left g)]"

definition gripper_channels_for_axes :: "stand_calibration \<Rightarrow> (stand_axis \<times> gripper_orientation) list \<Rightarrow>
    runtime_error + (u8 \<times> u16) list" where
  "gripper_channels_for_axes c poses = collect_results (gripper_channel c) poses"

fun physical_turn_axes :: "physical_turn_face \<Rightarrow> stand_axis \<times> stand_axis" where
  "physical_turn_axes physical_turn_face.Left = (LeftGripper, LeftRail)"
| "physical_turn_axes physical_turn_face.Right = (RightGripper, RightRail)"
| "physical_turn_axes physical_turn_face.Top = (TopGripper, TopRail)"
| "physical_turn_axes physical_turn_face.Bottom = (BottomGripper, BottomRail)"

section \<open>Output\<close>

definition fault :: "('d, 't) runtime_env \<Rightarrow> string \<Rightarrow> ('d, 't) stand_runtime \<Rightarrow>
    ('d, 't) stand_runtime attempt" where
  "fault E message r =
     (case pwm_all_off E (rt_output r) of (ok, d) \<Rightarrow>
        Stopped (if ok then OutputFailed message else OutputFailedTwice message)
          (r\<lparr> rt_state := commanded_stand_state.Faulted, rt_output := d \<rparr>))"

definition rt_set_channels :: "('d, 't) runtime_env \<Rightarrow> (u8 \<times> u16) list \<Rightarrow> ('d, 't) stand_runtime \<Rightarrow>
    ('d, 't) stand_runtime attempt" where
  "rt_set_channels E channels r =
     (case pwm_set_channels E (rt_output r) channels of (ok, d) \<Rightarrow>
        let r = r\<lparr> rt_output := d \<rparr> in
        if ok then Finished r else fault E ''failed to update PCA9685 PWM outputs'' r)"

definition rt_disable_channels :: "('d, 't) runtime_env \<Rightarrow> u8 list \<Rightarrow> ('d, 't) stand_runtime \<Rightarrow>
    ('d, 't) stand_runtime attempt" where
  "rt_disable_channels E channels r =
     (case pwm_disable_channels E (rt_output r) channels of (ok, d) \<Rightarrow>
        let r = r\<lparr> rt_output := d \<rparr> in
        if ok then Finished r else fault E ''failed to disable completed PCA9685 rail motion'' r)"

definition sleep :: "('d, 't) runtime_env \<Rightarrow> nat \<Rightarrow> ('d, 't) stand_runtime \<Rightarrow> ('d, 't) stand_runtime" where
  "sleep E duration r = r\<lparr> rt_delay := delay_sleep E (rt_delay r) duration \<rparr>"

definition reset :: "('d, 't) runtime_env \<Rightarrow> ('d, 't) stand_runtime \<Rightarrow> ('d, 't) stand_runtime attempt" where
  "reset E r =
     (case pwm_all_off E (rt_output r) of (ok, d) \<Rightarrow>
        let r = r\<lparr> rt_output := d \<rparr> in
        if ok then Finished (set_state OutputsOff None r)
        else fault E ''failed to disable PCA9685 outputs during reset'' r)"

definition off :: "('d, 't) runtime_env \<Rightarrow> ('d, 't) stand_runtime \<Rightarrow> ('d, 't) stand_runtime attempt" where
  "off E r = reset E r"

section \<open>Rails and grippers\<close>

definition move_all_rails :: "('d, 't) runtime_env \<Rightarrow> rail_position \<Rightarrow> ('d, 't) stand_runtime \<Rightarrow>
    ('d, 't) stand_runtime attempt" where
  "move_all_rails E position r =
     on_finish (rt_set_channels E (rail_channels (rt_calibration r) position) r) (\<lambda>r.
       rt_disable_channels E rail_channel_ids_all (sleep E (rail_duration (rt_calibration r) position) r))"

definition open_pair :: "('d, 't) runtime_env \<Rightarrow> runtime_rail_pair \<Rightarrow> ('d, 't) stand_runtime \<Rightarrow>
    ('d, 't) stand_runtime attempt" where
  "open_pair E pair r =
     on_finish (rt_set_channels E (rail_pair_channels (rt_calibration r) pair FarOpen) r) (\<lambda>r.
       rt_disable_channels E (rail_channel_ids pair) (sleep E (rail_duration (rt_calibration r) FarOpen) r))"

definition close_pair :: "('d, 't) runtime_env \<Rightarrow> runtime_rail_pair \<Rightarrow> ('d, 't) stand_runtime \<Rightarrow>
    ('d, 't) stand_runtime attempt" where
  "close_pair E pair r =
     on_finish (rt_set_channels E (rail_pair_channels (rt_calibration r) pair NearGrip) r) (\<lambda>r.
       rt_disable_channels E (rail_channel_ids pair) (sleep E (rail_duration (rt_calibration r) NearGrip) r))"

definition pose_grippers :: "('d, 't) runtime_env \<Rightarrow> (stand_axis \<times> gripper_orientation) list \<Rightarrow>
    ('d, 't) stand_runtime \<Rightarrow> ('d, 't) stand_runtime attempt" where
  "pose_grippers E poses r =
     (case gripper_channels_for_axes (rt_calibration r) poses of
        Inl e \<Rightarrow> Stopped e r
      | Inr channels \<Rightarrow> on_finish (rt_set_channels E channels r) (\<lambda>r.
          Finished (sleep E (gripper_pose_duration (rt_calibration r)) r)))"

definition move_rail :: "('d, 't) runtime_env \<Rightarrow> stand_axis \<Rightarrow> rail_position \<Rightarrow> ('d, 't) stand_runtime \<Rightarrow>
    ('d, 't) stand_runtime attempt" where
  "move_rail E rail position r =
     on_finish (rt_set_channels E [(channel rail, rail_pulse (rt_calibration r) rail position)] r) (\<lambda>r.
       rt_disable_channels E [channel rail] (sleep E (rail_duration (rt_calibration r) position) r))"

definition open_rail :: "('d, 't) runtime_env \<Rightarrow> stand_axis \<Rightarrow> ('d, 't) stand_runtime \<Rightarrow>
    ('d, 't) stand_runtime attempt" where
  "open_rail E rail = move_rail E rail FarOpen"

definition close_rail :: "('d, 't) runtime_env \<Rightarrow> stand_axis \<Rightarrow> ('d, 't) stand_runtime \<Rightarrow>
    ('d, 't) stand_runtime attempt" where
  "close_rail E rail = move_rail E rail NearGrip"

definition open_all_rails :: "('d, 't) runtime_env \<Rightarrow> ('d, 't) stand_runtime \<Rightarrow>
    ('d, 't) stand_runtime attempt" where
  "open_all_rails E r =
     on_finish (open_pair E runtime_rail_pair.LeftRight r) (open_pair E runtime_rail_pair.TopBottom)"

section \<open>Whole poses\<close>

definition require_operational :: "string \<Rightarrow> ('d, 't) stand_runtime \<Rightarrow> ('d, 't) stand_runtime attempt" where
  "require_operational operation r =
     (case rt_state r of
        commanded_stand_state.Unknown \<Rightarrow> Stopped (NotOperational operation commanded_stand_state.Unknown) r
      | commanded_stand_state.Faulted \<Rightarrow> Stopped (NotOperational operation commanded_stand_state.Faulted) r
      | _ \<Rightarrow> Finished r)"

definition safe_open :: "('d, 't) runtime_env \<Rightarrow> ('d, 't) stand_runtime \<Rightarrow>
    ('d, 't) stand_runtime attempt" where
  "safe_open E r =
     on_finish (require_operational ''safe-open'' r) (\<lambda>r.
     on_finish (open_all_rails E r) (\<lambda>r.
     case grip_configuration_validate all_frame_perpendicular of
       Inl e \<Rightarrow> Stopped (BadGrip e) r
     | Inr _ \<Rightarrow> (case gripper_channels (rt_calibration r) all_frame_perpendicular of
         Inl e \<Rightarrow> Stopped e r
       | Inr channels \<Rightarrow> on_finish (rt_set_channels E channels r) (\<lambda>r.
           Finished (set_state SafeOpen None (sleep E (gripper_pose_duration (rt_calibration r)) r))))))"

definition grip_cube :: "('d, 't) runtime_env \<Rightarrow> ('d, 't) stand_runtime \<Rightarrow>
    ('d, 't) stand_runtime attempt" where
  "grip_cube E r =
     (case rt_state r of
        ScanHold face \<Rightarrow> Stopped (WouldReleaseCube face) r
      | _ \<Rightarrow> on_finish (if rt_state r \<noteq> SafeOpen then safe_open E r else Finished r) (\<lambda>r.
          on_finish (move_all_rails E NearGrip r) (\<lambda>r. Finished (set_state Gripped None r))))"

section \<open>Scan poses\<close>

abbreviation FP :: gripper_orientation where "FP \<equiv> gripper_orientation.FrameParallel"
abbreviation FX :: gripper_orientation where "FX \<equiv> gripper_orientation.FramePerpendicular"
abbreviation FR :: gripper_orientation where "FR \<equiv> gripper_orientation.FrameParallelReversed"

definition regrip_top_bottom_for_scan :: "('d, 't) runtime_env \<Rightarrow> ('d, 't) stand_runtime \<Rightarrow>
    ('d, 't) stand_runtime attempt" where
  "regrip_top_bottom_for_scan E r =
     on_finish (pose_grippers E [(TopGripper, FP), (BottomGripper, FR)] r) (\<lambda>r.
     on_finish (close_pair E runtime_rail_pair.TopBottom r)
       (open_pair E runtime_rail_pair.LeftRight))"

definition enter_left_right_scan_hold :: "('d, 't) runtime_env \<Rightarrow> ('d, 't) stand_runtime \<Rightarrow>
    ('d, 't) stand_runtime attempt" where
  "enter_left_right_scan_hold E r =
     on_finish (pose_grippers E [(LeftGripper, FP), (RightGripper, FR)] r) (\<lambda>r.
     on_finish (close_pair E runtime_rail_pair.LeftRight r)
       (open_pair E runtime_rail_pair.TopBottom))"

definition regrip_left_right_for_scan :: "('d, 't) runtime_env \<Rightarrow> ('d, 't) stand_runtime \<Rightarrow>
    ('d, 't) stand_runtime attempt" where
  "regrip_left_right_for_scan E r =
     on_finish (open_pair E runtime_rail_pair.LeftRight r) (enter_left_right_scan_hold E)"

definition side_scan_from_grip :: "('d, 't) runtime_env \<Rightarrow> scan_side \<Rightarrow> ('d, 't) stand_runtime \<Rightarrow>
    ('d, 't) stand_runtime attempt" where
  "side_scan_from_grip E sd r =
     on_finish (open_pair E runtime_rail_pair.LeftRight r)
       (case (case sd of scan_side.Right \<Rightarrow> (FR, FP) | scan_side.Left \<Rightarrow> (FP, FR)) of
          (upper, lower) \<Rightarrow> pose_grippers E [(TopGripper, upper), (BottomGripper, lower)])"

definition horizontal_turn_to_up :: "('d, 't) runtime_env \<Rightarrow> ('d, 't) stand_runtime \<Rightarrow>
    ('d, 't) stand_runtime attempt" where
  "horizontal_turn_to_up E r =
     on_finish (open_pair E runtime_rail_pair.LeftRight r) (\<lambda>r.
     on_finish (pose_grippers E [(LeftGripper, FP), (RightGripper, FR)] r) (\<lambda>r.
     on_finish (close_pair E runtime_rail_pair.LeftRight r) (\<lambda>r.
     on_finish (open_pair E runtime_rail_pair.TopBottom r) (\<lambda>r.
     on_finish (pose_grippers E [(LeftGripper, FX), (RightGripper, FX)] r)
       (regrip_top_bottom_for_scan E)))))"

definition horizontal_turn_to_down :: "('d, 't) runtime_env \<Rightarrow> ('d, 't) stand_runtime \<Rightarrow>
    ('d, 't) stand_runtime attempt" where
  "horizontal_turn_to_down E r =
     on_finish (open_pair E runtime_rail_pair.LeftRight r) (\<lambda>r.
     on_finish (pose_grippers E [(LeftGripper, FR), (RightGripper, FP)] r) (\<lambda>r.
     on_finish (close_pair E runtime_rail_pair.LeftRight r) (\<lambda>r.
     on_finish (open_pair E runtime_rail_pair.TopBottom r) (\<lambda>r.
     on_finish (pose_grippers E [(LeftGripper, FX), (RightGripper, FX)] r)
       (regrip_top_bottom_for_scan E)))))"

definition vertical_turn_to_back :: "('d, 't) runtime_env \<Rightarrow> ('d, 't) stand_runtime \<Rightarrow>
    ('d, 't) stand_runtime attempt" where
  "vertical_turn_to_back E r =
     on_finish (open_pair E runtime_rail_pair.TopBottom r) (\<lambda>r.
     on_finish (pose_grippers E [(TopGripper, FP), (BottomGripper, FR)] r) (\<lambda>r.
     on_finish (close_pair E runtime_rail_pair.TopBottom r) (\<lambda>r.
     on_finish (open_pair E runtime_rail_pair.LeftRight r) (\<lambda>r.
     on_finish (pose_grippers E [(TopGripper, FX), (BottomGripper, FX)] r)
       (pose_grippers E [(TopGripper, FR), (BottomGripper, FP)])))))"

definition scan_pose_op :: "('d, 't) runtime_env \<Rightarrow> scan_face \<Rightarrow> ('d, 't) stand_runtime \<Rightarrow>
    ('d, 't) stand_runtime attempt" where
  "scan_pose_op E f r =
     (if rt_state r \<noteq> Gripped then Stopped (ExpectedGripped (rt_state r)) r
      else on_finish
        (case f of
           scan_face.Front \<Rightarrow> regrip_left_right_for_scan E r
         | scan_face.Left \<Rightarrow> side_scan_from_grip E scan_side.Left r
         | scan_face.Right \<Rightarrow> side_scan_from_grip E scan_side.Right r
         | scan_face.Up \<Rightarrow> horizontal_turn_to_up E r
         | scan_face.Down \<Rightarrow> horizontal_turn_to_down E r
         | scan_face.Back \<Rightarrow> vertical_turn_to_back E r)
        (\<lambda>r. Finished (set_state (ScanHold f)
           (Some (if f = scan_face.Front then runtime_rail_pair.LeftRight
                  else runtime_rail_pair.TopBottom)) r)))"

definition scan_next :: "('d, 't) runtime_env \<Rightarrow> scan_face \<Rightarrow> ('d, 't) stand_runtime \<Rightarrow>
    ('d, 't) stand_runtime attempt" where
  "scan_next E next_face r =
     (case (rt_state r, rt_holding_pair r, next_face) of
        (ScanHold scan_face.Front, Some runtime_rail_pair.LeftRight, scan_face.Up) \<Rightarrow>
          on_finish (pose_grippers E [(LeftGripper, FX), (RightGripper, FX)] r) (\<lambda>r.
          on_finish (regrip_top_bottom_for_scan E r) (\<lambda>r.
          Finished (set_state (ScanHold scan_face.Up) (Some runtime_rail_pair.TopBottom) r)))
      | (ScanHold scan_face.Left, Some runtime_rail_pair.TopBottom, scan_face.Right) \<Rightarrow>
          on_finish (pose_grippers E [(TopGripper, FX), (BottomGripper, FX)] r) (\<lambda>r.
          on_finish (pose_grippers E [(TopGripper, FR), (BottomGripper, FP)] r) (\<lambda>r.
          Finished (set_state (ScanHold scan_face.Right) (Some runtime_rail_pair.TopBottom) r)))
      | (ScanHold scan_face.Right, Some runtime_rail_pair.TopBottom, scan_face.Down) \<Rightarrow>
          on_finish (pose_grippers E [(TopGripper, FX), (BottomGripper, FX)] r) (\<lambda>r.
          on_finish (close_pair E runtime_rail_pair.LeftRight r) (\<lambda>r.
          on_finish (open_pair E runtime_rail_pair.TopBottom r) (\<lambda>r.
          on_finish (pose_grippers E [(LeftGripper, FP), (RightGripper, FR)] r) (\<lambda>r.
          Finished (set_state (ScanHold scan_face.Down) (Some runtime_rail_pair.LeftRight) r)))))
      | (ScanHold scan_face.Down, Some runtime_rail_pair.LeftRight, scan_face.Up) \<Rightarrow>
          on_finish (pose_grippers E [(LeftGripper, FX), (RightGripper, FX)] r) (\<lambda>r.
          on_finish (pose_grippers E [(LeftGripper, FR), (RightGripper, FP)] r) (\<lambda>r.
          Finished (set_state (ScanHold scan_face.Up) (Some runtime_rail_pair.LeftRight) r)))
      | (ScanHold scan_face.Up, Some runtime_rail_pair.LeftRight, scan_face.Front) \<Rightarrow>
          on_finish (pose_grippers E [(LeftGripper, FX), (RightGripper, FX)] r) (\<lambda>r.
          on_finish (pose_grippers E [(TopGripper, FP), (BottomGripper, FR)] r) (\<lambda>r.
          on_finish (close_pair E runtime_rail_pair.TopBottom r) (\<lambda>r.
          on_finish (open_pair E runtime_rail_pair.LeftRight r) (\<lambda>r.
          Finished (set_state (ScanHold scan_face.Front) (Some runtime_rail_pair.TopBottom) r)))))
      | (ScanHold scan_face.Front, Some runtime_rail_pair.TopBottom, scan_face.Back) \<Rightarrow>
          on_finish (pose_grippers E [(TopGripper, FR), (BottomGripper, FP)] r) (\<lambda>r.
          Finished (set_state (ScanHold scan_face.Back) (Some runtime_rail_pair.TopBottom) r))
      | (st, pair, _) \<Rightarrow> Stopped (NoTransition st pair next_face) r)"

definition return_front_after_scan :: "('d, 't) runtime_env \<Rightarrow> ('d, 't) stand_runtime \<Rightarrow>
    ('d, 't) stand_runtime attempt" where
  "return_front_after_scan E r =
     (if rt_state r = ScanHold scan_face.Back \<and> rt_holding_pair r = Some runtime_rail_pair.TopBottom then
        on_finish (pose_grippers E [(TopGripper, FP), (BottomGripper, FR)] r) (\<lambda>r.
        on_finish (close_pair E runtime_rail_pair.LeftRight r) (\<lambda>r.
        on_finish (open_pair E runtime_rail_pair.TopBottom r) (\<lambda>r.
        on_finish (pose_grippers E [(TopGripper, FX), (BottomGripper, FX)] r)
          (close_pair E runtime_rail_pair.TopBottom))))
      else Stopped (CannotFinishScan (rt_state r) (rt_holding_pair r)) r)"

definition finish_scan :: "('d, 't) runtime_env \<Rightarrow> ('d, 't) stand_runtime \<Rightarrow>
    ('d, 't) stand_runtime attempt" where
  "finish_scan E r =
     on_finish (return_front_after_scan E r) (\<lambda>r.
     on_finish (open_all_rails E r) (\<lambda>r. Finished (set_state SafeOpen None r)))"

definition finish_scan_for_execution :: "('d, 't) runtime_env \<Rightarrow> ('d, 't) stand_runtime \<Rightarrow>
    ('d, 't) stand_runtime attempt" where
  "finish_scan_for_execution E r =
     on_finish (return_front_after_scan E r) (\<lambda>r. Finished (set_state Gripped None r))"

section \<open>Probe moves\<close>

definition direct_face_turn :: "('d, 't) runtime_env \<Rightarrow> physical_turn_face \<Rightarrow> move_turn \<Rightarrow>
    ('d, 't) stand_runtime \<Rightarrow> ('d, 't) stand_runtime attempt" where
  "direct_face_turn E f turn r =
     (case physical_turn_axes f of (gripper, railing) \<Rightarrow>
      on_finish
        (case turn of
           move_turn.Clockwise \<Rightarrow> pose_grippers E [(gripper, FR)] r
         | move_turn.CounterClockwise \<Rightarrow> pose_grippers E [(gripper, FP)] r
         | move_turn.Half \<Rightarrow>
             on_finish (open_rail E railing r) (\<lambda>r.
             on_finish (pose_grippers E [(gripper, FP)] r) (\<lambda>r.
             on_finish (close_rail E railing r) (pose_grippers E [(gripper, FR)]))))
        (\<lambda>r. on_finish (open_rail E railing r) (\<lambda>r.
           on_finish (pose_grippers E [(gripper, FX)] r) (close_rail E railing))))"

definition position_front_back_for_turn :: "('d, 't) runtime_env \<Rightarrow> ('d, 't) stand_runtime \<Rightarrow>
    ('d, 't) stand_runtime attempt" where
  "position_front_back_for_turn E r =
     on_finish (open_pair E runtime_rail_pair.LeftRight r) (\<lambda>r.
     on_finish (pose_grippers E [(TopGripper, FP), (BottomGripper, FR)] r) (\<lambda>r.
     on_finish (close_pair E runtime_rail_pair.LeftRight r) (\<lambda>r.
     on_finish (open_pair E runtime_rail_pair.TopBottom r) (\<lambda>r.
     on_finish (pose_grippers E [(TopGripper, FX), (BottomGripper, FX)] r)
       (close_pair E runtime_rail_pair.TopBottom)))))"

definition restore_front_after_front_back_turn :: "('d, 't) runtime_env \<Rightarrow> ('d, 't) stand_runtime \<Rightarrow>
    ('d, 't) stand_runtime attempt" where
  "restore_front_after_front_back_turn E r =
     on_finish (open_pair E runtime_rail_pair.LeftRight r) (\<lambda>r.
     on_finish (pose_grippers E [(TopGripper, FR), (BottomGripper, FP)] r) (\<lambda>r.
     on_finish (close_pair E runtime_rail_pair.LeftRight r) (\<lambda>r.
     on_finish (open_pair E runtime_rail_pair.TopBottom r) (\<lambda>r.
     on_finish (pose_grippers E [(TopGripper, FX), (BottomGripper, FX)] r)
       (close_pair E runtime_rail_pair.TopBottom)))))"

definition execute_probe_move :: "('d, 't) runtime_env \<Rightarrow> cube_move \<Rightarrow> ('d, 't) stand_runtime \<Rightarrow>
    ('d, 't) stand_runtime attempt" where
  "execute_probe_move E m r =
     (if rt_state r \<noteq> Gripped then Stopped (ExpectedGripped (rt_state r)) r
      else on_finish
        (case mv_face m of
           logical_face.Left \<Rightarrow> direct_face_turn E physical_turn_face.Left (mv_turn m) r
         | logical_face.Right \<Rightarrow> direct_face_turn E physical_turn_face.Right (mv_turn m) r
         | logical_face.Up \<Rightarrow> direct_face_turn E physical_turn_face.Top (mv_turn m) r
         | logical_face.Down \<Rightarrow> direct_face_turn E physical_turn_face.Bottom (mv_turn m) r
         | logical_face.Front \<Rightarrow>
             on_finish (position_front_back_for_turn E r) (\<lambda>r.
             on_finish (direct_face_turn E physical_turn_face.Right (mv_turn m) r)
               (restore_front_after_front_back_turn E))
         | logical_face.Back \<Rightarrow>
             on_finish (position_front_back_for_turn E r) (\<lambda>r.
             on_finish (direct_face_turn E physical_turn_face.Left (mv_turn m) r)
               (restore_front_after_front_back_turn E)))
        (\<lambda>r. Finished (set_state Gripped None r)))"

end
