(* ===== verification/StandRuntimeSafety.thy ===== *)
theory StandRuntimeSafety
  imports ScanSafety StandRuntime
begin

text \<open>
  The runtime of \<open>StandRuntime\<close> against the planner and the machine of \<open>Mechanics\<close>. \<open>drive\<close> commands
  a plan of \<open>MovePlanner\<close> step by step; every method is \<open>drive\<close> of a fixed plan between its guard and
  its new state (lemmas \<open>*_drive\<close>). \<open>commanded_pose\<close> is the machine that a commanded state stands for:
  the plans take the machine of the old state to the machine of the new one (\<open>transition_run\<close>), and a
  failing output leaves the runtime faulted.
\<close>

section \<open>Plans on the runtime\<close>

fun target_rails :: "rail_target \<Rightarrow> stand_axis list" where
  "target_rails (Pair rail_pair.LeftRight) = [LeftRail, RightRail]"
| "target_rails (Pair rail_pair.TopBottom) = [TopRail, BottomRail]"
| "target_rails (Single axis) = [axis]"

definition drive_rails :: "('d, 't) runtime_env \<Rightarrow> stand_axis list \<Rightarrow> rail_position \<Rightarrow>
    ('d, 't) stand_runtime \<Rightarrow> ('d, 't) stand_runtime attempt" where
  "drive_rails E axes position r =
     on_finish (rt_set_channels E
         (map (\<lambda>axis. (channel axis, rail_pulse (rt_calibration r) axis position)) axes) r) (\<lambda>r.
       rt_disable_channels E (map channel axes) (sleep E (rail_duration (rt_calibration r) position) r))"

fun drive_step :: "('d, 't) runtime_env \<Rightarrow> move_plan_step \<Rightarrow> ('d, 't) stand_runtime \<Rightarrow>
    ('d, 't) stand_runtime attempt" where
  "drive_step E (move_plan_step.SetRails target position) r = drive_rails E (target_rails target) position r"
| "drive_step E (move_plan_step.SetGrippers poses) r = pose_grippers E poses r"
| "drive_step E move_plan_step.MoveCompleted r = Finished r"
| "drive_step E move_plan_step.AllOff r = reset E r"

fun drive :: "('d, 't) runtime_env \<Rightarrow> move_plan_step list \<Rightarrow> ('d, 't) stand_runtime \<Rightarrow>
    ('d, 't) stand_runtime attempt" where
  "drive E [] r = Finished r"
| "drive E (x # xs) r = on_finish (drive_step E x r) (drive E xs)"

lemma on_finish_assoc [simp]: "on_finish (on_finish a f) g = on_finish a (\<lambda>r. on_finish (f r) g)"
  by (cases a) simp_all

lemma on_finish_Finished [simp]: "on_finish a Finished = a"
  by (cases a) simp_all

lemma on_finish_eq_Finished:
  "on_finish a f = Finished r' \<longleftrightarrow> (\<exists>r. a = Finished r \<and> f r = Finished r')"
  by (cases a) simp_all

lemma drive_append [simp]: "drive E (xs @ ys) r = on_finish (drive E xs r) (drive E ys)"
proof (induction xs arbitrary: r)
  case (Cons x xs)
  then have "drive E (xs @ ys) = (\<lambda>r. on_finish (drive E xs r) (drive E ys))" by blast
  then show ?case by simp
qed simp

fun pair_target :: "runtime_rail_pair \<Rightarrow> rail_target" where
  "pair_target runtime_rail_pair.LeftRight = Pair rail_pair.LeftRight"
| "pair_target runtime_rail_pair.TopBottom = Pair rail_pair.TopBottom"

abbreviation open_step :: "runtime_rail_pair \<Rightarrow> move_plan_step" where
  "open_step pair \<equiv> move_plan_step.SetRails (pair_target pair) FarOpen"

abbreviation close_step :: "runtime_rail_pair \<Rightarrow> move_plan_step" where
  "close_step pair \<equiv> move_plan_step.SetRails (pair_target pair) NearGrip"

abbreviation lr_step :: "gripper_orientation \<Rightarrow> gripper_orientation \<Rightarrow> move_plan_step" where
  "lr_step a b \<equiv> move_plan_step.SetGrippers [(LeftGripper, a), (RightGripper, b)]"

abbreviation tb_step :: "gripper_orientation \<Rightarrow> gripper_orientation \<Rightarrow> move_plan_step" where
  "tb_step a b \<equiv> move_plan_step.SetGrippers [(TopGripper, a), (BottomGripper, b)]"

lemma target_rails_pair [simp]: "target_rails (pair_target pair) = pair_rails pair"
  by (cases pair) simp_all

lemma open_pair_drive: "open_pair E pair = drive_rails E (pair_rails pair) FarOpen"
  by (simp add: fun_eq_iff open_pair_def drive_rails_def rail_pair_channels_def rail_channel_ids_def)

lemma close_pair_drive: "close_pair E pair = drive_rails E (pair_rails pair) NearGrip"
  by (simp add: fun_eq_iff close_pair_def drive_rails_def rail_pair_channels_def rail_channel_ids_def)

lemma open_rail_drive: "open_rail E railing = drive_rails E [railing] FarOpen"
  by (simp add: fun_eq_iff open_rail_def move_rail_def drive_rails_def)

lemma close_rail_drive: "close_rail E railing = drive_rails E [railing] NearGrip"
  by (simp add: fun_eq_iff close_rail_def move_rail_def drive_rails_def)

lemma drive_fun:
  "drive E [] = Finished"
  "drive E (x # xs) = (\<lambda>r. on_finish (drive_step E x r) (drive E xs))"
  "drive_step E (move_plan_step.SetRails target position) = drive_rails E (target_rails target) position"
  "drive_step E (move_plan_step.SetGrippers poses) = pose_grippers E poses"
  by (simp_all add: fun_eq_iff)

lemmas drive_intros = open_pair_drive close_pair_drive open_rail_drive close_rail_drive drive_fun

section \<open>The plans of the methods\<close>

abbreviation LR :: runtime_rail_pair where "LR \<equiv> runtime_rail_pair.LeftRight"
abbreviation TB :: runtime_rail_pair where "TB \<equiv> runtime_rail_pair.TopBottom"

definition up_down_plan :: "gripper_orientation \<Rightarrow> gripper_orientation \<Rightarrow> move_plan_step list" where
  "up_down_plan a b = [open_step LR, lr_step a b, close_step LR, open_step TB, lr_step FX FX,
     tb_step FP FR, close_step TB, open_step LR]"

fun pose_plan :: "scan_face \<Rightarrow> move_plan_step list" where
  "pose_plan scan_face.Front = [open_step LR, lr_step FP FR, close_step LR, open_step TB]"
| "pose_plan scan_face.Left = [open_step LR, tb_step FP FR]"
| "pose_plan scan_face.Right = [open_step LR, tb_step FR FP]"
| "pose_plan scan_face.Up = up_down_plan FP FR"
| "pose_plan scan_face.Down = up_down_plan FR FP"
| "pose_plan scan_face.Back = [open_step TB, tb_step FP FR, close_step TB, open_step LR,
     tb_step FX FX, tb_step FR FP]"

definition pose_holder :: "scan_face \<Rightarrow> runtime_rail_pair" where
  "pose_holder f = (if f = scan_face.Front then LR else TB)"

text \<open>The transitions of \<open>scan_next\<close>: the plan and the pair that holds the cube afterwards.\<close>

fun next_plan :: "scan_face \<Rightarrow> runtime_rail_pair \<Rightarrow> scan_face \<Rightarrow>
    (move_plan_step list \<times> runtime_rail_pair) option" where
  "next_plan scan_face.Front runtime_rail_pair.LeftRight scan_face.Up =
     Some ([lr_step FX FX, tb_step FP FR, close_step TB, open_step LR], TB)"
| "next_plan scan_face.Left runtime_rail_pair.TopBottom scan_face.Right =
     Some ([tb_step FX FX, tb_step FR FP], TB)"
| "next_plan scan_face.Right runtime_rail_pair.TopBottom scan_face.Down =
     Some ([tb_step FX FX, close_step LR, open_step TB, lr_step FP FR], LR)"
| "next_plan scan_face.Down runtime_rail_pair.LeftRight scan_face.Up =
     Some ([lr_step FX FX, lr_step FR FP], LR)"
| "next_plan scan_face.Up runtime_rail_pair.LeftRight scan_face.Front =
     Some ([lr_step FX FX, tb_step FP FR, close_step TB, open_step LR], TB)"
| "next_plan scan_face.Front runtime_rail_pair.TopBottom scan_face.Back =
     Some ([tb_step FR FP], TB)"
| "next_plan _ _ _ = None"

definition return_plan :: "move_plan_step list" where
  "return_plan = [tb_step FP FR, close_step LR, open_step TB, tb_step FX FX, close_step TB]"

definition open_plan :: "move_plan_step list" where
  "open_plan = [open_step LR, open_step TB]"

lemma scan_pose_drive:
  "rt_state r = Gripped \<Longrightarrow> scan_pose_op E f r =
     on_finish (drive E (pose_plan f) r) (\<lambda>r. Finished (set_state (ScanHold f) (Some (pose_holder f)) r))"
  by (cases f) (simp_all add: scan_pose_op_def drive_intros regrip_left_right_for_scan_def
      enter_left_right_scan_hold_def side_scan_from_grip_def horizontal_turn_to_up_def
      horizontal_turn_to_down_def vertical_turn_to_back_def regrip_top_bottom_for_scan_def
      up_down_plan_def pose_holder_def split: scan_side.splits)

lemma scan_next_drive:
  assumes "rt_state r = ScanHold f" "rt_holding_pair r = Some pair" "next_plan f pair g = Some (plan, pair')"
  shows "scan_next E g r =
     on_finish (drive E plan r) (\<lambda>r. Finished (set_state (ScanHold g) (Some pair') r))"
  using assms(3) by (cases "(f, pair, g)" rule: next_plan.cases)
    (auto simp: assms(1,2) scan_next_def drive_intros regrip_top_bottom_for_scan_def)

lemma scan_next_cases:
  obtains (step) f pair plan pair' where "rt_state r = ScanHold f" "rt_holding_pair r = Some pair"
      "next_plan f pair g = Some (plan, pair')"
  | (refused) "scan_next E g r = Stopped (NoTransition (rt_state r) (rt_holding_pair r) g) r"
proof (cases "rt_state r")
  case (ScanHold f)
  show ?thesis
  proof (cases "rt_holding_pair r")
    case (Some pair)
    show ?thesis
      by (cases f; cases pair; cases g)
        (use ScanHold Some step refused in \<open>auto simp: scan_next_def\<close>)
  qed (use ScanHold refused in \<open>auto simp: scan_next_def split: scan_face.split\<close>)
qed (use refused in \<open>auto simp: scan_next_def\<close>)

lemma return_front_drive:
  "rt_state r = ScanHold scan_face.Back \<Longrightarrow> rt_holding_pair r = Some TB \<Longrightarrow>
     return_front_after_scan E r = drive E return_plan r"
  by (simp add: return_front_after_scan_def return_plan_def drive_intros)

lemma open_all_rails_drive: "open_all_rails E r = drive E open_plan r"
  by (simp add: open_all_rails_def open_plan_def drive_intros)

text \<open>A probe move drives the baseline planner's plan of the move.\<close>

definition turn_plan :: "stand_axis \<Rightarrow> stand_axis \<Rightarrow> move_turn \<Rightarrow> move_plan_step list" where
  "turn_plan gripper railing turn = turn_steps gripper railing turn @
     [move_plan_step.SetRails (Single railing) FarOpen, move_plan_step.SetGrippers [(gripper, FX)],
      move_plan_step.SetRails (Single railing) NearGrip]"

lemma direct_face_turn_drive:
  "physical_turn_axes f = (gripper, railing) \<Longrightarrow>
     direct_face_turn E f turn r = drive E (turn_plan gripper railing turn) r"
  by (cases turn) (simp_all add: direct_face_turn_def turn_plan_def drive_intros)

lemma whole_turn_drive:
  "position_front_back_for_turn E r = drive E (whole_turn FP FR) r"
  "restore_front_after_front_back_turn E r = drive E (whole_turn FR FP) r"
  by (simp_all add: position_front_back_for_turn_def restore_front_after_front_back_turn_def
      whole_turn_def drive_intros)

lemma baseline_turn_plan:
  "d \<in> {(LeftGripper, LeftRail), (RightGripper, RightRail), (TopGripper, TopRail), (BottomGripper, BottomRail)} \<Longrightarrow>
     baseline_direct_turn steps (fst d) (snd d) turn = Some (steps @ turn_plan (fst d) (snd d) turn)"
  by (auto simp: baseline_direct_turn_def lazy_direct_turn_def flush_grippers_def default_planner_def
      turn_plan_def)

lemma execute_probe_move_drive:
  assumes "rt_state r = Gripped"
  shows "\<exists>plan. baseline_held_steps [m] = Some (plan @ [move_plan_step.MoveCompleted]) \<and>
     execute_probe_move E m r = on_finish (drive E plan r) (\<lambda>r. Finished (set_state Gripped None r))"
proof -
  note turns = baseline_turn_plan [of "(LeftGripper, LeftRail)"]
    baseline_turn_plan [of "(RightGripper, RightRail)"] baseline_turn_plan [of "(TopGripper, TopRail)"]
    baseline_turn_plan [of "(BottomGripper, BottomRail)"]
  note drives = direct_face_turn_drive [of physical_turn_face.Left] direct_face_turn_drive [of physical_turn_face.Right]
    direct_face_turn_drive [of physical_turn_face.Top] direct_face_turn_drive [of physical_turn_face.Bottom]
  show ?thesis
    by (cases "mv_face m") (simp_all add: assms execute_probe_move_def baseline_held_steps_def
        baseline_move_def turns [simplified] drives [simplified] whole_turn_drive position_front_back_def
        restore_front_def)
qed

section \<open>The stand a commanded state stands for\<close>

fun scan_view :: "scan_face \<Rightarrow> place \<Rightarrow> logical_face" where
  "scan_view scan_face.Front = canonical_face"
| "scan_view scan_face.Right = spin_vertical canonical_face"
| "scan_view scan_face.Back = (spin_vertical ^^ 2) canonical_face"
| "scan_view scan_face.Left = (spin_vertical ^^ 3) canonical_face"
| "scan_view scan_face.Down = spin_horizontal canonical_face"
| "scan_view scan_face.Up = (spin_horizontal ^^ 3) canonical_face"

fun hold_machine :: "runtime_rail_pair \<Rightarrow> gripper_orientation \<Rightarrow> gripper_orientation \<Rightarrow> scan_face \<Rightarrow> machine" where
  "hold_machine runtime_rail_pair.LeftRight a b f =
     \<lparr> rail = (\<lambda>d. if d = SL \<or> d = SR then NearGrip else FarOpen),
       grip = (\<lambda>d. case d of SL \<Rightarrow> a | SR \<Rightarrow> b | _ \<Rightarrow> FX),
       shows_face = scan_view f, turned = [], completed = [] \<rparr>"
| "hold_machine runtime_rail_pair.TopBottom a b f =
     \<lparr> rail = (\<lambda>d. if d = ST \<or> d = SB then NearGrip else FarOpen),
       grip = (\<lambda>d. case d of ST \<Rightarrow> a | SB \<Rightarrow> b | _ \<Rightarrow> FX),
       shows_face = scan_view f, turned = [], completed = [] \<rparr>"

fun commanded_pose :: "commanded_stand_state \<Rightarrow> runtime_rail_pair option \<Rightarrow> machine option" where
  "commanded_pose Gripped None = Some canonical_grip"
| "commanded_pose (ScanHold scan_face.Front) (Some runtime_rail_pair.LeftRight) = Some (hold_machine LR FP FR scan_face.Front)"
| "commanded_pose (ScanHold scan_face.Down) (Some runtime_rail_pair.LeftRight) = Some (hold_machine LR FP FR scan_face.Down)"
| "commanded_pose (ScanHold scan_face.Up) (Some runtime_rail_pair.LeftRight) = Some (hold_machine LR FR FP scan_face.Up)"
| "commanded_pose (ScanHold scan_face.Right) (Some runtime_rail_pair.TopBottom) = Some (hold_machine TB FR FP scan_face.Right)"
| "commanded_pose (ScanHold scan_face.Back) (Some runtime_rail_pair.TopBottom) = Some (hold_machine TB FR FP scan_face.Back)"
| "commanded_pose (ScanHold f) (Some runtime_rail_pair.TopBottom) = Some (hold_machine TB FP FR f)"
| "commanded_pose _ _ = None"

fun camera_face :: "scan_face \<Rightarrow> logical_face" where
  "camera_face scan_face.Front = logical_face.Front"
| "camera_face scan_face.Left = logical_face.Left"
| "camera_face scan_face.Right = logical_face.Right"
| "camera_face scan_face.Up = logical_face.Up"
| "camera_face scan_face.Down = logical_face.Down"
| "camera_face scan_face.Back = logical_face.Back"

lemma exec_reachesI:
  assumes "\<exists>m'. exec plan m = Some m' \<and> (\<forall>d. rail m' d = rail k d) \<and> (\<forall>d. grip m' d = grip k d) \<and>
    (\<forall>q. shows_face m' q = shows_face k q) \<and> turned m' = turned k \<and> completed m' = completed k"
  shows "exec plan m = Some k"
  using assms machine_eqI [of _ k] by auto

lemmas pose_simps = canonical_grip_def exec_defs side_all place_all spin_vertical_def
  spin_horizontal_def eval_nat_numeral

lemma pose_plan_runs:
  "exec (pose_plan scan_face.Front) canonical_grip = Some (hold_machine LR FP FR scan_face.Front)"
  "exec (pose_plan scan_face.Left) canonical_grip = Some (hold_machine TB FP FR scan_face.Left)"
  "exec (pose_plan scan_face.Right) canonical_grip = Some (hold_machine TB FR FP scan_face.Right)"
  "exec (pose_plan scan_face.Up) canonical_grip = Some (hold_machine TB FP FR scan_face.Up)"
  "exec (pose_plan scan_face.Down) canonical_grip = Some (hold_machine TB FP FR scan_face.Down)"
  "exec (pose_plan scan_face.Back) canonical_grip = Some (hold_machine TB FR FP scan_face.Back)"
  by (rule exec_reachesI, simp add: up_down_plan_def pose_simps)+

lemma next_plan_runs:
  "exec [lr_step FX FX, tb_step FP FR, close_step TB, open_step LR] (hold_machine LR FP FR scan_face.Front) =
     Some (hold_machine TB FP FR scan_face.Up)"
  "exec [tb_step FX FX, tb_step FR FP] (hold_machine TB FP FR scan_face.Left) = Some (hold_machine TB FR FP scan_face.Right)"
  "exec [tb_step FX FX, close_step LR, open_step TB, lr_step FP FR] (hold_machine TB FR FP scan_face.Right) =
     Some (hold_machine LR FP FR scan_face.Down)"
  "exec [lr_step FX FX, lr_step FR FP] (hold_machine LR FP FR scan_face.Down) = Some (hold_machine LR FR FP scan_face.Up)"
  "exec [lr_step FX FX, tb_step FP FR, close_step TB, open_step LR] (hold_machine LR FR FP scan_face.Up) =
     Some (hold_machine TB FP FR scan_face.Front)"
  "exec [tb_step FR FP] (hold_machine TB FP FR scan_face.Front) = Some (hold_machine TB FR FP scan_face.Back)"
  by (rule exec_reachesI, simp add: pose_simps)+

lemma return_plan_runs: "exec return_plan (hold_machine TB FR FP scan_face.Back) = Some canonical_grip"
  by (rule exec_reachesI, simp add: return_plan_def pose_simps)

lemma pose_plan_run: "exec (pose_plan f) canonical_grip = commanded_pose (ScanHold f) (Some (pose_holder f))"
  by (cases f) (simp_all add: pose_plan_runs pose_holder_def del: pose_plan.simps hold_machine.simps)

lemma next_plan_run:
  assumes "next_plan f pair g = Some (plan, pair')"
  shows "\<exists>m m'. commanded_pose (ScanHold f) (Some pair) = Some m \<and> exec plan m = Some m' \<and>
    commanded_pose (ScanHold g) (Some pair') = Some m'"
  using assms
  by (cases "(f, pair, g)" rule: next_plan.cases)
     (auto simp: next_plan_runs simp del: exec.simps hold_machine.simps pair_target.simps)

lemma commanded_pose_camera:
  "commanded_pose (ScanHold f) (Some pair) = Some m \<Longrightarrow>
     safe m \<and> shows_face m PCamera = camera_face f \<and> camera_free m \<and> turned m = [] \<and> completed m = []"
  by (cases f; cases pair) (auto simp: pose_simps camera_free_def)

section \<open>Failing outputs\<close>

text \<open>The runtime after a failed command: faulted, the last output command being \<open>all_off\<close>.\<close>

definition faulted :: "('d, 't) runtime_env \<Rightarrow> ('d, 't) stand_runtime \<Rightarrow> bool" where
  "faulted E r \<longleftrightarrow> rt_state r = commanded_stand_state.Faulted \<and> (\<exists>d. rt_output r = snd (pwm_all_off E d))"

definition same_pose :: "('d, 't) stand_runtime \<Rightarrow> ('d, 't) stand_runtime \<Rightarrow> bool" where
  "same_pose r r' \<longleftrightarrow> rt_state r' = rt_state r \<and> rt_holding_pair r' = rt_holding_pair r \<and>
     rt_calibration r' = rt_calibration r"

definition motion_outcome :: "('d, 't) runtime_env \<Rightarrow> ('d, 't) stand_runtime \<Rightarrow> ('d, 't) stand_runtime attempt \<Rightarrow> bool" where
  "motion_outcome E r a = (case a of Finished r' \<Rightarrow> same_pose r r' | Stopped e r' \<Rightarrow> faulted E r')"

fun motor_step :: "move_plan_step \<Rightarrow> bool" where
  "motor_step (move_plan_step.SetGrippers poses) = (\<forall>p \<in> set poses. is_gripper (fst p))"
| "motor_step move_plan_step.AllOff = False"
| "motor_step _ = True"

lemma outcome_Finished: "motion_outcome E r (Finished r') \<longleftrightarrow> same_pose r r'"
  by (simp add: motion_outcome_def)

lemma fault_outcome: "motion_outcome E r0 (fault E message r)"
  by (auto simp: motion_outcome_def fault_def faulted_def split: prod.split) (metis snd_conv)

lemma set_channels_outcome: "motion_outcome E r (rt_set_channels E channels r)"
  by (auto simp: rt_set_channels_def Let_def fault_outcome outcome_Finished same_pose_def split: prod.split)

lemma disable_channels_outcome: "motion_outcome E r (rt_disable_channels E channels r)"
  by (auto simp: rt_disable_channels_def Let_def fault_outcome outcome_Finished same_pose_def split: prod.split)

lemma outcome_same: "same_pose r r' \<Longrightarrow> motion_outcome E r' a \<Longrightarrow> motion_outcome E r a"
  by (cases a) (auto simp: motion_outcome_def same_pose_def)

lemma on_finish_outcome:
  assumes "motion_outcome E r a" and "\<And>r'. same_pose r r' \<Longrightarrow> motion_outcome E r' (f r')"
  shows "motion_outcome E r (on_finish a f)"
proof (cases a)
  case (Finished r')
  then show ?thesis using assms by (auto simp: outcome_Finished intro: outcome_same)
qed (use assms in \<open>simp add: motion_outcome_def\<close>)

lemma outcome_sleep: "motion_outcome E (sleep E n r) a = motion_outcome E r a"
  by (auto simp: motion_outcome_def same_pose_def sleep_def split: attempt.split)

lemma collect_grippers:
  "\<forall>p \<in> set poses. is_gripper (fst p) \<Longrightarrow> \<exists>channels. gripper_channels_for_axes c poses = Inr channels"
proof (induction poses)
  case (Cons p poses)
  moreover obtain axis orientation where "p = (axis, orientation)" by (cases p)
  ultimately show ?case
    using gripper_pulse_defined [of c axis orientation]
    by (auto simp: gripper_channels_for_axes_def gripper_channel_def)
qed (simp add: gripper_channels_for_axes_def)

lemma drive_step_outcome:
  assumes "motor_step x"
  shows "motion_outcome E r (drive_step E x r)"
proof (cases x)
  case (SetRails target position)
  have "motion_outcome E r' (rt_disable_channels E channels (sleep E n r'))" for channels n and r' :: "('a, 'b) stand_runtime"
    using disable_channels_outcome [of E "sleep E n r'"] by (simp add: outcome_sleep)
  with SetRails show ?thesis
    by (auto simp: drive_rails_def intro!: on_finish_outcome set_channels_outcome)
next
  case (SetGrippers poses)
  then obtain channels where "gripper_channels_for_axes (rt_calibration r) poses = Inr channels"
    using assms collect_grippers by (metis motor_step.simps(1))
  with SetGrippers show ?thesis
    by (auto simp: pose_grippers_def motion_outcome_def [of E _ "Finished _"] same_pose_def sleep_def
        intro!: on_finish_outcome set_channels_outcome)
qed (use assms in \<open>simp_all add: motion_outcome_def same_pose_def\<close>)

lemma drive_outcome: "list_all motor_step plan \<Longrightarrow> motion_outcome E r (drive E plan r)"
proof (induction plan arbitrary: r)
  case (Cons x plan)
  then show ?case
    unfolding drive.simps by (intro on_finish_outcome drive_step_outcome) auto
qed (simp add: motion_outcome_def same_pose_def)

lemma motor_plans:
  "list_all motor_step (pose_plan f)" "list_all motor_step return_plan" "list_all motor_step open_plan"
  by (cases f) (simp_all add: up_down_plan_def return_plan_def open_plan_def is_gripper_def)

lemma motor_next_plan: "next_plan f pair g = Some (plan, pair') \<Longrightarrow> list_all motor_step plan"
  by (cases "(f, pair, g)" rule: next_plan.cases) (auto simp: is_gripper_def)

lemma motor_turn_plan: "is_gripper gripper \<Longrightarrow> list_all motor_step (turn_plan gripper railing turn)"
  by (cases turn) (simp_all add: turn_plan_def)

end
