(* ===== verification/StandRuntimeCalls.thy ===== *)
theory StandRuntimeCalls
  imports StandRuntimeSafety
begin

text \<open>
  The public methods of \<open>StandRuntime\<close> as calls, the states they reach, and what each call does to the
  stand: it is refused without a command, or drives a plan that is safe on the machine of its state, or
  stops at a failed output, faulted, until a reset.
\<close>

section \<open>Calls\<close>

datatype runtime_call =
    CallReset | CallOff | CallSafeOpen | CallGrip | CallScanPose scan_face | CallScanNext scan_face
  | CallFinishScan | CallFinishForExecution | CallProbeMove cube_move

fun run_call :: "('d, 't) runtime_env \<Rightarrow> runtime_call \<Rightarrow> ('d, 't) stand_runtime \<Rightarrow>
    ('d, 't) stand_runtime attempt" where
  "run_call E CallReset r = reset E r"
| "run_call E CallOff r = off E r"
| "run_call E CallSafeOpen r = safe_open E r"
| "run_call E CallGrip r = grip_cube E r"
| "run_call E (CallScanPose f) r = scan_pose_op E f r"
| "run_call E (CallScanNext f) r = scan_next E f r"
| "run_call E CallFinishScan r = finish_scan E r"
| "run_call E CallFinishForExecution r = finish_scan_for_execution E r"
| "run_call E (CallProbeMove m) r = execute_probe_move E m r"

fun run_calls :: "('d, 't) runtime_env \<Rightarrow> runtime_call list \<Rightarrow> ('d, 't) stand_runtime \<Rightarrow>
    ('d, 't) stand_runtime attempt" where
  "run_calls E [] r = Finished r"
| "run_calls E (c # cs) r = on_finish (run_call E c r) (run_calls E cs)"

fun runtime_after :: "('d, 't) stand_runtime attempt \<Rightarrow> ('d, 't) stand_runtime" where
  "runtime_after (Finished r) = r"
| "runtime_after (Stopped e r) = r"

inductive runtime_reach :: "('d, 't) runtime_env \<Rightarrow> ('d, 't) stand_runtime \<Rightarrow> bool" for E where
  start: "runtime_reach E (with_delay d c t)"
| call: "runtime_reach E r \<Longrightarrow> runtime_reach E (runtime_after (run_call E c r))"

section \<open>The methods as plans\<close>

definition operational :: "commanded_stand_state \<Rightarrow> bool" where
  "operational st \<longleftrightarrow> st \<noteq> commanded_stand_state.Unknown \<and> st \<noteq> commanded_stand_state.Faulted"

lemma operational_simps [simp]:
  "operational SafeOpen" "operational Gripped" "operational (ScanHold f)" "operational OutputsOff"
  "\<not> operational commanded_stand_state.Unknown" "\<not> operational commanded_stand_state.Faulted"
  by (simp_all add: operational_def)

definition release_plan :: "move_plan_step list" where
  "release_plan = open_plan @ [move_plan_step.SetGrippers
     [(RightGripper, FX), (BottomGripper, FX), (TopGripper, FX), (LeftGripper, FX)]]"

lemma require_operational_cases:
  "require_operational message r = (if operational (rt_state r) then Finished r
     else Stopped (NotOperational message (rt_state r)) r)"
  by (cases "rt_state r") (simp_all add: require_operational_def operational_def)

lemma perpendicular_valid: "grip_configuration_validate all_frame_perpendicular = Inr ()"
  by (simp add: grip_configuration_validate_iff all_frame_perpendicular_def)

lemma safe_open_drive:
  "operational (rt_state r) \<Longrightarrow> safe_open E r =
     on_finish (drive E release_plan r) (\<lambda>r. Finished (set_state SafeOpen None r))"
proof -
  have "(case gripper_channels (rt_calibration q) all_frame_perpendicular of Inl e \<Rightarrow> Stopped e q
      | Inr channels \<Rightarrow> on_finish (rt_set_channels E channels q) (\<lambda>r.
          Finished (set_state SafeOpen None (sleep E (gripper_pose_duration (rt_calibration r)) r)))) =
    on_finish (pose_grippers E [(RightGripper, FX), (BottomGripper, FX), (TopGripper, FX), (LeftGripper, FX)] q)
      (\<lambda>r. Finished (set_state SafeOpen None r))" for q
    by (simp add: gripper_channels_def gripper_channels_for_axes_def all_frame_perpendicular_def
        pose_grippers_def split: sum.split)
  moreover assume "operational (rt_state r)"
  ultimately show ?thesis
    by (simp add: safe_open_def require_operational_cases perpendicular_valid open_all_rails_drive
        release_plan_def drive_fun)
qed

lemma safe_open_refused:
  "\<not> operational (rt_state r) \<Longrightarrow> safe_open E r = Stopped (NotOperational ''safe-open'' (rt_state r)) r"
  by (simp add: safe_open_def require_operational_cases)

lemma motor_release: "list_all motor_step release_plan"
  by (simp add: release_plan_def motor_plans is_gripper_def)

lemma finish_drive:
  assumes "rt_state r = ScanHold scan_face.Back" "rt_holding_pair r = Some TB"
  shows "finish_scan E r =
      on_finish (drive E (return_plan @ open_plan) r) (\<lambda>r. Finished (set_state SafeOpen None r))"
    and "finish_scan_for_execution E r =
      on_finish (drive E return_plan r) (\<lambda>r. Finished (set_state Gripped None r))"
  by (simp_all add: finish_scan_def finish_scan_for_execution_def return_front_drive [OF assms]
      open_all_rails_drive)

lemma finish_refused:
  assumes "\<not> (rt_state r = ScanHold scan_face.Back \<and> rt_holding_pair r = Some TB)"
  shows "finish_scan E r = Stopped (CannotFinishScan (rt_state r) (rt_holding_pair r)) r"
    and "finish_scan_for_execution E r = Stopped (CannotFinishScan (rt_state r) (rt_holding_pair r)) r"
  using assms by (auto simp: finish_scan_def finish_scan_for_execution_def return_front_after_scan_def)

lemma motor_probe:
  "baseline_held_steps [m] = Some (plan @ [move_plan_step.MoveCompleted]) \<Longrightarrow> list_all motor_step plan"
  using baseline_turn_plan [of "(LeftGripper, LeftRail)"]
    baseline_turn_plan [of "(RightGripper, RightRail)"] baseline_turn_plan [of "(TopGripper, TopRail)"]
    baseline_turn_plan [of "(BottomGripper, BottomRail)"]
  by (cases "mv_face m") (auto simp: baseline_held_steps_def baseline_move_def position_front_back_def
      restore_front_def whole_turn_def motor_turn_plan is_gripper_def)

section \<open>Every call is refused, finishes or faults\<close>

definition halts_safely :: "('d, 't) runtime_env \<Rightarrow> ('d, 't) stand_runtime attempt \<Rightarrow> bool" where
  "halts_safely E a = (case a of Finished r' \<Rightarrow> True | Stopped e r' \<Rightarrow> faulted E r')"

definition pose_ok :: "commanded_stand_state \<Rightarrow> runtime_rail_pair option \<Rightarrow> bool" where
  "pose_ok st pair \<longleftrightarrow> (st = Gripped \<or> (\<exists>f. st = ScanHold f) \<longrightarrow> commanded_pose st pair \<noteq> None)"

definition refused_or_run :: "('d, 't) runtime_env \<Rightarrow> ('d, 't) stand_runtime \<Rightarrow>
    ('d, 't) stand_runtime attempt \<Rightarrow> bool" where
  "refused_or_run E r a \<longleftrightarrow> (\<exists>e. a = Stopped e r) \<or>
     (\<exists>b st pair. a = on_finish b (\<lambda>r. Finished (set_state st pair r)) \<and> halts_safely E b \<and> pose_ok st pair)"

lemma halts_outcome: "motion_outcome E r a \<Longrightarrow> halts_safely E a"
  by (simp add: motion_outcome_def halts_safely_def split: attempt.splits)

lemma halts_drive: "list_all motor_step plan \<Longrightarrow> halts_safely E (drive E plan r)"
  using drive_outcome halts_outcome by blast

lemma halts_on_finish:
  "halts_safely E a \<Longrightarrow> (\<And>r. halts_safely E (f r)) \<Longrightarrow> halts_safely E (on_finish a f)"
  by (cases a) (simp_all add: halts_safely_def)

lemma halts_Finished: "halts_safely E (Finished r)"
  by (simp add: halts_safely_def)

lemma refused: "a = Stopped e r \<Longrightarrow> refused_or_run E r a"
  by (simp add: refused_or_run_def)

lemma ran:
  "a = on_finish b (\<lambda>r. Finished (set_state st pair r)) \<Longrightarrow> halts_safely E b \<Longrightarrow> pose_ok st pair \<Longrightarrow>
     refused_or_run E r a"
  by (auto simp: refused_or_run_def)

lemma pose_ok_simps [simp]:
  "pose_ok SafeOpen pair" "pose_ok OutputsOff pair" "pose_ok Gripped None"
  by (simp_all add: pose_ok_def)

lemma pose_ok_plans:
  "pose_ok (ScanHold f) (Some (pose_holder f))"
  "next_plan f pair g = Some (plan, pair') \<Longrightarrow> pose_ok (ScanHold g) (Some pair')"
  using pose_plan_runs next_plan_run
  by (cases f; simp add: pose_ok_def pose_holder_def) (force simp: pose_ok_def dest: next_plan_run)

lemma reset_run: "refused_or_run E r (reset E r)"
proof -
  obtain ok d where d: "pwm_all_off E (rt_output r) = (ok, d)" by fastforce
  define b where "b = (if ok then Finished (r\<lparr> rt_output := d \<rparr>)
    else fault E ''failed to disable PCA9685 outputs during reset'' (r\<lparr> rt_output := d \<rparr>))"
  have "reset E r = on_finish b (\<lambda>r. Finished (set_state OutputsOff None r))"
    by (auto simp: reset_def d b_def fault_def Let_def split: prod.split)
  moreover have "halts_safely E b"
    by (simp add: b_def halts_Finished halts_outcome [OF fault_outcome])
  ultimately show ?thesis by (auto intro: ran)
qed

lemma safe_open_run: "refused_or_run E r (safe_open E r)"
proof (cases "operational (rt_state r)")
  case True
  show ?thesis by (rule ran [OF safe_open_drive [OF True] halts_drive [OF motor_release]]) simp
qed (auto intro: refused safe_open_refused)

lemma move_all_rails_halts: "halts_safely E (move_all_rails E position r)"
  unfolding move_all_rails_def
  using set_channels_outcome disable_channels_outcome halts_outcome by (blast intro: halts_on_finish)

lemma grip_cube_run: "refused_or_run E r (grip_cube E r)"
proof (cases "(\<exists>f. rt_state r = ScanHold f) \<or> \<not> operational (rt_state r)")
  case True
  then show ?thesis
    by (auto simp: grip_cube_def safe_open_refused refused_or_run_def split: commanded_stand_state.split)
next
  case False
  define b where "b = on_finish (if rt_state r \<noteq> SafeOpen then safe_open E r else Finished r)
    (move_all_rails E NearGrip)"
  have "grip_cube E r = on_finish b (\<lambda>r. Finished (set_state Gripped None r))"
    using False by (auto simp: grip_cube_def b_def split: commanded_stand_state.split)
  moreover have "halts_safely E b"
    using False unfolding b_def
    by (auto simp: safe_open_drive intro!: halts_on_finish halts_drive motor_release halts_Finished
        move_all_rails_halts)
  ultimately show ?thesis by (auto intro: ran)
qed

lemma scan_pose_run: "refused_or_run E r (scan_pose_op E f r)"
proof (cases "rt_state r = Gripped")
  case True
  show ?thesis by (rule ran [OF scan_pose_drive [OF True] halts_drive [OF motor_plans(1)] pose_ok_plans(1)])
qed (simp add: scan_pose_op_def refused)

lemma scan_next_run: "refused_or_run E r (scan_next E g r)"
  by (cases rule: scan_next_cases [of r g _ E])
     (blast intro: ran scan_next_drive halts_drive motor_next_plan pose_ok_plans(2) refused)+

lemma finish_run: "refused_or_run E r (finish_scan E r)" "refused_or_run E r (finish_scan_for_execution E r)"
proof -
  have "list_all motor_step (return_plan @ open_plan)" by (simp add: motor_plans)
  then show "refused_or_run E r (finish_scan E r)" "refused_or_run E r (finish_scan_for_execution E r)"
    by (cases "rt_state r = ScanHold scan_face.Back \<and> rt_holding_pair r = Some TB";
        fastforce intro: refused finish_refused ran finish_drive halts_drive motor_plans)+
qed

lemma probe_move_run: "refused_or_run E r (execute_probe_move E m r)"
proof (cases "rt_state r = Gripped")
  case True
  then show ?thesis
    using execute_probe_move_drive [of r m E] by (auto intro!: ran halts_drive motor_probe)
qed (simp add: execute_probe_move_def refused)

lemma call_run: "refused_or_run E r (run_call E c r)"
  by (cases c) (simp_all add: off_def reset_run safe_open_run grip_cube_run scan_pose_run scan_next_run
      finish_run probe_move_run)

section \<open>Reachable states\<close>

lemma runtime_reach_pose:
  "runtime_reach E r \<Longrightarrow> pose_ok (rt_state r) (rt_holding_pair r)"
proof (induction rule: runtime_reach.induct)
  case (start d c t)
  then show ?case by (simp add: with_delay_def pose_ok_def)
next
  case (call r c)
  from call_run [of E r c] show ?case
  proof (unfold refused_or_run_def, elim disjE exE conjE)
    fix b st pair
    assume "run_call E c r = on_finish b (\<lambda>r. Finished (set_state st pair r))" "halts_safely E b"
      "pose_ok st pair"
    then show ?thesis
      by (cases b) (auto simp: halts_safely_def faulted_def set_state_def pose_ok_def)
  qed (use call.IH in simp)
qed

lemma on_finish_eq_Stopped: "on_finish b (\<lambda>r. Finished (f r)) = Stopped e r' \<longleftrightarrow> b = Stopped e r'"
  by (cases b) simp_all

lemma call_stopped:
  assumes "run_call E c r = Stopped e r'"
  shows "r' = r \<or> faulted E r'"
  using call_run [of E r c] assms 
  by (auto simp: refused_or_run_def halts_safely_def on_finish_eq_Stopped dest!: sym [of "Stopped e r'"])

lemma not_operational_refused:
  assumes "\<not> operational (rt_state r)" "c \<noteq> CallReset" "c \<noteq> CallOff"
  shows "\<exists>e. run_call E c r = Stopped e r"
proof -
  have st: "rt_state r = commanded_stand_state.Unknown \<or> rt_state r = commanded_stand_state.Faulted"
    using assms(1) by (simp add: operational_def)
  show ?thesis
  proof (cases c)
    case (CallScanNext g)
    with st show ?thesis by (cases rule: scan_next_cases [of r g _ E]) auto
  qed (use assms st in \<open>auto simp: safe_open_refused grip_cube_def scan_pose_op_def
        finish_refused execute_probe_move_def\<close>)
qed

section \<open>A scanning call moves the cube as its state says\<close>

definition moves_as_stated :: "('d, 't) runtime_env \<Rightarrow> ('d, 't) stand_runtime \<Rightarrow>
    ('d, 't) stand_runtime attempt \<Rightarrow> bool" where
  "moves_as_stated E r a \<longleftrightarrow> (\<exists>e. a = Stopped e r) \<or>
     (\<exists>plan m m' st pair. commanded_pose (rt_state r) (rt_holding_pair r) = Some m \<and> exec plan m = Some m' \<and>
        commanded_pose st pair = Some m' \<and> list_all motor_step plan \<and>
        a = on_finish (drive E plan r) (\<lambda>r. Finished (set_state st pair r)))"

lemma scan_pose_moves:
  assumes "pose_ok (rt_state r) (rt_holding_pair r)"
  shows "moves_as_stated E r (scan_pose_op E f r)"
proof (cases "rt_state r = Gripped")
  case True
  then have "commanded_pose (rt_state r) (rt_holding_pair r) = Some canonical_grip"
    using assms by (cases "rt_holding_pair r") (auto simp: pose_ok_def)
  moreover obtain m' where "commanded_pose (ScanHold f) (Some (pose_holder f)) = Some m'"
    using pose_ok_plans(1) [of f] by (auto simp: pose_ok_def)
  ultimately show ?thesis
    using scan_pose_drive [OF True, of E f] pose_plan_run [of f] motor_plans(1)
    by (metis moves_as_stated_def)
qed (simp add: scan_pose_op_def moves_as_stated_def)

lemma scan_next_moves: "moves_as_stated E r (scan_next E g r)"
proof (cases rule: scan_next_cases [of r g _ E])
  case (step f pair plan pair')
  then show ?thesis
    using scan_next_drive [OF step] next_plan_run [OF step(3)] motor_next_plan [OF step(3)]
    by (metis moves_as_stated_def)
qed (simp add: moves_as_stated_def)

lemma finish_for_execution_moves: "moves_as_stated E r (finish_scan_for_execution E r)"
proof (cases "rt_state r = ScanHold scan_face.Back \<and> rt_holding_pair r = Some TB")
  case True
  then show ?thesis
    using finish_drive(2) [of r E] return_plan_runs motor_plans(2) unfolding moves_as_stated_def
    by (metis commanded_pose.simps(1) commanded_pose.simps(6))
qed (auto simp: finish_refused moves_as_stated_def)

section \<open>The canonical scan\<close>

text \<open>The calls of the full scan, the steps they drive, and the steps of the service's scanning plan.\<close>

definition canonical_scan :: "runtime_call list" where
  "canonical_scan = [CallScanPose scan_face.Left, CallScanNext scan_face.Right, CallScanNext scan_face.Down,
     CallScanNext scan_face.Up, CallScanNext scan_face.Front, CallScanNext scan_face.Back,
     CallFinishForExecution]"

definition canonical_plan :: "move_plan_step list" where
  "canonical_plan = pose_plan scan_face.Left @ [tb_step FX FX, tb_step FR FP] @
     [tb_step FX FX, close_step LR, open_step TB, lr_step FP FR] @ [lr_step FX FX, lr_step FR FP] @
     [lr_step FX FX, tb_step FP FR, close_step TB, open_step LR] @ [tb_step FR FP] @ return_plan"

definition works :: "('d, 't) runtime_env \<Rightarrow> bool" where
  "works E \<longleftrightarrow> (\<forall>d channels. fst (pwm_set_channels E d channels)) \<and>
     (\<forall>d channels. fst (pwm_disable_channels E d channels))"

lemma canonical_plan_steps:
  "motion_steps canonical_plan = filter (\<lambda>x. case x of Capture f \<Rightarrow> False | _ \<Rightarrow> True) scan_steps"
  by code_simp

lemma set_channels_works: "works E \<Longrightarrow> \<exists>r'. rt_set_channels E channels r = Finished r'"
proof -
  assume "works E"
  then have "fst (pwm_set_channels E (rt_output r) channels)" by (simp add: works_def)
  then show ?thesis
    by (cases "pwm_set_channels E (rt_output r) channels") (simp add: rt_set_channels_def Let_def)
qed

lemma disable_channels_works: "works E \<Longrightarrow> \<exists>r'. rt_disable_channels E channels r = Finished r'"
proof -
  assume "works E"
  then have "fst (pwm_disable_channels E (rt_output r) channels)" by (simp add: works_def)
  then show ?thesis
    by (cases "pwm_disable_channels E (rt_output r) channels") (simp add: rt_disable_channels_def Let_def)
qed

lemma drive_step_works:
  assumes "works E" "motor_step x"
  shows "\<exists>r'. drive_step E x r = Finished r' \<and> same_pose r r'"
proof -
  have "\<exists>r'. drive_step E x r = Finished r'"
  proof (cases x)
    case (SetRails target position)
    obtain q where "rt_set_channels E
        (map (\<lambda>axis. (channel axis, rail_pulse (rt_calibration r) axis position)) (target_rails target)) r = Finished q"
      using set_channels_works [OF assms(1)] by blast
    with SetRails show ?thesis by (simp add: drive_rails_def disable_channels_works [OF assms(1)])
  next
    case (SetGrippers poses)
    then obtain channels where c: "gripper_channels_for_axes (rt_calibration r) poses = Inr channels"
      using assms(2) collect_grippers by (metis motor_step.simps(1))
    obtain q where "rt_set_channels E channels r = Finished q"
      using set_channels_works [OF assms(1)] by blast
    with SetGrippers c show ?thesis by (simp add: pose_grippers_def)
  qed (use assms in auto)
  then show ?thesis using drive_step_outcome [OF assms(2), of E r] by (auto simp: outcome_Finished)
qed

lemma drive_works:
  assumes "works E"
  shows "list_all motor_step plan \<Longrightarrow> \<exists>r'. drive E plan r = Finished r' \<and> same_pose r r'"
proof (induction plan arbitrary: r)
  case (Cons x plan)
  then obtain q where "drive_step E x r = Finished q" "same_pose r q"
    using drive_step_works [OF assms] by (metis list.pred_inject(2))
  moreover obtain r' where "drive E plan q = Finished r'" "same_pose q r'"
    using Cons by force
  ultimately show ?case by (simp add: same_pose_def)
qed (simp add: same_pose_def)

text \<open>The commanded state does not influence what is sent, so states set between plans do not matter.\<close>

lemma set_state_simps [simp]:
  "rt_state (set_state st pair r) = st" "rt_holding_pair (set_state st pair r) = pair"
  "rt_output (set_state st pair r) = rt_output r" "rt_calibration (set_state st pair r) = rt_calibration r"
  "rt_delay (set_state st pair r) = rt_delay r" "set_state st pair (set_state st' pair' r) = set_state st pair r"
  by (simp_all add: set_state_def)

lemma set_state_same: "rt_state r = st \<Longrightarrow> rt_holding_pair r = pair \<Longrightarrow> set_state st pair r = r"
  by (cases r) (simp add: set_state_def)

lemma set_channels_set_state:
  "rt_set_channels E channels r = Finished q \<Longrightarrow>
     rt_set_channels E channels (set_state st pair r) = Finished (set_state st pair q)"
  by (cases "pwm_set_channels E (rt_output r) channels")
     (auto simp: rt_set_channels_def fault_def Let_def set_state_def split: prod.splits if_splits)

lemma disable_channels_set_state:
  "rt_disable_channels E channels r = Finished q \<Longrightarrow>
     rt_disable_channels E channels (set_state st pair r) = Finished (set_state st pair q)"
  by (cases "pwm_disable_channels E (rt_output r) channels")
     (auto simp: rt_disable_channels_def fault_def Let_def set_state_def split: prod.splits if_splits)

lemma sleep_set_state: "sleep E n (set_state st pair r) = set_state st pair (sleep E n r)"
  by (simp add: sleep_def set_state_def)

lemma drive_step_set_state:
  assumes "motor_step x" "drive_step E x r = Finished q"
  shows "drive_step E x (set_state st pair r) = Finished (set_state st pair q)"
proof (cases x)
  case (SetRails target position)
  with assms(2) obtain p where
    p: "rt_set_channels E (map (\<lambda>axis. (channel axis, rail_pulse (rt_calibration r) axis position))
         (target_rails target)) r = Finished p"
    and q: "rt_disable_channels E (map channel (target_rails target))
         (sleep E (rail_duration (rt_calibration p) position) p) = Finished q"
    by (auto simp: drive_rails_def on_finish_eq_Finished)
  show ?thesis
    using set_channels_set_state [OF p] disable_channels_set_state [OF q]
    by (simp add: SetRails drive_rails_def sleep_set_state)
next
  case (SetGrippers poses)
  with assms(2) obtain channels p where
    c: "gripper_channels_for_axes (rt_calibration r) poses = Inr channels"
    and p: "rt_set_channels E channels r = Finished p"
    and q: "q = sleep E (gripper_pose_duration (rt_calibration p)) p"
    by (auto simp: pose_grippers_def on_finish_eq_Finished split: sum.splits)
  show ?thesis
    using set_channels_set_state [OF p] by (simp add: SetGrippers pose_grippers_def sleep_set_state c q)
qed (use assms in simp_all)

lemma drive_set_state:
  "list_all motor_step plan \<Longrightarrow> drive E plan r = Finished q \<Longrightarrow>
     drive E plan (set_state st pair r) = Finished (set_state st pair q)"
proof (induction plan arbitrary: r)
  case (Cons x plan)
  then show ?case
    by (auto simp: on_finish_eq_Finished) (metis drive_step_set_state)
qed simp

lemma call_extends:
  assumes "works E" "list_all motor_step plan"
    and "\<And>r. rt_state r = st \<Longrightarrow> rt_holding_pair r = pair \<Longrightarrow> run_call E c r =
      on_finish (drive E plan r) (\<lambda>r. Finished (set_state st' pair' r))"
    and "drive E driven r0 = Finished q"
  shows "\<exists>q'. drive E (driven @ plan) r0 = Finished q' \<and> same_pose q q' \<and>
    run_call E c (set_state st pair q) = Finished (set_state st' pair' q')"
proof -
  obtain q' where q': "drive E plan q = Finished q'" "same_pose q q'"
    using drive_works [OF assms(1,2)] by blast
  then show ?thesis
    using assms(3) [of "set_state st pair q"] drive_set_state [OF assms(2) q'(1), of st pair]
    by (simp add: assms(4))
qed

lemma scan_next_extends:
  assumes "works E" "next_plan f pair g = Some (plan, pair')" "drive E driven r0 = Finished q"
  shows "\<exists>q'. drive E (driven @ plan) r0 = Finished q' \<and> same_pose q q' \<and>
    scan_next E g (set_state (ScanHold f) (Some pair) q) = Finished (set_state (ScanHold g) (Some pair') q')"
  using call_extends [OF assms(1) motor_next_plan [OF assms(2)], of "ScanHold f" "Some pair" "CallScanNext g"]
    assms scan_next_drive by fastforce

lemma canonical_scan_drives:
  assumes E: "works E" and r: "rt_state r = Gripped" "rt_holding_pair r = None"
  shows "\<exists>r'. run_calls E canonical_scan r = Finished r' \<and> drive E canonical_plan r = Finished r' \<and>
    same_pose r r'"
proof -
  note next_step = scan_next_extends [OF E]
  obtain q1 where 1: "drive E (pose_plan scan_face.Left) r = Finished q1" "same_pose r q1"
    using drive_works [OF E motor_plans(1)] by blast
  have c1: "scan_pose_op E scan_face.Left r = Finished (set_state (ScanHold scan_face.Left) (Some TB) q1)"
    using scan_pose_drive [OF r(1), of E scan_face.Left] 1(1)
    by (simp add: pose_holder_def del: pose_plan.simps)
  let ?p2 = "[tb_step FX FX, tb_step FR FP]"
  let ?p3 = "[tb_step FX FX, close_step LR, open_step TB, lr_step FP FR]"
  let ?p4 = "[lr_step FX FX, lr_step FR FP]"
  let ?p5 = "[lr_step FX FX, tb_step FP FR, close_step TB, open_step LR]"
  let ?p6 = "[tb_step FR FP]"
  obtain q2 where 2: "drive E (pose_plan scan_face.Left @ ?p2) r = Finished q2" "same_pose q1 q2"
    and c2: "scan_next E scan_face.Right (set_state (ScanHold scan_face.Left) (Some TB) q1) =
      Finished (set_state (ScanHold scan_face.Right) (Some TB) q2)"
    using next_step [OF next_plan.simps(2) 1(1)] by blast
  obtain q3 where 3: "drive E ((pose_plan scan_face.Left @ ?p2) @ ?p3) r = Finished q3" "same_pose q2 q3"
    and c3: "scan_next E scan_face.Down (set_state (ScanHold scan_face.Right) (Some TB) q2) =
      Finished (set_state (ScanHold scan_face.Down) (Some LR) q3)"
    using next_step [OF next_plan.simps(3) 2(1)] by blast
  obtain q4 where 4: "drive E (((pose_plan scan_face.Left @ ?p2) @ ?p3) @ ?p4) r = Finished q4" "same_pose q3 q4"
    and c4: "scan_next E scan_face.Up (set_state (ScanHold scan_face.Down) (Some LR) q3) =
      Finished (set_state (ScanHold scan_face.Up) (Some LR) q4)"
    using next_step [OF next_plan.simps(4) 3(1)] by blast
  obtain q5 where 5: "drive E ((((pose_plan scan_face.Left @ ?p2) @ ?p3) @ ?p4) @ ?p5) r = Finished q5" "same_pose q4 q5"
    and c5: "scan_next E scan_face.Front (set_state (ScanHold scan_face.Up) (Some LR) q4) =
      Finished (set_state (ScanHold scan_face.Front) (Some TB) q5)"
    using next_step [OF next_plan.simps(5) 4(1)] by blast
  obtain q6 where 6: "drive E (((((pose_plan scan_face.Left @ ?p2) @ ?p3) @ ?p4) @ ?p5) @ ?p6) r = Finished q6" "same_pose q5 q6"
    and c6: "scan_next E scan_face.Back (set_state (ScanHold scan_face.Front) (Some TB) q5) =
      Finished (set_state (ScanHold scan_face.Back) (Some TB) q6)"
    using next_step [OF next_plan.simps(6) 5(1)] by blast
  obtain q7 where 7: "drive E ((((((pose_plan scan_face.Left @ ?p2) @ ?p3) @ ?p4) @ ?p5) @ ?p6) @ return_plan) r = Finished q7" "same_pose q6 q7"
    and c7: "run_call E CallFinishForExecution (set_state (ScanHold scan_face.Back) (Some TB) q6) =
      Finished (set_state Gripped None q7)"
    using call_extends [OF E motor_plans(2) _ 6(1), of "ScanHold scan_face.Back" "Some TB" CallFinishForExecution
        Gripped None] finish_drive(2) by fastforce
  have "same_pose r q7" using 1(2) 2(2) 3(2) 4(2) 5(2) 6(2) 7(2) by (simp add: same_pose_def)
  moreover from this have "set_state Gripped None q7 = q7" using r by (simp add: set_state_same same_pose_def)
  moreover have "run_calls E canonical_scan r = Finished (set_state Gripped None q7)"
    using c1 c2 c3 c4 c5 c6 c7 by (simp add: canonical_scan_def)
  moreover have "drive E canonical_plan r = Finished q7"
    using 7(1) by (simp add: canonical_plan_def)
  ultimately show ?thesis by metis
qed

section \<open>A probe move on the stand\<close>

lemma baseline_probe_run:
  assumes "baseline_held_steps [m] = Some (plan @ [move_plan_step.MoveCompleted])"
  shows "exec plan canonical_grip = Some (canonical_grip\<lparr> turned := turn_of m \<rparr>)"
proof -
  have "exec (plan @ [move_plan_step.MoveCompleted]) canonical_grip =
      Some (canonical_grip\<lparr> completed := [turn_of m] \<rparr>)"
    using baseline_held_run [of "[m]"] assms by auto
  then obtain k where k: "exec plan canonical_grip = Some k"
    "k\<lparr> completed := completed k @ [turned k], turned := [] \<rparr> = canonical_grip\<lparr> completed := [turn_of m] \<rparr>"
    by (auto simp: exec_append split: Option.bind_splits)
  then have "k = canonical_grip\<lparr> turned := turn_of m \<rparr>"
    by (cases k) (auto simp: canonical_grip_def)
  with k(1) show ?thesis by simp
qed

section \<open>An output that records its commands\<close>

definition log_runtime :: "((u8 \<times> u16) list list, unit) runtime_env" where
  "log_runtime = \<lparr> pwm_set_channels = (\<lambda>d channels. (True, d @ [channels])),
     pwm_disable_channels = (\<lambda>d channels. (True, d @ [map (\<lambda>c. (c, 0)) channels])),
     pwm_all_off = (\<lambda>d. (True, d @ [[]])), delay_sleep = (\<lambda>t _. t) \<rparr>"

lemma log_works: "works log_runtime"
  by (simp add: works_def log_runtime_def)

lemma run_calls_reach: "runtime_reach E r \<Longrightarrow> run_calls E cs r = Finished r' \<Longrightarrow> runtime_reach E r'"
proof (induction cs arbitrary: r)
  case (Cons c cs)
  then show ?case
    using runtime_reach.call [of E r c] by (auto simp: on_finish_eq_Finished)
qed simp

lemma works_finishes: "works E \<Longrightarrow> list_all motor_step plan \<Longrightarrow> \<exists>q. drive E plan r = Finished q"
  using drive_works by blast

lemma log_gripped:
  "\<exists>r. runtime_reach log_runtime r \<and> rt_state r = Gripped \<and> rt_holding_pair r = None"
proof -
  let ?r0 = "with_delay [] default_calibration ()"
  obtain r1 where r1: "run_call log_runtime CallReset ?r0 = Finished r1" "rt_state r1 = OutputsOff"
    by (auto simp: reset_def log_runtime_def)
  obtain q where "drive log_runtime release_plan r1 = Finished q"
    using works_finishes [OF log_works motor_release] by blast
  then have r2: "run_call log_runtime CallSafeOpen r1 = Finished (set_state SafeOpen None q)"
    using r1(2) by (simp add: safe_open_drive)
  obtain p where "rt_set_channels log_runtime
      (rail_channels (rt_calibration (set_state SafeOpen None q)) NearGrip) (set_state SafeOpen None q) = Finished p"
    using set_channels_works [OF log_works] by blast
  moreover obtain p' where "rt_disable_channels log_runtime rail_channel_ids_all
      (sleep log_runtime (rail_duration (rt_calibration p) NearGrip) p) = Finished p'"
    using disable_channels_works [OF log_works] by blast
  ultimately have r3: "run_call log_runtime CallGrip (set_state SafeOpen None q) = Finished (set_state Gripped None p')"
    by (simp add: grip_cube_def move_all_rails_def)
  have "run_calls log_runtime [CallReset, CallSafeOpen, CallGrip] ?r0 = Finished (set_state Gripped None p')"
    using r1(1) r2 r3 by simp
  from run_calls_reach [OF runtime_reach.start this] show ?thesis by auto
qed

end
