(* ===== verification/PwmOutputs.thy ===== *)
theory PwmOutputs
  imports StandRuntimeCalls
begin

text \<open>
  What the stand runtime leaves on its output. The trait \<open>PwmOutput\<close> of \<open>src/pca9685.rs\<close> is the locale
  \<open>pwm_output\<close>: a successful command drives or stops the channels it names and every command leaves the
  others. On such an output the channels match the commanded state after every call of the runtime
  (\<open>reach_match\<close>): the rails rest and the grippers carry the pulses of the state's pose.
\<close>

section \<open>The trait\<close>

text \<open>\<open>emitting d c v\<close>: the channel \<open>c\<close> of the output \<open>d\<close> carries the pulse \<open>v\<close>, or none.\<close>

locale pwm_output =
  fixes E :: "('d, 't) runtime_env" and emitting :: "'d \<Rightarrow> u8 \<Rightarrow> u16 option \<Rightarrow> bool"
  assumes set_keeps: "emitting d c v \<Longrightarrow> c \<notin> fst ` set channels \<Longrightarrow> emitting (snd (pwm_set_channels E d channels)) c v"
    and set_emits: "pwm_set_channels E d channels = (True, d') \<Longrightarrow> (c, p) \<in> set channels \<Longrightarrow> emitting d' c (Some p)"
    and disable_keeps: "emitting d c v \<Longrightarrow> c \<notin> set ids \<Longrightarrow> emitting (snd (pwm_disable_channels E d ids)) c v"
    and disable_stops: "pwm_disable_channels E d ids = (True, d') \<Longrightarrow> c \<in> set ids \<Longrightarrow> emitting d' c None"
    and off_stops: "pwm_all_off E d = (True, d') \<Longrightarrow> c < 16 \<Longrightarrow> emitting d' c None"

text \<open>The grippers a plan has posed, from the poses \<open>g\<close> known before it.\<close>

fun posed :: "move_plan_step list \<Rightarrow> (stand_axis \<rightharpoonup> gripper_orientation) \<Rightarrow> (stand_axis \<rightharpoonup> gripper_orientation)" where
  "posed [] g = g"
| "posed (move_plan_step.SetGrippers poses # plan) g = posed plan (g ++ map_of poses)"
| "posed (x # plan) g = posed plan g"

lemma posed_append: "posed (xs @ ys) g = posed ys (posed xs g)"
  by (induction xs g rule: posed.induct) simp_all

text \<open>The grippers a commanded state stands for, \<open>None\<close> where the outputs say nothing.\<close>

fun commanded_grips :: "commanded_stand_state \<Rightarrow> runtime_rail_pair option \<Rightarrow> (side \<Rightarrow> gripper_orientation) option" where
  "commanded_grips SafeOpen pair = Some (\<lambda>_. FX)"
| "commanded_grips Gripped pair = Some (\<lambda>_. FX)"
| "commanded_grips (ScanHold f) pair = map_option grip (commanded_pose (ScanHold f) pair)"
| "commanded_grips _ pair = None"

definition all_grips :: "(side \<Rightarrow> gripper_orientation) \<Rightarrow> (stand_axis \<rightharpoonup> gripper_orientation)" where
  "all_grips g axis = (if is_gripper axis then Some (g (side_of axis)) else None)"

section \<open>The channels a runtime leaves\<close>

definition rails_rest :: "('d \<Rightarrow> u8 \<Rightarrow> u16 option \<Rightarrow> bool) \<Rightarrow> 'd \<Rightarrow> bool" where
  "rails_rest emitting d \<longleftrightarrow> (\<forall>axis \<in> set RAILS. emitting d (channel axis) None)"

definition grippers_pose :: "('d \<Rightarrow> u8 \<Rightarrow> u16 option \<Rightarrow> bool) \<Rightarrow> stand_calibration \<Rightarrow>
    (stand_axis \<rightharpoonup> gripper_orientation) \<Rightarrow> 'd \<Rightarrow> bool" where
  "grippers_pose emitting c g d \<longleftrightarrow> (\<forall>axis o' p. is_gripper axis \<longrightarrow> g axis = Some o' \<longrightarrow> gripper_pulse c axis o' = Some p \<longrightarrow>
     emitting d (channel axis) (Some p))"

text \<open>Steps that move rails as rails and grippers as grippers.\<close>

fun axis_step :: "move_plan_step \<Rightarrow> bool" where
  "axis_step (move_plan_step.SetRails target position) = (set (target_rails target) \<subseteq> set RAILS)"
| "axis_step (move_plan_step.SetGrippers poses) = (\<forall>p \<in> set poses. is_gripper (fst p))"
| "axis_step move_plan_step.AllOff = False"
| "axis_step move_plan_step.MoveCompleted = True"

lemma axis_motor: "list_all axis_step plan \<Longrightarrow> list_all motor_step plan"
proof (induction plan)
  case (Cons x plan)
  then show ?case by (cases x) auto
qed simp

lemma channel_lt: "channel a < 16"
  by (cases a) simp_all

lemma rail_not_gripper: "axis \<in> set RAILS \<longleftrightarrow> \<not> is_gripper axis"
  by (cases axis) (simp_all add: RAILS_def is_gripper_def)

lemma set_channels_Finished:
  "rt_set_channels E channels r = Finished r' \<longleftrightarrow>
     (\<exists>d. pwm_set_channels E (rt_output r) channels = (True, d) \<and> r' = r\<lparr> rt_output := d \<rparr>)"
  by (auto simp: rt_set_channels_def fault_def Let_def split: prod.splits)

lemma disable_channels_Finished:
  "rt_disable_channels E ids r = Finished r' \<longleftrightarrow>
     (\<exists>d. pwm_disable_channels E (rt_output r) ids = (True, d) \<and> r' = r\<lparr> rt_output := d \<rparr>)"
  by (auto simp: rt_disable_channels_def fault_def Let_def split: prod.splits)

lemma collected_channel:
  assumes "gripper_channels_for_axes c poses = Inr channels"
  shows "map fst channels = map (channel \<circ> fst) poses"
  using assms
proof (induction poses arbitrary: channels)
  case (Cons x poses)
  then show ?case
    by (cases x) (auto simp: gripper_channels_for_axes_def gripper_channel_def split: sum.splits option.splits)
qed (simp add: gripper_channels_for_axes_def)

lemma collected_channels:
  assumes "gripper_channels_for_axes c poses = Inr channels"
  shows "fst ` set channels = channel ` fst ` set poses"
  using arg_cong [where f = set, OF collected_channel [OF assms]] by (simp add: image_image)

lemma collected_pulse:
  assumes "gripper_channels_for_axes c poses = Inr channels"
  shows "(axis, o') \<in> set poses \<Longrightarrow> gripper_pulse c axis o' = Some p \<Longrightarrow> (channel axis, p) \<in> set channels"
  using assms
proof (induction poses arbitrary: channels)
  case (Cons x poses)
  then show ?case
    by (cases x) (auto simp: gripper_channels_for_axes_def gripper_channel_def split: sum.splits option.splits)
qed simp

context pwm_output
begin

lemma rails_leave:
  assumes rails: "set axes \<subseteq> set RAILS" and run: "drive_rails E axes position r = Finished r'"
    and rest: "rails_rest emitting (rt_output r)" and pose: "grippers_pose emitting c g (rt_output r)"
  shows "rails_rest emitting (rt_output r') \<and> grippers_pose emitting c g (rt_output r') \<and> rt_calibration r' = rt_calibration r"
proof -
  obtain d d' where
      d: "pwm_set_channels E (rt_output r) (map (\<lambda>axis. (channel axis, rail_pulse (rt_calibration r) axis position)) axes) = (True, d)"
        "pwm_disable_channels E d (map channel axes) = (True, d')" "rt_output r' = d'" "rt_calibration r' = rt_calibration r"
    using run by (auto simp: drive_rails_def on_finish_eq_Finished set_channels_Finished disable_channels_Finished sleep_def)
  have other: "emitting d' (channel axis) v" if "axis \<notin> set axes" "emitting (rt_output r) (channel axis) v" for axis v
    using set_keeps [OF that(2), of "map (\<lambda>axis. (channel axis, rail_pulse (rt_calibration r) axis position)) axes"]
      disable_keeps [of d "channel axis" v "map channel axes"] d(1,2) that(1)
    by (force simp: channel_inj)
  have "emitting d' (channel axis) None" if "axis \<in> set axes" for axis
    using disable_stops [OF d(2)] that by simp
  then have "rails_rest emitting d'" using other rest by (auto simp: rails_rest_def)
  moreover have "grippers_pose emitting c g d'"
    unfolding grippers_pose_def
  proof (intro allI impI)
    fix axis o' p assume a: "is_gripper axis" "g axis = Some o'" "gripper_pulse c axis o' = Some p"
    then have "axis \<notin> set axes" using rails rail_not_gripper [of axis] by blast
    then show "emitting d' (channel axis) (Some p)" using other pose a by (simp add: grippers_pose_def)
  qed
  ultimately show ?thesis using d(3,4) by simp
qed

lemma step_leaves:
  assumes axis: "axis_step x" and run: "drive_step E x r = Finished r'"
    and rest: "rails_rest emitting (rt_output r)" and pose: "grippers_pose emitting (rt_calibration r) g (rt_output r)"
  shows "rails_rest emitting (rt_output r') \<and> grippers_pose emitting (rt_calibration r) (posed [x] g) (rt_output r') \<and>
    rt_calibration r' = rt_calibration r"
proof (cases x)
  case (SetRails target position)
  then show ?thesis using rails_leave [OF _ _ rest pose, of "target_rails target" position] axis run by simp
next
  case (SetGrippers poses)
  then obtain channels d where ch: "gripper_channels_for_axes (rt_calibration r) poses = Inr channels"
    and d: "pwm_set_channels E (rt_output r) channels = (True, d)" "rt_output r' = d" "rt_calibration r' = rt_calibration r"
    using run by (auto simp: pose_grippers_def on_finish_eq_Finished set_channels_Finished sleep_def split: sum.splits)
  note keep = set_keeps [of "rt_output r" _ _ channels, unfolded d(1) snd_conv]
  have "rails_rest emitting d"
    using rest axis SetGrippers keep collected_channels [OF ch]
    by (force simp: rails_rest_def rail_not_gripper channel_inj)
  moreover have "grippers_pose emitting (rt_calibration r) (g ++ map_of poses) d"
    unfolding grippers_pose_def
  proof (intro allI impI)
    fix axis o' p assume a: "is_gripper axis" "(g ++ map_of poses) axis = Some o'" "gripper_pulse (rt_calibration r) axis o' = Some p"
    show "emitting d (channel axis) (Some p)"
    proof (cases "map_of poses axis")
      case None
      then have "channel axis \<notin> fst ` set channels"
        using collected_channels [OF ch] by (force simp: map_of_eq_None_iff channel_inj)
      then show ?thesis using keep pose a None by (simp add: grippers_pose_def map_add_def)
    next
      case (Some o'')
      then have "(axis, o') \<in> set poses" using a(2) by (auto dest: map_of_SomeD)
      then show ?thesis using set_emits [OF d(1)] collected_pulse [OF ch] a(3) by blast
    qed
  qed
  ultimately show ?thesis using SetGrippers d by simp
qed (use axis run rest pose in simp_all)

lemma plan_leaves:
  assumes "list_all axis_step plan" "drive E plan r = Finished r'"
    "rails_rest emitting (rt_output r)" "grippers_pose emitting (rt_calibration r) g (rt_output r)"
  shows "rails_rest emitting (rt_output r') \<and> grippers_pose emitting (rt_calibration r) (posed plan g) (rt_output r') \<and>
    rt_calibration r' = rt_calibration r"
  using assms
proof (induction plan arbitrary: r g)
  case (Cons x plan)
  obtain r1 where r1: "drive_step E x r = Finished r1" "drive E plan r1 = Finished r'"
    using Cons.prems(2) by (auto simp: on_finish_eq_Finished)
  have "rails_rest emitting (rt_output r1) \<and> grippers_pose emitting (rt_calibration r) (posed [x] g) (rt_output r1) \<and>
      rt_calibration r1 = rt_calibration r"
    using step_leaves [OF _ r1(1)] Cons.prems by simp
  then show ?case
    using Cons.IH [OF _ r1(2), of "posed [x] g"] Cons.prems(1) posed_append [of "[x]" plan g] by simp
qed simp

end

section \<open>Every call leaves the channels of its state\<close>

text \<open>
  The channels of a runtime: in an operational state the rails rest, and the grippers carry the pulses
  of the state's pose; after a reset nothing is driven.
\<close>

definition channels_match :: "('d \<Rightarrow> u8 \<Rightarrow> u16 option \<Rightarrow> bool) \<Rightarrow> ('d, 't) stand_runtime \<Rightarrow> bool" where
  "channels_match emitting r \<longleftrightarrow>
     (operational (rt_state r) \<longrightarrow> rails_rest emitting (rt_output r)) \<and>
     (rt_state r = OutputsOff \<longrightarrow> (\<forall>c < 16. emitting (rt_output r) c None)) \<and>
     (\<forall>g. commanded_grips (rt_state r) (rt_holding_pair r) = Some g \<longrightarrow>
        grippers_pose emitting (rt_calibration r) (all_grips g) (rt_output r))"

lemma faulted_match: "faulted E r \<Longrightarrow> channels_match emitting r"
  by (simp add: faulted_def channels_match_def)

lemma refused_match: "channels_match emitting r \<Longrightarrow> a = Stopped e r \<Longrightarrow> channels_match emitting (runtime_after a)"
  by simp

lemma commanded_simps [simp]:
  "rt_state (set_state st pair r) = st" "rt_holding_pair (set_state st pair r) = pair"
  "rt_output (set_state st pair r) = rt_output r" "rt_calibration (set_state st pair r) = rt_calibration r"
  by (simp_all add: set_state_def)

text \<open>The grippers the plans leave.\<close>

lemma axis_plans:
  "list_all axis_step (pose_plan f)" "list_all axis_step return_plan" "list_all axis_step open_plan"
  "list_all axis_step release_plan"
  by (cases f) (simp_all add: up_down_plan_def return_plan_def open_plan_def release_plan_def is_gripper_def RAILS_def)

lemma axis_next_plan: "next_plan f pair g = Some (plan, pair') \<Longrightarrow> list_all axis_step plan"
  by (cases "(f, pair, g)" rule: next_plan.cases) (auto simp: is_gripper_def RAILS_def)

lemma grips_ext: "(\<And>axis. g axis = h axis) \<Longrightarrow> g = h"
  by (rule ext)

lemmas grips_simps = all_grips_def is_gripper_def map_add_def

lemma posed_release: "posed release_plan Map.empty = all_grips (\<lambda>_. FX)"
proof (rule grips_ext)
  fix axis show "posed release_plan Map.empty axis = all_grips (\<lambda>_. FX) axis"
    by (cases axis) (simp_all add: release_plan_def open_plan_def grips_simps)
qed

lemma posed_pose:
  assumes "commanded_grips (ScanHold f) (Some (pose_holder f)) = Some g"
  shows "posed (pose_plan f) (all_grips (\<lambda>_. FX)) = all_grips g"
proof (rule grips_ext)
  fix axis show "posed (pose_plan f) (all_grips (\<lambda>_. FX)) axis = all_grips g axis"
    using assms by (cases f; cases axis) (auto simp: pose_holder_def up_down_plan_def grips_simps)
qed

lemma posed_next:
  assumes "next_plan f pair f' = Some (plan, pair')" "commanded_grips (ScanHold f) (Some pair) = Some g"
    "commanded_grips (ScanHold f') (Some pair') = Some g'"
  shows "posed plan (all_grips g) = all_grips g'"
proof (rule grips_ext)
  fix axis show "posed plan (all_grips g) axis = all_grips g' axis"
    using assms by (cases "(f, pair, f')" rule: next_plan.cases; cases axis) (auto simp: grips_simps)
qed

lemma posed_return:
  assumes "commanded_grips (ScanHold scan_face.Back) (Some TB) = Some g"
  shows "posed return_plan (all_grips g) = all_grips (\<lambda>_. FX)" "posed (return_plan @ open_plan) (all_grips g) = all_grips (\<lambda>_. FX)"
proof -
  show *: "posed return_plan (all_grips g) = all_grips (\<lambda>_. FX)"
  proof (rule grips_ext)
    fix axis show "posed return_plan (all_grips g) axis = all_grips (\<lambda>_. FX) axis"
      using assms by (cases axis) (auto simp: return_plan_def grips_simps)
  qed
  then show "posed (return_plan @ open_plan) (all_grips g) = all_grips (\<lambda>_. FX)"
    by (simp add: posed_append open_plan_def)
qed

text \<open>A probe move returns the grippers.\<close>

lemma turn_plan_step:
  assumes "is_gripper gripper" "\<not> is_gripper railing"
  shows "list_all axis_step (turn_plan gripper railing turn)"
    and "posed (turn_plan gripper railing turn) (all_grips (\<lambda>_. FX)) = all_grips (\<lambda>_. FX)"
  using assms rail_not_gripper [of railing]
  by (cases turn; auto simp: turn_plan_def all_grips_def map_add_def fun_eq_iff)+

lemma whole_turn_step:
  "list_all axis_step (whole_turn a b)" "posed (whole_turn a b) (all_grips (\<lambda>_. FX)) = all_grips (\<lambda>_. FX)"
  by (auto simp: whole_turn_def is_gripper_def all_grips_def map_add_def fun_eq_iff RAILS_def)

lemma probe_step:
  assumes "baseline_held_steps [m] = Some (plan @ [move_plan_step.MoveCompleted])"
  shows "list_all axis_step plan \<and> posed plan (all_grips (\<lambda>_. FX)) = all_grips (\<lambda>_. FX)"
proof -
  note turns = baseline_turn_plan [of "(LeftGripper, LeftRail)"]
    baseline_turn_plan [of "(RightGripper, RightRail)"] baseline_turn_plan [of "(TopGripper, TopRail)"]
    baseline_turn_plan [of "(BottomGripper, BottomRail)"]
  show ?thesis
    using assms by (cases "mv_face m") (auto simp: baseline_held_steps_def baseline_move_def turns [simplified]
        position_front_back_def restore_front_def turn_plan_step whole_turn_step posed_append is_gripper_def)
qed

context pwm_output
begin

lemma plan_match:
  assumes match: "channels_match emitting r" and op: "operational (rt_state r)" and axis: "list_all axis_step plan"
    and known: "g0 = Map.empty \<or> (\<exists>h. commanded_grips (rt_state r) (rt_holding_pair r) = Some h \<and> g0 = all_grips h)"
    and reach: "\<And>g. commanded_grips st pair = Some g \<Longrightarrow> posed plan g0 = all_grips g" and st: "st \<noteq> OutputsOff"
  shows "channels_match emitting (runtime_after (on_finish (drive E plan r) (\<lambda>r. Finished (set_state st pair r))))"
proof (cases "drive E plan r")
  case (Stopped e r')
  then have "faulted E r'" using drive_outcome [OF axis_motor [OF axis], of E r] by (simp add: motion_outcome_def)
  then show ?thesis using Stopped by (simp add: faulted_match)
next
  case (Finished r')
  have "rails_rest emitting (rt_output r)" "grippers_pose emitting (rt_calibration r) g0 (rt_output r)"
    using match op known by (auto simp: channels_match_def grippers_pose_def)
  then have "rails_rest emitting (rt_output r') \<and> grippers_pose emitting (rt_calibration r) (posed plan g0) (rt_output r') \<and>
      rt_calibration r' = rt_calibration r"
    by (rule plan_leaves [OF axis Finished])
  then show ?thesis using Finished reach st by (auto simp: channels_match_def)
qed

lemma reset_match: "channels_match emitting (runtime_after (reset E r))"
proof -
  obtain ok d where d: "pwm_all_off E (rt_output r) = (ok, d)" by fastforce
  show ?thesis
  proof (cases ok)
    case True
    then have all: "emitting d c None" if "c < 16" for c
      using off_stops d that by simp
    then have "rails_rest emitting d" by (simp add: rails_rest_def channel_lt)
    then show ?thesis using True d all by (simp add: reset_def channels_match_def)
  next
    case False
    then show ?thesis using d by (auto simp: reset_def Let_def fault_def channels_match_def split: prod.split)
  qed
qed

lemma safe_open_match:
  assumes "channels_match emitting r"
  shows "channels_match emitting (runtime_after (safe_open E r))"
proof (cases "operational (rt_state r)")
  case True
  show ?thesis
    unfolding safe_open_drive [OF True]
    by (rule plan_match [OF assms True axis_plans(4), of Map.empty]) (auto simp: posed_release)
qed (simp add: safe_open_refused assms)

lemma close_match:
  assumes "channels_match emitting r" "rt_state r = SafeOpen"
  shows "channels_match emitting (runtime_after (on_finish (move_all_rails E NearGrip r) (\<lambda>r. Finished (set_state Gripped None r))))"
proof (cases "move_all_rails E NearGrip r")
  case (Stopped e r')
  then have "faulted E r'" using move_all_rails_halts [of E NearGrip r] by (simp add: halts_safely_def)
  then show ?thesis using Stopped by (simp add: faulted_match)
next
  case (Finished r')
  have drives: "move_all_rails E NearGrip r = drive_rails E RAILS NearGrip r"
    by (simp add: move_all_rails_def drive_rails_def rail_channels_def rail_channel_ids_all_def)
  have "rails_rest emitting (rt_output r)" "grippers_pose emitting (rt_calibration r) (all_grips (\<lambda>_. FX)) (rt_output r)"
    using assms by (auto simp: channels_match_def)
  from rails_leave [OF _ Finished [unfolded drives] this] show ?thesis
    using Finished by (auto simp: channels_match_def)
qed

lemma grip_match:
  assumes "channels_match emitting r"
  shows "channels_match emitting (runtime_after (grip_cube E r))"
proof (cases "\<exists>f. rt_state r = ScanHold f")
  case True
  then show ?thesis using assms by (auto simp: grip_cube_def)
next
  case False
  define a where "a = (if rt_state r \<noteq> SafeOpen then safe_open E r else Finished r)"
  have run: "grip_cube E r = on_finish a (\<lambda>r. on_finish (move_all_rails E NearGrip r) (\<lambda>r. Finished (set_state Gripped None r)))"
    using False by (auto simp: grip_cube_def a_def split: commanded_stand_state.split)
  have match: "channels_match emitting (runtime_after a)"
    using safe_open_match [OF assms] assms by (simp add: a_def)
  show ?thesis
  proof (cases a)
    case (Finished r')
    have "rt_state r' = SafeOpen"
      using Finished by (cases "operational (rt_state r)")
        (auto simp: a_def safe_open_drive safe_open_refused on_finish_eq_Finished split: if_splits)
    then show ?thesis using close_match match Finished run by simp
  qed (use match run in simp)
qed

lemma scan_pose_match:
  assumes "channels_match emitting r"
  shows "channels_match emitting (runtime_after (scan_pose_op E f r))"
proof (cases "rt_state r = Gripped")
  case True
  show ?thesis
    unfolding scan_pose_drive [OF True]
    by (rule plan_match [OF assms _ axis_plans(1), of "all_grips (\<lambda>_. FX)"]) (use True posed_pose in auto)
qed (simp add: scan_pose_op_def assms)

lemma scan_next_match:
  assumes "channels_match emitting r" "pose_ok (rt_state r) (rt_holding_pair r)"
  shows "channels_match emitting (runtime_after (scan_next E f' r))"
proof (cases rule: scan_next_cases [of r f' _ E])
  case (step f pair plan pair')
  obtain g where g: "commanded_grips (ScanHold f) (Some pair) = Some g"
    using assms(2) step(1,2) by (auto simp: pose_ok_def)
  show ?thesis
    unfolding scan_next_drive [OF step]
    by (rule plan_match [OF assms(1) _ axis_next_plan [OF step(3)], of "all_grips g"])
       (use step g posed_next [OF step(3) g] in auto)
qed (simp add: assms)

lemma finish_match:
  assumes "channels_match emitting r"
  shows "channels_match emitting (runtime_after (finish_scan E r))"
    "channels_match emitting (runtime_after (finish_scan_for_execution E r))"
proof -
  have "channels_match emitting (runtime_after (finish_scan E r)) \<and>
      channels_match emitting (runtime_after (finish_scan_for_execution E r))"
  proof (cases "rt_state r = ScanHold scan_face.Back \<and> rt_holding_pair r = Some TB")
    case True
    then have st: "rt_state r = ScanHold scan_face.Back" "rt_holding_pair r = Some TB" by simp_all
    obtain g where g: "commanded_grips (ScanHold scan_face.Back) (Some TB) = Some g" by auto
    have axis: "list_all axis_step (return_plan @ open_plan)" by (simp add: axis_plans)
    have "channels_match emitting (runtime_after (finish_scan E r))"
      unfolding finish_drive(1) [OF st]
      by (rule plan_match [OF assms _ axis, of "all_grips g"]) (use st g posed_return(2) [OF g] in auto)
    moreover have "channels_match emitting (runtime_after (finish_scan_for_execution E r))"
      unfolding finish_drive(2) [OF st]
      by (rule plan_match [OF assms _ axis_plans(2), of "all_grips g"]) (use st g posed_return(1) [OF g] in auto)
    ultimately show ?thesis by simp
  qed (simp add: finish_refused assms)
  then show "channels_match emitting (runtime_after (finish_scan E r))"
    "channels_match emitting (runtime_after (finish_scan_for_execution E r))" by simp_all
qed

lemma probe_match:
  assumes "channels_match emitting r"
  shows "channels_match emitting (runtime_after (execute_probe_move E m r))"
proof (cases "rt_state r = Gripped")
  case True
  then obtain plan where plan: "baseline_held_steps [m] = Some (plan @ [move_plan_step.MoveCompleted])"
      "execute_probe_move E m r = on_finish (drive E plan r) (\<lambda>r. Finished (set_state Gripped None r))"
    using execute_probe_move_drive by blast
  show ?thesis
    unfolding plan(2)
    by (rule plan_match [OF assms, of _ "all_grips (\<lambda>_. FX)"]) (use True probe_step [OF plan(1)] in auto)
qed (simp add: execute_probe_move_def assms)

lemma call_match:
  assumes "channels_match emitting r" "pose_ok (rt_state r) (rt_holding_pair r)"
  shows "channels_match emitting (runtime_after (run_call E c r))"
  using assms by (cases c) (simp_all add: off_def reset_match safe_open_match grip_match scan_pose_match
      scan_next_match finish_match probe_match)

lemma reach_match: "runtime_reach E r \<Longrightarrow> channels_match emitting r"
proof (induction rule: runtime_reach.induct)
  case (start d c t)
  then show ?case by (simp add: with_delay_def channels_match_def)
next
  case (call r c)
  then show ?case using call_match runtime_reach_pose by blast
qed

end

end
