(* ===== verification/PwmDriver.thy ===== *)
theory PwmDriver
  imports Pca9685 PwmOutputs
begin

unbundle bit_operations_syntax

text \<open>
  The driver of \<open>Pca9685\<close> implements the trait of \<open>PwmOutputs\<close> on every device whose registers behave as
  the data sheet says (locale \<open>led_chip\<close>, a sublocale of \<open>pwm_output\<close>), for instance on the register file
  \<open>register_file\<close>; so the registers follow the commanded state of the stand.
\<close>

section \<open>Loops of register writes\<close>

lemma pca_then_Inr: "pca_then a f = (Inr y, b') \<longleftrightarrow> (\<exists>x b. a = (Inr x, b) \<and> f x b = (Inr y, b'))"
  by (auto simp: pca_then_def split: prod.splits sum.splits)

lemma pca_then_keeps:
  assumes "Q (snd a)" "\<And>x b. Q b \<Longrightarrow> Q (snd (f x b))"
  shows "Q (snd (pca_then a f))"
  using assms by (auto simp: pca_then_def split: prod.splits sum.splits)

lemma pca_each_keeps:
  assumes "\<And>x b. x \<in> set xs \<Longrightarrow> Q b \<Longrightarrow> Q (snd (f x b))"
  shows "Q b \<Longrightarrow> Q (snd (pca_each f xs b))"
  using assms
proof (induction xs arbitrary: b)
  case (Cons x xs)
  have "Q (snd (pca_each f xs b'))" if "Q b'" for b'
    by (rule Cons.IH [OF that]) (simp add: Cons.prems(2))
  then show ?case
    using Cons.prems pca_then_keeps [of Q "f x b" "\<lambda>_. pca_each f xs"] by simp
qed simp

lemma pca_each_succeeds_keeps:
  assumes "\<And>x b b'. x \<in> set xs \<Longrightarrow> f x b = (Inr (), b') \<Longrightarrow> Q b \<Longrightarrow> Q b'"
  shows "pca_each f xs b = (Inr (), b') \<Longrightarrow> Q b \<Longrightarrow> Q b'"
  using assms
proof (induction xs arbitrary: b)
  case (Cons y xs)
  then obtain b1 where "f y b = (Inr (), b1)" "pca_each f xs b1 = (Inr (), b')"
    by (auto simp: pca_then_Inr)
  then show ?case using Cons.IH [of b1] Cons.prems(2,3) by (metis list.set_intros)
qed simp

text \<open>What each step makes of \<open>R\<close> and the steps for the other elements keep.\<close>

lemma pca_each_all:
  assumes "\<And>x b b'. x \<in> set xs \<Longrightarrow> f x b = (Inr (), b') \<Longrightarrow> R x b \<Longrightarrow> S x b'"
    and "\<And>x y b b'. x \<in> set xs \<Longrightarrow> y \<in> set xs \<Longrightarrow> x \<noteq> y \<Longrightarrow> f y b = (Inr (), b') \<Longrightarrow> R x b \<Longrightarrow> R x b'"
    and "\<And>x y b b'. x \<in> set xs \<Longrightarrow> y \<in> set xs \<Longrightarrow> x \<noteq> y \<Longrightarrow> f y b = (Inr (), b') \<Longrightarrow> S x b \<Longrightarrow> S x b'"
  shows "distinct xs \<Longrightarrow> pca_each f xs b = (Inr (), b') \<Longrightarrow> (\<And>x. x \<in> set xs \<Longrightarrow> R x b) \<Longrightarrow>
    x \<in> set xs \<Longrightarrow> S x b'"
  using assms
proof (induction xs arbitrary: b x)
  case (Cons y xs)
  obtain b1 where b1: "f y b = (Inr (), b1)" "pca_each f xs b1 = (Inr (), b')"
    using Cons.prems(2) by (auto simp: pca_then_Inr)
  show ?case
  proof (cases "x \<in> set xs")
    case True
    have R: "R z b1" if "z \<in> set xs" for z
      using Cons.prems(6) [of z y b b1] Cons.prems(1,3) b1(1) that by auto
    show ?thesis
      by (rule Cons.IH [OF _ b1(2) R True Cons.prems(5) Cons.prems(6) Cons.prems(7)])
         (use Cons.prems(1) in auto)
  next
    case False
    then have x: "x = y" using Cons.prems(4) by simp
    then have "S x b1" using Cons.prems(3,5) b1(1) by auto
    show ?thesis
    proof (rule pca_each_succeeds_keeps [where Q = "S x", OF _ b1(2) \<open>S x b1\<close>])
      fix z b2 b3 assume "z \<in> set xs" "f z b2 = (Inr (), b3)" "S x b2"
      then show "S x b3" using Cons.prems(1,7) x by auto
    qed
  qed
qed simp

section \<open>Registers\<close>

definition led_register :: "u8 \<Rightarrow> bool" where
  "led_register r \<longleftrightarrow> 6 \<le> r \<and> r < 70"

text \<open>
  The data sheet: a read yields the register and leaves all of them; a write to a register of a
  channel sets it and leaves the others, a failed one leaves the others; a write to another register
  leaves the others too, save that the four for all channels reach the channels; time leaves them.
\<close>

definition led_registers :: "'b i2c_env \<Rightarrow> ('b \<Rightarrow> u8 \<Rightarrow> u8) \<Rightarrow> bool" where
  "led_registers E reg \<longleftrightarrow>
     (\<forall>b r. reg (snd (i2c_read E b r)) = reg b \<and> (\<forall>v. fst (i2c_read E b r) = Some v \<longrightarrow> v = reg b r)) \<and>
     (\<forall>b r v. led_register r \<longrightarrow> (\<forall>q. q \<noteq> r \<longrightarrow> reg (snd (i2c_write E b r v)) q = reg b q) \<and>
        (fst (i2c_write E b r v) \<longrightarrow> reg (snd (i2c_write E b r v)) r = v)) \<and>
     (\<forall>b r v q. \<not> led_register r \<and> q \<noteq> r \<and> (led_register q \<longrightarrow> r \<notin> {ALL_LED_ON_L, ALL_LED_ON_H, ALL_LED_OFF_L, ALL_LED_OFF_H}) \<longrightarrow>
        reg (snd (i2c_write E b r v)) q = reg b q) \<and>
     (\<forall>b n. reg (i2c_sleep E n b) = reg b)"

text \<open>The cast of a tick count: truncation, so that counts below 4096 stay below it.\<close>

definition ticks_cast :: "'f f64_ops \<Rightarrow> bool" where
  "ticks_cast F \<longleftrightarrow> (\<forall>x. d_le F (d_lit F 1) x \<and> d_less F x (PWM_STEPS F) \<longrightarrow> d_as_u16 F x < 4096)"

definition rate :: "'f f64_ops \<Rightarrow> u8 \<Rightarrow> 'f" where
  "rate F p = pwm_hz F \<lparr> ps_mode1 = 0, ps_mode2 = 0, ps_prescale = p \<rparr>"

text \<open>Channel \<open>c\<close> is switched off, or carries the pulse \<open>p\<close> at the rate of the prescaler.\<close>

fun emits :: "'f f64_ops \<Rightarrow> ('b \<Rightarrow> u8 \<Rightarrow> u8) \<Rightarrow> 'b \<Rightarrow> u8 \<Rightarrow> u16 option \<Rightarrow> bool" where
  "emits F reg b c None = (c < 16 \<and> reg b (channel_base c + 3) AND FULL_OFF \<noteq> 0)"
| "emits F reg b c (Some p) = (c < 16 \<and> (\<exists>t. pulse_ticks F p (rate F (reg b PRESCALE)) = Inr t \<and>
     reg b (channel_base c) = 0 \<and> reg b (channel_base c + 1) = 0 \<and>
     reg b (channel_base c + 2) = ucast (t AND 0xff) \<and> reg b (channel_base c + 3) = ucast (drop_bit 8 t) \<and>
     reg b (channel_base c + 3) AND FULL_OFF = 0))"

lemma channel_base_unat:
  assumes "c < 16" "k < 4"
  shows "unat (channel_base c + k) = 6 + 4 * unat c + unat k"
proof -
  have "unat c < 16" "unat k < 4" using assms by (simp_all add: word_less_nat_alt)
  then have "unat (of_nat (6 + 4 * unat c + unat k) :: u8) = 6 + 4 * unat c + unat k"
    by (subst unat_of_nat) simp
  moreover have "channel_base c + k = of_nat (6 + 4 * unat c + unat k)"
    by (simp add: channel_base_def pca_consts)
  ultimately show ?thesis by metis
qed

lemma channel_register:
  assumes "c < 16" "k < 4"
  shows "led_register (channel_base c + k)"
  using assms channel_base_unat [OF assms]
  by (auto simp: led_register_def word_less_nat_alt word_le_nat_alt)

lemma channel_registers_differ:
  assumes "c < 16" "k < 4" "c' < 16" "k' < 4" "channel_base c + k = channel_base c' + k'"
  shows "c = c' \<and> k = k'"
proof -
  have "6 + 4 * unat c + unat k = 6 + 4 * unat c' + unat k'"
    using channel_base_unat [of c k] channel_base_unat [of c' k'] assms by simp
  moreover have "unat k < 4" "unat k' < 4" using assms by (simp_all add: word_less_nat_alt)
  ultimately have "unat c = unat c' \<and> unat k = unat k'" by presburger
  then show ?thesis by (simp add: word_unat_eq_iff)
qed

lemma not_led_PRESCALE: "\<not> led_register PRESCALE" "\<not> led_register MODE1"
  by (simp_all add: led_register_def pca_consts)

lemma validated_pulses:
  "validate_pulses before cs = Inr () \<Longrightarrow> distinct (map fst cs) \<and> fst ` set cs \<inter> fst ` set before = {} \<and> (\<forall>c \<in> set cs. fst c < 16)"
proof (induction before cs rule: validate_pulses.induct)
  case (2 before channel pulse_us cs)
  then have "distinct (map fst cs) \<and> fst ` set cs \<inter> fst ` set (before @ [(channel, pulse_us)]) = {} \<and>
      (\<forall>c \<in> set cs. fst c < 16)" "channel < 16" "channel \<notin> fst ` set before"
    by (auto simp: pca_consts list_ex_iff split: if_splits)
  then show ?case by auto
qed simp

lemma validated_ids:
  "validate_ids before cs = Inr () \<Longrightarrow> distinct cs \<and> set cs \<inter> set before = {} \<and> (\<forall>c \<in> set cs. c < 16)"
proof (induction before cs rule: validate_ids.induct)
  case (2 before channel cs)
  then have "distinct cs \<and> set cs \<inter> set (before @ [channel]) = {} \<and> (\<forall>c \<in> set cs. c < 16)"
    "channel < 16" "channel \<notin> set before"
    by (auto simp: pca_consts split: if_splits)
  then show ?case by auto
qed simp

lemma validated_channels:
  assumes "validate_channels cs = Inr u"
  shows "distinct (map fst cs)" "c \<in> set cs \<Longrightarrow> fst c < 16"
  using assms validated_pulses [of "[]" cs] by (auto simp: validate_channels_def split: if_splits)

section \<open>The driver implements the trait\<close>

text \<open>\<open>impl PwmOutput for Pca9685\<close>.\<close>

definition pca_result :: "(unit, 'b) driven \<Rightarrow> bool \<times> 'b" where
  "pca_result a = (case a of (Inl e, b) \<Rightarrow> (False, b) | (Inr u, b) \<Rightarrow> (True, b))"

definition pca_output :: "'b i2c_env \<Rightarrow> 'f f64_ops \<Rightarrow> ('t \<Rightarrow> nat \<Rightarrow> 't) \<Rightarrow> ('b, 't) runtime_env" where
  "pca_output I F wait = \<lparr> pwm_set_channels = (\<lambda>b channels. pca_result (pca_set_channels I F channels b)),
     pwm_disable_channels = (\<lambda>b ids. pca_result (pca_disable_channels I ids b)),
     pwm_all_off = (\<lambda>b. pca_result (pca_all_off I b)), delay_sleep = wait \<rparr>"

lemma pca_result_simps [simp]:
  "snd (pca_result a) = snd a" "pca_result a = (True, b) \<longleftrightarrow> a = (Inr (), b)"
  by (auto simp: pca_result_def split: prod.splits sum.splits)

lemma emits_same:
  assumes "\<And>k. k < 4 \<Longrightarrow> reg b' (channel_base c + k) = reg b (channel_base c + k)" "reg b' PRESCALE = reg b PRESCALE"
  shows "emits F reg b' c v = emits F reg b c v"
  using assms(2) assms(1) [of 0] assms(1) [of 1] assms(1) [of 2] assms(1) [of 3] by (cases v) auto

lemma ticks_high:
  fixes t :: u16
  assumes "t < 4096"
  shows "(ucast (drop_bit 8 t) :: u8) AND FULL_OFF = 0"
proof -
  have "unat t < 4096" using assms by (simp add: word_less_nat_alt)
  then have "take_bit 12 t = t"
    by (simp add: word_unat_eq_iff unsigned_take_bit_eq take_bit_nat_eq_self)
  then have "\<not> bit t 12" by (metis bit_take_bit_iff less_irrefl)
  then have "\<not> bit (ucast (drop_bit 8 t) :: u8) 4"
    by (simp add: bit_simps)
  then have "(ucast (drop_bit 8 t) :: u8) AND 2 ^ 4 = 0" by (rule iffD2 [OF and_exp_eq_0_iff_not_bit])
  moreover have "(2::u8) ^ 4 = FULL_OFF" by (simp add: FULL_OFF_def)
  ultimately show ?thesis by metis
qed

locale led_chip =
  fixes I :: "'b i2c_env" and reg :: "'b \<Rightarrow> u8 \<Rightarrow> u8" and F :: "'f f64_ops" and wait :: "'t \<Rightarrow> nat \<Rightarrow> 't"
  assumes registers: "led_registers I reg" and cast: "ticks_cast F"
begin

lemma write_other:
  "led_register r \<Longrightarrow> q \<noteq> r \<Longrightarrow> reg (snd (pca_write_byte I r v w b)) q = reg b q"
  using registers by (auto simp: led_registers_def pca_write_byte_def split: prod.split)
    (metis prod.collapse snd_conv)

lemma write_sets:
  assumes "led_register r" "pca_write_byte I r v w b = (Inr (), b')"
  shows "reg b' r = v \<and> (\<forall>q. q \<noteq> r \<longrightarrow> reg b' q = reg b q)"
proof -
  have "i2c_write I b r v = (True, b')"
    using assms(2) by (auto simp: pca_write_byte_def split: prod.splits if_splits)
  then show ?thesis using registers assms(1) unfolding led_registers_def by (metis fst_conv snd_conv)
qed

lemma channel_write:
  assumes "x < 16" "k < 4" "pca_write_byte I (channel_base x + k) v w b = (Inr (), b')"
  shows "reg b' (channel_base x + k) = v" "reg b' PRESCALE = reg b PRESCALE"
    "c < 16 \<Longrightarrow> j < 4 \<Longrightarrow> c \<noteq> x \<or> j \<noteq> k \<Longrightarrow> reg b' (channel_base c + j) = reg b (channel_base c + j)"
proof -
  note sets = write_sets [OF channel_register [OF assms(1,2)] assms(3)]
  show "reg b' (channel_base x + k) = v" using sets by simp
  show "reg b' PRESCALE = reg b PRESCALE"
    using sets not_led_PRESCALE channel_register [OF assms(1,2)] by metis
  show "reg b' (channel_base c + j) = reg b (channel_base c + j)" if "c < 16" "j < 4" "c \<noteq> x \<or> j \<noteq> k"
    using sets channel_registers_differ [OF that(1,2) assms(1,2)] that(3) by metis
qed

lemma write_keeps:
  assumes "emits F reg b c v" "x \<noteq> c" "x < 16" "k < 4"
  shows "emits F reg (snd (pca_write_byte I (channel_base x + k) u w b)) c v"
proof -
  have c: "c < 16" using assms(1) by (cases v) auto
  note other = write_other [OF channel_register [OF assms(3,4)]]
  have "reg (snd (pca_write_byte I (channel_base x + k) u w b)) (channel_base c + j) = reg b (channel_base c + j)" if "j < 4" for j
    by (rule other) (use channel_registers_differ [OF c that assms(3,4)] assms(2) in auto)
  moreover have "reg (snd (pca_write_byte I (channel_base x + k) u w b)) PRESCALE = reg b PRESCALE"
    by (rule other) (use not_led_PRESCALE channel_register [OF assms(3,4)] in metis)
  ultimately show ?thesis using emits_same [where b = b] assms(1) by metis
qed

lemma base_keeps:
  assumes "emits F reg b c v" "x \<noteq> c" "x < 16"
  shows "emits F reg (snd (pca_write_byte I (channel_base x) u w b)) c v"
  using write_keeps [OF assms, of 0] by simp

lemma disable_step_keeps:
  "emits F reg b c v \<Longrightarrow> x \<noteq> c \<Longrightarrow> x < 16 \<Longrightarrow> emits F reg (snd (disable_channel I w x b)) c v"
  by (simp add: disable_channel_def write_keeps)

lemma then_keeps:
  "emits F reg (snd a) c v \<Longrightarrow> (\<And>x b. emits F reg b c v \<Longrightarrow> emits F reg (snd (f x b)) c v) \<Longrightarrow>
     emits F reg (snd (pca_then a f)) c v"
  by (rule pca_then_keeps [where Q = "\<lambda>b. emits F reg b c v"])

lemma pulse_step_keeps:
  assumes keep: "emits F reg b c v" and x: "fst x \<noteq> c" "fst x < 16"
  shows "emits F reg (snd (write_pulse I F hz x b)) c v" "emits F reg (snd (enable_pulse I F hz x b)) c v"
proof -
  have "emits F reg (snd (pca_then (pca_write_byte I (channel_base (fst x)) 0 w0 b) (\<lambda>_ b.
      pca_then (pca_write_byte I (channel_base (fst x) + 1) 0 w1 b) (\<lambda>_ b.
        pca_write_byte I (channel_base (fst x) + 2) u w2 b)))) c v" for w0 w1 w2 u
    using x by (intro then_keeps base_keeps write_keeps keep) simp_all
  then show "emits F reg (snd (write_pulse I F hz x b)) c v"
    using keep by (simp add: write_pulse_def Let_def split: sum.split)
  show "emits F reg (snd (enable_pulse I F hz x b)) c v"
    using keep x by (simp add: enable_pulse_def write_keeps split: sum.split)
qed

lemma read_keeps: "reg (snd (read_byte I r w b)) = reg b"
  using registers by (auto simp: led_registers_def read_byte_def split: prod.split option.split)
    (metis prod.collapse snd_conv)+

lemma read_value: "read_byte I r w b = (Inr v, b') \<Longrightarrow> v = reg b r \<and> reg b' = reg b"
  using registers unfolding led_registers_def
  by (auto simp: read_byte_def split: prod.splits option.splits) (metis fst_conv snd_conv)+

lemma reg_then: "reg (snd a) = q \<Longrightarrow> (\<And>x b. reg b = q \<Longrightarrow> reg (snd (f x b)) = q) \<Longrightarrow> reg (snd (pca_then a f)) = q"
  by (rule pca_then_keeps [where Q = "\<lambda>b. reg b = q"])

lemma status_keeps: "reg (snd (pca_read_status I b)) = reg b"
  by (auto simp: pca_read_status_def read_keeps intro!: reg_then)

lemma status_value:
  "pca_read_status I b = (Inr st, b') \<Longrightarrow> ps_prescale st = reg b PRESCALE \<and> reg b' = reg b"
  by (auto simp: pca_read_status_def pca_then_Inr dest!: read_value)

lemma ready_keeps: "reg (snd (ready_status I F b)) = reg b"
  by (auto simp: ready_status_def status_keeps intro!: reg_then)

lemma ready_value:
  assumes "ready_status I F b = (Inr st, b')"
  shows "pwm_hz F st = rate F (reg b PRESCALE) \<and> reg b' = reg b"
proof -
  have "pca_read_status I b = (Inr st, b')"
    using assms by (auto simp: ready_status_def pca_then_Inr split: if_splits)
  then show ?thesis using status_value by (fastforce simp: rate_def pwm_hz_def)
qed

lemma each_keeps:
  "(\<And>x b. x \<in> set xs \<Longrightarrow> emits F reg b c v \<Longrightarrow> emits F reg (snd (f x b)) c v) \<Longrightarrow> emits F reg b c v \<Longrightarrow>
     emits F reg (snd (pca_each f xs b)) c v"
  by (rule pca_each_keeps [where Q = "\<lambda>b. emits F reg b c v"])

lemma write_channels_keeps:
  assumes "emits F reg b c v" "c \<notin> fst ` set channels"
  shows "emits F reg (snd (write_channels I F channels hz b)) c v"
proof (cases "validate_channels channels")
  case (Inr u)
  have x: "fst x \<noteq> c" "fst x < 16" if "x \<in> set channels" for x
    using validated_channels(2) [OF Inr that] assms(2) that by auto
  have "emits F reg (snd (pca_then (pca_each (\<lambda>c. disable_channel I w (fst c)) channels b) (\<lambda>_ b.
      pca_then (pca_each (write_pulse I F hz) channels b) (\<lambda>_ b. pca_each (enable_pulse I F hz) channels b)))) c v" for w
    by (intro then_keeps each_keeps disable_step_keeps pulse_step_keeps x assms(1))
  then show ?thesis by (simp add: write_channels_def Inr)
qed (simp add: write_channels_def assms)

text \<open>The pulse of a channel, before and after it is enabled.\<close>

definition pulse_ready :: "'f \<Rightarrow> u8 \<times> u16 \<Rightarrow> 'b \<Rightarrow> bool" where
  "pulse_ready hz x b \<longleftrightarrow> (\<exists>t. pulse_ticks F (snd x) hz = Inr t \<and> reg b (channel_base (fst x)) = 0 \<and>
     reg b (channel_base (fst x) + 1) = 0 \<and> reg b (channel_base (fst x) + 2) = ucast (t AND 0xff))"

definition pulse_enabled :: "'f \<Rightarrow> u8 \<times> u16 \<Rightarrow> 'b \<Rightarrow> bool" where
  "pulse_enabled hz x b \<longleftrightarrow> pulse_ready hz x b \<and>
     (\<forall>t. pulse_ticks F (snd x) hz = Inr t \<longrightarrow> reg b (channel_base (fst x) + 3) = ucast (drop_bit 8 t))"

lemma write_pulse_steps:
  assumes "fst x < 16" "write_pulse I F hz x b = (Inr (), b')"
  shows "pulse_ready hz x b'" "reg b' PRESCALE = reg b PRESCALE"
    "c < 16 \<Longrightarrow> j < 4 \<Longrightarrow> c \<noteq> fst x \<Longrightarrow> reg b' (channel_base c + j) = reg b (channel_base c + j)"
proof -
  obtain t w0 w1 w2 b1 b2 where t: "pulse_ticks F (snd x) hz = Inr t"
    and w: "pca_write_byte I (channel_base (fst x) + 0) 0 w0 b = (Inr (), b1)"
      "pca_write_byte I (channel_base (fst x) + 1) 0 w1 b1 = (Inr (), b2)"
      "pca_write_byte I (channel_base (fst x) + 2) (ucast (t AND 0xff)) w2 b2 = (Inr (), b')"
    using assms(2) by (auto simp: write_pulse_def Let_def pca_then_Inr split: sum.splits)
  have k: "(0::u8) < 4" "(1::u8) < 4" "(2::u8) < 4" by simp_all
  note w1 = channel_write [OF assms(1) k(1) w(1)]
  note w2 = channel_write [OF assms(1) k(2) w(2)]
  note w3 = channel_write [OF assms(1) k(3) w(3)]
  show "pulse_ready hz x b'"
    using t w1(1) w2(1) w3(1) w2(3) [OF assms(1) k(1)] w3(3) [OF assms(1) k(1)] w3(3) [OF assms(1) k(2)]
    by (simp add: pulse_ready_def)
  show "reg b' PRESCALE = reg b PRESCALE" using w1(2) w2(2) w3(2) by simp
  show "reg b' (channel_base c + j) = reg b (channel_base c + j)" if "c < 16" "j < 4" "c \<noteq> fst x"
    using w1(3) w2(3) w3(3) that by simp
qed

lemma enable_pulse_steps:
  assumes "fst x < 16" "enable_pulse I F hz x b = (Inr (), b')"
  shows "pulse_ready hz x b \<Longrightarrow> pulse_enabled hz x b'" "reg b' PRESCALE = reg b PRESCALE"
    "c < 16 \<Longrightarrow> j < 4 \<Longrightarrow> c \<noteq> fst x \<Longrightarrow> reg b' (channel_base c + j) = reg b (channel_base c + j)"
proof -
  obtain t w where t: "pulse_ticks F (snd x) hz = Inr t"
    and w: "pca_write_byte I (channel_base (fst x) + 3) (ucast (drop_bit 8 t)) w b = (Inr (), b')"
    using assms(2) by (auto simp: enable_pulse_def split: sum.splits)
  have k: "(0::u8) < 4" "(1::u8) < 4" "(2::u8) < 4" "(3::u8) < 4" by simp_all
  note wr = channel_write [OF assms(1) k(4) w]
  show "pulse_ready hz x b \<Longrightarrow> pulse_enabled hz x b'"
    using t wr(1) wr(3) [OF assms(1) k(1)] wr(3) [OF assms(1) k(2)] wr(3) [OF assms(1) k(3)]
    by (simp add: pulse_ready_def pulse_enabled_def)
  show "reg b' PRESCALE = reg b PRESCALE" by (rule wr(2))
  show "reg b' (channel_base c + j) = reg b (channel_base c + j)" if "c < 16" "j < 4" "c \<noteq> fst x"
    using wr(3) that by simp
qed

lemma pulse_same:
  assumes "fst x < 16" "\<And>j. j < 4 \<Longrightarrow> reg b' (channel_base (fst x) + j) = reg b (channel_base (fst x) + j)"
  shows "pulse_ready hz x b' = pulse_ready hz x b" "pulse_enabled hz x b' = pulse_enabled hz x b"
  using assms(2) [of 0] assms(2) [of 1] assms(2) [of 2] assms(2) [of 3]
  by (simp_all add: pulse_ready_def pulse_enabled_def)

lemma write_channels_sets:
  assumes run: "write_channels I F channels (rate F p) b = (Inr (), b')" and p: "reg b PRESCALE = p"
    and c: "(c, pulse) \<in> set channels"
  shows "emits F reg b' c (Some pulse)"
proof -
  obtain u where u: "validate_channels channels = Inr u"
    using run by (auto simp: write_channels_def split: sum.splits)
  obtain w b1 b2 where b: "pca_each (\<lambda>c. disable_channel I w (fst c)) channels b = (Inr (), b1)"
      "pca_each (write_pulse I F (rate F p)) channels b1 = (Inr (), b2)"
      "pca_each (enable_pulse I F (rate F p)) channels b2 = (Inr (), b')"
    using run u by (auto simp: write_channels_def pca_then_Inr)
  note valid = validated_channels [OF u]
  have differ: "fst x \<noteq> fst y" if "x \<in> set channels" "y \<in> set channels" "x \<noteq> y" for x y
    using valid(1) that by (metis distinct_map inj_onD)
  have xs: "distinct channels" using valid(1) by (simp add: distinct_map)
  have ready: "pulse_ready (rate F p) x b2" if "x \<in> set channels" for x
  proof (rule pca_each_all [where R = "\<lambda>_ _. True" and S = "pulse_ready (rate F p)", OF _ _ _ xs b(2) _ that])
    fix y b3 b4 assume y: "y \<in> set channels" "write_pulse I F (rate F p) y b3 = (Inr (), b4)"
    then show "pulse_ready (rate F p) y b4" using write_pulse_steps(1) valid(2) by blast
  next
    fix x y b3 b4 assume xy: "x \<in> set channels" "y \<in> set channels" "x \<noteq> y"
      "write_pulse I F (rate F p) y b3 = (Inr (), b4)" "pulse_ready (rate F p) x b3"
    note same = write_pulse_steps(3) [OF valid(2) [OF xy(2)] xy(4) valid(2) [OF xy(1)] _ differ [OF xy(1-3)]]
    show "pulse_ready (rate F p) x b4"
      using xy(5) pulse_same(1) [OF valid(2) [OF xy(1)] same] by metis
  qed simp_all
  have enabled: "pulse_enabled (rate F p) x b'" if "x \<in> set channels" for x
  proof (rule pca_each_all [where R = "pulse_ready (rate F p)" and S = "pulse_enabled (rate F p)", OF _ _ _ xs b(3) ready that])
    fix y b3 b4 assume y: "y \<in> set channels" "enable_pulse I F (rate F p) y b3 = (Inr (), b4)" "pulse_ready (rate F p) y b3"
    then show "pulse_enabled (rate F p) y b4" using enable_pulse_steps(1) valid(2) by blast
  next
    fix x y b3 b4 assume xy: "x \<in> set channels" "y \<in> set channels" "x \<noteq> y"
      "enable_pulse I F (rate F p) y b3 = (Inr (), b4)"
    note same = enable_pulse_steps(3) [OF valid(2) [OF xy(2)] xy(4) valid(2) [OF xy(1)] _ differ [OF xy(1-3)]]
    show "pulse_ready (rate F p) x b3 \<Longrightarrow> pulse_ready (rate F p) x b4"
      using pulse_same(1) [OF valid(2) [OF xy(1)] same] by metis
    show "pulse_enabled (rate F p) x b3 \<Longrightarrow> pulse_enabled (rate F p) x b4"
      using pulse_same(2) [OF valid(2) [OF xy(1)] same] by metis
  qed
  have "reg b1 PRESCALE = p"
    using pca_each_succeeds_keeps [where Q = "\<lambda>b. reg b PRESCALE = p", OF _ b(1) p]
      channel_write(2) [of _ 3] valid(2) by (fastforce simp: disable_channel_def)
  then have "reg b2 PRESCALE = p"
    using pca_each_succeeds_keeps [where Q = "\<lambda>b. reg b PRESCALE = p", OF _ b(2)]
      write_pulse_steps(2) valid(2) by fastforce
  then have pre: "reg b' PRESCALE = p"
    using pca_each_succeeds_keeps [where Q = "\<lambda>b. reg b PRESCALE = p", OF _ b(3)]
      enable_pulse_steps(2) valid(2) by fastforce
  obtain t where t: "pulse_ticks F pulse (rate F p) = Inr t" "reg b' (channel_base c) = 0" "reg b' (channel_base c + 1) = 0"
      "reg b' (channel_base c + 2) = ucast (t AND 0xff)" "reg b' (channel_base c + 3) = ucast (drop_bit 8 t)"
    using enabled [OF c] by (auto simp: pulse_enabled_def pulse_ready_def)
  have "t < 4096"
    using t(1) cast by (auto simp: pulse_ticks_def Let_def ticks_cast_def split: if_splits)
  then have "ucast (drop_bit 8 t) AND FULL_OFF = 0" by (rule ticks_high)
  then show ?thesis using t pre valid(2) [OF c] by simp
qed

lemma disable_sets:
  assumes "c < 16" "disable_channel I w c b = (Inr (), b')"
  shows "emits F reg b' c None"
  using channel_write(1) [of c 3 FULL_OFF w b b'] assms by (simp add: disable_channel_def FULL_OFF_def)

lemma disabled_all:
  assumes "\<And>x. x \<in> set xs \<Longrightarrow> x < 16" "distinct xs" "pca_each (disable_channel I w) xs b = (Inr (), b')" "c \<in> set xs"
  shows "emits F reg b' c None"
proof (rule pca_each_all [where R = "\<lambda>_ _. True" and S = "\<lambda>c b. emits F reg b c None", OF _ _ _ assms(2,3) _ assms(4)])
  fix x b b' assume "x \<in> set xs" "disable_channel I w x b = (Inr (), b')"
  then show "emits F reg b' x None" using assms(1) disable_sets by blast
next
  fix x y b b' assume xy: "x \<in> set xs" "y \<in> set xs" "x \<noteq> y" "disable_channel I w y b = (Inr (), b')" "emits F reg b x None"
  then show "emits F reg b' x None"
    using disable_step_keeps [OF xy(5), of y w] assms(1) by (metis snd_conv)
qed simp_all

lemma force_off_disable:
  "force_all_channels_off I = pca_each (disable_channel I ''disable PCA9685 channel'') [0, 1, 2, 3, 4, 5, 6, 7, 8, 9, 10, 11, 12, 13, 14, 15]"
proof -
  have "map of_nat [0..<unat CHANNEL_COUNT] = ([0, 1, 2, 3, 4, 5, 6, 7, 8, 9, 10, 11, 12, 13, 14, 15] :: u8 list)"
    by (simp add: CHANNEL_COUNT_def upt_rec)
  then show ?thesis by (simp add: force_all_channels_off_def disable_channel_def [abs_def])
qed

lemma small_channel:
  fixes c :: u8
  assumes "c < 16"
  shows "c \<in> set [0, 1, 2, 3, 4, 5, 6, 7, 8, 9, 10, 11, 12, 13, 14, 15]"
proof -
  have "unat c < 16" using assms by (simp add: word_less_nat_alt)
  then have "of_nat (unat c) \<in> (of_nat :: nat \<Rightarrow> u8) ` set [0..<16]" by (intro imageI) simp
  then show ?thesis by (simp add: upt_rec)
qed

lemma force_off:
  assumes "force_all_channels_off I b = (Inr (), b')" "c < 16"
  shows "emits F reg b' c None"
  by (rule disabled_all [OF _ _ assms(1) [unfolded force_off_disable] small_channel [OF assms(2)]]) auto

lemma other_write:
  assumes "\<not> led_register r" "q \<noteq> r" "led_register q \<Longrightarrow> r \<notin> {ALL_LED_ON_L, ALL_LED_ON_H, ALL_LED_OFF_L, ALL_LED_OFF_H}"
  shows "reg (snd (pca_write_byte I r v w b)) q = reg b q"
proof -
  have "reg (snd (i2c_write I b r v)) q = reg b q"
    using registers assms unfolding led_registers_def by blast
  then show ?thesis by (cases "i2c_write I b r v") (simp add: pca_write_byte_def)
qed

lemma mode_write_off:
  assumes "emits F reg b c v" "r = MODE1 \<or> r = PRESCALE \<and> v = None"
  shows "emits F reg (snd (pca_write_byte I r u w b)) c v"
proof -
  have c: "c < 16" using assms(1) by (cases v) auto
  have r: "\<not> led_register r" "r \<notin> {ALL_LED_ON_L, ALL_LED_ON_H, ALL_LED_OFF_L, ALL_LED_OFF_H}"
    using assms(2) not_led_PRESCALE by (auto simp: pca_consts)
  have led: "reg (snd (pca_write_byte I r u w b)) (channel_base c + k) = reg b (channel_base c + k)" if "k < 4" for k
    by (rule other_write) (use r channel_register [OF c that] in auto)
  have "reg (snd (pca_write_byte I r u w b)) PRESCALE = reg b PRESCALE" if "r = MODE1"
    by (rule other_write) (use r that not_led_PRESCALE in \<open>auto simp: pca_consts\<close>)
  then show ?thesis
    using assms led [of 3] c emits_same [of reg "snd (pca_write_byte I r u w b)" c b F v] led by (cases v) auto
qed

lemma wake_off:
  assumes "emits F reg b c None"
  shows "emits F reg (snd (wake_pca I m b)) c None"
proof -
  have sleep: "emits F reg (i2c_sleep I n b) c None = emits F reg b c None" for n b
    using registers by (simp add: led_registers_def)
  show ?thesis
    unfolding wake_pca_def by (intro then_keeps mode_write_off assms sleep [THEN iffD2]) auto
qed

lemma setup_off:
  assumes "c < 16"
  shows "initialize_safe_pwm I F hz b = (Inr st, b') \<Longrightarrow> emits F reg b' c None"
    and "pulse_channels_for I F channels n b = (Inr (), b') \<Longrightarrow> emits F reg b' c None"
proof -
  assume "initialize_safe_pwm I F hz b = (Inr st, b')"
  then obtain b1 b2 b3 b4 p m w where run: "force_all_channels_off I b1 = (Inr (), b2)"
      "pca_write_byte I PRESCALE p w b2 = (Inr (), b3)" "wake_pca I m b3 = (Inr (), b4)" "pca_read_status I b4 = (Inr st, b')"
    by (auto simp: initialize_safe_pwm_def pca_then_Inr split: sum.splits)
  have "emits F reg b2 c None" using force_off [OF run(1) assms] .
  then have "emits F reg b3 c None" using mode_write_off [of b2 c None PRESCALE p w] run(2) by simp
  then have "emits F reg b4 c None" using wake_off [of b3 c m] run(3) by simp
  then show "emits F reg b' c None" using status_value [OF run(4)] by simp
next
  assume "pulse_channels_for I F channels n b = (Inr (), b')"
  then obtain b1 where "force_all_channels_off I b1 = (Inr (), b')"
    by (auto simp: pulse_channels_for_def pca_then_Inr)
  then show "emits F reg b' c None" using force_off assms by blast
qed

lemma prescale_kept:
  assumes "reg b PRESCALE = p" "r \<noteq> PRESCALE"
  shows "reg (snd (pca_write_byte I r u w b)) PRESCALE = p"
proof (cases "led_register r")
  case True
  then show ?thesis using write_other [OF True, of PRESCALE] assms by simp
next
  case False
  then show ?thesis using other_write [OF False, of PRESCALE] assms not_led_PRESCALE by simp
qed

lemma prescale_then:
  "reg (snd a) PRESCALE = p \<Longrightarrow> (\<And>x b. reg b PRESCALE = p \<Longrightarrow> reg (snd (f x b)) PRESCALE = p) \<Longrightarrow>
     reg (snd (pca_then a f)) PRESCALE = p"
  by (rule pca_then_keeps [where Q = "\<lambda>b. reg b PRESCALE = p"])

lemma prescale_force_off: "reg b PRESCALE = p \<Longrightarrow> reg (snd (force_all_channels_off I b)) PRESCALE = p"
proof -
  have "channel_base c + 3 \<noteq> PRESCALE" if "c < 16" for c
    using channel_register [OF that, of 3] not_led_PRESCALE by force
  then show "reg b PRESCALE = p \<Longrightarrow> reg (snd (force_all_channels_off I b)) PRESCALE = p"
    unfolding force_off_disable
    by (intro pca_each_keeps [where Q = "\<lambda>b. reg b PRESCALE = p"]) (auto simp: disable_channel_def intro!: prescale_kept)
qed

lemma prescale_prepare:
  assumes "reg b PRESCALE = p"
  shows "reg (snd (prepare_individual_channel_control I m b)) PRESCALE = p"
proof -
  have sleep: "reg (i2c_sleep I n b) PRESCALE = reg b PRESCALE" for n b
    using registers by (simp add: led_registers_def)
  show ?thesis
    unfolding prepare_individual_channel_control_def clear_global_all_led_control_def wake_pca_def
    by (intro prescale_then prescale_kept prescale_force_off sleep [THEN trans] assms) (simp_all add: pca_consts)
qed

lemma begin_pulses:
  assumes "begin_pulse_channels I F channels b = (Inr (), b')"
  shows "(c, pulse) \<in> set channels \<Longrightarrow> emits F reg b' c (Some pulse)"
    and "c < 16 \<Longrightarrow> c \<notin> fst ` set channels \<Longrightarrow> emits F reg b' c None"
proof -
  obtain st b1 b2 b3 where run: "ready_status I F b = (Inr st, b1)"
      "prepare_individual_channel_control I (ps_mode1 st) b1 = (Inr (), b2)" "force_all_channels_off I b2 = (Inr (), b3)"
      "write_channels I F channels (pwm_hz F st) b3 = (Inr (), b')"
    using assms by (auto simp: begin_pulse_channels_def pca_then_Inr)
  have "reg b3 PRESCALE = reg b PRESCALE"
    using prescale_prepare [of b1 "reg b PRESCALE" "ps_mode1 st"] prescale_force_off [of b2 "reg b PRESCALE"]
      ready_value [OF run(1)] run(2,3) by simp
  then show "(c, pulse) \<in> set channels \<Longrightarrow> emits F reg b' c (Some pulse)"
    using write_channels_sets run(4) ready_value [OF run(1)] by metis
  show "emits F reg b' c None" if "c < 16" "c \<notin> fst ` set channels"
    using write_channels_keeps [OF force_off [OF run(3) that(1)] that(2)] run(4) by (metis snd_conv)
qed

lemma driver_trait: "pwm_output (pca_output I F wait) (emits F reg)"
proof
  fix b b' c v channels ids p
  show "emits F reg (snd (pwm_set_channels (pca_output I F wait) b channels)) c v"
    if "emits F reg b c v" "c \<notin> fst ` set channels"
  proof -
    have same: "emits F reg b1 c v" if "reg b1 = reg b" for b1
      using emits_same [of reg b1 c b F v] that \<open>emits F reg b c v\<close> by simp
    have "emits F reg (snd (pca_set_channels I F channels b)) c v"
      unfolding pca_set_channels_def
      by (rule then_keeps) (use same [OF ready_keeps] write_channels_keeps that(2) in auto)
    then show ?thesis by (simp add: pca_output_def)
  qed
  show "emits F reg b' c (Some p)"
    if run: "pwm_set_channels (pca_output I F wait) b channels = (True, b')" "(c, p) \<in> set channels"
  proof -
    obtain st b1 where "ready_status I F b = (Inr st, b1)" "write_channels I F channels (pwm_hz F st) b1 = (Inr (), b')"
      using run(1) by (auto simp: pca_output_def pca_set_channels_def pca_then_Inr)
    then show ?thesis using ready_value write_channels_sets run(2) by metis
  qed
  show "emits F reg (snd (pwm_disable_channels (pca_output I F wait) b ids)) c v"
    if "emits F reg b c v" "c \<notin> set ids"
  proof (cases "validate_channel_ids ids")
    case (Inr u)
    then have "\<forall>x \<in> set ids. x < 16"
      using validated_ids [of "[]" ids] by (auto simp: validate_channel_ids_def split: if_splits)
    then have "emits F reg (snd (pca_each (disable_channel I w) ids b)) c v" for w
      using that by (intro each_keeps disable_step_keeps) auto
    then show ?thesis by (simp add: pca_output_def pca_disable_channels_def Inr)
  qed (use that in \<open>simp add: pca_output_def pca_disable_channels_def\<close>)
  show "emits F reg b' c None"
    if stop: "pwm_disable_channels (pca_output I F wait) b ids = (True, b')" "c \<in> set ids"
  proof -
    obtain u w where u: "validate_channel_ids ids = Inr u" and run: "pca_each (disable_channel I w) ids b = (Inr (), b')"
      using stop(1) by (auto simp: pca_output_def pca_disable_channels_def split: sum.splits)
    have "distinct ids \<and> (\<forall>x \<in> set ids. x < 16)"
      using u validated_ids [of "[]" ids] by (auto simp: validate_channel_ids_def split: if_splits)
    then show ?thesis using disabled_all [OF _ _ run stop(2)] by blast
  qed
  show "emits F reg b' c None" if "pwm_all_off (pca_output I F wait) b = (True, b')" "c < 16"
    using force_off that by (simp add: pca_output_def pca_all_off_def)
qed

end

sublocale led_chip \<subseteq> driver: pwm_output "pca_output I F wait" "emits F reg"
  by (rule driver_trait)

section \<open>A register file\<close>

text \<open>A device with the registers of the data sheet, and tick arithmetic on integers.\<close>

definition file_write :: "(u8 \<Rightarrow> u8) \<Rightarrow> u8 \<Rightarrow> u8 \<Rightarrow> u8 \<Rightarrow> u8" where
  "file_write b r v q =
     (if q = r then v
      else if led_register q \<and> ALL_LED_ON_L \<le> r \<and> r \<le> ALL_LED_OFF_H \<and> (q - LED0_ON_L) AND 3 = r - ALL_LED_ON_L then v
      else b q)"

definition register_file :: "(u8 \<Rightarrow> u8) i2c_env" where
  "register_file = \<lparr> i2c_read = (\<lambda>b r. (Some (b r), b)), i2c_write = (\<lambda>b r v. (True, file_write b r v)),
     i2c_sleep = (\<lambda>n b. b) \<rparr>"

definition int_f64 :: "int f64_ops" where
  "int_f64 = \<lparr> d_lit = int, d_of_u8 = uint, d_of_u16 = uint, d_add = (+), d_sub = (-), d_mul = (*), d_div = (div),
     d_round = (\<lambda>x. x), d_le = (\<le>), d_less = (<), d_finite = (\<lambda>_. True), d_as_u8 = of_int, d_as_u16 = of_int \<rparr>"

lemma register_file_leds: "led_registers register_file (\<lambda>b. b)"
proof -
  have "\<not> (ALL_LED_ON_L \<le> r \<and> r \<le> ALL_LED_OFF_H)" if "led_register r" for r
    using that by (auto simp: led_register_def pca_consts word_le_nat_alt word_less_nat_alt)
  moreover have "r \<in> {ALL_LED_ON_L, ALL_LED_ON_H, ALL_LED_OFF_L, ALL_LED_OFF_H}" if "ALL_LED_ON_L \<le> r" "r \<le> ALL_LED_OFF_H" for r
  proof -
    have "unat r \<in> {250, 251, 252, 253}" using that by (auto simp: pca_consts word_le_nat_alt)
    then have "of_nat (unat r) \<in> (of_nat :: nat \<Rightarrow> u8) ` {250, 251, 252, 253}" by blast
    then show ?thesis by (simp add: pca_consts)
  qed
  ultimately show ?thesis
    unfolding led_registers_def by (auto simp: register_file_def file_write_def)
qed

lemma int_f64_cast: "ticks_cast int_f64"
proof -
  have "(of_int x :: u16) < 4096" if "1 \<le> x" "x < 4096" for x :: int
    using that by (simp add: word_less_def uint_word_of_int)
  then show ?thesis by (simp add: ticks_cast_def int_f64_def PWM_STEPS_def)
qed

interpretation bench_chip: led_chip register_file "\<lambda>b. b" int_f64 "(+)"
  by unfold_locales (simp_all add: register_file_leds int_f64_cast)

subsection \<open>The register file takes every valid command\<close>

definition servo_rate :: "(u8 \<Rightarrow> u8) \<Rightarrow> bool" where
  "servo_rate b \<longleftrightarrow> b MODE1 = 0x20 \<and> b PRESCALE = 121"

lemma file_byte: "pca_write_byte register_file r v w b = (Inr (), file_write b r v)"
  by (simp add: pca_write_byte_def register_file_def)

lemma file_rate: "servo_rate b \<Longrightarrow> c < 16 \<Longrightarrow> k < 4 \<Longrightarrow> servo_rate (file_write b (channel_base c + k) v)"
  using channel_register [of c k] not_led_PRESCALE
  by (auto simp: servo_rate_def file_write_def)

lemma file_rate_base: "servo_rate b \<Longrightarrow> c < 16 \<Longrightarrow> servo_rate (file_write b (channel_base c) v)"
  using file_rate [of b c 0] by simp

lemma file_each:
  assumes "\<And>x b. x \<in> set xs \<Longrightarrow> servo_rate b \<Longrightarrow> \<exists>b'. f x b = (Inr (), b') \<and> servo_rate b'"
  shows "servo_rate b \<Longrightarrow> \<exists>b'. pca_each f xs b = (Inr (), b') \<and> servo_rate b'"
  using assms
proof (induction xs arbitrary: b)
  case (Cons x xs)
  obtain b1 where "f x b = (Inr (), b1)" "servo_rate b1" using Cons.prems by force
  then show ?case using Cons.IH [of b1] Cons.prems(2) by (simp add: pca_then_def)
qed simp

lemma file_status:
  assumes "servo_rate b"
  shows "\<exists>st. ready_status register_file int_f64 b = (Inr st, b) \<and> pwm_hz int_f64 st = 50"
proof -
  let ?st = "\<lparr> ps_mode1 = 0x20, ps_mode2 = b MODE2, ps_prescale = 121 \<rparr>"
  have "read_byte register_file r w b = (Inr (b r), b)" for r w
    by (simp add: read_byte_def register_file_def)
  then have "pca_read_status register_file b = (Inr ?st, b)"
    using assms by (simp add: pca_read_status_def pca_then_def servo_rate_def)
  moreover have hz: "pwm_hz int_f64 ?st = 50"
    by (simp add: pwm_hz_def int_f64_def OSCILLATOR_HZ_def PWM_STEPS_def)
  moreover have "\<not> sleeping ?st" by (simp add: sleeping_def MODE1_SLEEP_def)
  moreover have "d_le int_f64 (d_lit int_f64 40) 50" "d_le int_f64 50 (d_lit int_f64 60)"
    by (simp_all add: int_f64_def)
  ultimately show ?thesis by (simp add: ready_status_def pca_then_def)
qed

lemma file_ticks:
  assumes "300 \<le> p" "p \<le> 2800"
  shows "\<exists>t. pulse_ticks int_f64 p 50 = Inr t"
proof -
  have "300 \<le> uint p" "uint p \<le> 2800" using assms by (simp_all add: word_le_def)
  then have "1 \<le> uint p * 50 * 4096 div 1000000" "uint p * 50 * 4096 div 1000000 < 4096"
    using zdiv_mono1 [of 1000000 "uint p * 50 * 4096" 1000000] zdiv_mono1 [of "uint p * 50 * 4096" 573440000 1000000]
    by simp_all
  then show ?thesis by (simp add: pulse_ticks_def int_f64_def PWM_STEPS_def)
qed

lemma pulses_in_range: "validate_pulses before cs = Inr () \<Longrightarrow> \<forall>c \<in> set cs. 300 \<le> snd c \<and> snd c \<le> 2800"
  by (induction before cs rule: validate_pulses.induct) (auto simp: pca_consts split: if_splits)

lemma file_sets:
  assumes valid: "validate_channels channels = Inr ()" and rate: "servo_rate b"
  shows "\<exists>b'. pwm_set_channels (pca_output register_file int_f64 (+)) b channels = (True, b') \<and> servo_rate b'"
proof -
  obtain st where st: "ready_status register_file int_f64 b = (Inr st, b)" "pwm_hz int_f64 st = 50"
    using file_status [OF rate] by blast
  have lt: "fst c < 16" and ticks: "\<exists>t. pulse_ticks int_f64 (snd c) 50 = Inr t" if "c \<in> set channels" for c
    using validated_channels(2) [OF valid that] pulses_in_range [of "[]" channels] valid that file_ticks
    by (auto simp: validate_channels_def split: if_splits)
  obtain b1 where b1: "pca_each (\<lambda>c. disable_channel register_file ''disable channel before updating its pulse'' (fst c)) channels b = (Inr (), b1)"
      "servo_rate b1"
    using file_each [OF _ rate, of channels "\<lambda>c. disable_channel register_file ''disable channel before updating its pulse'' (fst c)"]
    by (auto simp: disable_channel_def file_byte file_rate lt)
  have "\<exists>b'. write_pulse register_file int_f64 50 c b = (Inr (), b') \<and> servo_rate b'" if "c \<in> set channels" "servo_rate b" for c b
    using ticks [OF that(1)] lt [OF that(1)] that(2)
    by (auto simp: write_pulse_def Let_def file_byte pca_then_def file_rate file_rate_base)
  then obtain b2 where b2: "pca_each (write_pulse register_file int_f64 50) channels b1 = (Inr (), b2)" "servo_rate b2"
    using file_each [OF _ b1(2), of channels "write_pulse register_file int_f64 50"] by blast
  have "\<exists>b'. enable_pulse register_file int_f64 50 c b = (Inr (), b') \<and> servo_rate b'" if "c \<in> set channels" "servo_rate b" for c b
    using ticks [OF that(1)] lt [OF that(1)] that(2) by (auto simp: enable_pulse_def file_byte file_rate)
  then obtain b3 where b3: "pca_each (enable_pulse register_file int_f64 50) channels b2 = (Inr (), b3)" "servo_rate b3"
    using file_each [OF _ b2(2), of channels "enable_pulse register_file int_f64 50"] by blast
  show ?thesis
    using st b1 b2 b3 valid by (simp add: pca_output_def pca_set_channels_def write_channels_def pca_then_def)
qed

lemma file_disables:
  assumes "validate_channel_ids ids = Inr ()" "servo_rate b"
  shows "\<exists>b'. pwm_disable_channels (pca_output register_file int_f64 (+)) b ids = (True, b') \<and> servo_rate b'"
proof -
  have "\<forall>x \<in> set ids. x < 16"
    using assms(1) validated_ids [of "[]" ids] by (auto simp: validate_channel_ids_def split: if_splits)
  then have "\<exists>b'. pca_each (disable_channel register_file ''disable selected PCA9685 channel'') ids b = (Inr (), b') \<and> servo_rate b'"
    by (intro file_each assms(2)) (auto simp: disable_channel_def file_byte file_rate)
  then show ?thesis using assms(1) by (auto simp: pca_output_def pca_disable_channels_def)
qed

text \<open>A plan whose channels the default calibration makes valid.\<close>

fun valid_step :: "move_plan_step \<Rightarrow> bool" where
  "valid_step (move_plan_step.SetRails target position) \<longleftrightarrow>
     validate_channels (map (\<lambda>axis. (channel axis, rail_pulse default_calibration axis position)) (target_rails target)) = Inr () \<and>
     validate_channel_ids (map channel (target_rails target)) = Inr ()"
| "valid_step (move_plan_step.SetGrippers poses) \<longleftrightarrow>
     (case gripper_channels_for_axes default_calibration poses of Inl e \<Rightarrow> False | Inr channels \<Rightarrow> validate_channels channels = Inr ())"
| "valid_step x \<longleftrightarrow> True"

definition on_servos :: "(u8 \<Rightarrow> u8, nat) stand_runtime \<Rightarrow> bool" where
  "on_servos r \<longleftrightarrow> servo_rate (rt_output r) \<and> rt_calibration r = default_calibration"

lemma file_rails:
  assumes "validate_channels (map (\<lambda>axis. (channel axis, rail_pulse default_calibration axis position)) axes) = Inr ()"
    "validate_channel_ids (map channel axes) = Inr ()" "on_servos r"
  shows "\<exists>r'. drive_rails (pca_output register_file int_f64 (+)) axes position r = Finished r' \<and> on_servos r'"
proof -
  have r: "servo_rate (rt_output r)" "rt_calibration r = default_calibration" using assms(3) by (simp_all add: on_servos_def)
  obtain b where b: "pwm_set_channels (pca_output register_file int_f64 (+)) (rt_output r)
      (map (\<lambda>axis. (channel axis, rail_pulse default_calibration axis position)) axes) = (True, b)" "servo_rate b"
    using file_sets [OF assms(1) r(1)] by blast
  obtain b' where "pwm_disable_channels (pca_output register_file int_f64 (+)) b (map channel axes) = (True, b')" "servo_rate b'"
    using file_disables [OF assms(2) b(2)] by blast
  then show ?thesis
    using b r by (simp add: drive_rails_def rt_set_channels_def rt_disable_channels_def sleep_def on_servos_def)
qed

lemma file_step:
  assumes "valid_step x" "axis_step x" "on_servos r"
  shows "\<exists>r'. drive_step (pca_output register_file int_f64 (+)) x r = Finished r' \<and> on_servos r'"
proof (cases x)
  case (SetRails target position)
  then show ?thesis using file_rails assms by simp
next
  case (SetGrippers poses)
  have r: "servo_rate (rt_output r)" "rt_calibration r = default_calibration" using assms(3) by (simp_all add: on_servos_def)
  obtain channels where ch: "gripper_channels_for_axes default_calibration poses = Inr channels" "validate_channels channels = Inr ()"
    using SetGrippers assms(1) by (auto split: sum.splits)
  obtain b where "pwm_set_channels (pca_output register_file int_f64 (+)) (rt_output r) channels = (True, b)" "servo_rate b"
    using file_sets [OF ch(2) r(1)] by blast
  then show ?thesis
    using SetGrippers ch r by (simp add: pose_grippers_def rt_set_channels_def sleep_def on_servos_def)
qed (use assms in simp_all)

lemma file_plan:
  "list_all valid_step plan \<Longrightarrow> list_all axis_step plan \<Longrightarrow> on_servos r \<Longrightarrow>
     \<exists>r'. drive (pca_output register_file int_f64 (+)) plan r = Finished r' \<and> on_servos r'"
proof (induction plan arbitrary: r)
  case (Cons x plan)
  obtain r1 where "drive_step (pca_output register_file int_f64 (+)) x r = Finished r1" "on_servos r1"
    using file_step [of x r] Cons.prems by auto
  then show ?case using Cons.IH [of r1] Cons.prems by simp
qed simp

lemma valid_plans: "list_all valid_step release_plan" "list_all valid_step (pose_plan scan_face.Left)"
  "validate_channels (map (\<lambda>axis. (channel axis, rail_pulse default_calibration axis NearGrip)) RAILS) = Inr ()"
  "validate_channel_ids (map channel RAILS) = Inr ()"
  by code_simp+

abbreviation file_runtime :: "(u8 \<Rightarrow> u8, nat) runtime_env" where
  "file_runtime \<equiv> pca_output register_file int_f64 (+)"

lemma set_state_servos: "on_servos (set_state st pair r) = on_servos r"
  by (simp add: on_servos_def)

lemma file_reset:
  assumes "on_servos r"
  shows "\<exists>r'. run_call file_runtime CallReset r = Finished r' \<and> on_servos r' \<and> rt_state r' = OutputsOff"
proof -
  have "\<exists>b'. force_all_channels_off register_file b = (Inr (), b') \<and> servo_rate b'" if "servo_rate b" for b
    unfolding bench_chip.force_off_disable
    by (rule file_each [OF _ that]) (auto simp: disable_channel_def file_byte file_rate)
  then obtain b where b: "force_all_channels_off register_file (rt_output r) = (Inr (), b)" "servo_rate b"
    using assms unfolding on_servos_def by blast
  then have "pwm_all_off file_runtime (rt_output r) = (True, b)" by (simp add: pca_output_def pca_all_off_def)
  then show ?thesis using b(2) assms by (simp add: reset_def on_servos_def)
qed

lemma file_safe_open:
  assumes "on_servos r" "rt_state r = OutputsOff"
  shows "\<exists>r'. run_call file_runtime CallSafeOpen r = Finished r' \<and> on_servos r' \<and> rt_state r' = SafeOpen"
proof -
  obtain q where "drive file_runtime release_plan r = Finished q" "on_servos q"
    using file_plan [OF valid_plans(1) axis_plans(4) assms(1)] by blast
  then show ?thesis using assms(2) by (simp add: safe_open_drive set_state_servos)
qed

lemma file_grip:
  assumes "on_servos r" "rt_state r = SafeOpen"
  shows "\<exists>r'. run_call file_runtime CallGrip r = Finished r' \<and> on_servos r' \<and> rt_state r' = Gripped"
proof -
  have drives: "move_all_rails file_runtime NearGrip r = drive_rails file_runtime RAILS NearGrip r"
    by (simp add: move_all_rails_def drive_rails_def rail_channels_def rail_channel_ids_all_def)
  obtain q where "drive_rails file_runtime RAILS NearGrip r = Finished q" "on_servos q"
    using file_rails [OF valid_plans(3,4) assms(1)] by blast
  then show ?thesis using assms(2) by (simp add: grip_cube_def drives set_state_servos)
qed

lemma file_scan_left:
  assumes "on_servos r" "rt_state r = Gripped"
  shows "\<exists>r'. run_call file_runtime (CallScanPose scan_face.Left) r = Finished r' \<and> on_servos r' \<and>
    rt_state r' = ScanHold scan_face.Left \<and> rt_holding_pair r' = Some TB"
proof -
  obtain q where "drive file_runtime (pose_plan scan_face.Left) r = Finished q" "on_servos q"
    using file_plan [OF valid_plans(2) axis_plans(1) assms(1)] by blast
  then show ?thesis using assms(2) by (simp add: scan_pose_drive set_state_servos pose_holder_def del: pose_plan.simps)
qed

lemma reach_call: "runtime_reach E r \<Longrightarrow> run_call E c r = Finished r' \<Longrightarrow> runtime_reach E r'"
  using runtime_reach.call [of E r c] by simp

lemma bench_scan:
  "\<exists>r. runtime_reach file_runtime r \<and> rt_state r = ScanHold scan_face.Left \<and> rt_holding_pair r = Some TB \<and>
     rt_calibration r = default_calibration"
proof -
  have start: "on_servos (with_delay ((\<lambda>_. 0)(MODE1 := 0x20, PRESCALE := 121)) default_calibration 0)"
    by (simp add: on_servos_def with_delay_def servo_rate_def pca_consts)
  obtain r1 where r1: "run_call file_runtime CallReset (with_delay ((\<lambda>_. 0)(MODE1 := 0x20, PRESCALE := 121)) default_calibration 0) = Finished r1"
      "on_servos r1" "rt_state r1 = OutputsOff"
    using file_reset [OF start] by blast
  obtain r2 where r2: "run_call file_runtime CallSafeOpen r1 = Finished r2" "on_servos r2" "rt_state r2 = SafeOpen"
    using file_safe_open [OF r1(2,3)] by blast
  obtain r3 where r3: "run_call file_runtime CallGrip r2 = Finished r3" "on_servos r3" "rt_state r3 = Gripped"
    using file_grip [OF r2(2,3)] by blast
  obtain r4 where r4: "run_call file_runtime (CallScanPose scan_face.Left) r3 = Finished r4" "on_servos r4"
      "rt_state r4 = ScanHold scan_face.Left" "rt_holding_pair r4 = Some TB"
    using file_scan_left [OF r3(2,3)] by blast
  have "runtime_reach file_runtime r4"
    by (rule reach_call [OF reach_call [OF reach_call [OF reach_call [OF runtime_reach.start r1(1)] r2(1)] r3(1)] r4(1)])
  then show ?thesis using r4 by (auto simp: on_servos_def)
qed

section \<open>What the channels carry\<close>

text \<open>
  C28: The registers follow the commanded state. For every device whose registers behave as the data sheet
  says, after every sequence of calls of the stand runtime on the PCA9685 driver, failed ones included:
  while the runtime is operational no rail channel is driven, after a reset no channel is, and in a
  commanded pose every gripper channel carries the calibrated pulse of its orientation.
\<close>

theorem channels_follow_state:
  assumes "led_registers I reg" "ticks_cast F" "runtime_reach (pca_output I F wait) r"
  shows "channels_match (emits F reg) r"
  by (rule pwm_output.reach_match [OF led_chip.driver_trait [OF led_chip.intro [OF assms(1,2)]] assms(3)])

theorem channels_follow_state_witness:
  "\<exists>r. runtime_reach file_runtime r \<and> rt_state r = ScanHold scan_face.Left \<and>
     emits int_f64 (\<lambda>b. b) (rt_output r) (channel TopGripper) (Some 400) \<and>
     emits int_f64 (\<lambda>b. b) (rt_output r) (channel LeftRail) None"
proof -
  obtain r where r: "runtime_reach file_runtime r" "rt_state r = ScanHold scan_face.Left" "rt_holding_pair r = Some TB"
    "rt_calibration r = default_calibration"
    using bench_scan by blast
  have match: "channels_match (emits int_f64 (\<lambda>b. b)) r"
    by (rule channels_follow_state [OF register_file_leds int_f64_cast r(1)])
  have "commanded_grips (rt_state r) (rt_holding_pair r) = Some (grip (hold_machine TB FP FR scan_face.Left))"
    by (simp add: r)
  then have pose: "grippers_pose (emits int_f64 (\<lambda>b. b)) default_calibration (all_grips (grip (hold_machine TB FP FR scan_face.Left))) (rt_output r)"
    using match r(4) unfolding channels_match_def by metis
  have "operational (rt_state r)" by (simp add: r)
  then have "rails_rest (emits int_f64 (\<lambda>b. b)) (rt_output r)" using match unfolding channels_match_def by blast
  then have "emits int_f64 (\<lambda>b. b) (rt_output r) (channel LeftRail) None"
    unfolding rails_rest_def by (rule bspec) (simp add: RAILS_def)
  moreover have "emits int_f64 (\<lambda>b. b) (rt_output r) (channel TopGripper) (Some 400)"
    by (rule pose [unfolded grippers_pose_def, rule_format, of TopGripper FP])
       (simp_all add: all_grips_def is_gripper_def gripper_pulse_def default_calibration_def)
  ultimately show ?thesis using r(1,2) by blast
qed

text \<open>
  The driver's other operations leave nothing driven that they do not name. Initialising the rate
  and a pulse of bounded duration that succeed leave all sixteen channels off; beginning pulses leaves the
  named channels with their pulses and the others off.
\<close>

theorem driver_setup:
  assumes "led_registers I reg" "ticks_cast F" "c < 16"
  shows "(initialize_safe_pwm I F hz b = (Inr st, b') \<longrightarrow> emits F reg b' c None) \<and>
    (pulse_channels_for I F channels n b = (Inr (), b') \<longrightarrow> emits F reg b' c None) \<and>
    (begin_pulse_channels I F channels b = (Inr (), b') \<longrightarrow>
       (\<forall>p. (c, p) \<in> set channels \<longrightarrow> emits F reg b' c (Some p)) \<and>
       (c \<notin> fst ` set channels \<longrightarrow> emits F reg b' c None))"
  using led_chip.setup_off [OF led_chip.intro [OF assms(1,2)] assms(3)]
    led_chip.begin_pulses [OF led_chip.intro [OF assms(1,2)]] assms(3)
  by blast

lemma file_force_off: "\<exists>b'. force_all_channels_off register_file b = (Inr (), b')"
proof -
  have "\<exists>b'. pca_each (disable_channel register_file w) xs b = (Inr (), b')" for xs w
    by (induction xs arbitrary: b) (simp_all add: pca_then_def disable_channel_def file_byte)
  then show ?thesis unfolding bench_chip.force_off_disable .
qed

lemma file_initialize: "\<exists>st b'. initialize_safe_pwm register_file int_f64 50 b = (Inr st, b')"
proof -
  have p: "prescale_for_hz int_f64 50 = Inr 121"
    by (simp add: prescale_for_hz_def int_f64_def OSCILLATOR_HZ_def PWM_STEPS_def)
  have read: "\<exists>st. pca_read_status register_file b = (Inr st, b)" for b
    by (simp add: pca_read_status_def read_byte_def register_file_def pca_then_def)
  have clear: "\<exists>b'. clear_global_all_led_control register_file b = (Inr (), b')" for b
    by (simp add: clear_global_all_led_control_def pca_then_def file_byte)
  have wake: "\<exists>b'. wake_pca register_file m b = (Inr (), b')" for m b
    by (simp add: wake_pca_def pca_then_def file_byte)
  obtain st where st: "pca_read_status register_file b = (Inr st, b)" using read by blast
  obtain b1 where b1: "clear_global_all_led_control register_file
      (file_write b MODE1 (sleeping_mode (ps_mode1 st))) = (Inr (), b1)" using clear by blast
  obtain b2 where b2: "force_all_channels_off register_file b1 = (Inr (), b2)" using file_force_off by blast
  obtain b3 where b3: "wake_pca register_file (ps_mode1 st) (file_write b2 PRESCALE 121) = (Inr (), b3)" using wake by blast
  obtain st' where "pca_read_status register_file b3 = (Inr st', b3)" using read by blast
  then have "initialize_safe_pwm register_file int_f64 50 b = (Inr st', b3)"
    by (simp add: initialize_safe_pwm_def p st b1 b2 b3 pca_then_def file_byte)
  then show ?thesis by blast
qed

theorem driver_setup_witness:
  "\<exists>st b'. initialize_safe_pwm register_file int_f64 50 (\<lambda>_. 0) = (Inr st, b') \<and> emits int_f64 (\<lambda>b. b) b' 15 None"
proof -
  obtain st b' where run: "initialize_safe_pwm register_file int_f64 50 (\<lambda>_. 0) = (Inr st, b')"
    using file_initialize by blast
  have "(15 :: u8) < 16" by simp
  from driver_setup [OF register_file_leds int_f64_cast this] run show ?thesis by blast
qed

end
