(* ===== verification/Notation.thy ===== *)
theory Notation
  imports LinkState
begin

text \<open>
  \<open>crates/rubik-link-protocol/src/notation.rs\<close>: Singmaster notation into the bounded move array.
  A string is the list of its UTF-8 bytes, one \<open>char\<close> each.
\<close>

datatype singmaster_error = Empty | TooManyMoves | InvalidToken u8

definition is_ascii_whitespace :: "char \<Rightarrow> bool" where
  "is_ascii_whitespace c \<longleftrightarrow> (of_char c :: nat) \<in> {9, 10, 12, 13, 32}"

definition to_ascii_uppercase :: "char \<Rightarrow> char" where
  "to_ascii_uppercase c =
     (if 97 \<le> (of_char c :: nat) \<and> (of_char c :: nat) \<le> 122 then char_of ((of_char c :: nat) - 32) else c)"

definition parse_token :: "string \<Rightarrow> link_cube_move option" where
  "parse_token bytes =
     (case bytes of
        [] \<Rightarrow> None
      | b # rest \<Rightarrow> do {
          face \<leftarrow> (let u = to_ascii_uppercase b in
            if u = CHR ''U'' then Some cube_face.Up
            else if u = CHR ''R'' then Some cube_face.Right
            else if u = CHR ''F'' then Some cube_face.Front
            else if u = CHR ''D'' then Some cube_face.Down
            else if u = CHR ''L'' then Some cube_face.Left
            else if u = CHR ''B'' then Some cube_face.Back
            else None);
          turn \<leftarrow> (if rest = [] then Some turn_amount.Clockwise
            else if rest = [CHR 0x27] then Some turn_amount.CounterClockwise
            else if rest = ''2'' then Some turn_amount.Half
            else None);
          Some \<lparr> lm_face = face, lm_turn = turn \<rparr> })"

fun parse_tokens :: "string list \<Rightarrow> link_cube_move list \<Rightarrow> nat \<Rightarrow>
    (singmaster_error + link_cube_move list \<times> nat) option" where
  "parse_tokens [] moves count = Some (Inr (moves, count))"
| "parse_tokens (token # tokens) moves count =
     (if count = MAX_SOLUTION_MOVES then Some (Inl TooManyMoves)
      else case parse_token token of
        None \<Rightarrow> Some (Inl (InvalidToken (of_nat count)))
      | Some m \<Rightarrow> do {
          moves \<leftarrow> poke moves count m;
          parse_tokens tokens moves (count + 1) })"

definition parse_singmaster ::
    "string \<Rightarrow> (singmaster_error + link_cube_move list \<times> u8) option" where
  "parse_singmaster sequence = do {
     r \<leftarrow> parse_tokens (split_words is_ascii_whitespace sequence)
            (replicate MAX_SOLUTION_MOVES empty_move) 0;
     case r of
       Inl e \<Rightarrow> Some (Inl e)
     | Inr (moves, count) \<Rightarrow>
         if count = 0 then Some (Inl Empty) else Some (Inr (moves, of_nat count)) }"

section \<open>What is accepted\<close>

fun show_face :: "cube_face \<Rightarrow> char" where
  "show_face cube_face.Up = CHR ''U''"
| "show_face cube_face.Right = CHR ''R''"
| "show_face cube_face.Front = CHR ''F''"
| "show_face cube_face.Down = CHR ''D''"
| "show_face cube_face.Left = CHR ''L''"
| "show_face cube_face.Back = CHR ''B''"

fun show_turn :: "turn_amount \<Rightarrow> string" where
  "show_turn turn_amount.Clockwise = []"
| "show_turn turn_amount.CounterClockwise = [CHR 0x27]"
| "show_turn turn_amount.Half = ''2''"

definition show_move :: "link_cube_move \<Rightarrow> string" where
  "show_move m = show_face (lm_face m) # show_turn (lm_turn m)"

lemma parse_show_move [simp]: "parse_token (show_move m) = Some m"
proof -
  obtain f t where "m = \<lparr> lm_face = f, lm_turn = t \<rparr>" by (cases m)
  then show ?thesis
    by (cases f; cases t) (simp_all add: show_move_def parse_token_def to_ascii_uppercase_def)
qed

lemma show_move_token:
  "show_move m \<noteq> [] \<and> (\<forall>c \<in> set (show_move m). \<not> is_ascii_whitespace c)"
proof -
  obtain f t where "m = \<lparr> lm_face = f, lm_turn = t \<rparr>" by (cases m)
  then show ?thesis
    by (cases f; cases t) (simp_all add: show_move_def is_ascii_whitespace_def)
qed

lemma parse_tokens_spec:
  assumes "length pre = count" and "count + length free = MAX_SOLUTION_MOVES"
  shows "parse_tokens tokens (pre @ free) count =
    Some (case those (map parse_token (take (length free) tokens)) of
        None \<Rightarrow> Inl (InvalidToken (of_nat (count +
          length (takeWhile (\<lambda>t. parse_token t \<noteq> None) tokens))))
      | Some ms \<Rightarrow> if length free < length tokens then Inl TooManyMoves
          else Inr (pre @ ms @ drop (length ms) free, count + length ms))"
  using assms
proof (induction tokens arbitrary: pre free count)
  case Nil
  then show ?case by simp
next
  case (Cons token tokens)
  show ?case
  proof (cases free)
    case Nil
    with Cons.prems show ?thesis by simp
  next
    case (Cons y ys)
    show ?thesis
    proof (cases "parse_token token")
      case None
      with Cons Cons.prems show ?thesis by simp
    next
      case (Some m)
      have "parse_tokens (token # tokens) (pre @ free) count =
          parse_tokens tokens ((pre @ [m]) @ ys) (Suc count)"
        using Cons Cons.prems Some by (simp add: buf_simps)
      also note Cons.IH [of "pre @ [m]" "Suc count" ys]
      finally show ?thesis
        using Cons Cons.prems Some by (auto split: option.splits)
    qed
  qed
qed

lemma parse_singmaster_spec:
  "parse_singmaster s = (let tokens = split_words is_ascii_whitespace s in
    Some (case those (map parse_token (take MAX_SOLUTION_MOVES tokens)) of
        None \<Rightarrow> Inl (InvalidToken (of_nat (length (takeWhile (\<lambda>t. parse_token t \<noteq> None) tokens))))
      | Some ms \<Rightarrow> if MAX_SOLUTION_MOVES < length tokens then Inl TooManyMoves
          else if ms = [] then Inl Empty
          else Inr (ms @ replicate (MAX_SOLUTION_MOVES - length ms) empty_move, of_nat (length ms))))"
  using parse_tokens_spec [of "[]" 0 "replicate MAX_SOLUTION_MOVES empty_move"
      "split_words is_ascii_whitespace s"]
  by (auto simp: parse_singmaster_def Let_def split: option.splits)

end
