(* ===== verification/SimSequence.thy ===== *)
theory SimSequence
  imports Notation Cube
begin

text \<open>
  \<open>normalize_sim_sequence\<close> of \<open>src/sim_server.rs\<close>: free-form face turns into tokens of the protocol's
  notation. The loop is a \<open>partial_function\<close> over the index of the source, so that it returns is a
  theorem; an \<open>anyhow\<close> message is a constructor of \<open>sequence_error\<close>.
\<close>

datatype sequence_error = ExpectedFace nat char | EmptySequence | BadSequence singmaster_error

definition compact_sequence :: "string \<Rightarrow> string" where
  "compact_sequence sequence = filter (\<lambda>c. \<not> is_whitespace c \<and> c \<noteq> CHR '','') sequence"

definition face_letter :: "char \<Rightarrow> bool" where
  "face_letter c \<longleftrightarrow> c \<in> set ''URFDLB''"

definition get_char :: "string \<Rightarrow> nat \<Rightarrow> char option" where
  "get_char chars index = (if index < length chars then Some (chars ! index) else None)"

text \<open>One round of the loop: the token at an index below the length, and the index after it.\<close>

definition sim_token :: "string \<Rightarrow> nat \<Rightarrow> sequence_error + string \<times> nat" where
  "sim_token chars index =
     (let face = to_ascii_uppercase (chars ! index) in
      if \<not> face_letter face then Inl (ExpectedFace (index + 1) (chars ! index))
      else
        let index = index + 1;
            suffix = (case get_char chars index of
              Some c \<Rightarrow> if c \<in> {CHR ''1'', CHR ''2'', CHR ''3'', CHR 0x27} then Some c else None
            | None \<Rightarrow> None);
            index = (if suffix \<noteq> None then index + 1 else index) in
        if suffix = None \<or> suffix = Some (CHR ''1'') then Inr ([face], index)
        else if suffix = Some (CHR ''2'') then
          Inr ([face] @ ''2'', if get_char chars index = Some (CHR 0x27) then index + 1 else index)
        else Inr ([face, CHR 0x27], index))"

partial_function (option) sim_tokens :: "string \<Rightarrow> nat \<Rightarrow> string list \<Rightarrow> (sequence_error + string list) option" where
  "sim_tokens chars index normalized =
     (if index < length chars then
        (case sim_token chars index of
           Inl e \<Rightarrow> Some (Inl e)
         | Inr (token, index) \<Rightarrow> sim_tokens chars index (normalized @ [token]))
      else Some (Inr normalized))"

fun join_words :: "string list \<Rightarrow> string" where
  "join_words [] = []"
| "join_words [w] = w"
| "join_words (w # ws) = w @ '' '' @ join_words ws"

definition normalize_sim_sequence :: "string \<Rightarrow> (sequence_error + string) option" where
  "normalize_sim_sequence sequence = do {
     r \<leftarrow> sim_tokens (compact_sequence sequence) 0 [];
     (case r of
        Inl e \<Rightarrow> Some (Inl e)
      | Inr normalized \<Rightarrow> if normalized = [] then Some (Inl EmptySequence) else Some (Inr (join_words normalized))) }"

text \<open>The moves of a command: normalised, then parsed by the protocol crate.\<close>

definition sequence_moves :: "string \<Rightarrow> (sequence_error + link_cube_move list \<times> u8) option" where
  "sequence_moves sequence = do {
     r \<leftarrow> normalize_sim_sequence sequence;
     (case r of
        Inl e \<Rightarrow> Some (Inl e)
      | Inr normalized \<Rightarrow> do {
          p \<leftarrow> parse_singmaster normalized;
          Some (case p of Inl e \<Rightarrow> Inl (BadSequence e) | Inr mc \<Rightarrow> Inr mc) }) }"

section \<open>The loop ends and its tokens are moves\<close>

lemma face_letter_show: "face_letter c \<Longrightarrow> \<exists>f. c = show_face f"
proof -
  assume "face_letter c"
  then have "c \<in> set (map show_face [cube_face.Up, cube_face.Right, cube_face.Front, cube_face.Down,
      cube_face.Left, cube_face.Back])"
    by (simp add: face_letter_def)
  then show ?thesis unfolding set_map by blast
qed

lemma sim_token_move:
  assumes "sim_token chars index = Inr (token, index')" "index < length chars"
  shows "index < index' \<and> index' \<le> length chars \<and> (\<exists>m. token = show_move m)"
proof -
  have f: "face_letter (to_ascii_uppercase (chars ! index))"
    using assms(1) by (auto simp: sim_token_def Let_def split: if_splits)
  then obtain f where f': "to_ascii_uppercase (chars ! index) = show_face f" using face_letter_show by blast
  have tok: "show_move \<lparr> lm_face = f, lm_turn = t \<rparr> = show_face f # show_turn t" for t
    by (simp add: show_move_def)
  have "token \<in> {show_move \<lparr> lm_face = f, lm_turn = turn_amount.Clockwise \<rparr>,
      show_move \<lparr> lm_face = f, lm_turn = turn_amount.Half \<rparr>,
      show_move \<lparr> lm_face = f, lm_turn = turn_amount.CounterClockwise \<rparr>}"
    using assms(1) f f' unfolding tok by (auto simp: sim_token_def Let_def split: if_splits)
  moreover have "index < index' \<and> index' \<le> length chars"
    using assms f by (auto simp: sim_token_def Let_def get_char_def split: if_splits)
  ultimately show ?thesis by blast
qed

lemma sim_tokens_returns:
  "\<exists>r. sim_tokens chars index normalized = Some r \<and>
     (\<forall>ts. r = Inr ts \<longrightarrow> (\<exists>ms. ts = normalized @ map show_move ms \<and> (index < length chars \<longrightarrow> ms \<noteq> [])))"
proof (induction "length chars - index" arbitrary: index normalized rule: less_induct)
  case less
  show ?case
  proof (cases "index < length chars")
    case False
    then show ?thesis by (subst sim_tokens.simps) (auto intro: exI [of _ "[]"])
  next
    case True
    show ?thesis
    proof (cases "sim_token chars index")
      case (Inl e)
      with True show ?thesis by (subst sim_tokens.simps) simp
    next
      case (Inr ti)
      obtain token index' where ti: "ti = (token, index')" by (cases ti)
      obtain m where m: "index < index'" "index' \<le> length chars" "token = show_move m"
        using sim_token_move [OF Inr [unfolded ti] True] by blast
      obtain r where "sim_tokens chars index' (normalized @ [token]) = Some r"
        "\<forall>ts. r = Inr ts \<longrightarrow> (\<exists>ms. ts = (normalized @ [token]) @ map show_move ms)"
        using less [of index' "normalized @ [token]"] m(1) True by (meson diff_less_mono2)
      then have "\<forall>ts. r = Inr ts \<longrightarrow> (\<exists>ms. ts = normalized @ map show_move ms \<and> ms \<noteq> [])"
        using m(3) by (metis append.assoc append_Cons append_Nil list.distinct(1) list.simps(9))
      then show ?thesis
        using True Inr ti \<open>sim_tokens chars index' (normalized @ [token]) = Some r\<close>
        by (subst sim_tokens.simps) auto
    qed
  qed
qed

lemma split_join:
  assumes "ws (CHR '' '')" "\<forall>w \<in> set tokens. w \<noteq> [] \<and> (\<forall>c \<in> set w. \<not> ws c)"
  shows "split_words ws (join_words tokens) = tokens"
  using assms(2)
proof (induction tokens rule: join_words.induct)
  case (2 w)
  then show ?case
    using split_words_from_run [of w ws "[]" "[]"] by (simp add: split_words_def)
next
  case (3 w v vs)
  have "split_words_from ws [] (w @ '' '' @ join_words (v # vs)) = split_words_from ws w ('' '' @ join_words (v # vs))"
    using split_words_from_run [of w ws "[]"] 3(2) by simp
  with 3 assms(1) show ?case by (auto simp: split_words_def)
qed (simp add: split_words_def)

theorem normalize_accepts:
  "\<exists>r. normalize_sim_sequence s = Some r \<and>
     (\<forall>t. r = Inr t \<longrightarrow> (\<exists>ms. ms \<noteq> [] \<and> t = join_words (map show_move ms) \<and>
        parse_singmaster t = Some (if length ms > MAX_SOLUTION_MOVES then Inl TooManyMoves
          else Inr (ms @ replicate (MAX_SOLUTION_MOVES - length ms) empty_move, of_nat (length ms)))))"
proof -
  obtain r where r: "sim_tokens (compact_sequence s) 0 [] = Some r"
    "\<forall>ts. r = Inr ts \<longrightarrow> (\<exists>ms. ts = map show_move ms)"
    using sim_tokens_returns [of "compact_sequence s" 0 "[]"] by auto
  have parse: "parse_singmaster (join_words (map show_move ms)) = Some (if length ms > MAX_SOLUTION_MOVES
      then Inl TooManyMoves else Inr (ms @ replicate (MAX_SOLUTION_MOVES - length ms) empty_move, of_nat (length ms)))"
    if "ms \<noteq> []" for ms
  proof -
    have "split_words is_ascii_whitespace (join_words (map show_move ms)) = map show_move ms"
      using show_move_token by (intro split_join) (auto simp: is_ascii_whitespace_def)
    moreover have "those (map parse_token (map show_move xs)) = Some xs" for xs
      by (induction xs) simp_all
    ultimately show ?thesis
      using that by (auto simp: parse_singmaster_spec Let_def take_map MAX_SOLUTION_MOVES_def)
  qed
  show ?thesis
  proof (cases r)
    case (Inl e)
    then show ?thesis using r(1) by (simp add: normalize_sim_sequence_def)
  next
    case (Inr ts)
    then obtain ms where "ts = map show_move ms" using r(2) by blast
    then show ?thesis using r(1) Inr parse by (auto simp: normalize_sim_sequence_def)
  qed
qed

section \<open>Normal sequences are kept\<close>

lemma sim_token_shown:
  assumes "rest = [] \<or> (\<exists>f cs. rest = show_face f # cs)"
  shows "sim_token (pre @ show_move m @ rest) (length pre) = Inr (show_move m, length (pre @ show_move m))"
proof -
  obtain f t where m: "m = \<lparr> lm_face = f, lm_turn = t \<rparr>" by (cases m)
  have at: "get_char (pre @ xs) (length pre + k) = get_char xs k" for xs k
    by (simp add: get_char_def nth_append)
  have face: "to_ascii_uppercase (show_face f) = show_face f" "face_letter (show_face f)" for f
    by (cases f; simp add: to_ascii_uppercase_def face_letter_def)+
  have next': "get_char rest 0 = None \<or> (\<exists>g. get_char rest 0 = Some (show_face g))"
    using assms by (auto simp: get_char_def)
  have plain: "show_face g \<noteq> CHR ''1''" "show_face g \<noteq> CHR ''2''" "show_face g \<noteq> CHR ''3''"
    "show_face g \<noteq> CHR 0x27" "CHR 0x27 \<noteq> show_face g" for g by (cases g; simp)+
  have tail: "get_char (show_face f # xs) (Suc k) = get_char xs k" for xs k
    by (simp add: get_char_def)
  note at1 = at [of "show_move m @ rest" 1] and at2 = at [of "show_move m @ rest" 2]
  show ?thesis
    using next' plain at1 at2 unfolding sim_token_def Let_def
    by (cases t) (auto simp: m show_move_def nth_append face get_char_def numeral_2_eq_2 split: if_splits)
qed

lemma sim_tokens_shown:
  "sim_tokens (pre @ concat (map show_move ms)) (length pre) normalized = Some (Inr (normalized @ map show_move ms))"
proof (induction ms arbitrary: pre normalized)
  case Nil
  then show ?case by (subst sim_tokens.simps) simp
next
  case (Cons m ms)
  let ?rest = "concat (map show_move ms)"
  have "?rest = [] \<or> (\<exists>f cs. ?rest = show_face f # cs)"
    by (cases ms) (auto simp: show_move_def)
  note token = sim_token_shown [OF this, of pre m]
  have "length pre < length (pre @ show_move m @ ?rest)" by (simp add: show_move_def)
  then have "sim_tokens (pre @ show_move m @ ?rest) (length pre) normalized =
      sim_tokens ((pre @ show_move m) @ ?rest) (length (pre @ show_move m)) (normalized @ [show_move m])"
    using token by (subst sim_tokens.simps) simp
  also have "\<dots> = Some (Inr ((normalized @ [show_move m]) @ map show_move ms))"
    by (rule Cons.IH)
  finally show ?case by simp
qed

lemma compact_shown: "compact_sequence (join_words (map show_move ms)) = concat (map show_move ms)"
proof -
  have "compact_sequence (show_move m) = show_move m" for m
  proof -
    obtain f t where "m = \<lparr> lm_face = f, lm_turn = t \<rparr>" by (cases m)
    then show ?thesis
      by (cases f; cases t) (simp_all add: compact_sequence_def show_move_def is_whitespace_def Let_def)
  qed
  then have m: "filter (\<lambda>c. \<not> is_whitespace c \<and> c \<noteq> CHR '','') (show_move m) = show_move m" for m
    by (simp add: compact_sequence_def)
  have space: "is_whitespace (CHR '' '')" by (simp add: is_whitespace_def Let_def)
  have "filter (\<lambda>c. \<not> is_whitespace c \<and> c \<noteq> CHR '','') (join_words ts) = concat ts"
    if "\<forall>w \<in> set ts. filter (\<lambda>c. \<not> is_whitespace c \<and> c \<noteq> CHR '','') w = w" for ts
    using that by (induction ts rule: join_words.induct) (simp_all add: space)
  then show ?thesis unfolding compact_sequence_def by (simp add: m)
qed

theorem normalize_shown:
  "ms \<noteq> [] \<Longrightarrow> normalize_sim_sequence (join_words (map show_move ms)) = Some (Inr (join_words (map show_move ms)))"
  using sim_tokens_shown [of "[]" ms "[]"] by (simp add: normalize_sim_sequence_def compact_shown)

end
