(* ===== verification/SimCommands.thy ===== *)
theory SimCommands
  imports SimSequence RobotLink Opcode
begin

text \<open>
  Commands of the simulator's HTTP interface (\<open>src/sim_server.rs\<close>): session identifiers, the pool of
  sessions, the parser of command bodies and their encoding as request frames. \<open>serde_json\<close> is a
  parameter that yields what \<open>Value::get\<close>, \<open>as_str\<close> and \<open>as_u64\<close> find; the postcard serializers are
  the record \<open>request_serializers\<close>. Strings are the lists of their bytes.
\<close>

section \<open>Session identifiers\<close>

definition session_id_byte :: "char \<Rightarrow> bool" where
  "session_id_byte c = (let n = (of_char c :: nat) in
     48 \<le> n \<and> n \<le> 57 \<or> 65 \<le> n \<and> n \<le> 90 \<or> 97 \<le> n \<and> n \<le> 122 \<or> c = CHR ''-'' \<or> c = CHR ''_'')"

definition session_id :: "string option \<Rightarrow> string option" where
  "session_id query =
     (let key = (case query of Some key \<Rightarrow> key | None \<Rightarrow> ''default'') in
      if key = [] \<or> length key > 80 \<or> \<not> list_all session_id_byte key then None else Some key)"

section \<open>The pool of sessions\<close>

text \<open>
  A \<open>HashMap\<close> is an association list with distinct keys, in the unspecified order of its iteration.
  \<open>stopped\<close> is the list of sessions whose stop flag the call raises.
\<close>

definition SESSION_TTL :: nat where "SESSION_TTL = 8 * 60 * 60 * 1000"
definition MAX_SESSIONS :: nat where "MAX_SESSIONS = 64"

record 'x session_entry =
  se_last_access :: nat
  se_session :: 'x

type_synonym 'x sessions = "(string \<times> 'x session_entry) list"

definition alive :: "nat \<Rightarrow> string \<times> 'x session_entry \<Rightarrow> bool" where
  "alive now entry \<longleftrightarrow> now - se_last_access (snd entry) < SESSION_TTL"

fun oldest_id :: "'x sessions \<Rightarrow> string option" where
  "oldest_id [] = None"
| "oldest_id [(key, e)] = Some key"
| "oldest_id ((key, e) # (key', e') # rest) =
     (if se_last_access e \<le> se_last_access e' then oldest_id ((key, e) # rest) else oldest_id ((key', e') # rest))"

definition session_pool :: "nat \<Rightarrow> 'x \<Rightarrow> string \<Rightarrow> 'x sessions \<Rightarrow> string list \<times> 'x sessions" where
  "session_pool now fresh key sessions =
     (let stopped = map fst (filter (\<lambda>e. \<not> alive now e) sessions);
          sessions = filter (alive now) sessions;
          (stopped, sessions) =
            (if map_of sessions key = None \<and> length sessions \<ge> MAX_SESSIONS then
               (case oldest_id sessions of
                  None \<Rightarrow> (stopped, sessions)
                | Some oldest \<Rightarrow> (stopped @ [oldest], filter (\<lambda>e. fst e \<noteq> oldest) sessions))
             else (stopped, sessions));
          sessions = (if map_of sessions key = None
            then sessions @ [(key, \<lparr> se_last_access = now, se_session = fresh \<rparr>)] else sessions)
      in (stopped, map (\<lambda>(i, e). (i, if i = key then e\<lparr> se_last_access := now \<rparr> else e)) sessions))"

section \<open>Commands\<close>

datatype sim_command =
    Recover
  | Grip
  | Abort
  | Open u32
  | Scan u32
  | Solve u32 u32
  | Execute u32 u32 u32
  | Auto u32
  | Moves u32 string
  | LoadScramble string
  | SetAnimationSpeed u32

datatype json_field = JsonString string | JsonUnsigned nat | JsonOther

type_synonym json = "string \<Rightarrow> json_field option"

datatype command_error =
    InvalidJson string
  | MissingCommand
  | InvalidField string
  | MissingSequence
  | BadMultiplier
  | UnknownCommand string

definition field_u32 :: "json \<Rightarrow> string \<Rightarrow> command_error + u32" where
  "field_u32 json name =
     (case json name of
        Some (JsonUnsigned raw) \<Rightarrow> if raw < 2 ^ 32 then Inr (of_nat raw) else Inl (InvalidField name)
      | _ \<Rightarrow> Inl (InvalidField name))"

definition field_string :: "json \<Rightarrow> string \<Rightarrow> string option" where
  "field_string json name = (case json name of Some (JsonString s) \<Rightarrow> Some s | _ \<Rightarrow> None)"

fun bind_sum :: "'e + 'a \<Rightarrow> ('a \<Rightarrow> 'e + 'b) \<Rightarrow> 'e + 'b" where
  "bind_sum (Inl e) f = Inl e"
| "bind_sum (Inr x) f = f x"

definition parse_named :: "json \<Rightarrow> string \<Rightarrow> command_error + sim_command" where
  "parse_named json name =
     (let u = field_u32 json;
          sequence = (case field_string json ''sequence'' of Some s \<Rightarrow> Inr s | None \<Rightarrow> Inl MissingSequence) in
      if name = ''recover'' then Inr sim_command.Recover
      else if name = ''grip'' then Inr sim_command.Grip
      else if name = ''abort'' then Inr sim_command.Abort
      else if name = ''open'' then bind_sum (u ''session_id'') (\<lambda>i. Inr (sim_command.Open i))
      else if name = ''scan'' then bind_sum (u ''session_id'') (\<lambda>i. Inr (sim_command.Scan i))
      else if name = ''solve'' then
        bind_sum (u ''session_id'') (\<lambda>i. bind_sum (u ''scan_revision'') (\<lambda>r. Inr (sim_command.Solve i r)))
      else if name = ''execute'' then
        bind_sum (u ''session_id'') (\<lambda>i. bind_sum (u ''scan_revision'') (\<lambda>r.
          bind_sum (u ''solution_id'') (\<lambda>s. Inr (sim_command.Execute i r s))))
      else if name = ''auto'' then bind_sum (u ''session_id'') (\<lambda>i. Inr (sim_command.Auto i))
      else if name = ''moves'' then
        bind_sum (u ''session_id'') (\<lambda>i. bind_sum sequence (\<lambda>s. Inr (sim_command.Moves i s)))
      else if name = ''load_scramble'' then bind_sum sequence (\<lambda>s. Inr (sim_command.LoadScramble s))
      else if name = ''set_animation_speed'' then
        bind_sum (u ''multiplier'') (\<lambda>m.
          if m \<in> {1, 2, 4, 8} then Inr (sim_command.SetAnimationSpeed m) else Inl BadMultiplier)
      else Inl (UnknownCommand name))"

definition parse_command :: "(string \<Rightarrow> string + json) \<Rightarrow> string \<Rightarrow> command_error + sim_command" where
  "parse_command from_str body =
     (case from_str body of
        Inl e \<Rightarrow> Inl (InvalidJson e)
      | Inr json \<Rightarrow> (case field_string json ''command'' of
          None \<Rightarrow> Inl MissingCommand
        | Some name \<Rightarrow> parse_named json name))"

section \<open>Encoding\<close>

record 'pe request_serializers =
  ser_open :: "u32 \<Rightarrow> u8 list \<Rightarrow> ('pe + nat) \<times> u8 list"
  ser_scan :: "u32 \<Rightarrow> u8 list \<Rightarrow> ('pe + nat) \<times> u8 list"
  ser_solve :: "solve_command \<Rightarrow> u8 list \<Rightarrow> ('pe + nat) \<times> u8 list"
  ser_execute :: "execute_command \<Rightarrow> u8 list \<Rightarrow> ('pe + nat) \<times> u8 list"
  ser_auto :: "u32 \<Rightarrow> u8 list \<Rightarrow> ('pe + nat) \<times> u8 list"
  ser_moves :: "u32 \<times> u8 list \<times> u8 \<Rightarrow> u8 list \<Rightarrow> ('pe + nat) \<times> u8 list"

datatype 'pe command_encode_error =
    Frame "'pe frame_encode_error" | Sequence sequence_error | HandledBySimulator

definition frame_result :: "(('pe frame_encode_error + u8 list) \<times> uart_frame_encoder) option \<Rightarrow>
    (('pe command_encode_error + u8 list) \<times> uart_frame_encoder) option" where
  "frame_result r = map_option (\<lambda>(r, encoder). (case r of Inl e \<Rightarrow> Inl (Frame e) | Inr frame \<Rightarrow> Inr frame, encoder)) r"

definition encode_with :: "('t \<Rightarrow> u8 list \<Rightarrow> ('pe + nat) \<times> u8 list) \<Rightarrow> uart_frame_encoder \<Rightarrow> u32 \<Rightarrow>
    request_opcode \<Rightarrow> 't \<Rightarrow> (('pe command_encode_error + u8 list) \<times> uart_frame_encoder) option" where
  "encode_with ser encoder request_id opcode content =
     frame_result (encode_frame ser encoder message_kind.Request (request_u16 opcode) request_id content)"

definition encode_bare :: "uart_frame_encoder \<Rightarrow> u32 \<Rightarrow> request_opcode \<Rightarrow>
    (('pe command_encode_error + u8 list) \<times> uart_frame_encoder) option" where
  "encode_bare encoder request_id opcode =
     frame_result (encode_empty encoder message_kind.Request (request_u16 opcode) request_id)"

definition encode_command :: "'pe request_serializers \<Rightarrow> uart_frame_encoder \<Rightarrow> u32 \<Rightarrow> sim_command \<Rightarrow>
    (('pe command_encode_error + u8 list) \<times> uart_frame_encoder) option" where
  "encode_command S encoder request_id command =
     (case command of
        sim_command.Recover \<Rightarrow> encode_bare encoder request_id request_opcode.RecoverToOpen
      | sim_command.Grip \<Rightarrow> encode_bare encoder request_id request_opcode.Grip
      | sim_command.Abort \<Rightarrow> encode_bare encoder request_id request_opcode.Abort
      | sim_command.Open session \<Rightarrow> encode_with (ser_open S) encoder request_id request_opcode.Open session
      | sim_command.Scan session \<Rightarrow> encode_with (ser_scan S) encoder request_id request_opcode.StartScan session
      | sim_command.Solve session revision \<Rightarrow>
          encode_with (ser_solve S) encoder request_id request_opcode.Solve
            \<lparr> solve_session_id = session, solve_scan_revision = revision \<rparr>
      | sim_command.Execute session revision solution_id \<Rightarrow>
          encode_with (ser_execute S) encoder request_id request_opcode.Execute
            \<lparr> exec_session_id = session, exec_scan_revision = revision, exec_solution_id = solution_id \<rparr>
      | sim_command.Auto session \<Rightarrow>
          encode_with (ser_auto S) encoder request_id request_opcode.ScanSolveExecute session
      | sim_command.Moves session sequence \<Rightarrow> do {
          r \<leftarrow> sequence_moves sequence;
          (case r of
             Inl e \<Rightarrow> Some (Inl (Sequence e), encoder)
           | Inr (moves, move_count) \<Rightarrow>
               encode_with (ser_moves S) encoder request_id request_opcode.ExecuteMoves
                 (serialize_execute_moves \<lparr> em_session_id = session, em_moves = moves,
                    em_move_count = move_count \<rparr>)) }
      | sim_command.LoadScramble _ \<Rightarrow> Some (Inl HandledBySimulator, encoder)
      | sim_command.SetAnimationSpeed _ \<Rightarrow> Some (Inl HandledBySimulator, encoder))"

section \<open>The pool is bounded and stops what it drops\<close>

definition pool_ok :: "'x sessions \<Rightarrow> bool" where
  "pool_ok sessions \<longleftrightarrow> distinct (map fst sessions) \<and> length sessions \<le> MAX_SESSIONS"

lemma oldest_id_spec:
  assumes "oldest_id xs = Some key"
  shows "\<exists>e. (key, e) \<in> set xs \<and> (\<forall>x \<in> set xs. se_last_access e \<le> se_last_access (snd x))"
  using assms
proof (induction xs rule: oldest_id.induct)
  case (3 k e k' e' rest)
  show ?case
  proof (cases "se_last_access e \<le> se_last_access e'")
    case True
    then obtain d where "(key, d) \<in> set ((k, e) # rest)" "\<forall>x \<in> set ((k, e) # rest). se_last_access d \<le> se_last_access (snd x)"
      using 3 by auto
    then show ?thesis using True by (intro exI [of _ d]) auto
  next
    case False
    then obtain d where "(key, d) \<in> set ((k', e') # rest)" "\<forall>x \<in> set ((k', e') # rest). se_last_access d \<le> se_last_access (snd x)"
      using 3 by auto
    then show ?thesis using False by (intro exI [of _ d]) auto
  qed
qed auto

lemma oldest_id_some: "xs \<noteq> [] \<Longrightarrow> oldest_id xs \<noteq> None"
  by (induction xs rule: oldest_id.induct) auto

lemma map_of_filter_key: "map_of (filter (\<lambda>e. fst e \<noteq> k) xs) i = (if i = k then None else map_of xs i)"
  by (induction xs) auto

lemma map_of_filter_entry:
  "distinct (map fst xs) \<Longrightarrow> map_of (filter P xs) i = (case map_of xs i of
     Some e \<Rightarrow> if P (i, e) then Some e else None | None \<Rightarrow> None)"
  by (induction xs) (auto simp: map_of_eq_None_iff split: option.split)

lemma length_filter_key:
  assumes "k \<in> fst ` set xs"
  shows "length (filter (\<lambda>e. fst e \<noteq> k) xs) < length xs"
proof -
  obtain v where "(k, v) \<in> set xs" using assms by auto
  then show ?thesis by (rule length_filter_less) simp
qed

lemma map_of_touch: "map_of (map (\<lambda>(i, e). (i, if i = k then g e else e)) xs) i =
    map_option (\<lambda>e. if i = k then g e else e) (map_of xs i)"
  by (induction xs) auto

text \<open>The sessions before the requested one is added: the live ones, less the oldest if there are too many.\<close>

definition survivors :: "nat \<Rightarrow> string \<Rightarrow> 'x sessions \<Rightarrow> 'x sessions" where
  "survivors now key sessions =
     (let live = filter (alive now) sessions in
      if map_of live key = None \<and> length live \<ge> MAX_SESSIONS
      then filter (\<lambda>e. Some (fst e) \<noteq> oldest_id live) live else live)"

lemma session_pool_survivors:
  "snd (session_pool now fresh key sessions) = map (\<lambda>(i, e). (i, if i = key then e\<lparr> se_last_access := now \<rparr> else e))
     (survivors now key sessions @ (if map_of (survivors now key sessions) key = None
        then [(key, \<lparr> se_last_access = now, se_session = fresh \<rparr>)] else []))"
  by (auto simp: session_pool_def survivors_def Let_def split: option.split)

lemma survivors_ok:
  assumes "pool_ok sessions"
  shows "distinct (map fst (survivors now key sessions)) \<and> length (survivors now key sessions) \<le> MAX_SESSIONS \<and>
    (map_of (survivors now key sessions) key = None \<longrightarrow> length (survivors now key sessions) < MAX_SESSIONS)"
proof -
  define live where "live = filter (alive now) sessions"
  have live: "distinct (map fst live)" "length live \<le> MAX_SESSIONS"
    using assms by (auto simp: live_def pool_ok_def distinct_map_filter intro: le_trans [OF length_filter_le])
  show ?thesis
  proof (cases "map_of live key = None \<and> length live \<ge> MAX_SESSIONS")
    case True
    then have "live \<noteq> []" by (auto simp: MAX_SESSIONS_def)
    then obtain k where k: "oldest_id live = Some k" using oldest_id_some by blast
    then have "k \<in> fst ` set live" using oldest_id_spec by force
    then have "length (filter (\<lambda>e. fst e \<noteq> k) live) < length live" by (rule length_filter_key)
    moreover have "survivors now key sessions = filter (\<lambda>e. fst e \<noteq> k) live"
      using True k by (simp add: survivors_def flip: live_def)
    ultimately show ?thesis using live by (simp add: distinct_map_filter)
  next
    case False
    then have "survivors now key sessions = live" by (auto simp: survivors_def simp flip: live_def)
    with False live show ?thesis by auto
  qed
qed

lemma map_of_survivors:
  assumes "pool_ok sessions"
  shows "map_of (survivors now key sessions) i = (if i \<in> set (fst (session_pool now fresh key sessions)) then None
      else map_of sessions i)"
    and "i \<in> set (fst (session_pool now fresh key sessions)) \<Longrightarrow> \<exists>e. map_of sessions i = Some e \<and>
      (\<not> alive now (i, e) \<or> map_of (filter (alive now) sessions) key = None \<and>
         length (filter (alive now) sessions) = MAX_SESSIONS \<and>
         (\<forall>x \<in> set (filter (alive now) sessions). se_last_access e \<le> se_last_access (snd x)))"
proof -
  define live where "live = filter (alive now) sessions"
  have d: "distinct (map fst sessions)" "length live \<le> MAX_SESSIONS"
    using assms by (auto simp: live_def pool_ok_def intro: le_trans [OF length_filter_le])
  have dead: "i \<in> fst ` set (filter (\<lambda>e. \<not> alive now e) sessions) \<longleftrightarrow> (\<exists>e. map_of sessions i = Some e \<and> \<not> alive now (i, e))" for i
    using d(1) by (force simp: image_iff)
  have live: "map_of live i = (case map_of sessions i of Some e \<Rightarrow> if alive now (i, e) then Some e else None | None \<Rightarrow> None)" for i
    unfolding live_def by (rule map_of_filter_entry [OF d(1)])
  have "map_of (survivors now key sessions) i = (if i \<in> set (fst (session_pool now fresh key sessions)) then None
      else map_of sessions i) \<and> (i \<in> set (fst (session_pool now fresh key sessions)) \<longrightarrow> (\<exists>e. map_of sessions i = Some e \<and>
      (\<not> alive now (i, e) \<or> map_of live key = None \<and> length live = MAX_SESSIONS \<and>
         (\<forall>x \<in> set live. se_last_access e \<le> se_last_access (snd x)))))"
  proof (cases "map_of live key = None \<and> length live \<ge> MAX_SESSIONS")
    case True
    then have "live \<noteq> []" by (auto simp: MAX_SESSIONS_def)
    then obtain k where k: "oldest_id live = Some k" using oldest_id_some by blast
    then obtain e where e: "(k, e) \<in> set live" "\<forall>x \<in> set live. se_last_access e \<le> se_last_access (snd x)"
      using oldest_id_spec by blast
    have "map_of sessions k = Some e" using e(1) d(1) by (simp add: live_def)
    moreover have "set (fst (session_pool now fresh key sessions)) =
        fst ` set (filter (\<lambda>e. \<not> alive now e) sessions) \<union> {k}"
      using True k by (simp add: session_pool_def Let_def flip: live_def)
    moreover have "survivors now key sessions = filter (\<lambda>e. fst e \<noteq> k) live"
      using True k by (simp add: survivors_def flip: live_def)
    ultimately show ?thesis
      using True d(2) e(2) dead [of i] live [of i] by (auto simp: map_of_filter_key split: option.splits if_splits)
  next
    case False
    then have "set (fst (session_pool now fresh key sessions)) = fst ` set (filter (\<lambda>e. \<not> alive now e) sessions)"
      "survivors now key sessions = live"
      by (auto simp: session_pool_def survivors_def Let_def simp flip: live_def)
    then show ?thesis using dead [of i] live [of i] by (auto split: option.splits if_splits)
  qed
  then show "map_of (survivors now key sessions) i = (if i \<in> set (fst (session_pool now fresh key sessions)) then None
      else map_of sessions i)"
    and "i \<in> set (fst (session_pool now fresh key sessions)) \<Longrightarrow> \<exists>e. map_of sessions i = Some e \<and>
      (\<not> alive now (i, e) \<or> map_of (filter (alive now) sessions) key = None \<and>
         length (filter (alive now) sessions) = MAX_SESSIONS \<and>
         (\<forall>x \<in> set (filter (alive now) sessions). se_last_access e \<le> se_last_access (snd x)))"
    unfolding live_def by blast+
qed

theorem session_pool_spec:
  assumes "pool_ok sessions" "session_pool now fresh key sessions = (stopped, sessions')"
  shows "pool_ok sessions' \<and>
    map_of sessions' key = Some (case map_of (filter (alive now) sessions) key of
      Some e \<Rightarrow> e\<lparr> se_last_access := now \<rparr> | None \<Rightarrow> \<lparr> se_last_access = now, se_session = fresh \<rparr>) \<and>
    (\<forall>i. i \<noteq> key \<longrightarrow> map_of sessions' i = (if i \<in> set stopped then None else map_of sessions i)) \<and>
    (\<forall>i \<in> set stopped. \<exists>e. map_of sessions i = Some e \<and>
      (\<not> alive now (i, e) \<or> map_of (filter (alive now) sessions) key = None \<and>
         length (filter (alive now) sessions) = MAX_SESSIONS \<and>
         (\<forall>x \<in> set (filter (alive now) sessions). se_last_access e \<le> se_last_access (snd x))))"
proof -
  let ?s = "survivors now key sessions"
  have s': "sessions' = map (\<lambda>(i, e). (i, if i = key then e\<lparr> se_last_access := now \<rparr> else e))
     (?s @ (if map_of ?s key = None then [(key, \<lparr> se_last_access = now, se_session = fresh \<rparr>)] else []))"
    using session_pool_survivors [of now fresh key sessions] assms(2) by simp
  have st: "stopped = fst (session_pool now fresh key sessions)" using assms(2) by simp
  note ok = survivors_ok [OF assms(1), of now key]
  note surv = map_of_survivors [OF assms(1), where now = now and key = key and fresh = fresh, folded st]
  have keys: "map fst (map (\<lambda>(i, e). (i, h i e)) xs) = map fst xs" for xs :: "'a sessions" and h
    by (induction xs) auto
  have "pool_ok sessions'"
    unfolding pool_ok_def s' keys length_map using ok by (auto simp: map_of_eq_None_iff)
  moreover have "map_of ?s key = map_of (filter (alive now) sessions) key"
  proof (cases "oldest_id (filter (alive now) sessions)")
    case None
    then show ?thesis by (simp add: survivors_def Let_def)
  next
    case (Some k)
    then show ?thesis by (simp add: survivors_def map_of_filter_key Let_def del: filter_filter)
  qed
  then have "map_of sessions' key = Some (case map_of (filter (alive now) sessions) key of
      Some e \<Rightarrow> e\<lparr> se_last_access := now \<rparr> | None \<Rightarrow> \<lparr> se_last_access = now, se_session = fresh \<rparr>)"
    unfolding s' map_of_touch by (auto simp: map_add_def split: option.split)
  moreover have "i \<noteq> key \<Longrightarrow> map_of sessions' i = (if i \<in> set stopped then None else map_of sessions i)" for i
    unfolding s' map_of_touch using surv(1) [of i] by (auto simp: map_add_def option.map_id0 split: option.split)
  ultimately show ?thesis using surv(2) by blast
qed

end
