(* ===== verification/SimCube.thy ===== *)
theory SimCube
  imports LinkState "HOL-Library.More_List"
begin

text \<open>
  The cube of \<open>src/sim_server.rs\<close>: twenty-six cubies with integer positions and bases that face turns
  rotate, and the facelets read off them. An \<open>[i8; 3]\<close> is a triple of integers, which stay between -1
  and 1 (lemma \<open>cube_reach_bounded\<close>); \<open>None\<close> is an index panic or the failed debug assertion.
\<close>

section \<open>Vectors\<close>

type_synonym vec = "int \<times> int \<times> int"

fun dot :: "vec \<Rightarrow> vec \<Rightarrow> int" where
  "dot (a, b, c) (x, y, z) = a * x + b * y + c * z"

fun cross :: "vec \<Rightarrow> vec \<Rightarrow> vec" where
  "cross (a, b, c) (x, y, z) = (b * z - c * y, c * x - a * z, a * y - b * x)"

fun plus_vec :: "vec \<Rightarrow> vec \<Rightarrow> vec" where
  "plus_vec (a, b, c) (x, y, z) = (a + x, b + y, c + z)"

fun scale :: "int \<Rightarrow> vec \<Rightarrow> vec" where
  "scale k (x, y, z) = (k * x, k * y, k * z)"

definition rotate_quarter :: "vec \<Rightarrow> vec \<Rightarrow> vec" where
  "rotate_quarter vector axis = plus_vec (cross axis vector) (scale (dot axis vector) axis)"

definition rotate_vec :: "vec \<Rightarrow> vec \<Rightarrow> int \<Rightarrow> vec" where
  "rotate_vec vector axis turns = ((\<lambda>v. rotate_quarter v axis) ^^ nat (turns mod 4)) vector"

section \<open>Cubies and moves\<close>

record visual_move =
  vm_face :: cube_face
  vm_turns :: int

record server_cubie =
  cb_home :: vec
  cb_position :: vec
  cb_basis :: "vec \<times> vec \<times> vec"

record server_cube =
  sc_cubies :: "server_cubie list"
  sc_revision :: u64

definition unit_basis :: "vec \<times> vec \<times> vec" where
  "unit_basis = ((1, 0, 0), (0, 1, 0), (0, 0, 1))"

definition home_positions :: "vec list" where
  "home_positions = filter (\<lambda>p. p \<noteq> (0, 0, 0))
     [(x, y, z). x \<leftarrow> [-1, 0, 1], y \<leftarrow> [-1, 0, 1], z \<leftarrow> [-1, 0, 1]]"

definition solved_cube :: server_cube where
  "solved_cube = \<lparr> sc_cubies = map (\<lambda>p. \<lparr> cb_home = p, cb_position = p, cb_basis = unit_basis \<rparr>) home_positions,
     sc_revision = 0 \<rparr>"

fun face_normal :: "cube_face \<Rightarrow> vec" where
  "face_normal cube_face.Up = (0, 1, 0)"
| "face_normal cube_face.Right = (1, 0, 0)"
| "face_normal cube_face.Front = (0, 0, 1)"
| "face_normal cube_face.Down = (0, -1, 0)"
| "face_normal cube_face.Left = (-1, 0, 0)"
| "face_normal cube_face.Back = (0, 0, -1)"

fun map_basis :: "(vec \<Rightarrow> vec) \<Rightarrow> vec \<times> vec \<times> vec \<Rightarrow> vec \<times> vec \<times> vec" where
  "map_basis f (u, v, w) = (f u, f v, f w)"

definition turn_cubie :: "vec \<Rightarrow> int \<Rightarrow> server_cubie \<Rightarrow> server_cubie" where
  "turn_cubie normal turns c =
     (if dot (cb_position c) normal \<le> 0 then c
      else c\<lparr> cb_position := rotate_vec (cb_position c) normal turns,
              cb_basis := map_basis (\<lambda>v. rotate_vec v normal turns) (cb_basis c) \<rparr>)"

definition apply_move :: "visual_move \<Rightarrow> server_cube \<Rightarrow> server_cube" where
  "apply_move m cube =
     cube\<lparr> sc_cubies := map (turn_cubie (face_normal (vm_face m)) (vm_turns m)) (sc_cubies cube),
           sc_revision := sc_revision cube + 1 \<rparr>"

section \<open>Facelets\<close>

definition server_sticker_color :: "vec \<Rightarrow> u8" where
  "server_sticker_color local_normal =
     (if local_normal = (0, 1, 0) then 0
      else if local_normal = (0, -1, 0) then 1
      else if local_normal = (1, 0, 0) then 2
      else if local_normal = (-1, 0, 0) then 3
      else if local_normal = (0, 0, 1) then 4
      else if local_normal = (0, 0, -1) then 5
      else 255)"

fun transform :: "vec \<times> vec \<times> vec \<Rightarrow> vec \<Rightarrow> vec" where
  "transform (u, v, w) (x, y, z) = plus_vec (plus_vec (scale x u) (scale y v)) (scale z w)"

definition transform_local :: "server_cubie \<Rightarrow> vec \<Rightarrow> vec" where
  "transform_local c l = transform (cb_basis c) l"

text \<open>Normal, horizontal and vertical direction of each face, in the order of \<open>CubeFace\<close>.\<close>

definition views :: "(vec \<times> vec \<times> vec) list" where
  "views = [((0, 1, 0), (1, 0, 0), (0, 0, -1)),
            ((1, 0, 0), (0, 0, -1), (0, 1, 0)),
            ((0, 0, 1), (1, 0, 0), (0, 1, 0)),
            ((0, -1, 0), (1, 0, 0), (0, 0, 1)),
            ((-1, 0, 0), (0, 0, 1), (0, 1, 0)),
            ((0, 0, -1), (-1, 0, 0), (0, 1, 0))]"

fun find_view :: "nat \<Rightarrow> (vec \<times> vec \<times> vec) list \<Rightarrow> vec \<Rightarrow> (nat \<times> vec \<times> vec) option" where
  "find_view i [] world = None"
| "find_view i ((normal, h, v) # vs) world = (if normal = world then Some (i, h, v) else find_view (Suc i) vs world)"

text \<open>The stickers of a cubie: the local normals of its outer sides.\<close>

fun sticker_normals :: "vec \<Rightarrow> vec list" where
  "sticker_normals (x, y, z) =
     (if x \<noteq> 0 then [(sgn x, 0, 0)] else []) @ (if y \<noteq> 0 then [(0, sgn y, 0)] else []) @
     (if z \<noteq> 0 then [(0, 0, sgn z)] else [])"

definition facelet_index :: "vec \<Rightarrow> vec \<Rightarrow> nat option option" where
  "facelet_index position world =
     (case find_view 0 views world of
        None \<Rightarrow> Some None
      | Some (face, horizontal, vertical) \<Rightarrow>
          let column = dot position horizontal + 1;
              row = 1 - dot position vertical in
          if row < 0 \<or> column < 0 then None
          else Some (Some (face * 9 + nat row * 3 + nat column)))"

definition put_sticker :: "server_cubie \<Rightarrow> vec \<Rightarrow> u8 list \<Rightarrow> u8 list option" where
  "put_sticker c l facelets = do {
     i \<leftarrow> facelet_index (cb_position c) (transform_local c l);
     (case i of None \<Rightarrow> Some facelets | Some i \<Rightarrow> poke facelets i (server_sticker_color l)) }"

fun put_stickers :: "(server_cubie \<times> vec) list \<Rightarrow> u8 list \<Rightarrow> u8 list option" where
  "put_stickers [] facelets = Some facelets"
| "put_stickers ((c, l) # xs) facelets = do { facelets \<leftarrow> put_sticker c l facelets; put_stickers xs facelets }"

definition cube_stickers :: "server_cube \<Rightarrow> (server_cubie \<times> vec) list" where
  "cube_stickers cube = concat (map (\<lambda>c. map (Pair c) (sticker_normals (cb_home c))) (sc_cubies cube))"

definition cube_facelets :: "server_cube \<Rightarrow> u8 list option" where
  "cube_facelets cube = do {
     fs \<leftarrow> put_stickers (cube_stickers cube) (replicate 54 255);
     if \<forall>c \<in> set fs. c \<noteq> 255 then Some fs else None }"

definition solved_facelets :: "u8 list" where
  "solved_facelets = replicate 9 0 @ replicate 9 2 @ replicate 9 4 @ replicate 9 1 @ replicate 9 3 @ replicate 9 5"

end
