(* ===== verification/SimCubeSafety.thy ===== *)
theory SimCubeSafety
  imports SimCube "HOL-Library.Multiset"
begin

text \<open>
  Face turns of the simulated cube permute its sticker slots: every reachable cube shows each colour
  nine times with fixed centres, no index is out of range, and turns are undone by their inverses.
\<close>

section \<open>Rotations\<close>

lemma dot_rotate_quarter:
  "dot (rotate_quarter v (face_normal f)) (face_normal f) = dot v (face_normal f)"
  by (cases v; cases f) (simp_all add: rotate_quarter_def)

lemma rotate_quarter_four:
  "rotate_quarter (rotate_quarter (rotate_quarter (rotate_quarter v (face_normal f)) (face_normal f))
     (face_normal f)) (face_normal f) = v"
  by (cases v; cases f) (simp_all add: rotate_quarter_def)

lemma rotate_quarter_cycle: "((\<lambda>v. rotate_quarter v (face_normal f)) ^^ (4 * k)) v = v"
proof (induction k)
  case (Suc k)
  have "4 * Suc k = 4 + 4 * k" by simp
  then show ?case using Suc by (simp add: funpow_add eval_nat_numeral rotate_quarter_four)
qed simp

lemma rotate_vec_add:
  "rotate_vec (rotate_vec v (face_normal f) s) (face_normal f) t = rotate_vec v (face_normal f) (s + t)"
proof -
  let ?q = "\<lambda>v. rotate_quarter v (face_normal f)"
  have reduce: "(?q ^^ k) v = (?q ^^ (k mod 4)) v" for k
  proof -
    have "(?q ^^ k) v = (?q ^^ (k mod 4 + 4 * (k div 4))) v" by (simp only: mod_mult_div_eq)
    then show ?thesis by (simp only: funpow_add comp_apply rotate_quarter_cycle)
  qed
  have "(nat (t mod 4) + nat (s mod 4)) mod 4 = nat ((t mod 4 + s mod 4) mod 4)"
    by (subst nat_mod_distrib) (simp_all add: nat_add_distrib)
  also have "\<dots> = nat ((s + t) mod 4)" by (simp only: mod_add_eq add.commute)
  finally have "(?q ^^ (nat (t mod 4) + nat (s mod 4))) v = (?q ^^ nat ((s + t) mod 4)) v"
    using reduce [of "nat (t mod 4) + nat (s mod 4)"] by (simp only:)
  then show ?thesis by (simp only: rotate_vec_def funpow_add comp_apply)
qed

lemma rotate_vec_zero [simp]: "rotate_vec v a 0 = v"
  by (simp add: rotate_vec_def)

lemma dot_rotate_vec:
  "dot (rotate_vec v (face_normal f) t) (face_normal f) = dot v (face_normal f)"
proof -
  have "dot (((\<lambda>v. rotate_quarter v (face_normal f)) ^^ n) v) (face_normal f) = dot v (face_normal f)" for n
    by (induction n) (simp_all add: dot_rotate_quarter)
  then show ?thesis by (simp add: rotate_vec_def)
qed

lemma transform_rotate_quarter:
  "transform (map_basis (\<lambda>v. rotate_quarter v (face_normal f)) b) l = rotate_quarter (transform b l) (face_normal f)"
  by (cases b; cases l; cases f) (auto simp: rotate_quarter_def algebra_simps)

lemma map_basis_comp: "map_basis g (map_basis f b) = map_basis (\<lambda>v. g (f v)) b"
  by (cases b) simp

lemma map_basis_id: "map_basis (\<lambda>v. v) b = b"
  by (cases b) simp

lemma transform_rotate_vec:
  "transform (map_basis (\<lambda>v. rotate_vec v (face_normal f) t) b) l = rotate_vec (transform b l) (face_normal f) t"
proof -
  let ?q = "\<lambda>v. rotate_quarter v (face_normal f)"
  have "transform (map_basis (?q ^^ n) b) l = (?q ^^ n) (transform b l)" for n
  proof (induction n)
    case 0
    then show ?case by (cases b) (simp add: map_basis_id)
  next
    case (Suc n)
    have "map_basis (?q ^^ Suc n) b = map_basis ?q (map_basis (?q ^^ n) b)"
      by (simp add: map_basis_comp comp_def)
    then have "transform (map_basis (?q ^^ Suc n) b) l = ?q (transform (map_basis (?q ^^ n) b) l)"
      by (simp only: transform_rotate_quarter)
    also have "\<dots> = (?q ^^ Suc n) (transform b l)" by (simp add: Suc)
    finally show ?case .
  qed
  then show ?thesis by (simp add: rotate_vec_def)
qed

section \<open>Moves and their inverses\<close>

lemma turn_cubie_add:
  "turn_cubie (face_normal f) t (turn_cubie (face_normal f) s c) = turn_cubie (face_normal f) (s + t) c"
  by (cases c) (auto simp: turn_cubie_def dot_rotate_vec map_basis_comp rotate_vec_add)

lemma turn_cubie_zero: "turn_cubie n 0 c = c"
  by (simp add: turn_cubie_def map_basis_id)

lemma turn_cubie_mod: "turn_cubie n (t mod 4) c = turn_cubie n t c"
  by (simp add: turn_cubie_def rotate_vec_def)

definition turns_on :: "cube_face \<Rightarrow> int \<Rightarrow> visual_move" where
  "turns_on f t = \<lparr> vm_face = f, vm_turns = t \<rparr>"

lemma apply_move_add:
  "sc_cubies (apply_move (turns_on f t) (apply_move (turns_on f s) cube)) =
     sc_cubies (apply_move (turns_on f (s + t)) cube)"
  by (simp add: apply_move_def turns_on_def turn_cubie_add)

lemma apply_move_mod:
  "t mod 4 = 0 \<Longrightarrow> sc_cubies (apply_move (turns_on f t) cube) = sc_cubies cube"
  using turn_cubie_mod [of _ t] by (simp add: apply_move_def turns_on_def turn_cubie_zero map_idI)

text \<open>A sequence of turns is undone by the opposite turns in reverse order.\<close>

definition undo :: "visual_move list \<Rightarrow> visual_move list" where
  "undo ms = rev (map (\<lambda>m. turns_on (vm_face m) (- vm_turns m)) ms)"

lemma apply_move_cubies: "sc_cubies c = sc_cubies d \<Longrightarrow> sc_cubies (apply_move m c) = sc_cubies (apply_move m d)"
  by (simp add: apply_move_def)

lemma undo_moves: "sc_cubies (fold apply_move (undo ms) (fold apply_move ms c)) = sc_cubies c"
proof (induction ms arbitrary: c)
  case (Cons m ms)
  have m: "turns_on (vm_face m) (vm_turns m) = m" by (simp add: turns_on_def)
  let ?undone = "apply_move (turns_on (vm_face m) (- vm_turns m))"
  have "sc_cubies (fold apply_move (undo (m # ms)) (fold apply_move (m # ms) c)) =
      sc_cubies (?undone (fold apply_move (undo ms) (fold apply_move ms (apply_move m c))))"
    by (simp add: undo_def)
  also have "\<dots> = sc_cubies (?undone (apply_move m c))" by (rule apply_move_cubies [OF Cons.IH])
  also have "\<dots> = sc_cubies c"
    using apply_move_add [of "vm_face m" "- vm_turns m" "vm_turns m" c] apply_move_mod [of 0 "vm_face m" c] m by simp
  finally show ?case .
qed (simp add: undo_def)

section \<open>Sticker slots\<close>

definition slot :: "server_cubie \<times> vec \<Rightarrow> vec \<times> vec" where
  "slot s = (cb_position (fst s), transform_local (fst s) (snd s))"

definition all_slots :: "(vec \<times> vec) list" where
  "all_slots = concat (map (\<lambda>p. map (Pair p) (sticker_normals p)) home_positions)"

definition turn_slot :: "vec \<Rightarrow> int \<Rightarrow> vec \<times> vec \<Rightarrow> vec \<times> vec" where
  "turn_slot normal turns s =
     (if dot (fst s) normal \<le> 0 then s
      else (rotate_vec (fst s) normal turns, rotate_vec (snd s) normal turns))"

definition quarter_slot :: "vec \<Rightarrow> vec \<times> vec \<Rightarrow> vec \<times> vec" where
  "quarter_slot normal s =
     (if dot (fst s) normal \<le> 0 then s
      else (rotate_quarter (fst s) normal, rotate_quarter (snd s) normal))"

lemma turn_slot_quarters: "turn_slot (face_normal f) t = quarter_slot (face_normal f) ^^ nat (t mod 4)"
proof
  fix s
  let ?n = "face_normal f"
  have *: "(quarter_slot ?n ^^ k) s = (if dot (fst s) ?n \<le> 0 then s
      else (((\<lambda>v. rotate_quarter v ?n) ^^ k) (fst s), ((\<lambda>v. rotate_quarter v ?n) ^^ k) (snd s)))" for k
  proof (induction k)
    case (Suc k)
    have "dot (((\<lambda>v. rotate_quarter v ?n) ^^ k) (fst s)) ?n = dot (fst s) ?n"
      by (induction k) (simp_all add: dot_rotate_quarter)
    with Suc show ?case by (auto simp: quarter_slot_def)
  qed simp
  show "turn_slot ?n t s = (quarter_slot ?n ^^ nat (t mod 4)) s"
    by (simp add: * turn_slot_def rotate_vec_def)
qed

lemma length_all_slots: "length all_slots = 54"
  by code_simp

lemma quarter_slots:
  "distinct (map (quarter_slot (face_normal f)) all_slots) \<and>
     list_all (\<lambda>s. List.member all_slots (quarter_slot (face_normal f) s)) all_slots"
  by (cases f; simp only:; code_simp)

lemma quarter_permutes: "bij_betw (quarter_slot (face_normal f)) (set all_slots) (set all_slots)"
proof -
  have "inj_on (quarter_slot (face_normal f)) (set all_slots)"
    using quarter_slots [of f] by (simp add: distinct_map)
  moreover have "quarter_slot (face_normal f) ` set all_slots \<subseteq> set all_slots"
    using quarter_slots [of f] by (auto simp: list_all_iff)
  ultimately show ?thesis
    by (simp add: bij_betw_def endo_inj_surj)
qed

lemma turn_permutes: "bij_betw (turn_slot (face_normal f) t) (set all_slots) (set all_slots)"
  unfolding turn_slot_quarters by (rule bij_betw_funpow [OF quarter_permutes])

section \<open>Reachable cubes\<close>

inductive cube_reach :: "server_cube \<Rightarrow> bool" where
  solved: "cube_reach solved_cube"
| move: "cube_reach cube \<Longrightarrow> cube_reach (apply_move m cube)"

lemma slots_move:
  "map slot (cube_stickers (apply_move m cube)) =
     map (turn_slot (face_normal (vm_face m)) (vm_turns m)) (map slot (cube_stickers cube))"
proof -
  have "slot (turn_cubie (face_normal f) t c, l) = turn_slot (face_normal f) t (slot (c, l))" for f t c l
    by (simp add: slot_def turn_slot_def turn_cubie_def transform_local_def transform_rotate_vec)
  moreover have "cb_home (turn_cubie n t c) = cb_home c" for n t c
    by (simp add: turn_cubie_def)
  ultimately show ?thesis
    by (simp add: cube_stickers_def apply_move_def map_concat comp_def)
qed

lemma normals_move: "map snd (cube_stickers (apply_move m cube)) = map snd (cube_stickers cube)"
proof -
  have "cb_home (turn_cubie n t c) = cb_home c" for n t c
    by (simp add: turn_cubie_def)
  then show ?thesis by (simp add: cube_stickers_def apply_move_def map_concat comp_def)
qed

lemma slots_solved: "map slot (cube_stickers solved_cube) = all_slots"
proof -
  have "transform unit_basis l = l" for l
    by (cases l) (simp add: unit_basis_def)
  then show ?thesis
    by (simp add: cube_stickers_def solved_cube_def all_slots_def map_concat comp_def slot_def transform_local_def)
qed

lemma cube_reach_slots:
  assumes "cube_reach cube"
  shows "distinct (map slot (cube_stickers cube)) \<and> set (map slot (cube_stickers cube)) = set all_slots \<and>
    map snd (cube_stickers cube) = map snd (cube_stickers solved_cube)"
  using assms
proof (induction)
  case solved
  have "distinct all_slots" by code_simp
  then show ?case unfolding slots_solved by simp
next
  case (move cube m)
  let ?turn = "turn_slot (face_normal (vm_face m)) (vm_turns m)"
  have p: "inj_on ?turn (set all_slots)" "?turn ` set all_slots = set all_slots"
    using turn_permutes [of "vm_face m" "vm_turns m"] by (simp_all add: bij_betw_def)
  from move.IH have "distinct (map ?turn (map slot (cube_stickers cube)))"
    using p(1) unfolding distinct_map [of ?turn] by simp
  moreover from move.IH have "set (map ?turn (map slot (cube_stickers cube))) = set all_slots"
    using p(2) unfolding set_map [of ?turn] by simp
  ultimately show ?case using move.IH by (simp only: slots_move normals_move)
qed

section \<open>Facelets of reachable cubes\<close>

definition index_of :: "vec \<times> vec \<Rightarrow> nat" where
  "index_of s = the (the (facelet_index (fst s) (snd s)))"

lemma slot_indices:
  "list_all (\<lambda>s. facelet_index (fst s) (snd s) = Some (Some (index_of s)) \<and> index_of s < 54) all_slots"
  by code_simp

lemma slot_index:
  "s \<in> set all_slots \<Longrightarrow> facelet_index (fst s) (snd s) = Some (Some (index_of s)) \<and> index_of s < 54"
  using slot_indices by (auto simp: list_all_iff)

lemma index_of_inj: "inj_on index_of (set all_slots)"
proof -
  have "distinct (map index_of all_slots)" by code_simp
  then show ?thesis by (simp add: distinct_map)
qed

text \<open>Writing stickers at distinct indices makes each readable at its index.\<close>

lemma put_stickers_spec:
  assumes "\<forall>s \<in> set xs. slot s \<in> set all_slots" "distinct (map (index_of \<circ> slot) xs)" "length fs = 54"
  shows "\<exists>fs'. put_stickers xs fs = Some fs' \<and> length fs' = 54 \<and>
    (\<forall>s \<in> set xs. fs' ! index_of (slot s) = server_sticker_color (snd s)) \<and>
    (\<forall>i. i \<notin> set (map (index_of \<circ> slot) xs) \<longrightarrow> fs' ! i = fs ! i)"
  using assms
proof (induction xs arbitrary: fs)
  case (Cons x xs)
  obtain c l where x: "x = (c, l)" by (cases x)
  let ?i = "index_of (slot (c, l))"
  have i: "facelet_index (cb_position c) (transform_local c l) = Some (Some ?i)" "?i < 54"
    using slot_index [of "slot (c, l)"] Cons.prems(1) x by (simp_all add: slot_def)
  then have put: "put_sticker c l fs = Some (fs[?i := server_sticker_color l])"
    using Cons.prems(3) by (simp add: put_sticker_def poke_def)
  obtain fs' where fs': "put_stickers xs (fs[?i := server_sticker_color l]) = Some fs'" "length fs' = 54"
    "\<forall>s \<in> set xs. fs' ! index_of (slot s) = server_sticker_color (snd s)"
    "\<forall>i. i \<notin> set (map (index_of \<circ> slot) xs) \<longrightarrow> fs' ! i = fs[?i := server_sticker_color l] ! i"
    using Cons.IH [of "fs[?i := server_sticker_color l]"] Cons.prems by (auto simp: x)
  have "?i \<notin> set (map (index_of \<circ> slot) xs)" using Cons.prems(2) by (simp add: x)
  with fs' put i(2) Cons.prems(3) show ?case
    by (intro exI [of _ fs']) (auto simp: x)
qed simp

definition shown :: "server_cube \<Rightarrow> u8 list \<Rightarrow> bool" where
  "shown cube fs \<longleftrightarrow> cube_facelets cube = Some fs \<and> length fs = 54 \<and>
     (\<forall>s \<in> set (cube_stickers cube). fs ! index_of (slot s) = server_sticker_color (snd s))"

lemma reach_stickers:
  assumes "cube_reach cube"
  shows "\<forall>s \<in> set (cube_stickers cube). slot s \<in> set all_slots" "distinct (map (index_of \<circ> slot) (cube_stickers cube))"
proof -
  note r = cube_reach_slots [OF assms]
  then show "\<forall>s \<in> set (cube_stickers cube). slot s \<in> set all_slots" by auto
  have "distinct (map index_of (map slot (cube_stickers cube)))"
    using r index_of_inj unfolding distinct_map [of index_of] by simp
  then show "distinct (map (index_of \<circ> slot) (cube_stickers cube))" by simp
qed

text \<open>Every index is written.\<close>

lemma reach_indices:
  assumes "cube_reach cube"
  shows "mset (map (index_of \<circ> slot) (cube_stickers cube)) = mset ([0..<54] :: nat list)"
proof -
  have "set (map (index_of \<circ> slot) (cube_stickers cube)) \<subseteq> {0..<54}"
  proof
    fix i
    assume "i \<in> set (map (index_of \<circ> slot) (cube_stickers cube))"
    then obtain s where "s \<in> set (cube_stickers cube)" "i = index_of (slot s)"
      unfolding set_map image_iff comp_apply by blast
    then show "i \<in> {0..<54}" using reach_stickers(1) [OF assms] slot_index [of "slot s"] by simp
  qed
  moreover have "card (set (map (index_of \<circ> slot) (cube_stickers cube))) = 54"
  proof -
    have "length (cube_stickers cube) = 54"
      using cube_reach_slots [OF assms] length_all_slots
      by (metis length_map slots_solved)
    then show ?thesis using distinct_card [OF reach_stickers(2) [OF assms]] by simp
  qed
  ultimately have "set (map (index_of \<circ> slot) (cube_stickers cube)) = set ([0..<54] :: nat list)"
    using card_subset_eq [of "{0..<54 :: nat}"] by simp
  then show ?thesis
    using reach_stickers(2) [OF assms] by (metis distinct_upt set_eq_iff_mset_eq_distinct)
qed

lemma shown_colors:
  assumes "cube_reach cube" "length fs = 54"
    "\<forall>s \<in> set (cube_stickers cube). fs ! index_of (slot s) = server_sticker_color (snd s)"
  shows "mset fs = mset solved_facelets"
proof -
  have "mset fs = image_mset (\<lambda>i. fs ! i) (mset ([0..<54] :: nat list))"
    using assms(2) by (metis map_nth mset_map)
  also have "\<dots> = image_mset (\<lambda>i. fs ! i) (mset (map (index_of \<circ> slot) (cube_stickers cube)))"
    by (simp only: reach_indices [OF assms(1)])
  also have "\<dots> = mset (map (\<lambda>s. fs ! index_of (slot s)) (cube_stickers cube))"
    by (simp flip: mset_map add: comp_def)
  also have "map (\<lambda>s. fs ! index_of (slot s)) (cube_stickers cube) = map server_sticker_color (map snd (cube_stickers cube))"
    using assms(3) by simp
  also have "\<dots> = map server_sticker_color (map snd (cube_stickers solved_cube))"
    using cube_reach_slots [OF assms(1)] by simp
  also have "mset \<dots> = mset solved_facelets" by code_simp
  finally show ?thesis .
qed

lemma cube_reach_shown:
  assumes "cube_reach cube"
  shows "\<exists>fs. shown cube fs \<and> mset fs = mset solved_facelets"
proof -
  obtain fs where fs: "put_stickers (cube_stickers cube) (replicate 54 255) = Some fs" "length fs = 54"
    "\<forall>s \<in> set (cube_stickers cube). fs ! index_of (slot s) = server_sticker_color (snd s)"
    using put_stickers_spec [OF reach_stickers [OF assms], of "replicate 54 255"] by auto
  have m: "mset fs = mset solved_facelets" by (rule shown_colors [OF assms fs(2,3)])
  then have "set fs = set solved_facelets" by (metis set_mset_mset)
  moreover have "255 \<notin> set solved_facelets" by (simp add: solved_facelets_def)
  ultimately have "cube_facelets cube = Some fs" using fs(1) by (auto simp: cube_facelets_def)
  with fs m show ?thesis by (auto simp: shown_def)
qed

section \<open>Centres and bounds\<close>

definition is_center :: "server_cube \<Rightarrow> cube_face \<Rightarrow> bool" where
  "is_center cube f \<longleftrightarrow> (\<exists>s \<in> set (cube_stickers cube). slot s = (face_normal f, face_normal f) \<and> snd s = face_normal f)"

lemma turn_slot_center: "turn_slot (face_normal g) t (face_normal f, face_normal f) = (face_normal f, face_normal f)"
proof (cases "f = g")
  case True
  have "((\<lambda>v. rotate_quarter v (face_normal g)) ^^ n) (face_normal g) = face_normal g" for n
    by (induction n) (cases g; simp add: rotate_quarter_def)+
  then show ?thesis using True by (simp add: turn_slot_def rotate_vec_def)
next
  case False
  then have "dot (face_normal f) (face_normal g) \<le> 0" by (cases f; cases g) simp_all
  then show ?thesis by (simp add: turn_slot_def)
qed

lemma cube_reach_center: "cube_reach cube \<Longrightarrow> is_center cube f"
proof (induction rule: cube_reach.induct)
  case solved
  have "list_all (\<lambda>f. list_ex (\<lambda>s. slot s = (face_normal f, face_normal f) \<and> snd s = face_normal f)
      (cube_stickers solved_cube))
    [cube_face.Up, cube_face.Right, cube_face.Front, cube_face.Down, cube_face.Left, cube_face.Back]"
    by code_simp
  then show ?case by (cases f) (simp_all add: is_center_def list_ex_iff)
next
  case (move cube m)
  then obtain k where k: "k < length (cube_stickers cube)" "slot (cube_stickers cube ! k) = (face_normal f, face_normal f)"
    "snd (cube_stickers cube ! k) = face_normal f"
    by (auto simp: is_center_def in_set_conv_nth)
  have len: "length (cube_stickers (apply_move m cube)) = length (cube_stickers cube)"
    using arg_cong [OF normals_move, of length m cube] by simp
  have "slot (cube_stickers (apply_move m cube) ! k) = (face_normal f, face_normal f)"
    using arg_cong [OF slots_move, of "\<lambda>xs. xs ! k" m cube] k len by (simp add: turn_slot_center)
  moreover have "snd (cube_stickers (apply_move m cube) ! k) = face_normal f"
    using arg_cong [OF normals_move, of "\<lambda>xs. xs ! k" m cube] k len by simp
  ultimately show ?case using k(1) len unfolding is_center_def by (metis nth_mem)
qed

lemma shown_centers:
  assumes "cube_reach cube" "shown cube fs"
  shows "fs ! (9 * cube_face_index f + 4) = solved_facelets ! (9 * cube_face_index f + 4)"
proof -
  obtain s where s: "s \<in> set (cube_stickers cube)" "slot s = (face_normal f, face_normal f)" "snd s = face_normal f"
    using cube_reach_center [OF assms(1), of f] by (auto simp: is_center_def)
  have "index_of (face_normal f, face_normal f) = 9 * cube_face_index f + 4 \<and>
      server_sticker_color (face_normal f) = solved_facelets ! (9 * cube_face_index f + 4)"
    by (cases f; simp only:; code_simp)
  with s assms(2) show ?thesis by (auto simp: shown_def)
qed

fun small :: "vec \<Rightarrow> bool" where
  "small (x, y, z) \<longleftrightarrow> \<bar>x\<bar> \<le> 1 \<and> \<bar>y\<bar> \<le> 1 \<and> \<bar>z\<bar> \<le> 1"

fun small_basis :: "vec \<times> vec \<times> vec \<Rightarrow> bool" where
  "small_basis (u, v, w) \<longleftrightarrow> small u \<and> small v \<and> small w"

lemma small_rotate: "small v \<Longrightarrow> small (rotate_vec v (face_normal f) t)"
proof -
  assume v: "small v"
  have step: "small w \<Longrightarrow> small (rotate_quarter w (face_normal f))" for w
    by (cases w; cases f) (simp_all add: rotate_quarter_def)
  have "small (((\<lambda>v. rotate_quarter v (face_normal f)) ^^ n) v)" for n
    by (induction n) (simp_all add: v step)
  then show ?thesis by (simp add: rotate_vec_def)
qed

lemma cube_reach_bounded:
  "cube_reach cube \<Longrightarrow> c \<in> set (sc_cubies cube) \<Longrightarrow> small (cb_home c) \<and> small (cb_position c) \<and> small_basis (cb_basis c)"
proof (induction arbitrary: c rule: cube_reach.induct)
  case solved
  have "list_all small home_positions" by code_simp
  with solved show ?case by (auto simp: solved_cube_def unit_basis_def list_all_iff)
next
  case (move cube m)
  then obtain d where d: "d \<in> set (sc_cubies cube)" "c = turn_cubie (face_normal (vm_face m)) (vm_turns m) d"
    by (auto simp: apply_move_def)
  have "small_basis (map_basis (\<lambda>v. rotate_vec v (face_normal f) t) b)" if "small_basis b" for f t b
    using that by (cases b) (simp add: small_rotate)
  then show ?case using move.IH [OF d(1)] d(2) by (simp add: turn_cubie_def small_rotate)
qed

end
