(* ===== verification/SimReplay.thy ===== *)
theory SimReplay
  imports SimCubeSafety
begin

text \<open>
  What \<open>src/sim_server.rs\<close> displays between statuses: \<open>VisualReplay\<close> follows the expected face turns by
  watching single grippers start and stop, \<open>CubePresentation\<close> the turns of the complete cube by pairs.
  The arrays of a status have four axes (\<open>stand_ok\<close>), so \<open>!\<close> is in range; a slice past the
  solution's moves is the panic \<open>None\<close>. The text of a violation is kept as its data.
\<close>

section \<open>Layer turns\<close>

fun sim_orientation_index :: "link_gripper_orientation \<Rightarrow> int" where
  "sim_orientation_index link_gripper_orientation.FrameParallel = 0"
| "sim_orientation_index link_gripper_orientation.FramePerpendicular = 1"
| "sim_orientation_index link_gripper_orientation.FrameParallelReversed = 2"

record active_visual_turn =
  at_operation_id :: u32
  at_move_index :: nat
  at_axis :: nat
  at_cube_move :: visual_move

datatype replay_violation = WrongOwner cube_face nat cube_face | NotHalfTurn nat int

record visual_replay =
  vr_frame_quarters :: u8
  vr_previous_motion :: "axis_motion option list"
  vr_expected :: "visual_move list"
  vr_expected_index :: nat
  vr_active :: "active_visual_turn option"
  vr_violation :: "replay_violation option"
  vr_operation_id :: "u32 option"
  vr_solution_id_at_start :: "u32 option"

definition default_replay :: visual_replay where
  "default_replay = \<lparr> vr_frame_quarters = 0, vr_previous_motion = replicate 4 None, vr_expected = [],
     vr_expected_index = 0, vr_active = None, vr_violation = None, vr_operation_id = None,
     vr_solution_id_at_start = None \<rparr>"

fun visual_turns :: "turn_amount \<Rightarrow> int" where
  "visual_turns turn_amount.Clockwise = -1"
| "visual_turns turn_amount.CounterClockwise = 1"
| "visual_turns turn_amount.Half = 2"

definition visual_move_of :: "link_cube_move \<Rightarrow> visual_move" where
  "visual_move_of m = \<lparr> vm_face = lm_face m, vm_turns = visual_turns (lm_turn m) \<rparr>"

definition set_expected :: "link_cube_move list \<Rightarrow> visual_replay \<Rightarrow> visual_replay" where
  "set_expected moves r = r\<lparr> vr_expected := map visual_move_of moves, vr_expected_index := 0,
     vr_active := None, vr_violation := None, vr_previous_motion := replicate 4 None \<rparr>"

definition physical_face :: "visual_replay \<Rightarrow> nat \<Rightarrow> cube_face option" where
  "physical_face r axis =
     (if vr_frame_quarters r = 0 \<and> axis = 0 then Some cube_face.Left
      else if vr_frame_quarters r = 0 \<and> axis = 1 then Some cube_face.Right
      else if axis = 0 then Some cube_face.Back
      else if axis = 1 then Some cube_face.Front
      else if axis = 2 then Some cube_face.Up
      else if axis = 3 then Some cube_face.Down
      else None)"

definition canonical_status :: "status_snapshot \<Rightarrow> bool" where
  "canonical_status status \<longleftrightarrow>
     pose_kind (stand_pose (st_stand status)) = CanonicalGrip \<and>
     pose_camera_face (stand_pose (st_stand status)) = Some cube_face.Front \<and>
     list_all (\<lambda>g. gripper_motion g \<noteq> Moving) (stand_grippers (st_stand status))"

definition is_parallel :: "link_gripper_orientation option \<Rightarrow> bool" where
  "is_parallel orientation \<longleftrightarrow> orientation = Some link_gripper_orientation.FrameParallel \<or>
     orientation = Some link_gripper_orientation.FrameParallelReversed"

definition motions :: "status_snapshot \<Rightarrow> axis_motion option list" where
  "motions status = map (\<lambda>g. Some (gripper_motion g)) (stand_grippers (st_stand status))"

text \<open>
  The steps of \<open>apply_status\<close> before the axes are examined: a new operation, a newly published
  solution, and the side faces the left and right grippers own.
\<close>

definition replay_operation :: "operation_status \<Rightarrow> status_snapshot \<Rightarrow> visual_replay \<Rightarrow> visual_replay" where
  "replay_operation operation status r =
     (if vr_operation_id r = Some (op_id operation) then r
      else
        let r = r\<lparr> vr_operation_id := Some (op_id operation) \<rparr> in
        if op_kind operation = ScanSolveExecute then
          r\<lparr> vr_expected := [], vr_expected_index := 0, vr_active := None,
             vr_solution_id_at_start := (if sol_move_count (st_solution status) > 0
               then sol_id (st_solution status) else None) \<rparr>
        else r\<lparr> vr_solution_id_at_start := None \<rparr>)"

definition replay_solution :: "operation_status \<Rightarrow> status_snapshot \<Rightarrow> visual_replay \<Rightarrow> visual_replay option" where
  "replay_solution operation status r =
     (let solution = st_solution status in
      if (vr_expected r = [] \<or> length (vr_expected r) \<le> vr_expected_index r) \<and>
         (op_kind operation = Execute \<or> op_kind operation = ScanSolveExecute) \<and>
         sol_move_count solution > 0 \<and> vr_solution_id_at_start r \<noteq> sol_id solution then
        if length (sol_moves solution) < unat (sol_move_count solution) then None
        else Some (set_expected (take (unat (sol_move_count solution)) (sol_moves solution)) r)
      else Some r)"

definition replay_frame :: "status_snapshot \<Rightarrow> visual_replay \<Rightarrow> visual_replay" where
  "replay_frame status r =
     (let rails = stand_rails (st_stand status);
          grippers = stand_grippers (st_stand status);
          top_bottom_parallel = list_all (\<lambda>index. gripper_motion (grippers ! index) \<noteq> Moving \<and>
            is_parallel (gripper_current (grippers ! index))) [2, 3] in
      if rail_current (rails ! 0) = Some link_rail_position.Open \<and>
         rail_current (rails ! 1) = Some link_rail_position.Open \<and> top_bottom_parallel then
        r\<lparr> vr_frame_quarters :=
          (case (gripper_current (grippers ! 2), gripper_current (grippers ! 3)) of
             (Some link_gripper_orientation.FrameParallel,
              Some link_gripper_orientation.FrameParallelReversed) \<Rightarrow> 1
           | (Some link_gripper_orientation.FrameParallelReversed,
              Some link_gripper_orientation.FrameParallel) \<Rightarrow> 0
           | _ \<Rightarrow> vr_frame_quarters r) \<rparr>
      else r)"

text \<open>
  One round of the loop over the axes. \<open>start_turn\<close> also says whether the round goes on after it
  (\<open>continue\<close> leaves \<open>previous_motion\<close> as it was).
\<close>

definition start_turn :: "status_snapshot \<Rightarrow> u32 \<Rightarrow> nat list \<Rightarrow> nat \<Rightarrow> visual_replay \<Rightarrow>
    (visual_replay \<times> bool) option" where
  "start_turn status operation_id started_axes axis r =
     (let gripper = stand_grippers (st_stand status) ! axis in
      if started_axes = [axis] \<and> vr_active r = None \<and> is_parallel (gripper_target gripper) \<and>
         vr_expected_index r < length (vr_expected r) \<and>
         rail_current (stand_rails (st_stand status) ! axis) = Some link_rail_position.Grip then
        let expected = vr_expected r ! vr_expected_index r;
            begin_turn = (\<lambda>rendered. r\<lparr> vr_active := Some \<lparr> at_operation_id = operation_id,
              at_move_index = vr_expected_index r, at_axis = axis, at_cube_move = rendered \<rparr> \<rparr>) in
        (case physical_face r axis of
           None \<Rightarrow> None
         | Some owned \<Rightarrow>
             if owned \<noteq> vm_face expected then
               Some (r\<lparr> vr_violation := Some (WrongOwner (vm_face expected) axis owned) \<rparr>, False)
             else if \<bar>vm_turns expected\<bar> = 2 then
               (case (gripper_current gripper, gripper_target gripper) of
                  (Some current, Some target) \<Rightarrow>
                    let physical_turns = sim_orientation_index current - sim_orientation_index target in
                    if \<bar>physical_turns\<bar> \<noteq> 2 then
                      Some (r\<lparr> vr_violation := Some (NotHalfTurn axis physical_turns) \<rparr>, False)
                    else Some (begin_turn (expected\<lparr> vm_turns := physical_turns \<rparr>), True)
                | _ \<Rightarrow> Some (r, False))
             else Some (begin_turn expected, True))
      else Some (r, True))"

definition finish_turn :: "status_snapshot \<Rightarrow> nat \<Rightarrow> visual_replay \<times> visual_move option \<Rightarrow>
    visual_replay \<times> visual_move option" where
  "finish_turn status axis rc =
     (let (r, completed) = rc; motion = gripper_motion (stand_grippers (st_stand status) ! axis);
          (r, completed) =
            (case vr_active r of
               Some active \<Rightarrow>
                 if at_axis active = axis \<and> vr_previous_motion r ! axis = Some Moving \<and> motion \<noteq> Moving then
                   (r\<lparr> vr_expected_index := vr_expected_index r + 1, vr_active := None \<rparr>,
                    Some (at_cube_move active))
                 else (r, completed)
             | None \<Rightarrow> (r, completed))
      in (r\<lparr> vr_previous_motion := (vr_previous_motion r)[axis := Some motion] \<rparr>, completed))"

definition axis_round :: "status_snapshot \<Rightarrow> u32 \<Rightarrow> nat list \<Rightarrow> nat \<Rightarrow> visual_replay \<times> visual_move option \<Rightarrow>
    (visual_replay \<times> visual_move option) option" where
  "axis_round status operation_id started_axes axis rc =
     (case start_turn status operation_id started_axes axis (fst rc) of
        None \<Rightarrow> None
      | Some (r, False) \<Rightarrow> Some (r, snd rc)
      | Some (r, True) \<Rightarrow> Some (finish_turn status axis (r, snd rc)))"

fun axis_rounds :: "status_snapshot \<Rightarrow> u32 \<Rightarrow> nat list \<Rightarrow> nat list \<Rightarrow> visual_replay \<times> visual_move option \<Rightarrow>
    (visual_replay \<times> visual_move option) option" where
  "axis_rounds status operation_id started_axes [] rc = Some rc"
| "axis_rounds status operation_id started_axes (axis # axes) rc = do {
     rc \<leftarrow> axis_round status operation_id started_axes axis rc;
     axis_rounds status operation_id started_axes axes rc }"

definition started_axes :: "status_snapshot \<Rightarrow> visual_replay \<Rightarrow> nat list" where
  "started_axes status r = filter (\<lambda>axis.
     gripper_motion (stand_grippers (st_stand status) ! axis) = Moving \<and>
     vr_previous_motion r ! axis \<noteq> Some Moving) [0, 1, 2, 3]"

definition replay_axes :: "operation_status \<Rightarrow> status_snapshot \<Rightarrow> visual_replay \<Rightarrow>
    (visual_replay \<times> visual_move option) option" where
  "replay_axes operation status r =
     (if op_kind operation = Execute \<or> op_kind operation = ExecuteMoves \<or> op_kind operation = ScanSolveExecute
      then axis_rounds status (op_id operation) (started_axes status r) [0, 1, 2, 3] (r, None)
      else Some (r\<lparr> vr_previous_motion := motions status \<rparr>, None))"

definition replay_status :: "status_snapshot \<Rightarrow> visual_replay \<Rightarrow> (visual_replay \<times> visual_move option) option" where
  "replay_status status r =
     (let r = (if canonical_status status then r\<lparr> vr_frame_quarters := 0 \<rparr> else r) in
      case st_active_operation status of
        None \<Rightarrow> Some (r\<lparr> vr_previous_motion := motions status, vr_active := None,
          vr_operation_id := None, vr_solution_id_at_start := None \<rparr>, None)
      | Some operation \<Rightarrow> do {
          r \<leftarrow> replay_solution operation status (replay_operation operation status r);
          replay_axes operation status (replay_frame status r) })"

section \<open>Turns of the complete cube\<close>

record active_rigid_turn =
  rt_operation_id :: u32
  rt_driver :: nat
  rt_axis :: vec
  rt_turns :: int

record cube_presentation =
  cp_basis :: "vec \<times> vec \<times> vec"
  cp_active :: "active_rigid_turn option"
  cp_previous_motion :: "axis_motion option list"

definition default_presentation :: cube_presentation where
  "default_presentation = \<lparr> cp_basis = unit_basis, cp_active = None, cp_previous_motion = replicate 4 None \<rparr>"

definition rotated_basis :: "cube_presentation \<Rightarrow> vec \<Rightarrow> int \<Rightarrow> vec \<times> vec \<times> vec" where
  "rotated_basis p axis turns = map_basis (\<lambda>v. rotate_vec v axis turns) (cp_basis p)"

definition try_start :: "status_snapshot \<Rightarrow> u32 \<Rightarrow> nat \<Rightarrow> nat \<Rightarrow> vec \<Rightarrow> int \<Rightarrow> cube_presentation \<Rightarrow> cube_presentation" where
  "try_start status operation_id driver opposite axis sign p =
     (let grippers = stand_grippers (st_stand status);
          rails = stand_rails (st_stand status);
          gripper = grippers ! driver;
          started = gripper_motion gripper = Moving \<and> cp_previous_motion p ! driver \<noteq> Some Moving;
          pair_holds = list_all (\<lambda>index. rail_motion (rails ! index) \<noteq> Moving \<and>
            rail_current (rails ! index) = Some link_rail_position.Grip) [driver, opposite];
          pair_moves = gripper_motion (grippers ! opposite) = Moving in
      if \<not> started \<or> \<not> pair_holds \<or> \<not> pair_moves then p
      else case (gripper_current gripper, gripper_target gripper) of
        (Some current, Some target) \<Rightarrow>
          let turns = (sim_orientation_index target - sim_orientation_index current) * sign in
          if turns \<noteq> 0 then p\<lparr> cp_active := Some \<lparr> rt_operation_id = operation_id, rt_driver = driver,
            rt_axis = axis, rt_turns = turns \<rparr> \<rparr>
          else p
      | _ \<Rightarrow> p)"

definition finish_rigid :: "status_snapshot \<Rightarrow> cube_presentation \<Rightarrow> cube_presentation" where
  "finish_rigid status p =
     (case cp_active p of
        Some active \<Rightarrow>
          if cp_previous_motion p ! rt_driver active = Some Moving \<and>
             gripper_motion (stand_grippers (st_stand status) ! rt_driver active) \<noteq> Moving
          then p\<lparr> cp_basis := rotated_basis p (rt_axis active) (rt_turns active), cp_active := None \<rparr>
          else p
      | None \<Rightarrow> p)"

definition mechanical :: "operation_kind \<Rightarrow> bool" where
  "mechanical kind \<longleftrightarrow> kind = Scan \<or> kind = Execute \<or> kind = ExecuteMoves \<or> kind = ScanSolveExecute"

definition present_status :: "status_snapshot \<Rightarrow> cube_presentation \<Rightarrow> cube_presentation" where
  "present_status status p =
     (let p = finish_rigid status p;
          p = (if canonical_status status then p\<lparr> cp_basis := unit_basis, cp_active := None \<rparr> else p);
          p = (case st_active_operation status of
                 Some operation \<Rightarrow>
                   if cp_active p = None \<and> mechanical (op_kind operation) then
                     let p = try_start status (op_id operation) 2 3 (0, 1, 0) (-1) p in
                     if cp_active p = None then try_start status (op_id operation) 0 1 (1, 0, 0) 1 p else p
                   else p
               | None \<Rightarrow> p)
      in p\<lparr> cp_previous_motion := motions status \<rparr>)"

end
