(* ===== verification/SimState.thy ===== *)
theory SimState
  imports SimReplay Stand
begin

text \<open>
  \<open>SimState\<close> of \<open>src/sim_server.rs\<close>: the displayed stand and cube, and the collision rules. An
  \<open>Instant\<close> is a number of nanoseconds. HOL has no IEEE arithmetic, so the \<open>f32\<close> operations
  the source uses are a parameter, the record \<open>f32_ops\<close>, and nothing is assumed of them. JSON values
  are the data they are built from; a violation is its rule name or the replay's violation.
\<close>

section \<open>Single-precision operations\<close>

record 'f f32_ops =
  f_of_u32 :: "u32 \<Rightarrow> 'f"
  f_of_u64 :: "u64 \<Rightarrow> 'f"
  f_secs :: "nat \<Rightarrow> 'f"
  f_hundredths :: "nat \<Rightarrow> 'f"
  f_pi :: 'f
  f_frac_pi_2 :: 'f
  f_add :: "'f \<Rightarrow> 'f \<Rightarrow> 'f"
  f_sub :: "'f \<Rightarrow> 'f \<Rightarrow> 'f"
  f_mul :: "'f \<Rightarrow> 'f \<Rightarrow> 'f"
  f_div :: "'f \<Rightarrow> 'f \<Rightarrow> 'f"
  f_rem_euclid :: "'f \<Rightarrow> 'f \<Rightarrow> 'f"
  f_abs :: "'f \<Rightarrow> 'f"
  f_round :: "'f \<Rightarrow> 'f"
  f_max :: "'f \<Rightarrow> 'f \<Rightarrow> 'f"
  f_min :: "'f \<Rightarrow> 'f \<Rightarrow> 'f"
  f_less :: "'f \<Rightarrow> 'f \<Rightarrow> bool"

definition f_zero :: "'f f32_ops \<Rightarrow> 'f" where "f_zero F = f_hundredths F 0"
definition f_one :: "'f f32_ops \<Rightarrow> 'f" where "f_one F = f_hundredths F 100"

text \<open>\<open>f32::clamp(0.0, 1.0)\<close>, as the standard library defines it.\<close>

definition f_clamp :: "'f f32_ops \<Rightarrow> 'f \<Rightarrow> 'f" where
  "f_clamp F x = (let x = (if f_less F x (f_zero F) then f_zero F else x) in
     if f_less F (f_one F) x then f_one F else x)"

fun orientation_angle :: "'f f32_ops \<Rightarrow> link_gripper_orientation \<Rightarrow> 'f" where
  "orientation_angle F link_gripper_orientation.FrameParallel = f_zero F"
| "orientation_angle F link_gripper_orientation.FramePerpendicular = f_frac_pi_2 F"
| "orientation_angle F link_gripper_orientation.FrameParallelReversed = f_pi F"

section \<open>The state\<close>

datatype sim_violation = Rule string | LayerMismatch replay_violation

datatype 'f description =
    ClawOverlap string string
  | NoHold "'f list" "operation_kind option"
  | RailAndGripper

record 'f sim_event =
  ev_rule :: string
  ev_active :: bool
  ev_description :: "'f description option"

record 'f sim_state =
  ss_rail_open_ms :: 'f
  ss_rail_grip_ms :: 'f
  ss_gripper_ms :: 'f
  ss_status :: "status_snapshot option"
  ss_last_solution :: "solution_status option"
  ss_animation_speed :: u32
  ss_rail_start :: "nat option list"
  ss_gripper_start :: "nat option list"
  ss_gripper_from :: "'f option list"
  ss_gripper_angle :: "'f option list"
  ss_rule1_active :: bool
  ss_rule2_active :: bool
  ss_concurrent_motion_active :: bool
  ss_violations :: "sim_violation list"
  ss_visual :: visual_replay
  ss_presentation :: cube_presentation
  ss_cube :: server_cube
  ss_facelets :: "u8 list"
  ss_cube_dirty :: bool
  ss_dirty :: bool

text \<open>\<open>SimState::new\<close>: the timing of the calibration and the facelets shared with the scanner.\<close>

definition new_sim :: "'f f32_ops \<Rightarrow> stand_calibration \<Rightarrow> u8 list \<Rightarrow> 'f sim_state" where
  "new_sim F calibration shared =
     \<lparr> ss_rail_open_ms = f_of_u64 F (rails_open_ms (timing calibration)),
       ss_rail_grip_ms = f_of_u64 F (rails_grip_ms (timing calibration)),
       ss_gripper_ms = f_of_u64 F (gripper_pose_ms (timing calibration)), ss_status = None, ss_last_solution = None,
       ss_animation_speed = 1, ss_rail_start = replicate 4 None, ss_gripper_start = replicate 4 None,
       ss_gripper_from = replicate 4 None, ss_gripper_angle = replicate 4 None, ss_rule1_active = False,
       ss_rule2_active = False, ss_concurrent_motion_active = False, ss_violations = [],
       ss_visual = default_replay, ss_presentation = default_presentation, ss_cube = solved_cube,
       ss_facelets = shared, ss_cube_dirty = True, ss_dirty = True \<rparr>"

section \<open>Statuses\<close>

definition scan_pose_rule :: string where "scan_pose_rule = ''scan-cube-pose-not-canonical''"

definition note_scan_pose :: "status_snapshot \<Rightarrow> 'f sim_state \<Rightarrow> 'f sim_state" where
  "note_scan_pose status s =
     (if st_active_operation status = None \<and>
         pose_kind (stand_pose (st_stand status)) = CanonicalGrip \<and>
         cp_basis (ss_presentation s) \<noteq> unit_basis \<and> Rule scan_pose_rule \<notin> set (ss_violations s)
      then s\<lparr> ss_violations := ss_violations s @ [Rule scan_pose_rule] \<rparr> else s)"

definition note_rail :: "nat \<Rightarrow> status_snapshot \<Rightarrow> nat \<Rightarrow> 'f sim_state \<Rightarrow> 'f sim_state" where
  "note_rail now status index s =
     (if rail_motion (stand_rails (st_stand status) ! index) = Moving then
        (if ss_rail_start s ! index = None
         then s\<lparr> ss_rail_start := (ss_rail_start s)[index := Some now] \<rparr> else s)
      else s\<lparr> ss_rail_start := (ss_rail_start s)[index := None] \<rparr>)"

definition note_gripper :: "'f f32_ops \<Rightarrow> nat \<Rightarrow> status_snapshot \<Rightarrow> nat \<Rightarrow> 'f sim_state \<Rightarrow> 'f sim_state" where
  "note_gripper F now status index s =
     (let gripper = stand_grippers (st_stand status) ! index in
      if gripper_motion gripper = Moving then
        (if ss_gripper_start s ! index = None then
           s\<lparr> ss_gripper_start := (ss_gripper_start s)[index := Some now],
              ss_gripper_from := (ss_gripper_from s)[index := ss_gripper_angle s ! index] \<rparr>
         else s)
      else
        let s = s\<lparr> ss_gripper_start := (ss_gripper_start s)[index := None] \<rparr> in
        case gripper_current gripper of
          Some orientation \<Rightarrow>
            s\<lparr> ss_gripper_angle := (ss_gripper_angle s)[index := Some (orientation_angle F orientation)] \<rparr>
        | None \<Rightarrow> s)"

definition note_axes :: "'f f32_ops \<Rightarrow> nat \<Rightarrow> status_snapshot \<Rightarrow> 'f sim_state \<Rightarrow> 'f sim_state" where
  "note_axes F now status s =
     fold (\<lambda>index s. note_gripper F now status index (note_rail now status index s)) [0, 1, 2, 3] s"

definition turn_shown_cube :: "visual_move \<Rightarrow> 'f sim_state \<Rightarrow> 'f sim_state option" where
  "turn_shown_cube m s =
     (let cube = apply_move m (ss_cube s) in
      map_option (\<lambda>fs. s\<lparr> ss_cube := cube, ss_facelets := fs, ss_cube_dirty := True \<rparr>) (cube_facelets cube))"

definition replay_visual :: "status_snapshot \<Rightarrow> 'f sim_state \<Rightarrow> 'f sim_state option" where
  "replay_visual status s =
     (case replay_status status (ss_visual s) of
        None \<Rightarrow> None
      | Some (visual, out) \<Rightarrow>
          let s = s\<lparr> ss_visual := visual \<rparr> in
          (case out of None \<Rightarrow> Some s | Some m \<Rightarrow> turn_shown_cube m s))"

fun is_layer_mismatch :: "sim_violation \<Rightarrow> bool" where
  "is_layer_mismatch (LayerMismatch v) = True"
| "is_layer_mismatch (Rule r) = False"

definition note_mismatch :: "'f sim_state \<Rightarrow> 'f sim_state" where
  "note_mismatch s =
     (case vr_violation (ss_visual s) of
        None \<Rightarrow> s
      | Some v \<Rightarrow>
          let s = s\<lparr> ss_visual := (ss_visual s)\<lparr> vr_violation := None \<rparr> \<rparr> in
          if list_ex is_layer_mismatch (ss_violations s) then s
          else s\<lparr> ss_violations := ss_violations s @ [LayerMismatch v] \<rparr>)"

definition sim_apply_status :: "'f f32_ops \<Rightarrow> nat \<Rightarrow> status_snapshot \<Rightarrow> 'f sim_state \<Rightarrow> 'f sim_state option" where
  "sim_apply_status F now status s =
     (let s = (if sol_move_count (st_solution status) > 0
               then s\<lparr> ss_last_solution := Some (st_solution status) \<rparr> else s);
          s = s\<lparr> ss_presentation := present_status status (ss_presentation s) \<rparr>;
          s = note_axes F now status (note_scan_pose status s) in
      map_option (\<lambda>s. (note_mismatch s)\<lparr> ss_status := Some status, ss_dirty := True \<rparr>)
        (replay_visual status s))"

definition set_visual_moves :: "link_cube_move list \<Rightarrow> 'f sim_state \<Rightarrow> 'f sim_state option" where
  "set_visual_moves moves s =
     (let s = s\<lparr> ss_visual := set_expected moves (ss_visual s) \<rparr> in
      map_option (\<lambda>s. s\<lparr> ss_dirty := True \<rparr>)
        (case ss_status s of None \<Rightarrow> Some s | Some status \<Rightarrow> replay_visual status s))"

definition clear_last_solution :: "'f sim_state \<Rightarrow> 'f sim_state" where
  "clear_last_solution s = s\<lparr> ss_last_solution := None, ss_dirty := True \<rparr>"

definition set_animation_speed :: "u32 \<Rightarrow> 'f sim_state \<Rightarrow> 'f sim_state" where
  "set_animation_speed multiplier s = s\<lparr> ss_animation_speed := multiplier, ss_dirty := True \<rparr>"

definition scrambled :: "link_cube_move list \<Rightarrow> server_cube" where
  "scrambled moves = fold (\<lambda>m. apply_move (visual_move_of m)) moves solved_cube"

definition load_scramble :: "link_cube_move list \<Rightarrow> 'f sim_state \<Rightarrow> 'f sim_state option" where
  "load_scramble moves s =
     (let cube = scrambled moves in
      map_option (\<lambda>fs. s\<lparr> ss_cube := cube, ss_facelets := fs, ss_visual := set_expected [] (ss_visual s),
        ss_cube_dirty := True, ss_dirty := True \<rparr>) (cube_facelets cube))"

text \<open>\<open>take_cube_event\<close>, whose event is the cube with its facelets.\<close>

definition take_cube_event :: "'f sim_state \<Rightarrow> ((server_cube \<times> u8 list) option \<times> 'f sim_state) option" where
  "take_cube_event s =
     (if \<not> ss_cube_dirty s then Some (None, s)
      else map_option (\<lambda>fs. (Some (ss_cube s, fs), s\<lparr> ss_cube_dirty := False \<rparr>)) (cube_facelets (ss_cube s)))"

section \<open>Interpolated motion\<close>

definition motion_fraction :: "'f f32_ops \<Rightarrow> nat \<Rightarrow> nat \<Rightarrow> 'f \<Rightarrow> 'f sim_state \<Rightarrow> 'f" where
  "motion_fraction F now begun duration s =
     f_clamp F (f_div F (f_mul F (f_mul F (f_secs F (now - begun)) (f_hundredths F 100000))
       (f_of_u32 F (ss_animation_speed s))) duration)"

definition rail_progress :: "'f f32_ops \<Rightarrow> nat \<Rightarrow> 'f sim_state \<Rightarrow> nat \<Rightarrow> 'f" where
  "rail_progress F now s index =
     (case ss_status s of
        None \<Rightarrow> f_zero F
      | Some status \<Rightarrow>
          let rail = stand_rails (st_stand status) ! index;
              rest = (if rail_current rail = Some link_rail_position.Grip then f_one F else f_zero F) in
          if rail_motion rail \<noteq> Moving then rest
          else (case ss_rail_start s ! index of
              None \<Rightarrow> rest
            | Some begun \<Rightarrow>
                let to_grip = (rail_target rail = Some link_rail_position.Grip);
                    duration = (if to_grip then ss_rail_grip_ms s else ss_rail_open_ms s);
                    fraction = motion_fraction F now begun duration s in
                if to_grip then fraction else f_sub F (f_one F) fraction))"

definition gripper_duration_ms :: "'f f32_ops \<Rightarrow> 'f sim_state \<Rightarrow> nat \<Rightarrow> link_gripper_orientation \<Rightarrow> 'f" where
  "gripper_duration_ms F s index target =
     (case ss_gripper_from s ! index of
        None \<Rightarrow> ss_gripper_ms s
      | Some from \<Rightarrow>
          let quarter_turns = f_max F (f_round F (f_div F (f_abs F (f_sub F (orientation_angle F target) from))
                (f_frac_pi_2 F))) (f_one F) in
          f_mul F (ss_gripper_ms s) quarter_turns)"

definition gripper_angle_at :: "'f f32_ops \<Rightarrow> nat \<Rightarrow> 'f sim_state \<Rightarrow> status_snapshot \<Rightarrow> nat \<Rightarrow> 'f option" where
  "gripper_angle_at F now s status index =
     (let gripper = stand_grippers (st_stand status) ! index; angle = ss_gripper_angle s ! index in
      if gripper_motion gripper \<noteq> Moving then angle
      else case (ss_gripper_start s ! index, gripper_target gripper, ss_gripper_from s ! index) of
        (Some begun, Some target, Some from) \<Rightarrow>
          let duration = gripper_duration_ms F s index target;
              fraction = motion_fraction F now begun duration s in
          Some (f_add F from (f_mul F (f_sub F (orientation_angle F target) from) fraction))
      | _ \<Rightarrow> angle)"

definition gripper_angles :: "'f f32_ops \<Rightarrow> nat \<Rightarrow> 'f sim_state \<Rightarrow> 'f option list" where
  "gripper_angles F now s =
     (case ss_status s of
        None \<Rightarrow> ss_gripper_angle s
      | Some status \<Rightarrow> map (gripper_angle_at F now s status) [0, 1, 2, 3])"

definition gripper_progress :: "'f f32_ops \<Rightarrow> nat \<Rightarrow> 'f sim_state \<Rightarrow> nat \<Rightarrow> 'f" where
  "gripper_progress F now s index =
     (case ss_status s of
        None \<Rightarrow> f_one F
      | Some status \<Rightarrow>
          let grip = stand_grippers (st_stand status) ! index in
          if gripper_motion grip \<noteq> Moving then f_one F
          else (case ss_gripper_start s ! index of
              None \<Rightarrow> f_zero F
            | Some begun \<Rightarrow>
                let duration = (case gripper_target grip of
                      Some target \<Rightarrow> gripper_duration_ms F s index target
                    | None \<Rightarrow> ss_gripper_ms s) in
                motion_fraction F now begun duration s))"

definition rail_moving :: "status_snapshot \<Rightarrow> bool" where
  "rail_moving status \<longleftrightarrow> list_ex (\<lambda>axis. rail_motion axis = Moving) (stand_rails (st_stand status))"

definition gripper_moving :: "status_snapshot \<Rightarrow> bool" where
  "gripper_moving status \<longleftrightarrow> list_ex (\<lambda>axis. gripper_motion axis = Moving) (stand_grippers (st_stand status))"

definition any_axis_moving :: "'f sim_state \<Rightarrow> bool" where
  "any_axis_moving s = (case ss_status s of None \<Rightarrow> False
     | Some status \<Rightarrow> rail_moving status \<or> gripper_moving status)"

section \<open>Collision rules\<close>

definition past_45 :: "'f f32_ops \<Rightarrow> 'f \<Rightarrow> bool" where
  "past_45 F x = f_less F (f_hundredths F 45) x"

definition parallelness :: "'f f32_ops \<Rightarrow> 'f \<Rightarrow> 'f" where
  "parallelness F angle =
     f_min F (f_div F (f_mul F (f_rem_euclid F (f_abs F angle) (f_pi F)) (f_hundredths F 200)) (f_pi F)) (f_one F)"

definition swung_flat :: "'f f32_ops \<Rightarrow> 'f option list \<Rightarrow> 'f list \<Rightarrow> nat \<Rightarrow> bool" where
  "swung_flat F angles progress index =
     ((case angles ! index of None \<Rightarrow> False
       | Some angle \<Rightarrow> f_less F (parallelness F angle) (f_hundredths F 35)) \<and>
      past_45 F (progress ! index))"

definition claw_pairs :: "(nat \<times> nat \<times> string \<times> string) list" where
  "claw_pairs = [(0, 2, ''left'', ''top''), (2, 1, ''top'', ''right''), (1, 3, ''right'', ''bottom''),
     (3, 0, ''bottom'', ''left'')]"

definition claw_overlap :: "'f f32_ops \<Rightarrow> 'f option list \<Rightarrow> 'f list \<Rightarrow> 'f description option" where
  "claw_overlap F angles progress =
     fold (\<lambda>(first, second, first_name, second_name) overlap.
       if swung_flat F angles progress first \<and> swung_flat F angles progress second
       then Some (ClawOverlap first_name second_name) else overlap) claw_pairs None"

definition intentional_release :: "status_snapshot \<Rightarrow> bool" where
  "intentional_release status =
     (case st_active_operation status of
        None \<Rightarrow> False
      | Some operation \<Rightarrow>
          op_kind operation = operation_kind.Open \<or> op_kind operation = RecoverToOpen \<or>
          (op_kind operation = Execute \<or> op_kind operation = ScanSolveExecute) \<and>
          sol_move_count (st_solution status) \<le> sol_completed_moves (st_solution status))"

definition custody_lost :: "'f f32_ops \<Rightarrow> status_snapshot \<Rightarrow> 'f list \<Rightarrow> bool" where
  "custody_lost F status progress \<longleftrightarrow>
     st_cube_session status \<noteq> None \<and> \<not> intentional_release status \<and>
     \<not> (past_45 F (progress ! 0) \<and> past_45 F (progress ! 1)) \<and>
     \<not> (past_45 F (progress ! 2) \<and> past_45 F (progress ! 3))"

definition concurrent_motion :: "status_snapshot \<Rightarrow> bool" where
  "concurrent_motion status \<longleftrightarrow> rail_moving status \<and> gripper_moving status"

text \<open>An event of a rule whose activity changed, and the names of violated rules.\<close>

definition transition :: "string \<Rightarrow> bool \<Rightarrow> bool \<Rightarrow> 'f description option \<Rightarrow> 'f sim_event list" where
  "transition rule active before description =
     (if active \<noteq> before
      then [\<lparr> ev_rule = rule, ev_active = active, ev_description = description \<rparr>] else [])"

definition note_event :: "'f sim_event \<Rightarrow> sim_violation list \<Rightarrow> sim_violation list" where
  "note_event event violations =
     (if ev_active event \<and> Rule (ev_rule event) \<notin> set violations
      then violations @ [Rule (ev_rule event)] else violations)"

definition claws_rule :: string where "claws_rule = ''adjacent-parallel-grippers''"
definition custody_rule :: string where "custody_rule = ''cube-custody-lost''"
definition concurrent_rule :: string where "concurrent_rule = ''concurrent-rail-gripper-motion''"

definition collisions :: "'f f32_ops \<Rightarrow> nat \<Rightarrow> 'f sim_state \<Rightarrow> 'f sim_event list \<times> 'f sim_state" where
  "collisions F now s =
     (case ss_status s of
        None \<Rightarrow> ([], s)
      | Some status \<Rightarrow>
          let progress = map (rail_progress F now s) [0, 1, 2, 3];
              overlap = claw_overlap F (gripper_angles F now s) progress;
              lost = custody_lost F status progress;
              concurrent = concurrent_motion status;
              events = transition claws_rule (overlap \<noteq> None) (ss_rule1_active s) overlap @
                transition custody_rule lost (ss_rule2_active s)
                  (if lost then Some (NoHold progress (map_option op_kind (st_active_operation status))) else None) @
                transition concurrent_rule concurrent (ss_concurrent_motion_active s)
                  (if concurrent then Some RailAndGripper else None)
          in (events, s\<lparr> ss_rule1_active := (overlap \<noteq> None), ss_rule2_active := lost,
                ss_concurrent_motion_active := concurrent,
                ss_violations := fold note_event events (ss_violations s),
                ss_dirty := (ss_dirty s \<or> events \<noteq> []) \<rparr>))"

section \<open>The reported status\<close>

text \<open>What \<open>status_json\<close> reports besides the whole snapshot and constants of its layout.\<close>

record 'f status_view =
  sv_status :: "status_snapshot option"
  sv_last_solution :: "solution_status option"
  sv_animation_speed :: u32
  sv_rails_progress :: "'f list"
  sv_gripper_angle :: "'f option list"
  sv_gripper_progress :: "'f list"
  sv_safety :: "bool \<times> bool \<times> bool"
  sv_violations :: "sim_violation list"
  sv_frame_quarters :: u8
  sv_active_move :: "(active_visual_turn \<times> 'f) option"
  sv_basis :: "vec \<times> vec \<times> vec"
  sv_active_pose :: "(active_rigid_turn \<times> 'f \<times> (vec \<times> vec \<times> vec)) option"
  sv_cube_revision :: u64

definition status_view :: "'f f32_ops \<Rightarrow> nat \<Rightarrow> 'f sim_state \<Rightarrow> 'f status_view" where
  "status_view F now s =
     \<lparr> sv_status = ss_status s, sv_last_solution = ss_last_solution s,
       sv_animation_speed = ss_animation_speed s,
       sv_rails_progress = map (rail_progress F now s) [0, 1, 2, 3],
       sv_gripper_angle = gripper_angles F now s,
       sv_gripper_progress = map (gripper_progress F now s) [0, 1, 2, 3],
       sv_safety = (ss_rule1_active s, ss_rule2_active s, ss_concurrent_motion_active s),
       sv_violations = ss_violations s,
       sv_frame_quarters = vr_frame_quarters (ss_visual s),
       sv_active_move = map_option (\<lambda>a. (a, gripper_progress F now s (at_axis a))) (vr_active (ss_visual s)),
       sv_basis = cp_basis (ss_presentation s),
       sv_active_pose = map_option (\<lambda>a. (a, gripper_progress F now s (rt_driver a),
         rotated_basis (ss_presentation s) (rt_axis a) (rt_turns a))) (cp_active (ss_presentation s)),
       sv_cube_revision = sc_revision (ss_cube s) \<rparr>"

end
