(* ===== verification/SimScanner.thy ===== *)
theory SimScanner
  imports SimCubeSafety ScanData
begin

text \<open>
  The simulated camera of \<open>src/sim_server.rs\<close>: the shared facelets and the scanner that reads one
  face of them. Reading the six faces of any cube that face turns can produce gives a scan the
  service accepts, whose facelet string the solver gets has each face nine times and its own centres.
\<close>

section \<open>The shared facelets and the scanner\<close>

definition new_facelets :: "u8 list" where
  "new_facelets =
    [0, 0, 0, 0, 0, 0, 0, 0, 0,
     2, 2, 2, 2, 2, 2, 2, 2, 2,
     4, 4, 4, 4, 4, 4, 4, 4, 4,
     1, 1, 1, 1, 1, 1, 1, 1, 1,
     3, 3, 3, 3, 3, 3, 3, 3, 3,
     5, 5, 5, 5, 5, 5, 5, 5, 5]"

definition ui_color :: "u8 \<Rightarrow> link_sticker_color" where
  "ui_color v =
     (if v = 0 then link_sticker_color.White
      else if v = 1 then link_sticker_color.Yellow
      else if v = 2 then link_sticker_color.Red
      else if v = 3 then link_sticker_color.Orange
      else if v = 4 then link_sticker_color.Green
      else if v = 5 then link_sticker_color.Blue
      else link_sticker_color.Unknown)"

text \<open>The shared array has 54 facelets, so the nine of a face are in range.\<close>

definition ui_capture :: "u8 list \<Rightarrow> cube_face \<Rightarrow> recognized_face" where
  "ui_capture facelets f =
     (let base = cube_face_index f * 9 in
      \<lparr> rf_colors = map (\<lambda>index. ui_color (facelets ! (base + index))) [0..<9],
        rf_confidence = replicate 9 255 \<rparr>)"

section \<open>Scanning the simulated cube\<close>

text \<open>The domain colours of facelet values.\<close>

definition value_color :: "u8 \<Rightarrow> sticker_color" where
  "value_color v =
     (if v = 0 then sticker_color.White
      else if v = 1 then sticker_color.Yellow
      else if v = 2 then sticker_color.Red
      else if v = 3 then sticker_color.Orange
      else if v = 4 then sticker_color.Green
      else sticker_color.Blue)"

definition face_values :: "u8 list \<Rightarrow> cube_face \<Rightarrow> u8 list" where
  "face_values fs f = take 9 (drop (cube_face_index f * 9) fs)"

definition scanned_face :: "u8 list \<Rightarrow> cube_face \<Rightarrow> face" where
  "scanned_face fs f = \<lparr> stickers = map value_color (face_values fs f) \<rparr>"

definition all_faces :: "cube_face list" where
  "all_faces = [cube_face.Up, cube_face.Right, cube_face.Front, cube_face.Down, cube_face.Left, cube_face.Back]"

text \<open>The status a scan of all six faces leaves.\<close>

definition simulated_scan :: "u8 list \<Rightarrow> scan_status \<Rightarrow> scan_status" where
  "simulated_scan fs sc = sc\<lparr> scan_faces := map (\<lambda>f. Some (ui_capture fs f)) all_faces \<rparr>"

lemma new_facelets_solved: "new_facelets = solved_facelets"
  by code_simp

text \<open>The solver's letter for a facelet value: the face whose centre has that colour.\<close>

definition solver_symbol :: "u8 \<Rightarrow> char" where
  "solver_symbol v =
     (if v = 0 then CHR ''U''
      else if v = 1 then CHR ''D''
      else if v = 2 then CHR ''R''
      else if v = 3 then CHR ''L''
      else if v = 4 then CHR ''F''
      else CHR ''B'')"

lemma set_solved: "set solved_facelets = {0, 1, 2, 3, 4, 5}"
  by (auto simp: solved_facelets_def)

lemma ui_color_value:
  "v \<in> set solved_facelets \<Longrightarrow> protocol_color_symbol (ui_color v) = color_symbol (value_color v)"
  by (auto simp: set_solved ui_color_def value_color_def)

lemma ui_capture_values:
  assumes "length fs = 54"
  shows "ui_capture fs f = \<lparr> rf_colors = map ui_color (face_values fs f), rf_confidence = replicate 9 255 \<rparr>"
proof -
  have base: "cube_face_index f * 9 + 9 \<le> length fs" using assms by (cases f) simp_all
  have "map (\<lambda>i. ui_color (fs ! (cube_face_index f * 9 + i))) [0..<9] = map ui_color (face_values fs f)"
    using base by (intro nth_equalityI) (simp_all add: face_values_def del: upt_rec_numeral)
  then show ?thesis using base by (simp add: ui_capture_def del: upt_rec_numeral)
qed

lemma ui_capture_seen:
  assumes "length fs = 54" "set fs \<subseteq> set solved_facelets"
  shows "seen (ui_capture fs f) = Some (scanned_face fs f)"
proof -
  have "v \<in> set solved_facelets" if "v \<in> set (face_values fs f)" for v
    using that assms(2) in_set_takeD in_set_dropD unfolding face_values_def by fastforce
  then have colors: "map protocol_color_symbol (map ui_color (face_values fs f)) = compact (scanned_face fs f)"
    by (simp add: compact_def scanned_face_def ui_color_value)
  have "face_ok (scanned_face fs f)"
    using assms(1) by (cases f) (simp_all add: face_ok_def scanned_face_def face_values_def)
  then have "from_symbols (compact (scanned_face fs f)) = Inr (scanned_face fs f)"
    by (simp add: from_symbols_iff)
  then show ?thesis
    using colors by (simp add: ui_capture_values [OF assms(1)] seen_def)
qed

definition scanned_cube :: "u8 list \<Rightarrow> cube_state" where
  "scanned_cube fs = \<lparr> faces = map (\<lambda>f. Some (scanned_face fs f)) all_faces \<rparr>"

lemma simulated_cube:
  assumes "length fs = 54" "set fs \<subseteq> set solved_facelets"
  shows "cube_from_scan (simulated_scan fs sc) = Some (Inr (scanned_cube fs))"
proof -
  note s = ui_capture_seen [OF assms]
  have step: "record_recognized_face k f x = (Inr (), k\<lparr> faces := (faces k)[cube_face_index f := Some y] \<rparr>)"
    if "seen x = Some y" "faces k ! cube_face_index f = None" for k f x y
    using record_recognized_face_cases [of k f x] that by auto
  show ?thesis
    by (simp add: simulated_scan_def cube_from_scan_def all_faces_def step s default_cube_def
        scanned_cube_def numeral_eq_Suc)
qed

lemma all_values:
  assumes "length fs = 54"
  shows "concat (map (face_values fs) all_faces) = fs"
proof -
  have "take 9 (drop 45 fs) = drop 45 fs" using assms by simp
  moreover have "take 9 (drop n fs) @ drop (n + 9) fs = drop n fs" for n
    by (metis append_take_drop_id drop_drop add.commute)
  from this [of 36] this [of 27] this [of 18] this [of 9] this [of 0]
  have "take 9 (drop 36 fs) @ drop 45 fs = drop 36 fs" "take 9 (drop 27 fs) @ drop 36 fs = drop 27 fs"
    "take 9 (drop 18 fs) @ drop 27 fs = drop 18 fs" "take 9 (drop 9 fs) @ drop 18 fs = drop 9 fs"
    "take 9 fs @ drop 9 fs = fs"
    by simp_all
  ultimately show ?thesis by (simp add: all_faces_def face_values_def)
qed

lemma count_list_mset: "mset xs = mset ys \<Longrightarrow> count_list xs a = count_list ys a"
  by (metis count_mset)

lemma simulated_solver_string:
  assumes len: "length fs = 54" and m: "mset fs = mset solved_facelets"
    and centers: "\<And>f. fs ! (9 * cube_face_index f + 4) = solved_facelets ! (9 * cube_face_index f + 4)"
  shows "facelet_string (scanned_cube fs) = Some (Inr (map solver_symbol fs))"
proof -
  let ?gs = "map (scanned_face fs) all_faces"
  have vals: "set fs \<subseteq> set solved_facelets" using m by (metis order_refl set_mset_mset)
  have ok: "cube_ok (scanned_cube fs)"
    using len by (auto simp: cube_ok_def scanned_cube_def all_faces_def face_ok_def scanned_face_def face_values_def)
  have at: "fs ! 4 = 0" "fs ! 13 = 2" "fs ! 22 = 4" "fs ! 31 = 1" "fs ! 40 = 3" "fs ! 49 = 5"
    using centers [of cube_face.Up] centers [of cube_face.Right] centers [of cube_face.Front]
      centers [of cube_face.Down] centers [of cube_face.Left] centers [of cube_face.Back]
    by (simp_all add: solved_facelets_def nth_append)
  have center: "center (scanned_face fs f) = value_color (fs ! (cube_face_index f * 9 + 4))" for f
  proof -
    have "cube_face_index f * 9 + 4 < length fs" using len by (cases f) simp_all
    then show ?thesis by (simp add: center_def scanned_face_def face_values_def)
  qed
  have cs: "map center ?gs = [sticker_color.White, sticker_color.Red, sticker_color.Green,
      sticker_color.Yellow, sticker_color.Orange, sticker_color.Blue]"
    by (simp add: all_faces_def center at value_color_def)
  have colors: "concat (map stickers ?gs) = map value_color fs"
    using arg_cong [OF all_values [OF len], of "map value_color"]
    by (simp add: scanned_face_def map_concat comp_def)
  have "count_list (map value_color fs) col = 9" for col
  proof -
    have "count_list (map value_color fs) col = count_list (map value_color solved_facelets) col"
      by (rule count_list_mset) (simp add: m)
    also have "\<dots> = 9" by (cases col; simp only:; code_simp)
    finally show ?thesis .
  qed
  moreover have "distinct (map center ?gs)" unfolding cs by simp
  moreover have "faces (scanned_cube fs) = map Some ?gs" by (simp add: scanned_cube_def)
  moreover have "facelets_of ?gs = map solver_symbol fs"
  proof -
    have "face_symbol (center_face ?gs (value_color v)) = solver_symbol v" if "v \<in> set solved_facelets" for v
      using that cs unfolding set_solved
      by (auto simp: center_face_def center_assoc_def ALL_FACES_def all_faces_def value_color_def solver_symbol_def)
    then show ?thesis using vals unfolding facelets_of_def colors by auto
  qed
  moreover obtain r where "facelet_string (scanned_cube fs) = Some r" "\<forall>s. r = Inr s \<longleftrightarrow>
    (\<exists>fs'. faces (scanned_cube fs) = map Some fs' \<and> distinct (map center fs') \<and>
      (\<forall>col. count_list (concat (map stickers fs')) col = 9) \<and> s = facelets_of fs')"
    using facelet_string_spec [OF ok] by blast
  ultimately show ?thesis using colors by metis
qed

theorem reachable_cube_scans:
  assumes "cube_reach cube"
  shows "\<exists>fs. cube_facelets cube = Some fs \<and> mset fs = mset new_facelets \<and>
    cube_from_scan (simulated_scan fs sc) = Some (Inr (scanned_cube fs)) \<and>
    facelet_string (scanned_cube fs) = Some (Inr (map solver_symbol fs))"
proof -
  obtain fs where fs: "shown cube fs" "mset fs = mset solved_facelets"
    using cube_reach_shown [OF assms] by blast
  then have len: "length fs = 54" and facelets: "cube_facelets cube = Some fs" by (simp_all add: shown_def)
  have "set fs \<subseteq> set solved_facelets" using fs(2) by (metis order_refl set_mset_mset)
  with simulated_cube [OF len] simulated_solver_string [OF len fs(2) shown_centers [OF assms fs(1)]] facelets fs(2)
  show ?thesis by (auto simp: new_facelets_solved)
qed

end
