(* ===== verification/OperatorButton.thy ===== *)
theory OperatorButton
  imports ServiceTypes
begin

unbundle bit_operations_syntax

text \<open>
  \<open>src/operator_button.rs\<close>: the active-low operator button. The pad configuration and the decoding of
  the GPIO byte are modelled over the register reads and the byte that the kernel returns; \<open>poll\<close> takes
  the reading and the instant (milliseconds) as arguments. The lemmas describe the debouncer by the
  history of readings: when it reports a press, and that one press is reported once.
\<close>

section \<open>The GPIO pad\<close>

definition DUO256M_GP21_PINMUX_REGISTER :: u32 where "DUO256M_GP21_PINMUX_REGISTER = 0x0300104c"
definition DUO256M_GP21_PAD_REGISTER :: u32 where "DUO256M_GP21_PAD_REGISTER = 0x03001918"
definition DUO256M_GP21_GPIO_FUNCTION :: u32 where "DUO256M_GP21_GPIO_FUNCTION = 3"
definition PINMUX_FUNCTION_MASK :: u32 where "PINMUX_FUNCTION_MASK = 0x7"
definition PAD_PULL_MASK :: u32 where "PAD_PULL_MASK = 0xc"
definition PAD_PULL_UP :: u32 where "PAD_PULL_UP = 0x4"

lemmas pad_consts = DUO256M_GP21_PINMUX_REGISTER_def DUO256M_GP21_PAD_REGISTER_def
  DUO256M_GP21_GPIO_FUNCTION_def PINMUX_FUNCTION_MASK_def PAD_PULL_MASK_def PAD_PULL_UP_def

definition with_pull_up :: "u32 \<Rightarrow> u32" where
  "with_pull_up value = (value AND NOT PAD_PULL_MASK) OR PAD_PULL_UP"

text \<open>\<open>devmem\<close> is an external program: a read and a write that may fail.\<close>

record 'm devmem =
  devmem_read :: "u32 \<Rightarrow> 'm \<Rightarrow> u32 option"
  devmem_write :: "u32 \<Rightarrow> u32 \<Rightarrow> 'm \<Rightarrow> 'm option"

definition configure_duo256m_gp21_pull_up :: "'m devmem \<Rightarrow> 'm \<Rightarrow> string + 'm" where
  "configure_duo256m_gp21_pull_up D m =
     (case devmem_read D DUO256M_GP21_PINMUX_REGISTER m of
        None \<Rightarrow> Inl ''devmem read''
      | Some muxed \<Rightarrow>
         if muxed AND PINMUX_FUNCTION_MASK \<noteq> DUO256M_GP21_GPIO_FUNCTION then Inl ''pinmux''
         else case devmem_read D DUO256M_GP21_PAD_REGISTER m of
            None \<Rightarrow> Inl ''devmem read''
          | Some pad \<Rightarrow>
             let configured = with_pull_up pad in
             case (if configured \<noteq> pad then devmem_write D DUO256M_GP21_PAD_REGISTER configured m else Some m) of
               None \<Rightarrow> Inl ''devmem write''
             | Some m \<Rightarrow> (case devmem_read D DUO256M_GP21_PAD_REGISTER m of
                 None \<Rightarrow> Inl ''devmem read''
               | Some verified \<Rightarrow>
                   if verified AND PAD_PULL_MASK \<noteq> PAD_PULL_UP then Inl ''pull-up'' else Inr m))"

text \<open>The value byte of an active-low input.\<close>

definition pressed_of_byte :: "u8 \<Rightarrow> string + bool" where
  "pressed_of_byte byte =
     (if byte = 0x30 then Inr True
      else if byte = 0x31 then Inr False
      else Inl ''invalid value byte'')"

section \<open>The button\<close>

datatype follow_up = None' | RecoverAfterAbort | AutoAfterGrip u32

record operator_button =
  ob_debounce :: nat
  ob_raw_pressed :: "bool option"
  ob_raw_changed_at :: nat
  ob_stable_pressed :: bool
  ob_follow_up :: follow_up

definition button_new :: "nat \<Rightarrow> nat \<Rightarrow> operator_button" where
  "button_new debounce now = \<lparr> ob_debounce = debounce, ob_raw_pressed = None, ob_raw_changed_at = now,
     ob_stable_pressed = False, ob_follow_up = follow_up.None' \<rparr>"

definition update_debounce :: "operator_button \<Rightarrow> bool \<Rightarrow> nat \<Rightarrow> operator_button \<times> bool" where
  "update_debounce b pressed now =
     (case ob_raw_pressed b of
        None \<Rightarrow> (b\<lparr> ob_raw_pressed := Some pressed, ob_stable_pressed := pressed,
                    ob_raw_changed_at := now \<rparr>, False)
      | Some raw_pressed \<Rightarrow>
         if pressed \<noteq> raw_pressed then
           (b\<lparr> ob_raw_pressed := Some pressed, ob_raw_changed_at := now \<rparr>, False)
         else if pressed \<noteq> ob_stable_pressed b \<and> now - ob_raw_changed_at b \<ge> ob_debounce b then
           (b\<lparr> ob_stable_pressed := pressed \<rparr>, pressed)
         else (b, False))"

definition command_for_press :: "status_snapshot \<Rightarrow> local_command" where
  "command_for_press status =
     (if st_active_operation status \<noteq> None \<or> st_controller status = controller_state.Busy then
        local_command.Abort
      else if st_controller status = controller_state.Ready \<and>
              pose_kind (stand_pose (st_stand status)) = stand_pose_kind.Open then
        local_command.Grip
      else local_command.RecoverToOpen)"

definition poll :: "operator_button \<Rightarrow> 'e + bool \<Rightarrow> status_snapshot \<Rightarrow> nat \<Rightarrow>
    ('e + local_command option) \<times> operator_button" where
  "poll b reading status now =
     (case reading of
        Inl e \<Rightarrow> (Inl e, b)
      | Inr pressed \<Rightarrow>
         (case update_debounce b pressed now of (b, press_event) \<Rightarrow>
          if press_event then
            (Inr (Some (command_for_press status)), b\<lparr> ob_follow_up := follow_up.None' \<rparr>)
          else case ob_follow_up b of
            follow_up.None' \<Rightarrow> (Inr None, b)
          | RecoverAfterAbort \<Rightarrow>
              if st_controller status = controller_state.Aborted \<and> st_active_operation status = None then
                (Inr (Some local_command.RecoverToOpen), b\<lparr> ob_follow_up := follow_up.None' \<rparr>)
              else if st_controller status = controller_state.Faulted \<or>
                      st_active_operation status \<noteq> None \<or>
                      st_controller status = controller_state.Busy then
                (Inr None, b\<lparr> ob_follow_up := follow_up.None' \<rparr>)
              else (Inr None, b)
          | AutoAfterGrip operation_id \<Rightarrow>
              (case st_active_operation status of
                 Some active \<Rightarrow>
                   (Inr None, if op_id active \<noteq> operation_id then b\<lparr> ob_follow_up := follow_up.None' \<rparr> else b)
               | None \<Rightarrow>
                   if st_controller status = controller_state.Ready \<and>
                      pose_kind (stand_pose (st_stand status)) = stand_pose_kind.CanonicalGrip then
                     (Inr (map_option (\<lambda>session. local_command.ScanSolveExecute (cs_id session))
                             (st_cube_session status)), b\<lparr> ob_follow_up := follow_up.None' \<rparr>)
                   else if st_controller status \<noteq> controller_state.Busy then
                     (Inr None, b\<lparr> ob_follow_up := follow_up.None' \<rparr>)
                   else (Inr None, b))))"

fun command_finished :: "operator_button \<Rightarrow> local_command \<Rightarrow> local_command_outcome \<Rightarrow> operator_button" where
  "command_finished b local_command.Abort (local_command_outcome.Accepted _) =
     b\<lparr> ob_follow_up := RecoverAfterAbort \<rparr>"
| "command_finished b local_command.Grip (local_command_outcome.Accepted (Some operation_id)) =
     b\<lparr> ob_follow_up := AutoAfterGrip operation_id \<rparr>"
| "command_finished b _ _ = b\<lparr> ob_follow_up := follow_up.None' \<rparr>"

section \<open>The debouncer\<close>

type_synonym sample = "bool \<times> nat"

fun run_debounce :: "operator_button \<Rightarrow> sample list \<Rightarrow> operator_button \<times> bool list" where
  "run_debounce b [] = (b, [])"
| "run_debounce b ((pressed, now) # samples) =
     (case update_debounce b pressed now of (b, event) \<Rightarrow>
        case run_debounce b samples of (b, events) \<Rightarrow> (b, event # events))"

lemma run_debounce_append:
  "run_debounce b (xs @ ys) =
     (case run_debounce b xs of (b, es) \<Rightarrow> case run_debounce b ys of (b, es') \<Rightarrow> (b, es @ es'))"
  by (induction b xs rule: run_debounce.induct) (auto split: prod.splits)

lemma length_run_debounce [simp]: "length (snd (run_debounce b samples)) = length samples"
  by (induction b samples rule: run_debounce.induct) (auto split: prod.splits)

lemma update_debounce_debounce [simp]: "ob_debounce (fst (update_debounce b p now)) = ob_debounce b"
  by (auto simp: update_debounce_def split: option.splits)

lemma run_debounce_debounce [simp]: "ob_debounce (fst (run_debounce b samples)) = ob_debounce b"
proof (induction b samples rule: run_debounce.induct)
  case (2 b pressed now samples)
  obtain b1 e where e: "update_debounce b pressed now = (b1, e)" by fastforce
  then have "ob_debounce b1 = ob_debounce b" by (metis fst_conv update_debounce_debounce)
  with 2 e show ?case by (auto split: prod.splits)
qed simp

text \<open>
  \<open>steady d v samples k l\<close>: from reading \<open>k\<close> to reading \<open>l\<close> every reading was \<open>v\<close>, for at least the
  debounce time.
\<close>

definition steady :: "nat \<Rightarrow> bool \<Rightarrow> sample list \<Rightarrow> nat \<Rightarrow> nat \<Rightarrow> bool" where
  "steady d v samples k l \<longleftrightarrow> k \<le> l \<and> l < length samples \<and>
     (\<forall>i. k \<le> i \<and> i \<le> l \<longrightarrow> fst (samples ! i) = v) \<and> d \<le> snd (samples ! l) - snd (samples ! k)"

lemma steady_append [intro]: "steady d v samples k l \<Longrightarrow> steady d v (samples @ xs) k l"
  by (auto simp: steady_def nth_append)

lemma nth_append_old: "i < length xs \<Longrightarrow> (xs @ ys) ! i = xs ! i"
  by (simp add: nth_append)

text \<open>The raw reading is the last one, and \<open>ob_raw_changed_at\<close> the start of its run.\<close>

definition run_of :: "sample list \<Rightarrow> nat \<Rightarrow> bool \<Rightarrow> bool" where
  "run_of samples k v \<longleftrightarrow> k < length samples \<and>
     (\<forall>i. k \<le> i \<longrightarrow> i < length samples \<longrightarrow> fst (samples ! i) = v)"

definition raw_ok :: "operator_button \<Rightarrow> sample list \<Rightarrow> bool" where
  "raw_ok b samples \<longleftrightarrow>
     (if samples = [] then ob_raw_pressed b = None
      else \<exists>k v. run_of samples k v \<and> ob_raw_pressed b = Some v \<and> ob_raw_changed_at b = snd (samples ! k))"

lemma run_of_append: "run_of samples k v \<Longrightarrow> run_of (samples @ [(v, now)]) k v"
  unfolding run_of_def by (auto simp: nth_append)

lemma run_of_new: "run_of (samples @ [(v, now)]) (length samples) v"
  by (auto simp: run_of_def le_less_Suc_eq)

lemma raw_ok_step:
  assumes "raw_ok b samples"
  shows "raw_ok (fst (update_debounce b p now)) (samples @ [(p, now)])"
proof (cases "ob_raw_pressed b = Some p")
  case False
  then have "ob_raw_pressed (fst (update_debounce b p now)) = Some p"
    "ob_raw_changed_at (fst (update_debounce b p now)) = now"
    by (auto simp: update_debounce_def split: option.splits)
  then show ?thesis
    using run_of_new [of samples p now] unfolding raw_ok_def by (auto intro!: exI [of _ "length samples"])
next
  case True
  then obtain k where k: "run_of samples k p" "ob_raw_changed_at b = snd (samples ! k)"
    using assms unfolding raw_ok_def by (auto split: if_splits)
  have "ob_raw_pressed (fst (update_debounce b p now)) = Some p"
    "ob_raw_changed_at (fst (update_debounce b p now)) = ob_raw_changed_at b"
    using True by (auto simp: update_debounce_def)
  moreover have "snd ((samples @ [(p, now)]) ! k) = snd (samples ! k)"
    using k(1) by (simp add: run_of_def nth_append)
  ultimately show ?thesis
    using k run_of_append [OF k(1), of now] unfolding raw_ok_def by (auto intro!: exI [of _ k])
qed

lemma raw_ok_steady:
  assumes "raw_ok b samples" and "ob_raw_pressed b = Some p" and "d \<le> now - ob_raw_changed_at b"
  shows "\<exists>k < length samples. steady d p (samples @ [(p, now)]) k (length samples)"
proof -
  obtain k where k: "run_of samples k p" "ob_raw_changed_at b = snd (samples ! k)"
    using assms(1,2) unfolding raw_ok_def by (auto split: if_splits)
  then have "run_of (samples @ [(p, now)]) k p" by (intro run_of_append)
  moreover have "d \<le> snd ((samples @ [(p, now)]) ! length samples) - snd ((samples @ [(p, now)]) ! k)"
    using k assms(3) by (simp add: run_of_def nth_append)
  ultimately have "steady d p (samples @ [(p, now)]) k (length samples)"
    using k(1) unfolding steady_def run_of_def by simp
  with k(1) show ?thesis unfolding run_of_def by blast
qed

text \<open>
  \<open>debounced b samples es\<close>: after the readings \<open>samples\<close> with the events \<open>es\<close>, every event ended a
  steady press after a release, between two events lies a steady release, and while the button is
  stably released one lies behind every event.
\<close>

definition debounced :: "operator_button \<Rightarrow> sample list \<Rightarrow> bool list \<Rightarrow> bool" where
  "debounced b samples es \<longleftrightarrow> length es = length samples \<and> raw_ok b samples \<and>
     (\<forall>i < length es. es ! i \<longrightarrow> (\<exists>k. steady (ob_debounce b) True samples k i) \<and>
        (\<exists>k < i. \<not> fst (samples ! k))) \<and>
     (\<forall>j < length es. \<forall>i < j. es ! i \<and> es ! j \<longrightarrow>
        (\<exists>k l. i < k \<and> l < j \<and> steady (ob_debounce b) False samples k l)) \<and>
     (samples \<noteq> [] \<and> \<not> ob_stable_pressed b \<longrightarrow> (\<exists>k < length samples. \<not> fst (samples ! k))) \<and>
     (\<not> ob_stable_pressed b \<longrightarrow> (\<forall>i < length es. es ! i \<longrightarrow>
        (\<exists>k l. i < k \<and> steady (ob_debounce b) False samples k l)))"

lemma debounced_new: "debounced (button_new d now) [] []"
  by (simp add: debounced_def raw_ok_def button_new_def)

text \<open>A reading without an event keeps the history of events.\<close>

lemma debounced_quiet:
  assumes "debounced b samples es" and "raw_ok b' (samples @ [s])" and "ob_debounce b' = ob_debounce b"
    and "\<not> ob_stable_pressed b' \<Longrightarrow> (\<exists>k < Suc (length samples). \<not> fst ((samples @ [s]) ! k)) \<and>
      (\<forall>i < length es. es ! i \<longrightarrow> (\<exists>k l. i < k \<and> steady (ob_debounce b) False (samples @ [s]) k l))"
  shows "debounced b' (samples @ [s]) (es @ [False])"
proof -
  have len: "length es = length samples" using assms(1) by (simp add: debounced_def)
  have old: "(es @ [False]) ! i \<longleftrightarrow> i < length es \<and> es ! i" if "i < Suc (length es)" for i
    using that by (auto simp: nth_append less_Suc_eq)
  have "\<exists>k. steady (ob_debounce b) True (samples @ [s]) k i" "\<exists>k < i. \<not> fst ((samples @ [s]) ! k)"
    if "i < length es" "es ! i" for i
    using assms(1) that len unfolding debounced_def by (blast, metis nth_append_old less_trans)
  moreover have "\<exists>k l. i < k \<and> l < j \<and> steady (ob_debounce b) False (samples @ [s]) k l"
    if "j < length es" "i < j" "es ! i" "es ! j" for i j
    using assms(1) that unfolding debounced_def by blast
  ultimately show ?thesis
    using assms(2-4) len old unfolding debounced_def by (simp add: less_Suc_eq_le)
qed

lemma debouncedD:
  assumes "debounced b samples es"
  shows "length es = length samples" and "raw_ok b samples"
    and "i < length es \<Longrightarrow> es ! i \<Longrightarrow> \<exists>k. steady (ob_debounce b) True samples k i"
    and "i < length es \<Longrightarrow> es ! i \<Longrightarrow> \<exists>k < i. \<not> fst (samples ! k)"
    and "j < length es \<Longrightarrow> i < j \<Longrightarrow> es ! i \<Longrightarrow> es ! j \<Longrightarrow>
      \<exists>k l. i < k \<and> l < j \<and> steady (ob_debounce b) False samples k l"
    and "samples \<noteq> [] \<Longrightarrow> \<not> ob_stable_pressed b \<Longrightarrow> \<exists>k < length samples. \<not> fst (samples ! k)"
    and "\<not> ob_stable_pressed b \<Longrightarrow> i < length es \<Longrightarrow> es ! i \<Longrightarrow>
      \<exists>k l. i < k \<and> steady (ob_debounce b) False samples k l"
  using assms unfolding debounced_def by blast+

text \<open>The stable state falls after a steady release, which lies behind every event.\<close>

lemma debounced_release:
  assumes "debounced b samples es" and "ob_raw_pressed b = Some False"
    and "ob_debounce b \<le> now - ob_raw_changed_at b" and "i < length es" and "es ! i"
  shows "\<exists>k l. i < k \<and> steady (ob_debounce b) False (samples @ [(False, now)]) k l"
proof -
  note d = debouncedD [OF assms(1)]
  obtain k where k: "steady (ob_debounce b) False (samples @ [(False, now)]) k (length samples)"
    using raw_ok_steady [OF d(2) assms(2,3)] by blast
  have "fst ((samples @ [(False, now)]) ! i)"
    using d(3) [OF assms(4,5)] d(1) assms(4) by (auto simp: steady_def nth_append)
  then have "\<not> k \<le> i"
    using k d(1) assms(4) by (auto simp: steady_def)
  with k show ?thesis by (meson linorder_le_less_linear)
qed

lemma debounced_press:
  assumes "debounced b samples es" and "ob_raw_pressed b = Some True" and "\<not> ob_stable_pressed b"
    and "ob_debounce b \<le> now - ob_raw_changed_at b"
  shows "debounced (b\<lparr> ob_stable_pressed := True \<rparr>) (samples @ [(True, now)]) (es @ [True])"
proof -
  note d = debouncedD [OF assms(1)]
  let ?s = "samples @ [(True, now)]" and ?d = "ob_debounce b"
  have ne: "samples \<noteq> []" using d(2) assms(2) by (auto simp: raw_ok_def split: if_splits)
  obtain k where last: "steady ?d True ?s k (length samples)"
    using raw_ok_steady [OF d(2) assms(2,4)] by blast
  have "raw_ok (b\<lparr> ob_stable_pressed := True \<rparr>) ?s"
    using raw_ok_step [OF d(2), of True now] assms by (simp add: update_debounce_def)
  moreover have "(\<exists>k. steady ?d True ?s k i) \<and> (\<exists>k < i. \<not> fst (?s ! k))"
    if "i < length (es @ [True])" "(es @ [True]) ! i" for i
  proof (cases "i < length es")
    case True
    with that(2) have "es ! i" by (simp add: nth_append)
    with d(3,4) [OF True] True d(1) show ?thesis
      by (metis steady_append nth_append_old less_trans)
  next
    case False
    with that(1) d(1) have "i = length samples" by simp
    with last d(6) [OF ne assms(3)] show ?thesis by (metis nth_append_old)
  qed
  moreover have "\<exists>k l. i < k \<and> l < j \<and> steady ?d False ?s k l"
    if "j < length (es @ [True])" "i < j" "(es @ [True]) ! i" "(es @ [True]) ! j" for i j
  proof (cases "j < length es")
    case True
    with that(2-4) have "es ! i" "es ! j" by (simp_all add: nth_append)
    with d(5) [OF True that(2)] show ?thesis by blast
  next
    case False
    with that(1,2) have i: "i < length es" "j = length samples" using d(1) by simp_all
    with that(3) have "es ! i" by (simp add: nth_append)
    with d(7) [OF assms(3) i(1)] obtain k l where "i < k" "steady ?d False samples k l" by blast
    moreover from this(2) have "l < j" using i(2) by (simp add: steady_def)
    ultimately show ?thesis by blast
  qed
  ultimately show ?thesis
    using d(1) unfolding debounced_def by simp
qed

lemma debounced_step:
  assumes "debounced b samples es" and "update_debounce b p now = (b', e)"
  shows "debounced b' (samples @ [(p, now)]) (es @ [e])"
proof -
  note d = debouncedD [OF assms(1)]
  have raw: "raw_ok b' (samples @ [(p, now)])" and deb: "ob_debounce b' = ob_debounce b"
    using raw_ok_step [OF d(2), of p now] update_debounce_debounce [of b p now] unfolding assms(2) by simp_all
  note quiet = debounced_quiet [OF assms(1) raw deb]
  have kept: "debounced b' (samples @ [(p, now)]) (es @ [False])"
    if "ob_stable_pressed b' = ob_stable_pressed b" "samples \<noteq> []"
    using that d(6) [OF that(2)] d(7)
    by (intro quiet conjI) (auto simp: nth_append less_Suc_eq intro: less_SucI, blast)
  show ?thesis
  proof (cases "ob_raw_pressed b")
    case None
    with d(1,2) have "samples = []" "es = []" by (auto simp: raw_ok_def split: if_splits)
    moreover have "e = False" "ob_stable_pressed b' = p"
      using assms(2) None by (auto simp: update_debounce_def)
    ultimately show ?thesis using quiet by simp
  next
    case (Some v)
    with d(2) have ne: "samples \<noteq> []" by (auto simp: raw_ok_def split: if_splits)
    show ?thesis
    proof (cases "p = v \<and> p \<noteq> ob_stable_pressed b \<and> ob_debounce b \<le> now - ob_raw_changed_at b")
      case False
      with Some assms(2) have "e = False" "ob_stable_pressed b' = ob_stable_pressed b"
        by (auto simp: update_debounce_def split: if_splits)
      with kept ne show ?thesis by simp
    next
      case True
      then have step: "b' = b\<lparr> ob_stable_pressed := p \<rparr>" "e = p"
        using Some assms(2) by (auto simp: update_debounce_def)
      show ?thesis
      proof (cases p)
        case True': True
        with step debounced_press [OF assms(1)] True Some show ?thesis by simp
      next
        case False
        with step True Some have "debounced b' (samples @ [(p, now)]) (es @ [False])"
          using debounced_release [OF assms(1)] by (intro quiet conjI) (auto simp: nth_append)
        with step False show ?thesis by simp
      qed
    qed
  qed
qed

lemma debounced_run:
  assumes "debounced b samples es" and "run_debounce b later = (b', es')"
  shows "debounced b' (samples @ later) (es @ es')"
  using assms
proof (induction later arbitrary: b samples es es')
  case (Cons s later)
  obtain p now where s: "s = (p, now)" by fastforce
  obtain b1 e where e: "update_debounce b p now = (b1, e)" by fastforce
  obtain es2 where "run_debounce b1 later = (b', es2)" "es' = e # es2"
    using Cons.prems(2) e s by (auto split: prod.splits)
  with Cons.IH [OF debounced_step [OF Cons.prems(1) e]] s show ?case by simp
qed simp

text \<open>A steady press of a released button is reported, once.\<close>

lemma pressed_run:
  assumes "ob_raw_pressed b = Some True" and "\<forall>s \<in> set samples. fst s"
  shows "snd (run_debounce b samples) =
    map (\<lambda>i. \<not> ob_stable_pressed b \<and> ob_debounce b \<le> snd (samples ! i) - ob_raw_changed_at b \<and>
      (\<forall>j < i. \<not> ob_debounce b \<le> snd (samples ! j) - ob_raw_changed_at b)) [0..<length samples]"
  using assms
proof (induction samples arbitrary: b)
  case (Cons s samples)
  obtain now where s: "s = (True, now)" using Cons.prems(2) by (cases s) auto
  let ?b = "if \<not> ob_stable_pressed b \<and> ob_debounce b \<le> now - ob_raw_changed_at b
    then b\<lparr> ob_stable_pressed := True \<rparr> else b"
  have step: "update_debounce b True now =
      (?b, \<not> ob_stable_pressed b \<and> ob_debounce b \<le> now - ob_raw_changed_at b)"
    using Cons.prems(1) by (auto simp: update_debounce_def)
  have "snd (run_debounce ?b samples) =
    map (\<lambda>i. \<not> ob_stable_pressed ?b \<and> ob_debounce b \<le> snd (samples ! i) - ob_raw_changed_at b \<and>
      (\<forall>j < i. \<not> ob_debounce b \<le> snd (samples ! j) - ob_raw_changed_at b)) [0..<length samples]"
    using Cons.IH [of ?b] Cons.prems by (auto simp: if_distrib cong: if_cong)
  then show ?case
    using s step
    by (auto simp: upt_conv_Cons map_Suc_upt [symmetric] comp_def All_less_Suc2 split: prod.splits
        simp del: upt_Suc)
qed simp

end
