(* ===== verification/RobotService.thy ===== *)
theory RobotService
  imports ServiceTypes
begin

text \<open>
  The operations of \<open>RobotService\<close> (\<open>src/robot_service.rs\<close>), one definition per method. A method that
  takes \<open>&mut self\<close> returns the new state; a method that returns \<open>anyhow::Result\<close> returns an
  \<open>outcome\<close>, which keeps the state reached when the error occurred, and in which \<open>Panicked\<close> is a
  failed \<open>expect\<close>. The requests return \<open>None\<close> when a panic is reached. Instants are natural
  numbers of milliseconds.
\<close>

datatype motion_error = OutputError | MissingCalibration stand_axis | NonScanAction | CaptureInExecutePlan

datatype 's outcome = Done 's | Failed motion_error 's | Panicked

fun and_then :: "'s outcome \<Rightarrow> ('s \<Rightarrow> 's outcome) \<Rightarrow> 's outcome" where
  "and_then (Done s) f = f s"
| "and_then (Failed e s) f = Failed e s"
| "and_then Panicked f = Panicked"

section \<open>Access to the parts of the state\<close>

definition on_status :: "(status_snapshot \<Rightarrow> status_snapshot) \<Rightarrow> ('d, 's) service \<Rightarrow> ('d, 's) service" where
  "on_status f s = s\<lparr> svc_status := f (svc_status s) \<rparr>"

definition on_stand :: "(stand_state \<Rightarrow> stand_state) \<Rightarrow> ('d, 's) service \<Rightarrow> ('d, 's) service" where
  "on_stand f = on_status (\<lambda>st. st\<lparr> st_stand := f (st_stand st) \<rparr>)"

definition on_scan :: "(scan_status \<Rightarrow> scan_status) \<Rightarrow> ('d, 's) service \<Rightarrow> ('d, 's) service" where
  "on_scan f = on_status (\<lambda>st. st\<lparr> st_scan := f (st_scan st) \<rparr>)"

definition on_solution :: "(solution_status \<Rightarrow> solution_status) \<Rightarrow> ('d, 's) service \<Rightarrow> ('d, 's) service" where
  "on_solution f = on_status (\<lambda>st. st\<lparr> st_solution := f (st_solution st) \<rparr>)"

definition on_operation :: "(operation_status \<Rightarrow> operation_status) \<Rightarrow> ('d, 's) service \<Rightarrow> ('d, 's) service" where
  "on_operation f = on_status (\<lambda>st. st\<lparr> st_active_operation := map_option f (st_active_operation st) \<rparr>)"

definition set_pose :: "stand_pose \<Rightarrow> ('d, 's) service \<Rightarrow> ('d, 's) service" where
  "set_pose pose = on_stand (\<lambda>st. st\<lparr> stand_pose := pose \<rparr>)"

definition set_outputs_enabled :: "bool \<Rightarrow> ('d, 's) service \<Rightarrow> ('d, 's) service" where
  "set_outputs_enabled b = on_stand (\<lambda>st. st\<lparr> stand_outputs_enabled := b \<rparr>)"

definition set_controller :: "controller_state \<Rightarrow> operation_status option \<Rightarrow> ('d, 's) service \<Rightarrow> ('d, 's) service" where
  "set_controller c opr = on_status (\<lambda>st. st\<lparr> st_controller := c, st_active_operation := opr \<rparr>)"

definition on_rail :: "nat \<Rightarrow> (rail_status \<Rightarrow> rail_status) \<Rightarrow> ('d, 's) service \<Rightarrow> ('d, 's) service" where
  "on_rail i f = on_stand (\<lambda>st. st\<lparr> stand_rails := (stand_rails st)[i := f (stand_rails st ! i)] \<rparr>)"

definition on_gripper :: "nat \<Rightarrow> (gripper_status \<Rightarrow> gripper_status) \<Rightarrow> ('d, 's) service \<Rightarrow> ('d, 's) service" where
  "on_gripper i f = on_stand (\<lambda>st. st\<lparr> stand_grippers := (stand_grippers st)[i := f (stand_grippers st ! i)] \<rparr>)"

definition emit :: "event_message \<Rightarrow> ('d, 's) service \<Rightarrow> ('d, 's) service" where
  "emit e s = s\<lparr> svc_events := svc_events s @ [e] \<rparr>"

definition emit_stand :: "('d, 's) service \<Rightarrow> ('d, 's) service" where
  "emit_stand s = emit (event_message.StandStateChanged (st_stand (svc_status s))) s"

definition emit_robot_state :: "('d, 's) service \<Rightarrow> ('d, 's) service" where
  "emit_robot_state s = emit (event_message.RobotStateChanged (st_controller (svc_status s))
     (st_active_operation (svc_status s))) s"

definition drain_events :: "('d, 's) service \<Rightarrow> service_message list \<times> ('d, 's) service" where
  "drain_events s = (map Event (svc_events s), s\<lparr> svc_events := [] \<rparr>)"

definition use_output :: "('d \<Rightarrow> bool \<times> 'd) \<Rightarrow> ('d, 's) service \<Rightarrow> ('d, 's) service outcome" where
  "use_output f s =
     (case f (svc_output s) of (ok, d) \<Rightarrow>
        if ok then Done (s\<lparr> svc_output := d \<rparr>) else Failed OutputError (s\<lparr> svc_output := d \<rparr>))"

definition with_scanner :: "'d \<Rightarrow> stand_calibration \<Rightarrow> 's \<Rightarrow> ('d, 's) service" where
  "with_scanner dev c scanner = \<lparr> svc_output = dev, svc_calibration = c, svc_status = unknown_status,
     svc_motion = None, svc_scan = None, svc_solve = None, svc_execute = None, svc_scanner = scanner,
     next_operation_id = 1, next_session_id = 1, next_scan_revision = 1, next_solution_id = 1,
     request_cache = [], svc_events = [] \<rparr>"

text \<open>\<open>wrapping_add(1).max(1)\<close>\<close>

definition next_id :: "u32 \<Rightarrow> u32" where
  "next_id w = max (w + 1) 1"

definition clear_scan_and_solution :: "('d, 's) service \<Rightarrow> ('d, 's) service" where
  "clear_scan_and_solution = on_status (\<lambda>st. st\<lparr> st_scan := empty_scan, st_solution := empty_solution \<rparr>)"

definition operation_active :: "('d, 's) service \<Rightarrow> bool" where
  "operation_active s \<longleftrightarrow> svc_motion s \<noteq> None \<or> svc_scan s \<noteq> None \<or> svc_solve s \<noteq> None \<or> svc_execute s \<noteq> None"

definition clear_active :: "('d, 's) service \<Rightarrow> ('d, 's) service" where
  "clear_active s = s\<lparr> svc_motion := None, svc_scan := None, svc_solve := None, svc_execute := None \<rparr>"

section \<open>Faults and aborts\<close>

definition enter_fault :: "('d, 's) backend \<Rightarrow> u32 \<Rightarrow> ('d, 's) service \<Rightarrow> ('d, 's) service" where
  "enter_fault B operation_id s =
     (let s = s\<lparr> svc_scanner := abort_scan B (svc_scanner s) \<rparr>;
          s = s\<lparr> svc_output := snd (all_off B (svc_output s)) \<rparr>;
          s = clear_active s;
          s = set_controller controller_state.Faulted None s;
          s = on_stand (\<lambda>_. unknown_stand) s;
          s = on_status (\<lambda>st. st\<lparr> st_cube_session := None \<rparr>) s;
          s = clear_scan_and_solution s;
          fault = \<lparr> fault_code = fault_code.I2c, fault_detail = 0 \<rparr>;
          s = on_status (\<lambda>st. st\<lparr> st_fault := Some fault \<rparr>) s;
          s = emit (event_message.Fault (if operation_id \<noteq> 0 then Some operation_id else None) fault) s;
          s = emit_robot_state s
      in emit_stand s)"

definition abort :: "('d, 's) backend \<Rightarrow> u32 option \<Rightarrow> ('d, 's) service \<Rightarrow> ('d, 's) service" where
  "abort B operation_id s =
     (let s = s\<lparr> svc_scanner := abort_scan B (svc_scanner s) \<rparr> in
      case all_off B (svc_output s) of
        (True, d) \<Rightarrow>
          let s = s\<lparr> svc_output := d \<rparr>;
              s = clear_active s;
              s = set_controller controller_state.Aborted None s;
              s = on_stand (\<lambda>_. unknown_stand) s;
              s = on_status (\<lambda>st. st\<lparr> st_cube_session := None \<rparr>) s;
              s = clear_scan_and_solution s;
              s = emit (event_message.Aborted operation_id) s;
              s = emit_robot_state s;
              s = emit_stand s
          in emit (event_message.CubeSessionChanged None) s
      | (False, d) \<Rightarrow> enter_fault B (case operation_id of None \<Rightarrow> 0 | Some i \<Rightarrow> i) (s\<lparr> svc_output := d \<rparr>))"

definition shutdown :: "('d, 's) backend \<Rightarrow> ('d, 's) service \<Rightarrow> ('d, 's) service outcome" where
  "shutdown B s =
     (let s = s\<lparr> svc_scanner := abort_scan B (svc_scanner s) \<rparr> in
      and_then (use_output (all_off B) s) (\<lambda>s. Done (set_outputs_enabled False s)))"

section \<open>Rails and grippers\<close>

definition finish_rails :: "axis list \<Rightarrow> link_rail_position \<Rightarrow> ('d, 's) service \<Rightarrow> ('d, 's) service" where
  "finish_rails axes position = fold (\<lambda>axis. on_rail (axis_index axis)
     (\<lambda>r. r\<lparr> rail_motion := Stable, rail_current := Some position, rail_target := None \<rparr>)) axes"

definition moving_rails :: "nat list \<Rightarrow> link_rail_position \<Rightarrow> ('d, 's) service \<Rightarrow> ('d, 's) service" where
  "moving_rails indices target = fold (\<lambda>i. on_rail i
     (\<lambda>r. r\<lparr> rail_motion := Moving, rail_target := Some target \<rparr>)) indices"

definition command_rail_pair :: "('d, 's) backend \<Rightarrow> stand_axis list \<Rightarrow> axis list \<Rightarrow> rail_position \<Rightarrow>
    ('d, 's) service \<Rightarrow> ('d, 's) service outcome" where
  "command_rail_pair B physical logical position s =
     (let channels = map (\<lambda>axis. (channel axis, rail_pulse (svc_calibration s) axis position)) physical in
      and_then (use_output (\<lambda>d. set_channels B d channels) s) (\<lambda>s.
        let s = moving_rails (map axis_index logical) (to_link_rail_position position) s
        in Done (set_outputs_enabled True s)))"

definition command_motion_rails :: "('d, 's) backend \<Rightarrow> rail_target \<Rightarrow> rail_position \<Rightarrow>
    ('d, 's) service \<Rightarrow> ('d, 's) service outcome" where
  "command_motion_rails B target position s =
     (case target of
        Pair pair \<Rightarrow> (case rail_pair_axes pair of (physical, logical) \<Rightarrow>
          command_rail_pair B physical logical position s)
      | Single axis \<Rightarrow>
          and_then (use_output (\<lambda>d. set_channels B d
              [(channel axis, rail_pulse (svc_calibration s) axis position)]) s) (\<lambda>s.
            let s = moving_rails [stand_axis_index axis] (to_link_rail_position position) s
            in Done (set_outputs_enabled True s)))"

definition finish_motion_rails :: "('d, 's) backend \<Rightarrow> rail_target \<Rightarrow> rail_position \<Rightarrow>
    ('d, 's) service \<Rightarrow> ('d, 's) service outcome" where
  "finish_motion_rails B target position s =
     (case target of
        Pair pair \<Rightarrow> (case rail_pair_axes pair of (physical, logical) \<Rightarrow>
          and_then (use_output (\<lambda>d. disable_channels B d (map channel physical)) s) (\<lambda>s.
            Done (finish_rails logical (to_link_rail_position position) s)))
      | Single axis \<Rightarrow>
          and_then (use_output (\<lambda>d. disable_channels B d [channel axis]) s) (\<lambda>s.
            Done (on_rail (stand_axis_index axis)
              (\<lambda>r. r\<lparr> rail_motion := Stable, rail_current := Some (to_link_rail_position position),
                     rail_target := None \<rparr>) s)))"

fun link_orientation_index :: "link_gripper_orientation \<Rightarrow> int" where
  "link_orientation_index link_gripper_orientation.FrameParallel = 0"
| "link_orientation_index link_gripper_orientation.FramePerpendicular = 1"
| "link_orientation_index link_gripper_orientation.FrameParallelReversed = 2"

definition gripper_quarter_turns :: "('d, 's) service \<Rightarrow> (stand_axis \<times> gripper_orientation) list \<Rightarrow> nat" where
  "gripper_quarter_turns s poses =
     max (fold max (List.map_filter (\<lambda>(axis, target).
        map_option (\<lambda>current. nat \<bar>link_orientation_index (to_link_gripper_orientation target) -
             link_orientation_index current\<bar>)
          (gripper_current (stand_grippers (st_stand (svc_status s)) ! stand_axis_index axis))) poses) 0) 1"

definition gripper_motion_duration :: "('d, 's) service \<Rightarrow> (stand_axis \<times> gripper_orientation) list \<Rightarrow> nat" where
  "gripper_motion_duration s poses =
     gripper_pose_duration (svc_calibration s) * gripper_quarter_turns s poses"

definition gripper_channels :: "stand_calibration \<Rightarrow> (stand_axis \<times> gripper_orientation) list \<Rightarrow>
    motion_error + (u8 \<times> u16) list" where
  "gripper_channels c = collect_results (\<lambda>(axis, orientation).
     case gripper_pulse c axis orientation of
       Some pulse \<Rightarrow> Inr (channel axis, pulse)
     | None \<Rightarrow> Inl (MissingCalibration axis))"

definition command_scan_grippers :: "('d, 's) backend \<Rightarrow> (stand_axis \<times> gripper_orientation) list \<Rightarrow>
    ('d, 's) service \<Rightarrow> ('d, 's) service outcome" where
  "command_scan_grippers B poses s =
     (case gripper_channels (svc_calibration s) poses of
        Inl e \<Rightarrow> Failed e s
      | Inr channels \<Rightarrow>
          and_then (use_output (\<lambda>d. set_channels B d channels) s) (\<lambda>s.
            let s = fold (\<lambda>(axis, orientation). on_gripper (stand_axis_index axis)
                  (\<lambda>g. g\<lparr> gripper_motion := Moving,
                         gripper_target := Some (to_link_gripper_orientation orientation) \<rparr>)) poses s
            in Done (set_outputs_enabled True s)))"

definition finish_scan_grippers :: "(stand_axis \<times> gripper_orientation) list \<Rightarrow>
    ('d, 's) service \<Rightarrow> ('d, 's) service" where
  "finish_scan_grippers poses = fold (\<lambda>(axis, orientation). on_gripper (stand_axis_index axis)
     (\<lambda>g. g\<lparr> gripper_motion := Stable,
            gripper_current := Some (to_link_gripper_orientation orientation),
            gripper_target := None \<rparr>)) poses"

definition command_all_grippers_perpendicular :: "('d, 's) backend \<Rightarrow>
    ('d, 's) service \<Rightarrow> ('d, 's) service outcome" where
  "command_all_grippers_perpendicular B s =
     (case gripper_channels (svc_calibration s) (map (\<lambda>axis. (axis, Perp))
        [LeftGripper, RightGripper, TopGripper, BottomGripper]) of
        Inl e \<Rightarrow> Failed e s
      | Inr channels \<Rightarrow>
          and_then (use_output (\<lambda>d. set_channels B d channels) s) (\<lambda>s.
            let s = on_stand (\<lambda>st. st\<lparr> stand_grippers := map (\<lambda>g. g\<lparr> gripper_motion := Moving,
                  gripper_target := Some link_gripper_orientation.FramePerpendicular \<rparr>)
                  (stand_grippers st) \<rparr>) s
            in Done (set_outputs_enabled True s)))"

definition finish_all_grippers_perpendicular :: "('d, 's) service \<Rightarrow> ('d, 's) service" where
  "finish_all_grippers_perpendicular = on_stand (\<lambda>st. st\<lparr> stand_grippers := map
     (\<lambda>g. g\<lparr> gripper_motion := Stable,
            gripper_current := Some link_gripper_orientation.FramePerpendicular,
            gripper_target := None \<rparr>) (stand_grippers st) \<rparr>)"

definition advance_action_counter :: "('d, 's) service \<Rightarrow> ('d, 's) service" where
  "advance_action_counter = on_operation (\<lambda>operation.
     operation\<lparr> op_current_action := saturating_add16 (op_current_action operation) 1 \<rparr>)"

section \<open>Recovering to open and gripping\<close>

definition set_motion_phase :: "motion_phase \<Rightarrow> nat \<Rightarrow> u16 \<Rightarrow> ('d, 's) service \<Rightarrow> ('d, 's) service outcome" where
  "set_motion_phase phase deadline current_action s =
     (case svc_motion s of
        None \<Rightarrow> Panicked
      | Some active \<Rightarrow>
          let s = s\<lparr> svc_motion := Some (active\<lparr> am_phase := phase, am_deadline := Some deadline \<rparr>) \<rparr>
          in Done (on_operation (\<lambda>operation. operation\<lparr> op_current_action := current_action \<rparr>) s))"

definition complete_operation :: "('d, 's) service \<Rightarrow> ('d, 's) service outcome" where
  "complete_operation s =
     (case svc_motion s of
        None \<Rightarrow> Panicked
      | Some active \<Rightarrow>
          let s = s\<lparr> svc_motion := None \<rparr>;
              s = set_controller controller_state.Ready None s;
              s = emit_stand s;
              s = emit_robot_state s
          in Done (emit (event_message.OperationCompleted (am_operation_id active) (am_kind active)) s))"

definition recover_start :: "('d, 's) backend \<Rightarrow> nat \<Rightarrow> ('d, 's) service \<Rightarrow> ('d, 's) service outcome" where
  "recover_start B now s =
     (let s = on_status (\<lambda>st. st\<lparr> st_cube_session := None \<rparr>) s;
          s = clear_scan_and_solution s;
          s = set_pose transitional_pose s
      in and_then (command_rail_pair B [LeftRail, RightRail] [axis.Left, axis.Right] FarOpen s) (\<lambda>s.
         and_then (set_motion_phase RecoverFinishLeftRight
             (now + rail_duration (svc_calibration s) FarOpen) 0 s) (\<lambda>s.
         Done (emit_stand s))))"

definition recover_finish_left_right :: "('d, 's) backend \<Rightarrow> nat \<Rightarrow> ('d, 's) service \<Rightarrow>
    ('d, 's) service outcome" where
  "recover_finish_left_right B now s =
     and_then (use_output (\<lambda>d. disable_channels B d [channel LeftRail, channel RightRail]) s) (\<lambda>s.
     and_then (command_rail_pair B [TopRail, BottomRail] [axis.Top, axis.Bottom] FarOpen
         (finish_rails [axis.Left, axis.Right] link_rail_position.Open s)) (\<lambda>s.
     and_then (set_motion_phase RecoverFinishTopBottom
         (now + rail_duration (svc_calibration s) FarOpen) 1 s) (\<lambda>s.
     Done (emit_stand s))))"

definition recover_finish_top_bottom :: "('d, 's) backend \<Rightarrow> nat \<Rightarrow> ('d, 's) service \<Rightarrow>
    ('d, 's) service outcome" where
  "recover_finish_top_bottom B now s =
     and_then (use_output (\<lambda>d. disable_channels B d [channel TopRail, channel BottomRail]) s) (\<lambda>s.
     and_then (command_all_grippers_perpendicular B
         (finish_rails [axis.Top, axis.Bottom] link_rail_position.Open s)) (\<lambda>s.
     and_then (set_motion_phase RecoverFinishGrippers
         (now + gripper_pose_duration (svc_calibration s)) 2 s) (\<lambda>s.
     Done (emit_stand s))))"

definition recover_finish_grippers :: "('d, 's) backend \<Rightarrow> ('d, 's) service \<Rightarrow> ('d, 's) service outcome" where
  "recover_finish_grippers B s =
     and_then (use_output (all_off B) s) (\<lambda>s.
       let s = finish_all_grippers_perpendicular s;
           s = set_outputs_enabled False s;
           s = set_pose open_pose s
       in complete_operation s)"

definition grip_start :: "('d, 's) backend \<Rightarrow> nat \<Rightarrow> ('d, 's) service \<Rightarrow> ('d, 's) service outcome" where
  "grip_start B now s =
     (let s = set_pose transitional_pose s in
      and_then (command_all_grippers_perpendicular B s) (\<lambda>s.
      and_then (set_motion_phase GripFinishGrippers
          (now + gripper_pose_duration (svc_calibration s)) 0 s) (\<lambda>s.
      Done (emit_stand s))))"

definition grip_finish_grippers :: "('d, 's) backend \<Rightarrow> nat \<Rightarrow> ('d, 's) service \<Rightarrow>
    ('d, 's) service outcome" where
  "grip_finish_grippers B now s =
     (let s = finish_all_grippers_perpendicular s;
          channels = map (\<lambda>axis. (channel axis, rail_pulse (svc_calibration s) axis NearGrip)) RAILS
      in and_then (use_output (\<lambda>d. set_channels B d channels) s) (\<lambda>s.
         let s = moving_rails (map axis_index [axis.Left, axis.Right, axis.Top, axis.Bottom])
               link_rail_position.Grip s;
             s = set_outputs_enabled True s
         in and_then (set_motion_phase GripFinishRails
              (now + rail_duration (svc_calibration s) NearGrip) 1 s) (\<lambda>s.
            Done (emit_stand s))))"

definition grip_finish_rails :: "('d, 's) backend \<Rightarrow> ('d, 's) service \<Rightarrow> ('d, 's) service outcome" where
  "grip_finish_rails B s =
     and_then (use_output (\<lambda>d. disable_channels B d (map channel RAILS)) s) (\<lambda>s.
       let s = finish_rails [axis.Left, axis.Right] link_rail_position.Grip s;
           s = finish_rails [axis.Top, axis.Bottom] link_rail_position.Grip s;
           s = set_pose canonical_grip_pose s;
           session = \<lparr> cs_id = next_session_id s \<rparr>;
           s = s\<lparr> next_session_id := next_id (next_session_id s) \<rparr>;
           s = on_status (\<lambda>st. st\<lparr> st_cube_session := Some session \<rparr>) s;
           s = emit (event_message.CubeSessionChanged (Some session)) s
       in complete_operation s)"

definition motion_handler :: "('d, 's) backend \<Rightarrow> motion_phase \<Rightarrow> nat \<Rightarrow> ('d, 's) service \<Rightarrow>
    ('d, 's) service outcome" where
  "motion_handler B phase now s =
     (case phase of
        RecoverStart \<Rightarrow> recover_start B now s
      | RecoverFinishLeftRight \<Rightarrow> recover_finish_left_right B now s
      | RecoverFinishTopBottom \<Rightarrow> recover_finish_top_bottom B now s
      | RecoverFinishGrippers \<Rightarrow> recover_finish_grippers B s
      | GripStart \<Rightarrow> grip_start B now s
      | GripFinishGrippers \<Rightarrow> grip_finish_grippers B now s
      | GripFinishRails \<Rightarrow> grip_finish_rails B s)"

definition advance_motion :: "('d, 's) backend \<Rightarrow> nat \<Rightarrow> ('d, 's) service \<Rightarrow> ('d, 's) service option" where
  "advance_motion B now s =
     (case svc_motion s of
        None \<Rightarrow> Some s
      | Some active \<Rightarrow> (case motion_handler B (am_phase active) now s of
          Done s \<Rightarrow> Some s
        | Failed e s \<Rightarrow> Some (enter_fault B (am_operation_id active) s)
        | Panicked \<Rightarrow> None))"

end
