(* ===== verification/RobotPlans.thy ===== *)
theory RobotPlans
  imports RobotService
begin

unbundle bit_operations_syntax

text \<open>
  The operations of \<open>RobotService\<close> that run a queue of motion steps or wait for the solver:
  \<open>advance_scan\<close>, \<open>advance_solve\<close>, \<open>advance_execute\<close> and what they call. Each call makes one step:
  it issues one actuator command, completes one whose deadline has passed, captures a face, or ends
  the operation.
\<close>

text \<open>The common end of the handlers: an error faults the operation, a panic is a panic.\<close>

definition settle :: "('d, 's) backend \<Rightarrow> u32 \<Rightarrow> ('d, 's) service outcome \<Rightarrow> ('d, 's) service option" where
  "settle B operation_id r =
     (case r of
        Done s \<Rightarrow> Some s
      | Failed e s \<Rightarrow> Some (enter_fault B operation_id s)
      | Panicked \<Rightarrow> None)"

definition waiting :: "nat option \<Rightarrow> nat \<Rightarrow> bool" where
  "waiting deadline now = (case deadline of Some d \<Rightarrow> now < d | None \<Rightarrow> False)"

definition finish_pending :: "('d, 's) backend \<Rightarrow> pending_motion_step \<Rightarrow> ('d, 's) service \<Rightarrow>
    ('d, 's) service outcome" where
  "finish_pending B pending s =
     (case pending of
        Rails target position \<Rightarrow> finish_motion_rails B target position s
      | Grippers poses \<Rightarrow> Done (finish_scan_grippers poses s))"

definition begin_solver :: "u32 \<Rightarrow> u32 \<Rightarrow> operation_kind \<Rightarrow> string \<Rightarrow> ('d, 's) service \<Rightarrow> ('d, 's) service" where
  "begin_solver operation_id revision knd facelets s =
     (let s = on_solution (\<lambda>_. empty_solution\<lparr> sol_state := Solving,
            sol_source_scan_revision := Some revision \<rparr>) s
      in s\<lparr> svc_solve := Some \<lparr> av_operation_id = operation_id, av_kind = knd,
              av_scan_revision = revision, av_facelets = facelets \<rparr> \<rparr>)"

section \<open>Scanning\<close>

definition finish_scan_operation :: "('d, 's) backend \<Rightarrow> active_scan \<Rightarrow> ('d, 's) service \<Rightarrow>
    ('d, 's) service option" where
  "finish_scan_operation B scan s = do {
     facelets \<leftarrow> (if as_failure scan = None then
         map_option (\<lambda>r. case r of Inl _ \<Rightarrow> None | Inr f \<Rightarrow> Some f) (facelet_string (as_cube scan))
       else Some None);
     let failure = (case as_failure scan of
            Some kind' \<Rightarrow> Some kind'
          | None \<Rightarrow> if facelets = None then Some operation_failure_kind.InvalidFacelet else None);
         s = on_scan (\<lambda>sc. sc\<lparr> scan_current_face := None,
            scan_state := (if failure \<noteq> None then Invalid else Valid) \<rparr>) s;
         s = (if failure = Some operation_failure_kind.InvalidFacelet then
            on_scan (\<lambda>sc. sc\<lparr> scan_validation_error := Some scan_validation_error.InvalidFacelet \<rparr>) s
            else s);
         s = set_pose canonical_grip_pose s;
         s = s\<lparr> svc_scanner := finish_scan B (svc_scanner s) (st_scan (svc_status s)) \<rparr>;
         s = emit_stand s
     in case failure of
          Some kind' \<Rightarrow>
            let s = set_controller controller_state.Ready None s;
                s = emit_robot_state s
            in Some (emit (event_message.OperationFailed (as_operation_id scan) kind') s)
        | None \<Rightarrow>
            if as_kind scan = operation_kind.ScanSolveExecute then do {
              revision \<leftarrow> scan_revision (st_scan (svc_status s));
              let s = on_operation (\<lambda>operation. operation\<lparr>
                    op_current_action := op_action_count operation,
                    op_action_count := saturating_add16 (op_action_count operation) 1 \<rparr>) s in do {
              facelets \<leftarrow> facelets;
              let s = begin_solver (as_operation_id scan) revision (as_kind scan) facelets s in
              Some (emit_robot_state s) } }
            else
              let s = set_controller controller_state.Ready None s;
                  s = emit_robot_state s
              in Some (emit (event_message.OperationCompleted (as_operation_id scan) (as_kind scan)) s) }"

text \<open>A captured face that fits the cube, the outcome of a capture, and the whole \<open>Capture\<close> step.\<close>

definition accept_face :: "u32 \<Rightarrow> cube_face \<Rightarrow> recognized_face \<Rightarrow> ('d, 's) service \<Rightarrow>
    ('d, 's) service option" where
  "accept_face operation_id f recognized s = do {
     counts \<leftarrow> add_color_counts (scan_color_counts (st_scan (svc_status s))) (rf_colors recognized);
     let s = on_scan (\<lambda>sc. sc\<lparr> scan_camera_face := Some recognized,
           scan_faces := (scan_faces sc)[cube_face_index f := Some recognized],
           scan_scanned_faces := scan_scanned_faces sc OR push_bit (cube_face_index f) 1,
           scan_color_counts := counts \<rparr>) s
     in Some (emit (event_message.FaceScanned operation_id f recognized
          (scan_scanned_faces (st_scan (svc_status s)))) s) }"

definition capture_result :: "('d, 's) backend \<Rightarrow> cube_face \<Rightarrow> active_scan \<Rightarrow> ('d, 's) service \<Rightarrow>
    (active_scan \<times> ('d, 's) service) option" where
  "capture_result B f scan s =
     (case capture_face B (svc_scanner s) f of
        (Inr recognized, scanner) \<Rightarrow>
          let s = s\<lparr> svc_scanner := scanner \<rparr> in
          (case record_recognized_face (as_cube scan) f recognized of
             (Inl _, cube) \<Rightarrow> Some (scan\<lparr> as_cube := cube,
                 as_failure := Some operation_failure_kind.Recognition \<rparr>,
               on_scan (\<lambda>sc. sc\<lparr> scan_validation_error := Some scan_validation_error.InvalidFacelet \<rparr>) s)
           | (Inr _, cube) \<Rightarrow> do {
               s \<leftarrow> accept_face (as_operation_id scan) f recognized s;
               Some (scan\<lparr> as_cube := cube \<rparr>, s) })
      | (Inl e, scanner) \<Rightarrow>
          let s = s\<lparr> svc_scanner := scanner \<rparr> in
          Some (scan\<lparr> as_failure := Some operation_failure_kind.Recognition \<rparr>,
            on_scan (\<lambda>sc. sc\<lparr> scan_validation_error := Some
              (if e = WrongDetectionCountError then scan_validation_error.WrongDetectionCount
               else scan_validation_error.InferenceFailure) \<rparr>) s))"

definition capture_step :: "('d, 's) backend \<Rightarrow> cube_face \<Rightarrow> active_scan \<Rightarrow> ('d, 's) service \<Rightarrow>
    (active_scan \<times> ('d, 's) service) option" where
  "capture_step B f scan s =
     (let s = set_pose \<lparr> pose_kind = ScanPose, pose_camera_face = Some f \<rparr> s;
          s = on_scan (\<lambda>sc. sc\<lparr> scan_current_face := Some f \<rparr>) s in do {
      (scan, s) \<leftarrow> (if as_failure scan = None then capture_result B f scan s else Some (scan, s));
      Some (scan, emit_stand (advance_action_counter s)) })"

definition scan_step :: "('d, 's) backend \<Rightarrow> nat \<Rightarrow> motion_step \<Rightarrow> active_scan \<Rightarrow> ('d, 's) service \<Rightarrow>
    ('d, 's) service option" where
  "scan_step B now step scan s =
     (case step of
        motion_step.SetRails target position \<Rightarrow>
          settle B (as_operation_id scan)
            (and_then (command_motion_rails B target position (set_pose transitional_pose s)) (\<lambda>s.
               Done (s\<lparr> svc_scan := Some (scan\<lparr> as_pending := Some (Rails target position),
                 as_deadline := Some (now + rail_duration (svc_calibration s) position) \<rparr>) \<rparr>)))
      | motion_step.SetGrippers poses \<Rightarrow>
          let s = set_pose transitional_pose s;
              duration = gripper_motion_duration s poses
          in settle B (as_operation_id scan)
            (and_then (command_scan_grippers B poses s) (\<lambda>s.
               Done (s\<lparr> svc_scan := Some (scan\<lparr> as_pending := Some (Grippers poses),
                 as_deadline := Some (now + duration) \<rparr>) \<rparr>)))
      | Capture f \<Rightarrow> do {
          (scan, s) \<leftarrow> capture_step B f scan s;
          Some (s\<lparr> svc_scan := Some scan \<rparr>) }
      | motion_step.MoveCompleted \<Rightarrow> settle B (as_operation_id scan) (Failed NonScanAction s)
      | motion_step.AllOff \<Rightarrow> settle B (as_operation_id scan) (Failed NonScanAction s))"

definition advance_scan :: "('d, 's) backend \<Rightarrow> nat \<Rightarrow> ('d, 's) service \<Rightarrow> ('d, 's) service option" where
  "advance_scan B now s =
     (case svc_scan s of
        None \<Rightarrow> Some s
      | Some scan \<Rightarrow>
          if waiting (as_deadline scan) now then Some s
          else let s = s\<lparr> svc_scan := None \<rparr> in
            case as_pending scan of
              Some pending \<Rightarrow>
                settle B (as_operation_id scan) (and_then (finish_pending B pending s) (\<lambda>s.
                  let s = advance_action_counter s;
                      s = emit_stand s
                  in Done (s\<lparr> svc_scan := Some (scan\<lparr> as_pending := None, as_deadline := None \<rparr>) \<rparr>)))
            | None \<Rightarrow> (case as_steps scan of
                [] \<Rightarrow> finish_scan_operation B scan s
              | step # steps \<Rightarrow> scan_step B now step (scan\<lparr> as_steps := steps \<rparr>) s))"

section \<open>Solving\<close>

definition finish_solve_failure :: "u32 \<Rightarrow> ('d, 's) service \<Rightarrow> ('d, 's) service" where
  "finish_solve_failure operation_id s =
     (let s = on_solution (\<lambda>_. empty_solution) s;
          s = set_controller controller_state.Ready None s;
          s = emit_robot_state s
      in emit (event_message.OperationFailed operation_id SolverNoSolution) s)"

definition solved :: "u32 \<Rightarrow> u32 \<Rightarrow> cube_move list \<Rightarrow> solution_status" where
  "solved solution_id revision moves =
     empty_solution\<lparr> sol_state := solution_state_kind.Ready, sol_id := Some solution_id,
       sol_source_scan_revision := Some revision, sol_move_count := of_nat (length moves),
       sol_moves := map protocol_move moves @ drop (length moves) (sol_moves empty_solution) \<rparr>"

definition finish_solve :: "active_solve \<Rightarrow> cube_move list \<Rightarrow> ('d, 's) service \<Rightarrow> ('d, 's) service option" where
  "finish_solve active moves s =
     (if length moves > MAX_SOLUTION_MOVES then Some (finish_solve_failure (av_operation_id active) s)
      else do {
        execute_plan \<leftarrow> (if av_kind active = operation_kind.ScanSolveExecute then
            map_option Some (execute_steps moves) else Some None);
        let solution_id = next_solution_id s;
            s = s\<lparr> next_solution_id := next_id (next_solution_id s) \<rparr>;
            s = on_solution (\<lambda>_. solved solution_id (av_scan_revision active) moves) s
        in case execute_plan of
          Some steps \<Rightarrow>
            let s = on_solution (\<lambda>sol. sol\<lparr> sol_state := solution_state_kind.Executing,
                      sol_completed_moves := 0 \<rparr>) s;
                s = on_operation (\<lambda>operation.
                      let current = saturating_add16 (op_current_action operation) 1
                      in operation\<lparr> op_current_action := current,
                           op_action_count := saturating_add16 current (of_nat (length steps)) \<rparr>) s;
                s = s\<lparr> svc_execute := Some \<lparr> ae_operation_id = av_operation_id active,
                      ae_kind = av_kind active, ae_steps = steps, ae_pending = None,
                      ae_deadline = None \<rparr> \<rparr>
            in Some (emit_robot_state s)
        | None \<Rightarrow>
            let s = set_controller controller_state.Ready None s;
                s = emit_robot_state s
            in Some (emit (event_message.OperationCompleted (av_operation_id active) (av_kind active)) s) })"

definition advance_solve :: "('d, 's) backend \<Rightarrow> try_recv \<Rightarrow> ('d, 's) service \<Rightarrow> ('d, 's) service option" where
  "advance_solve B poll s =
     (case svc_solve s of
        None \<Rightarrow> Some s
      | Some active \<Rightarrow> (case poll of
          Empty \<Rightarrow> Some s
        | Disconnected \<Rightarrow>
            Some (finish_solve_failure (av_operation_id active) (s\<lparr> svc_solve := None \<rparr>))
        | Delivered \<Rightarrow>
            let s = s\<lparr> svc_solve := None \<rparr> in
            (case solver_worker B (av_facelets active) of
               Inr moves \<Rightarrow> finish_solve active moves s
             | Inl _ \<Rightarrow> Some (finish_solve_failure (av_operation_id active) s))))"

section \<open>Executing\<close>

definition finish_execute_operation :: "u32 \<Rightarrow> operation_kind \<Rightarrow> ('d, 's) service \<Rightarrow> ('d, 's) service" where
  "finish_execute_operation operation_id knd s =
     (let s = set_controller controller_state.Ready None s in
      if knd = operation_kind.ExecuteMoves then
        let s = set_pose canonical_grip_pose s;
            s = emit_robot_state s;
            s = emit_stand s
        in emit (event_message.OperationCompleted operation_id knd) s
      else
        let s = set_pose open_pose s;
            s = set_outputs_enabled False s;
            s = on_status (\<lambda>st. st\<lparr> st_cube_session := None \<rparr>) s;
            s = clear_scan_and_solution s;
            s = emit_robot_state s;
            s = emit_stand s;
            s = emit (event_message.CubeSessionChanged None) s
        in emit (event_message.OperationCompleted operation_id knd) s)"

definition move_pose :: "operation_kind \<Rightarrow> stand_pose" where
  "move_pose knd = (if knd = operation_kind.Open then transitional_pose
     else \<lparr> pose_kind = MovePose, pose_camera_face = Some cube_face.Front \<rparr>)"

definition execute_step :: "('d, 's) backend \<Rightarrow> nat \<Rightarrow> motion_step \<Rightarrow> active_execute \<Rightarrow>
    ('d, 's) service \<Rightarrow> ('d, 's) service outcome" where
  "execute_step B now step execute s =
     (case step of
        motion_step.SetRails target position \<Rightarrow>
          and_then (command_motion_rails B target position (set_pose (move_pose (ae_kind execute)) s)) (\<lambda>s.
            Done (s\<lparr> svc_execute := Some (execute\<lparr> ae_pending := Some (Rails target position),
              ae_deadline := Some (now + rail_duration (svc_calibration s) position) \<rparr>) \<rparr>))
      | motion_step.SetGrippers poses \<Rightarrow>
          let s = set_pose (move_pose (ae_kind execute)) s;
              duration = gripper_motion_duration s poses
          in and_then (command_scan_grippers B poses s) (\<lambda>s.
            Done (s\<lparr> svc_execute := Some (execute\<lparr> ae_pending := Some (Grippers poses),
              ae_deadline := Some (now + duration) \<rparr>) \<rparr>))
      | motion_step.MoveCompleted \<Rightarrow>
          let s = (if ae_kind execute = operation_kind.ExecuteMoves then clear_scan_and_solution s
                   else on_solution (\<lambda>sol. sol\<lparr> sol_completed_moves :=
                     saturating_inc8 (sol_completed_moves sol) \<rparr>) s);
              s = set_pose \<lparr> pose_kind = MovePose, pose_camera_face = None \<rparr> s;
              s = emit_stand (advance_action_counter s)
          in Done (s\<lparr> svc_execute := Some execute \<rparr>)
      | motion_step.AllOff \<Rightarrow>
          and_then (use_output (all_off B) s) (\<lambda>s.
            let s = set_outputs_enabled False s;
                s = advance_action_counter s
            in Done (s\<lparr> svc_execute := Some execute \<rparr>))
      | Capture f \<Rightarrow> Failed CaptureInExecutePlan s)"

definition advance_execute :: "('d, 's) backend \<Rightarrow> nat \<Rightarrow> ('d, 's) service \<Rightarrow> ('d, 's) service option" where
  "advance_execute B now s =
     (case svc_execute s of
        None \<Rightarrow> Some s
      | Some execute \<Rightarrow>
          if waiting (ae_deadline execute) now then Some s
          else let s = s\<lparr> svc_execute := None \<rparr> in
            case ae_pending execute of
              Some pending \<Rightarrow>
                settle B (ae_operation_id execute) (and_then (finish_pending B pending s) (\<lambda>s.
                  let s = advance_action_counter s;
                      s = emit_stand s
                  in Done (s\<lparr> svc_execute := Some (execute\<lparr> ae_pending := None, ae_deadline := None \<rparr>) \<rparr>)))
            | None \<Rightarrow> (case ae_steps execute of
                [] \<Rightarrow> Some (finish_execute_operation (ae_operation_id execute) (ae_kind execute) s)
              | step # steps \<Rightarrow> settle B (ae_operation_id execute)
                  (execute_step B now step (execute\<lparr> ae_steps := steps \<rparr>) s)))"

section \<open>The tick\<close>

definition tick_motion :: "('d, 's) backend \<Rightarrow> nat \<Rightarrow> ('d, 's) service \<Rightarrow> ('d, 's) service option" where
  "tick_motion B now s =
     (case svc_motion s of
        None \<Rightarrow> Some s
      | Some active \<Rightarrow>
          if (case am_deadline active of Some deadline \<Rightarrow> now \<ge> deadline | None \<Rightarrow> True)
          then advance_motion B now s else Some s)"

definition tick :: "('d, 's) backend \<Rightarrow> nat \<Rightarrow> try_recv \<Rightarrow> ('d, 's) service \<Rightarrow>
    (service_message list \<times> ('d, 's) service) option" where
  "tick B now poll s = do {
     s \<leftarrow> tick_motion B now s;
     s \<leftarrow> advance_scan B now s;
     s \<leftarrow> advance_solve B poll s;
     s \<leftarrow> advance_execute B now s;
     Some (drain_events s) }"

end
