(* ===== verification/RobotRequests.thy ===== *)
theory RobotRequests
  imports RobotPlans
begin

text \<open>
  Admission of requests (\<open>src/robot_service.rs\<close>): \<open>handle_packet\<close> with its cache of responses,
  \<open>handle_local_command\<close>, and the guards of every \<open>start_*\<close> method. \<open>None\<close> is a reached panic.
\<close>

definition accepted :: "u32 \<Rightarrow> u32 option \<Rightarrow> response_message" where
  "accepted request_id operation_id = \<lparr> rsp_request_id = request_id,
     rsp_opcode = CommandAccepted, rsp_payload = response_payload.Accepted operation_id \<rparr>"

definition rejected :: "('d, 's) service \<Rightarrow> u32 \<Rightarrow> rejection_reason \<Rightarrow> response_message" where
  "rejected s request_id reason = \<lparr> rsp_request_id = request_id, rsp_opcode = CommandRejected,
     rsp_payload = response_payload.Rejected reason (st_controller (svc_status s)) \<rparr>"

definition checked_u16 :: "nat \<Rightarrow> u16 option" where
  "checked_u16 n = (if n < 65536 then Some (of_nat n) else None)"

definition cache_response :: "u16 \<Rightarrow> response_message \<Rightarrow> ('d, 's) service \<Rightarrow> ('d, 's) service" where
  "cache_response request_opcode response s =
     (if rsp_request_id response = 0 then s
      else let kept = (if length (request_cache s) = REQUEST_CACHE_CAPACITY
                       then tl (request_cache s) else request_cache s)
        in s\<lparr> request_cache := kept @ [\<lparr> cached_opcode = request_opcode, cached_message = response \<rparr>] \<rparr>)"

text \<open>\<open>let operation_id = \<dots>; next_operation_id = \<dots>; controller = Busy; active_operation = Some(\<dots>)\<close>\<close>

definition begin_operation :: "operation_kind \<Rightarrow> u16 \<Rightarrow> ('d, 's) service \<Rightarrow> u32 \<times> ('d, 's) service" where
  "begin_operation knd action_count s =
     (let operation_id = next_operation_id s;
          s = s\<lparr> next_operation_id := next_id (next_operation_id s) \<rparr>;
          operation = \<lparr> op_id = operation_id, op_kind = knd, op_current_action = 0,
                        op_action_count = action_count \<rparr>
      in (operation_id, set_controller controller_state.Busy (Some operation) s))"

section \<open>Recover and grip\<close>

definition start_operation :: "operation_kind \<Rightarrow> ('d, 's) service \<Rightarrow>
    (rejection_reason + u32) \<times> ('d, 's) service" where
  "start_operation knd s =
     (if operation_active s then (Inl OperationAlreadyActive, s)
      else
        let phase = (case knd of
              operation_kind.RecoverToOpen \<Rightarrow> Inr RecoverStart
            | operation_kind.Grip \<Rightarrow>
                if st_controller (svc_status s) \<noteq> controller_state.Ready then Inl InvalidControllerState
                else if pose_kind (stand_pose (st_stand (svc_status s))) \<noteq> stand_pose_kind.Open then
                  Inl (if pose_kind (stand_pose (st_stand (svc_status s))) = stand_pose_kind.Unknown
                       then StandPositionUnknown else StandPoseMismatch)
                else if st_cube_session (svc_status s) \<noteq> None then Inl SessionUnavailable
                else Inr GripStart
            | _ \<Rightarrow> Inl UnsupportedCommand)
        in case phase of
          Inl reason \<Rightarrow> (Inl reason, s)
        | Inr phase \<Rightarrow>
            let (operation_id, s) = begin_operation knd
                  (case knd of operation_kind.RecoverToOpen \<Rightarrow> 3 | operation_kind.Grip \<Rightarrow> 2 | _ \<Rightarrow> 0) s;
                s = on_status (\<lambda>st. st\<lparr> st_fault := None \<rparr>) s;
                s = s\<lparr> svc_motion := Some \<lparr> am_operation_id = operation_id, am_kind = knd,
                      am_phase = phase, am_deadline = None \<rparr> \<rparr>
            in (Inr operation_id, emit_robot_state s))"

definition start_empty_payload_operation :: "received_packet \<Rightarrow> operation_kind \<Rightarrow> ('d, 's) service \<Rightarrow>
    response_message \<times> ('d, 's) service" where
  "start_empty_payload_operation packet knd s =
     (if payload packet \<noteq> [] then (rejected s (rp_request_id packet) InvalidPayload, s)
      else case start_operation knd s of
        (Inr operation_id, s) \<Rightarrow> (accepted (rp_request_id packet) (Some operation_id), s)
      | (Inl reason, s) \<Rightarrow> (rejected s (rp_request_id packet) reason, s))"

section \<open>Scan\<close>

definition start_scan_operation :: "('d, 's) backend \<Rightarrow> u32 \<Rightarrow> u32 \<Rightarrow> operation_kind \<Rightarrow> ('d, 's) service \<Rightarrow>
    (response_message \<times> ('d, 's) service) option" where
  "start_scan_operation B request_id session_id knd s =
     (let reject = (\<lambda>reason. Some (rejected s request_id reason, s)) in
      if \<not> available B (svc_scanner s) then reject UnsupportedCommand
      else if operation_active s then reject OperationAlreadyActive
      else if st_controller (svc_status s) \<noteq> controller_state.Ready then reject InvalidControllerState
      else case st_cube_session (svc_status s) of
        None \<Rightarrow> reject SessionUnavailable
      | Some session \<Rightarrow>
        if cs_id session \<noteq> session_id then reject SessionMismatch
        else if pose_kind (stand_pose (st_stand (svc_status s))) \<noteq> CanonicalGrip then reject StandPoseMismatch
        else
          let revision = next_scan_revision s in
          case begin_scan B (svc_scanner s) revision of
            (False, scanner) \<Rightarrow>
              let s = s\<lparr> svc_scanner := scanner \<rparr> in
              Some (rejected s request_id InvalidControllerState, s)
          | (True, scanner) \<Rightarrow> do {
              let s = s\<lparr> svc_scanner := scanner \<rparr>;
                  s = s\<lparr> next_scan_revision := next_id (next_scan_revision s) \<rparr>;
                  steps = scan_steps in do {
              action_count \<leftarrow> checked_u16 (length steps);
              let (operation_id, s) = begin_operation knd action_count s;
                  s = on_scan (\<lambda>_. empty_scan\<lparr> scan_state := InProgress, scan_revision := Some revision \<rparr>) s;
                  s = on_solution (\<lambda>_. empty_solution) s;
                  s = s\<lparr> svc_scan := Some \<lparr> as_operation_id = operation_id, as_kind = knd,
                        as_steps = steps, as_pending = None, as_deadline = None,
                        as_cube = default_cube, as_failure = None \<rparr> \<rparr>;
                  s = emit_robot_state s
              in Some (accepted request_id (Some operation_id), s) } })"

definition start_scan_request :: "('d, 's) backend \<Rightarrow> received_packet \<Rightarrow> operation_kind \<Rightarrow>
    ('d, 's) service \<Rightarrow> (response_message \<times> ('d, 's) service) option" where
  "start_scan_request B packet knd s =
     (case decode_payload (take_session B) (payload packet) of
        Inl _ \<Rightarrow> Some (rejected s (rp_request_id packet) InvalidPayload, s)
      | Inr session_id \<Rightarrow> start_scan_operation B (rp_request_id packet) session_id knd s)"

section \<open>Solve\<close>

definition start_solve_request :: "('d, 's) backend \<Rightarrow> received_packet \<Rightarrow> ('d, 's) service \<Rightarrow>
    (response_message \<times> ('d, 's) service) option" where
  "start_solve_request B packet s =
     (let request_id = rp_request_id packet;
          reject = (\<lambda>reason. Some (rejected s request_id reason, s));
          status = svc_status s in
      case decode_payload (take_solve B) (payload packet) of
        Inl _ \<Rightarrow> reject InvalidPayload
      | Inr command \<Rightarrow>
        if operation_active s then reject OperationAlreadyActive
        else if st_controller status \<noteq> controller_state.Ready then reject InvalidControllerState
        else case st_cube_session status of
          None \<Rightarrow> reject SessionUnavailable
        | Some session \<Rightarrow>
          if cs_id session \<noteq> solve_session_id command then reject SessionMismatch
          else if scan_state (st_scan status) \<noteq> Valid then reject ScanUnavailable
          else if scan_revision (st_scan status) \<noteq> Some (solve_scan_revision command) then
            reject ScanRevisionMismatch
          else if pose_kind (stand_pose (st_stand status)) \<noteq> CanonicalGrip then reject StandPoseMismatch
          else do {
            cube \<leftarrow> cube_from_scan (st_scan status);
            facelets \<leftarrow> (case cube of Inl _ \<Rightarrow> Some None
              | Inr cube \<Rightarrow> map_option (\<lambda>r. case r of Inl _ \<Rightarrow> None | Inr f \<Rightarrow> Some f) (facelet_string cube));
            case facelets of
              None \<Rightarrow> reject ScanUnavailable
            | Some facelets \<Rightarrow>
                let (operation_id, s) = begin_operation operation_kind.Solve 1 s;
                    s = begin_solver operation_id (solve_scan_revision command) operation_kind.Solve facelets s;
                    s = emit_robot_state s
                in Some (accepted request_id (Some operation_id), s) })"

section \<open>Execute\<close>

text \<open>The moves of a solution or command (a slice, so an index panic beyond the array).\<close>

definition move_slice :: "link_cube_move list \<Rightarrow> u8 \<Rightarrow> cube_move list option" where
  "move_slice moves move_count =
     (if unat move_count \<le> length moves then Some (map internal_move (take (unat move_count) moves))
      else None)"

definition begin_execute :: "u32 \<Rightarrow> operation_kind \<Rightarrow> motion_step list \<Rightarrow> ('d, 's) service \<Rightarrow> ('d, 's) service" where
  "begin_execute operation_id knd steps s = s\<lparr> svc_execute := Some \<lparr> ae_operation_id = operation_id,
     ae_kind = knd, ae_steps = steps, ae_pending = None, ae_deadline = None \<rparr> \<rparr>"

definition start_execute_request :: "('d, 's) backend \<Rightarrow> received_packet \<Rightarrow> ('d, 's) service \<Rightarrow>
    (response_message \<times> ('d, 's) service) option" where
  "start_execute_request B packet s =
     (let request_id = rp_request_id packet;
          reject = (\<lambda>reason. Some (rejected s request_id reason, s));
          status = svc_status s;
          solution = st_solution status in
      case decode_payload (take_execute B) (payload packet) of
        Inl _ \<Rightarrow> reject InvalidPayload
      | Inr command \<Rightarrow>
        if operation_active s then reject OperationAlreadyActive
        else if st_controller status \<noteq> controller_state.Ready then reject InvalidControllerState
        else case st_cube_session status of
          None \<Rightarrow> reject SessionUnavailable
        | Some session \<Rightarrow>
          if cs_id session \<noteq> exec_session_id command then reject SessionMismatch
          else if scan_state (st_scan status) \<noteq> Valid then reject ScanUnavailable
          else if scan_revision (st_scan status) \<noteq> Some (exec_scan_revision command) then
            reject ScanRevisionMismatch
          else if sol_state solution \<noteq> solution_state_kind.Ready then reject SolutionUnavailable
          else if sol_id solution \<noteq> Some (exec_solution_id command) \<or>
              sol_source_scan_revision solution \<noteq> Some (exec_scan_revision command) then
            reject SolutionMismatch
          else if pose_kind (stand_pose (st_stand status)) \<noteq> CanonicalGrip then reject StandPoseMismatch
          else do {
            moves \<leftarrow> move_slice (sol_moves solution) (sol_move_count solution);
            steps \<leftarrow> execute_steps moves;
            action_count \<leftarrow> checked_u16 (length steps);
            let (operation_id, s) = begin_operation operation_kind.Execute action_count s;
                s = on_solution (\<lambda>sol. sol\<lparr> sol_state := solution_state_kind.Executing,
                      sol_completed_moves := 0 \<rparr>) s;
                s = begin_execute operation_id operation_kind.Execute steps s;
                s = emit_robot_state s
            in Some (accepted request_id (Some operation_id), s) })"

definition start_execute_moves_request :: "('d, 's) backend \<Rightarrow> received_packet \<Rightarrow> ('d, 's) service \<Rightarrow>
    (response_message \<times> ('d, 's) service) option" where
  "start_execute_moves_request B packet s =
     (let request_id = rp_request_id packet;
          reject = (\<lambda>reason. Some (rejected s request_id reason, s));
          status = svc_status s in
      case decode_payload (take_execute_moves B) (payload packet) of
        Inl _ \<Rightarrow> reject InvalidPayload
      | Inr command \<Rightarrow>
        if execute_moves_validate command \<noteq> Inr () \<or> em_move_count command = 0 then reject InvalidPayload
        else if operation_active s then reject OperationAlreadyActive
        else if st_controller status \<noteq> controller_state.Ready then reject InvalidControllerState
        else case st_cube_session status of
          None \<Rightarrow> reject SessionUnavailable
        | Some session \<Rightarrow>
          if cs_id session \<noteq> em_session_id command then reject SessionMismatch
          else if pose_kind (stand_pose (st_stand status)) \<noteq> CanonicalGrip then reject StandPoseMismatch
          else do {
            moves \<leftarrow> move_slice (em_moves command) (em_move_count command);
            steps \<leftarrow> held_execute_steps moves;
            action_count \<leftarrow> checked_u16 (length steps);
            let (operation_id, s) = begin_operation operation_kind.ExecuteMoves action_count s;
                s = begin_execute operation_id operation_kind.ExecuteMoves steps s;
                s = emit_robot_state s
            in Some (accepted request_id (Some operation_id), s) })"

definition start_open_request :: "('d, 's) backend \<Rightarrow> received_packet \<Rightarrow> ('d, 's) service \<Rightarrow>
    response_message \<times> ('d, 's) service" where
  "start_open_request B packet s =
     (let request_id = rp_request_id packet;
          reject = (\<lambda>reason. (rejected s request_id reason, s));
          status = svc_status s in
      case decode_payload (take_session B) (payload packet) of
        Inl _ \<Rightarrow> reject InvalidPayload
      | Inr session_id \<Rightarrow>
        if operation_active s then reject OperationAlreadyActive
        else if st_controller status \<noteq> controller_state.Ready then reject InvalidControllerState
        else case st_cube_session status of
          None \<Rightarrow> reject SessionUnavailable
        | Some session \<Rightarrow>
          if cs_id session \<noteq> session_id then reject SessionMismatch
          else if pose_kind (stand_pose (st_stand status)) \<noteq> CanonicalGrip then reject StandPoseMismatch
          else
            let steps = open_steps;
                (operation_id, s) = begin_operation operation_kind.Open (of_nat (length steps)) s;
                s = begin_execute operation_id operation_kind.Open steps s;
                s = emit_robot_state s
            in (accepted request_id (Some operation_id), s))"

section \<open>Dispatch\<close>

definition dispatch_new_request :: "('d, 's) backend \<Rightarrow> received_packet \<Rightarrow> ('d, 's) service \<Rightarrow>
    (response_message \<times> ('d, 's) service) option" where
  "dispatch_new_request B packet s =
     (let request_id = rp_request_id packet in
      if rp_kind packet \<noteq> message_kind.Request \<or> request_id = 0 then
        Some (rejected s request_id InvalidPayload, s)
      else case request_try_from (rp_opcode packet) of
        Inl _ \<Rightarrow> Some (rejected s request_id UnsupportedCommand, s)
      | Inr opcode \<Rightarrow> (case opcode of
          request_opcode.GetStatus \<Rightarrow>
            if payload packet \<noteq> [] then Some (rejected s request_id InvalidPayload, s)
            else Some (\<lparr> rsp_request_id = request_id, rsp_opcode = StatusSnapshot,
                         rsp_payload = response_payload.Status (svc_status s) \<rparr>, s)
        | request_opcode.RecoverToOpen \<Rightarrow>
            Some (start_empty_payload_operation packet operation_kind.RecoverToOpen s)
        | request_opcode.Grip \<Rightarrow> Some (start_empty_payload_operation packet operation_kind.Grip s)
        | request_opcode.StartScan \<Rightarrow> start_scan_request B packet operation_kind.Scan s
        | request_opcode.Solve \<Rightarrow> start_solve_request B packet s
        | request_opcode.Execute \<Rightarrow> start_execute_request B packet s
        | request_opcode.ExecuteMoves \<Rightarrow> start_execute_moves_request B packet s
        | request_opcode.ScanSolveExecute \<Rightarrow> start_scan_request B packet operation_kind.ScanSolveExecute s
        | request_opcode.Open \<Rightarrow> Some (start_open_request B packet s)
        | request_opcode.Abort \<Rightarrow>
            if payload packet \<noteq> [] then Some (rejected s request_id InvalidPayload, s)
            else let operation_id = map_option op_id (st_active_operation (svc_status s));
                     s = abort B operation_id s
                 in Some (accepted request_id None, s)))"

definition handle_packet :: "('d, 's) backend \<Rightarrow> received_packet \<Rightarrow> ('d, 's) service \<Rightarrow>
    (service_message list \<times> ('d, 's) service) option" where
  "handle_packet B packet s = do {
     (response, s) \<leftarrow>
       (case find (\<lambda>entry. rsp_request_id (cached_message entry) = rp_request_id packet) (request_cache s) of
          Some cached \<Rightarrow>
            Some (if cached_opcode cached = rp_opcode packet then cached_message cached
                  else rejected s (rp_request_id packet) InvalidPayload, s)
        | None \<Rightarrow> do {
            (response, s) \<leftarrow> dispatch_new_request B packet s;
            Some (response, cache_response (rp_opcode packet) response s) });
     let (events, s) = drain_events s in
     Some (Response response # events, s) }"

definition handle_local_command :: "('d, 's) backend \<Rightarrow> local_command \<Rightarrow> ('d, 's) service \<Rightarrow>
    ((local_command_outcome \<times> service_message list) \<times> ('d, 's) service) option" where
  "handle_local_command B command s = do {
     (result, s) \<leftarrow> (case command of
         local_command.RecoverToOpen \<Rightarrow> (case start_operation operation_kind.RecoverToOpen s of
             (Inr operation_id, s) \<Rightarrow> Some (local_command_outcome.Accepted (Some operation_id), s)
           | (Inl reason, s) \<Rightarrow> Some (local_command_outcome.Rejected reason, s))
       | local_command.Grip \<Rightarrow> (case start_operation operation_kind.Grip s of
             (Inr operation_id, s) \<Rightarrow> Some (local_command_outcome.Accepted (Some operation_id), s)
           | (Inl reason, s) \<Rightarrow> Some (local_command_outcome.Rejected reason, s))
       | local_command.ScanSolveExecute session_id \<Rightarrow> do {
           (response, s) \<leftarrow> start_scan_operation B 0 session_id operation_kind.ScanSolveExecute s;
           (case rsp_payload response of
              response_payload.Accepted operation_id \<Rightarrow> Some (local_command_outcome.Accepted operation_id, s)
            | response_payload.Rejected reason _ \<Rightarrow> Some (local_command_outcome.Rejected reason, s)
            | response_payload.Status _ \<Rightarrow> None) }
       | local_command.Abort \<Rightarrow>
           let s = abort B (map_option op_id (st_active_operation (svc_status s))) s
           in Some (local_command_outcome.Accepted None, s));
     let (messages, s) = drain_events s in
     Some ((result, messages), s) }"

end
