(* ===== verification/ServiceEffects.thy ===== *)
theory ServiceEffects
  imports RobotRequests
begin

unbundle bit_operations_syntax

text \<open>
  What the actuator commands of \<open>RobotService\<close> change: they touch the PWM output and the recorded
  axes, never the pose, the rest of the status, the active operations, the counters or the cache.
\<close>

section \<open>What actuator commands change\<close>

lemmas svc_defs = on_status_def on_stand_def on_scan_def on_solution_def on_operation_def set_pose_def
  set_outputs_enabled_def set_controller_def on_rail_def on_gripper_def emit_def emit_stand_def
  emit_robot_state_def clear_active_def clear_scan_and_solution_def

fun outcome_all :: "('s \<Rightarrow> bool) \<Rightarrow> ('s \<Rightarrow> bool) \<Rightarrow> 's outcome \<Rightarrow> bool" where
  "outcome_all p q (Done s) = p s"
| "outcome_all p q (Failed e s) = q s"
| "outcome_all p q Panicked = False"

lemma outcome_all_and_then:
  assumes "outcome_all p q r" and "\<And>s. p s \<Longrightarrow> outcome_all p' q (f s)"
  shows "outcome_all p' q (and_then r f)"
  using assms by (cases r) auto

lemma outcome_all_mono:
  assumes "outcome_all p q r" and "\<And>s. p s \<Longrightarrow> p' s" and "\<And>s. q s \<Longrightarrow> q' s"
  shows "outcome_all p' q' r"
  using assms by (cases r) auto

definition stand_shape :: "stand_state \<Rightarrow> nat \<times> nat \<times> stand_pose" where
  "stand_shape X = (length (stand_rails X), length (stand_grippers X), stand_pose X)"

definition touches :: "('d, 's) service \<Rightarrow> ('d, 's) service \<Rightarrow> bool" where
  "touches s s' \<longleftrightarrow> (\<exists>d X. s' = s\<lparr> svc_output := d, svc_status := (svc_status s)\<lparr> st_stand := X \<rparr> \<rparr> \<and>
     stand_shape X = stand_shape (st_stand (svc_status s)))"

lemma touches_refl [simp]: "touches s s"
  unfolding touches_def by (rule exI [of _ "svc_output s"], rule exI [of _ "st_stand (svc_status s)"]) simp

lemma touches_trans: "touches s t \<Longrightarrow> touches t u \<Longrightarrow> touches s u"
  unfolding touches_def by (elim exE conjE) (auto intro!: exI)

lemma touches_on_stand:
  "touches s t \<Longrightarrow> stand_shape (f (st_stand (svc_status t))) = stand_shape (st_stand (svc_status t)) \<Longrightarrow>
     touches s (on_stand f t)"
  unfolding touches_def by (elim exE conjE) (auto simp: svc_defs intro!: exI)

lemma touches_simps:
  "touches s t \<Longrightarrow> touches s (on_rail i f t)"
  "touches s t \<Longrightarrow> touches s (on_gripper j g t)"
  "touches s t \<Longrightarrow> touches s (set_outputs_enabled b t)"
  "touches s t \<Longrightarrow> touches s (finish_all_grippers_perpendicular t)"
  unfolding on_rail_def on_gripper_def set_outputs_enabled_def finish_all_grippers_perpendicular_def
  by (erule touches_on_stand, simp add: stand_shape_def)+

lemma touches_fold:
  "touches s t \<Longrightarrow> (\<And>x u. touches s u \<Longrightarrow> touches s (f x u)) \<Longrightarrow> touches s (fold f xs t)"
  by (induction xs arbitrary: t) auto

lemma touches_folds:
  "touches s t \<Longrightarrow> touches s (finish_rails axes position t)"
  "touches s t \<Longrightarrow> touches s (moving_rails is target t)"
  "touches s t \<Longrightarrow> touches s (finish_scan_grippers poses t)"
  unfolding finish_rails_def moving_rails_def finish_scan_grippers_def
  by (erule touches_fold, auto intro: touches_simps)+

lemma use_output_touches:
  "touches s t \<Longrightarrow> outcome_all (touches s) (touches s) (use_output f t)"
proof -
  assume *: "touches s t"
  have "touches t (t\<lparr> svc_output := d \<rparr>)" for d
    unfolding touches_def by (rule exI [of _ d], rule exI [of _ "st_stand (svc_status t)"]) simp
  with touches_trans [OF *] show ?thesis
    by (auto simp: use_output_def split: prod.split)
qed

lemma command_rail_pair_touches:
  assumes "touches s t"
  shows "outcome_all (touches s) (touches s) (command_rail_pair B ph lo position t)"
  unfolding command_rail_pair_def Let_def
  by (rule outcome_all_and_then [OF use_output_touches [OF assms]])
    (auto intro: touches_simps touches_folds)

lemma command_motion_rails_touches:
  assumes "touches s t"
  shows "outcome_all (touches s) (touches s) (command_motion_rails B target position t)"
proof (cases target)
  case (Pair pair)
  then show ?thesis
    using command_rail_pair_touches [OF assms] by (auto simp: command_motion_rails_def split: prod.split)
next
  case (Single axis)
  show ?thesis
    unfolding command_motion_rails_def Let_def Single
    by simp (rule outcome_all_and_then [OF use_output_touches [OF assms]],
      auto intro: touches_simps touches_folds)
qed

lemma command_scan_grippers_touches:
  assumes "touches s t"
  shows "outcome_all (touches s) (touches s) (command_scan_grippers B poses t)"
proof (cases "gripper_channels (svc_calibration t) poses")
  case (Inr channels)
  show ?thesis
    unfolding command_scan_grippers_def Inr Let_def sum.case
    by (rule outcome_all_and_then [OF use_output_touches [OF assms]])
      (auto intro!: touches_simps touches_fold)
qed (use assms in \<open>simp add: command_scan_grippers_def\<close>)

lemma command_all_grippers_touches:
  assumes "touches s t"
  shows "outcome_all (touches s) (touches s) (command_all_grippers_perpendicular B t)"
proof -
  have *: "touches s (set_outputs_enabled True (on_stand (\<lambda>st. st\<lparr> stand_grippers := map f (stand_grippers st) \<rparr>) u))"
    if "touches s u" for f u
    by (rule touches_simps(3), rule touches_on_stand [OF that]) (simp add: stand_shape_def)
  show ?thesis
  proof (cases "gripper_channels (svc_calibration t)
      (map (\<lambda>axis. (axis, Perp)) [LeftGripper, RightGripper, TopGripper, BottomGripper])")
    case (Inr channels)
    show ?thesis
      unfolding command_all_grippers_perpendicular_def Inr Let_def sum.case
      by (rule outcome_all_and_then [OF use_output_touches [OF assms]]) (simp add: *)
  qed (use assms in \<open>simp add: command_all_grippers_perpendicular_def\<close>)
qed

lemma finish_pending_touches:
  assumes "touches s t"
  shows "outcome_all (touches s) (touches s) (finish_pending B pending t)"
proof (cases pending)
  case (Rails target position)
  show ?thesis
  proof (cases target)
    case (Pair pair)
    obtain ph lo where p: "rail_pair_axes pair = (ph, lo)" by fastforce
    show ?thesis
      unfolding finish_pending_def Rails finish_motion_rails_def Pair
      by (simp add: p) (rule outcome_all_and_then [OF use_output_touches [OF assms]],
        auto intro: touches_folds)
  next
    case (Single axis)
    show ?thesis
      unfolding finish_pending_def Rails finish_motion_rails_def Single
      by simp (rule outcome_all_and_then [OF use_output_touches [OF assms]],
        auto intro: touches_simps)
  qed
next
  case (Grippers poses)
  then show ?thesis
    using assms by (simp add: finish_pending_def touches_folds)
qed

end
