(* ===== verification/PlannerCost.thy ===== *)
theory PlannerCost
  imports PlannerSafety
begin

text \<open>
  The cost of a plan: any weight of the steps that depends only on their kind (the estimated
  duration under a calibration, the number of steps) is no larger for an optimized plan than for
  the baseline plan of the same moves. The proof is an amortised one: the potential of a planner
  state is what restoring the canonical grip from it costs.
\<close>

definition cost :: "(move_plan_step \<Rightarrow> nat) \<Rightarrow> move_plan_step list \<Rightarrow> nat" where
  "cost w steps = sum_list (map w steps)"

lemma cost_simps [simp]:
  "cost w [] = 0"
  "cost w (x # xs) = w x + cost w xs"
  "cost w (xs @ ys) = cost w xs + cost w ys"
  by (simp_all add: cost_def)

lemma estimated_duration_cost: "estimated_duration steps c = cost (step_duration c) steps"
proof -
  have "fold (\<lambda>step total. total + step_duration c step) steps n = n + cost (step_duration c) steps" for n
    by (induction steps arbitrary: n) simp_all
  then show ?thesis by (simp add: estimated_duration_def)
qed

lemma length_cost: "length steps = cost (\<lambda>_. 1) steps"
  by (induction steps) simp_all

lemma servo_target_count_cost: "servo_target_count steps = cost step_targets steps"
  by (simp add: servo_target_count_def cost_def)

locale step_weight =
  fixes w :: "move_plan_step \<Rightarrow> nat" and open_cost close_cost pose_cost done_cost :: nat
  assumes w_open: "w (SetRails t FarOpen) = open_cost"
    and w_close: "w (SetRails t NearGrip) = close_cost"
    and w_pose: "w (SetGrippers poses) = pose_cost"
    and w_done: "w MoveCompleted = done_cost"
begin

lemmas w_simps = w_open w_close w_pose w_done

definition regrip :: nat where
  "regrip = open_cost + pose_cost + close_cost"

definition potential :: "planner_state \<Rightarrow> frame \<Rightarrow> nat" where
  "potential s fr = (if lr_dirty s then regrip else 0) + (if tb_dirty s then regrip else 0) +
     (if fr = RotatedFb then 2 * regrip else 0)"

definition turn_cost :: "move_turn \<Rightarrow> nat" where
  "turn_cost t = (if t = move_turn.Half then regrip + pose_cost else pose_cost)"

definition move_cost :: "cube_move \<Rightarrow> nat" where
  "move_cost m = turn_cost (mv_turn m) + regrip + done_cost +
     (if mv_face m = logical_face.Front \<or> mv_face m = logical_face.Back then 4 * regrip else 0)"

lemma cost_turn_steps: "cost w (turn_steps d r t) = turn_cost t"
  by (cases t) (simp_all add: w_simps turn_cost_def regrip_def)

lemma flush_group_cost:
  assumes "flush_group steps s g = Some (steps', s')"
  shows "cost w steps' + potential s' fr = cost w steps + potential s fr"
  using assms
  by (cases g; cases s)
    (auto simp: flush_group_def dirty_grippers_def flush_grippers_def potential_def lr_dirty_def
      tb_dirty_def w_simps regrip_def split: if_splits)

lemma whole_turn_cost: "cost w (whole_turn p q) = 2 * regrip"
  by (simp add: whole_turn_def w_simps regrip_def)

lemma position_fused_cost:
  assumes "position_front_back_fused steps s = Some (steps', s')"
  shows "cost w steps' + potential s' RotatedFb \<le> cost w steps + potential s Canonical + 4 * regrip"
  using assms unfolding fused_state
  by (cases s)
    (auto simp: whole_turn_def lr_reset_def dirty_grippers_def clean_group_def potential_def lr_dirty_def
      tb_dirty_def w_simps regrip_def split: if_splits)

lemma restore_fused_cost:
  assumes "restore_front_fused steps s = Some (steps', s')"
  shows "cost w steps' + potential s' Canonical \<le> cost w steps + potential s RotatedFb"
  using assms unfolding fused_state
  by (cases s)
    (auto simp: whole_turn_def lr_reset_def dirty_grippers_def clean_group_def potential_def lr_dirty_def
      tb_dirty_def w_simps regrip_def split: if_splits)

lemma lazy_direct_turn_cost:
  assumes "lazy_direct_turn steps s (gripper_of d) (rail_of d) turn = Some (steps', s')"
  shows "cost w steps' + potential s' fr \<le> cost w steps + potential s fr + turn_cost turn + regrip"
  using assms unfolding lazy_direct_turn_state
  by (cases d; cases s)
    (auto simp: cost_turn_steps potential_def lr_dirty_def tb_dirty_def w_simps regrip_def split: if_splits)

lemma reframe_cost:
  assumes "reframe steps s fr f = Some (steps', s', fr')"
  shows "cost w steps' + potential s' fr' \<le> cost w steps + potential s fr +
    (if f = logical_face.Front \<or> f = logical_face.Back then 4 * regrip else 0)"
  using assms
  by (auto simp: reframe_def bind_eq_Some_conv split: if_splits
      dest!: flush_group_cost [where fr = fr] position_fused_cost restore_fused_cost)

lemma optimized_move_cost:
  assumes "optimized_move steps s fr m = Some (steps', s', fr')"
  shows "cost w steps' + potential s' fr' \<le> cost w steps + potential s fr + move_cost m"
proof -
  let ?d = "side_for fr (mv_face m)"
  obtain steps1 s1 fr1 where 1: "reframe steps s fr (mv_face m) = Some (steps1, s1, fr1)"
    using assms by (auto simp: optimized_move_def bind_eq_Some_conv)
  then have fr1: "fr1 = frame_for fr (mv_face m)"
    by (cases fr; cases "mv_face m") (auto simp: reframe_def bind_eq_Some_conv)
  obtain steps2 s2 steps3 where 2: "flush_group steps1 s1 (other_group (gripper_group ?d)) = Some (steps2, s2)"
    and 3: "lazy_direct_turn steps2 s2 (gripper_of ?d) (rail_of ?d) (mv_turn m) = Some (steps3, s')"
    and 4: "steps' = steps3 @ [MoveCompleted]" "fr' = fr1"
    using assms 1 fr1
    by (cases "gripper_group ?d")
      (auto simp: optimized_move_def move_axes_side bind_eq_Some_conv Let_def)
  show ?thesis
    using reframe_cost [OF 1] flush_group_cost [OF 2, of fr1] lazy_direct_turn_cost [OF 3, of fr1] 4
    by (auto simp: move_cost_def w_simps)
qed

lemma optimized_loop_cost:
  assumes "optimized_loop ms steps s fr = Some (steps', s', fr')"
  shows "cost w steps' + potential s' fr' \<le> cost w steps + potential s fr + sum_list (map move_cost ms)"
  using assms
proof (induction ms arbitrary: steps s fr)
  case (Cons m ms)
  then obtain steps1 s1 fr1 where 1: "optimized_move steps s fr m = Some (steps1, s1, fr1)"
    and 2: "optimized_loop ms steps1 s1 fr1 = Some (steps', s', fr')"
    by (auto simp: bind_eq_Some_conv)
  show ?case using Cons.IH [OF 2] optimized_move_cost [OF 1] by simp
qed simp

lemma finish_held_cost:
  assumes "finish_held steps s fr = Some steps'"
  shows "cost w steps' \<le> cost w steps + potential s fr"
proof -
  obtain steps1 s1 steps2 s2 s3 where 1: "(if fr = RotatedFb then do {
         (steps, state) \<leftarrow> flush_group steps s axis_group.TopBottom;
         restore_front_fused steps state }
       else Some (steps, s)) = Some (steps1, s1)"
    and 2: "flush_group steps1 s1 axis_group.LeftRight = Some (steps2, s2)"
    and 3: "flush_group steps2 s2 axis_group.TopBottom = Some (steps', s3)"
    using assms unfolding finish_held_def by (force simp: bind_eq_Some_conv)
  have "cost w steps1 + potential s1 Canonical \<le> cost w steps + potential s fr"
    using 1 by (cases fr)
      (auto simp: bind_eq_Some_conv split: if_splits
        dest!: flush_group_cost [where fr = RotatedFb] restore_fused_cost)
  with flush_group_cost [OF 2, of Canonical] flush_group_cost [OF 3, of Canonical] show ?thesis
    by linarith
qed

lemma potential_start: "potential default_planner Canonical = 0"
  by (simp add: potential_def default_planner_def lr_dirty_def tb_dirty_def)

lemma optimized_cost:
  assumes "optimized_steps moves fin = Some steps"
  shows "cost w steps \<le> sum_list (map move_cost moves)"
proof -
  obtain steps1 s1 fr1 where 1: "optimized_loop moves [] default_planner Canonical = Some (steps1, s1, fr1)"
    and 2: "(if fin = CanonicalHeld then finish_held steps1 s1 fr1 else Some steps1) = Some steps"
    using assms by (auto simp: optimized_steps_def bind_eq_Some_conv)
  have "cost w steps \<le> cost w steps1 + potential s1 fr1"
    using 2 finish_held_cost by (auto split: if_splits)
  with optimized_loop_cost [OF 1] show ?thesis by (simp add: potential_start)
qed

text \<open>A baseline move costs its amortised cost exactly.\<close>

lemma baseline_direct_turn_cost:
  assumes "baseline_direct_turn steps (gripper_of d) (rail_of d) turn = Some steps'"
  shows "cost w steps' = cost w steps + turn_cost turn + regrip"
proof -
  have "\<not> is_dirty default_planner (gripper_of d)"
    by (cases d) (simp_all add: default_planner_def)
  then show ?thesis
    using assms unfolding baseline_direct_turn_def lazy_direct_turn_state
    by (cases d) (auto simp: flush_grippers_def cost_turn_steps w_simps regrip_def bind_eq_Some_conv)
qed

lemma baseline_move_cost:
  assumes "baseline_move steps m = Some steps'"
  shows "cost w steps' = cost w steps + move_cost m"
  using assms
  by (cases "mv_face m")
    (auto simp: baseline_move_def bind_eq_Some_conv position_front_back_def restore_front_def
      whole_turn_cost w_simps move_cost_def
      dest!: baseline_direct_turn_cost [where d = SL, simplified] baseline_direct_turn_cost [where d = SR, simplified]
        baseline_direct_turn_cost [where d = ST, simplified] baseline_direct_turn_cost [where d = SB, simplified])

lemma baseline_loop_cost:
  assumes "baseline_loop ms steps = Some steps'"
  shows "cost w steps' = cost w steps + sum_list (map move_cost ms)"
  using assms
proof (induction ms arbitrary: steps)
  case (Cons m ms)
  then obtain steps1 where 1: "baseline_move steps m = Some steps1" and 2: "baseline_loop ms steps1 = Some steps'"
    by (auto simp: bind_eq_Some_conv)
  show ?case using Cons.IH [OF 2] baseline_move_cost [OF 1] by simp
qed simp

lemma optimized_le_baseline:
  assumes "optimized_steps moves fin = Some steps" "baseline_held_steps moves = Some steps'"
  shows "cost w steps \<le> cost w steps'"
  using optimized_cost [OF assms(1)] baseline_loop_cost [of moves "[]" steps'] assms(2)
  by (simp add: baseline_held_steps_def)

end

interpretation duration: step_weight "step_duration c" "rail_duration c FarOpen"
    "rail_duration c NearGrip" "gripper_pose_duration c" 0 for c
  by unfold_locales simp_all

interpretation step_count: step_weight "\<lambda>_. 1" 1 1 1 1
  by unfold_locales simp_all

lemma optimized_steps_length:
  assumes "optimized_steps moves fin = Some steps"
  shows "length steps \<le> 20 * length moves"
proof -
  have "step_count.move_cost m \<le> 20" for m
    by (simp add: step_count.move_cost_def step_count.turn_cost_def step_count.regrip_def del: One_nat_def)
  then have "sum_list (map step_count.move_cost moves) \<le> 20 * length moves"
    by (induction moves) (simp_all add: add_mono)
  with step_count.optimized_cost [OF assms] show ?thesis by (simp add: length_cost del: One_nat_def)
qed

end
