(* ===== verification/ServiceInvariant.thy ===== *)
theory ServiceInvariant
  imports ServiceEffects ScanData PlannerCost
begin

unbundle bit_operations_syntax

text \<open>
  The invariant of \<open>RobotService\<close>: at most one operation is active, the published status says which,
  its action counter counts the steps done, the status is a valid snapshot, a scan reported valid
  can be solved, and the response cache holds distinct requests. Every operation of the service
  keeps it and, from a state where it holds, reaches no panic.
\<close>

section \<open>The status\<close>

definition scan_ok :: "scan_status \<Rightarrow> bool" where
  "scan_ok sc \<longleftrightarrow> length (scan_faces sc) = 6 \<and> length (scan_color_counts sc) = 6 \<and>
     scan_validate sc = Inr () \<and> (scan_state sc = Valid \<longrightarrow> solvable sc)"

definition solution_ok :: "solution_status \<Rightarrow> bool" where
  "solution_ok sol \<longleftrightarrow> length (sol_moves sol) = 32 \<and> solution_validate sol = Inr ()"

definition stand_ok :: "stand_state \<Rightarrow> bool" where
  "stand_ok X \<longleftrightarrow> length (stand_rails X) = 4 \<and> length (stand_grippers X) = 4"

definition status_ok :: "status_snapshot \<Rightarrow> bool" where
  "status_ok st \<longleftrightarrow> stand_ok (st_stand st) \<and> scan_ok (st_scan st) \<and> solution_ok (st_solution st) \<and>
     st_plan_count st = 0 \<and>
     (pose_kind (stand_pose (st_stand st)) = CanonicalGrip \<longrightarrow> st_cube_session st \<noteq> None) \<and>
     (st_controller st = controller_state.Aborted \<or> st_controller st = controller_state.Faulted \<longrightarrow>
        st_cube_session st = None \<and> st_stand st = unknown_stand) \<and>
     (st_controller st = controller_state.Faulted \<longrightarrow> st_fault st \<noteq> None)"

lemma scan_validate_empty [simp]: "scan_validate empty_scan = Inr ()"
  by (simp add: scan_validate_def empty_scan_def)

lemma empty_scan_ok [simp]: "scan_ok empty_scan"
  by (simp add: scan_ok_def) (simp add: empty_scan_def FACE_COUNT_def)

lemma empty_solution_ok [simp]: "solution_ok empty_solution"
  by (simp add: solution_ok_def solution_validate_def empty_solution_def MAX_SOLUTION_MOVES_def)

lemma unknown_stand_ok [simp]: "stand_ok unknown_stand"
  by (simp add: stand_ok_def unknown_stand_def AXIS_COUNT_def)

lemma unknown_pose [simp]: "pose_kind (stand_pose unknown_stand) = stand_pose_kind.Unknown"
  by (simp add: unknown_stand_def)

lemma scan_validate_mask: "scan_validate sc = Inr () \<longleftrightarrow> scan_scanned_faces sc AND (NOT ALL_FACES_MASK) = 0"
  by (simp add: scan_validate_def)

lemma solution_validate_iff:
  "solution_validate sol = Inr () \<longleftrightarrow>
     unat (sol_move_count sol) \<le> 32 \<and> sol_completed_moves sol \<le> sol_move_count sol"
  by (auto simp: solution_validate_def MAX_SOLUTION_MOVES_def)

section \<open>Activity\<close>

datatype activity =
    Idle
  | Moving' active_motion
  | Scanning active_scan
  | Solving' active_solve
  | Executing' active_execute

definition in_activity :: "activity \<Rightarrow> ('d, 's) service \<Rightarrow> bool" where
  "in_activity a s \<longleftrightarrow>
     svc_motion s = (case a of Moving' m \<Rightarrow> Some m | _ \<Rightarrow> None) \<and>
     svc_scan s = (case a of Scanning m \<Rightarrow> Some m | _ \<Rightarrow> None) \<and>
     svc_solve s = (case a of Solving' m \<Rightarrow> Some m | _ \<Rightarrow> None) \<and>
     svc_execute s = (case a of Executing' m \<Rightarrow> Some m | _ \<Rightarrow> None)"

definition motion_ok :: "active_motion \<Rightarrow> operation_status \<Rightarrow> bool" where
  "motion_ok m opr \<longleftrightarrow> op_current_action opr \<le> op_action_count opr \<and>
     (am_kind m = operation_kind.RecoverToOpen \<and> op_action_count opr = 3 \<and>
        am_phase m \<in> {RecoverStart, RecoverFinishLeftRight, RecoverFinishTopBottom, RecoverFinishGrippers} \<or>
      am_kind m = operation_kind.Grip \<and> op_action_count opr = 2 \<and>
        am_phase m \<in> {GripStart, GripFinishGrippers, GripFinishRails})"

fun scan_motion :: "motion_step \<Rightarrow> bool" where
  "scan_motion motion_step.MoveCompleted = False"
| "scan_motion motion_step.AllOff = False"
| "scan_motion _ = True"

fun execute_motion :: "motion_step \<Rightarrow> bool" where
  "execute_motion (Capture _) = False"
| "execute_motion _ = True"

definition pending_count :: "'a option \<Rightarrow> nat" where
  "pending_count p = (if p = None then 0 else 1)"

definition moves_left :: "motion_step list \<Rightarrow> nat" where
  "moves_left steps = count_list steps motion_step.MoveCompleted"

definition scan_running :: "active_scan \<Rightarrow> status_snapshot \<Rightarrow> operation_status \<Rightarrow> bool" where
  "scan_running a st opr \<longleftrightarrow> as_kind a \<in> {operation_kind.Scan, operation_kind.ScanSolveExecute} \<and>
     op_action_count opr = 26 \<and>
     unat (op_current_action opr) + length (as_steps a) + pending_count (as_pending a) = 26 \<and>
     st_cube_session st \<noteq> None \<and> scan_revision (st_scan st) \<noteq> None \<and>
     scan_state (st_scan st) = InProgress \<and> (\<forall>x \<in> set (as_steps a). scan_motion x) \<and>
     (as_failure a = None \<longrightarrow> scan_matches (as_cube a) (scan_faces (st_scan st)))"

definition solve_running :: "active_solve \<Rightarrow> status_snapshot \<Rightarrow> operation_status \<Rightarrow> bool" where
  "solve_running a st opr \<longleftrightarrow> st_cube_session st \<noteq> None \<and>
     (av_kind a = operation_kind.Solve \<and> op_current_action opr = 0 \<and> op_action_count opr = 1 \<or>
      av_kind a = operation_kind.ScanSolveExecute \<and> op_current_action opr = 26 \<and> op_action_count opr = 27)"

definition execute_running :: "active_execute \<Rightarrow> status_snapshot \<Rightarrow> operation_status \<Rightarrow> bool" where
  "execute_running a st opr \<longleftrightarrow>
     ae_kind a \<in> {operation_kind.Execute, operation_kind.ScanSolveExecute, operation_kind.ExecuteMoves,
       operation_kind.Open} \<and>
     unat (op_current_action opr) + length (ae_steps a) + pending_count (ae_pending a) =
       unat (op_action_count opr) \<and>
     st_cube_session st \<noteq> None \<and> (\<forall>x \<in> set (ae_steps a). execute_motion x) \<and>
     (ae_kind a \<noteq> operation_kind.ExecuteMoves \<longrightarrow>
        unat (sol_completed_moves (st_solution st)) + moves_left (ae_steps a) \<le>
          unat (sol_move_count (st_solution st)) \<or>
        ae_kind a = operation_kind.Open \<and> moves_left (ae_steps a) = 0)"

definition running :: "u32 \<Rightarrow> operation_kind \<Rightarrow> (operation_status \<Rightarrow> bool) \<Rightarrow> status_snapshot \<Rightarrow> bool" where
  "running i k q st \<longleftrightarrow> st_controller st = controller_state.Busy \<and>
     (\<exists>opr. st_active_operation st = Some opr \<and> op_id opr = i \<and> op_kind opr = k \<and> q opr)"

fun activity_ok :: "activity \<Rightarrow> status_snapshot \<Rightarrow> bool" where
  "activity_ok Idle st \<longleftrightarrow> st_active_operation st = None \<and>
     st_controller st \<noteq> controller_state.Busy \<and> st_controller st \<noteq> controller_state.Booting"
| "activity_ok (Moving' m) st = running (am_operation_id m) (am_kind m) (motion_ok m) st"
| "activity_ok (Scanning a) st = running (as_operation_id a) (as_kind a) (scan_running a st) st"
| "activity_ok (Solving' a) st = running (av_operation_id a) (av_kind a) (solve_running a st) st"
| "activity_ok (Executing' a) st = running (ae_operation_id a) (ae_kind a) (execute_running a st) st"

definition cache_ok :: "cached_response list \<Rightarrow> bool" where
  "cache_ok c \<longleftrightarrow> length c \<le> REQUEST_CACHE_CAPACITY \<and>
     0 \<notin> set (map (\<lambda>e. rsp_request_id (cached_message e)) c) \<and>
     distinct (map (\<lambda>e. rsp_request_id (cached_message e)) c)"

text \<open>The part every intermediate state keeps, and the invariant.\<close>

definition ids_ok :: "('d, 's) service \<Rightarrow> bool" where
  "ids_ok s \<longleftrightarrow> next_operation_id s \<noteq> 0 \<and> next_session_id s \<noteq> 0 \<and> next_scan_revision s \<noteq> 0 \<and>
     next_solution_id s \<noteq> 0 \<and> cache_ok (request_cache s)"

definition service_inv :: "('d, 's) service \<Rightarrow> bool" where
  "service_inv s \<longleftrightarrow> ids_ok s \<and> status_ok (svc_status s) \<and>
     (\<exists>a. in_activity a s \<and> activity_ok a (svc_status s))"

lemma service_invI:
  "ids_ok s \<Longrightarrow> status_ok (svc_status s) \<Longrightarrow> in_activity a s \<Longrightarrow> activity_ok a (svc_status s) \<Longrightarrow> service_inv s"
  by (auto simp: service_inv_def)

lemma next_id_nonzero [simp]: "next_id w \<noteq> 0"
proof
  assume "next_id w = 0"
  then have "(1 :: u32) \<le> 0" by (metis max.cobounded2 next_id_def)
  then show False by simp
qed

lemma with_scanner_inv: "service_inv (with_scanner dev c scanner)"
  by (rule service_invI [where a = Idle])
    (simp_all add: with_scanner_def ids_ok_def cache_ok_def status_ok_def unknown_status_def in_activity_def)

lemma operation_active_iff:
  assumes "in_activity a s"
  shows "operation_active s \<longleftrightarrow> a \<noteq> Idle"
  using assms by (cases a) (auto simp: operation_active_def in_activity_def)

section \<open>Faults and aborts\<close>

lemma enter_fault_inv:
  assumes "ids_ok s" "status_ok (svc_status s)"
  shows "service_inv (enter_fault B i s)"
  using assms
  by (intro service_invI [where a = Idle])
    (simp_all add: enter_fault_def svc_defs Let_def ids_ok_def status_ok_def in_activity_def)

lemma abort_inv:
  assumes "ids_ok s" "status_ok (svc_status s)"
  shows "service_inv (abort B i s)"
proof (cases "all_off B (svc_output s)")
  case (Pair ok d)
  show ?thesis
  proof (cases ok)
    case True
    with Pair assms show ?thesis
      by (intro service_invI [where a = Idle])
        (simp_all add: abort_def svc_defs Let_def ids_ok_def status_ok_def in_activity_def)
  next
    case False
    with Pair assms show ?thesis
      by (auto simp: abort_def Let_def ids_ok_def intro!: enter_fault_inv)
  qed
qed

lemma settle_inv:
  assumes "outcome_all service_inv (\<lambda>s. ids_ok s \<and> status_ok (svc_status s)) r"
  shows "\<exists>s'. settle B i r = Some s' \<and> service_inv s'"
  using assms by (cases r) (auto simp: settle_def enter_fault_inv)

section \<open>Steps inside an operation\<close>

text \<open>
  \<open>held_by b a s\<close>: the status describes the operation \<open>a\<close> while the fields hold \<open>b\<close>, which is \<open>a\<close> itself
  (\<open>busy\<close>) or nothing, when a handler has taken the operation out of its field (\<open>taken\<close>). Actuator
  commands keep it.
\<close>

definition held_by :: "activity \<Rightarrow> activity \<Rightarrow> ('d, 's) service \<Rightarrow> bool" where
  "held_by b a s \<longleftrightarrow> ids_ok s \<and> status_ok (svc_status s) \<and> in_activity b s \<and>
     activity_ok a (svc_status s) \<and> a \<noteq> Idle"

abbreviation busy :: "activity \<Rightarrow> ('d, 's) service \<Rightarrow> bool" where
  "busy a \<equiv> held_by a a"

abbreviation taken :: "activity \<Rightarrow> ('d, 's) service \<Rightarrow> bool" where
  "taken a \<equiv> held_by Idle a"

lemma busy_inv: "busy a s \<Longrightarrow> service_inv s"
  by (auto simp: held_by_def service_inv_def)

lemma busy_mid: "held_by b a s \<Longrightarrow> ids_ok s \<and> status_ok (svc_status s)"
  by (simp add: held_by_def)

lemma busy_controller: "held_by b a s \<Longrightarrow> st_controller (svc_status s) = controller_state.Busy"
  by (cases a) (auto simp: held_by_def running_def)

lemma busy_cases:
  assumes "service_inv s"
  shows "svc_motion s = Some m \<Longrightarrow> busy (Moving' m) s"
    and "svc_scan s = Some n \<Longrightarrow> busy (Scanning n) s"
    and "svc_solve s = Some k \<Longrightarrow> busy (Solving' k) s"
    and "svc_execute s = Some e \<Longrightarrow> busy (Executing' e) s"
proof -
  obtain a where a: "ids_ok s" "status_ok (svc_status s)" "in_activity a s" "activity_ok a (svc_status s)"
    using assms by (auto simp: service_inv_def)
  show "svc_motion s = Some m \<Longrightarrow> busy (Moving' m) s"
    using a by (cases a) (auto simp: held_by_def in_activity_def)
  show "svc_scan s = Some n \<Longrightarrow> busy (Scanning n) s"
    using a by (cases a) (auto simp: held_by_def in_activity_def)
  show "svc_solve s = Some k \<Longrightarrow> busy (Solving' k) s"
    using a by (cases a) (auto simp: held_by_def in_activity_def)
  show "svc_execute s = Some e \<Longrightarrow> busy (Executing' e) s"
    using a by (cases a) (auto simp: held_by_def in_activity_def)
qed

lemma touches_busy:
  assumes "held_by b a s" "touches s t"
  shows "held_by b a t"
proof -
  obtain d X where t: "t = s\<lparr> svc_output := d, svc_status := (svc_status s)\<lparr> st_stand := X \<rparr> \<rparr>"
    and X: "stand_shape X = stand_shape (st_stand (svc_status s))"
    using assms(2) by (auto simp: touches_def)
  have "activity_ok a (svc_status t) = activity_ok a (svc_status s)"
    by (cases a) (simp_all add: t running_def scan_running_def solve_running_def execute_running_def)
  moreover have "in_activity b t = in_activity b s" "ids_ok t = ids_ok s"
    by (simp_all add: t in_activity_def ids_ok_def)
  moreover have "status_ok (svc_status t)"
    using assms(1) busy_controller [OF assms(1)] X
    by (auto simp: held_by_def t status_ok_def stand_ok_def stand_shape_def)
  ultimately show ?thesis
    using assms(1) by (simp add: held_by_def)
qed

lemma busy_set_pose:
  assumes "held_by b a s" "pose_kind pose \<noteq> CanonicalGrip"
  shows "held_by b a (set_pose pose s)"
proof -
  have "activity_ok a (svc_status (set_pose pose s)) = activity_ok a (svc_status s)"
    by (cases a) (simp_all add: svc_defs running_def scan_running_def solve_running_def execute_running_def)
  then show ?thesis
    using assms busy_controller [OF assms(1)]
    by (simp add: held_by_def svc_defs in_activity_def ids_ok_def status_ok_def stand_ok_def)
qed

lemma busy_emit: "held_by b a s \<Longrightarrow> held_by b a (emit e s)"
  by (simp add: held_by_def emit_def in_activity_def ids_ok_def)

lemma busy_emit_stand: "held_by b a s \<Longrightarrow> held_by b a (emit_stand s)"
  by (simp add: emit_stand_def busy_emit)

text \<open>A command from a busy state, continued by a step that ends in the invariant.\<close>

lemma command_then:
  assumes "outcome_all (touches s) (touches s) r" "held_by b a s"
    and "\<And>t. held_by b a t \<Longrightarrow> outcome_all service_inv (\<lambda>s. ids_ok s \<and> status_ok (svc_status s)) (f t)"
  shows "outcome_all service_inv (\<lambda>s. ids_ok s \<and> status_ok (svc_status s)) (and_then r f)"
proof (rule outcome_all_and_then)
  show "outcome_all (held_by b a) (\<lambda>s. ids_ok s \<and> status_ok (svc_status s)) r"
    using assms(1) by (rule outcome_all_mono) (use touches_busy [OF assms(2)] busy_mid in blast)+
qed (rule assms(3))

section \<open>Recovery and grip\<close>

lemma motion_continues:
  assumes "busy (Moving' m) s"
    and "st_active_operation (svc_status s) = Some opr"
    and "current \<le> op_action_count opr"
    and "am_phase m \<in> {RecoverStart, RecoverFinishLeftRight, RecoverFinishTopBottom, RecoverFinishGrippers} \<longleftrightarrow>
       phase \<in> {RecoverStart, RecoverFinishLeftRight, RecoverFinishTopBottom, RecoverFinishGrippers}"
  shows "outcome_all service_inv q
    (and_then (set_motion_phase phase deadline current s) (\<lambda>s. Done (emit_stand s)))"
proof -
  have "motion_ok m opr"
    using assms(1,2) by (auto simp: held_by_def running_def)
  then have "motion_ok (m\<lparr> am_phase := phase, am_deadline := Some deadline \<rparr>) (opr\<lparr> op_current_action := current \<rparr>)"
    using assms(3,4) by (cases phase; cases "am_phase m") (auto simp: motion_ok_def)
  then have "busy (Moving' (m\<lparr> am_phase := phase, am_deadline := Some deadline \<rparr>))
      (on_operation (\<lambda>operation. operation\<lparr> op_current_action := current \<rparr>)
        (s\<lparr> svc_motion := Some (m\<lparr> am_phase := phase, am_deadline := Some deadline \<rparr>) \<rparr>))"
    using assms(1,2) by (auto simp: held_by_def svc_defs in_activity_def ids_ok_def running_def status_ok_def)
  moreover have "svc_motion s = Some m"
    using assms(1) by (simp add: held_by_def in_activity_def)
  ultimately show ?thesis
    by (auto simp: set_motion_phase_def intro: busy_inv [OF busy_emit_stand])
qed

lemma complete_operation_inv:
  assumes "busy (Moving' m) s"
  shows "outcome_all service_inv q (complete_operation s)"
  using assms
  by (auto simp: complete_operation_def held_by_def in_activity_def svc_defs status_ok_def ids_ok_def
      running_def Let_def intro!: service_invI [where a = Idle])

lemma moving_operation:
  assumes "busy (Moving' m) s"
  obtains opr where "st_active_operation (svc_status s) = Some opr" "motion_ok m opr"
  using assms by (auto simp: held_by_def running_def)

lemma busy_forget_cube:
  assumes "busy (Moving' m) s"
  shows "busy (Moving' m) (set_pose transitional_pose
    (clear_scan_and_solution (on_status (\<lambda>st. st\<lparr> st_cube_session := None \<rparr>) s)))"
  using assms
  by (auto simp: held_by_def svc_defs in_activity_def ids_ok_def status_ok_def stand_ok_def running_def
      transitional_pose_def)

lemma recover_start_inv:
  assumes "busy (Moving' m) s" "am_phase m = RecoverStart"
  shows "outcome_all service_inv (\<lambda>s. ids_ok s \<and> status_ok (svc_status s)) (recover_start B now s)"
  unfolding recover_start_def Let_def
proof (rule command_then [OF command_rail_pair_touches [OF touches_refl] busy_forget_cube [OF assms(1)]])
  fix t assume t: "busy (Moving' m) t"
  obtain opr where "st_active_operation (svc_status t) = Some opr" "motion_ok m opr"
    using moving_operation [OF t] .
  then show "outcome_all service_inv (\<lambda>s. ids_ok s \<and> status_ok (svc_status s))
      (and_then (set_motion_phase RecoverFinishLeftRight (now + rail_duration (svc_calibration t) FarOpen) 0 t)
        (\<lambda>s. Done (emit_stand s)))"
    using assms(2) by (intro motion_continues [OF t]) auto
qed

lemma recover_finish_left_right_inv:
  assumes "busy (Moving' m) s" "am_phase m = RecoverFinishLeftRight"
  shows "outcome_all service_inv (\<lambda>s. ids_ok s \<and> status_ok (svc_status s)) (recover_finish_left_right B now s)"
  unfolding recover_finish_left_right_def
proof (rule command_then [OF use_output_touches [OF touches_refl] assms(1)])
  fix t :: "('a, 'b) service" assume t: "busy (Moving' m) t"
  let ?t = "finish_rails [axis.Left, axis.Right] link_rail_position.Open t"
  have "busy (Moving' m) ?t"
    using touches_busy [OF t] touches_folds(1) touches_refl by blast
  then show "outcome_all service_inv (\<lambda>s. ids_ok s \<and> status_ok (svc_status s))
      (and_then (command_rail_pair B [TopRail, BottomRail] [axis.Top, axis.Bottom] FarOpen ?t) (\<lambda>s.
        and_then (set_motion_phase RecoverFinishTopBottom (now + rail_duration (svc_calibration s) FarOpen) 1 s)
          (\<lambda>s. Done (emit_stand s))))"
  proof (rule command_then [OF command_rail_pair_touches [OF touches_refl]])
    fix u assume u: "busy (Moving' m) u"
    obtain opr where "st_active_operation (svc_status u) = Some opr" "motion_ok m opr"
      using moving_operation [OF u] .
    then show "outcome_all service_inv (\<lambda>s. ids_ok s \<and> status_ok (svc_status s))
        (and_then (set_motion_phase RecoverFinishTopBottom (now + rail_duration (svc_calibration u) FarOpen) 1 u)
          (\<lambda>s. Done (emit_stand s)))"
      using assms(2) by (intro motion_continues [OF u]) (auto simp: motion_ok_def)
  qed
qed

text \<open>The same shape of step, for any phase that continues after a command.\<close>

lemma continue_after:
  fixes s :: "('d, 's) service"
  assumes "outcome_all (touches s) (touches s) r" "busy (Moving' m) s"
    and "am_phase m \<in> {RecoverStart, RecoverFinishLeftRight, RecoverFinishTopBottom, RecoverFinishGrippers} \<longleftrightarrow>
       phase \<in> {RecoverStart, RecoverFinishLeftRight, RecoverFinishTopBottom, RecoverFinishGrippers}"
    and "current \<le> 2" "am_kind m = operation_kind.Grip \<longrightarrow> current \<le> 1"
  shows "outcome_all service_inv (\<lambda>s. ids_ok s \<and> status_ok (svc_status s))
    (and_then r (\<lambda>s. and_then (set_motion_phase phase (deadline s) current s) (\<lambda>s. Done (emit_stand s))))"
proof (rule command_then [OF assms(1,2)])
  fix t :: "('d, 's) service" assume t: "busy (Moving' m) t"
  obtain opr where opr: "st_active_operation (svc_status t) = Some opr" "motion_ok m opr"
    using moving_operation [OF t] .
  have "current \<le> op_action_count opr"
    using opr(2) assms(4,5) by (auto simp: motion_ok_def elim: order_trans)
  then show "outcome_all service_inv (\<lambda>s. ids_ok s \<and> status_ok (svc_status s))
      (and_then (set_motion_phase phase (deadline t) current t) (\<lambda>s. Done (emit_stand s)))"
    using assms(3) by (intro motion_continues [OF t opr(1)])
qed

lemma recover_finish_top_bottom_inv:
  assumes "busy (Moving' m) s" "am_phase m = RecoverFinishTopBottom"
  shows "outcome_all service_inv (\<lambda>s. ids_ok s \<and> status_ok (svc_status s)) (recover_finish_top_bottom B now s)"
  unfolding recover_finish_top_bottom_def
proof (rule command_then [OF use_output_touches [OF touches_refl] assms(1)])
  fix t :: "('a, 'b) service" assume t: "busy (Moving' m) t"
  let ?t = "finish_rails [axis.Top, axis.Bottom] link_rail_position.Open t"
  have "busy (Moving' m) ?t"
    using touches_busy [OF t] touches_folds(1) touches_refl by blast
  moreover have "am_kind m = operation_kind.RecoverToOpen"
    using moving_operation [OF t] assms(2) by (auto simp: motion_ok_def)
  ultimately show "outcome_all service_inv (\<lambda>s. ids_ok s \<and> status_ok (svc_status s))
      (and_then (command_all_grippers_perpendicular B ?t) (\<lambda>s.
        and_then (set_motion_phase RecoverFinishGrippers (now + gripper_pose_duration (svc_calibration s)) 2 s)
          (\<lambda>s. Done (emit_stand s))))"
    using assms(2) by (intro continue_after [OF command_all_grippers_touches [OF touches_refl]]) auto
qed

lemma recover_finish_grippers_inv:
  assumes "busy (Moving' m) s"
  shows "outcome_all service_inv (\<lambda>s. ids_ok s \<and> status_ok (svc_status s)) (recover_finish_grippers B s)"
  unfolding recover_finish_grippers_def Let_def
proof (rule command_then [OF use_output_touches [OF touches_refl] assms])
  fix t assume "busy (Moving' m) t"
  then have "busy (Moving' m) (set_pose open_pose (set_outputs_enabled False (finish_all_grippers_perpendicular t)))"
    by (intro busy_set_pose) (auto simp: open_pose_def elim!: touches_busy intro!: touches_simps)
  then show "outcome_all service_inv (\<lambda>s. ids_ok s \<and> status_ok (svc_status s))
      (complete_operation (set_pose open_pose (set_outputs_enabled False (finish_all_grippers_perpendicular t))))"
    by (rule complete_operation_inv)
qed

lemma grip_start_inv:
  assumes "busy (Moving' m) s" "am_phase m = GripStart"
  shows "outcome_all service_inv (\<lambda>s. ids_ok s \<and> status_ok (svc_status s)) (grip_start B now s)"
  unfolding grip_start_def Let_def
  by (rule continue_after [OF command_all_grippers_touches [OF touches_refl] busy_set_pose [OF assms(1)]])
    (simp_all add: transitional_pose_def assms(2))

lemma grip_finish_grippers_inv:
  assumes "busy (Moving' m) s" "am_phase m = GripFinishGrippers"
  shows "outcome_all service_inv (\<lambda>s. ids_ok s \<and> status_ok (svc_status s)) (grip_finish_grippers B now s)"
  unfolding grip_finish_grippers_def Let_def
proof (rule command_then [OF use_output_touches [OF touches_refl] touches_busy [OF assms(1)]])
  show "touches s (finish_all_grippers_perpendicular s)"
    by (simp add: touches_simps)
next
  fix t assume "busy (Moving' m) t"
  then have u: "busy (Moving' m) (set_outputs_enabled True (moving_rails is target t))" for "is" target
    by (auto elim!: touches_busy intro!: touches_simps touches_folds)
  then obtain opr where opr: "st_active_operation (svc_status (set_outputs_enabled True (moving_rails
      (map axis_index [axis.Left, axis.Right, axis.Top, axis.Bottom]) link_rail_position.Grip t))) = Some opr"
    "motion_ok m opr"
    using moving_operation by blast
  show "outcome_all service_inv (\<lambda>s. ids_ok s \<and> status_ok (svc_status s))
      (and_then (set_motion_phase GripFinishRails (now + rail_duration (svc_calibration
          (set_outputs_enabled True (moving_rails (map axis_index [axis.Left, axis.Right, axis.Top, axis.Bottom])
            link_rail_position.Grip t))) NearGrip) 1
        (set_outputs_enabled True (moving_rails (map axis_index [axis.Left, axis.Right, axis.Top, axis.Bottom])
            link_rail_position.Grip t))) (\<lambda>s. Done (emit_stand s)))"
    using opr(2) assms(2) by (intro motion_continues [OF u opr(1)]) (auto simp: motion_ok_def)
qed

lemma grip_finish_rails_inv:
  assumes "busy (Moving' m) s" "am_phase m = GripFinishRails"
  shows "outcome_all service_inv (\<lambda>s. ids_ok s \<and> status_ok (svc_status s)) (grip_finish_rails B s)"
  unfolding grip_finish_rails_def Let_def
proof (rule command_then [OF use_output_touches [OF touches_refl] assms(1)])
  fix t :: "('a, 'b) service" assume t: "busy (Moving' m) t"
  let ?u = "finish_rails [axis.Top, axis.Bottom] link_rail_position.Grip
    (finish_rails [axis.Left, axis.Right] link_rail_position.Grip t)"
  have u: "busy (Moving' m) ?u"
    using t by (auto elim!: touches_busy intro!: touches_folds)
  have "busy (Moving' m) (emit e (on_status (\<lambda>st. st\<lparr> st_cube_session := Some x \<rparr>)
      ((set_pose canonical_grip_pose ?u)\<lparr> next_session_id := next_id i \<rparr>)))" for e x i
    using u busy_controller [OF u]
    by (simp add: held_by_def svc_defs in_activity_def ids_ok_def status_ok_def stand_ok_def running_def)
  then show "outcome_all service_inv (\<lambda>s. ids_ok s \<and> status_ok (svc_status s))
    (complete_operation (emit (event_message.CubeSessionChanged
       (Some \<lparr> cs_id = next_session_id (set_pose canonical_grip_pose ?u) \<rparr>))
      (on_status (\<lambda>st. st\<lparr> st_cube_session := Some \<lparr> cs_id = next_session_id (set_pose canonical_grip_pose ?u) \<rparr> \<rparr>)
        ((set_pose canonical_grip_pose ?u)\<lparr> next_session_id := next_id (next_session_id (set_pose canonical_grip_pose ?u)) \<rparr>))))"
    by (rule complete_operation_inv)
qed

lemma advance_motion_inv:
  assumes "service_inv s"
  shows "\<exists>s'. advance_motion B now s = Some s' \<and> service_inv s'"
proof (cases "svc_motion s")
  case (Some m)
  then have busy: "busy (Moving' m) s"
    using busy_cases(1) [OF assms] by blast
  have *: "outcome_all service_inv (\<lambda>s. ids_ok s \<and> status_ok (svc_status s)) (motion_handler B (am_phase m) now s)"
    by (cases "am_phase m")
      (simp_all add: motion_handler_def
        recover_start_inv [OF busy]
        recover_finish_left_right_inv [OF busy]
        recover_finish_top_bottom_inv [OF busy]
        recover_finish_grippers_inv [OF busy]
        grip_start_inv [OF busy]
        grip_finish_grippers_inv [OF busy]
        grip_finish_rails_inv [OF busy])
  show ?thesis
    using settle_inv [OF *, of B "am_operation_id m"] Some
    by (simp add: advance_motion_def settle_def)
qed (use assms in \<open>simp add: advance_motion_def\<close>)

lemma tick_motion_inv:
  assumes "service_inv s"
  shows "\<exists>s'. tick_motion B now s = Some s' \<and> service_inv s'"
  using assms advance_motion_inv [OF assms] by (auto simp: tick_motion_def split: option.split)

end
