(* ===== verification/ServiceProgress.thy ===== *)
theory ServiceProgress
  imports ServiceInvariant
begin

unbundle bit_operations_syntax

text \<open>
  The invariant is kept by scanning, solving and executing, and by a whole tick.
\<close>

lemma saturating_inc:
  assumes "unat c < 65535"
  shows "saturating_add16 c 1 = c + 1" "unat (saturating_add16 c 1) = Suc (unat c)"
proof -
  show *: "saturating_add16 c 1 = c + 1"
    using assms by (simp add: saturating_add16_def)
  show "unat (saturating_add16 c 1) = Suc (unat c)"
    unfolding * using assms by (simp add: unat_word_ariths)
qed

section \<open>Scanning\<close>

lemma take_scan: "busy (Scanning a) s \<Longrightarrow> taken (Scanning a) (s\<lparr> svc_scan := None \<rparr>)"
  by (auto simp: held_by_def in_activity_def ids_ok_def)

lemma put_scan: "taken (Scanning a) s \<Longrightarrow> busy (Scanning a) (s\<lparr> svc_scan := Some a \<rparr>)"
  by (auto simp: held_by_def in_activity_def ids_ok_def)

text \<open>Starting a step keeps the sum of done and left actions; completing one moves it.\<close>

lemma scan_started:
  assumes "taken (Scanning a) s" "as_steps a = x # steps" "as_pending a = None"
  shows "taken (Scanning (a\<lparr> as_steps := steps, as_pending := Some p, as_deadline := d \<rparr>)) s"
  using assms by (auto simp: held_by_def running_def scan_running_def pending_count_def)

lemma scan_counted:
  assumes "taken (Scanning a) s"
    and "as_operation_id b = as_operation_id a" "as_kind b = as_kind a" "as_cube b = as_cube a"
      "as_failure b = as_failure a" "set (as_steps b) \<subseteq> set (as_steps a)"
    and "Suc (length (as_steps b) + pending_count (as_pending b)) = length (as_steps a) + pending_count (as_pending a)"
  shows "taken (Scanning b) (advance_action_counter s)"
proof -
  obtain opr where opr: "st_active_operation (svc_status s) = Some opr" "scan_running a (svc_status s) opr"
    using assms(1) by (auto simp: held_by_def running_def)
  then have "unat (op_current_action opr) < 65535"
    by (auto simp: scan_running_def)
  from saturating_inc(2) [OF this] opr(2) assms(7)
  have "unat (saturating_add16 (op_current_action opr) 1) + length (as_steps b) + pending_count (as_pending b) = 26"
    by (simp add: scan_running_def)
  then show ?thesis
    using assms opr
    by (auto simp: held_by_def advance_action_counter_def svc_defs in_activity_def ids_ok_def status_ok_def
        running_def scan_running_def)
qed

lemma scan_pending_inv:
  assumes "taken (Scanning a) s" "as_pending a = Some p"
  shows "\<exists>s'. settle B i (and_then (finish_pending B p s) (\<lambda>s.
      Done ((emit_stand (advance_action_counter s))\<lparr> svc_scan := Some (a\<lparr> as_pending := None, as_deadline := None \<rparr>) \<rparr>))) =
    Some s' \<and> service_inv s'"
proof (rule settle_inv, rule command_then [OF finish_pending_touches [OF touches_refl] assms(1)])
  fix t assume "taken (Scanning a) t"
  then have "taken (Scanning (a\<lparr> as_pending := None, as_deadline := None \<rparr>)) (advance_action_counter t)"
    by (rule scan_counted) (simp_all add: assms(2) pending_count_def)
  from busy_inv [OF put_scan [OF busy_emit_stand [OF this]]]
  show "outcome_all service_inv (\<lambda>s. ids_ok s \<and> status_ok (svc_status s))
    (Done ((emit_stand (advance_action_counter t))\<lparr> svc_scan := Some (a\<lparr> as_pending := None, as_deadline := None \<rparr>) \<rparr>))"
    by simp
qed

lemma accept_face_ok:
  assumes "taken (Scanning a) s" "as_failure a = None"
    and "record_recognized_face (as_cube a) f r = (Inr u, cube)"
  shows "\<exists>t. accept_face (as_operation_id a) f r s = Some t \<and> taken (Scanning (a\<lparr> as_cube := cube \<rparr>)) t"
proof -
  have sc: "scan_ok (st_scan (svc_status s))"
    using assms(1) by (simp add: held_by_def status_ok_def)
  obtain counts where counts: "add_color_counts (scan_color_counts (st_scan (svc_status s))) (rf_colors r) = Some counts"
    "length counts = 6"
    using add_color_counts_ok sc by (auto simp: scan_ok_def)
  have m: "scan_matches cube ((scan_faces (st_scan (svc_status s)))[cube_face_index f := Some r])"
    using assms by (auto simp: held_by_def running_def scan_running_def intro: scan_matches_record)
  have "scan_ok ((st_scan (svc_status s))\<lparr> scan_camera_face := Some r,
      scan_faces := (scan_faces (st_scan (svc_status s)))[cube_face_index f := Some r],
      scan_scanned_faces := scan_scanned_faces (st_scan (svc_status s)) OR push_bit (cube_face_index f) 1,
      scan_color_counts := counts \<rparr>)"
    if "scan_state (st_scan (svc_status s)) = InProgress"
    using sc counts(2) that by (simp add: scan_ok_def scan_validate_mask mask_or [unfolded push_bit_of_1])
  then show ?thesis
    using assms(1,2) counts m
    by (auto simp: accept_face_def held_by_def svc_defs in_activity_def ids_ok_def status_ok_def
        running_def scan_running_def)
qed

lemma scan_failed:
  assumes "taken (Scanning a) s"
  shows "taken (Scanning (a\<lparr> as_cube := cube, as_failure := Some k \<rparr>))
    (on_scan (\<lambda>sc. sc\<lparr> scan_validation_error := e \<rparr>) (s\<lparr> svc_scanner := x \<rparr>))"
  using assms
  by (auto simp: held_by_def svc_defs in_activity_def ids_ok_def status_ok_def running_def scan_running_def
      scan_ok_def scan_validate_mask)

lemma taken_scanner: "taken a s \<Longrightarrow> taken a (s\<lparr> svc_scanner := x \<rparr>)"
  by (simp add: held_by_def in_activity_def ids_ok_def)

lemma capture_result_ok:
  assumes "taken (Scanning a) s" "as_failure a = None"
  shows "\<exists>cube fl t. capture_result B f (a\<lparr> as_steps := rest \<rparr>) s =
      Some (a\<lparr> as_cube := cube, as_failure := fl, as_steps := rest \<rparr>, t) \<and>
    taken (Scanning (a\<lparr> as_cube := cube, as_failure := fl \<rparr>)) t"
proof (cases "capture_face B (svc_scanner s) f")
  case (Pair res x)
  let ?s = "s\<lparr> svc_scanner := x \<rparr>"
  have t: "taken (Scanning a) ?s" by (rule taken_scanner [OF assms(1)])
  show ?thesis
  proof (cases res)
    case (Inl e)
    then show ?thesis
      using Pair scan_failed [OF assms(1), where k = operation_failure_kind.Recognition and cube = "as_cube a"]
      by (intro exI [of _ "as_cube a"] exI [of _ "Some operation_failure_kind.Recognition"])
        (simp add: capture_result_def)
  next
    case (Inr r)
    show ?thesis
    proof (cases "record_recognized_face (as_cube a) f r")
      case rr: (Pair u cube)
      show ?thesis
      proof (cases u)
        case (Inl e)
        then show ?thesis
          using Pair \<open>res = Inr r\<close> rr scan_failed [OF assms(1), where k = operation_failure_kind.Recognition and cube = cube]
          by (intro exI [of _ cube] exI [of _ "Some operation_failure_kind.Recognition"])
            (simp add: capture_result_def)
      next
        case (Inr v)
        obtain t where "accept_face (as_operation_id a) f r ?s = Some t"
          "taken (Scanning (a\<lparr> as_cube := cube \<rparr>)) t"
          using accept_face_ok [OF t assms(2)] rr Inr by blast
        then show ?thesis
          using Pair \<open>res = Inr r\<close> rr Inr assms(2)
          by (intro exI [of _ cube] exI [of _ "None"] exI [of _ t])
            (cases a, simp add: capture_result_def)
      qed
    qed
  qed
qed

lemma taken_current_face:
  assumes "taken (Scanning a) s"
  shows "taken (Scanning a) (on_scan (\<lambda>sc. sc\<lparr> scan_current_face := Some f \<rparr>)
    (set_pose \<lparr> pose_kind = ScanPose, pose_camera_face = Some f \<rparr> s))"
proof -
  have "taken (Scanning a) (set_pose \<lparr> pose_kind = ScanPose, pose_camera_face = Some f \<rparr> s)"
    by (rule busy_set_pose [OF assms]) simp
  then show ?thesis
    by (auto simp: held_by_def svc_defs in_activity_def ids_ok_def status_ok_def running_def scan_running_def
        scan_ok_def scan_validate_mask solvable_def cube_from_scan_def)
qed

lemma capture_step_ok:
  assumes "taken (Scanning a) s" "as_steps a = x # rest" "as_pending a = None"
  shows "\<exists>b t. capture_step B f (a\<lparr> as_steps := rest \<rparr>) s = Some (b, t) \<and> taken (Scanning b) t"
proof -
  let ?s = "on_scan (\<lambda>sc. sc\<lparr> scan_current_face := Some f \<rparr>)
    (set_pose \<lparr> pose_kind = ScanPose, pose_camera_face = Some f \<rparr> s)"
  have s: "taken (Scanning a) ?s" by (rule taken_current_face [OF assms(1)])
  have counted: "taken (Scanning (b\<lparr> as_steps := rest \<rparr>)) (emit_stand (advance_action_counter t))"
    if "taken (Scanning b) t" "as_steps b = x # rest" "as_pending b = None" for b and t :: "('a, 'b) service"
    by (rule busy_emit_stand, rule scan_counted [OF that(1)])
      (use that assms in \<open>auto simp: pending_count_def\<close>)
  show ?thesis
  proof (cases "as_failure a")
    case None
    obtain cube fl t where "capture_result B f (a\<lparr> as_steps := rest \<rparr>) ?s =
        Some (a\<lparr> as_cube := cube, as_failure := fl, as_steps := rest \<rparr>, t)"
      "taken (Scanning (a\<lparr> as_cube := cube, as_failure := fl \<rparr>)) t"
      using capture_result_ok [OF s None] by blast
    then show ?thesis
      using None counted [of "a\<lparr> as_cube := cube, as_failure := fl \<rparr>" t] assms(2,3)
      by (simp add: capture_step_def Let_def)
  next
    case (Some k)
    then show ?thesis
      using counted [OF s assms(2,3)] by (simp add: capture_step_def Let_def)
  qed
qed

lemma scan_step_inv:
  assumes "taken (Scanning a) s" "as_steps a = x # rest" "as_pending a = None"
  shows "\<exists>s'. scan_step B now x (a\<lparr> as_steps := rest \<rparr>) s = Some s' \<and> service_inv s'"
proof -
  have pose: "taken (Scanning a) (set_pose transitional_pose s)"
    by (rule busy_set_pose [OF assms(1)]) (simp add: transitional_pose_def)
  have start: "service_inv (t\<lparr> svc_scan := Some (a\<lparr> as_steps := rest, as_pending := Some p, as_deadline := d \<rparr>) \<rparr>)"
    if "taken (Scanning a) t" for p d and t :: "('a, 'b) service"
    by (rule busy_inv [OF put_scan [OF scan_started [OF that assms(2,3)]]])
  have rails: "\<exists>s'. settle B i (and_then (command_motion_rails B target position (set_pose transitional_pose s)) (\<lambda>s.
         Done (s\<lparr> svc_scan := Some (a\<lparr> as_steps := rest, as_pending := Some p, as_deadline := d s \<rparr>) \<rparr>))) = Some s' \<and>
      service_inv s'" for i target position p d
    by (rule settle_inv, rule command_then [OF command_motion_rails_touches [OF touches_refl] pose])
      (simp add: start)
  have grippers: "\<exists>s'. settle B i (and_then (command_scan_grippers B poses (set_pose transitional_pose s)) (\<lambda>s.
         Done (s\<lparr> svc_scan := Some (a\<lparr> as_steps := rest, as_pending := Some p, as_deadline := d \<rparr>) \<rparr>))) = Some s' \<and>
      service_inv s'" for i poses p d
    by (rule settle_inv, rule command_then [OF command_scan_grippers_touches [OF touches_refl] pose])
      (simp add: start)
  show ?thesis
  proof (cases x)
    case (Capture f)
    obtain b t where "capture_step B f (a\<lparr> as_steps := rest \<rparr>) s = Some (b, t)" "taken (Scanning b) t"
      using capture_step_ok [OF assms] by blast
    with Capture show ?thesis
      using busy_inv [OF put_scan] by (auto simp: scan_step_def)
  qed (use rails grippers assms(1) in
      \<open>auto simp: scan_step_def Let_def settle_def held_by_def enter_fault_inv\<close>)
qed

text \<open>The end of a scan: invalid with a failure, or valid, solvable, and handed to the solver if asked.\<close>

lemma solvable_updates [simp]:
  "solvable (scan_current_face_update f sc) = solvable sc"
  "solvable (scan_state_update g sc) = solvable sc"
  "solvable (scan_validation_error_update h sc) = solvable sc"
  by (simp_all add: solvable_def cube_from_scan_def)

definition scan_closed :: "('d, 's) backend \<Rightarrow> scan_state_kind \<Rightarrow> scan_validation_error option \<Rightarrow>
    ('d, 's) service \<Rightarrow> ('d, 's) service" where
  "scan_closed B state e s =
     (let s = set_pose canonical_grip_pose (on_scan (\<lambda>sc. sc\<lparr> scan_current_face := None,
            scan_state := state, scan_validation_error := e \<rparr>) s)
      in emit_stand (s\<lparr> svc_scanner := finish_scan B (svc_scanner s) (st_scan (svc_status s)) \<rparr>))"

lemma scan_closed_ok:
  assumes "taken (Scanning a) s" "state \<noteq> Valid \<or> solvable (st_scan (svc_status s))"
  shows "ids_ok (scan_closed B state e s)" "status_ok (svc_status (scan_closed B state e s))"
    "in_activity Idle (scan_closed B state e s)"
proof -
  have st: "status_ok (svc_status s)" "ids_ok s" "in_activity Idle s" and act: "activity_ok (Scanning a) (svc_status s)"
    using assms(1) by (simp_all add: held_by_def)
  have busy: "st_controller (svc_status s) = controller_state.Busy" "st_cube_session (svc_status s) \<noteq> None"
    using act by (auto simp: running_def scan_running_def)
  have "scan_ok ((st_scan (svc_status s))\<lparr> scan_current_face := None, scan_state := state, scan_validation_error := e \<rparr>)"
    using assms(2) st(1)
    by (simp add: scan_ok_def scan_validate_mask status_ok_def)
  then show "status_ok (svc_status (scan_closed B state e s))"
    using st(1) busy by (simp add: scan_closed_def svc_defs Let_def status_ok_def stand_ok_def)
  show "ids_ok (scan_closed B state e s)" "in_activity Idle (scan_closed B state e s)"
    using st(2,3) by (simp_all add: scan_closed_def svc_defs Let_def ids_ok_def in_activity_def)
qed

lemma ready_inv:
  assumes "ids_ok s" "status_ok (svc_status s)" "in_activity Idle s"
  shows "service_inv (emit e (emit_robot_state (set_controller controller_state.Ready None s)))"
  using assms
  by (intro service_invI [where a = Idle])
    (auto simp: svc_defs ids_ok_def status_ok_def in_activity_def)

lemma finish_scan_operation_failed:
  assumes "taken (Scanning a) s" "as_failure a = Some k"
  shows "\<exists>s'. finish_scan_operation B a s = Some s' \<and> service_inv s'"
proof -
  let ?e = "if k = operation_failure_kind.InvalidFacelet then Some scan_validation_error.InvalidFacelet
    else scan_validation_error (st_scan (svc_status s))"
  have "finish_scan_operation B a s = Some (emit (event_message.OperationFailed (as_operation_id a) k)
      (emit_robot_state (set_controller controller_state.Ready None (scan_closed B Invalid ?e s))))"
    using assms(2) by (simp add: finish_scan_operation_def scan_closed_def svc_defs Let_def)
  with ready_inv [OF scan_closed_ok [OF assms(1), of Invalid B ?e]] show ?thesis by simp
qed

lemma begin_solver_inv:
  assumes "ids_ok s" "status_ok (svc_status s)" "in_activity Idle s"
    and "running i k (\<lambda>opr. st_cube_session (svc_status s) \<noteq> None \<and>
      (k = operation_kind.Solve \<and> op_current_action opr = 0 \<and> op_action_count opr = 1 \<or>
       k = operation_kind.ScanSolveExecute \<and> op_current_action opr = 26 \<and> op_action_count opr = 27)) (svc_status s)"
  shows "service_inv (emit_robot_state (begin_solver i revision k facelets s))"
proof -
  have "solution_ok (empty_solution\<lparr> sol_state := Solving, sol_source_scan_revision := Some revision \<rparr>)"
    by (simp add: solution_ok_def solution_validate_def empty_solution_def MAX_SOLUTION_MOVES_def)
  then show ?thesis
    using assms
    by (intro service_invI [where a = "Solving' \<lparr> av_operation_id = i, av_kind = k,
          av_scan_revision = revision, av_facelets = facelets \<rparr>"])
      (auto simp: begin_solver_def svc_defs Let_def ids_ok_def status_ok_def in_activity_def running_def solve_running_def)
qed

lemma scan_closed_status:
  "st_active_operation (svc_status (scan_closed B st e s)) = st_active_operation (svc_status s)"
  "st_controller (svc_status (scan_closed B st e s)) = st_controller (svc_status s)"
  "st_cube_session (svc_status (scan_closed B st e s)) = st_cube_session (svc_status s)"
  "scan_revision (st_scan (svc_status (scan_closed B st e s))) = scan_revision (st_scan (svc_status s))"
  by (simp_all add: scan_closed_def svc_defs Let_def)

lemma finish_scan_operation_valid:
  assumes "taken (Scanning a) s" "as_failure a = None" "as_steps a = []" "as_pending a = None"
    and "facelet_string (as_cube a) = Some (Inr fl)"
  shows "\<exists>s'. finish_scan_operation B a s = Some s' \<and> service_inv s'"
proof -
  let ?c = "scan_closed B Valid (scan_validation_error (st_scan (svc_status s))) s"
  obtain opr where opr: "st_active_operation (svc_status s) = Some opr" "scan_running a (svc_status s) opr"
    "op_id opr = as_operation_id a" "op_kind opr = as_kind a" "st_controller (svc_status s) = controller_state.Busy"
    using assms(1) by (auto simp: held_by_def running_def)
  have "unat (op_current_action opr) = unat (26 :: u16)"
    using opr(2) assms(3,4) by (simp add: scan_running_def pending_count_def)
  then have cur: "op_current_action opr = 26"
    by (simp only: word_unat_eq_iff)
  have solv: "solvable (st_scan (svc_status s))"
    using opr(2) assms(2,5) scan_matches_solvable by (auto simp: scan_running_def)
  note closed = scan_closed_ok [OF assms(1) disjI2 [OF solv], of B Valid "scan_validation_error (st_scan (svc_status s))"]
  have finish: "finish_scan_operation B a s =
      (if as_kind a = operation_kind.ScanSolveExecute then do {
         revision \<leftarrow> scan_revision (st_scan (svc_status ?c));
         Some (emit_robot_state (begin_solver (as_operation_id a) revision (as_kind a) fl
           (on_operation (\<lambda>operation. operation\<lparr> op_current_action := op_action_count operation,
              op_action_count := saturating_add16 (op_action_count operation) 1 \<rparr>) ?c))) }
       else Some (emit (event_message.OperationCompleted (as_operation_id a) (as_kind a))
         (emit_robot_state (set_controller controller_state.Ready None ?c))))"
    using assms(2,5) by (simp add: finish_scan_operation_def scan_closed_def svc_defs Let_def)
  show ?thesis
  proof (cases "as_kind a = operation_kind.ScanSolveExecute")
    case True
    let ?d = "on_operation (\<lambda>operation. operation\<lparr> op_current_action := op_action_count operation,
              op_action_count := saturating_add16 (op_action_count operation) 1 \<rparr>) ?c"
    obtain rev where rev: "scan_revision (st_scan (svc_status s)) = Some rev"
      using opr(2) by (auto simp: scan_running_def)
    have "ids_ok ?d" "status_ok (svc_status ?d)" "in_activity Idle ?d"
      using closed by (auto simp: svc_defs ids_ok_def status_ok_def in_activity_def)
    moreover have "running (as_operation_id a) (as_kind a) (\<lambda>opr. st_cube_session (svc_status ?d) \<noteq> None \<and>
      (as_kind a = operation_kind.Solve \<and> op_current_action opr = 0 \<and> op_action_count opr = 1 \<or>
       as_kind a = operation_kind.ScanSolveExecute \<and> op_current_action opr = 26 \<and> op_action_count opr = 27)) (svc_status ?d)"
      using opr scan_closed_status [of B Valid _ s] True
      by (simp add: running_def svc_defs scan_running_def saturating_add16_def)
    ultimately have "service_inv (emit_robot_state (begin_solver (as_operation_id a) rev (as_kind a) fl ?d))"
      by (rule begin_solver_inv)
    then show ?thesis
      using finish True rev by (simp add: scan_closed_status)
  next
    case False
    then show ?thesis
      using finish ready_inv [OF closed] by simp
  qed
qed

lemma finish_scan_operation_inv:
  assumes "taken (Scanning a) s" "as_steps a = []" "as_pending a = None"
  shows "\<exists>s'. finish_scan_operation B a s = Some s' \<and> service_inv s'"
proof (cases "as_failure a")
  case None
  have "scan_matches (as_cube a) (scan_faces (st_scan (svc_status s)))"
    using assms(1) None by (auto simp: held_by_def running_def scan_running_def)
  from facelet_string_spec [OF scan_matches_cube_ok [OF this]]
  obtain r where r: "facelet_string (as_cube a) = Some r" by blast
  show ?thesis
  proof (cases r)
    case (Inl e)
    let ?e = "Some scan_validation_error.InvalidFacelet"
    have "finish_scan_operation B a s = Some (emit (event_message.OperationFailed (as_operation_id a)
        operation_failure_kind.InvalidFacelet)
        (emit_robot_state (set_controller controller_state.Ready None (scan_closed B Invalid ?e s))))"
      using None r Inl by (simp add: finish_scan_operation_def scan_closed_def svc_defs Let_def)
    with ready_inv [OF scan_closed_ok [OF assms(1), of Invalid B ?e]] show ?thesis by simp
  next
    case (Inr fl)
    with finish_scan_operation_valid [OF assms(1) None assms(2,3)] r show ?thesis by simp
  qed
qed (use finish_scan_operation_failed [OF assms(1)] in blast)

lemma advance_scan_inv:
  assumes "service_inv s"
  shows "\<exists>s'. advance_scan B now s = Some s' \<and> service_inv s'"
proof (cases "svc_scan s")
  case (Some a)
  note t = take_scan [OF busy_cases(2) [OF assms Some]]
  show ?thesis
  proof (cases "waiting (as_deadline a) now")
    case False
    show ?thesis
    proof (cases "as_pending a")
      case pend: None
      show ?thesis
        using Some False pend finish_scan_operation_inv [OF t _ pend] scan_step_inv [OF t _ pend]
        by (cases "as_steps a") (auto simp: advance_scan_def)
    next
      case pend: (Some p)
      show ?thesis
        using Some False pend scan_pending_inv [OF t pend] by (simp add: advance_scan_def Let_def)
    qed
  qed (use Some assms in \<open>simp add: advance_scan_def\<close>)
qed (use assms in \<open>simp add: advance_scan_def\<close>)

section \<open>Plans the service executes\<close>

lemma exec_completed:
  "exec steps m = Some m' \<Longrightarrow>
     length (completed m') = length (completed m) + count_list steps move_plan_step.MoveCompleted"
proof (induction steps arbitrary: m)
  case (Cons x steps)
  then obtain m1 where 1: "exec_step x m = Some m1" "exec steps m1 = Some m'"
    by (auto simp: bind_eq_Some_conv)
  have pose: "completed (pose_grips k ps) = completed k" for k ps
    by (induction k ps rule: pose_grips.induct) simp_all
  have "length (completed m1) = length (completed m) + (if x = move_plan_step.MoveCompleted then 1 else 0)"
    using 1(1)
    by (cases x) (auto simp: checked_def move_rails_def rotate_cube_def bind_eq_Some_conv pose
        split: if_splits list.splits)
  with Cons.IH [OF 1(2)] show ?case by simp
qed simp

lemma exec_steps_execute_motion: "\<forall>x \<in> set (motion_steps plan). execute_motion x"
proof -
  have "execute_motion (motion_step_of x)" for x by (cases x) simp_all
  then show ?thesis by (auto simp: motion_steps_def)
qed

lemma moves_left_motion_steps:
  "moves_left (motion_steps plan) = count_list plan move_plan_step.MoveCompleted"
proof (induction plan)
  case (Cons x plan)
  then show ?case by (cases x) (simp_all add: moves_left_def motion_steps_def)
qed (simp add: moves_left_def motion_steps_def)

lemma execute_steps_ok:
  "\<exists>steps. execute_steps moves = Some steps \<and> length steps \<le> 20 * length moves + 3 \<and>
     (\<forall>x \<in> set steps. execute_motion x) \<and> moves_left steps = length moves"
proof -
  obtain plan m where plan: "optimized_execute_steps moves = Some plan" "exec plan canonical_grip = Some m"
    "completed m = map turn_of moves"
    using optimized_execute_run by blast
  have "length plan \<le> 20 * length moves"
    using optimized_steps_length plan(1) by (simp add: optimized_execute_steps_def)
  moreover have "count_list plan move_plan_step.MoveCompleted = length moves"
    using exec_completed [OF plan(2)] plan(3) by (simp add: canonical_grip_def)
  ultimately show ?thesis
    using exec_steps_execute_motion plan(1)
    by (simp add: execute_steps_def moves_left_motion_steps append_open_steps_def) (simp add: motion_steps_def)
qed

lemma held_execute_steps_ok:
  "\<exists>steps. held_execute_steps moves = Some steps \<and> length steps \<le> 20 * length moves \<and>
     (\<forall>x \<in> set steps. execute_motion x)"
proof -
  obtain plan where plan: "optimized_held_steps moves = Some plan"
    using optimized_held_run by blast
  have "length plan \<le> 20 * length moves"
    using optimized_steps_length plan by (simp add: optimized_held_steps_def)
  then show ?thesis
    using exec_steps_execute_motion plan
    by (simp add: held_execute_steps_def) (simp add: motion_steps_def)
qed

lemma open_steps_ok: "length open_steps = 3" "\<forall>x \<in> set open_steps. execute_motion x" "moves_left open_steps = 0"
  by (simp_all add: open_steps_def motion_steps_def append_open_steps_def moves_left_def)

section \<open>Solving\<close>

lemma finish_solve_failure_inv:
  assumes "ids_ok s" "status_ok (svc_status s)" "in_activity Idle s"
  shows "service_inv (finish_solve_failure i s)"
proof -
  have "ids_ok (on_solution (\<lambda>_. empty_solution) s)" "status_ok (svc_status (on_solution (\<lambda>_. empty_solution) s))"
    "in_activity Idle (on_solution (\<lambda>_. empty_solution) s)"
    using assms by (simp_all add: svc_defs ids_ok_def status_ok_def in_activity_def)
  from ready_inv [OF this] show ?thesis
    by (simp add: finish_solve_failure_def Let_def)
qed

lemma solved_ok:
  assumes "length moves \<le> 32"
  shows "solution_ok (solved i revision moves)" "unat (sol_move_count (solved i revision moves)) = length moves"
    "sol_completed_moves (solved i revision moves) = 0"
proof -
  show n: "unat (sol_move_count (solved i revision moves)) = length moves"
    using assms by (simp add: solved_def unat_of_nat_u8)
  show "sol_completed_moves (solved i revision moves) = 0"
    by (simp add: solved_def empty_solution_def)
  then show "solution_ok (solved i revision moves)"
    using n assms
    by (simp add: solution_ok_def solution_validate_iff) (simp add: solved_def empty_solution_def MAX_SOLUTION_MOVES_def)
qed

lemma take_solve: "busy (Solving' a) s \<Longrightarrow> taken (Solving' a) (s\<lparr> svc_solve := None \<rparr>)"
  by (auto simp: held_by_def in_activity_def ids_ok_def)

lemma on_solution_ok:
  assumes "ids_ok s" "status_ok (svc_status s)" "in_activity Idle s" "solution_ok (f (st_solution (svc_status s)))"
  shows "ids_ok (on_solution f s)" "status_ok (svc_status (on_solution f s))" "in_activity Idle (on_solution f s)"
  using assms by (simp_all add: svc_defs ids_ok_def status_ok_def in_activity_def)

lemma finish_solve_inv:
  assumes "taken (Solving' a) s"
  shows "\<exists>s'. finish_solve a moves s = Some s' \<and> service_inv s'"
proof (cases "length moves \<le> 32")
  case False
  then show ?thesis
    using assms finish_solve_failure_inv [of s] by (simp add: finish_solve_def MAX_SOLUTION_MOVES_def held_by_def)
next
  case True
  let ?i = "next_solution_id s"
  let ?sol = "solved ?i (av_scan_revision a) moves"
  let ?s = "on_solution (\<lambda>_. ?sol) (s\<lparr> next_solution_id := next_id ?i \<rparr>)"
  have s: "ids_ok (s\<lparr> next_solution_id := next_id ?i \<rparr>)" "status_ok (svc_status (s\<lparr> next_solution_id := next_id ?i \<rparr>))"
    "in_activity Idle (s\<lparr> next_solution_id := next_id ?i \<rparr>)"
    using assms by (auto simp: held_by_def ids_ok_def in_activity_def)
  note s' = on_solution_ok [OF s, of "\<lambda>_. ?sol", OF solved_ok(1) [OF True]]
  obtain opr where opr: "st_active_operation (svc_status s) = Some opr" "solve_running a (svc_status s) opr"
    "op_id opr = av_operation_id a" "op_kind opr = av_kind a" "st_controller (svc_status s) = controller_state.Busy"
    using assms by (auto simp: held_by_def running_def)
  show ?thesis
  proof (cases "av_kind a = operation_kind.ScanSolveExecute")
    case False
    then show ?thesis
      using True ready_inv [OF s'] by (simp add: finish_solve_def MAX_SOLUTION_MOVES_def Let_def)
  next
    case kind: True
    obtain steps where steps: "execute_steps moves = Some steps" "length steps \<le> 20 * length moves + 3"
      "\<forall>x \<in> set steps. execute_motion x" "moves_left steps = length moves"
      using execute_steps_ok by blast
    let ?e = "\<lparr> ae_operation_id = av_operation_id a, ae_kind = av_kind a, ae_steps = steps, ae_pending = None,
                      ae_deadline = None \<rparr>"
    let ?f = "\<lambda>operation. let current = saturating_add16 (op_current_action operation) 1
                      in operation\<lparr> op_current_action := current,
                           op_action_count := saturating_add16 current (of_nat (length steps)) \<rparr>"
    let ?t = "on_operation ?f (on_solution (\<lambda>sol. sol\<lparr> sol_state := solution_state_kind.Executing,
                      sol_completed_moves := 0 \<rparr>) ?s)"
    have small: "length steps < 1000" using steps(2) True by linarith
    have cur: "op_current_action opr = 26" "st_cube_session (svc_status s) \<noteq> None"
      using opr(2) kind by (auto simp: solve_running_def)
    have sum: "unat (op_action_count (?f opr)) = 27 + length steps" "unat (op_current_action (?f opr)) = 27"
      using small cur by (simp_all add: saturating_add16_def unat_of_nat_u16 unat_word_ariths)
    have "execute_running ?e (svc_status ?t) (?f opr)"
      using sum steps kind cur solved_ok [OF True]
      by (simp add: execute_running_def svc_defs pending_count_def Let_def)
    then have "activity_ok (Executing' ?e) (svc_status ?t)"
      using opr by (simp add: running_def svc_defs Let_def)
    moreover have "solution_ok (?sol\<lparr> sol_state := solution_state_kind.Executing, sol_completed_moves := 0 \<rparr>)"
      using solved_ok [OF True] by (simp add: solution_ok_def solution_validate_iff)
    then have "ids_ok ?t" "status_ok (svc_status ?t)" "in_activity Idle ?t"
      using s' by (simp_all add: svc_defs ids_ok_def status_ok_def in_activity_def)
    ultimately have "service_inv (emit_robot_state (?t\<lparr> svc_execute := Some ?e \<rparr>))"
      by (intro service_invI [where a = "Executing' ?e"])
        (simp_all add: emit_robot_state_def emit_def ids_ok_def in_activity_def)
    then show ?thesis
      using True kind steps(1) by (simp add: finish_solve_def MAX_SOLUTION_MOVES_def Let_def)
  qed
qed

lemma advance_solve_inv:
  assumes "service_inv s"
  shows "\<exists>s'. advance_solve B poll s = Some s' \<and> service_inv s'"
proof (cases "svc_solve s")
  case (Some a)
  note t = take_solve [OF busy_cases(3) [OF assms Some]]
  have "service_inv (finish_solve_failure i (s\<lparr> svc_solve := None \<rparr>))" for i
    by (rule finish_solve_failure_inv) (use t in \<open>simp_all add: held_by_def\<close>)
  then show ?thesis
    using Some assms finish_solve_inv [OF t]
    by (cases poll; cases "solver_worker B (av_facelets a)") (simp_all add: advance_solve_def Let_def)
qed (use assms in \<open>simp add: advance_solve_def\<close>)

section \<open>Executing\<close>

lemma take_execute_op: "busy (Executing' a) s \<Longrightarrow> taken (Executing' a) (s\<lparr> svc_execute := None \<rparr>)"
  by (auto simp: held_by_def in_activity_def ids_ok_def)

lemma put_execute: "taken (Executing' a) s \<Longrightarrow> busy (Executing' a) (s\<lparr> svc_execute := Some a \<rparr>)"
  by (auto simp: held_by_def in_activity_def ids_ok_def)

lemma moves_left_Cons: "moves_left (x # xs) = (if x = motion_step.MoveCompleted then 1 else 0) + moves_left xs"
  by (simp add: moves_left_def)

lemma execute_started:
  assumes "taken (Executing' a) s" "ae_steps a = x # steps" "ae_pending a = None"
  shows "taken (Executing' (a\<lparr> ae_steps := steps, ae_pending := Some p, ae_deadline := d \<rparr>)) s"
proof -
  have "moves_left steps \<le> moves_left (ae_steps a)"
    by (simp add: assms(2) moves_left_Cons)
  with assms show ?thesis
    by (fastforce simp: held_by_def running_def execute_running_def pending_count_def)
qed

lemma execute_counted:
  assumes "taken (Executing' a) s"
    and "ae_operation_id b = ae_operation_id a" "ae_kind b = ae_kind a" "set (ae_steps b) \<subseteq> set (ae_steps a)"
    and "Suc (length (ae_steps b) + pending_count (ae_pending b)) = length (ae_steps a) + pending_count (ae_pending a)"
    and "moves_left (ae_steps b) \<le> moves_left (ae_steps a)"
  shows "taken (Executing' b) (advance_action_counter s)"
proof -
  obtain opr where opr: "st_active_operation (svc_status s) = Some opr" "execute_running a (svc_status s) opr"
    using assms(1) by (auto simp: held_by_def running_def)
  have "unat (op_action_count opr) < 65536"
    using unsigned_less [of "op_action_count opr"] by simp
  then have "unat (op_current_action opr) < 65535"
    using opr(2) assms(5) by (auto simp: execute_running_def)
  from saturating_inc(2) [OF this] opr(2) assms(5)
  have "unat (saturating_add16 (op_current_action opr) 1) + length (ae_steps b) + pending_count (ae_pending b) =
      unat (op_action_count opr)"
    by (simp add: execute_running_def)
  moreover have "ae_kind a \<noteq> operation_kind.ExecuteMoves \<longrightarrow>
      unat (sol_completed_moves (st_solution (svc_status s))) + moves_left (ae_steps b)
        \<le> unat (sol_move_count (st_solution (svc_status s))) \<or>
      ae_kind a = operation_kind.Open \<and> moves_left (ae_steps b) = 0"
    using opr(2) assms(6) by (auto simp: execute_running_def)
  ultimately have "execute_running b (svc_status (advance_action_counter s))
      (opr\<lparr> op_current_action := saturating_add16 (op_current_action opr) 1 \<rparr>)"
    using opr(2) assms(2-4) by (auto simp: execute_running_def advance_action_counter_def svc_defs)
  then show ?thesis
    using assms(1-3) opr(1)
    by (auto simp: held_by_def advance_action_counter_def svc_defs in_activity_def ids_ok_def status_ok_def
        running_def)
qed

lemma execute_pending_inv:
  assumes "taken (Executing' a) s" "ae_pending a = Some p"
  shows "\<exists>s'. settle B i (and_then (finish_pending B p s) (\<lambda>s.
      Done ((emit_stand (advance_action_counter s))\<lparr> svc_execute := Some (a\<lparr> ae_pending := None, ae_deadline := None \<rparr>) \<rparr>))) =
    Some s' \<and> service_inv s'"
proof (rule settle_inv, rule command_then [OF finish_pending_touches [OF touches_refl] assms(1)])
  fix t assume "taken (Executing' a) t"
  then have "taken (Executing' (a\<lparr> ae_pending := None, ae_deadline := None \<rparr>)) (advance_action_counter t)"
    by (rule execute_counted) (simp_all add: assms(2) pending_count_def)
  from busy_inv [OF put_execute [OF busy_emit_stand [OF this]]]
  show "outcome_all service_inv (\<lambda>s. ids_ok s \<and> status_ok (svc_status s))
    (Done ((emit_stand (advance_action_counter t))\<lparr> svc_execute := Some (a\<lparr> ae_pending := None, ae_deadline := None \<rparr>) \<rparr>))"
    by simp
qed

text \<open>A completed move is counted in the solution, or forgets the scan of a manually moved cube.\<close>

lemma taken_move_completed:
  assumes "taken (Executing' a) s" "ae_steps a = motion_step.MoveCompleted # rest" "ae_pending a = None"
  shows "taken (Executing' (a\<lparr> ae_steps := rest \<rparr>)) (emit_stand (advance_action_counter
    (set_pose \<lparr> pose_kind = MovePose, pose_camera_face = None \<rparr>
      (if ae_kind a = operation_kind.ExecuteMoves then clear_scan_and_solution s
       else on_solution (\<lambda>sol. sol\<lparr> sol_completed_moves := saturating_inc8 (sol_completed_moves sol) \<rparr>) s))))"
proof -
  let ?sol = "st_solution (svc_status s)"
  obtain opr where opr: "st_active_operation (svc_status s) = Some opr" "execute_running a (svc_status s) opr"
    "op_id opr = ae_operation_id a" "op_kind opr = ae_kind a" "st_controller (svc_status s) = controller_state.Busy"
    using assms(1) by (auto simp: held_by_def running_def)
  have sol: "solution_ok ?sol"
    using assms(1) by (simp add: held_by_def status_ok_def)
  let ?t = "if ae_kind a = operation_kind.ExecuteMoves then clear_scan_and_solution s
       else on_solution (\<lambda>sol. sol\<lparr> sol_completed_moves := saturating_inc8 (sol_completed_moves sol) \<rparr>) s"
  let ?b = "a\<lparr> ae_steps := rest \<rparr>"
  have more: "ae_kind a \<noteq> operation_kind.ExecuteMoves \<Longrightarrow>
      unat (sol_completed_moves ?sol) + 1 + moves_left rest \<le> unat (sol_move_count ?sol)"
    using opr(2) assms(2) by (auto simp: execute_running_def moves_left_Cons)
  have inc: "unat (saturating_inc8 (sol_completed_moves ?sol)) = Suc (unat (sol_completed_moves ?sol))"
    if "ae_kind a \<noteq> operation_kind.ExecuteMoves"
  proof -
    have "unat (sol_move_count ?sol) \<le> 32"
      using sol by (simp add: solution_ok_def solution_validate_iff)
    then have "unat (sol_completed_moves ?sol) < 255"
      using more [OF that] by linarith
    then show ?thesis
      by (auto simp: saturating_inc8_def unat_word_ariths unsigned_minus_1_eq_mask mask_eq_exp_minus_1)
  qed
  have "solution_ok (?sol\<lparr> sol_completed_moves := saturating_inc8 (sol_completed_moves ?sol) \<rparr>)"
    if "ae_kind a \<noteq> operation_kind.ExecuteMoves"
    using sol more [OF that] inc [OF that]
    by (simp add: solution_ok_def solution_validate_iff word_le_nat_alt)
  then have t: "ids_ok ?t" "status_ok (svc_status ?t)" "in_activity Idle ?t"
    using assms(1) by (auto simp: svc_defs held_by_def ids_ok_def status_ok_def in_activity_def)
  have opt: "st_active_operation (svc_status ?t) = Some opr" "st_cube_session (svc_status ?t) = st_cube_session (svc_status s)"
    "st_controller (svc_status ?t) = controller_state.Busy"
    using opr by (simp_all add: svc_defs)
  define b where "b = a\<lparr> ae_steps := motion_step.AllOff # rest \<rparr>"
  have "execute_running b (svc_status ?t) opr"
    using opr(2) assms(2,3) more inc opt(2)
    by (auto simp: b_def execute_running_def moves_left_Cons svc_defs)
  then have "taken (Executing' b) ?t"
    using t opt opr by (simp add: held_by_def running_def b_def)
  then have "taken (Executing' b) (set_pose \<lparr> pose_kind = MovePose, pose_camera_face = None \<rparr> ?t)"
    by (rule busy_set_pose) simp
  then have "taken (Executing' ?b) (advance_action_counter (set_pose \<lparr> pose_kind = MovePose, pose_camera_face = None \<rparr> ?t))"
    by (rule execute_counted) (auto simp: b_def assms(3) moves_left_Cons pending_count_def)
  then show ?thesis by (rule busy_emit_stand)
qed

lemma execute_step_inv:
  assumes "taken (Executing' a) s" "ae_steps a = x # rest" "ae_pending a = None"
  shows "outcome_all service_inv (\<lambda>s. ids_ok s \<and> status_ok (svc_status s))
    (execute_step B now x (a\<lparr> ae_steps := rest \<rparr>) s)"
proof -
  have pose: "taken (Executing' a) (set_pose (move_pose k) s)" for k
    by (rule busy_set_pose [OF assms(1)]) (simp add: move_pose_def transitional_pose_def)
  have start: "service_inv (t\<lparr> svc_execute := Some (a\<lparr> ae_steps := rest, ae_pending := Some p, ae_deadline := d \<rparr>) \<rparr>)"
    if "taken (Executing' a) t" for p d and t :: "('a, 'b) service"
    by (rule busy_inv [OF put_execute [OF execute_started [OF that assms(2,3)]]])
  show ?thesis
  proof (cases x)
    case (SetRails target position)
    show ?thesis
      unfolding execute_step_def SetRails motion_step.case
      by (rule command_then [OF command_motion_rails_touches [OF touches_refl] pose]) (simp add: start)
  next
    case (SetGrippers poses)
    show ?thesis
      unfolding execute_step_def SetGrippers motion_step.case Let_def
      by (rule command_then [OF command_scan_grippers_touches [OF touches_refl] pose]) (simp add: start)
  next
    case (Capture f)
    then show ?thesis using assms(1,2) by (auto simp: held_by_def running_def execute_running_def)
  next
    case MoveCompleted
    from busy_inv [OF put_execute [OF taken_move_completed [OF assms(1) assms(2)[unfolded this] assms(3)]]]
    show ?thesis
      by (simp add: execute_step_def MoveCompleted Let_def cong: if_cong)
  next
    case AllOff
    show ?thesis
      unfolding execute_step_def AllOff motion_step.case Let_def
    proof (rule command_then [OF use_output_touches [OF touches_refl] assms(1)])
      fix t assume "taken (Executing' a) t"
      then have "taken (Executing' a) (set_outputs_enabled False t)"
        by (auto elim!: touches_busy intro!: touches_simps)
      then have "taken (Executing' (a\<lparr> ae_steps := rest \<rparr>)) (advance_action_counter (set_outputs_enabled False t))"
        by (rule execute_counted) (auto simp: assms(2,3) moves_left_Cons pending_count_def)
      from busy_inv [OF put_execute [OF this]]
      show "outcome_all service_inv (\<lambda>s. ids_ok s \<and> status_ok (svc_status s))
          (Done ((advance_action_counter (set_outputs_enabled False t))\<lparr> svc_execute := Some (a\<lparr> ae_steps := rest \<rparr>) \<rparr>))"
        by simp
    qed
  qed
qed

lemma finish_execute_operation_inv:
  assumes "taken (Executing' a) s"
  shows "service_inv (finish_execute_operation i k s)"
proof -
  have s: "ids_ok s" "status_ok (svc_status s)" "in_activity Idle s"
    and sess: "st_cube_session (svc_status s) \<noteq> None"
    using assms by (auto simp: held_by_def running_def execute_running_def)
  show ?thesis
    using s sess
    by (intro service_invI [where a = Idle])
      (auto simp: finish_execute_operation_def svc_defs Let_def ids_ok_def status_ok_def in_activity_def
        stand_ok_def open_pose_def)
qed

lemma advance_execute_inv:
  assumes "service_inv s"
  shows "\<exists>s'. advance_execute B now s = Some s' \<and> service_inv s'"
proof (cases "svc_execute s")
  case (Some a)
  note t = take_execute_op [OF busy_cases(4) [OF assms Some]]
  show ?thesis
  proof (cases "waiting (ae_deadline a) now")
    case False
    show ?thesis
    proof (cases "ae_pending a")
      case pend: None
      show ?thesis
        using Some False pend finish_execute_operation_inv [OF t]
          settle_inv [OF execute_step_inv [OF t _ pend]]
        by (cases "ae_steps a") (auto simp: advance_execute_def Let_def)
    next
      case pend: (Some p)
      show ?thesis
        using Some False pend execute_pending_inv [OF t pend] by (simp add: advance_execute_def Let_def)
    qed
  qed (use Some assms in \<open>simp add: advance_execute_def\<close>)
qed (use assms in \<open>simp add: advance_execute_def\<close>)

section \<open>A tick\<close>

lemma drain_events_inv: "service_inv s \<Longrightarrow> service_inv (snd (drain_events s))"
  by (simp add: drain_events_def service_inv_def ids_ok_def in_activity_def)

lemma tick_inv:
  assumes "service_inv s"
  shows "\<exists>msgs s'. tick B now poll s = Some (msgs, s') \<and> service_inv s' \<and> svc_events s' = []"
proof -
  obtain s1 where 1: "tick_motion B now s = Some s1" "service_inv s1" using tick_motion_inv [OF assms] by blast
  obtain s2 where 2: "advance_scan B now s1 = Some s2" "service_inv s2" using advance_scan_inv [OF 1(2)] by blast
  obtain s3 where 3: "advance_solve B poll s2 = Some s3" "service_inv s3" using advance_solve_inv [OF 2(2)] by blast
  obtain s4 where 4: "advance_execute B now s3 = Some s4" "service_inv s4" using advance_execute_inv [OF 3(2)] by blast
  from drain_events_inv [OF 4(2)] show ?thesis
    by (simp add: tick_def 1 2 3 4 drain_events_def)
qed

end
