(* ===== verification/ServiceRequests.thy ===== *)
theory ServiceRequests
  imports ServiceProgress
begin

text \<open>
  The invariant is kept by every request and local command, which always return; and what the
  admission of each request checks.
\<close>

section \<open>Starting operations\<close>

lemma idle_inv:
  assumes "service_inv s" "\<not> operation_active s"
  shows "ids_ok s" "status_ok (svc_status s)" "in_activity Idle s" "activity_ok Idle (svc_status s)"
proof -
  obtain a where a: "ids_ok s" "status_ok (svc_status s)" "in_activity a s" "activity_ok a (svc_status s)"
    using assms(1) by (auto simp: service_inv_def)
  moreover have "a = Idle" using operation_active_iff [OF a(3)] assms(2) by simp
  ultimately show "ids_ok s" "status_ok (svc_status s)" "in_activity Idle s" "activity_ok Idle (svc_status s)"
    by auto
qed

lemma begin_operation_simps [simp]:
  "fst (begin_operation k n s) = next_operation_id s"
  "snd (begin_operation k n s) = set_controller controller_state.Busy
     (Some \<lparr> op_id = next_operation_id s, op_kind = k, op_current_action = 0, op_action_count = n \<rparr>)
     (s\<lparr> next_operation_id := next_id (next_operation_id s) \<rparr>)"
  by (simp_all add: begin_operation_def Let_def)

text \<open>The state after \<open>begin_operation\<close>.\<close>

abbreviation begun :: "operation_kind \<Rightarrow> u16 \<Rightarrow> ('d, 's) service \<Rightarrow> ('d, 's) service" where
  "begun k n s \<equiv> snd (begin_operation k n s)"

lemma begun_ok:
  assumes "service_inv s" "\<not> operation_active s"
  shows "ids_ok (begun k n s)" "status_ok (svc_status (begun k n s))" "in_activity Idle (begun k n s)"
  using idle_inv [OF assms] by (auto simp: svc_defs ids_ok_def status_ok_def in_activity_def)

lemma begin_motion_inv:
  assumes "service_inv s" "\<not> operation_active s"
    and "k = operation_kind.RecoverToOpen \<and> n = 3 \<and> phase = RecoverStart \<or>
      k = operation_kind.Grip \<and> n = 2 \<and> phase = GripStart"
  shows "service_inv (emit_robot_state ((on_status (\<lambda>st. st\<lparr> st_fault := None \<rparr>) (begun k n s))
    \<lparr> svc_motion := Some \<lparr> am_operation_id = next_operation_id s, am_kind = k, am_phase = phase, am_deadline = None \<rparr> \<rparr>))"
  using begun_ok [OF assms(1,2), of k n] assms(3)
  by (intro service_invI [where a = "Moving' \<lparr> am_operation_id = next_operation_id s, am_kind = k,
        am_phase = phase, am_deadline = None \<rparr>"])
    (auto simp: svc_defs ids_ok_def status_ok_def in_activity_def running_def motion_ok_def)

lemma start_operation_inv:
  assumes "service_inv s"
  shows "service_inv (snd (start_operation k s))"
proof (cases "operation_active s")
  case False
  note m = begin_motion_inv [OF assms False]
  have "service_inv (emit_robot_state ((on_status (\<lambda>st. st\<lparr> st_fault := None \<rparr>) (begun operation_kind.RecoverToOpen 3 s))
    \<lparr> svc_motion := Some \<lparr> am_operation_id = next_operation_id s, am_kind = operation_kind.RecoverToOpen,
       am_phase = RecoverStart, am_deadline = None \<rparr> \<rparr>))"
    by (rule m) simp
  moreover have "service_inv (emit_robot_state ((on_status (\<lambda>st. st\<lparr> st_fault := None \<rparr>) (begun operation_kind.Grip 2 s))
    \<lparr> svc_motion := Some \<lparr> am_operation_id = next_operation_id s, am_kind = operation_kind.Grip,
       am_phase = GripStart, am_deadline = None \<rparr> \<rparr>))"
    by (rule m) simp
  ultimately show ?thesis
    using assms False
    by (cases k) (simp_all add: start_operation_def Let_def split_beta)
qed (use assms in \<open>simp add: start_operation_def\<close>)

lemma begin_scan_inv:
  assumes "service_inv s" "\<not> operation_active s" "st_cube_session (svc_status s) \<noteq> None"
    and "k \<in> {operation_kind.Scan, operation_kind.ScanSolveExecute}"
  shows "service_inv (emit_robot_state ((on_solution (\<lambda>_. empty_solution) (on_scan (\<lambda>_. empty_scan\<lparr>
      scan_state := InProgress, scan_revision := Some revision \<rparr>) (begun k 26 s)))\<lparr> svc_scan :=
      Some \<lparr> as_operation_id = next_operation_id s, as_kind = k, as_steps = scan_steps, as_pending = None,
        as_deadline = None, as_cube = default_cube, as_failure = None \<rparr> \<rparr>))"
proof -
  have "scan_ok (empty_scan\<lparr> scan_state := InProgress, scan_revision := Some revision \<rparr>)"
    by (simp add: scan_ok_def scan_validate_def) (simp add: empty_scan_def FACE_COUNT_def)
  moreover have "scan_matches default_cube (scan_faces empty_scan)"
    using scan_matches_empty by (simp add: empty_scan_def FACE_COUNT_def)
  moreover have "length scan_steps = 26" "\<forall>x \<in> set scan_steps. scan_motion x"
    by (simp_all add: scan_steps_def)
  ultimately show ?thesis
    using begun_ok [OF assms(1,2), of k 26] assms(3,4)
    by (intro service_invI [where a = "Scanning \<lparr> as_operation_id = next_operation_id s, as_kind = k,
          as_steps = scan_steps, as_pending = None, as_deadline = None, as_cube = default_cube, as_failure = None \<rparr>"])
      (auto simp: svc_defs ids_ok_def status_ok_def in_activity_def running_def scan_running_def pending_count_def)
qed

lemma begin_execute_inv:
  assumes "ids_ok s" "status_ok (svc_status s)" "in_activity Idle s" "st_cube_session (svc_status s) \<noteq> None"
    and "st_controller (svc_status s) = controller_state.Busy"
    and "st_active_operation (svc_status s) = Some \<lparr> op_id = i, op_kind = k, op_current_action = 0, op_action_count = n \<rparr>"
    and "k \<in> {operation_kind.Execute, operation_kind.ExecuteMoves, operation_kind.Open}"
    and "unat n = length steps" "\<forall>x \<in> set steps. execute_motion x"
    and "k \<noteq> operation_kind.ExecuteMoves \<longrightarrow>
       unat (sol_completed_moves (st_solution (svc_status s))) + moves_left steps \<le>
         unat (sol_move_count (st_solution (svc_status s))) \<or> k = operation_kind.Open \<and> moves_left steps = 0"
  shows "service_inv (emit_robot_state (begin_execute i k steps s))"
  using assms
  by (intro service_invI [where a = "Executing' \<lparr> ae_operation_id = i, ae_kind = k, ae_steps = steps,
        ae_pending = None, ae_deadline = None \<rparr>"])
    (auto simp: begin_execute_def svc_defs ids_ok_def status_ok_def in_activity_def running_def
      execute_running_def pending_count_def)

section \<open>Requests\<close>

text \<open>
  \<open>answers s i r\<close>: a request made in \<open>s\<close> ended, with a response to \<open>i\<close>, in a state with the
  invariant and the same cache.
\<close>

definition answers :: "('d, 's) service \<Rightarrow> u32 \<Rightarrow> (response_message \<times> ('d, 's) service) option \<Rightarrow> bool" where
  "answers s i r \<longleftrightarrow> (\<exists>response s'. r = Some (response, s') \<and> service_inv s' \<and>
     rsp_request_id response = i \<and> request_cache s' = request_cache s)"

lemma answers_Some [simp]: "answers s i (Some (response, s')) \<longleftrightarrow>
    service_inv s' \<and> rsp_request_id response = i \<and> request_cache s' = request_cache s"
  by (auto simp: answers_def)

lemma request_cache_simps [simp]:
  "request_cache (on_status f s) = request_cache s"
  "request_cache (emit e s) = request_cache s"
  "request_cache (clear_active s) = request_cache s"
  "request_cache (begin_solver i revision k facelets s) = request_cache s"
  "request_cache (begin_execute i k steps s) = request_cache s"
  by (simp_all add: on_status_def emit_def clear_active_def begin_solver_def on_solution_def begin_execute_def Let_def)

lemma request_cache_more [simp]:
  "request_cache (set_controller c opr s) = request_cache s"
  "request_cache (on_scan g s) = request_cache s"
  "request_cache (on_solution h s) = request_cache s"
  "request_cache (on_stand k s) = request_cache s"
  "request_cache (clear_scan_and_solution s) = request_cache s"
  "request_cache (emit_robot_state s) = request_cache s"
  "request_cache (emit_stand s) = request_cache s"
  by (simp_all add: set_controller_def on_scan_def on_solution_def on_stand_def clear_scan_and_solution_def
      emit_robot_state_def emit_stand_def)

lemma request_cache_enter_fault [simp]: "request_cache (enter_fault B i s) = request_cache s"
  by (simp add: enter_fault_def Let_def)

lemma request_cache_abort [simp]: "request_cache (abort B i s) = request_cache s"
  by (simp add: abort_def Let_def split: prod.split bool.split)

lemma request_cache_start_operation [simp]: "request_cache (snd (start_operation k s)) = request_cache s"
  by (cases k) (simp_all add: start_operation_def Let_def split_beta)

lemma response_ids [simp]:
  "rsp_request_id (accepted i x) = i" "rsp_request_id (rejected s i reason) = i"
  by (simp_all add: accepted_def rejected_def)

lemma start_empty_payload_inv:
  assumes "service_inv s"
  shows "answers s (rp_request_id p) (Some (start_empty_payload_operation p k s))"
  using assms start_operation_inv [OF assms, of k] request_cache_start_operation [of k s]
  by (auto simp del: request_cache_start_operation simp: start_empty_payload_operation_def split: prod.split sum.split)

lemma service_inv_scanner: "service_inv (s\<lparr> svc_scanner := x \<rparr>) = service_inv s"
  by (simp add: service_inv_def ids_ok_def in_activity_def)

lemma operation_active_updates [simp]:
  "operation_active (svc_scanner_update f s) = operation_active s"
  "operation_active (next_scan_revision_update g s) = operation_active s"
  by (simp_all add: operation_active_def)

lemma checked_u16_small: "n < 65536 \<Longrightarrow> checked_u16 n = Some (of_nat n)"
  by (simp add: checked_u16_def)

lemma length_scan_steps: "length scan_steps = 26"
  by (simp add: scan_steps_def)

lemma start_scan_operation_inv:
  assumes "service_inv s" "k \<in> {operation_kind.Scan, operation_kind.ScanSolveExecute}"
  shows "answers s i (start_scan_operation B i session_id k s)"
proof (cases "operation_active s")
  case False
  obtain ok x where bs: "begin_scan B (svc_scanner s) (next_scan_revision s) = (ok, x)" by fastforce
  let ?s = "s\<lparr> svc_scanner := x, next_scan_revision := next_id (next_scan_revision s) \<rparr>"
  have "service_inv ?s"
    using assms(1) by (simp add: service_inv_def ids_ok_def in_activity_def)
  then have "service_inv (emit_robot_state ((on_solution (\<lambda>_. empty_solution) (on_scan (\<lambda>_. empty_scan\<lparr>
      scan_state := InProgress, scan_revision := Some (next_scan_revision s) \<rparr>) (begun k 26 ?s)))\<lparr> svc_scan :=
      Some \<lparr> as_operation_id = next_operation_id ?s, as_kind = k, as_steps = scan_steps, as_pending = None,
        as_deadline = None, as_cube = default_cube, as_failure = None \<rparr> \<rparr>))"
    if "st_cube_session (svc_status s) \<noteq> None"
    using begin_scan_inv [of ?s k "next_scan_revision s"] False that assms(2) by simp
  then show ?thesis
    using bs False assms(1) service_inv_scanner [of x s]
    by (cases ok) (auto simp: start_scan_operation_def Let_def split_beta checked_u16_def length_scan_steps
        split: option.splits)
qed (use assms in \<open>simp add: start_scan_operation_def Let_def\<close>)

lemma start_scan_request_inv:
  assumes "service_inv s" "k \<in> {operation_kind.Scan, operation_kind.ScanSolveExecute}"
  shows "answers s (rp_request_id p) (start_scan_request B p k s)"
  using assms start_scan_operation_inv [OF assms] by (auto simp: start_scan_request_def split: sum.split)

lemma start_open_request_inv:
  assumes "service_inv s"
  shows "answers s (rp_request_id p) (Some (start_open_request B p s))"
proof (cases "operation_active s")
  case False
  have "service_inv (emit_robot_state (begin_execute (next_operation_id s) operation_kind.Open open_steps
      (begun operation_kind.Open 3 s)))" if "st_cube_session (svc_status s) \<noteq> None"
    by (rule begin_execute_inv [OF begun_ok [OF assms False], where n = 3])
      (use that open_steps_ok in \<open>auto simp: svc_defs\<close>)
  then show ?thesis
    using False assms
    by (auto simp: start_open_request_def Let_def split_beta open_steps_ok split: sum.split option.split)
qed (use assms in \<open>auto simp: start_open_request_def Let_def split: sum.split\<close>)

lemma start_solve_request_inv:
  assumes "service_inv s"
  shows "answers s (rp_request_id p) (start_solve_request B p s)"
proof (cases "operation_active s")
  case False
  obtain r where r: "cube_from_scan (st_scan (svc_status s)) = Some r" "\<forall>c. r = Inr c \<longrightarrow> cube_ok c"
    using cube_from_scan_ok idle_inv(2) [OF assms False] by (auto simp: status_ok_def scan_ok_def)
  have "service_inv (emit_robot_state (begin_solver (next_operation_id s) revision operation_kind.Solve facelets
      (begun operation_kind.Solve 1 s)))" if "st_cube_session (svc_status s) \<noteq> None" for revision facelets
    by (rule begin_solver_inv [OF begun_ok [OF assms False]])
      (use that in \<open>simp add: running_def svc_defs\<close>)
  moreover have "\<exists>f. facelet_string c = Some f" if "r = Inr c" for c
    using facelet_string_spec r(2) that by blast
  ultimately show ?thesis
    using False assms r(1)
    by (auto simp: start_solve_request_def Let_def split_beta split: sum.splits option.splits)
qed (use assms in \<open>auto simp: start_solve_request_def Let_def split: sum.split\<close>)

lemma move_slice_ok:
  assumes "unat n \<le> 32" "length moves = 32"
  shows "move_slice moves n = Some (map internal_move (take (unat n) moves))"
  using assms by (simp add: move_slice_def)

lemma start_execute_request_inv:
  assumes "service_inv s"
  shows "answers s (rp_request_id p) (start_execute_request B p s)"
proof (cases "operation_active s")
  case False
  let ?sol = "st_solution (svc_status s)"
  have sol: "length (sol_moves ?sol) = 32" "unat (sol_move_count ?sol) \<le> 32"
    using idle_inv(2) [OF assms False] by (auto simp: status_ok_def solution_ok_def solution_validate_iff)
  let ?moves = "map internal_move (take (unat (sol_move_count ?sol)) (sol_moves ?sol))"
  have slice: "move_slice (sol_moves ?sol) (sol_move_count ?sol) = Some ?moves"
    by (rule move_slice_ok [OF sol(2,1)])
  have len: "length ?moves = unat (sol_move_count ?sol)"
    using sol by simp
  obtain steps where steps: "execute_steps ?moves = Some steps" "length steps \<le> 20 * length ?moves + 3"
    "\<forall>x \<in> set steps. execute_motion x" "moves_left steps = unat (sol_move_count ?sol)"
    using execute_steps_ok [of ?moves] len by auto
  have small: "length steps < 65536" using steps(2) len sol(2) by linarith
  let ?t = "on_solution (\<lambda>sol. sol\<lparr> sol_state := solution_state_kind.Executing, sol_completed_moves := 0 \<rparr>)
    (begun operation_kind.Execute (of_nat (length steps)) s)"
  have "solution_ok (?sol\<lparr> sol_state := solution_state_kind.Executing, sol_completed_moves := 0 \<rparr>)"
    using sol by (simp add: solution_ok_def solution_validate_iff)
  then have t: "ids_ok ?t" "status_ok (svc_status ?t)" "in_activity Idle ?t"
    using begun_ok [OF assms False, of operation_kind.Execute "of_nat (length steps)"]
    by (auto simp: svc_defs ids_ok_def status_ok_def in_activity_def)
  have "service_inv (emit_robot_state (begin_execute (next_operation_id s) operation_kind.Execute steps ?t))"
    if "st_cube_session (svc_status s) \<noteq> None"
    by (rule begin_execute_inv [OF t, where n = "of_nat (length steps)"])
      (use that steps small unat_of_nat_u16 in \<open>auto simp: svc_defs\<close>)
  then show ?thesis
    using False assms slice steps(1) checked_u16_small [OF small]
    by (auto simp: start_execute_request_def Let_def split_beta split: sum.splits option.splits)
qed (use assms in \<open>auto simp: start_execute_request_def Let_def split: sum.split\<close>)

lemma decoded_moves:
  assumes "decode_payload (take_execute_moves B) input = Inr command"
  shows "length (em_moves command) = 32 \<and> unat (em_move_count command) \<le> 32"
proof -
  obtain wire where w: "deserialize_execute_moves wire = Inr command"
    using assms by (auto simp: decode_payload_def take_execute_moves_def split: sum.splits unpack_error.splits if_splits)
  then show ?thesis
    by (cases wire) (auto simp: deserialize_execute_moves_def MAX_SOLUTION_MOVES_def
        split: if_splits sum.splits dest!: length_unpack_moves)
qed

lemma start_execute_moves_request_inv:
  assumes "service_inv s"
  shows "answers s (rp_request_id p) (start_execute_moves_request B p s)"
proof (cases "decode_payload (take_execute_moves B) (payload p)")
  case (Inr command)
  let ?moves = "map internal_move (take (unat (em_move_count command)) (em_moves command))"
  have c: "length (em_moves command) = 32" "unat (em_move_count command) \<le> 32"
    using decoded_moves [OF Inr] by simp_all
  have slice: "move_slice (em_moves command) (em_move_count command) = Some ?moves"
    by (rule move_slice_ok [OF c(2,1)])
  obtain steps where steps: "held_execute_steps ?moves = Some steps" "length steps \<le> 20 * length ?moves"
    "\<forall>x \<in> set steps. execute_motion x"
    using held_execute_steps_ok [of ?moves] by blast
  have small: "length steps < 65536" using steps(2) c by simp
  have "service_inv (emit_robot_state (begin_execute (next_operation_id s) operation_kind.ExecuteMoves steps
      (begun operation_kind.ExecuteMoves (of_nat (length steps)) s)))"
    if "st_cube_session (svc_status s) \<noteq> None" "\<not> operation_active s"
    by (rule begin_execute_inv [OF begun_ok [OF assms that(2)], where n = "of_nat (length steps)"])
      (use that steps small unat_of_nat_u16 in \<open>auto simp: svc_defs\<close>)
  then show ?thesis
    using assms slice steps(1) checked_u16_small [OF small] Inr
    by (auto simp: start_execute_moves_request_def Let_def split_beta split: option.splits)
qed (use assms in \<open>simp add: start_execute_moves_request_def Let_def\<close>)

section \<open>Dispatch and the response cache\<close>

lemma service_inv_abort: "service_inv s \<Longrightarrow> service_inv (abort B i s)"
  by (rule abort_inv) (simp_all add: service_inv_def)

lemma dispatch_inv:
  assumes "service_inv s"
  shows "answers s (rp_request_id p) (dispatch_new_request B p s)"
proof (cases "request_try_from (rp_opcode p)")
  case (Inl e)
  then show ?thesis using assms by (simp add: dispatch_new_request_def Let_def)
next
  case (Inr opcode)
  have scan: "answers s (rp_request_id p) (start_scan_request B p operation_kind.Scan s)"
    "answers s (rp_request_id p) (start_scan_request B p operation_kind.ScanSolveExecute s)"
    by (rule start_scan_request_inv [OF assms], simp)+
  note rest = start_empty_payload_inv [OF assms, of p] start_solve_request_inv [OF assms, of p]
    start_execute_request_inv [OF assms, of p] start_execute_moves_request_inv [OF assms, of p]
    start_open_request_inv [OF assms, of p] service_inv_abort [OF assms]
  show ?thesis
    by (cases opcode) (simp_all add: dispatch_new_request_def Let_def Inr scan rest assms)
qed

lemma cache_response_inv:
  assumes "service_inv s"
    and "\<forall>e \<in> set (request_cache s). rsp_request_id (cached_message e) \<noteq> rsp_request_id r"
  shows "service_inv (cache_response opc r s)"
proof -
  have "cache_ok (request_cache (cache_response opc r s))"
  proof (cases "rsp_request_id r = 0")
    case False
    let ?ids = "map (\<lambda>e. rsp_request_id (cached_message e))"
    have c: "cache_ok (request_cache s)" using assms(1) by (simp add: service_inv_def ids_ok_def)
    have "set (?ids (tl (request_cache s))) \<subseteq> set (?ids (request_cache s))"
      by (cases "request_cache s") auto
    moreover have "distinct (?ids (tl (request_cache s)))"
      using c by (simp add: cache_ok_def map_tl distinct_tl)
    moreover have "rsp_request_id r \<notin> set (?ids (request_cache s))"
      using assms(2) by auto
    ultimately show ?thesis
      using c False by (auto simp: cache_response_def cache_ok_def Let_def REQUEST_CACHE_CAPACITY_def)
  qed (use assms(1) in \<open>simp add: cache_response_def service_inv_def ids_ok_def\<close>)
  then show ?thesis
    using assms(1)
    by (auto simp: cache_response_def service_inv_def ids_ok_def in_activity_def Let_def)
qed

lemma handle_packet_inv:
  assumes "service_inv s"
  shows "\<exists>msgs s'. handle_packet B p s = Some (msgs, s') \<and> service_inv s' \<and> svc_events s' = []"
proof (cases "find (\<lambda>entry. rsp_request_id (cached_message entry) = rp_request_id p) (request_cache s)")
  case None
  obtain r s1 where 1: "dispatch_new_request B p s = Some (r, s1)" "service_inv s1" "rsp_request_id r = rp_request_id p"
    using dispatch_inv [OF assms, of p B] by (auto simp: answers_def)
  have cache: "request_cache s1 = request_cache s"
    using dispatch_inv [OF assms, of p B] 1(1) by simp
  have "service_inv (cache_response (rp_opcode p) r s1)"
    by (rule cache_response_inv [OF 1(2)]) (use None 1(3) cache in \<open>auto simp: find_None_iff\<close>)
  from drain_events_inv [OF this] show ?thesis
    using None 1(1) by (simp add: handle_packet_def Let_def drain_events_def)
next
  case (Some c)
  then show ?thesis
    using drain_events_inv [OF assms] by (simp add: handle_packet_def Let_def drain_events_def)
qed

lemma handle_local_command_inv:
  assumes "service_inv s"
  shows "\<exists>r s'. handle_local_command B c s = Some (r, s') \<and> service_inv s' \<and> svc_events s' = []"
proof -
  have start: "\<exists>r s'. (case start_operation k s of
      (Inr operation_id, s) \<Rightarrow> Some (local_command_outcome.Accepted (Some operation_id), s)
    | (Inl reason, s) \<Rightarrow> Some (local_command_outcome.Rejected reason, s)) = Some (r, s') \<and> service_inv s'" for k
    using start_operation_inv [OF assms, of k] by (auto split: prod.split sum.split)
  have ending: "\<exists>r s'. (x \<bind> (\<lambda>(result, s). let (messages, s) = drain_events s in Some ((result, messages), s))) =
      Some (r, s') \<and> service_inv s' \<and> svc_events s' = []"
    if x: "\<exists>r s'. x = Some (r, s') \<and> service_inv s'"
    for x :: "(local_command_outcome \<times> ('a, 'b) service) option"
  proof -
    obtain r s' where s': "x = Some (r, s')" "service_inv s'" using x by blast
    from drain_events_inv [OF s'(2)] show ?thesis
      by (simp add: s'(1) drain_events_def Let_def)
  qed
  have scan: "\<exists>r s'. (start_scan_operation B 0 session_id operation_kind.ScanSolveExecute s \<bind> (\<lambda>(response, s).
      case rsp_payload response of
        response_payload.Accepted operation_id \<Rightarrow> Some (local_command_outcome.Accepted operation_id, s)
      | response_payload.Rejected reason _ \<Rightarrow> Some (local_command_outcome.Rejected reason, s)
      | response_payload.Status _ \<Rightarrow> None)) = Some (r, s') \<and> service_inv s'" for session_id
  proof -
    obtain r s' where r: "start_scan_operation B 0 session_id operation_kind.ScanSolveExecute s = Some (r, s')"
      "service_inv s'"
      using start_scan_operation_inv [OF assms, of operation_kind.ScanSolveExecute 0 B session_id]
      by (auto simp: answers_def)
    moreover have "\<exists>i reason c. rsp_payload r = response_payload.Accepted i \<or> rsp_payload r = response_payload.Rejected reason c"
      using r(1) by (auto simp: start_scan_operation_def Let_def split_beta accepted_def rejected_def
          checked_u16_def length_scan_steps split: if_splits option.splits bool.splits prod.splits)
    ultimately show ?thesis by auto
  qed
  show ?thesis
    unfolding handle_local_command_def
    by (rule ending) (cases c; simp add: start scan service_inv_abort [OF assms] Let_def)
qed

section \<open>Reachable states\<close>

text \<open>Everything the daemon does with the service: packets, button commands and ticks, in any order.\<close>

inductive service_reach :: "('d, 's) backend \<Rightarrow> ('d, 's) service \<Rightarrow> bool" for B where
  start: "service_reach B (with_scanner dev c scanner)"
| packet: "service_reach B s \<Longrightarrow> handle_packet B p s = Some (msgs, s') \<Longrightarrow> service_reach B s'"
| local: "service_reach B s \<Longrightarrow> handle_local_command B c s = Some (r, s') \<Longrightarrow> service_reach B s'"
| time: "service_reach B s \<Longrightarrow> tick B now poll s = Some (msgs, s') \<Longrightarrow> service_reach B s'"

lemma service_reach_inv: "service_reach B s \<Longrightarrow> service_inv s \<and> svc_events s = []"
proof (induction rule: service_reach.induct)
  case (start dev c scanner)
  show ?case using with_scanner_inv by (simp add: with_scanner_def)
next
  case (packet s p msgs s')
  then show ?case using handle_packet_inv [of s B p] by auto
next
  case (local s c r s')
  then show ?case using handle_local_command_inv [of s B c] by auto
next
  case (time s now poll msgs s')
  then show ?case using tick_inv [of s B now poll] by auto
qed

section \<open>How long a response stays cached\<close>

text \<open>\<open>cached_within k e s\<close>: the entry is in the cache, with at most \<open>k\<close> newer ones.\<close>

definition cached_within :: "nat \<Rightarrow> cached_response \<Rightarrow> ('d, 's) service \<Rightarrow> bool" where
  "cached_within k e s \<longleftrightarrow> (\<exists>older newer. request_cache s = older @ e # newer \<and> length newer \<le> k)"

lemma find_split: "\<forall>x \<in> set xs. \<not> q x \<Longrightarrow> q y \<Longrightarrow> find q (xs @ y # ys) = Some y"
  by (induction xs) auto

lemma cached_found:
  assumes "service_inv s" "cached_within k e s"
  shows "find (\<lambda>c. rsp_request_id (cached_message c) = rsp_request_id (cached_message e)) (request_cache s) = Some e"
proof -
  obtain older newer where c: "request_cache s = older @ e # newer"
    using assms(2) by (auto simp: cached_within_def)
  have "distinct (map (\<lambda>e. rsp_request_id (cached_message e)) (request_cache s))"
    using assms(1) by (simp add: service_inv_def ids_ok_def cache_ok_def)
  then have "\<forall>x \<in> set older. rsp_request_id (cached_message x) \<noteq> rsp_request_id (cached_message e)"
    unfolding c by (auto simp: disjoint_iff)
  then show ?thesis
    unfolding c by (intro find_split) auto
qed

lemma cache_response_keeps:
  assumes "cached_within k e s" "k + 1 < REQUEST_CACHE_CAPACITY"
  shows "cached_within (Suc k) e (cache_response opc r s)"
proof -
  obtain older newer where c: "request_cache s = older @ e # newer" "length newer \<le> k"
    using assms(1) by (auto simp: cached_within_def)
  show ?thesis
  proof (cases "rsp_request_id r = 0")
    case True
    with c show ?thesis
      unfolding cached_within_def by (intro exI [of _ older] exI [of _ newer]) (simp add: cache_response_def)
  next
    case False
    let ?older = "if length (request_cache s) = REQUEST_CACHE_CAPACITY then tl older else older"
    have "older \<noteq> []" if "length (request_cache s) = REQUEST_CACHE_CAPACITY"
      using c assms(2) that by auto
    then have "request_cache (cache_response opc r s) =
        ?older @ e # (newer @ [\<lparr> cached_opcode = opc, cached_message = r \<rparr>])"
      using False c by (auto simp: cache_response_def Let_def)
    then show ?thesis
      using c(2) unfolding cached_within_def
      by (intro exI [of _ ?older] exI [of _ "newer @ [\<lparr> cached_opcode = opc, cached_message = r \<rparr>]"])
        simp
  qed
qed

lemma request_cache_drain [simp]: "request_cache (snd (drain_events s)) = request_cache s"
  by (simp add: drain_events_def)

lemma handle_packet_cache:
  fixes s :: "('d, 's) service"
  assumes "service_inv s" "handle_packet B p s = Some (msgs, s')"
  shows "request_cache s' = request_cache s \<or>
    (\<exists>r (t :: ('d, 's) service). request_cache s' = request_cache (cache_response (rp_opcode p) r t) \<and>
      request_cache t = request_cache s)"
proof (cases "find (\<lambda>entry. rsp_request_id (cached_message entry) = rp_request_id p) (request_cache s)")
  case None
  obtain r t where "dispatch_new_request B p s = Some (r, t)" "request_cache t = request_cache s"
    using dispatch_inv [OF assms(1), of p B] by (auto simp: answers_def)
  with None assms(2) show ?thesis
    by (intro disjI2 exI [of _ r] exI [of _ t]) (auto simp: handle_packet_def Let_def drain_events_def)
qed (use assms(2) in \<open>auto simp: handle_packet_def Let_def drain_events_def\<close>)

lemma handle_packet_keeps:
  fixes s :: "('d, 's) service"
  assumes "service_inv s" "cached_within k e s" "k + 1 < REQUEST_CACHE_CAPACITY" "handle_packet B p s = Some (msgs, s')"
  shows "cached_within (Suc k) e s'"
proof -
  consider "request_cache s' = request_cache s"
    | r and t :: "('d, 's) service" where "request_cache s' = request_cache (cache_response (rp_opcode p) r t)" "request_cache t = request_cache s"
    using handle_packet_cache [OF assms(1,4)] by blast
  then show ?thesis
  proof cases
    case 1
    with assms(2) show ?thesis unfolding cached_within_def by force
  next
    case (2 r t)
    have "cached_within k e t" using assms(2) 2(2) by (simp add: cached_within_def)
    from cache_response_keeps [OF this assms(3), of "rp_opcode p" r] show ?thesis
      using 2(1) by (simp add: cached_within_def)
  qed
qed

fun handle_packets :: "('d, 's) backend \<Rightarrow> received_packet list \<Rightarrow> ('d, 's) service \<Rightarrow> ('d, 's) service option" where
  "handle_packets B [] s = Some s"
| "handle_packets B (p # ps) s = do { (_, s) \<leftarrow> handle_packet B p s; handle_packets B ps s }"

lemma handle_packets_keeps:
  assumes "service_inv s" "cached_within k e s" "k + length ps < REQUEST_CACHE_CAPACITY"
    "handle_packets B ps s = Some s'"
  shows "service_inv s' \<and> cached_within (k + length ps) e s' \<and> (svc_events s = [] \<longrightarrow> svc_events s' = [])"
  using assms
proof (induction ps arbitrary: s k)
  case (Cons p ps)
  obtain msgs s1 where 1: "handle_packet B p s = Some (msgs, s1)" "service_inv s1" "svc_events s1 = []"
    using handle_packet_inv [OF Cons.prems(1)] by blast
  have "cached_within (Suc k) e s1"
    using Cons.prems by (intro handle_packet_keeps [OF Cons.prems(1,2) _ 1(1)]) simp
  then show ?case
    using Cons.IH [OF 1(2), of "Suc k"] Cons.prems(3,4) 1 by simp
qed simp

lemma handled_cached:
  assumes "service_inv s" "svc_events s = []" "rp_request_id p \<noteq> 0" "handle_packet B p s = Some (msgs, s1)"
    and "find (\<lambda>entry. rsp_request_id (cached_message entry) = rp_request_id p) (request_cache s) = None"
  shows "\<exists>r. hd msgs = Response r \<and> rsp_request_id r = rp_request_id p \<and>
    cached_within 0 \<lparr> cached_opcode = rp_opcode p, cached_message = r \<rparr> s1"
proof -
  obtain r t where r: "dispatch_new_request B p s = Some (r, t)" "rsp_request_id r = rp_request_id p"
    using dispatch_inv [OF assms(1), of p B] by (auto simp: answers_def)
  then have m: "msgs = Response r # map Event (svc_events (cache_response (rp_opcode p) r t))"
    "s1 = (cache_response (rp_opcode p) r t)\<lparr> svc_events := [] \<rparr>"
    using assms(4,5) by (auto simp: handle_packet_def Let_def drain_events_def)
  show ?thesis
    using m r(2) assms(3)
    by (auto simp: cached_within_def cache_response_def Let_def)
qed

section \<open>Requests to a busy service\<close>

text \<open>
  The payload of a request, as its opcode wants it: empty, or a command that decodes and is valid.
\<close>

definition well_formed :: "('d, 's) backend \<Rightarrow> received_packet \<Rightarrow> request_opcode \<Rightarrow> bool" where
  "well_formed B p opcode =
     (case opcode of
        request_opcode.StartScan \<Rightarrow> \<not> isl (decode_payload (take_session B) (payload p))
      | request_opcode.ScanSolveExecute \<Rightarrow> \<not> isl (decode_payload (take_session B) (payload p))
      | request_opcode.Open \<Rightarrow> \<not> isl (decode_payload (take_session B) (payload p))
      | request_opcode.Solve \<Rightarrow> \<not> isl (decode_payload (take_solve B) (payload p))
      | request_opcode.Execute \<Rightarrow> \<not> isl (decode_payload (take_execute B) (payload p))
      | request_opcode.ExecuteMoves \<Rightarrow> (case decode_payload (take_execute_moves B) (payload p) of
          Inl _ \<Rightarrow> False
        | Inr command \<Rightarrow> execute_moves_validate command = Inr () \<and> em_move_count command \<noteq> 0)
      | _ \<Rightarrow> payload p = [])"

definition busy_reason :: "('d, 's) backend \<Rightarrow> received_packet \<Rightarrow> ('d, 's) service \<Rightarrow> rejection_reason" where
  "busy_reason B p s =
     (if rp_kind p \<noteq> message_kind.Request \<or> rp_request_id p = 0 then InvalidPayload
      else case request_try_from (rp_opcode p) of
        Inl _ \<Rightarrow> UnsupportedCommand
      | Inr opcode \<Rightarrow>
          if \<not> well_formed B p opcode then InvalidPayload
          else if opcode \<in> {request_opcode.StartScan, request_opcode.ScanSolveExecute} \<and> \<not> available B (svc_scanner s)
            then UnsupportedCommand
          else OperationAlreadyActive)"

lemma busy_dispatch:
  assumes "operation_active s" "rp_opcode p \<notin> {request_u16 request_opcode.GetStatus, request_u16 request_opcode.Abort}"
  shows "dispatch_new_request B p s = Some (rejected s (rp_request_id p) (busy_reason B p s), s)"
proof (cases "request_try_from (rp_opcode p)")
  case (Inl e)
  then show ?thesis by (simp add: dispatch_new_request_def busy_reason_def Let_def)
next
  case (Inr opcode)
  then have "opcode \<noteq> request_opcode.GetStatus" "opcode \<noteq> request_opcode.Abort"
    using assms(2) by (auto simp: request_try_from_iff)
  then show ?thesis
    using assms(1) Inr
    by (cases opcode)
      (auto simp: dispatch_new_request_def busy_reason_def well_formed_def Let_def start_empty_payload_operation_def
        start_operation_def start_scan_request_def start_scan_operation_def start_solve_request_def
        start_execute_request_def start_execute_moves_request_def start_open_request_def
        split: sum.split)
qed

end
