(* ===== verification/FrameHandler.thy ===== *)
theory FrameHandler
  imports Stream
begin

text \<open>
  A component that owns a stream decoder and hands every decoded frame to a handler: the daemon loop
  with the robot service, and each serial port of the gateway. \<open>framed\<close> is one byte of that loop.
  The locale extends \<open>stream_decoder\<close> with the handler and the specification of what the handler does
  to an abstract state, and derives that a received byte stream acts as the sequence of its packets.
\<close>

definition framed :: "('d \<Rightarrow> u8 \<Rightarrow> ('d \<times> 'r option) option) \<Rightarrow> ('s \<Rightarrow> 'd) \<Rightarrow> ('d \<Rightarrow> 's \<Rightarrow> 's) \<Rightarrow>
    ('s \<Rightarrow> 'r \<Rightarrow> ('s \<times> 'out) option) \<Rightarrow> 's \<Rightarrow> u8 \<Rightarrow> ('s \<times> 'out option) option" where
  "framed push get put handle s b = do {
     (d, r) \<leftarrow> push (get s) b;
     (case r of
        None \<Rightarrow> Some (put d s, None)
      | Some r \<Rightarrow> map_option (\<lambda>(s, out). (s, Some out)) (handle (put d s) r)) }"

fun run_spec :: "('a \<Rightarrow> 'p \<Rightarrow> 'a \<times> 'out) \<Rightarrow> 'a \<Rightarrow> 'p list \<Rightarrow> 'a \<times> 'out list" where
  "run_spec spec a [] = (a, [])"
| "run_spec spec a (p # ps) =
     (case spec a p of (a, out) \<Rightarrow> case run_spec spec a ps of (a, outs) \<Rightarrow> (a, out # outs))"

lemma run_spec_append:
  "run_spec spec a (ps @ qs) =
     (case run_spec spec a ps of (a, outs) \<Rightarrow> case run_spec spec a qs of (a, outs') \<Rightarrow> (a, outs @ outs'))"
  by (induction ps arbitrary: a) (auto split: prod.splits)

lemma fst_run_spec_append:
  "fst (run_spec spec a (ps @ qs)) = fst (run_spec spec (fst (run_spec spec a ps)) qs)"
  by (simp add: run_spec_append split: prod.splits)

locale frame_handler =
  stream_decoder push inv pending capacity frame good accept
  for push :: "'d \<Rightarrow> u8 \<Rightarrow> ('d \<times> 'r option) option" and inv pending capacity
    and frame :: "'p \<Rightarrow> u8 list" and good accept +
  fixes get :: "'s \<Rightarrow> 'd"
    and put :: "'d \<Rightarrow> 's \<Rightarrow> 's"
    and handle :: "'s \<Rightarrow> 'r \<Rightarrow> ('s \<times> 'out) option"
    and rel :: "'s \<Rightarrow> 'a \<Rightarrow> bool"
    and spec :: "'a \<Rightarrow> 'p \<Rightarrow> 'a \<times> 'out"
    and failed :: "'r \<Rightarrow> 'out option"
  assumes get_put: "get (put d s) = d"
    and rel_put: "rel s a \<Longrightarrow> inv d \<Longrightarrow> rel (put d s) a"
    and rel_inv: "rel s a \<Longrightarrow> inv (get s)"
    and handle_frame: "rel s a \<Longrightarrow> good p \<Longrightarrow> spec a p = (a', out) \<Longrightarrow>
      \<exists>s'. handle s (accept p) = Some (s', out) \<and> rel s' a' \<and> get s' = get s"
    and handle_error: "rel s a \<Longrightarrow> failed r = Some out \<Longrightarrow> handle s r = Some (s, out)"
    and push_outcome: "inv d \<Longrightarrow> push d b = Some (d', Some r) \<Longrightarrow>
      (\<exists>p. good p \<and> r = accept p) \<or> (\<exists>out. failed r = Some out)"
begin

abbreviation byte_step :: "'s \<Rightarrow> u8 \<Rightarrow> ('s \<times> 'out option) option" where
  "byte_step \<equiv> framed push get put handle"

text \<open>One byte never panics, and it acts as no packet or as one.\<close>

lemma byte_refines:
  assumes "rel s a"
  shows "\<exists>s' out ps. byte_step s b = Some (s', out) \<and> rel s' (fst (run_spec spec a ps)) \<and>
    (\<forall>p \<in> set ps. good p) \<and> (\<exists>d r. push (get s) b = Some (d, r) \<and> get s' = d)"
proof -
  obtain d r where push: "push (get s) b = Some (d, r)" "inv d"
    using push_total [OF rel_inv [OF assms]] by blast
  then have rel: "rel (put d s) a" using rel_put [OF assms] by blast
  show ?thesis
  proof (cases r)
    case None
    with push rel get_put show ?thesis by (auto simp: framed_def intro!: exI [of _ "[]"])
  next
    case (Some res)
    consider p where "good p" "res = accept p" | out where "failed res = Some out"
      using push_outcome [OF rel_inv [OF assms]] push(1) Some by blast
    then show ?thesis
    proof cases
      case 1
      obtain a' out where "spec a p = (a', out)" by fastforce
      moreover from this obtain s' where "handle (put d s) (accept p) = Some (s', out)" "rel s' a'"
        "get s' = get (put d s)"
        using handle_frame [OF rel 1(1)] by blast
      ultimately show ?thesis
        using push Some 1 get_put by (auto simp: framed_def intro!: exI [of _ "[p]"])
    next
      case 2
      with handle_error [OF rel] push Some rel get_put show ?thesis
        by (auto simp: framed_def intro!: exI [of _ "[]"])
    qed
  qed
qed

lemma feed_refines:
  assumes "rel s a"
  shows "\<exists>s' outs ps. feed byte_step s bs = Some (s', outs) \<and> rel s' (fst (run_spec spec a ps)) \<and>
    (\<forall>p \<in> set ps. good p) \<and> (\<exists>rs. feed push (get s) bs = Some (get s', rs))"
  using assms
proof (induction bs arbitrary: s a)
  case Nil
  then show ?case by (auto intro!: exI [of _ "[]"])
next
  case (Cons b bs)
  obtain s1 out ps d r where s1: "byte_step s b = Some (s1, out)" "rel s1 (fst (run_spec spec a ps))"
    "\<forall>p \<in> set ps. good p" "push (get s) b = Some (d, r)" "get s1 = d"
    using byte_refines [OF Cons.prems] by blast
  obtain s2 outs qs rs where "feed byte_step s1 bs = Some (s2, outs)"
    "rel s2 (fst (run_spec spec (fst (run_spec spec a ps)) qs))" "\<forall>p \<in> set qs. good p"
    "feed push (get s1) bs = Some (get s2, rs)"
    using Cons.IH [OF s1(2)] by blast
  with s1 show ?case
    by (auto simp: run_spec_append split: prod.splits intro!: exI [of _ "ps @ qs"])
qed

lemma body_silent:
  assumes "rel s a" and "pending (get s) = Some xs" and "UART_DELIMITER \<notin> set body"
    and "length xs + length body \<le> capacity"
  shows "\<exists>s'. feed byte_step s body = Some (s', []) \<and> rel s' a \<and> pending (get s') = Some (xs @ body)"
  using assms
proof (induction body arbitrary: s xs)
  case (Cons b body)
  obtain d where d: "push (get s) b = Some (d, None)" "inv d" "pending d = Some (xs @ [b])"
    using push_data [OF rel_inv [OF Cons.prems(1)], of b xs] Cons.prems by auto
  have "rel (put d s) a" "pending (get (put d s)) = Some (xs @ [b])"
    using rel_put [OF Cons.prems(1) d(2)] d(3) by (simp_all add: get_put)
  from Cons.IH [OF this] Cons.prems d(1) show ?case
    by (auto simp: framed_def)
qed simp

lemma frame_refines:
  assumes "rel s a" and "pending (get s) = Some []" and "good p"
  shows "\<exists>s'. feed byte_step s (frame p) = Some (s', [snd (spec a p)]) \<and> rel s' (fst (spec a p)) \<and>
    pending (get s') = Some []"
proof -
  obtain body where f: "frame p = body @ [UART_DELIMITER]" "body \<noteq> []" "UART_DELIMITER \<notin> set body"
    "length body \<le> capacity"
    using frame_shape [OF assms(3)] by blast
  obtain s1 where s1: "feed byte_step s body = Some (s1, [])" "rel s1 a" "pending (get s1) = Some body"
    using body_silent [OF assms(1,2) f(3)] f(4) by auto
  obtain d where d: "push (get s1) UART_DELIMITER = Some (d, Some (accept p))" "inv d" "pending d = Some []"
    using push_end [OF rel_inv [OF s1(2)] s1(3) f(2)] f(1) assms(3) by blast
  obtain s2 where "handle (put d s1) (accept p) = Some (s2, snd (spec a p))" "rel s2 (fst (spec a p))"
    "get s2 = d"
    using handle_frame [OF rel_put [OF s1(2) d(2)] assms(3)] by (metis get_put prod.collapse)
  with s1 d f show ?thesis by (auto simp: feed_append framed_def)
qed

text \<open>The frames of packets act as the packets, in order.\<close>

theorem frames_refine:
  assumes "rel s a" and "pending (get s) = Some []" and "\<forall>p \<in> set ps. good p"
  shows "\<exists>s'. feed byte_step s (concat (map frame ps)) = Some (s', snd (run_spec spec a ps)) \<and>
    rel s' (fst (run_spec spec a ps)) \<and> pending (get s') = Some []"
  using assms
proof (induction ps arbitrary: s a)
  case (Cons p ps)
  then obtain s1 where "feed byte_step s (frame p) = Some (s1, [snd (spec a p)])"
    "rel s1 (fst (spec a p))" "pending (get s1) = Some []"
    using frame_refines by (metis list.set_intros(1))
  moreover from Cons.IH [OF this(2,3)] Cons.prems obtain s2 where
    "feed byte_step s1 (concat (map frame ps)) = Some (s2, snd (run_spec spec (fst (spec a p)) ps))"
    "rel s2 (fst (run_spec spec (fst (spec a p)) ps))" "pending (get s2) = Some []"
    by auto
  ultimately show ?case
    by (auto simp: feed_append split: prod.splits)
qed simp

text \<open>After any noise and one delimiter, too; the noise itself acts as some packets.\<close>

theorem noise_then_frames:
  assumes "rel s a" and "\<forall>p \<in> set ps. good p"
  shows "\<exists>s' outs qs. (\<forall>q \<in> set qs. good q) \<and>
    feed byte_step s (noise @ [UART_DELIMITER] @ concat (map frame ps)) =
      Some (s', outs @ snd (run_spec spec (fst (run_spec spec a qs)) ps)) \<and>
    rel s' (fst (run_spec spec a (qs @ ps)))"
proof -
  obtain s1 outs qs rs where s1: "feed byte_step s (noise @ [UART_DELIMITER]) = Some (s1, outs)"
    "rel s1 (fst (run_spec spec a qs))" "\<forall>q \<in> set qs. good q"
    "feed push (get s) (noise @ [UART_DELIMITER]) = Some (get s1, rs)"
    using feed_refines [OF assms(1)] by blast
  moreover have "pending (get s1) = Some []"
    using feed_resync [OF rel_inv [OF assms(1)], of "[]" noise] s1(4) by auto
  ultimately obtain s2 where "feed byte_step s1 (concat (map frame ps)) =
      Some (s2, snd (run_spec spec (fst (run_spec spec a qs)) ps))"
    "rel s2 (fst (run_spec spec (fst (run_spec spec a qs)) ps))"
    using frames_refine [OF _ _ assms(2)] by blast
  moreover from this(1) have "feed byte_step s ((noise @ [UART_DELIMITER]) @ concat (map frame ps)) =
      Some (s2, outs @ snd (run_spec spec (fst (run_spec spec a qs)) ps))"
    using s1(1) unfolding feed_append [of _ _ "noise @ [UART_DELIMITER]"] by simp
  ultimately show ?thesis
    using s1(3) by (intro exI [of _ s2] exI [of _ outs] exI [of _ qs]) (simp add: fst_run_spec_append)
qed

end

end
