(* ===== verification/Daemon.thy ===== *)
theory Daemon
  imports OperatorButton ServiceRequests FrameHandler
begin

text \<open>
  \<open>src/robot_daemon.rs\<close>: the event loop that joins the button, the frame decoder, the robot service
  and the frame encoder. The environment of one iteration (the button reading, the bytes that
  arrived, the instants) is the record \<open>loop_input\<close>; the writer, the flush and the serializers are
  the functions of \<open>daemon_env\<close>. An error that ends the loop is \<open>Inl\<close>, a panic is \<open>None\<close>. The signal
  handler is the end of the list of inputs, and the observer of a hub is the log \<open>dm_observed\<close>.
\<close>

section \<open>State and environment\<close>

datatype observation =
    ObservedStatus status_snapshot | ObservedRequest received_packet | ObservedMessages "service_message list"

record ('d, 's, 'w) daemon =
  dm_decoder :: uart_stream_decoder
  dm_encoder :: uart_frame_encoder
  dm_writer :: "'w option"
  dm_service :: "('d, 's) service"
  dm_button :: "operator_button option"
  dm_observed :: "observation list option"

record ('w, 'pe) daemon_env =
  write_all :: "'w \<Rightarrow> u8 list \<Rightarrow> bool \<times> 'w"
  flush :: "'w \<Rightarrow> bool \<times> 'w"
  ser_response :: "response_payload \<Rightarrow> u8 list \<Rightarrow> ('pe + nat) \<times> u8 list"
  ser_event :: "event_message \<Rightarrow> u8 list \<Rightarrow> ('pe + nat) \<times> u8 list"

datatype uart_event = UartBytes "u8 list" | UartReadError | UartTimeout | UartDisconnected

record loop_input =
  li_button :: "string + bool"
  li_button_now :: nat
  li_inbound :: "u8 list list"
  li_uart :: "uart_event option"
  li_now :: nat
  li_poll :: try_recv

type_synonym ('d, 's, 'w) loop_result = "((string + unit) \<times> ('d, 's, 'w) daemon) option"

definition next_step :: "('d, 's, 'w) loop_result \<Rightarrow>
    (('d, 's, 'w) daemon \<Rightarrow> ('d, 's, 'w) loop_result) \<Rightarrow> ('d, 's, 'w) loop_result" where
  "next_step r f = do {
     (r, d) \<leftarrow> r;
     (case r of Inl e \<Rightarrow> Some (Inl e, d) | Inr _ \<Rightarrow> f d) }"

definition observe :: "observation \<Rightarrow> ('d, 's, 'w) daemon \<Rightarrow> ('d, 's, 'w) daemon" where
  "observe ob d = d\<lparr> dm_observed := map_option (\<lambda>log. log @ [ob]) (dm_observed d) \<rparr>"

section \<open>Writing\<close>

fun write_frames :: "('w, 'pe) daemon_env \<Rightarrow> service_message list \<Rightarrow> uart_frame_encoder \<Rightarrow> 'w \<Rightarrow>
    ((string + unit) \<times> uart_frame_encoder \<times> 'w) option" where
  "write_frames E [] encoder w =
     (case flush E w of (ok, w) \<Rightarrow>
        Some (if ok then Inr () else Inl ''failed to flush UART responses'', encoder, w))"
| "write_frames E (message # messages) encoder w = do {
     (r, encoder) \<leftarrow> encode_uart (ser_response E) (ser_event E) message encoder;
     (case r of
        Inl e \<Rightarrow> Some (Inl ''frame'', encoder, w)
      | Inr frame \<Rightarrow> (case write_all E w frame of
          (True, w) \<Rightarrow> write_frames E messages encoder w
        | (False, w) \<Rightarrow> Some (Inl ''failed to write UART frame'', encoder, w))) }"

definition write_messages :: "('w, 'pe) daemon_env \<Rightarrow> service_message list \<Rightarrow>
    ('d, 's, 'w) daemon \<Rightarrow> ('d, 's, 'w) loop_result" where
  "write_messages E messages d =
     (case dm_writer d of
        None \<Rightarrow> Some (Inr (), d)
      | Some w \<Rightarrow> do {
          (r, encoder, w) \<leftarrow> write_frames E messages (dm_encoder d) w;
          Some (r, d\<lparr> dm_encoder := encoder, dm_writer := Some w \<rparr>) })"

section \<open>One iteration\<close>

definition button_part :: "('d, 's) backend \<Rightarrow> ('w, 'pe) daemon_env \<Rightarrow> loop_input \<Rightarrow>
    ('d, 's, 'w) daemon \<Rightarrow> ('d, 's, 'w) loop_result" where
  "button_part B E i d =
     (case dm_button d of
        None \<Rightarrow> Some (Inr (), d)
      | Some button \<Rightarrow>
         (case poll button (li_button i) (svc_status (dm_service d)) (li_button_now i) of
            (Inl e, button) \<Rightarrow> Some (Inl ''failed to read operator button'', d\<lparr> dm_button := Some button \<rparr>)
          | (Inr None, button) \<Rightarrow> Some (Inr (), d\<lparr> dm_button := Some button \<rparr>)
          | (Inr (Some command), button) \<Rightarrow> do {
              ((outcome, messages), s) \<leftarrow> handle_local_command B command (dm_service d);
              next_step
                (write_messages E messages
                  (d\<lparr> dm_button := Some (command_finished button command outcome), dm_service := s \<rparr>))
                (\<lambda>d. Some (Inr (), observe (ObservedStatus (svc_status (dm_service d)))
                   (observe (ObservedMessages messages) d))) }))"

fun handle_bytes :: "('d, 's) backend \<Rightarrow> ('w, 'pe) daemon_env \<Rightarrow> u8 list \<Rightarrow>
    ('d, 's, 'w) daemon \<Rightarrow> ('d, 's, 'w) loop_result" where
  "handle_bytes B E [] d = Some (Inr (), d)"
| "handle_bytes B E (byte # bytes) d = do {
     (decoder, r) \<leftarrow> push (dm_decoder d) byte;
     let d = d\<lparr> dm_decoder := decoder \<rparr>;
     (case r of
        Some (Inr packet) \<Rightarrow> do {
          let d = observe (ObservedRequest packet) d;
          (messages, s) \<leftarrow> handle_packet B packet (dm_service d);
          next_step (write_messages E messages (d\<lparr> dm_service := s \<rparr>))
            (\<lambda>d. handle_bytes B E bytes (observe (ObservedMessages messages) d)) }
      | Some (Inl e) \<Rightarrow> handle_bytes B E bytes d
      | None \<Rightarrow> handle_bytes B E bytes d) }"

definition uart_part :: "('d, 's) backend \<Rightarrow> ('w, 'pe) daemon_env \<Rightarrow> uart_event option \<Rightarrow>
    ('d, 's, 'w) daemon \<Rightarrow> ('d, 's, 'w) loop_result" where
  "uart_part B E ev d =
     (case ev of
        Some (UartBytes bytes) \<Rightarrow> handle_bytes B E bytes d
      | Some UartReadError \<Rightarrow> Some (Inl ''UART reader failed'', d)
      | Some UartTimeout \<Rightarrow> Some (Inr (), d)
      | Some UartDisconnected \<Rightarrow> Some (Inl ''UART reader stopped'', d)
      | None \<Rightarrow> Some (Inr (), d))"

definition tick_part :: "('d, 's) backend \<Rightarrow> ('w, 'pe) daemon_env \<Rightarrow> loop_input \<Rightarrow>
    ('d, 's, 'w) daemon \<Rightarrow> ('d, 's, 'w) loop_result" where
  "tick_part B E i d = do {
     (messages, s) \<leftarrow> tick B (li_now i) (li_poll i) (dm_service d);
     next_step (write_messages E messages (d\<lparr> dm_service := s \<rparr>))
       (\<lambda>d. Some (Inr (), observe (ObservedMessages messages)
          (observe (ObservedStatus (svc_status (dm_service d))) d))) }"

definition inbound :: "loop_input \<Rightarrow> ('d, 's, 'w) daemon \<Rightarrow> u8 list" where
  "inbound i d = (if dm_observed d = None then [] else concat (li_inbound i))"

definition iteration :: "('d, 's) backend \<Rightarrow> ('w, 'pe) daemon_env \<Rightarrow> loop_input \<Rightarrow>
    ('d, 's, 'w) daemon \<Rightarrow> ('d, 's, 'w) loop_result" where
  "iteration B E i d =
     next_step (button_part B E i d) (\<lambda>d.
     next_step (handle_bytes B E (inbound i d) d) (\<lambda>d.
     next_step (uart_part B E (li_uart i) d) (\<lambda>d.
     tick_part B E i d)))"

fun run_event_loop :: "('d, 's) backend \<Rightarrow> ('w, 'pe) daemon_env \<Rightarrow> loop_input list \<Rightarrow>
    ('d, 's, 'w) daemon \<Rightarrow> ('d, 's, 'w) loop_result" where
  "run_event_loop B E [] d = Some (Inr (), d)"
| "run_event_loop B E (i # is) d = next_step (iteration B E i d) (run_event_loop B E is)"

definition run_uart_daemon :: "('d, 's) backend \<Rightarrow> ('w, 'pe) daemon_env \<Rightarrow> loop_input list \<Rightarrow>
    'w option \<Rightarrow> operator_button option \<Rightarrow> bool \<Rightarrow> ('d, 's) service \<Rightarrow> ('d, 's, 'w) loop_result" where
  "run_uart_daemon B E is writer button hub s = do {
     let d = \<lparr> dm_decoder = default_decoder, dm_encoder = default_encoder, dm_writer = writer,
               dm_service = s, dm_button = button, dm_observed = (if hub then Some [] else None) \<rparr>;
     let d = observe (ObservedStatus (svc_status s)) d;
     (run_result, d) \<leftarrow> run_event_loop B E is d;
     (case shutdown B (dm_service d) of
        Done s \<Rightarrow> Some (run_result, d\<lparr> dm_service := s \<rparr>)
      | Failed e s \<Rightarrow> Some (Inl (case run_result of
            Inr _ \<Rightarrow> ''failed to disable outputs on shutdown''
          | Inl _ \<Rightarrow> ''daemon failed and outputs could not be disabled''), d\<lparr> dm_service := s \<rparr>)
      | Panicked \<Rightarrow> None) }"

end
