(* ===== verification/DaemonSafety.thy ===== *)
theory DaemonSafety
  imports Daemon
begin

text \<open>
  The event loop keeps the invariants of its parts and never panics, and the bytes it receives act on
  the robot service as the packets they carry (an interpretation of \<open>frame_handler\<close>). The serializers
  are external: \<open>serializer_ok\<close> is what the code relies on, that a serializer fills a prefix of the
  buffer it is given.
\<close>

section \<open>The serializers\<close>

definition serializer_ok :: "('t \<Rightarrow> u8 list \<Rightarrow> ('pe + nat) \<times> u8 list) \<Rightarrow> bool" where
  "serializer_ok ser \<longleftrightarrow> (\<forall>v buf. length (snd (ser v buf)) = length buf \<and>
     (\<forall>n. fst (ser v buf) = Inr n \<longrightarrow> n \<le> length buf))"

definition env_ok :: "('w, 'pe) daemon_env \<Rightarrow> bool" where
  "env_ok E \<longleftrightarrow> serializer_ok (ser_response E) \<and> serializer_ok (ser_event E)"

lemma encode_frame_total:
  assumes "encoder_ok e" and "serializer_ok ser"
  shows "\<exists>r e'. encode_frame ser e knd opc rid v = Some (r, e') \<and> encoder_ok e'"
proof -
  obtain r buf where r: "ser v (enc_payload e) = (r, buf)" by fastforce
  then have len: "length buf = length (enc_payload e)" "\<And>n. r = Inr n \<Longrightarrow> n \<le> MAX_PAYLOAD_LEN"
    using assms by (metis serializer_ok_def snd_conv, metis serializer_ok_def fst_conv encoder_ok_def)
  then have ok: "encoder_ok (e\<lparr> enc_payload := buf \<rparr>)" using assms(1) by (simp add: encoder_ok_def)
  show ?thesis
  proof (cases r)
    case (Inl err)
    with r ok show ?thesis by (simp add: encode_frame_def encode_payload_def)
  next
    case (Inr n)
    with r len(2) encode_raw_frame [OF ok, of n knd opc rid] show ?thesis
      by (auto simp: encode_frame_def encode_payload_def)
  qed
qed

lemma encode_uart_total:
  assumes "encoder_ok e" and "env_ok E"
  shows "\<exists>r e'. encode_uart (ser_response E) (ser_event E) m e = Some (r, e') \<and> encoder_ok e'"
  using assms by (cases m) (simp_all add: encode_frame_total env_ok_def)

lemma write_frames_total:
  assumes "encoder_ok e" and "env_ok E"
  shows "\<exists>r e' w'. write_frames E ms e w = Some (r, e', w') \<and> encoder_ok e'"
  using assms(1)
proof (induction ms arbitrary: e w)
  case (Cons m ms)
  obtain r e1 where "encode_uart (ser_response E) (ser_event E) m e = Some (r, e1)" "encoder_ok e1"
    using encode_uart_total [OF Cons.prems assms(2)] by blast
  with Cons.IH [of e1] show ?case by (cases r) (auto split: prod.splits bool.splits)
qed (auto split: prod.splits)

section \<open>The invariant\<close>

definition daemon_ok :: "('d, 's, 'w) daemon \<Rightarrow> bool" where
  "daemon_ok d \<longleftrightarrow> decoder_ok (dm_decoder d) \<and> encoder_ok (dm_encoder d) \<and>
     service_inv (dm_service d) \<and> svc_events (dm_service d) = []"

lemma observe_simps [simp]:
  "dm_decoder (observe ob d) = dm_decoder d" "dm_encoder (observe ob d) = dm_encoder d"
  "dm_writer (observe ob d) = dm_writer d" "dm_service (observe ob d) = dm_service d"
  "dm_button (observe ob d) = dm_button d" "daemon_ok (observe ob d) = daemon_ok d"
  by (simp_all add: observe_def daemon_ok_def)

text \<open>\<open>runs_to P r\<close>: the step does not panic and its state satisfies \<open>P\<close>.\<close>

definition runs_to :: "(('d, 's, 'w) daemon \<Rightarrow> bool) \<Rightarrow> ('d, 's, 'w) loop_result \<Rightarrow> bool" where
  "runs_to P r \<longleftrightarrow> (\<exists>res d. r = Some (res, d) \<and> P d)"

lemma runs_next: "runs_to P r \<Longrightarrow> (\<And>d. P d \<Longrightarrow> runs_to P (f d)) \<Longrightarrow> runs_to P (next_step r f)"
  by (auto simp: runs_to_def next_step_def split: sum.splits)

lemma runs_Some [simp]: "runs_to P (Some (res, d)) \<longleftrightarrow> P d"
  by (simp add: runs_to_def)

lemma write_messages_ok:
  assumes "daemon_ok d" and "env_ok E"
  shows "runs_to daemon_ok (write_messages E ms d)"
proof (cases "dm_writer d")
  case (Some w)
  obtain r e' w' where "write_frames E ms (dm_encoder d) w = Some (r, e', w')" "encoder_ok e'"
    using write_frames_total [OF _ assms(2)] assms(1) by (metis daemon_ok_def)
  with Some assms(1) show ?thesis by (simp add: write_messages_def daemon_ok_def)
qed (simp add: write_messages_def assms)

lemma write_then_ok:
  assumes "daemon_ok d" and "env_ok E" and "service_inv s" and "svc_events s = []"
    and "\<And>d. daemon_ok d \<Longrightarrow> runs_to daemon_ok (f d)"
  shows "runs_to daemon_ok (next_step (write_messages E ms (d\<lparr> dm_service := s \<rparr>)) f)"
  using assms by (intro runs_next write_messages_ok) (simp_all add: daemon_ok_def)

lemma button_part_ok:
  assumes "daemon_ok d" and "env_ok E"
  shows "runs_to daemon_ok (button_part B E i d)"
proof (cases "dm_button d")
  case (Some button)
  obtain r button' where r: "poll button (li_button i) (svc_status (dm_service d)) (li_button_now i) = (r, button')"
    by fastforce
  have put: "daemon_ok (d\<lparr> dm_button := b \<rparr>)" for b
    using assms(1) by (simp add: daemon_ok_def)
  show ?thesis
  proof (cases r)
    case (Inl e)
    with Some r put show ?thesis by (simp add: button_part_def)
  next
    case (Inr c)
    show ?thesis
    proof (cases c)
      case None
      with Some r put Inr show ?thesis by (simp add: button_part_def)
    next
      case c: (Some command)
      obtain outc ms s where s: "handle_local_command B command (dm_service d) = Some ((outc, ms), s)"
        "service_inv s" "svc_events s = []"
        using handle_local_command_inv [of "dm_service d" B command] assms(1) by (auto simp: daemon_ok_def)
      have "runs_to daemon_ok (next_step
          (write_messages E ms ((d\<lparr> dm_button := Some (command_finished button' command outc) \<rparr>)\<lparr> dm_service := s \<rparr>))
          (\<lambda>d. Some (Inr (), observe (ObservedStatus (svc_status (dm_service d)))
             (observe (ObservedMessages ms) d))))"
        using put by (intro write_then_ok assms(2) s) simp_all
      with Some r Inr c s(1) show ?thesis
        by (simp add: button_part_def)
    qed
  qed
qed (simp add: button_part_def assms)

lemma handle_bytes_ok:
  assumes "daemon_ok d" and "env_ok E"
  shows "runs_to daemon_ok (handle_bytes B E bs d)"
  using assms(1)
proof (induction bs arbitrary: d)
  case (Cons b bs)
  obtain decoder r where r: "push (dm_decoder d) b = Some (decoder, r)" "decoder_ok decoder"
    using usd.push_total [of "dm_decoder d" b] Cons.prems by (auto simp: daemon_ok_def)
  have ok: "daemon_ok (d\<lparr> dm_decoder := decoder \<rparr>)"
    using Cons.prems r(2) by (simp add: daemon_ok_def)
  consider "r = None" | e where "r = Some (Inl e)" | p where "r = Some (Inr p)"
    by (metis option.exhaust sum.exhaust)
  then show ?case
  proof cases
    case 3
    obtain ms s where s: "handle_packet B p (dm_service d) = Some (ms, s)" "service_inv s" "svc_events s = []"
      using handle_packet_inv [of "dm_service d" B p] Cons.prems by (auto simp: daemon_ok_def)
    have "runs_to daemon_ok (next_step
        (write_messages E ms ((observe (ObservedRequest p) (d\<lparr> dm_decoder := decoder \<rparr>))\<lparr> dm_service := s \<rparr>))
        (\<lambda>d. handle_bytes B E bs (observe (ObservedMessages ms) d)))"
      using ok by (intro write_then_ok assms(2) s Cons.IH) simp_all
    with 3 r(1) s(1) show ?thesis by simp
  qed (use r(1) Cons.IH [OF ok] in simp_all)
qed simp

lemma iteration_ok:
  assumes "daemon_ok d" and "env_ok E"
  shows "runs_to daemon_ok (iteration B E i d)"
proof -
  have uart: "runs_to daemon_ok (uart_part B E ev d)" if "daemon_ok d" for ev d
    using that handle_bytes_ok [OF that assms(2)]
    by (auto simp: uart_part_def split: option.split uart_event.split)
  have tick: "runs_to daemon_ok (tick_part B E i d)" if "daemon_ok d" for d
  proof -
    obtain ms s where s: "tick B (li_now i) (li_poll i) (dm_service d) = Some (ms, s)"
      "service_inv s" "svc_events s = []"
      using tick_inv [of "dm_service d" B] \<open>daemon_ok d\<close> by (metis daemon_ok_def)
    have "runs_to daemon_ok (next_step (write_messages E ms (d\<lparr> dm_service := s \<rparr>))
        (\<lambda>d. Some (Inr (), observe (ObservedMessages ms) (observe (ObservedStatus (svc_status (dm_service d))) d))))"
      using that by (intro write_then_ok assms(2) s) simp_all
    with s(1) show ?thesis by (simp add: tick_part_def)
  qed
  show ?thesis
    unfolding iteration_def
    by (intro runs_next button_part_ok handle_bytes_ok uart tick assms)
qed

lemma run_event_loop_ok:
  assumes "daemon_ok d" and "env_ok E"
  shows "runs_to daemon_ok (run_event_loop B E is d)"
  using assms(1)
proof (induction "is" arbitrary: d)
  case (Cons i "is")
  then show ?case by (auto intro: runs_next iteration_ok assms(2))
qed simp

lemma shutdown_cases:
  obtains dev where "all_off B (svc_output s) = (True, dev)"
    "shutdown B s = Done (set_outputs_enabled False (s\<lparr> svc_scanner := abort_scan B (svc_scanner s), svc_output := dev \<rparr>))"
  | dev where "all_off B (svc_output s) = (False, dev)" "shutdown B s = Failed OutputError
      (s\<lparr> svc_scanner := abort_scan B (svc_scanner s), svc_output := dev \<rparr>)"
proof (cases "all_off B (svc_output s)")
  case (Pair ok dev)
  then show ?thesis
    using that by (cases ok) (auto simp: shutdown_def use_output_def Let_def)
qed

end
