(* ===== verification/SimSession.thy ===== *)
theory SimSession
  imports SimCommands SimState SimScanner DaemonSafety
begin

text \<open>
  One browser session of \<open>src/sim_server.rs\<close>: the handler of \<open>/command\<close>, the observer that forwards
  daemon telemetry, the pump that applies it to the display, and the loop of the session's daemon.
  Broadcasts are data; waiting for a response is split into the part before (\<open>post_begin\<close>) and after
  (\<open>post_finish\<close>). \<open>None\<close> is a panic.
\<close>

section \<open>The simulated hardware\<close>

text \<open>
  \<open>SimPwmOutput\<close> accepts everything; \<open>UiCubeScanner\<close> reads the shared facelets, the state of the
  scanner, and has the default methods of \<open>FaceScanner\<close>. The solver and the codec stay parameters.
\<close>

definition sim_backend :: "('d, 's) backend \<Rightarrow> (unit, u8 list) backend" where
  "sim_backend B = \<lparr> set_channels = (\<lambda>d cs. (True, d)), disable_channels = (\<lambda>d cs. (True, d)),
     all_off = (\<lambda>d. (True, d)), available = (\<lambda>_. True), begin_scan = (\<lambda>s r. (True, s)),
     capture_face = (\<lambda>s f. (Inr (ui_capture s f), s)), finish_scan = (\<lambda>s st. s), abort_scan = (\<lambda>s. s),
     min2phase = min2phase B, take_session = take_session B, take_solve = take_solve B,
     take_execute = take_execute B, take_moves = take_moves B \<rparr>"

section \<open>Telemetry\<close>

datatype sim_update =
    StatusUpdate status_snapshot
  | EventUpdate u16 event_message
  | ResponseUpdate u32 u16 response_payload

record sim_engine =
  en_sent :: "sim_update list"
  en_last :: "status_snapshot option"

definition new_engine :: sim_engine where
  "new_engine = \<lparr> en_sent = [], en_last = None \<rparr>"

definition send_update :: "sim_update \<Rightarrow> sim_engine \<Rightarrow> sim_engine" where
  "send_update u e = e\<lparr> en_sent := en_sent e @ [u] \<rparr>"

definition observe_status :: "status_snapshot \<Rightarrow> sim_engine \<Rightarrow> sim_engine" where
  "observe_status status e =
     (if en_last e \<noteq> Some status then send_update (StatusUpdate status) (e\<lparr> en_last := Some status \<rparr>) else e)"

fun message_update :: "service_message \<Rightarrow> sim_update" where
  "message_update (service_message.Response r) =
     ResponseUpdate (rsp_request_id r) (response_u16 (rsp_opcode r)) (rsp_payload r)"
| "message_update (service_message.Event e) = EventUpdate (event_u16 (event_opcode_of e)) e"

definition observe_messages :: "service_message list \<Rightarrow> sim_engine \<Rightarrow> sim_engine" where
  "observe_messages messages e = fold (\<lambda>m. send_update (message_update m)) messages e"

section \<open>The session\<close>

definition FIRST_HTTP_REQUEST_ID :: u32 where "FIRST_HTTP_REQUEST_ID = 0x01000000"
definition LAST_HTTP_REQUEST_ID :: u32 where "LAST_HTTP_REQUEST_ID = 0x0fffffff"

definition next_http_id :: "u32 \<Rightarrow> u32" where
  "next_http_id i = (if i \<ge> LAST_HTTP_REQUEST_ID then FIRST_HTTP_REQUEST_ID else i + 1)"

datatype 'f broadcast =
    BroadcastEvent u16 event_message
  | BroadcastCollision "'f sim_event"
  | BroadcastCube "server_cube \<times> u8 list"
  | BroadcastStatus "'f status_view"

record 'f session_state =
  sn_sim :: "'f sim_state"
  sn_broadcasts :: "'f broadcast list"
  sn_inbound :: "u8 list list"
  sn_responders :: "u32 list"
  sn_answers :: "(u32 \<times> response_payload) list"
  sn_encoder :: uart_frame_encoder
  sn_next_request_id :: u32
  sn_animation_speed :: u32

definition new_session :: "'f f32_ops \<Rightarrow> stand_calibration \<Rightarrow> 'f session_state" where
  "new_session F calibration =
     \<lparr> sn_sim = new_sim F calibration new_facelets, sn_broadcasts = [],
       sn_inbound = [], sn_responders = [], sn_answers = [], sn_encoder = default_encoder,
       sn_next_request_id = FIRST_HTTP_REQUEST_ID, sn_animation_speed = 1 \<rparr>"

section \<open>The pump\<close>

definition pump_update :: "'f f32_ops \<Rightarrow> nat \<Rightarrow> sim_update \<Rightarrow> 'f session_state \<Rightarrow> 'f session_state option" where
  "pump_update F now update s =
     (case update of
        StatusUpdate status \<Rightarrow> map_option (\<lambda>sim. s\<lparr> sn_sim := sim \<rparr>) (sim_apply_status F now status (sn_sim s))
      | EventUpdate opcode event \<Rightarrow>
          Some (s\<lparr> sn_broadcasts := sn_broadcasts s @ [BroadcastEvent opcode event] \<rparr>)
      | ResponseUpdate request_id opcode content \<Rightarrow>
          Some (if request_id \<in> set (sn_responders s)
            then s\<lparr> sn_responders := removeAll request_id (sn_responders s),
                    sn_answers := sn_answers s @ [(request_id, content)] \<rparr>
            else s))"

definition pump_display :: "'f f32_ops \<Rightarrow> nat \<Rightarrow> 'f session_state \<Rightarrow> 'f session_state option" where
  "pump_display F now s =
     (let (events, sim) = collisions F now (sn_sim s) in
      case take_cube_event sim of
        None \<Rightarrow> None
      | Some (cube, sim) \<Rightarrow>
          let shows = (any_axis_moving sim \<or> ss_dirty sim \<and> ss_status sim \<noteq> None) in
          Some (s\<lparr> sn_sim := (if shows then sim\<lparr> ss_dirty := False \<rparr> else sim),
            sn_broadcasts := sn_broadcasts s @ map BroadcastCollision events @
              (case cube of None \<Rightarrow> [] | Some c \<Rightarrow> [BroadcastCube c]) @
              (if shows then [BroadcastStatus (status_view F now sim)] else []) \<rparr>))"

text \<open>One round of \<open>run_pump\<close>: \<open>None\<close> is a timeout of the channel.\<close>

definition pump_round :: "'f f32_ops \<Rightarrow> nat \<Rightarrow> sim_update option \<Rightarrow> 'f session_state \<Rightarrow> 'f session_state option" where
  "pump_round F now update s = do {
     s \<leftarrow> (case update of None \<Rightarrow> Some s | Some u \<Rightarrow> pump_update F now u s);
     pump_display F now s }"

section \<open>Commands over HTTP\<close>

datatype 'pe http_error =
    BadCommand command_error
  | BadScramble sequence_error
  | BadFrame "'pe command_encode_error"
  | RobotMoving
  | NotAccepting
  | NoResponse

datatype 'pe http_reply =
    HttpError nat "'pe http_error"
  | SpeedSet u32
  | ScrambleLoaded u8 "server_cube \<times> u8 list"
  | CommandAnswered response_payload

datatype 'pe post_result = Replied "'pe http_reply" | Waiting u32 sim_command

definition load_ready :: "'f sim_state \<Rightarrow> bool" where
  "load_ready sim = (case ss_status sim of None \<Rightarrow> False
     | Some status \<Rightarrow> st_controller status = controller_state.Ready \<and> st_active_operation status = None)"

definition post_scramble :: "string \<Rightarrow> 'f session_state \<Rightarrow> ('pe post_result \<times> 'f session_state) option" where
  "post_scramble sequence s = do {
     r \<leftarrow> sequence_moves sequence;
     (case r of
        Inl e \<Rightarrow> Some (Replied (HttpError 400 (BadScramble e)), s)
      | Inr (moves, move_count) \<Rightarrow>
          if \<not> load_ready (sn_sim s) \<or> any_axis_moving (sn_sim s) then
            Some (Replied (HttpError 409 RobotMoving), s)
          else if length moves < unat move_count then None
          else do {
            sim \<leftarrow> load_scramble (take (unat move_count) moves) (sn_sim s);
            fs \<leftarrow> cube_facelets (ss_cube sim);
            Some (Replied (ScrambleLoaded move_count (ss_cube sim, fs)), s\<lparr> sn_sim := sim \<rparr>) }) }"

definition post_request :: "'pe request_serializers \<Rightarrow> bool \<Rightarrow> sim_command \<Rightarrow> 'f session_state \<Rightarrow>
    ('pe post_result \<times> 'f session_state) option" where
  "post_request S accepting command s =
     (let request_id = sn_next_request_id s;
          s = s\<lparr> sn_next_request_id := next_http_id request_id \<rparr> in do {
      (r, encoder) \<leftarrow> encode_command S (sn_encoder s) request_id command;
      let s = s\<lparr> sn_encoder := encoder \<rparr>;
      (case r of
         Inl e \<Rightarrow> Some (Replied (HttpError 400 (BadFrame e)), s)
       | Inr frame \<Rightarrow>
           if accepting then Some (Waiting request_id command,
             s\<lparr> sn_responders := removeAll request_id (sn_responders s) @ [request_id],
                sn_inbound := sn_inbound s @ [frame] \<rparr>)
           else Some (Replied (HttpError 503 NotAccepting),
             s\<lparr> sn_responders := removeAll request_id (sn_responders s) \<rparr>)) })"

definition post_begin :: "(string \<Rightarrow> string + json) \<Rightarrow> 'pe request_serializers \<Rightarrow> bool \<Rightarrow> string \<Rightarrow> 'f session_state \<Rightarrow>
    ('pe post_result \<times> 'f session_state) option" where
  "post_begin from_str S accepting body s =
     (case parse_command from_str body of
        Inl e \<Rightarrow> Some (Replied (HttpError 400 (BadCommand e)), s)
      | Inr (SetAnimationSpeed multiplier) \<Rightarrow>
          Some (Replied (SpeedSet multiplier), s\<lparr> sn_animation_speed := multiplier,
            sn_sim := set_animation_speed multiplier (sn_sim s) \<rparr>)
      | Inr (LoadScramble sequence) \<Rightarrow> post_scramble sequence s
      | Inr command \<Rightarrow> post_request S accepting command s)"

text \<open>The payload of an accepted operation has a numeric \<open>operation_id\<close>.\<close>

definition has_operation :: "response_payload \<Rightarrow> bool" where
  "has_operation content \<longleftrightarrow> (\<exists>i. content = response_payload.Accepted (Some i))"

definition command_moves :: "sim_command \<Rightarrow> 'f sim_state \<Rightarrow> link_cube_move list option option" where
  "command_moves command sim =
     (case command of
        Moves session sequence \<Rightarrow> do {
          r \<leftarrow> sequence_moves sequence;
          (case r of
             Inl e \<Rightarrow> None
           | Inr (moves, move_count) \<Rightarrow> if length moves < unat move_count then None else Some (Some (take (unat move_count) moves))) }
      | Execute session revision solution_id \<Rightarrow>
          (case ss_status sim of
             None \<Rightarrow> Some None
           | Some status \<Rightarrow>
               let solution = st_solution status in
               if length (sol_moves solution) < unat (sol_move_count solution) then None
               else Some (Some (take (unat (sol_move_count solution)) (sol_moves solution))))
      | _ \<Rightarrow> Some None)"

definition post_finish :: "sim_command \<Rightarrow> response_payload option \<Rightarrow> 'f session_state \<Rightarrow>
    ('pe http_reply \<times> 'f session_state) option" where
  "post_finish command answer s =
     (case answer of
        None \<Rightarrow> Some (HttpError 504 NoResponse, s)
      | Some content \<Rightarrow>
          if \<not> has_operation content then Some (CommandAnswered content, s)
          else do {
            let sim = (if (\<exists>i. command = Scan i) \<or> (\<exists>i. command = Auto i) then clear_last_solution (sn_sim s) else sn_sim s);
            moves \<leftarrow> command_moves command sim;
            sim \<leftarrow> (case moves of None \<Rightarrow> Some sim | Some moves \<Rightarrow> set_visual_moves moves sim);
            Some (CommandAnswered content, s\<lparr> sn_sim := sim \<rparr>) })"

section \<open>The daemon of a session\<close>

record session_daemon =
  sd_service :: "(unit, u8 list) service"
  sd_decoder :: uart_stream_decoder
  sd_engine :: sim_engine
  sd_simulated_now :: nat
  sd_previous_wall :: nat

definition new_daemon :: "stand_calibration \<Rightarrow> u8 list \<Rightarrow> nat \<Rightarrow> nat \<Rightarrow> session_daemon" where
  "new_daemon calibration facelets now wall =
     (let service = with_scanner () calibration facelets in
      \<lparr> sd_service = service, sd_decoder = default_decoder,
        sd_engine = observe_status (svc_status service) new_engine, sd_simulated_now = now,
        sd_previous_wall = wall \<rparr>)"

fun daemon_bytes :: "(unit, u8 list) backend \<Rightarrow> u8 list \<Rightarrow> session_daemon \<Rightarrow> session_daemon option" where
  "daemon_bytes B [] d = Some d"
| "daemon_bytes B (byte # bytes) d = do {
     (decoder, r) \<leftarrow> push (sd_decoder d) byte;
     let d = d\<lparr> sd_decoder := decoder \<rparr>;
     (case r of
        Some (Inr packet) \<Rightarrow> do {
          (messages, s) \<leftarrow> handle_packet B packet (sd_service d);
          daemon_bytes B bytes (d\<lparr> sd_service := s, sd_engine := observe_messages messages (sd_engine d) \<rparr>) }
      | Some (Inl e) \<Rightarrow> daemon_bytes B bytes d
      | None \<Rightarrow> daemon_bytes B bytes d) }"

record daemon_input =
  di_frame :: "u8 list option"
  di_facelets :: "u8 list"
  di_wall :: nat
  di_speed :: u32
  di_poll :: try_recv

text \<open>
  One round of the loop, on a frame or after a timeout. The facelets are shared memory: the scanner
  sees their current value. \<open>mul\<close> is \<open>Duration::mul_f64\<close> with the speed.
\<close>

definition daemon_round :: "(unit, u8 list) backend \<Rightarrow> (nat \<Rightarrow> u32 \<Rightarrow> nat) \<Rightarrow> daemon_input \<Rightarrow>
    session_daemon \<Rightarrow> session_daemon option" where
  "daemon_round B mul i d = do {
     let d = d\<lparr> sd_service := (sd_service d)\<lparr> svc_scanner := di_facelets i \<rparr> \<rparr>;
     d \<leftarrow> (case di_frame i of Some frame \<Rightarrow> daemon_bytes B frame d | None \<Rightarrow> Some d);
     let now = sd_simulated_now d + mul (di_wall i - sd_previous_wall d) (di_speed i);
     (messages, s) \<leftarrow> tick B now (di_poll i) (sd_service d);
     Some (d\<lparr> sd_service := s, sd_simulated_now := now, sd_previous_wall := di_wall i,
       sd_engine := observe_messages messages (observe_status (svc_status s) (sd_engine d)) \<rparr>) }"

text \<open>The rounds until the stop flag is raised or the channel is closed, then the shutdown.\<close>

fun daemon_rounds :: "(unit, u8 list) backend \<Rightarrow> (nat \<Rightarrow> u32 \<Rightarrow> nat) \<Rightarrow> daemon_input list \<Rightarrow>
    session_daemon \<Rightarrow> session_daemon option" where
  "daemon_rounds B mul [] d = Some d"
| "daemon_rounds B mul (i # is) d = do { d \<leftarrow> daemon_round B mul i d; daemon_rounds B mul is d }"

definition run_session_daemon :: "(unit, u8 list) backend \<Rightarrow> (nat \<Rightarrow> u32 \<Rightarrow> nat) \<Rightarrow> daemon_input list \<Rightarrow>
    session_daemon \<Rightarrow> session_daemon option" where
  "run_session_daemon B mul is d = do {
     d \<leftarrow> daemon_rounds B mul is d;
     (case shutdown B (sd_service d) of
        Done s \<Rightarrow> Some (d\<lparr> sd_service := s \<rparr>)
      | Failed e s \<Rightarrow> Some (d\<lparr> sd_service := s \<rparr>)
      | Panicked \<Rightarrow> None) }"

end
