(* ===== verification/SimReplaySafety.thy ===== *)
theory SimReplaySafety
  imports SimReplay ServiceInvariant
begin

text \<open>
  The replay reports a face turn only when the expected one was started on the gripper that owns its
  face and that gripper stopped, one per status and in order, with a half turn in either direction.
  The displayed pose stays a rotation and is the identity in the canonical grip.
\<close>

section \<open>The invariant of the replay\<close>

definition same_turn :: "visual_move \<Rightarrow> visual_move \<Rightarrow> bool" where
  "same_turn m e \<longleftrightarrow> vm_face m = vm_face e \<and> vm_turns m mod 4 = vm_turns e mod 4"

definition turn_amounts :: "visual_move list \<Rightarrow> bool" where
  "turn_amounts ms \<longleftrightarrow> (\<forall>m \<in> set ms. vm_turns m \<in> {-1, 1, 2})"

definition replay_ok :: "visual_replay \<Rightarrow> bool" where
  "replay_ok r \<longleftrightarrow> length (vr_previous_motion r) = 4 \<and> vr_expected_index r \<le> length (vr_expected r) \<and>
     turn_amounts (vr_expected r) \<and>
     (\<forall>a. vr_active r = Some a \<longrightarrow> vr_expected_index r < length (vr_expected r) \<and>
        at_move_index a = vr_expected_index r \<and> at_axis a < 4 \<and>
        same_turn (at_cube_move a) (vr_expected r ! vr_expected_index r))"

text \<open>
  The outcome of a status: nothing completed and the index stays, or the move at the index was
  completed and the index advanced.
\<close>

definition advanced :: "visual_replay \<Rightarrow> visual_replay \<Rightarrow> visual_move option \<Rightarrow> bool" where
  "advanced r r' out \<longleftrightarrow> vr_expected r' = vr_expected r \<and>
     (case out of
        None \<Rightarrow> vr_expected_index r' = vr_expected_index r
      | Some m \<Rightarrow> vr_expected_index r' = vr_expected_index r + 1 \<and>
          vr_expected_index r < length (vr_expected r) \<and>
          same_turn m (vr_expected r ! vr_expected_index r))"

lemma same_turn_refl [simp]: "same_turn m m"
  by (simp add: same_turn_def)

lemma default_replay_ok: "replay_ok default_replay"
  by (simp add: replay_ok_def default_replay_def turn_amounts_def)

lemma set_expected_ok [simp]: "replay_ok (set_expected moves r)"
proof -
  have "visual_turns t \<in> {-1, 1, 2}" for t by (cases t) simp_all
  then show ?thesis
    by (auto simp: replay_ok_def set_expected_def turn_amounts_def visual_move_of_def)
qed

lemma physical_face_some: "axis < 4 \<Longrightarrow> physical_face r axis \<noteq> None"
  by (auto simp: physical_face_def)

lemma half_turn_same:
  assumes "\<bar>p\<bar> = 2" "\<bar>vm_turns e\<bar> = 2" "vm_turns e \<in> {-1, 1, 2}"
  shows "same_turn (e\<lparr> vm_turns := p \<rparr>) e"
proof -
  have "vm_turns e = 2" "p = 2 \<or> p = -2" using assms by auto
  then show ?thesis by (auto simp: same_turn_def)
qed

section \<open>One axis\<close>

lemma start_turn_some: "axis < 4 \<Longrightarrow> start_turn status i sa axis r \<noteq> None"
  using physical_face_some [of axis r]
  by (auto simp: start_turn_def Let_def split: option.splits)

lemma start_turn_ok:
  assumes "start_turn status i sa axis r = Some (r', go)" "replay_ok r" "axis < 4"
  shows "replay_ok r' \<and> vr_expected r' = vr_expected r \<and> vr_expected_index r' = vr_expected_index r \<and>
    vr_previous_motion r' = vr_previous_motion r \<and>
    (vr_active r' = vr_active r \<or> sa = [axis] \<and> (\<exists>a. vr_active r' = Some a \<and> at_axis a = axis))"
proof -
  have half: "\<bar>p\<bar> = 2 \<Longrightarrow> \<bar>vm_turns (vr_expected r ! vr_expected_index r)\<bar> = 2 \<Longrightarrow>
      vr_expected_index r < length (vr_expected r) \<Longrightarrow>
      same_turn ((vr_expected r ! vr_expected_index r)\<lparr> vm_turns := p \<rparr>) (vr_expected r ! vr_expected_index r)" for p
    using assms(2) by (intro half_turn_same) (auto simp: replay_ok_def turn_amounts_def)
  show ?thesis
    using assms half
    by (auto simp: start_turn_def Let_def replay_ok_def split: option.splits if_splits)
qed

text \<open>
  Through the rounds: everything so far advanced at most one move, and once one is completed only an
  axis that is moving can be active.
\<close>

definition rounds_ok :: "status_snapshot \<Rightarrow> visual_replay \<Rightarrow> visual_replay \<times> visual_move option \<Rightarrow> bool" where
  "rounds_ok status r0 rc \<longleftrightarrow> replay_ok (fst rc) \<and> advanced r0 (fst rc) (snd rc) \<and>
     (snd rc \<noteq> None \<longrightarrow> (\<forall>a. vr_active (fst rc) = Some a \<longrightarrow>
        gripper_motion (stand_grippers (st_stand status) ! at_axis a) = Moving))"

lemma finish_turn_ok:
  assumes "rounds_ok status r0 (r, out)" "axis < 4"
  shows "rounds_ok status r0 (finish_turn status axis (r, out))"
proof (cases "vr_active r")
  case None
  then show ?thesis
    using assms by (auto simp: finish_turn_def rounds_ok_def replay_ok_def advanced_def Let_def split: option.splits)
next
  case (Some a)
  let ?stops = "at_axis a = axis \<and> vr_previous_motion r ! axis = Some Moving \<and>
    gripper_motion (stand_grippers (st_stand status) ! axis) \<noteq> Moving"
  show ?thesis
  proof (cases ?stops)
    case True
    with Some assms have "out = None" by (auto simp: rounds_ok_def)
    with True Some assms show ?thesis
      by (auto simp: finish_turn_def rounds_ok_def replay_ok_def advanced_def Let_def)
  next
    case False
    then have "finish_turn status axis (r, out) = (r\<lparr> vr_previous_motion := (vr_previous_motion r)
        [axis := Some (gripper_motion (stand_grippers (st_stand status) ! axis))] \<rparr>, out)"
      using Some by (auto simp: finish_turn_def Let_def)
    then show ?thesis
      using assms(1) by (cases out) (auto simp: rounds_ok_def replay_ok_def advanced_def)
  qed
qed

lemma axis_round_ok:
  assumes "rounds_ok status r0 rc" "axis < 4"
    and sa: "\<And>x. x \<in> set sa \<Longrightarrow> gripper_motion (stand_grippers (st_stand status) ! x) = Moving"
  shows "\<exists>rc'. axis_round status i sa axis rc = Some rc' \<and> rounds_ok status r0 rc'"
proof -
  obtain r out where rc: "rc = (r, out)" by (cases rc)
  obtain r' go where s: "start_turn status i sa axis r = Some (r', go)"
    using start_turn_some [OF assms(2)] by (metis option.exhaust surj_pair)
  have "rounds_ok status r0 (r', out)"
    using start_turn_ok [OF s _ assms(2)] assms(1) sa
    by (cases out) (auto simp: rc rounds_ok_def advanced_def)
  then show ?thesis
    using finish_turn_ok [OF _ assms(2)] s by (cases go) (auto simp: axis_round_def rc)
qed

lemma axis_rounds_ok:
  assumes "rounds_ok status r0 rc" "\<forall>axis \<in> set axes. axis < 4"
    and sa: "\<And>x. x \<in> set sa \<Longrightarrow> gripper_motion (stand_grippers (st_stand status) ! x) = Moving"
  shows "\<exists>rc'. axis_rounds status i sa axes rc = Some rc' \<and> rounds_ok status r0 rc'"
  using assms(1,2)
proof (induction axes arbitrary: rc)
  case (Cons axis axes)
  obtain rc' where "axis_round status i sa axis rc = Some rc'" "rounds_ok status r0 rc'"
    using axis_round_ok [OF Cons.prems(1), of axis sa i] sa Cons.prems(2) by auto
  with Cons show ?case by simp
qed simp

section \<open>One status\<close>

text \<open>The expected moves a status is compared with: those before it, unless it resets them.\<close>

definition replay_base :: "status_snapshot \<Rightarrow> visual_replay \<Rightarrow> visual_replay option" where
  "replay_base status r =
     (case st_active_operation status of
        None \<Rightarrow> Some r
      | Some operation \<Rightarrow> replay_solution operation status (replay_operation operation status r))"

lemma replay_operation_ok: "replay_ok r \<Longrightarrow> replay_ok (replay_operation operation status r)"
  by (auto simp: replay_operation_def replay_ok_def turn_amounts_def Let_def)

lemma replay_solution_ok:
  assumes "replay_ok r" "solution_ok (st_solution status)"
  shows "\<exists>r'. replay_solution operation status r = Some r' \<and> replay_ok r'"
proof -
  have "unat (sol_move_count (st_solution status)) \<le> length (sol_moves (st_solution status))"
    using assms(2) by (auto simp: solution_ok_def solution_validate_iff)
  then show ?thesis
    using assms(1) by (auto simp: replay_solution_def Let_def)
qed

text \<open>The frame does not matter to either.\<close>

lemma replay_operation_frame:
  "replay_operation operation status (r\<lparr> vr_frame_quarters := q \<rparr>) =
     (replay_operation operation status r)\<lparr> vr_frame_quarters := q \<rparr>"
  by (simp add: replay_operation_def Let_def)

lemma replay_solution_frame:
  "replay_solution operation status (r\<lparr> vr_frame_quarters := q \<rparr>) =
     map_option (\<lambda>r. r\<lparr> vr_frame_quarters := q \<rparr>) (replay_solution operation status r)"
  by (auto simp: replay_solution_def Let_def set_expected_def)

lemma replay_status_ok:
  assumes "replay_ok r" "stand_ok (st_stand status)" "solution_ok (st_solution status)"
  shows "\<exists>r0 r' out. replay_base status r = Some r0 \<and> replay_status status r = Some (r', out) \<and>
    replay_ok r' \<and> advanced r0 r' out"
proof -
  let ?r = "if canonical_status status then r\<lparr> vr_frame_quarters := 0 \<rparr> else r"
  have ok: "replay_ok ?r" using assms(1) by (simp add: replay_ok_def)
  have len: "length (motions status) = 4" using assms(2) by (simp add: motions_def stand_ok_def)
  show ?thesis
  proof (cases "st_active_operation status")
    case None
    then show ?thesis
      using assms(1) len by (simp add: replay_base_def replay_status_def advanced_def replay_ok_def)
  next
    case (Some operation)
    obtain r0 where r0: "replay_solution operation status (replay_operation operation status r) = Some r0"
      "replay_ok r0"
      using replay_solution_ok [OF replay_operation_ok [OF assms(1)] assms(3)] by blast
    define r1 where "r1 = (if canonical_status status then r0\<lparr> vr_frame_quarters := 0 \<rparr> else r0)"
    have r1: "replay_solution operation status (replay_operation operation status ?r) = Some r1" "replay_ok r1"
      using r0 by (simp_all add: r1_def replay_operation_frame replay_solution_frame replay_ok_def)
    let ?f = "replay_frame status r1"
    have same: "vr_expected r1 = vr_expected r0 \<and> vr_expected_index r1 = vr_expected_index r0"
      by (simp add: r1_def)
    have f: "replay_ok ?f" "vr_expected ?f = vr_expected r0" "vr_expected_index ?f = vr_expected_index r0"
      using r1(2) same by (simp_all add: replay_frame_def replay_ok_def Let_def)
    have "rounds_ok status r0 (?f, None)"
      using f by (simp add: rounds_ok_def advanced_def)
    moreover have "x \<in> set (started_axes status ?f) \<Longrightarrow> gripper_motion (stand_grippers (st_stand status) ! x) = Moving" for x
      by (simp only: started_axes_def set_filter mem_Collect_eq)
    ultimately obtain rc where
      rc: "axis_rounds status (op_id operation) (started_axes status ?f) [0, 1, 2, 3] (?f, None) = Some rc"
        "rounds_ok status r0 rc"
      using axis_rounds_ok [of status r0 "(?f, None)" "[0, 1, 2, 3]" "started_axes status ?f" "op_id operation"]
      by force
    have axes: "\<exists>r' out. replay_axes operation status ?f = Some (r', out) \<and> replay_ok r' \<and> advanced r0 r' out"
    proof (cases "op_kind operation = operation_kind.Execute \<or> op_kind operation = operation_kind.ExecuteMoves \<or> op_kind operation = operation_kind.ScanSolveExecute")
      case True
      then show ?thesis using rc by (cases rc) (simp add: replay_axes_def rounds_ok_def)
    next
      case False
      then show ?thesis using f len by (simp add: replay_axes_def advanced_def replay_ok_def)
    qed
    then show ?thesis
      using Some r1(1) r0(1) by (simp add: replay_base_def replay_status_def Let_def)
  qed
qed

section \<open>The displayed pose\<close>

text \<open>An orthonormal right-handed basis of unit directions.\<close>

fun rotation :: "vec \<times> vec \<times> vec \<Rightarrow> bool" where
  "rotation (u, v, w) \<longleftrightarrow> dot u u = 1 \<and> dot v v = 1 \<and> dot u v = 0 \<and> w = cross u v"

definition presentation_ok :: "cube_presentation \<Rightarrow> bool" where
  "presentation_ok p \<longleftrightarrow> rotation (cp_basis p) \<and> length (cp_previous_motion p) = 4 \<and>
     (\<forall>a. cp_active p = Some a \<longrightarrow>
        (rt_driver a = 2 \<and> rt_axis a = (0, 1, 0) \<or> rt_driver a = 0 \<and> rt_axis a = (1, 0, 0)) \<and>
        rt_turns a \<in> {-2, -1, 1, 2})"

lemma rotation_quarter: "rotation b \<Longrightarrow> rotation (map_basis (\<lambda>v. rotate_quarter v (face_normal f)) b)"
  by (cases b; cases f) (auto simp: rotate_quarter_def algebra_simps)

lemma rotation_turn:
  assumes "rotation b"
  shows "rotation (map_basis (\<lambda>v. rotate_vec v (face_normal f) t) b)"
proof -
  let ?q = "\<lambda>v. rotate_quarter v (face_normal f)"
  have "rotation (map_basis (\<lambda>v. (?q ^^ n) v) b)" for n
  proof (induction n)
    case (Suc n)
    then show ?case using rotation_quarter [of "map_basis (\<lambda>v. (?q ^^ n) v) b" f] by (simp add: map_basis_comp)
  qed (simp add: assms map_basis_id)
  then show ?thesis by (simp add: rotate_vec_def)
qed

lemma default_presentation_ok: "presentation_ok default_presentation"
  by (simp add: presentation_ok_def default_presentation_def unit_basis_def)

lemma try_start_ok:
  assumes "presentation_ok p" "d = 2 \<and> axis = (0, 1, 0) \<or> d = 0 \<and> axis = (1, 0, 0)" "sign = 1 \<or> sign = -1"
  shows "presentation_ok (try_start status i d e axis sign p)"
proof -
  have "sim_orientation_index a - sim_orientation_index b \<in> {-2, -1, 0, 1, 2}" for a b
    by (cases a; cases b) simp_all
  then have t: "(sim_orientation_index a - sim_orientation_index b) * sign \<noteq> 0 \<Longrightarrow>
      (sim_orientation_index a - sim_orientation_index b) * sign \<in> {-2, -1, 1, 2}" for a b
    using assms(3) by (cases a; cases b) auto
  show ?thesis
    using assms(1,2) t unfolding try_start_def Let_def
    by (auto simp: presentation_ok_def split: option.splits)
qed

lemma finish_rigid_ok:
  assumes "presentation_ok p"
  shows "presentation_ok (finish_rigid status p)"
proof (cases "cp_active p")
  case (Some a)
  then have "rt_axis a = face_normal cube_face.Up \<or> rt_axis a = face_normal cube_face.Right"
    using assms by (auto simp: presentation_ok_def)
  then have "rotation (rotated_basis p (rt_axis a) (rt_turns a))"
    using assms rotation_turn unfolding rotated_basis_def presentation_ok_def by metis
  then show ?thesis using assms Some by (simp add: finish_rigid_def presentation_ok_def)
qed (use assms in \<open>simp add: finish_rigid_def\<close>)

lemma present_status_ok:
  assumes "presentation_ok p" "stand_ok (st_stand status)"
  shows "presentation_ok (present_status status p)"
proof -
  have m: "presentation_ok p \<Longrightarrow> presentation_ok (p\<lparr> cp_previous_motion := motions status \<rparr>)" for p
    using assms(2) by (simp add: presentation_ok_def motions_def stand_ok_def)
  have c: "presentation_ok p \<Longrightarrow> presentation_ok (p\<lparr> cp_basis := unit_basis, cp_active := None \<rparr>)" for p
    by (simp add: presentation_ok_def unit_basis_def)
  show ?thesis
    unfolding present_status_def Let_def
    by (rule m) (auto simp: finish_rigid_ok [OF assms(1)] c try_start_ok split: option.split)
qed

lemma present_canonical:
  assumes "canonical_status status" "stand_ok (st_stand status)"
  shows "cp_basis (present_status status p) = unit_basis \<and> cp_active (present_status status p) = None"
proof -
  have "gripper_motion (stand_grippers (st_stand status) ! k) \<noteq> Moving" if "k < 4" for k
    using assms that by (auto simp: canonical_status_def stand_ok_def list_all_length)
  then have "try_start status i d e axis sign q = q" if "d < 4" for i d e axis sign q
    using that by (simp add: try_start_def)
  then show ?thesis
    using assms(1) by (simp add: present_status_def Let_def split: option.split)
qed

end
