(* ===== verification/SimStateSafety.thy ===== *)
theory SimStateSafety
  imports SimState SimReplaySafety
begin

text \<open>
  The simulator's state under statuses, commands and collision checks: the displayed cube is always
  one that face turns can produce, the scanner reads exactly its facelets, and replayed turns are the
  expected ones in order. The collision rules report every change once and remember each violation once.
\<close>

section \<open>The invariant\<close>

definition sim_ok :: "'f sim_state \<Rightarrow> bool" where
  "sim_ok s \<longleftrightarrow> replay_ok (ss_visual s) \<and> presentation_ok (ss_presentation s) \<and> cube_reach (ss_cube s) \<and>
     cube_facelets (ss_cube s) = Some (ss_facelets s) \<and> distinct (ss_violations s) \<and>
     length (filter is_layer_mismatch (ss_violations s)) \<le> 1 \<and>
     length (ss_rail_start s) = 4 \<and> length (ss_gripper_start s) = 4 \<and> length (ss_gripper_from s) = 4 \<and>
     length (ss_gripper_angle s) = 4"

lemma cube_facelets_some: "cube_reach cube \<Longrightarrow> \<exists>fs. cube_facelets cube = Some fs"
  using cube_reach_shown by (auto simp: shown_def)

lemma solved_facelets_shown: "cube_facelets solved_cube = Some solved_facelets"
  by code_simp

lemma new_sim_ok: "sim_ok (new_sim F c solved_facelets)"
  by (simp add: sim_ok_def new_sim_def default_replay_ok default_presentation_ok cube_reach.solved
      solved_facelets_shown)

text \<open>The fields the cube and its replay live in are untouched by the notes on axes and poses.\<close>

lemma fold_keeps:
  assumes "\<And>x s. g (f x s) = g s"
  shows "g (fold f xs s) = g s"
  by (induction xs arbitrary: s) (simp_all add: assms)

lemma note_axes_keeps [simp]:
  "ss_visual (note_axes F now status s) = ss_visual s"
  "ss_presentation (note_axes F now status s) = ss_presentation s"
  "ss_cube (note_axes F now status s) = ss_cube s"
  "ss_facelets (note_axes F now status s) = ss_facelets s"
  "ss_violations (note_axes F now status s) = ss_violations s"
  "length (ss_rail_start (note_axes F now status s)) = length (ss_rail_start s)"
  "length (ss_gripper_start (note_axes F now status s)) = length (ss_gripper_start s)"
  "length (ss_gripper_from (note_axes F now status s)) = length (ss_gripper_from s)"
  "length (ss_gripper_angle (note_axes F now status s)) = length (ss_gripper_angle s)"
  unfolding note_axes_def
  by (rule fold_keeps; simp add: note_rail_def note_gripper_def Let_def split: option.split)+

lemma note_axes_ok: "sim_ok s \<Longrightarrow> sim_ok (note_axes F now status s)"
  by (simp add: sim_ok_def)

lemma note_scan_pose_ok: "sim_ok s \<Longrightarrow> sim_ok (note_scan_pose status s)"
  by (auto simp: sim_ok_def note_scan_pose_def)

lemma no_mismatch: "\<not> list_ex is_layer_mismatch vs \<Longrightarrow> filter is_layer_mismatch vs = [] \<and> LayerMismatch v \<notin> set vs"
  by (auto simp: list_ex_iff filter_empty_conv)

lemma note_mismatch_ok:
  assumes "sim_ok s"
  shows "sim_ok (note_mismatch s)"
proof -
  have "replay_ok (v\<lparr> vr_violation := None \<rparr>) = replay_ok v" for v by (simp add: replay_ok_def)
  then show ?thesis
    using assms no_mismatch [of "ss_violations s"]
    by (auto simp: sim_ok_def note_mismatch_def Let_def split: option.split)
qed

section \<open>The displayed cube follows the expected moves\<close>

definition follows :: "server_cube \<Rightarrow> 'f sim_state \<Rightarrow> bool" where
  "follows start s \<longleftrightarrow> sc_cubies (ss_cube s) =
     sc_cubies (fold apply_move (take (vr_expected_index (ss_visual s)) (vr_expected (ss_visual s))) start)"

lemma apply_move_same:
  assumes "same_turn m e" "sc_cubies c = sc_cubies d"
  shows "sc_cubies (apply_move m c) = sc_cubies (apply_move e d)"
  using assms turn_cubie_mod [of _ "vm_turns m"] turn_cubie_mod [of _ "vm_turns e"]
  by (simp add: apply_move_def same_turn_def)

lemma turn_shown_ok:
  assumes "sim_ok s"
  shows "\<exists>s'. turn_shown_cube m s = Some s' \<and> sim_ok s' \<and> ss_visual s' = ss_visual s \<and>
    ss_cube s' = apply_move m (ss_cube s)"
proof -
  have "cube_reach (apply_move m (ss_cube s))" using assms by (simp add: sim_ok_def cube_reach.move)
  then show ?thesis
    using assms cube_facelets_some by (fastforce simp: turn_shown_cube_def sim_ok_def)
qed

lemma replay_visual_ok:
  assumes "sim_ok s" "status_ok status"
  shows "\<exists>r0 s'. replay_base status (ss_visual s) = Some r0 \<and> replay_visual status s = Some s' \<and> sim_ok s' \<and>
    (follows start (s\<lparr> ss_visual := r0 \<rparr>) \<longrightarrow> follows start s')"
proof -
  obtain r0 r' out where r: "replay_base status (ss_visual s) = Some r0"
    "replay_status status (ss_visual s) = Some (r', out)" "replay_ok r'" "advanced r0 r' out"
    using replay_status_ok [of "ss_visual s" status] assms by (auto simp: sim_ok_def status_ok_def)
  have ok: "sim_ok (s\<lparr> ss_visual := r' \<rparr>)" using assms(1) r(3) by (simp add: sim_ok_def)
  show ?thesis
  proof (cases out)
    case None
    then show ?thesis using r ok by (simp add: replay_visual_def advanced_def follows_def)
  next
    case (Some m)
    let ?k = "vr_expected_index r0"
    obtain s' where s': "turn_shown_cube m (s\<lparr> ss_visual := r' \<rparr>) = Some s'" "sim_ok s'"
      "ss_visual s' = r'" "ss_cube s' = apply_move m (ss_cube s)"
      using turn_shown_ok [OF ok, of m] by auto
    have adv: "vr_expected r' = vr_expected r0" "vr_expected_index r' = ?k + 1" "?k < length (vr_expected r0)"
      "same_turn m (vr_expected r0 ! ?k)"
      using r(4) Some by (simp_all add: advanced_def)
    have "follows start s'" if f: "follows start (s\<lparr> ss_visual := r0 \<rparr>)"
    proof -
      have "sc_cubies (apply_move m (ss_cube s)) =
          sc_cubies (apply_move (vr_expected r0 ! ?k) (fold apply_move (take ?k (vr_expected r0)) start))"
        using f by (intro apply_move_same adv(4)) (simp add: follows_def)
      then show ?thesis
        using adv(1-3) s'(3,4) by (simp add: follows_def take_Suc_conv_app_nth)
    qed
    then show ?thesis using r(1,2) Some s' by (simp add: replay_visual_def)
  qed
qed

text \<open>Which statuses keep the expected moves: those of no operation or of manual moves.\<close>

definition keeps_expected :: "status_snapshot \<Rightarrow> bool" where
  "keeps_expected status \<longleftrightarrow> (case st_active_operation status of
     None \<Rightarrow> True | Some operation \<Rightarrow> op_kind operation = operation_kind.ExecuteMoves)"

lemma keeps_expected_base:
  "keeps_expected status \<Longrightarrow> replay_base status r = Some r0 \<Longrightarrow>
     vr_expected r0 = vr_expected r \<and> vr_expected_index r0 = vr_expected_index r"
  by (auto simp: keeps_expected_def replay_base_def replay_solution_def replay_operation_def Let_def
      split: option.splits if_splits)

lemma base_index:
  "replay_base status r = Some r0 \<Longrightarrow>
     vr_expected r0 = vr_expected r \<and> vr_expected_index r0 = vr_expected_index r \<or> vr_expected_index r0 = 0"
  by (auto simp: replay_base_def replay_solution_def replay_operation_def set_expected_def Let_def
      split: option.splits if_splits)

lemma sim_apply_status_ok:
  assumes "sim_ok s" "status_ok status" "follows start s"
  shows "\<exists>s' start'. sim_apply_status F now status s = Some s' \<and> sim_ok s' \<and> follows start' s' \<and>
    (start' = start \<or> \<not> keeps_expected status \<and> start' = ss_cube s)"
proof -
  let ?a = "if sol_move_count (st_solution status) > 0
    then s\<lparr> ss_last_solution := Some (st_solution status) \<rparr> else s"
  let ?b = "?a\<lparr> ss_presentation := present_status status (ss_presentation ?a) \<rparr>"
  let ?c = "note_axes F now status (note_scan_pose status ?b)"
  have "stand_ok (st_stand status)" using assms(2) by (simp add: status_ok_def)
  with assms(1) present_status_ok have "sim_ok ?b" by (auto simp: sim_ok_def)
  then have ok: "sim_ok ?c" by (intro note_axes_ok note_scan_pose_ok)
  have same: "ss_visual ?c = ss_visual s" "ss_cube ?c = ss_cube s"
    by (simp_all add: note_scan_pose_def)
  obtain r0 where r0: "replay_base status (ss_visual s) = Some r0"
    using replay_visual_ok [OF ok assms(2)] same(1) by auto
  define start' where "start' = (if vr_expected r0 = vr_expected (ss_visual s) \<and>
      vr_expected_index r0 = vr_expected_index (ss_visual s) then start else ss_cube s)"
  have "follows start' (?c\<lparr> ss_visual := r0 \<rparr>)"
    using assms(3) same(2) base_index [OF r0] by (auto simp: start'_def follows_def)
  with replay_visual_ok [OF ok assms(2), of start'] r0 same(1)
  obtain s' where s': "replay_visual status ?c = Some s'" "sim_ok s'" "follows start' s'"
    by auto
  let ?s = "(note_mismatch s')\<lparr> ss_status := Some status, ss_dirty := True \<rparr>"
  have "sim_apply_status F now status s = Some ?s"
    using s'(1) by (simp add: sim_apply_status_def Let_def)
  moreover have "sim_ok ?s" using note_mismatch_ok [OF s'(2)] by (simp add: sim_ok_def)
  moreover have "follows start' ?s"
    using s'(3) by (simp add: follows_def note_mismatch_def Let_def split: option.split)
  moreover have "start' = start \<or> \<not> keeps_expected status \<and> start' = ss_cube s"
    using keeps_expected_base [OF _ r0] by (auto simp: start'_def)
  ultimately show ?thesis by blast
qed

lemma dirty_ok [simp]: "sim_ok (s\<lparr> ss_dirty := d \<rparr>) = sim_ok s" "follows c (s\<lparr> ss_dirty := d \<rparr>) = follows c s"
  by (simp_all add: sim_ok_def follows_def)

lemma set_visual_moves_ok:
  assumes "sim_ok s" "\<And>status. ss_status s = Some status \<Longrightarrow> status_ok status \<and> keeps_expected status"
  shows "\<exists>s'. set_visual_moves moves s = Some s' \<and> sim_ok s' \<and> follows (ss_cube s) s' \<and>
    vr_expected (ss_visual s') = map visual_move_of moves"
proof -
  let ?s = "s\<lparr> ss_visual := set_expected moves (ss_visual s) \<rparr>"
  have ok: "sim_ok ?s" using assms(1) by (simp add: sim_ok_def)
  have start: "follows (ss_cube s) ?s" by (simp add: follows_def set_expected_def)
  show ?thesis
  proof (cases "ss_status s")
    case None
    then show ?thesis using ok start by (simp add: set_visual_moves_def) (simp add: set_expected_def)
  next
    case (Some status)
    then have status: "status_ok status" "keeps_expected status" using assms(2) by auto
    obtain r0 r' out where r: "replay_base status (ss_visual ?s) = Some r0"
      "replay_status status (ss_visual ?s) = Some (r', out)" "advanced r0 r' out"
      using replay_status_ok [of "ss_visual ?s" status] ok status(1) by (auto simp: sim_ok_def status_ok_def)
    obtain s' where s': "replay_visual status ?s = Some s'" "sim_ok s'"
      "follows (ss_cube s) (?s\<lparr> ss_visual := r0 \<rparr>) \<longrightarrow> follows (ss_cube s) s'"
      using replay_visual_ok [OF ok status(1), of "ss_cube s"] r(1) by auto
    note base = keeps_expected_base [OF status(2) r(1)]
    have "follows (ss_cube s) (?s\<lparr> ss_visual := r0 \<rparr>)"
      using start base by (simp add: follows_def)
    moreover have "vr_expected (ss_visual s') = map visual_move_of moves"
      using s'(1) r(2,3) base
      by (auto simp: replay_visual_def turn_shown_cube_def advanced_def set_expected_def Let_def split: option.splits)
    ultimately show ?thesis
      using s' Some by (auto simp: set_visual_moves_def)
  qed
qed

lemma scrambled_reach: "cube_reach (scrambled moves)"
proof -
  have "cube_reach c \<Longrightarrow> cube_reach (fold (\<lambda>m. apply_move (visual_move_of m)) ms c)" for ms c
    by (induction ms arbitrary: c) (simp_all add: cube_reach.move)
  then show ?thesis by (simp add: scrambled_def cube_reach.solved)
qed

lemma load_scramble_ok:
  assumes "sim_ok s"
  shows "\<exists>s'. load_scramble moves s = Some s' \<and> sim_ok s' \<and> ss_cube s' = scrambled moves \<and>
    vr_expected (ss_visual s') = []"
  using assms cube_facelets_some [OF scrambled_reach [of moves]]
  by (auto simp: load_scramble_def sim_ok_def scrambled_reach set_expected_def Let_def)
    (use set_expected_ok [of "[]"] in \<open>simp add: set_expected_def\<close>)

lemma take_cube_event_ok:
  assumes "sim_ok s"
  shows "take_cube_event s = Some
    (if ss_cube_dirty s then Some (ss_cube s, ss_facelets s) else None, s\<lparr> ss_cube_dirty := False \<rparr>)"
  using assms by (simp add: take_cube_event_def sim_ok_def)

section \<open>Sequences of statuses\<close>

fun sim_statuses :: "'f f32_ops \<Rightarrow> (nat \<times> status_snapshot) list \<Rightarrow> 'f sim_state \<Rightarrow> 'f sim_state option" where
  "sim_statuses F [] s = Some s"
| "sim_statuses F ((now, status) # xs) s = do { s \<leftarrow> sim_apply_status F now status s; sim_statuses F xs s }"

lemma sim_statuses_follow:
  assumes "sim_ok s" "\<forall>x \<in> set xs. status_ok (snd x)" "follows start s"
  shows "\<exists>s' start'. sim_statuses F xs s = Some s' \<and> sim_ok s' \<and> follows start' s' \<and>
    ((\<forall>x \<in> set xs. keeps_expected (snd x)) \<longrightarrow> start' = start)"
  using assms
proof (induction xs arbitrary: s start)
  case (Cons x xs)
  obtain now status where x: "x = (now, status)" by (cases x)
  obtain s1 start1 where s1: "sim_apply_status F now status s = Some s1" "sim_ok s1" "follows start1 s1"
    "start1 = start \<or> \<not> keeps_expected status"
    using sim_apply_status_ok [OF Cons.prems(1) _ Cons.prems(3)] Cons.prems(2) x by auto metis
  obtain s2 start2 where "sim_statuses F xs s1 = Some s2" "sim_ok s2" "follows start2 s2"
    "(\<forall>x \<in> set xs. keeps_expected (snd x)) \<longrightarrow> start2 = start1"
    using Cons.IH [OF s1(2) _ s1(3)] Cons.prems(2) by auto
  then show ?case using s1 x by auto
qed auto

section \<open>Collision rules\<close>

lemma note_event_distinct: "distinct vs \<Longrightarrow> distinct (fold note_event es vs)"
  by (induction es arbitrary: vs) (simp_all add: note_event_def)

lemma note_event_mismatch:
  "filter is_layer_mismatch (fold note_event es vs) = filter is_layer_mismatch vs"
  by (induction es arbitrary: vs) (simp_all add: note_event_def)

lemma set_note_events:
  "set (fold note_event es vs) = set vs \<union> {Rule (ev_rule e) |e. e \<in> set es \<and> ev_active e}"
  by (induction es arbitrary: vs) (auto simp: note_event_def)

lemma collisions_ok: "sim_ok s \<Longrightarrow> sim_ok (snd (collisions F now s))"
  by (simp add: collisions_def sim_ok_def Let_def note_event_distinct note_event_mismatch split: option.split)

text \<open>The rules as predicates on the state, by name.\<close>

definition rule_active :: "'f sim_state \<Rightarrow> string \<Rightarrow> bool" where
  "rule_active s rule \<longleftrightarrow> rule = claws_rule \<and> ss_rule1_active s \<or> rule = custody_rule \<and> ss_rule2_active s \<or>
     rule = concurrent_rule \<and> ss_concurrent_motion_active s"

lemma rule_names [simp]:
  "claws_rule \<noteq> custody_rule" "claws_rule \<noteq> concurrent_rule" "custody_rule \<noteq> concurrent_rule"
  "custody_rule \<noteq> claws_rule" "concurrent_rule \<noteq> claws_rule" "concurrent_rule \<noteq> custody_rule"
  by (simp_all add: claws_rule_def custody_rule_def concurrent_rule_def)

text \<open>The flags and notes of a check do not enter the next one.\<close>

definition checked :: "bool \<Rightarrow> bool \<Rightarrow> bool \<Rightarrow> sim_violation list \<Rightarrow> bool \<Rightarrow> 'f sim_state \<Rightarrow> 'f sim_state" where
  "checked a b c vs d s = s\<lparr> ss_rule1_active := a, ss_rule2_active := b, ss_concurrent_motion_active := c,
     ss_violations := vs, ss_dirty := d \<rparr>"

lemma checked_fields:
  "ss_status (checked a b c vs d s) = ss_status s" "ss_rail_start (checked a b c vs d s) = ss_rail_start s"
  "ss_rail_grip_ms (checked a b c vs d s) = ss_rail_grip_ms s"
  "ss_rail_open_ms (checked a b c vs d s) = ss_rail_open_ms s"
  "ss_gripper_angle (checked a b c vs d s) = ss_gripper_angle s"
  "ss_gripper_start (checked a b c vs d s) = ss_gripper_start s"
  "ss_gripper_ms (checked a b c vs d s) = ss_gripper_ms s"
  "ss_animation_speed (checked a b c vs d s) = ss_animation_speed s"
  "ss_gripper_from (checked a b c vs d s) = ss_gripper_from s"
  by (simp_all add: checked_def)

lemma checked_motion:
  "motion_fraction F now begun duration (checked a b c vs d s) = motion_fraction F now begun duration s"
  "gripper_duration_ms F (checked a b c vs d s) index target = gripper_duration_ms F s index target"
  unfolding motion_fraction_def gripper_duration_ms_def checked_fields by rule+

lemma checked_progress:
  "rail_progress F now (checked a b c vs d s) = rail_progress F now s"
  "gripper_angles F now (checked a b c vs d s) = gripper_angles F now s"
  unfolding rail_progress_def gripper_angles_def gripper_angle_at_def checked_motion checked_fields by rule+

lemma transitions:
  assumes "events = transition claws_rule a (ss_rule1_active s) x @ transition custody_rule b (ss_rule2_active s) y @
      transition concurrent_rule c (ss_concurrent_motion_active s) z"
    and "s' = checked a b c vs d s"
  shows "rule_active s' rule \<noteq> rule_active s rule \<longleftrightarrow> (\<exists>e \<in> set events. ev_rule e = rule)"
    "\<forall>e \<in> set events. ev_active e = rule_active s' (ev_rule e)" "distinct (map ev_rule events)"
  using assms by (auto simp: rule_active_def checked_def transition_def)

lemma collisions_transitions:
  assumes "collisions F now s = (events, s')"
  shows "(rule_active s' rule \<noteq> rule_active s rule \<longleftrightarrow> (\<exists>e \<in> set events. ev_rule e = rule)) \<and>
    (\<forall>e \<in> set events. ev_active e = rule_active s' (ev_rule e)) \<and> distinct (map ev_rule events) \<and>
    set (ss_violations s') = set (ss_violations s) \<union> {Rule (ev_rule e) |e. e \<in> set events \<and> ev_active e} \<and>
    collisions F now s' = ([], s')"
proof (cases "ss_status s")
  case None
  then show ?thesis using assms by (auto simp: collisions_def rule_active_def)
next
  case (Some status)
  define progress where "progress = map (rail_progress F now s) [0, 1, 2, 3]"
  define overlap where "overlap = claw_overlap F (gripper_angles F now s) progress"
  define lost where "lost = custody_lost F status progress"
  define concurrent where "concurrent = concurrent_motion status"
  define y where "y = (if lost then Some (NoHold progress (map_option op_kind (st_active_operation status))) else None)"
  define z where "z = (if concurrent then Some (RailAndGripper :: 'a description) else None)"
  have events: "events = transition claws_rule (overlap \<noteq> None) (ss_rule1_active s) overlap @
      transition custody_rule lost (ss_rule2_active s) y @
      transition concurrent_rule concurrent (ss_concurrent_motion_active s) z"
    using assms unfolding collisions_def Let_def Some option.case y_def z_def lost_def concurrent_def overlap_def progress_def
    by simp
  have s': "s' = checked (overlap \<noteq> None) lost concurrent (fold note_event events (ss_violations s))
      (ss_dirty s \<or> events \<noteq> []) s"
    using assms events unfolding collisions_def Let_def Some option.case y_def z_def lost_def concurrent_def overlap_def
      progress_def checked_def by simp
  have "collisions F now s' = ([], s')"
    unfolding collisions_def s' checked_progress checked_fields Some option.case progress_def [symmetric]
      overlap_def [symmetric] lost_def [symmetric] concurrent_def [symmetric] Let_def
    by (simp add: checked_def transition_def)
  moreover have "set (ss_violations s') = set (ss_violations s) \<union> {Rule (ev_rule e) |e. e \<in> set events \<and> ev_active e}"
    by (simp add: s' checked_def set_note_events)
  ultimately show ?thesis using transitions [OF events s'] by blast
qed

end
