(* ===== verification/ServiceMotion.thy ===== *)
theory ServiceMotion
  imports ServiceRequests
begin

text \<open>
  What may be moving: in every reachable state of \<open>RobotService\<close> the status shows motion only on the
  rails, or only on the grippers, the current step commanded, and none in the canonical grip.
\<close>

section \<open>Moving axes\<close>

definition axes_of :: "('d, 's) service \<Rightarrow> rail_status list \<times> gripper_status list" where
  "axes_of s = (stand_rails (st_stand (svc_status s)), stand_grippers (st_stand (svc_status s)))"

definition pose_of :: "('d, 's) service \<Rightarrow> stand_pose" where
  "pose_of s = stand_pose (st_stand (svc_status s))"

definition within_axes :: "nat set \<Rightarrow> nat set \<Rightarrow> rail_status list \<times> gripper_status list \<Rightarrow> bool" where
  "within_axes R G A \<longleftrightarrow> length (fst A) = 4 \<and> length (snd A) = 4 \<and>
     (\<forall>i < 4. rail_motion (fst A ! i) = Moving \<longrightarrow> i \<in> R) \<and>
     (\<forall>i < 4. gripper_motion (snd A ! i) = Moving \<longrightarrow> i \<in> G)"

definition may_move :: "nat set \<Rightarrow> nat set \<Rightarrow> ('d, 's) service \<Rightarrow> bool" where
  "may_move R G s \<longleftrightarrow> within_axes R G (axes_of s)"

definition resting :: "('d, 's) service \<Rightarrow> bool" where
  "resting s \<longleftrightarrow> may_move {} {} s \<and>
     (pose_kind (pose_of s) = CanonicalGrip \<longrightarrow> pose_camera_face (pose_of s) = Some cube_face.Front)"

definition going :: "nat set \<Rightarrow> nat set \<Rightarrow> ('d, 's) service \<Rightarrow> bool" where
  "going R G s \<longleftrightarrow> may_move R G s \<and> pose_kind (pose_of s) \<noteq> CanonicalGrip"

lemma axes_simps [simp]:
  "axes_of (set_pose p s) = axes_of s" "axes_of (emit e s) = axes_of s" "axes_of (emit_stand s) = axes_of s"
  "axes_of (emit_robot_state s) = axes_of s" "axes_of (set_outputs_enabled b s) = axes_of s"
  "axes_of (on_scan f s) = axes_of s" "axes_of (on_solution g s) = axes_of s"
  "axes_of (on_operation h s) = axes_of s" "axes_of (set_controller c opr s) = axes_of s"
  "axes_of (clear_scan_and_solution s) = axes_of s" "axes_of (advance_action_counter s) = axes_of s"
  by (simp_all add: axes_of_def svc_defs advance_action_counter_def)

lemma pose_simps [simp]:
  "pose_of (set_pose p s) = p" "pose_of (emit e s) = pose_of s" "pose_of (emit_stand s) = pose_of s"
  "pose_of (emit_robot_state s) = pose_of s" "pose_of (set_outputs_enabled b s) = pose_of s"
  "pose_of (on_scan f s) = pose_of s" "pose_of (on_solution g s) = pose_of s"
  "pose_of (on_operation h s) = pose_of s" "pose_of (set_controller c opr s) = pose_of s"
  "pose_of (clear_scan_and_solution s) = pose_of s" "pose_of (advance_action_counter s) = pose_of s"
  by (simp_all add: pose_of_def svc_defs advance_action_counter_def)

lemma touches_pose: "touches s t \<Longrightarrow> pose_of t = pose_of s"
  by (auto simp: touches_def stand_shape_def pose_of_def)

lemma within_mono: "within_axes R G A \<Longrightarrow> R \<subseteq> R' \<Longrightarrow> G \<subseteq> G' \<Longrightarrow> within_axes R' G' A"
  by (auto simp: within_axes_def)

lemma may_move_mono: "may_move R G s \<Longrightarrow> R \<subseteq> R' \<Longrightarrow> G \<subseteq> G' \<Longrightarrow> may_move R' G' s"
  unfolding may_move_def by (rule within_mono)

section \<open>Commands and completions\<close>

lemma nth_update: "j < length xs \<Longrightarrow> xs[i := x] ! j = (if i = j then x else xs ! j)"
  by (cases "i = j") simp_all

lemma on_rail_moves:
  assumes "may_move R G s"
  shows "may_move (insert i R) G (on_rail i f s)"
    and "rail_motion (f (stand_rails (st_stand (svc_status s)) ! i)) \<noteq> Moving \<Longrightarrow> may_move (R - {i}) G (on_rail i f s)"
  using assms
  by (auto simp: may_move_def within_axes_def axes_of_def svc_defs nth_update split: if_splits)

lemma on_gripper_moves:
  assumes "may_move R G s"
  shows "may_move R (insert i G) (on_gripper i g s)"
    and "gripper_motion (g (stand_grippers (st_stand (svc_status s)) ! i)) \<noteq> Moving \<Longrightarrow>
      may_move R (G - {i}) (on_gripper i g s)"
  using assms
  by (auto simp: may_move_def within_axes_def axes_of_def svc_defs nth_update split: if_splits)

lemma moving_rails_moves: "may_move R G s \<Longrightarrow> may_move (R \<union> set is) G (moving_rails is p s)"
proof (induction "is" arbitrary: s R)
  case (Cons i "is")
  have "may_move (insert i R \<union> set is) G (moving_rails (i # is) p s)"
    using Cons.IH [OF on_rail_moves(1) [OF Cons.prems]] by (simp add: moving_rails_def)
  then show ?case by (rule may_move_mono) auto
qed (simp add: moving_rails_def)

lemma finish_rails_moves:
  "may_move R G s \<Longrightarrow> may_move (R - axis_index ` set axes) G (finish_rails axes p s)"
proof (induction axes arbitrary: s R)
  case (Cons a axes)
  have "may_move (R - {axis_index a} - axis_index ` set axes) G (finish_rails (a # axes) p s)"
    using Cons.IH [OF on_rail_moves(2) [OF Cons.prems]] by (simp add: finish_rails_def)
  then show ?case by (rule may_move_mono) auto
qed (simp add: finish_rails_def)

definition pose_axes :: "(stand_axis \<times> gripper_orientation) list \<Rightarrow> nat set" where
  "pose_axes poses = (\<lambda>(axis, orientation). stand_axis_index axis) ` set poses"

lemma finish_scan_grippers_moves:
  "may_move R G s \<Longrightarrow> may_move R (G - pose_axes poses) (finish_scan_grippers poses s)"
proof (induction poses arbitrary: s G)
  case (Cons p poses)
  obtain a x where p: "p = (a, x)" by (cases p)
  have "may_move R (G - {stand_axis_index a} - pose_axes poses) (finish_scan_grippers (p # poses) s)"
    using Cons.IH [OF on_gripper_moves(2) [OF Cons.prems]] by (simp add: finish_scan_grippers_def p)
  then show ?case by (rule may_move_mono) (auto simp: pose_axes_def p)
qed (simp add: finish_scan_grippers_def pose_axes_def)

lemma finish_all_grippers_moves: "may_move R G s \<Longrightarrow> may_move R {} (finish_all_grippers_perpendicular s)"
  by (simp add: may_move_def within_axes_def axes_of_def finish_all_grippers_perpendicular_def svc_defs)

lemma use_output_moves:
  "may_move R G s \<Longrightarrow> outcome_all (may_move R G) (\<lambda>_. True) (use_output f s)"
  by (auto simp: use_output_def may_move_def axes_of_def split: prod.split)

lemma may_move_enabled [simp]: "may_move R G (set_outputs_enabled b s) = may_move R G s"
  by (simp add: may_move_def)

lemma command_rail_pair_moves:
  assumes "may_move R G s"
  shows "outcome_all (may_move (R \<union> axis_index ` set lo) G) (\<lambda>_. True) (command_rail_pair B ph lo position s)"
  unfolding command_rail_pair_def Let_def
  by (rule outcome_all_and_then [OF use_output_moves [OF assms]])
    (use moving_rails_moves [of R G _ "map axis_index lo"] in simp)

fun target_axes :: "rail_target \<Rightarrow> nat set" where
  "target_axes (Pair pair) = axis_index ` set (snd (rail_pair_axes pair))"
| "target_axes (Single axis) = {stand_axis_index axis}"

lemma command_motion_rails_moves:
  assumes "may_move R G s"
  shows "outcome_all (may_move (R \<union> target_axes target) G) (\<lambda>_. True) (command_motion_rails B target position s)"
proof (cases target)
  case (Pair pair)
  then show ?thesis
    using command_rail_pair_moves [OF assms] by (auto simp: command_motion_rails_def split: prod.split)
next
  case (Single axis)
  show ?thesis
    unfolding command_motion_rails_def Let_def Single
    by simp (rule outcome_all_and_then [OF use_output_moves [OF assms]],
      use moving_rails_moves [of R G _ "[stand_axis_index axis]"] in simp)
qed

lemma finish_motion_rails_moves:
  assumes "may_move (target_axes target) {} s"
  shows "outcome_all (may_move {} {}) (\<lambda>_. True) (finish_motion_rails B target position s)"
proof (cases target)
  case (Pair pair)
  obtain ph lo where p: "rail_pair_axes pair = (ph, lo)" by fastforce
  show ?thesis
    unfolding finish_motion_rails_def Pair
    by (simp add: p) (rule outcome_all_and_then [OF use_output_moves [OF assms]],
      use finish_rails_moves [of "axis_index ` set lo" "{}" _ lo] in \<open>simp add: Pair p\<close>)
next
  case (Single axis)
  show ?thesis
    unfolding finish_motion_rails_def Single
    by simp (rule outcome_all_and_then [OF use_output_moves [OF assms]],
      use on_rail_moves(2) [of "{stand_axis_index axis}" "{}" _ _ "stand_axis_index axis"] in \<open>fastforce simp: Single\<close>)
qed

lemma command_scan_grippers_moves:
  assumes "may_move R G s"
  shows "outcome_all (may_move R (G \<union> pose_axes poses)) (\<lambda>_. True) (command_scan_grippers B poses s)"
proof (cases "gripper_channels (svc_calibration s) poses")
  case (Inr channels)
  have f: "may_move R G t \<Longrightarrow> may_move R (G \<union> pose_axes poses) (fold (\<lambda>(axis, orientation). on_gripper
      (stand_axis_index axis) (h orientation)) poses t)" for t h
  proof (induction poses arbitrary: t G)
    case (Cons p poses)
    obtain a x where p: "p = (a, x)" by (cases p)
    show ?case
      using Cons.IH [OF on_gripper_moves(1) [OF Cons.prems], of "stand_axis_index a" "h x"]
      by (simp add: p pose_axes_def)
  qed (simp add: pose_axes_def)
  show ?thesis
    unfolding command_scan_grippers_def Inr Let_def sum.case
    by (rule outcome_all_and_then [OF use_output_moves [OF assms]]) (simp add: f)
qed (simp add: command_scan_grippers_def)

lemma command_all_grippers_moves:
  assumes "may_move R G s"
  shows "outcome_all (may_move R UNIV) (\<lambda>_. True) (command_all_grippers_perpendicular B s)"
proof -
  have *: "may_move R G t \<Longrightarrow> may_move R UNIV (on_stand (\<lambda>st. st\<lparr> stand_grippers := map f (stand_grippers st) \<rparr>) t)" for f t
    by (simp add: may_move_def within_axes_def axes_of_def svc_defs)
  show ?thesis
    unfolding command_all_grippers_perpendicular_def Let_def
    by (auto simp: * intro!: outcome_all_and_then [OF use_output_moves [OF assms]] split: sum.split)
qed

section \<open>The invariant\<close>

fun phase_moves :: "motion_phase \<Rightarrow> (nat set \<times> nat set) option" where
  "phase_moves RecoverStart = None"
| "phase_moves RecoverFinishLeftRight = Some ({0, 1}, {})"
| "phase_moves RecoverFinishTopBottom = Some ({2, 3}, {})"
| "phase_moves RecoverFinishGrippers = Some ({}, UNIV)"
| "phase_moves GripStart = None"
| "phase_moves GripFinishGrippers = Some ({}, UNIV)"
| "phase_moves GripFinishRails = Some (UNIV, {})"

fun step_moves :: "pending_motion_step \<Rightarrow> nat set \<times> nat set" where
  "step_moves (Rails target position) = (target_axes target, {})"
| "step_moves (Grippers poses) = ({}, pose_axes poses)"

definition moves_as :: "(nat set \<times> nat set) option \<Rightarrow> ('d, 's) service \<Rightarrow> bool" where
  "moves_as X s = (case X of None \<Rightarrow> resting s | Some (R, G) \<Rightarrow> going R G s)"

text \<open>Moving axes are those of the motion phase, of the pending step, or none.\<close>

definition motion_inv :: "('d, 's) service \<Rightarrow> bool" where
  "motion_inv s \<longleftrightarrow>
     (\<forall>m. svc_motion s = Some m \<longrightarrow> moves_as (phase_moves (am_phase m)) s) \<and>
     (\<forall>x. svc_scan s = Some x \<longrightarrow> moves_as (map_option step_moves (as_pending x)) s) \<and>
     (\<forall>e. svc_execute s = Some e \<longrightarrow> moves_as (map_option step_moves (ae_pending e)) s) \<and>
     (svc_motion s = None \<longrightarrow> svc_scan s = None \<longrightarrow> svc_execute s = None \<longrightarrow> resting s)"

lemma unknown_rests: "axes_of s = (stand_rails unknown_stand, stand_grippers unknown_stand) \<Longrightarrow>
    pose_kind (pose_of s) \<noteq> CanonicalGrip \<Longrightarrow> resting s"
  by (simp add: resting_def may_move_def within_axes_def unknown_stand_def AXIS_COUNT_def)

lemma with_scanner_moves: "motion_inv (with_scanner dev c scanner)"
  by (simp add: motion_inv_def)
    (simp add: with_scanner_def unknown_rests axes_of_def pose_of_def unknown_status_def)

lemma enter_fault_moves: "motion_inv (enter_fault B i s)"
proof -
  have "resting (enter_fault B i s)"
    by (rule unknown_rests) (simp_all add: enter_fault_def svc_defs Let_def axes_of_def pose_of_def)
  then show ?thesis
    by (simp add: motion_inv_def) (simp add: enter_fault_def svc_defs Let_def)
qed

lemma abort_moves: "motion_inv (abort B i s)"
proof (cases "all_off B (svc_output s)")
  case (Pair ok d)
  have "ok \<Longrightarrow> resting (abort B i s)"
    using Pair by (intro unknown_rests) (simp_all add: abort_def svc_defs Let_def axes_of_def pose_of_def)
  moreover have "ok \<Longrightarrow> svc_motion (abort B i s) = None \<and> svc_scan (abort B i s) = None \<and> svc_execute (abort B i s) = None"
    using Pair by (simp add: abort_def svc_defs Let_def)
  ultimately show ?thesis
    using Pair by (cases ok) (simp add: motion_inv_def, simp add: abort_def Let_def enter_fault_moves)
qed

lemma settle_moves: "outcome_all motion_inv (\<lambda>_. True) r \<Longrightarrow> settle B i r = Some s' \<Longrightarrow> motion_inv s'"
  by (cases r) (auto simp: settle_def enter_fault_moves)

text \<open>Commands keep the fields, so what moves is all that changes.\<close>

definition fields_of :: "('d, 's) service \<Rightarrow> active_motion option \<times> active_scan option \<times> active_execute option" where
  "fields_of s = (svc_motion s, svc_scan s, svc_execute s)"

lemma fields_simps [simp]:
  "fields_of (set_pose p s) = fields_of s" "fields_of (emit e s) = fields_of s"
  "fields_of (emit_stand s) = fields_of s" "fields_of (emit_robot_state s) = fields_of s"
  "fields_of (set_outputs_enabled b s) = fields_of s" "fields_of (on_scan f s) = fields_of s"
  "fields_of (on_solution g s) = fields_of s" "fields_of (on_operation h s) = fields_of s"
  "fields_of (set_controller c opr s) = fields_of s" "fields_of (clear_scan_and_solution s) = fields_of s"
  "fields_of (advance_action_counter s) = fields_of s"
  by (simp_all add: fields_of_def svc_defs advance_action_counter_def)

definition moved :: "active_motion option \<times> active_scan option \<times> active_execute option \<Rightarrow> nat set \<Rightarrow> nat set \<Rightarrow>
    ('d, 's) service \<Rightarrow> bool" where
  "moved fds R G s \<longleftrightarrow> fields_of s = fds \<and> going R G s"

lemma command_moved:
  assumes "outcome_all (touches s) (touches s) r" "outcome_all (may_move R G) (\<lambda>_. True) r"
    "fields_of s = fds" "pose_kind (pose_of s) \<noteq> CanonicalGrip"
  shows "outcome_all (moved fds R G) (\<lambda>_. True) r"
proof (cases r)
  case (Done t)
  then have t: "touches s t" "may_move R G t" using assms(1,2) by simp_all
  then have "fields_of t = fields_of s" by (auto simp: fields_of_def touches_def)
  then show ?thesis
    using assms(3,4) Done t(2) touches_pose [OF t(1)] by (simp add: moved_def going_def)
qed (use assms in simp_all)

lemma phase_continues:
  assumes "moved (Some m, None, None) R G s" "phase_moves phase = Some (R, G)"
  shows "outcome_all motion_inv (\<lambda>_. True) (and_then (set_motion_phase phase d n s) (\<lambda>s. Done (emit_stand s)))"
  using assms
  by (auto simp: moved_def fields_of_def set_motion_phase_def motion_inv_def moves_as_def going_def may_move_def
      axes_of_def pose_of_def svc_defs Let_def)

lemma operation_completes:
  assumes "fields_of s = (Some m, None, None)" "resting s"
  shows "outcome_all motion_inv (\<lambda>_. True) (complete_operation s)"
  using assms
  by (auto simp: fields_of_def complete_operation_def motion_inv_def resting_def may_move_def axes_of_def pose_of_def
      svc_defs Let_def)

lemma pair_axes [simp]:
  "axis_index ` set [axis.Left, axis.Right] = {0, 1}" "axis_index ` set [axis.Top, axis.Bottom] = {2, 3}"
  by auto

section \<open>Recovery and grip\<close>

lemma moved_output: "moved fds R G s \<Longrightarrow> outcome_all (moved fds R G) (\<lambda>_. True) (use_output f s)"
  using command_moved [OF use_output_touches [OF touches_refl, of s f] use_output_moves [of R G s f]]
  by (simp add: moved_def going_def)

lemma moved_finish_rails:
  "moved fds R G s \<Longrightarrow> moved fds (R - axis_index ` set axes) G (finish_rails axes p s)"
proof -
  assume m: "moved fds R G s"
  have t: "touches s (finish_rails axes p s)" by (rule touches_folds(1)) simp
  have "may_move (R - axis_index ` set axes) G (finish_rails axes p s)"
    using m by (intro finish_rails_moves) (simp add: moved_def going_def)
  then show ?thesis
    using command_moved [of s "Done (finish_rails axes p s)"] t m by (simp add: moved_def going_def)
qed

lemma moved_finish_all: "moved fds R G s \<Longrightarrow> moved fds R {} (finish_all_grippers_perpendicular s)"
proof -
  assume m: "moved fds R G s"
  have t: "touches s (finish_all_grippers_perpendicular s)" by (rule touches_simps(4)) simp
  have "may_move R {} (finish_all_grippers_perpendicular s)"
    using m finish_all_grippers_moves [of R G s] by (simp add: moved_def going_def)
  then show ?thesis
    using command_moved [of s "Done (finish_all_grippers_perpendicular s)"] t m by (simp add: moved_def going_def)
qed

lemma recover_start_moves:
  assumes "fields_of s = (Some m, None, None)" "resting s"
  shows "outcome_all motion_inv (\<lambda>_. True) (recover_start B now s)"
  unfolding recover_start_def Let_def
proof (rule outcome_all_and_then [OF command_moved [OF command_rail_pair_touches [OF touches_refl] command_rail_pair_moves]])
  let ?s = "set_pose transitional_pose (clear_scan_and_solution (on_status (\<lambda>st. st\<lparr> st_cube_session := None \<rparr>) s))"
  show "may_move {} {} ?s" using assms(2) by (simp add: resting_def may_move_def) (simp add: axes_of_def svc_defs)
  show "fields_of ?s = (Some m, None, None)" using assms(1) by simp (simp add: fields_of_def svc_defs)
  show "pose_kind (pose_of ?s) \<noteq> CanonicalGrip" by (simp add: transitional_pose_def)
  fix t assume "moved (Some m, None, None) ({} \<union> axis_index ` set [axis.Left, axis.Right]) {} t"
  then show "outcome_all motion_inv (\<lambda>_. True) (and_then (set_motion_phase RecoverFinishLeftRight
      (now + rail_duration (svc_calibration t) FarOpen) 0 t) (\<lambda>s. Done (emit_stand s)))"
    by (intro phase_continues) (simp_all only: pair_axes Un_empty_left, simp)
qed

lemma recover_finish_left_right_moves:
  assumes "moved (Some m, None, None) {0, 1} {} s"
  shows "outcome_all motion_inv (\<lambda>_. True) (recover_finish_left_right B now s)"
  unfolding recover_finish_left_right_def
proof (rule outcome_all_and_then [OF moved_output [OF assms]])
  fix t :: "('a, 'b) service" assume "moved (Some m, None, None) {0, 1} {} t"
  from moved_finish_rails [OF this, of "[axis.Left, axis.Right]" "link_rail_position.Open"]
  have m: "moved (Some m, None, None) {} {} (finish_rails [axis.Left, axis.Right] link_rail_position.Open t)" by simp
  show "outcome_all motion_inv (\<lambda>_. True)
      (and_then (command_rail_pair B [TopRail, BottomRail] [axis.Top, axis.Bottom] FarOpen
        (finish_rails [axis.Left, axis.Right] link_rail_position.Open t)) (\<lambda>s.
       and_then (set_motion_phase RecoverFinishTopBottom (now + rail_duration (svc_calibration s) FarOpen) 1 s)
        (\<lambda>s. Done (emit_stand s))))"
    by (rule outcome_all_and_then [OF command_moved [OF command_rail_pair_touches [OF touches_refl]
          command_rail_pair_moves [of "{}" "{}"]]])
      (use m in \<open>simp_all add: moved_def going_def\<close>, rule phase_continues, simp_all add: moved_def going_def)
qed

lemma recover_finish_top_bottom_moves:
  assumes "moved (Some m, None, None) {2, 3} {} s"
  shows "outcome_all motion_inv (\<lambda>_. True) (recover_finish_top_bottom B now s)"
  unfolding recover_finish_top_bottom_def
proof (rule outcome_all_and_then [OF moved_output [OF assms]])
  fix t :: "('a, 'b) service" assume "moved (Some m, None, None) {2, 3} {} t"
  from moved_finish_rails [OF this, of "[axis.Top, axis.Bottom]" "link_rail_position.Open"]
  have m: "moved (Some m, None, None) {} {} (finish_rails [axis.Top, axis.Bottom] link_rail_position.Open t)" by simp
  show "outcome_all motion_inv (\<lambda>_. True)
      (and_then (command_all_grippers_perpendicular B (finish_rails [axis.Top, axis.Bottom] link_rail_position.Open t)) (\<lambda>s.
       and_then (set_motion_phase RecoverFinishGrippers (now + gripper_pose_duration (svc_calibration s)) 2 s)
        (\<lambda>s. Done (emit_stand s))))"
    by (rule outcome_all_and_then [OF command_moved [OF command_all_grippers_touches [OF touches_refl]
          command_all_grippers_moves [of "{}" "{}"]]])
      (use m in \<open>simp_all add: moved_def going_def\<close>, rule phase_continues, simp_all add: moved_def going_def)
qed

lemma recover_finish_grippers_moves:
  assumes "moved (Some m, None, None) {} UNIV s"
  shows "outcome_all motion_inv (\<lambda>_. True) (recover_finish_grippers B s)"
  unfolding recover_finish_grippers_def Let_def
proof (rule outcome_all_and_then [OF moved_output [OF assms]])
  fix t :: "('a, 'b) service" assume "moved (Some m, None, None) {} UNIV t"
  from moved_finish_all [OF this]
  show "outcome_all motion_inv (\<lambda>_. True)
      (complete_operation (set_pose open_pose (set_outputs_enabled False (finish_all_grippers_perpendicular t))))"
    by (intro operation_completes)
      (simp_all add: moved_def going_def resting_def open_pose_def may_move_def)
qed

lemma grip_start_moves:
  assumes "fields_of s = (Some m, None, None)" "resting s"
  shows "outcome_all motion_inv (\<lambda>_. True) (grip_start B now s)"
  unfolding grip_start_def Let_def
  by (rule outcome_all_and_then [OF command_moved [OF command_all_grippers_touches [OF touches_refl]
        command_all_grippers_moves [of "{}" "{}"]]])
    (use assms in \<open>simp_all add: resting_def may_move_def transitional_pose_def\<close>, rule phase_continues, simp_all)

lemma grip_finish_grippers_moves:
  assumes "moved (Some m, None, None) {} UNIV s"
  shows "outcome_all motion_inv (\<lambda>_. True) (grip_finish_grippers B now s)"
  unfolding grip_finish_grippers_def Let_def
proof (rule outcome_all_and_then [OF moved_output [OF moved_finish_all [OF assms]]])
  fix t :: "('a, 'b) service" assume t: "moved (Some m, None, None) {} {} t"
  let ?u = "set_outputs_enabled True (moving_rails (map axis_index [axis.Left, axis.Right, axis.Top, axis.Bottom])
    link_rail_position.Grip t)"
  have "touches t ?u" by (intro touches_simps touches_folds touches_refl)
  moreover have "may_move UNIV {} ?u"
    using t by (auto simp: moved_def going_def intro!: may_move_mono [OF moving_rails_moves])
  ultimately have "moved (Some m, None, None) UNIV {} ?u"
    using command_moved [of t "Done ?u"] t by (simp add: moved_def going_def)
  then show "outcome_all motion_inv (\<lambda>_. True) (and_then (set_motion_phase GripFinishRails
      (now + rail_duration (svc_calibration ?u) NearGrip) 1 ?u) (\<lambda>s. Done (emit_stand s)))"
    by (rule phase_continues) simp
qed

lemma grip_finish_rails_moves:
  assumes "moved (Some m, None, None) UNIV {} s"
  shows "outcome_all motion_inv (\<lambda>_. True) (grip_finish_rails B s)"
  unfolding grip_finish_rails_def Let_def
proof (rule outcome_all_and_then [OF moved_output [OF assms]])
  fix t :: "('a, 'b) service" assume "moved (Some m, None, None) UNIV {} t"
  let ?u = "finish_rails [axis.Top, axis.Bottom] link_rail_position.Grip
    (finish_rails [axis.Left, axis.Right] link_rail_position.Grip t)"
  have "moved (Some m, None, None) (UNIV - {0, 1} - {2, 3}) {} ?u"
    using moved_finish_rails [OF moved_finish_rails [OF \<open>moved (Some m, None, None) UNIV {} t\<close>]]
    by (metis pair_axes)
  then have u: "fields_of ?u = (Some m, None, None)" "may_move {} {} ?u"
    by (auto simp: moved_def going_def may_move_def within_axes_def numeral_eq_Suc less_Suc_eq)
  let ?s = "set_pose canonical_grip_pose ?u"
  show "outcome_all motion_inv (\<lambda>_. True) (complete_operation
     (emit (event_message.CubeSessionChanged (Some \<lparr> cs_id = next_session_id ?s \<rparr>))
       (on_status (\<lambda>st. st\<lparr> st_cube_session := Some \<lparr> cs_id = next_session_id ?s \<rparr> \<rparr>)
         (?s\<lparr> next_session_id := next_id (next_session_id ?s) \<rparr>))))"
    using u
    by (intro operation_completes)
      (simp_all add: resting_def may_move_def, simp_all add: fields_of_def axes_of_def pose_of_def svc_defs
        canonical_grip_pose_def)
qed

lemma advance_motion_moves:
  assumes "service_inv s" "motion_inv s" "advance_motion B now s = Some s'"
  shows "motion_inv s'"
proof (cases "svc_motion s")
  case None
  then show ?thesis using assms by (simp add: advance_motion_def)
next
  case (Some m)
  then have f: "fields_of s = (Some m, None, None)"
    using busy_cases(1) [OF assms(1)] by (auto simp: held_by_def in_activity_def fields_of_def)
  have x: "moves_as (phase_moves (am_phase m)) s" using assms(2) Some by (simp add: motion_inv_def)
  then have start: "am_phase m \<in> {RecoverStart, GripStart} \<Longrightarrow> resting s"
    and run: "phase_moves (am_phase m) = Some (R, G) \<Longrightarrow> moved (Some m, None, None) R G s" for R G
    using f by (auto simp: moves_as_def moved_def)
  have "outcome_all motion_inv (\<lambda>_. True) (motion_handler B (am_phase m) now s)"
    using start run
    by (cases "am_phase m")
      (auto simp: motion_handler_def intro: recover_start_moves [OF f] grip_start_moves [OF f]
        recover_finish_left_right_moves recover_finish_top_bottom_moves recover_finish_grippers_moves
        grip_finish_grippers_moves grip_finish_rails_moves)
  then show ?thesis
    using settle_moves [of _ B "am_operation_id m" s'] assms(3) Some
    by (auto simp: advance_motion_def settle_def)
qed

section \<open>Steps of scans and executions\<close>

text \<open>
  The three states of a step: it commands an axis pair, completes one, or does neither. The field is
  written back at the end, so what is shown is the motion alone.
\<close>

lemma finish_pending_moves:
  assumes "moves_as (Some (step_moves pending)) s"
  shows "outcome_all (\<lambda>t. fields_of t = fields_of s \<and> resting t) (\<lambda>_. True) (finish_pending B pending s)"
proof -
  obtain R G where RG: "step_moves pending = (R, G)" by fastforce
  have s: "may_move R G s" "pose_kind (pose_of s) \<noteq> CanonicalGrip"
    using assms by (simp_all add: moves_as_def RG going_def)
  have "outcome_all (may_move {} {}) (\<lambda>_. True) (finish_pending B pending s)"
  proof (cases pending)
    case (Rails target position)
    then show ?thesis using s(1) RG finish_motion_rails_moves by (auto simp: finish_pending_def)
  next
    case (Grippers poses)
    then show ?thesis
      using s(1) RG finish_scan_grippers_moves [of R G s poses] by (auto simp: finish_pending_def)
  qed
  from command_moved [OF finish_pending_touches [OF touches_refl] this refl s(2)]
  show ?thesis by (rule outcome_all_mono) (simp_all add: moved_def going_def resting_def)
qed

lemma scan_writes:
  assumes "fields_of s = (None, X, None)" "moves_as (map_option step_moves (as_pending x)) s"
  shows "motion_inv (s\<lparr> svc_scan := Some x \<rparr>)"
  using assms
  by (auto simp: fields_of_def motion_inv_def moves_as_def resting_def going_def may_move_def axes_of_def pose_of_def
      split: option.splits)

lemma execute_writes:
  assumes "fields_of s = (None, None, X)" "moves_as (map_option step_moves (ae_pending e)) s"
  shows "motion_inv (s\<lparr> svc_execute := Some e \<rparr>)"
  using assms
  by (auto simp: fields_of_def motion_inv_def moves_as_def resting_def going_def may_move_def axes_of_def pose_of_def
      split: option.splits)

lemma rails_commanded:
  assumes "resting s" "pose_kind pose \<noteq> CanonicalGrip" "fields_of s = fds"
  shows "outcome_all (\<lambda>t. fields_of t = fds \<and> moves_as (Some (step_moves (Rails target position))) t) (\<lambda>_. True)
    (command_motion_rails B target position (set_pose pose s))"
proof -
  have "may_move {} {} (set_pose pose s)" using assms(1) by (simp add: resting_def may_move_def)
  from command_moved [OF command_motion_rails_touches [OF touches_refl] command_motion_rails_moves [OF this], of fds]
  show ?thesis using assms(2,3) by (simp add: moves_as_def moved_def [abs_def])
qed

lemma grippers_commanded:
  assumes "resting s" "pose_kind pose \<noteq> CanonicalGrip" "fields_of s = fds"
  shows "outcome_all (\<lambda>t. fields_of t = fds \<and> moves_as (Some (step_moves (Grippers poses))) t) (\<lambda>_. True)
    (command_scan_grippers B poses (set_pose pose s))"
proof -
  have "may_move {} {} (set_pose pose s)" using assms(1) by (simp add: resting_def may_move_def)
  from command_moved [OF command_scan_grippers_touches [OF touches_refl] command_scan_grippers_moves [OF this], of fds]
  show ?thesis using assms(2,3) by (simp add: moves_as_def moved_def [abs_def])
qed

lemma rests_inv: "fields_of s = (None, None, None) \<Longrightarrow> resting s \<Longrightarrow> motion_inv s"
  by (simp add: fields_of_def motion_inv_def)

lemma field_simps' [simp]:
  "axes_of (s\<lparr> svc_scanner := x \<rparr>) = axes_of s" "pose_of (s\<lparr> svc_scanner := x \<rparr>) = pose_of s"
  "fields_of (s\<lparr> svc_scanner := x \<rparr>) = fields_of s"
  "axes_of (s\<lparr> svc_scan := y \<rparr>) = axes_of s" "pose_of (s\<lparr> svc_scan := y \<rparr>) = pose_of s"
  "axes_of (s\<lparr> svc_execute := z \<rparr>) = axes_of s" "pose_of (s\<lparr> svc_execute := z \<rparr>) = pose_of s"
  "axes_of (s\<lparr> svc_solve := w \<rparr>) = axes_of s" "pose_of (s\<lparr> svc_solve := w \<rparr>) = pose_of s"
  "fields_of (s\<lparr> svc_solve := w \<rparr>) = fields_of s"
  "axes_of (begin_solver i r k f s) = axes_of s" "pose_of (begin_solver i r k f s) = pose_of s"
  "fields_of (begin_solver i r k f s) = fields_of s"
  "axes_of (s\<lparr> next_operation_id := n \<rparr>) = axes_of s" "pose_of (s\<lparr> next_operation_id := n \<rparr>) = pose_of s"
  "fields_of (s\<lparr> next_operation_id := n \<rparr>) = fields_of s"
  "axes_of (s\<lparr> next_scan_revision := n \<rparr>) = axes_of s" "pose_of (s\<lparr> next_scan_revision := n \<rparr>) = pose_of s"
  "fields_of (s\<lparr> next_scan_revision := n \<rparr>) = fields_of s"
  by (simp_all add: axes_of_def pose_of_def fields_of_def begin_solver_def svc_defs Let_def)

lemma moves_as_cong:
  assumes "axes_of s = axes_of t" "pose_of s = pose_of t"
  shows "moves_as X s = moves_as X t"
proof -
  have "may_move R G s = may_move R G t" for R G using assms(1) by (simp add: may_move_def)
  then show ?thesis using assms(2) by (cases X) (auto simp: moves_as_def resting_def going_def)
qed

lemma motion_inv_cong:
  assumes "axes_of s = axes_of t" "pose_of s = pose_of t" "fields_of s = fields_of t"
  shows "motion_inv s = motion_inv t"
proof -
  have "moves_as X s = moves_as X t" for X by (rule moves_as_cong [OF assms(1,2)])
  moreover from this [of None] have "resting s = resting t" by (simp add: moves_as_def)
  ultimately show ?thesis using assms(3) by (simp add: motion_inv_def fields_of_def)
qed

lemma finish_scan_moves:
  assumes "finish_scan_operation B scan s = Some s'"
  shows "fields_of s' = fields_of s \<and> axes_of s' = axes_of s \<and> pose_of s' = canonical_grip_pose"
  using assms
  by (auto simp: finish_scan_operation_def Let_def bind_eq_Some_conv split: option.splits if_splits)

lemma capture_moves:
  assumes "capture_step B f scan s = Some (scan', s')"
  shows "fields_of s' = fields_of s \<and> axes_of s' = axes_of s \<and>
    pose_of s' = \<lparr> pose_kind = ScanPose, pose_camera_face = Some f \<rparr> \<and> as_pending scan' = as_pending scan"
  using assms
  by (auto simp: capture_step_def capture_result_def accept_face_def Let_def bind_eq_Some_conv
      split: option.splits if_splits prod.splits sum.splits)

lemma advance_scan_moves:
  assumes "service_inv s" "motion_inv s" "advance_scan B now s = Some s'"
  shows "motion_inv s'"
proof (cases "svc_scan s")
  case None
  then show ?thesis using assms by (simp add: advance_scan_def)
next
  case (Some scan)
  let ?s = "s\<lparr> svc_scan := None \<rparr>"
  have f: "fields_of ?s = (None, None, None)"
    using busy_cases(2) [OF assms(1) Some] by (auto simp: held_by_def in_activity_def fields_of_def)
  have m: "moves_as (map_option step_moves (as_pending scan)) ?s"
    using assms(2) Some moves_as_cong [of ?s s] by (simp add: motion_inv_def)
  show ?thesis
  proof (cases "waiting (as_deadline scan) now")
    case True
    then show ?thesis using assms(2,3) Some by (simp add: advance_scan_def)
  next
    case go: False
    show ?thesis
    proof (cases "as_pending scan")
      case p: (Some pending)
      have "outcome_all motion_inv (\<lambda>_. True) (and_then (finish_pending B pending ?s) (\<lambda>s.
          Done ((emit_stand (advance_action_counter s))\<lparr> svc_scan := Some (scan\<lparr> as_pending := None, as_deadline := None \<rparr>) \<rparr>)))"
        by (rule outcome_all_and_then [OF finish_pending_moves])
          (use m p f in \<open>auto simp: moves_as_def resting_def may_move_def intro!: scan_writes [where X = None]\<close>)
      then show ?thesis
        using assms(3) Some go p settle_moves by (auto simp: advance_scan_def Let_def)
    next
      case None
      then have r: "resting ?s" using m by (simp add: moves_as_def)
      show ?thesis
      proof (cases "as_steps scan")
        case Nil
        then have "finish_scan_operation B scan ?s = Some s'"
          using assms(3) Some go None by (simp add: advance_scan_def Let_def)
        from finish_scan_moves [OF this] r f show ?thesis
          by (intro rests_inv) (simp_all add: resting_def may_move_def canonical_grip_pose_def)
      next
        case (Cons step steps)
        let ?x = "scan\<lparr> as_steps := steps \<rparr>"
        have step: "scan_step B now step ?x ?s = Some s'"
          using assms(3) Some go None Cons by (simp add: advance_scan_def Let_def)
        have t: "pose_kind transitional_pose \<noteq> CanonicalGrip" by (simp add: transitional_pose_def)
        have w: "motion_inv (t\<lparr> svc_scan := Some (?x\<lparr> as_pending := Some pending, as_deadline := d \<rparr>) \<rparr>)"
          if "fields_of t = (None, None, None) \<and> moves_as (Some (step_moves pending)) t"
          for t :: "('a, 'b) service" and pending d
          using that by (intro scan_writes [where X = None]) simp_all
        show ?thesis
        proof (cases step)
          case (SetRails target position)
          have "outcome_all motion_inv (\<lambda>_. True) (and_then (command_motion_rails B target position
              (set_pose transitional_pose ?s)) (\<lambda>s. Done (s\<lparr> svc_scan := Some (?x\<lparr> as_pending := Some (Rails target position),
                as_deadline := Some (now + rail_duration (svc_calibration s) position) \<rparr>) \<rparr>)))"
            by (rule outcome_all_and_then [OF rails_commanded [OF r t f]]) (simp only: outcome_all.simps, rule w)
          then show ?thesis using step settle_moves by (simp add: scan_step_def SetRails)
        next
          case (SetGrippers poses)
          have "outcome_all motion_inv (\<lambda>_. True) (and_then (command_scan_grippers B poses (set_pose transitional_pose ?s))
              (\<lambda>s. Done (s\<lparr> svc_scan := Some (?x\<lparr> as_pending := Some (Grippers poses), as_deadline := Some
                (now + gripper_motion_duration (set_pose transitional_pose ?s) poses) \<rparr>) \<rparr>)))"
            by (rule outcome_all_and_then [OF grippers_commanded [OF r t f]]) (simp only: outcome_all.simps, rule w)
          then show ?thesis using step settle_moves by (simp add: scan_step_def SetGrippers Let_def)
        next
          case (Capture f')
          obtain scan' t where "capture_step B f' ?x ?s = Some (scan', t)" "s' = t\<lparr> svc_scan := Some scan' \<rparr>"
            using step by (auto simp: scan_step_def Capture bind_eq_Some_conv)
          with capture_moves [OF this(1)] r f None show ?thesis
            by (auto simp: moves_as_def resting_def may_move_def intro!: scan_writes [where X = None])
        qed (use step in \<open>auto simp: scan_step_def settle_def enter_fault_moves\<close>)
      qed
    qed
  qed
qed

section \<open>Executions and the solver\<close>

lemma move_pose_not_canonical: "pose_kind (move_pose knd) \<noteq> CanonicalGrip"
  by (simp add: move_pose_def transitional_pose_def)

lemma finish_execute_moves:
  "fields_of (finish_execute_operation i knd s) = fields_of s \<and> axes_of (finish_execute_operation i knd s) = axes_of s \<and>
     (pose_kind (pose_of (finish_execute_operation i knd s)) = CanonicalGrip \<longrightarrow>
        pose_camera_face (pose_of (finish_execute_operation i knd s)) = Some cube_face.Front)"
  by (simp add: finish_execute_operation_def Let_def canonical_grip_pose_def open_pose_def)
    (auto simp: fields_of_def axes_of_def pose_of_def svc_defs)

lemma output_rests: "resting s \<Longrightarrow> fields_of s = fds \<Longrightarrow>
    outcome_all (\<lambda>t. fields_of t = fds \<and> resting t) (\<lambda>_. True) (use_output f s)"
  by (auto simp: use_output_def resting_def may_move_def axes_of_def pose_of_def fields_of_def split: prod.split)

lemma execute_step_moves:
  assumes r: "resting s" and f: "fields_of s = (None, None, None)" and e: "ae_pending e = None"
  shows "outcome_all motion_inv (\<lambda>_. True) (execute_step B now step e s)"
proof -
  have w: "motion_inv (t\<lparr> svc_execute := Some (e\<lparr> ae_pending := Some pending, ae_deadline := d \<rparr>) \<rparr>)"
    if "fields_of t = (None, None, None) \<and> moves_as (Some (step_moves pending)) t"
    for t :: "('a, 'b) service" and pending d
    using that by (intro execute_writes [where X = None]) simp_all
  show ?thesis
  proof (cases step)
    case (SetRails target position)
    show ?thesis
      unfolding execute_step_def SetRails motion_step.case
      by (rule outcome_all_and_then [OF rails_commanded [OF r move_pose_not_canonical f]])
        (simp only: outcome_all.simps, rule w)
  next
    case (SetGrippers poses)
    show ?thesis
      unfolding execute_step_def SetGrippers motion_step.case Let_def
      by (rule outcome_all_and_then [OF grippers_commanded [OF r move_pose_not_canonical f]])
        (simp only: outcome_all.simps, rule w)
  next
    case MoveCompleted
    show ?thesis
      using r f e by (auto simp: execute_step_def MoveCompleted Let_def moves_as_def resting_def may_move_def
          intro!: execute_writes [where X = None])
  next
    case AllOff
    show ?thesis
      unfolding execute_step_def AllOff motion_step.case Let_def
      by (rule outcome_all_and_then [OF output_rests [OF r f]])
        (use e in \<open>auto simp: moves_as_def resting_def may_move_def intro!: execute_writes [where X = None]\<close>)
  qed (simp add: execute_step_def)
qed

lemma advance_execute_moves:
  assumes "service_inv s" "motion_inv s" "advance_execute B now s = Some s'"
  shows "motion_inv s'"
proof (cases "svc_execute s")
  case None
  then show ?thesis using assms by (simp add: advance_execute_def)
next
  case (Some e)
  let ?s = "s\<lparr> svc_execute := None \<rparr>"
  have f: "fields_of ?s = (None, None, None)"
    using busy_cases(4) [OF assms(1) Some] by (auto simp: held_by_def in_activity_def fields_of_def)
  have m: "moves_as (map_option step_moves (ae_pending e)) ?s"
    using assms(2) Some moves_as_cong [of ?s s] by (simp add: motion_inv_def)
  show ?thesis
  proof (cases "waiting (ae_deadline e) now")
    case True
    then show ?thesis using assms(2,3) Some by (simp add: advance_execute_def)
  next
    case go: False
    show ?thesis
    proof (cases "ae_pending e")
      case p: (Some pending)
      have "outcome_all motion_inv (\<lambda>_. True) (and_then (finish_pending B pending ?s) (\<lambda>s.
          Done ((emit_stand (advance_action_counter s))\<lparr> svc_execute := Some (e\<lparr> ae_pending := None, ae_deadline := None \<rparr>) \<rparr>)))"
        by (rule outcome_all_and_then [OF finish_pending_moves])
          (use m p f in \<open>auto simp: moves_as_def resting_def may_move_def intro!: execute_writes [where X = None]\<close>)
      then show ?thesis
        using assms(3) Some go p settle_moves by (auto simp: advance_execute_def Let_def)
    next
      case None
      then have r: "resting ?s" using m by (simp add: moves_as_def)
      show ?thesis
      proof (cases "ae_steps e")
        case Nil
        then have "s' = finish_execute_operation (ae_operation_id e) (ae_kind e) ?s"
          using assms(3) Some go None by (simp add: advance_execute_def Let_def)
        with finish_execute_moves [of "ae_operation_id e" "ae_kind e" ?s] r f show ?thesis
          by (intro rests_inv) (simp_all add: resting_def may_move_def)
      next
        case (Cons step steps)
        from execute_step_moves [OF r f, of "e\<lparr> ae_steps := steps \<rparr>" B now step] None Cons assms(3) Some go
        show ?thesis by (auto simp: advance_execute_def Let_def intro: settle_moves)
      qed
    qed
  qed
qed

lemma resting_cong: "axes_of s = axes_of t \<Longrightarrow> pose_of s = pose_of t \<Longrightarrow> resting s = resting t"
  using moves_as_cong [of s t None] by (simp add: moves_as_def)

lemma execute_begins: "fields_of s = (None, None, None) \<Longrightarrow> resting s \<Longrightarrow>
    motion_inv (emit_robot_state (begin_execute i k steps s))"
  using execute_writes [of s None] motion_inv_cong [of "emit_robot_state (begin_execute i k steps s)" "begin_execute i k steps s"]
  by (simp add: begin_execute_def moves_as_def)

lemma finish_solve_moves:
  assumes "finish_solve a moves s = Some s'" "fields_of s = (None, None, None)" "resting s"
  shows "motion_inv s'"
proof -
  have n: "axes_of (t\<lparr> next_solution_id := i \<rparr>) = axes_of t" "pose_of (t\<lparr> next_solution_id := i \<rparr>) = pose_of t"
    "fields_of (t\<lparr> next_solution_id := i \<rparr>) = fields_of t" for t :: "('a, 'b) service" and i
    by (simp_all add: axes_of_def pose_of_def fields_of_def)
  have same: "motion_inv t" "resting t"
    if "axes_of t = axes_of s" "pose_of t = pose_of s" "fields_of t = fields_of s" for t :: "('a, 'b) service"
    using that assms(2,3) rests_inv [of t] resting_cong [of t s] by simp_all
  show ?thesis
  proof (cases "length moves > MAX_SOLUTION_MOVES \<or> av_kind a \<noteq> operation_kind.ScanSolveExecute")
    case True
    then show ?thesis
      using assms(1) by (auto simp: finish_solve_def finish_solve_failure_def Let_def n intro!: same(1) split: if_splits)
  next
    case False
    then obtain steps where steps: "execute_steps moves = Some steps"
      using assms(1) by (auto simp: finish_solve_def bind_eq_Some_conv)
    define t where "t = on_operation (\<lambda>operation. let current = saturating_add16 (op_current_action operation) 1
        in operation\<lparr> op_current_action := current,
             op_action_count := saturating_add16 current (of_nat (length steps)) \<rparr>)
      (on_solution (\<lambda>sol. sol\<lparr> sol_state := solution_state_kind.Executing, sol_completed_moves := 0 \<rparr>)
      (on_solution (\<lambda>_. solved (next_solution_id s) (av_scan_revision a) moves)
      (s\<lparr> next_solution_id := next_id (next_solution_id s) \<rparr>)))"
    have t: "axes_of t = axes_of s" "pose_of t = pose_of s" "fields_of t = fields_of s"
      by (simp_all only: t_def axes_simps pose_simps fields_simps n)
    have "s' = emit_robot_state (begin_execute (av_operation_id a) (av_kind a) steps t)"
      using assms(1) False steps by (simp add: finish_solve_def begin_execute_def t_def Let_def)
    with execute_begins [of t] same(2) [OF t] t(3) assms(2) show ?thesis by simp
  qed
qed

lemma advance_solve_moves:
  assumes "service_inv s" "motion_inv s" "advance_solve B poll s = Some s'"
  shows "motion_inv s'"
proof (cases "svc_solve s")
  case None
  then show ?thesis using assms by (simp add: advance_solve_def)
next
  case (Some a)
  have f: "fields_of s = (None, None, None)"
    using busy_cases(3) [OF assms(1) Some] by (auto simp: held_by_def in_activity_def fields_of_def)
  then have r: "resting s" using assms(2) by (simp add: motion_inv_def fields_of_def)
  have fail: "motion_inv (finish_solve_failure i (s\<lparr> svc_solve := None \<rparr>))" for i
    using f r by (intro rests_inv) (simp_all add: finish_solve_failure_def Let_def resting_def may_move_def)
  have "resting (s\<lparr> svc_solve := None \<rparr>)" using r by (simp add: resting_def may_move_def)
  with finish_solve_moves [of a _ "s\<lparr> svc_solve := None \<rparr>" s'] f fail assms(2,3) Some show ?thesis
    by (auto simp: advance_solve_def Let_def split: try_recv.splits sum.splits)
qed

lemma tick_moves:
  assumes "service_inv s" "motion_inv s" "tick B now poll s = Some (msgs, s')"
  shows "motion_inv s'"
proof -
  obtain a b c d where steps: "tick_motion B now s = Some a" "advance_scan B now a = Some b"
    "advance_solve B poll b = Some c" "advance_execute B now c = Some d" "s' = d\<lparr> svc_events := [] \<rparr>"
    using assms(3) by (auto simp: tick_def drain_events_def bind_eq_Some_conv)
  have a: "service_inv a" "motion_inv a"
    using tick_motion_inv [OF assms(1), of B now] steps(1) assms advance_motion_moves
    by (auto simp: tick_motion_def split: option.splits if_splits)
  have b: "service_inv b" "motion_inv b"
    using advance_scan_inv [OF a(1), of B now] steps(2) advance_scan_moves [OF a] by auto
  have c: "service_inv c" "motion_inv c"
    using advance_solve_inv [OF b(1), of B poll] steps(3) advance_solve_moves [OF b] by auto
  have "motion_inv d" using advance_execute_moves [OF c] steps(4) by blast
  then show ?thesis
    unfolding steps(5) by (subst motion_inv_cong [of _ d]) (simp_all add: axes_of_def pose_of_def fields_of_def)
qed

section \<open>Requests\<close>

lemma idle_rests: "motion_inv s \<Longrightarrow> \<not> operation_active s \<Longrightarrow> resting s \<and> fields_of s = (None, None, None)"
  by (simp add: operation_active_def motion_inv_def fields_of_def)

lemma begin_operation_moves_simps [simp]:
  "axes_of (snd (begin_operation k n s)) = axes_of s" "pose_of (snd (begin_operation k n s)) = pose_of s"
  "fields_of (snd (begin_operation k n s)) = fields_of s"
  by (simp_all add: begin_operation_def Let_def)

lemma scan_begins: "fields_of s = (None, None, None) \<Longrightarrow> resting s \<Longrightarrow> as_pending x = None \<Longrightarrow>
    motion_inv (emit_robot_state (s\<lparr> svc_scan := Some x \<rparr>))"
  using scan_writes [of s None x] motion_inv_cong [of "emit_robot_state (s\<lparr> svc_scan := Some x \<rparr>)" "s\<lparr> svc_scan := Some x \<rparr>"]
  by (simp add: moves_as_def)

lemma start_operation_moves:
  assumes "motion_inv s"
  shows "motion_inv (snd (start_operation k s))"
proof (cases "operation_active s")
  case False
  note r = idle_rests [OF assms False]
  let ?t = "\<lambda>n. on_status (\<lambda>st. st\<lparr> st_fault := None \<rparr>) (snd (begin_operation k n s))"
  have "resting (?t n)" "fields_of (?t n) = (None, None, None)" for n
    using r resting_cong [of "?t n" "snd (begin_operation k n s)"] resting_cong [of "snd (begin_operation k n s)" s]
    by (simp_all add: axes_of_def pose_of_def svc_defs)
      (simp_all add: fields_of_def begin_operation_def svc_defs Let_def)
  then have "motion_inv (emit_robot_state ((?t n)\<lparr> svc_motion := Some \<lparr> am_operation_id = i, am_kind = k,
      am_phase = p, am_deadline = None \<rparr> \<rparr>))" if "phase_moves p = None" for n i p
    using that resting_cong [of "emit_robot_state ((?t n)\<lparr> svc_motion := Some \<lparr> am_operation_id = i, am_kind = k,
      am_phase = p, am_deadline = None \<rparr> \<rparr>)" "?t n"]
    by (auto simp: motion_inv_def moves_as_def fields_of_def axes_of_def pose_of_def svc_defs)
  then show ?thesis
    using assms False by (auto simp: start_operation_def Let_def split_beta split: sum.split operation_kind.split)
qed (use assms in \<open>simp add: start_operation_def\<close>)

lemma start_scan_operation_moves:
  assumes "motion_inv s" "start_scan_operation B i session_id k s = Some (r, s')"
  shows "motion_inv s'"
proof (cases "operation_active s")
  case False
  note r = idle_rests [OF assms(1) False]
  obtain ok scanner where scanner: "begin_scan B (svc_scanner s) (next_scan_revision s) = (ok, scanner)" by fastforce
  have same: "motion_inv (s\<lparr> svc_scanner := x \<rparr>)" for x
    by (subst motion_inv_cong [of _ s]) (simp_all add: assms(1))
  let ?b = "\<lambda>m. snd (begin_operation k m (s\<lparr> svc_scanner := scanner, next_scan_revision := next_id (next_scan_revision s) \<rparr>))"
  have "motion_inv (emit_robot_state ((on_solution g (on_scan f (?b m)))\<lparr> svc_scan := Some x \<rparr>))"
    if "as_pending x = None" for m f g x
    using r that resting_cong [of "on_solution g (on_scan f (?b m))" s] by (intro scan_begins) simp_all
  then show ?thesis
    using assms same scanner
    by (auto simp: start_scan_operation_def Let_def split_beta bind_eq_Some_conv
        split: if_splits option.splits bool.splits)
qed (use assms in \<open>auto simp: start_scan_operation_def Let_def split: if_splits\<close>)

lemma begin_execute_moves:
  assumes "motion_inv s" "\<not> operation_active s"
  shows "motion_inv (emit_robot_state (begin_execute i k steps (set_controller c opr (s\<lparr> next_operation_id := n \<rparr>))))"
    and "motion_inv (emit_robot_state (begin_execute i k steps
      (on_solution g (set_controller c opr (s\<lparr> next_operation_id := n \<rparr>)))))"
  using idle_rests [OF assms] resting_cong [of "set_controller c opr (s\<lparr> next_operation_id := n \<rparr>)" s]
    resting_cong [of "on_solution g (set_controller c opr (s\<lparr> next_operation_id := n \<rparr>))" s]
  by (auto intro!: execute_begins)

lemma begin_solver_moves:
  "motion_inv s \<Longrightarrow>
    motion_inv (emit_robot_state (begin_solver i r k f (set_controller c opr (s\<lparr> next_operation_id := n \<rparr>))))"
  by (subst motion_inv_cong [of _ s]) simp_all

lemma start_solve_moves:
  assumes "motion_inv s" "start_solve_request B p s = Some (r, s')"
  shows "motion_inv s'"
proof (cases "cube_from_scan (st_scan (svc_status s))")
  case None
  then show ?thesis
    using assms by (auto simp: start_solve_request_def Let_def split_beta split: sum.splits if_splits option.splits)
next
  case (Some c)
  define fs where "fs = (case c of Inl _ \<Rightarrow> Some None
    | Inr cube \<Rightarrow> map_option (\<lambda>r. case r of Inl _ \<Rightarrow> None | Inr f \<Rightarrow> Some f) (facelet_string cube))"
  show ?thesis
    using assms unfolding start_solve_request_def Let_def split_beta Some bind.bind_lunit fs_def [symmetric]
    by (cases fs) (auto simp: begin_solver_moves split: sum.splits if_splits option.splits)
qed

lemma start_execute_moves:
  "motion_inv s \<Longrightarrow> start_execute_request B p s = Some (r, s') \<Longrightarrow> motion_inv s'"
  by (auto simp: start_execute_request_def Let_def split_beta bind_eq_Some_conv begin_execute_moves
      split: sum.splits if_splits option.splits)

lemma start_execute_moves_moves:
  "motion_inv s \<Longrightarrow> start_execute_moves_request B p s = Some (r, s') \<Longrightarrow> motion_inv s'"
  by (auto simp: start_execute_moves_request_def Let_def split_beta bind_eq_Some_conv begin_execute_moves
      split: sum.splits if_splits option.splits)

lemma start_open_moves: "motion_inv s \<Longrightarrow> motion_inv (snd (start_open_request B p s))"
  by (auto simp: start_open_request_def Let_def split_beta begin_execute_moves split: sum.split option.split)

lemma dispatch_moves:
  assumes "motion_inv s" "dispatch_new_request B p s = Some (r, s')"
  shows "motion_inv s'"
proof -
  have empty: "motion_inv (snd (start_empty_payload_operation p k s))" for k
    using start_operation_moves [OF assms(1), of k]
    by (auto simp: start_empty_payload_operation_def assms(1) split: prod.split sum.split)
  have scan: "start_scan_request B p k s = Some (r, s') \<Longrightarrow> motion_inv s'" for k
    using start_scan_operation_moves [OF assms(1)] assms(1)
    by (auto simp: start_scan_request_def split: sum.splits)
  show ?thesis
    using assms empty [of operation_kind.RecoverToOpen] empty [of operation_kind.Grip] start_open_moves [OF assms(1), of B p]
      scan start_solve_moves [OF assms(1)] start_execute_moves [OF assms(1)] start_execute_moves_moves [OF assms(1)]
      abort_moves
    by (auto simp: dispatch_new_request_def Let_def split: sum.splits if_splits request_opcode.splits)
qed

lemma fields_drained [simp]:
  "motion_inv (s\<lparr> svc_events := es \<rparr>) = motion_inv s" "motion_inv (cache_response opc r s) = motion_inv s"
  by (rule motion_inv_cong; simp add: axes_of_def pose_of_def fields_of_def cache_response_def Let_def)+

lemma handle_packet_moves:
  "motion_inv s \<Longrightarrow> handle_packet B p s = Some (msgs, s') \<Longrightarrow> motion_inv s'"
  using dispatch_moves [of s B p]
  by (auto simp: handle_packet_def drain_events_def Let_def bind_eq_Some_conv split: option.splits)

lemma handle_local_moves:
  assumes "motion_inv s" "handle_local_command B c s = Some (r, s')"
  shows "motion_inv s'"
proof (cases c)
  case (ScanSolveExecute i)
  obtain a t where t: "start_scan_operation B 0 i operation_kind.ScanSolveExecute s = Some (a, t)"
    using assms(2) by (cases "start_scan_operation B 0 i operation_kind.ScanSolveExecute s")
      (auto simp: handle_local_command_def ScanSolveExecute)
  then show ?thesis
    using assms start_scan_operation_moves [OF assms(1) t]
    by (cases "rsp_payload a") (auto simp: handle_local_command_def ScanSolveExecute drain_events_def)
qed (use assms start_operation_moves [OF assms(1), of operation_kind.RecoverToOpen]
    start_operation_moves [OF assms(1), of operation_kind.Grip] abort_moves in
    \<open>auto simp: handle_local_command_def drain_events_def Let_def split: prod.splits sum.splits\<close>)

lemma service_reach_moves: "service_reach B s \<Longrightarrow> motion_inv s"
proof (induction rule: service_reach.induct)
  case (time s now poll msgs s')
  then show ?case using tick_moves service_reach_inv by blast
qed (auto simp: with_scanner_moves intro: handle_packet_moves handle_local_moves)

section \<open>What a status can show\<close>

lemma going_disjoint:
  assumes "motion_inv s" "service_inv s"
  shows "\<exists>R G. may_move R G s \<and> (R = {} \<or> G = {}) \<and> (pose_kind (pose_of s) = CanonicalGrip \<longrightarrow>
    pose_camera_face (pose_of s) = Some cube_face.Front \<and> R = {} \<and> G = {})"
proof -
  have phase: "phase_moves p = Some (R, G) \<Longrightarrow> R = {} \<or> G = {}" for p R G by (cases p) auto
  have step: "step_moves q = (R, G) \<Longrightarrow> R = {} \<or> G = {}" for q R G by (cases q) auto
  have "\<exists>X. moves_as X s \<and> (\<forall>R G. X = Some (R, G) \<longrightarrow> R = {} \<or> G = {})"
  proof -
    consider m where "svc_motion s = Some m" | x where "svc_scan s = Some x" | e where "svc_execute s = Some e"
      | "svc_motion s = None" "svc_scan s = None" "svc_execute s = None"
      by auto
    then show ?thesis
    proof cases
      case 1
      then show ?thesis using assms(1) phase unfolding motion_inv_def by blast
    next
      case 2
      then have "moves_as (map_option step_moves (as_pending x)) s" using assms(1) by (simp add: motion_inv_def)
      then show ?thesis using step by (intro exI [of _ "map_option step_moves (as_pending x)"]) auto
    next
      case 3
      then have "moves_as (map_option step_moves (ae_pending e)) s" using assms(1) by (simp add: motion_inv_def)
      then show ?thesis using step by (intro exI [of _ "map_option step_moves (ae_pending e)"]) auto
    next
      case 4
      then have "moves_as None s" using assms(1) by (simp add: motion_inv_def moves_as_def)
      then show ?thesis by blast
    qed
  qed
  then obtain X where X: "moves_as X s" "\<And>R G. X = Some (R, G) \<Longrightarrow> R = {} \<or> G = {}" by blast
  show ?thesis
  proof (cases X)
    case None
    then show ?thesis using X(1) by (intro exI [of _ "{}"]) (auto simp: moves_as_def resting_def)
  next
    case (Some Y)
    obtain R G where Y: "Y = (R, G)" by (cases Y)
    then show ?thesis using X Some by (intro exI [of _ R] exI [of _ G]) (auto simp: moves_as_def going_def)
  qed
qed

end
