(* ===== verification/SimSessionSafety.thy ===== *)
theory SimSessionSafety
  imports SimSession SimStateSafety ServiceMotion
begin

text \<open>
  A whole browser session of the simulator: the handlers of commands, the pump and the daemon run in any
  order over the shared state, and no step panics. What the daemon reports never moves rails and grippers
  together, so two of the display's rules never fire.
\<close>

section \<open>Request identifiers and frames\<close>

definition http_id :: "u32 \<Rightarrow> bool" where
  "http_id i \<longleftrightarrow> FIRST_HTTP_REQUEST_ID \<le> i \<and> i \<le> LAST_HTTP_REQUEST_ID"

lemma http_id_first [simp]: "http_id FIRST_HTTP_REQUEST_ID"
  by (simp add: http_id_def FIRST_HTTP_REQUEST_ID_def LAST_HTTP_REQUEST_ID_def)

lemma next_http_id_unat:
  assumes "http_id i"
  shows "unat (next_http_id i) = (if unat i = 0x0fffffff then 0x01000000 else unat i + 1)"
proof -
  have b: "0x01000000 \<le> unat i" "unat i \<le> 0x0fffffff"
    using assms by (simp_all add: http_id_def FIRST_HTTP_REQUEST_ID_def LAST_HTTP_REQUEST_ID_def word_le_nat_alt)
  then have "i \<ge> LAST_HTTP_REQUEST_ID \<longleftrightarrow> unat i = 0x0fffffff"
    by (auto simp: LAST_HTTP_REQUEST_ID_def word_le_nat_alt)
  moreover have "unat (i + 1) = unat i + 1" using b(2) by (subst unat_add_lem [THEN iffD1]) simp_all
  ultimately show ?thesis by (simp add: next_http_id_def FIRST_HTTP_REQUEST_ID_def)
qed

lemma http_id_unat: "http_id i \<longleftrightarrow> 0x01000000 \<le> unat i \<and> unat i \<le> 0x0fffffff"
  by (simp add: http_id_def FIRST_HTTP_REQUEST_ID_def LAST_HTTP_REQUEST_ID_def word_le_nat_alt)

lemma next_http_id_ok: "http_id i \<Longrightarrow> http_id (next_http_id i)"
  using next_http_id_unat [of i] by (auto simp: http_id_unat)

lemma http_ids_ok: "http_id i \<Longrightarrow> http_id ((next_http_id ^^ n) i)"
  by (induction n) (simp_all add: next_http_id_ok)

lemma http_ids_unat:
  assumes "http_id i"
  shows "unat ((next_http_id ^^ n) i) = 0x01000000 + (unat i - 0x01000000 + n) mod 0x0f000000"
proof (induction n)
  case 0
  have "unat i - 0x01000000 < 0x0f000000" "0x01000000 \<le> unat i" using assms by (auto simp: http_id_unat)
  then show ?case using mod_less by simp
next
  case (Suc n)
  then show ?case using next_http_id_unat [OF http_ids_ok [OF assms, of n]] by (simp add: mod_Suc)
qed

definition serializers_ok :: "'pe request_serializers \<Rightarrow> bool" where
  "serializers_ok S \<longleftrightarrow> serializer_ok (ser_open S) \<and> serializer_ok (ser_scan S) \<and> serializer_ok (ser_solve S) \<and>
     serializer_ok (ser_execute S) \<and> serializer_ok (ser_auto S) \<and> serializer_ok (ser_moves S)"

text \<open>What a frame of the session carries: a request packet with the identifier and the opcode.\<close>

definition request_frame :: "u32 \<Rightarrow> request_opcode \<Rightarrow> u8 list \<Rightarrow> bool" where
  "request_frame i opcode frame \<longleftrightarrow> (\<exists>content. length content \<le> MAX_PAYLOAD_LEN \<and> frame = uart_frame_bytes
     \<lparr> pkt_kind = message_kind.Request, pkt_opcode = request_u16 opcode, pkt_request_id = i, pkt_payload = content \<rparr>)"

lemma encode_raw_request:
  assumes "encoder_ok e" "n \<le> MAX_PAYLOAD_LEN"
  shows "\<exists>frame e'. encode_raw e message_kind.Request (request_u16 opcode) i n = Some (Inr frame, e') \<and>
    encoder_ok e' \<and> request_frame i opcode frame"
proof -
  let ?content = "take n (enc_payload e)"
  have "length ?content \<le> MAX_PAYLOAD_LEN" using assms(2) by simp
  then have "request_frame i opcode (uart_frame_bytes \<lparr> pkt_kind = message_kind.Request,
      pkt_opcode = request_u16 opcode, pkt_request_id = i, pkt_payload = ?content \<rparr>)"
    unfolding request_frame_def by blast
  then show ?thesis using encode_raw_frame [OF assms, of message_kind.Request "request_u16 opcode" i] by blast
qed

definition frames_ok :: "u32 \<Rightarrow> request_opcode \<Rightarrow>
    (('pe command_encode_error + u8 list) \<times> uart_frame_encoder) option \<Rightarrow> bool" where
  "frames_ok i opcode out \<longleftrightarrow> (\<exists>r e'. out = Some (r, e') \<and> encoder_ok e' \<and>
     (\<forall>frame. r = Inr frame \<longrightarrow> request_frame i opcode frame))"

lemma frame_result_ok:
  assumes "out = (Some (r, e') :: (('pe frame_encode_error + u8 list) \<times> uart_frame_encoder) option)" "encoder_ok e'"
    and "\<And>frame. r = Inr frame \<Longrightarrow> request_frame i opcode frame"
  shows "frames_ok i opcode (frame_result out)"
  using assms by (cases r) (simp_all add: frames_ok_def frame_result_def)

lemma encode_raw_ok:
  assumes "encoder_ok e" "n \<le> MAX_PAYLOAD_LEN"
  shows "frames_ok i opcode (frame_result (encode_raw e message_kind.Request (request_u16 opcode) i n))"
  using encode_raw_request [OF assms, of opcode i] by (elim exE conjE) (rule frame_result_ok, assumption+, simp)

lemma encode_bare_ok: "encoder_ok e \<Longrightarrow> frames_ok i opcode (encode_bare e i opcode)"
  unfolding encode_bare_def encode_empty_def by (rule encode_raw_ok) simp_all

lemma encode_with_ok:
  assumes "encoder_ok e" "serializer_ok ser"
  shows "frames_ok i opcode (encode_with ser e i opcode v)"
proof -
  obtain r buf where r: "ser v (enc_payload e) = (r, buf)" by fastforce
  then have len: "length buf = length (enc_payload e)" "\<And>n. r = Inr n \<Longrightarrow> n \<le> MAX_PAYLOAD_LEN"
    using assms by (metis serializer_ok_def snd_conv, metis serializer_ok_def fst_conv encoder_ok_def)
  then have ok: "encoder_ok (e\<lparr> enc_payload := buf \<rparr>)" using assms(1) by (simp add: encoder_ok_def)
  show ?thesis
  proof (cases r)
    case (Inl err)
    then show ?thesis
      unfolding encode_with_def using r ok
      by (intro frame_result_ok [of _ "Inl (Payload (Serialize err))" "e\<lparr> enc_payload := buf \<rparr>"])
        (simp_all add: encode_frame_def encode_payload_def)
  next
    case (Inr n)
    then show ?thesis
      unfolding encode_with_def using r encode_raw_ok [OF ok len(2) [OF Inr]]
      by (simp add: encode_frame_def encode_payload_def)
  qed
qed

lemma sequence_moves_returns:
  "\<exists>r. sequence_moves sequence = Some r \<and> (\<forall>moves n. r = Inr (moves, n) \<longrightarrow> unat n \<le> length moves)"
proof -
  obtain r where r: "normalize_sim_sequence sequence = Some r"
    "\<And>t. r = Inr t \<Longrightarrow> \<exists>ms. parse_singmaster t = Some (if length ms > MAX_SOLUTION_MOVES then Inl TooManyMoves
       else Inr (ms @ replicate (MAX_SOLUTION_MOVES - length ms) empty_move, of_nat (length ms)))"
    using normalize_accepts [of sequence] by blast
  show ?thesis
  proof (cases r)
    case (Inl e)
    with r(1) show ?thesis by (simp add: sequence_moves_def)
  next
    case (Inr t)
    then obtain ms where ms: "parse_singmaster t = Some (if length ms > MAX_SOLUTION_MOVES then Inl TooManyMoves
       else Inr (ms @ replicate (MAX_SOLUTION_MOVES - length ms) empty_move, of_nat (length ms)))"
      using r(2) by blast
    have "unat (of_nat (length ms) :: u8) \<le> length ms" by (simp add: unat_of_nat)
    then show ?thesis using r(1) Inr ms by (auto simp: sequence_moves_def intro: le_trans)
  qed
qed

text \<open>The opcode of a command that becomes a request.\<close>

fun command_opcode :: "sim_command \<Rightarrow> request_opcode" where
  "command_opcode sim_command.Recover = request_opcode.RecoverToOpen"
| "command_opcode sim_command.Grip = request_opcode.Grip"
| "command_opcode sim_command.Abort = request_opcode.Abort"
| "command_opcode (sim_command.Open _) = request_opcode.Open"
| "command_opcode (sim_command.Scan _) = request_opcode.StartScan"
| "command_opcode (sim_command.Solve _ _) = request_opcode.Solve"
| "command_opcode (sim_command.Execute _ _ _) = request_opcode.Execute"
| "command_opcode (sim_command.Auto _) = request_opcode.ScanSolveExecute"
| "command_opcode _ = request_opcode.ExecuteMoves"

definition moves_accepted :: "sim_command \<Rightarrow> bool" where
  "moves_accepted command \<longleftrightarrow> (\<forall>session sequence. command = sim_command.Moves session sequence \<longrightarrow>
     (\<exists>moves n. sequence_moves sequence = Some (Inr (moves, n)) \<and> unat n \<le> length moves))"

lemma encode_command_frames:
  assumes "encoder_ok e" "serializers_ok S"
  shows "frames_ok i (command_opcode command) (encode_command S e i command)"
proof (cases command)
  case (Moves session sequence)
  obtain r where r: "sequence_moves sequence = Some r"
    using sequence_moves_returns [of sequence] by blast
  then show ?thesis
    using assms by (cases r) (auto simp: Moves encode_command_def encode_with_ok serializers_ok_def, simp add: frames_ok_def)
qed (use assms in \<open>simp_all add: encode_command_def encode_bare_ok encode_with_ok serializers_ok_def\<close>,
     simp_all add: frames_ok_def)

lemma encode_command_moves:
  assumes "encode_command S e i command = Some (Inr frame, e')"
  shows "moves_accepted command"
proof (cases "\<exists>session sequence. command = sim_command.Moves session sequence")
  case True
  then obtain session sequence where c: "command = sim_command.Moves session sequence" by blast
  obtain r where r: "sequence_moves sequence = Some r" "\<And>moves n. r = Inr (moves, n) \<Longrightarrow> unat n \<le> length moves"
    using sequence_moves_returns [of sequence] by blast
  with assms c have "\<exists>mn. r = Inr mn" by (cases r) (simp_all add: encode_command_def)
  with r c show ?thesis by (auto simp: moves_accepted_def)
qed (simp add: moves_accepted_def)

lemma encode_command_ok:
  assumes "encoder_ok e" "serializers_ok S"
  shows "\<exists>r e'. encode_command S e i command = Some (r, e') \<and> encoder_ok e' \<and>
    (\<forall>frame. r = Inr frame \<longrightarrow> request_frame i (command_opcode command) frame \<and> moves_accepted command)"
  using encode_command_frames [OF assms, of i command] encode_command_moves [of S e i command]
  by (auto simp: frames_ok_def)

section \<open>The daemon reports only good statuses\<close>

definition good_status :: "status_snapshot \<Rightarrow> bool" where
  "good_status status \<longleftrightarrow> status_ok status \<and> \<not> concurrent_motion status \<and>
     (pose_kind (stand_pose (st_stand status)) = CanonicalGrip \<longrightarrow> canonical_status status)"

lemma service_good:
  assumes "service_inv s" "motion_inv s"
  shows "good_status (svc_status s)"
proof -
  obtain R G where m: "may_move R G s" "R = {} \<or> G = {}"
    "pose_kind (pose_of s) = CanonicalGrip \<longrightarrow>
       pose_camera_face (pose_of s) = Some cube_face.Front \<and> R = {} \<and> G = {}"
    using going_disjoint [OF assms(2,1)] by blast
  have rails: "R = {} \<Longrightarrow> \<not> rail_moving (svc_status s)" and grippers: "G = {} \<Longrightarrow> \<not> gripper_moving (svc_status s)"
    using m(1) by (auto simp: may_move_def within_axes_def axes_of_def rail_moving_def gripper_moving_def list_ex_length)
  have "\<not> concurrent_motion (svc_status s)"
    using m(2) rails grippers by (auto simp: concurrent_motion_def)
  moreover have "pose_kind (pose_of s) = CanonicalGrip \<longrightarrow> canonical_status (svc_status s)"
    using m(3) grippers by (auto simp: canonical_status_def pose_of_def gripper_moving_def list_ex_iff list_all_iff)
  ultimately show ?thesis using assms(1) by (simp add: good_status_def service_inv_def pose_of_def)
qed

lemma scanner_keeps [simp]:
  "service_inv (s\<lparr> svc_scanner := x \<rparr>) = service_inv s" "motion_inv (s\<lparr> svc_scanner := x \<rparr>) = motion_inv s"
proof -
  show "motion_inv (s\<lparr> svc_scanner := x \<rparr>) = motion_inv s"
    by (rule motion_inv_cong) (simp_all add: axes_of_def pose_of_def fields_of_def)
  show "service_inv (s\<lparr> svc_scanner := x \<rparr>) = service_inv s"
    by (simp add: service_inv_def ids_ok_def in_activity_def)
qed

definition engine_ok :: "sim_engine \<Rightarrow> bool" where
  "engine_ok e \<longleftrightarrow> (\<forall>status. StatusUpdate status \<in> set (en_sent e) \<longrightarrow> good_status status)"

definition session_daemon_ok :: "session_daemon \<Rightarrow> bool" where
  "session_daemon_ok d \<longleftrightarrow> service_inv (sd_service d) \<and> motion_inv (sd_service d) \<and> svc_events (sd_service d) = [] \<and>
     decoder_ok (sd_decoder d) \<and> engine_ok (sd_engine d)"

lemma observe_status_ok: "engine_ok e \<Longrightarrow> good_status status \<Longrightarrow> engine_ok (observe_status status e)"
  by (auto simp: observe_status_def send_update_def engine_ok_def)

lemma observe_messages_ok: "engine_ok e \<Longrightarrow> engine_ok (observe_messages ms e)"
proof (induction ms arbitrary: e)
  case (Cons m ms)
  have "engine_ok (send_update (message_update m) e)"
    using Cons.prems by (cases m) (auto simp: engine_ok_def send_update_def)
  with Cons.IH show ?case by (simp add: observe_messages_def)
qed (simp add: observe_messages_def)

lemma observe_messages_sent: "en_sent (observe_messages ms e) = en_sent e @ map message_update ms"
  by (induction ms arbitrary: e) (simp_all add: observe_messages_def send_update_def)

lemma new_daemon_ok: "session_daemon_ok (new_daemon c facelets now wall)"
proof -
  let ?s = "with_scanner () c facelets"
  have s: "service_inv ?s" "motion_inv ?s" "svc_events ?s = []"
    using with_scanner_inv [of "()" c facelets] with_scanner_moves [of "()" c facelets]
    by (simp_all add: with_scanner_def)
  then have "engine_ok (observe_status (svc_status ?s) new_engine)"
    by (intro observe_status_ok service_good) (simp_all add: engine_ok_def new_engine_def)
  then show ?thesis using s default_decoder_ok by (simp add: new_daemon_def session_daemon_ok_def Let_def)
qed

lemma daemon_bytes_ok:
  assumes "session_daemon_ok d"
  shows "\<exists>d'. daemon_bytes B bytes d = Some d' \<and> session_daemon_ok d' \<and>
    (\<exists>sent. en_sent (sd_engine d') = en_sent (sd_engine d) @ sent)"
  using assms
proof (induction bytes arbitrary: d)
  case (Cons byte bytes)
  obtain decoder r where r: "push (sd_decoder d) byte = Some (decoder, r)" "decoder_ok decoder"
    using usd.push_total [of "sd_decoder d" byte] Cons.prems by (auto simp: session_daemon_ok_def)
  have ok: "session_daemon_ok (d\<lparr> sd_decoder := decoder \<rparr>)"
    using Cons.prems r(2) by (simp add: session_daemon_ok_def)
  consider "r = None" | e where "r = Some (Inl e)" | p where "r = Some (Inr p)"
    by (metis option.exhaust sum.exhaust)
  then show ?case
  proof cases
    case 3
    obtain ms s where s: "handle_packet B p (sd_service d) = Some (ms, s)" "service_inv s" "svc_events s = []"
      using handle_packet_inv [of "sd_service d" B p] Cons.prems by (auto simp: session_daemon_ok_def)
    have "motion_inv s" using handle_packet_moves [OF _ s(1)] Cons.prems by (simp add: session_daemon_ok_def)
    then have "session_daemon_ok (d\<lparr> sd_decoder := decoder, sd_service := s,
        sd_engine := observe_messages ms (sd_engine d) \<rparr>)"
      using s Cons.prems r(2) observe_messages_ok by (simp add: session_daemon_ok_def)
    from Cons.IH [OF this] show ?thesis using r(1) s(1) 3 observe_messages_sent [of ms] by fastforce
  qed (use r(1) Cons.IH [OF ok] in simp_all)
qed auto

lemma daemon_round_ok:
  assumes "session_daemon_ok d"
  shows "\<exists>d'. daemon_round B mul i d = Some d' \<and> session_daemon_ok d' \<and>
    (\<exists>sent. en_sent (sd_engine d') = en_sent (sd_engine d) @ sent)"
proof -
  let ?d = "d\<lparr> sd_service := (sd_service d)\<lparr> svc_scanner := di_facelets i \<rparr> \<rparr>"
  have "session_daemon_ok ?d" using assms by (simp add: session_daemon_ok_def)
  then obtain d1 sent1 where d1:
    "(case di_frame i of Some frame \<Rightarrow> daemon_bytes B frame ?d | None \<Rightarrow> Some ?d) = Some d1" "session_daemon_ok d1"
    "en_sent (sd_engine d1) = en_sent (sd_engine d) @ sent1"
    using daemon_bytes_ok [of ?d B] by (cases "di_frame i") fastforce+
  let ?now = "sd_simulated_now d1 + mul (di_wall i - sd_previous_wall d1) (di_speed i)"
  obtain ms s where t: "tick B ?now (di_poll i) (sd_service d1) = Some (ms, s)" "service_inv s" "svc_events s = []"
    using tick_inv [of "sd_service d1" B ?now "di_poll i"] d1(2) by (auto simp: session_daemon_ok_def)
  have m: "motion_inv s" using tick_moves [OF _ _ t(1)] d1(2) by (simp add: session_daemon_ok_def)
  let ?e = "observe_messages ms (observe_status (svc_status s) (sd_engine d1))"
  let ?d2 = "d1\<lparr> sd_service := s, sd_simulated_now := ?now, sd_previous_wall := di_wall i, sd_engine := ?e \<rparr>"
  have "daemon_round B mul i d = Some ?d2" using d1(1) t(1) by (simp add: daemon_round_def)
  moreover have "session_daemon_ok ?d2"
    using t m d1(2) observe_messages_ok observe_status_ok service_good [OF t(2) m] by (simp add: session_daemon_ok_def)
  moreover have "\<exists>sent. en_sent (sd_engine ?d2) = en_sent (sd_engine d) @ sent"
    using d1(3) by (simp add: observe_messages_sent observe_status_def send_update_def)
  ultimately show ?thesis by blast
qed

lemma daemon_rounds_ok:
  "session_daemon_ok d \<Longrightarrow> \<exists>d'. daemon_rounds B mul is d = Some d' \<and> session_daemon_ok d'"
proof (induction "is" arbitrary: d)
  case (Cons i "is")
  then show ?case using daemon_round_ok [OF Cons.prems, of B mul i] by fastforce
qed simp

lemma session_daemon_ends:
  assumes "session_daemon_ok d"
  shows "\<exists>d'. run_session_daemon B mul is d = Some d'"
proof -
  obtain d' where d': "daemon_rounds B mul is d = Some d'" using daemon_rounds_ok [OF assms] by blast
  show ?thesis
    by (rule shutdown_cases [of B "sd_service d'"]) (simp_all add: run_session_daemon_def d')
qed

section \<open>The session keeps its invariant\<close>

text \<open>\<open>quiet\<close>: the rules about concurrent motion and about the pose of the scanned cube never fired.\<close>

definition quiet :: "'f sim_state \<Rightarrow> bool" where
  "quiet s \<longleftrightarrow> \<not> ss_concurrent_motion_active s \<and> Rule concurrent_rule \<notin> set (ss_violations s) \<and>
     Rule scan_pose_rule \<notin> set (ss_violations s) \<and> (\<forall>status. ss_status s = Some status \<longrightarrow> good_status status)"

definition session_ok :: "'f session_state \<Rightarrow> bool" where
  "session_ok s \<longleftrightarrow> sim_ok (sn_sim s) \<and> quiet (sn_sim s) \<and> encoder_ok (sn_encoder s) \<and> http_id (sn_next_request_id s)"

lemma new_session_ok: "session_ok (new_session F c)"
  using new_sim_ok [of F c] by (simp add: session_ok_def new_session_def new_facelets_solved default_encoder_ok
      quiet_def) (simp add: new_sim_def)

lemma replay_visual_quiet:
  "replay_visual status s = Some s' \<Longrightarrow> ss_violations s' = ss_violations s \<and> ss_status s' = ss_status s \<and>
     ss_concurrent_motion_active s' = ss_concurrent_motion_active s"
  by (auto simp: replay_visual_def turn_shown_cube_def Let_def split: option.splits)

lemma note_mismatch_quiet:
  "Rule r \<in> set (ss_violations (note_mismatch s)) \<longleftrightarrow> Rule r \<in> set (ss_violations s)"
  "ss_status (note_mismatch s) = ss_status s"
  "ss_concurrent_motion_active (note_mismatch s) = ss_concurrent_motion_active s"
  by (auto simp: note_mismatch_def Let_def split: option.split)

lemma note_axes_flag [simp]:
  "ss_concurrent_motion_active (note_axes F now status s) = ss_concurrent_motion_active s"
  unfolding note_axes_def by (rule fold_keeps; simp add: note_rail_def note_gripper_def Let_def split: option.split)

lemma note_scan_pose_none:
  assumes "pose_kind (stand_pose (st_stand status)) = CanonicalGrip \<Longrightarrow> cp_basis (ss_presentation s) = unit_basis"
  shows "note_scan_pose status s = s"
  using assms by (auto simp: note_scan_pose_def)

lemma status_session_ok:
  assumes "session_ok s" "good_status status"
  shows "\<exists>sim. sim_apply_status F now status (sn_sim s) = Some sim \<and> session_ok (s\<lparr> sn_sim := sim \<rparr>)"
proof -
  let ?a = "if sol_move_count (st_solution status) > 0
    then (sn_sim s)\<lparr> ss_last_solution := Some (st_solution status) \<rparr> else sn_sim s"
  let ?b = "?a\<lparr> ss_presentation := present_status status (ss_presentation ?a) \<rparr>"
  let ?c = "note_axes F now status ?b"
  have st: "status_ok status" "stand_ok (st_stand status)" using assms(2) by (simp_all add: good_status_def status_ok_def)
  have "sim_ok ?b" using assms(1) st(2) present_status_ok by (auto simp: session_ok_def sim_ok_def)
  then have ok: "sim_ok ?c" by (rule note_axes_ok)
  have pose: "note_scan_pose status ?b = ?b"
    using assms(2) present_canonical [OF _ st(2)] by (intro note_scan_pose_none) (simp add: good_status_def)
  obtain s' where s': "replay_visual status ?c = Some s'" "sim_ok s'"
    using replay_visual_ok [OF ok st(1)] by blast
  let ?s = "(note_mismatch s')\<lparr> ss_status := Some status, ss_dirty := True \<rparr>"
  have "sim_apply_status F now status (sn_sim s) = Some ?s"
    using s'(1) pose by (simp add: sim_apply_status_def Let_def)
  moreover have "sim_ok ?s" using note_mismatch_ok [OF s'(2)] by (simp add: sim_ok_def)
  moreover have "ss_violations ?c = ss_violations (sn_sim s)"
    "ss_concurrent_motion_active ?c = ss_concurrent_motion_active (sn_sim s)" by simp_all
  then have "quiet ?s"
    using assms replay_visual_quiet [OF s'(1)] by (simp add: session_ok_def quiet_def note_mismatch_quiet)
  ultimately show ?thesis using assms(1) by (auto simp: session_ok_def)
qed

lemma moves_session_ok:
  assumes "session_ok s"
  shows "\<exists>sim. set_visual_moves moves (sn_sim s) = Some sim \<and> session_ok (s\<lparr> sn_sim := sim \<rparr>)"
proof -
  let ?a = "(sn_sim s)\<lparr> ss_visual := set_expected moves (ss_visual (sn_sim s)) \<rparr>"
  have ok: "sim_ok ?a" "quiet ?a" using assms by (simp_all add: session_ok_def sim_ok_def quiet_def)
  show ?thesis
  proof (cases "ss_status (sn_sim s)")
    case None
    then show ?thesis using ok assms by (simp add: set_visual_moves_def session_ok_def) (simp add: quiet_def)
  next
    case (Some status)
    then have "status_ok status" using ok(2) by (simp add: quiet_def good_status_def)
    then obtain s' where s': "replay_visual status ?a = Some s'" "sim_ok s'"
      using replay_visual_ok [OF ok(1)] by blast
    have "quiet s'" using replay_visual_quiet [OF s'(1)] ok(2) by (simp add: quiet_def)
    then show ?thesis
      using s' Some assms by (simp add: set_visual_moves_def session_ok_def) (simp add: quiet_def)
  qed
qed

lemma rule_names' [simp]: "claws_rule \<noteq> scan_pose_rule" "custody_rule \<noteq> scan_pose_rule" "concurrent_rule \<noteq> scan_pose_rule"
  "scan_pose_rule \<noteq> claws_rule" "scan_pose_rule \<noteq> custody_rule" "scan_pose_rule \<noteq> concurrent_rule"
  by (simp_all add: claws_rule_def custody_rule_def concurrent_rule_def scan_pose_rule_def)

lemma collisions_quiet:
  assumes "quiet s"
  shows "quiet (snd (collisions F now s))" "\<forall>e \<in> set (fst (collisions F now s)). ev_rule e \<noteq> concurrent_rule"
proof -
  have c: "ss_status s = Some status \<Longrightarrow> \<not> concurrent_motion status" for status
    using assms by (simp add: quiet_def good_status_def)
  show "quiet (snd (collisions F now s))"
    using assms c by (auto simp: quiet_def collisions_def Let_def set_note_events transition_def split: option.splits)
  show "\<forall>e \<in> set (fst (collisions F now s)). ev_rule e \<noteq> concurrent_rule"
    using assms c by (auto simp: quiet_def collisions_def Let_def transition_def split: option.splits)
qed

lemma pump_display_ok:
  assumes "session_ok s"
  shows "\<exists>s'. pump_display F now s = Some s' \<and> session_ok s'"
proof -
  obtain events sim where c: "collisions F now (sn_sim s) = (events, sim)" by fastforce
  then have sim: "sim_ok sim" "quiet sim"
    using assms collisions_ok [of "sn_sim s" F now] collisions_quiet(1) [of "sn_sim s" F now] by (simp_all add: session_ok_def)
  then have "sim_ok (sim\<lparr> ss_cube_dirty := False \<rparr>)" "quiet (sim\<lparr> ss_cube_dirty := False \<rparr>)"
    by (simp_all add: sim_ok_def quiet_def)
  then show ?thesis
    using c take_cube_event_ok [OF sim(1)] assms
    by (simp add: pump_display_def session_ok_def Let_def) (simp add: quiet_def)
qed

lemma pump_round_ok:
  assumes "session_ok s" "\<And>status. update = Some (StatusUpdate status) \<Longrightarrow> good_status status"
  shows "\<exists>s'. pump_round F now update s = Some s' \<and> session_ok s'"
proof -
  have "\<exists>s'. (case update of None \<Rightarrow> Some s | Some u \<Rightarrow> pump_update F now u s) = Some s' \<and> session_ok s'"
  proof (cases update)
    case (Some u)
    show ?thesis
    proof (cases u)
      case (StatusUpdate status)
      then show ?thesis using status_session_ok [OF assms(1) assms(2), of status F now] Some by (auto simp: pump_update_def)
    qed (use Some assms(1) in \<open>simp_all add: pump_update_def session_ok_def\<close>)
  qed (simp add: assms)
  then show ?thesis using pump_display_ok by (fastforce simp: pump_round_def)
qed

lemma post_scramble_ok:
  assumes "session_ok s"
  shows "\<exists>r s'. post_scramble sequence s = Some (r, s') \<and> session_ok s' \<and> (\<exists>reply. r = Replied reply)"
proof -
  obtain r where r: "sequence_moves sequence = Some r" "\<And>moves n. r = Inr (moves, n) \<Longrightarrow> unat n \<le> length moves"
    using sequence_moves_returns [of sequence] by blast
  show ?thesis
  proof (cases r)
    case (Inl e)
    with r(1) assms show ?thesis by (simp add: post_scramble_def)
  next
    case (Inr mn)
    obtain moves n where mn: "mn = (moves, n)" by (cases mn)
    obtain sim where sim: "load_scramble (take (unat n) moves) (sn_sim s) = Some sim" "sim_ok sim"
      using load_scramble_ok assms by (metis session_ok_def)
    then have "quiet sim" "\<exists>fs. cube_facelets (ss_cube sim) = Some fs"
      using assms by (auto simp: load_scramble_def quiet_def session_ok_def sim_ok_def Let_def)
    then show ?thesis
      using r Inr mn sim assms by (auto simp: post_scramble_def session_ok_def)
  qed
qed

lemma post_request_ok:
  assumes "session_ok s" "serializers_ok S"
  shows "\<exists>r s'. post_request S accepting command s = Some (r, s') \<and> session_ok s' \<and>
    (\<forall>i c. r = Waiting i c \<longrightarrow> moves_accepted c)"
proof -
  obtain r e' where "encode_command S (sn_encoder s) (sn_next_request_id s) command = Some (r, e')" "encoder_ok e'"
    "\<And>frame. r = Inr frame \<Longrightarrow> moves_accepted command"
    using encode_command_ok [OF _ assms(2)] assms(1) unfolding session_ok_def by blast
  then show ?thesis
    using assms(1) by (cases r) (simp_all add: post_request_def session_ok_def next_http_id_ok Let_def)
qed

lemma post_begin_ok:
  assumes "session_ok s" "serializers_ok S"
  shows "\<exists>r s'. post_begin from_str S accepting body s = Some (r, s') \<and> session_ok s' \<and>
    (\<forall>i c. r = Waiting i c \<longrightarrow> moves_accepted c)"
proof (cases "parse_command from_str body")
  case (Inl e)
  then show ?thesis using assms by (simp add: post_begin_def)
next
  case (Inr c)
  have "sim_ok (set_animation_speed m (sn_sim s)) \<and> quiet (set_animation_speed m (sn_sim s))" for m
    using assms(1) by (simp add: session_ok_def set_animation_speed_def sim_ok_def quiet_def)
  then show ?thesis
    using Inr assms(1) post_request_ok [OF assms] post_scramble_ok [OF assms(1)]
    by (cases c) (auto simp: post_begin_def session_ok_def, fastforce)
qed

lemma command_moves_returns:
  assumes "moves_accepted c" "quiet sim"
  shows "\<exists>moves. command_moves c sim = Some moves"
proof -
  have "unat (sol_move_count (st_solution status)) \<le> length (sol_moves (st_solution status))"
    if "ss_status sim = Some status" for status
    using assms(2) that by (auto simp: quiet_def good_status_def status_ok_def solution_ok_def solution_validate_def
        MAX_SOLUTION_MOVES_def word_less_nat_alt split: if_splits)
  then show ?thesis
    using assms(1) by (cases c) (auto simp: command_moves_def moves_accepted_def Let_def not_less split: option.split)
qed

lemma post_finish_ok:
  assumes "session_ok s" "moves_accepted c"
  shows "\<exists>r s'. post_finish c answer s = Some (r, s') \<and> session_ok s'"
proof -
  define sim where "sim = (if (\<exists>i. c = Scan i) \<or> (\<exists>i. c = Auto i) then clear_last_solution (sn_sim s) else sn_sim s)"
  have "sim_ok (clear_last_solution (sn_sim s))" "quiet (clear_last_solution (sn_sim s))"
    using assms(1) by (simp_all add: session_ok_def clear_last_solution_def sim_ok_def quiet_def)
  then have sim: "session_ok (s\<lparr> sn_sim := sim \<rparr>)" "quiet sim" using assms(1) by (simp_all add: session_ok_def sim_def)
  obtain moves where m: "command_moves c sim = Some moves"
    using command_moves_returns [OF assms(2) sim(2)] by blast
  obtain x where x: "(case moves of None \<Rightarrow> Some sim | Some moves \<Rightarrow> set_visual_moves moves sim) = Some x"
      "session_ok (s\<lparr> sn_sim := x \<rparr>)"
    using sim(1) moves_session_ok [OF sim(1)] by (cases moves) auto
  show ?thesis
  proof (cases answer)
    case (Some content)
    then show ?thesis
      unfolding post_finish_def Let_def sim_def [symmetric] using m x assms(1) by simp
  qed (use assms in \<open>simp add: post_finish_def\<close>)
qed

lemma post_finish_keeps:
  assumes "session_ok s" "moves_accepted c" "post_finish c answer s = Some (r :: 'pe http_reply, s')"
  shows "session_ok s'"
proof -
  obtain r2 :: "'pe http_reply" and s2 where "post_finish c answer s = Some (r2, s2)" "session_ok s2"
    using post_finish_ok [OF assms(1,2)] by blast
  with assms(3) show ?thesis by simp
qed

section \<open>The session as a system\<close>

text \<open>
  The threads of a session: the daemon, the pump that reads what it sent in order, and any number of
  handlers, each waiting for the response to its request. The daemon may be given any bytes.
\<close>

record 'f sim_system =
  sy_session :: "'f session_state"
  sy_daemon :: session_daemon
  sy_read :: nat
  sy_waiting :: "(u32 \<times> sim_command) list"

definition next_update :: "'f sim_system \<Rightarrow> sim_update option" where
  "next_update x = (let sent = en_sent (sd_engine (sy_daemon x)) in
     if sy_read x < length sent then Some (sent ! sy_read x) else None)"

inductive sim_reach :: "(unit, u8 list) backend \<Rightarrow> (nat \<Rightarrow> u32 \<Rightarrow> nat) \<Rightarrow> 'f f32_ops \<Rightarrow>
    'pe request_serializers \<Rightarrow> (string \<Rightarrow> string + json) \<Rightarrow> 'f sim_system \<Rightarrow> bool"
  for B mul F S from_str where
  spawn: "sim_reach B mul F S from_str \<lparr> sy_session = new_session F c,
      sy_daemon = new_daemon c new_facelets now wall, sy_read = 0, sy_waiting = [] \<rparr>"
| daemon: "sim_reach B mul F S from_str x \<Longrightarrow> di_facelets i = ss_facelets (sn_sim (sy_session x)) \<Longrightarrow>
    daemon_round B mul i (sy_daemon x) = Some d \<Longrightarrow> sim_reach B mul F S from_str (x\<lparr> sy_daemon := d \<rparr>)"
| pump: "sim_reach B mul F S from_str x \<Longrightarrow> update = next_update x \<or> update = None \<Longrightarrow>
    pump_round F now update (sy_session x) = Some s \<Longrightarrow>
    sim_reach B mul F S from_str (x\<lparr> sy_session := s, sy_read := sy_read x + (if update = None then 0 else 1) \<rparr>)"
| begin_answered: "sim_reach B mul F S from_str x \<Longrightarrow>
    post_begin from_str S accepting body (sy_session x) = Some (Replied reply, s) \<Longrightarrow>
    sim_reach B mul F S from_str (x\<lparr> sy_session := s \<rparr>)"
| begin_waiting: "sim_reach B mul F S from_str x \<Longrightarrow>
    post_begin from_str S accepting body (sy_session x) = Some (Waiting i c, s) \<Longrightarrow>
    sim_reach B mul F S from_str (x\<lparr> sy_session := s, sy_waiting := sy_waiting x @ [(i, c)] \<rparr>)"
| finish: "sim_reach B mul F S from_str x \<Longrightarrow> (i, c) \<in> set (sy_waiting x) \<Longrightarrow>
    post_finish c answer (sy_session x) = Some (reply :: 'pe http_reply, s) \<Longrightarrow>
    sim_reach B mul F S from_str (x\<lparr> sy_session := s, sy_waiting := remove1 (i, c) (sy_waiting x) \<rparr>)"

definition system_ok :: "'f sim_system \<Rightarrow> bool" where
  "system_ok x \<longleftrightarrow> session_ok (sy_session x) \<and> session_daemon_ok (sy_daemon x) \<and>
     (\<forall>(i, c) \<in> set (sy_waiting x). moves_accepted c)"

lemma next_update_good: "system_ok x \<Longrightarrow> next_update x = Some (StatusUpdate status) \<Longrightarrow> good_status status"
  by (auto simp: system_ok_def session_daemon_ok_def engine_ok_def next_update_def Let_def dest!: nth_mem split: if_splits)

lemma system_reach_ok:
  assumes "sim_reach B mul F S from_str x" "serializers_ok S"
  shows "system_ok x"
  using assms
proof (induction rule: sim_reach.induct)
  case (spawn c now wall)
  show ?case by (simp add: system_ok_def new_session_ok new_daemon_ok)
next
  case (daemon x i d)
  then show ?case using daemon_round_ok [of "sy_daemon x" B mul i] by (auto simp: system_ok_def)
next
  case (pump x update now s)
  then have "system_ok x" by simp
  then have "\<And>status. update = Some (StatusUpdate status) \<Longrightarrow> good_status status"
    using pump.hyps(2) next_update_good [of x] by (metis option.discI)
  then show ?case
    using pump pump_round_ok [of "sy_session x" update F now] by (auto simp: system_ok_def)
next
  case (begin_answered x accepting body reply s)
  then show ?case using post_begin_ok [of "sy_session x" S from_str accepting body] by (auto simp: system_ok_def)
next
  case (begin_waiting x accepting body i c s)
  then show ?case using post_begin_ok [of "sy_session x" S from_str accepting body] by (auto simp: system_ok_def)
next
  case (finish x i c answer reply s)
  then have "session_ok s"
    using post_finish_keeps [OF _ _ finish.hyps(3)] by (auto simp: system_ok_def)
  then show ?case using finish by (auto simp: system_ok_def dest: notin_set_remove1)
qed

end
