(* ===== verification/BoundedQueue.thy ===== *)
theory BoundedQueue
  imports Prelude
begin

text \<open>
  The interface of a bounded first-in-first-out queue. An implementation promises what one push and
  one pop do to the list of its elements; the locale derives that every sequence of operations
  behaves as on a bounded list (\<open>run_queue\<close> against \<open>run_bounded\<close>), and that the loop which rotates the
  whole queue once to drop one element (\<open>rotate_out\<close>) removes exactly the first match and keeps the
  order of the rest. The gateway's ring buffers are the implementation.
\<close>

datatype 'a queue_op = Push 'a | Pop

datatype 'a queue_answer = Pushed | Full | Popped "'a option"

fun run_queue :: "('q \<Rightarrow> 'a \<Rightarrow> ('q \<times> bool) option) \<Rightarrow> ('q \<Rightarrow> ('q \<times> 'a option) option) \<Rightarrow>
    'q \<Rightarrow> 'a queue_op list \<Rightarrow> ('q \<times> 'a queue_answer list) option" where
  "run_queue enq deq q [] = Some (q, [])"
| "run_queue enq deq q (Push x # ops) = do {
     (q, ok) \<leftarrow> enq q x;
     (q, answers) \<leftarrow> run_queue enq deq q ops;
     Some (q, (if ok then Pushed else Full) # answers) }"
| "run_queue enq deq q (Pop # ops) = do {
     (q, r) \<leftarrow> deq q;
     (q, answers) \<leftarrow> run_queue enq deq q ops;
     Some (q, Popped r # answers) }"

text \<open>The specification: a list of at most \<open>cap\<close> elements.\<close>

fun run_bounded :: "nat \<Rightarrow> 'a list \<Rightarrow> 'a queue_op list \<Rightarrow> 'a list \<times> 'a queue_answer list" where
  "run_bounded cap xs [] = (xs, [])"
| "run_bounded cap xs (Push x # ops) =
     (if length xs < cap
      then (case run_bounded cap (xs @ [x]) ops of (ys, answers) \<Rightarrow> (ys, Pushed # answers))
      else (case run_bounded cap xs ops of (ys, answers) \<Rightarrow> (ys, Full # answers)))"
| "run_bounded cap [] (Pop # ops) =
     (case run_bounded cap [] ops of (ys, answers) \<Rightarrow> (ys, Popped None # answers))"
| "run_bounded cap (x # xs) (Pop # ops) =
     (case run_bounded cap xs ops of (ys, answers) \<Rightarrow> (ys, Popped (Some x) # answers))"

text \<open>
  One rotation of the whole queue: every element is popped and pushed back, except the first that
  matches. \<open>None\<close> is a panic: of a test, of a pop that finds nothing or of a push that is refused.
\<close>

fun rotate_out :: "('q \<Rightarrow> 'a \<Rightarrow> ('q \<times> bool) option) \<Rightarrow> ('q \<Rightarrow> ('q \<times> 'a option) option) \<Rightarrow>
    ('a \<Rightarrow> bool option) \<Rightarrow> nat \<Rightarrow> 'q \<Rightarrow> bool \<Rightarrow> ('q \<times> bool) option" where
  "rotate_out enq deq hit 0 q removed = Some (q, removed)"
| "rotate_out enq deq hit (Suc n) q removed = do {
     (q, r) \<leftarrow> deq q;
     x \<leftarrow> r;
     matched \<leftarrow> (if removed then Some False else hit x);
     if matched then rotate_out enq deq hit n q True
     else do {
       (q, ok) \<leftarrow> enq q x;
       if ok then rotate_out enq deq hit n q removed else None } }"

text \<open>Dropping the first match of a list.\<close>

fun drop_first :: "('a \<Rightarrow> bool) \<Rightarrow> 'a list \<Rightarrow> 'a list" where
  "drop_first p [] = []"
| "drop_first p (x # xs) = (if p x then xs else x # drop_first p xs)"

lemma drop_first_absent: "\<forall>x \<in> set xs. \<not> p x \<Longrightarrow> drop_first p xs = xs"
  by (induction xs) auto

lemma set_drop_first: "set (drop_first p xs) \<subseteq> set xs"
  by (induction xs) auto

locale bounded_queue =
  fixes enq :: "'q \<Rightarrow> 'a \<Rightarrow> ('q \<times> bool) option"
    and deq :: "'q \<Rightarrow> ('q \<times> 'a option) option"
    and inv :: "'q \<Rightarrow> bool"
    and contents :: "'q \<Rightarrow> 'a list"
    and cap :: "'q \<Rightarrow> nat"
  assumes enq_room: "inv q \<Longrightarrow> length (contents q) < cap q \<Longrightarrow>
      \<exists>q'. enq q x = Some (q', True) \<and> inv q' \<and> contents q' = contents q @ [x] \<and> cap q' = cap q"
    and enq_full: "inv q \<Longrightarrow> \<not> length (contents q) < cap q \<Longrightarrow> enq q x = Some (q, False)"
    and deq_empty: "inv q \<Longrightarrow> contents q = [] \<Longrightarrow> deq q = Some (q, None)"
    and deq_Cons: "inv q \<Longrightarrow> contents q = x # xs \<Longrightarrow>
      \<exists>q'. deq q = Some (q', Some x) \<and> inv q' \<and> contents q' = xs \<and> cap q' = cap q"
    and bound: "inv q \<Longrightarrow> length (contents q) \<le> cap q"
begin

theorem run_refines:
  assumes "inv q"
  shows "\<exists>q' answers. run_queue enq deq q ops = Some (q', answers) \<and> inv q' \<and> cap q' = cap q \<and>
    run_bounded (cap q) (contents q) ops = (contents q', answers)"
  using assms
proof (induction ops arbitrary: q)
  case (Cons op ops)
  show ?case
  proof (cases op)
    case (Push x)
    show ?thesis
    proof (cases "length (contents q) < cap q")
      case True
      then obtain q1 where q1: "enq q x = Some (q1, True)" "inv q1" "contents q1 = contents q @ [x]"
        "cap q1 = cap q"
        using enq_room [OF Cons.prems] by blast
      with Cons.IH [OF q1(2)] True Push show ?thesis by auto
    next
      case False
      with Cons.IH [OF Cons.prems] enq_full [OF Cons.prems] Push show ?thesis by auto
    qed
  next
    case Pop
    show ?thesis
    proof (cases "contents q")
      case Nil
      with Cons.IH [OF Cons.prems] deq_empty [OF Cons.prems] Pop show ?thesis by auto
    next
      case (Cons x xs)
      then obtain q1 where "deq q = Some (q1, Some x)" "inv q1" "contents q1 = xs" "cap q1 = cap q"
        using deq_Cons [OF Cons.prems] by blast
      with Cons.IH [of q1] Pop Cons show ?thesis by auto
    qed
  qed
qed simp

lemma rotate_out_spec:
  assumes "inv q" and "contents q = xs @ ys" and "\<forall>x \<in> set xs. hit x = Some (p x)"
  shows "\<exists>q'. rotate_out enq deq hit (length xs) q removed =
      Some (q', removed \<or> (\<exists>x \<in> set xs. p x)) \<and> inv q' \<and> cap q' = cap q \<and>
      contents q' = ys @ (if removed then xs else drop_first p xs)"
  using assms
proof (induction xs arbitrary: q ys removed)
  case (Cons x xs)
  then obtain q1 where q1: "deq q = Some (q1, Some x)" "inv q1" "contents q1 = xs @ ys"
    "cap q1 = cap q"
    using deq_Cons [OF Cons.prems(1)] by fastforce
  show ?case
  proof (cases "\<not> removed \<and> p x")
    case True
    with Cons.IH [of q1 ys True] q1 Cons.prems(3) show ?thesis by auto
  next
    case False
    have "length (contents q1) < cap q1"
      using bound [OF Cons.prems(1)] Cons.prems(2) q1 by simp
    then obtain q2 where q2: "enq q1 x = Some (q2, True)" "inv q2" "contents q2 = xs @ (ys @ [x])"
      "cap q2 = cap q1"
      using enq_room [OF q1(2)] q1(3) by fastforce
    with Cons.IH [of q2 "ys @ [x]" removed] q1 Cons.prems(3) False show ?thesis by auto
  qed
qed simp

text \<open>A full rotation drops the first match, reports whether there was one and keeps the order.\<close>

corollary rotate_all:
  assumes "inv q" and "\<forall>x \<in> set (contents q). hit x = Some (p x)"
  shows "\<exists>q'. rotate_out enq deq hit (length (contents q)) q False =
      Some (q', \<exists>x \<in> set (contents q). p x) \<and> inv q' \<and> cap q' = cap q \<and>
      contents q' = drop_first p (contents q)"
  using rotate_out_spec [of q "contents q" "[]" hit p False] assms by simp

end

end
