(* ===== verification/Gateway.thy ===== *)
theory Gateway
  imports Stream BoundedQueue
begin

text \<open>
  \<open>crates/rubik-link-gateway/src/lib.rs\<close>: the routing core of the controller board between the
  daemon's serial line (Duo) and the two upstreams, USB and network. It holds validated packets in
  fixed ring buffers, remembers which upstream asked for which request, lets abort requests overtake
  everything else and repeats them until the daemon answers. \<open>None\<close> is a panic: an index out of
  range or one of the \<open>expect\<close>s.
\<close>

section \<open>Constants and errors\<close>

definition NORMAL_QUEUE_CAPACITY :: nat where "NORMAL_QUEUE_CAPACITY = 4"
definition URGENT_QUEUE_CAPACITY :: nat where "URGENT_QUEUE_CAPACITY = 2"
definition UPSTREAM_QUEUE_CAPACITY :: nat where "UPSTREAM_QUEUE_CAPACITY = 4"
definition REQUEST_ROUTE_CAPACITY :: nat where
  "REQUEST_ROUTE_CAPACITY = NORMAL_QUEUE_CAPACITY + URGENT_QUEUE_CAPACITY"
definition ABORT_RETRY_INTERVAL_MS :: u64 where "ABORT_RETRY_INTERVAL_MS = 100"

lemmas gateway_consts = NORMAL_QUEUE_CAPACITY_def URGENT_QUEUE_CAPACITY_def
  UPSTREAM_QUEUE_CAPACITY_def REQUEST_ROUTE_CAPACITY_def

datatype upstream = Usb | Network

datatype queue_kind = NormalToDuo | UrgentToDuo | ToUsb | ToNetwork | RequestRoutes

datatype gateway_error =
    FrameTooLong
  | Wire wire_error
  | QueueFull queue_kind
  | UpstreamPacketMustBeRequest
  | UpstreamRequestIdMustBeNonZero
  | DuoPacketMustBeResponseOrEvent
  | DuplicateRequestId u32
  | UnmatchedResponseRequestId u32

datatype route_outcome = Queued | DuplicateAbortIgnored

section \<open>Stored packets\<close>

record fixed_packet =
  fp_bytes :: "u8 list"
  fp_len :: nat

definition EMPTY :: fixed_packet where
  "EMPTY = \<lparr> fp_bytes = replicate MAX_PACKET_LEN 0, fp_len = 0 \<rparr>"

definition from_packet :: "packet \<Rightarrow> (gateway_error + fixed_packet) option" where
  "from_packet k = do {
     (r, bytes) \<leftarrow> encode_packet k (fp_bytes EMPTY);
     Some (case r of
         Inl e \<Rightarrow> Inl (gateway_error.Wire e)
       | Inr n \<Rightarrow> Inr \<lparr> fp_bytes = bytes, fp_len = n \<rparr>) }"

definition from_bytes :: "u8 list \<Rightarrow> (gateway_error + fixed_packet) option" where
  "from_bytes bytes =
     (case decode_packet bytes of
        Inl e \<Rightarrow> Some (Inl (gateway_error.Wire e))
      | Inr k \<Rightarrow> from_packet k)"

definition fp_packet :: "fixed_packet \<Rightarrow> packet option" where
  "fp_packet p =
     (if fp_len p > length (fp_bytes p) then None
      else case decode_packet (take (fp_len p) (fp_bytes p)) of Inl e \<Rightarrow> None | Inr k \<Rightarrow> Some k)"

definition request_id :: "fixed_packet \<Rightarrow> u32 option" where
  "request_id p = map_option pkt_request_id (fp_packet p)"

definition is_abort_request :: "fixed_packet \<Rightarrow> bool option" where
  "is_abort_request p = map_option (\<lambda>k. pkt_kind k = Request \<and>
     pkt_opcode k = request_u16 request_opcode.Abort) (fp_packet p)"

section \<open>Packet queues\<close>

record packet_queue =
  pq_slots :: "fixed_packet list"
  pq_head :: nat
  pq_len :: nat

definition packet_queue_new :: "nat \<Rightarrow> packet_queue" where
  "packet_queue_new n = \<lparr> pq_slots = replicate n EMPTY, pq_head = 0, pq_len = 0 \<rparr>"

definition queue_push :: "packet_queue \<Rightarrow> fixed_packet \<Rightarrow> (packet_queue \<times> bool) option" where
  "queue_push q p =
     (if pq_len q = length (pq_slots q) then Some (q, False)
      else do {
        let tl_index = (pq_head q + pq_len q) mod length (pq_slots q);
        slots \<leftarrow> poke (pq_slots q) tl_index p;
        Some (q\<lparr> pq_slots := slots, pq_len := pq_len q + 1 \<rparr>, True) })"

definition queue_pop :: "packet_queue \<Rightarrow> (packet_queue \<times> fixed_packet option) option" where
  "queue_pop q =
     (if pq_len q = 0 then Some (q, None)
      else if pq_head q \<ge> length (pq_slots q) then None
      else Some (q\<lparr> pq_head := (pq_head q + 1) mod length (pq_slots q), pq_len := pq_len q - 1 \<rparr>,
                 Some (pq_slots q ! pq_head q)))"

definition queue_peek :: "packet_queue \<Rightarrow> fixed_packet option option" where
  "queue_peek q =
     (if pq_len q = 0 then Some None
      else if pq_head q \<ge> length (pq_slots q) then None
      else Some (Some (pq_slots q ! pq_head q)))"

fun any_request_id :: "packet_queue \<Rightarrow> u32 \<Rightarrow> nat list \<Rightarrow> bool option" where
  "any_request_id q rid [] = Some False"
| "any_request_id q rid (off # offsets) =
     (if pq_slots q = [] then None
      else do {
        r \<leftarrow> request_id (pq_slots q ! ((pq_head q + off) mod length (pq_slots q)));
        if r = rid then Some True else any_request_id q rid offsets })"

definition contains_request_id :: "packet_queue \<Rightarrow> u32 \<Rightarrow> bool option" where
  "contains_request_id q rid = any_request_id q rid [0..<pq_len q]"

definition remove_request_id :: "packet_queue \<Rightarrow> u32 \<Rightarrow> (packet_queue \<times> bool) option" where
  "remove_request_id q rid =
     rotate_out queue_push queue_pop (\<lambda>p. map_option (\<lambda>r. r = rid) (request_id p)) (pq_len q) q False"

section \<open>The stream decoder\<close>

record gw_decoder =
  gd_encoded :: "u8 list"
  gd_encoded_len :: nat
  gd_decoded :: "u8 list"
  gd_overflowed :: bool

definition gw_decoder_new :: gw_decoder where
  "gw_decoder_new = \<lparr> gd_encoded = replicate MAX_UART_FRAME_LEN 0, gd_encoded_len = 0,
     gd_decoded = replicate MAX_PACKET_LEN 0, gd_overflowed = False \<rparr>"

definition gw_reset :: "gw_decoder \<Rightarrow> gw_decoder" where
  "gw_reset d = d\<lparr> gd_encoded_len := 0, gd_overflowed := False \<rparr>"

definition gw_push :: "gw_decoder \<Rightarrow> u8 \<Rightarrow>
    (gw_decoder \<times> (gateway_error + fixed_packet) option) option" where
  "gw_push d byte =
     (if byte \<noteq> UART_DELIMITER then
        (if gd_overflowed d then Some (d, None)
         else if gd_encoded_len d \<ge> MAX_UART_FRAME_LEN - 1 then
           Some (d\<lparr> gd_overflowed := True \<rparr>, None)
         else do {
           enc \<leftarrow> poke (gd_encoded d) (gd_encoded_len d) byte;
           Some (d\<lparr> gd_encoded := enc, gd_encoded_len := gd_encoded_len d + 1 \<rparr>, None) })
      else if gd_overflowed d then Some (gw_reset d, Some (Inl gateway_error.FrameTooLong))
      else if gd_encoded_len d = 0 then Some (d, None)
      else do {
        enc \<leftarrow> poke (gd_encoded d) (gd_encoded_len d) UART_DELIMITER;
        let frame_len = gd_encoded_len d + 1;
        if frame_len > length enc then None
        else do {
          (r, decoded) \<leftarrow> parse_uart_frame (take frame_len enc) (gd_decoded d);
          result \<leftarrow> (case r of Inl e \<Rightarrow> Some (Inl (gateway_error.Wire e)) | Inr k \<Rightarrow> from_packet k);
          Some (gw_reset (d\<lparr> gd_encoded := enc, gd_decoded := decoded \<rparr>), Some result) } })"

section \<open>Request routes\<close>

record request_route =
  rr_request_id :: u32
  rr_upstream :: upstream

type_synonym request_routes = "request_route option list"

definition request_routes_new :: request_routes where
  "request_routes_new = replicate REQUEST_ROUTE_CAPACITY None"

fun fill_first :: "request_route \<Rightarrow> request_routes \<Rightarrow> request_routes option" where
  "fill_first r [] = None"
| "fill_first r (None # slots) = Some (Some r # slots)"
| "fill_first r (Some x # slots) = map_option (\<lambda>slots. Some x # slots) (fill_first r slots)"

definition routes_insert :: "request_routes \<Rightarrow> request_route \<Rightarrow> gateway_error + request_routes" where
  "routes_insert slots r =
     (if list_ex (\<lambda>e. case e of None \<Rightarrow> False | Some x \<Rightarrow> rr_request_id x = rr_request_id r) slots
      then Inl (DuplicateRequestId (rr_request_id r))
      else case fill_first r slots of
          None \<Rightarrow> Inl (QueueFull RequestRoutes)
        | Some slots \<Rightarrow> Inr slots)"

fun take_first :: "(request_route \<Rightarrow> bool) \<Rightarrow> request_routes \<Rightarrow> (request_routes \<times> request_route) option" where
  "take_first p [] = None"
| "take_first p (None # slots) = map_option (\<lambda>(slots, r). (None # slots, r)) (take_first p slots)"
| "take_first p (Some x # slots) =
     (if p x then Some (None # slots, x)
      else map_option (\<lambda>(slots, r). (Some x # slots, r)) (take_first p slots))"

definition routes_remove :: "request_routes \<Rightarrow> u32 \<Rightarrow> request_routes \<times> upstream option" where
  "routes_remove slots rid =
     (case take_first (\<lambda>r. rr_request_id r = rid) slots of
        None \<Rightarrow> (slots, None)
      | Some (slots, r) \<Rightarrow> (slots, Some (rr_upstream r)))"

definition routes_remove_for :: "request_routes \<Rightarrow> u32 \<Rightarrow> upstream \<Rightarrow> request_routes \<times> bool" where
  "routes_remove_for slots rid up =
     (case take_first (\<lambda>r. rr_request_id r = rid \<and> rr_upstream r = up) slots of
        None \<Rightarrow> (slots, False)
      | Some (slots, r) \<Rightarrow> (slots, True))"

section \<open>The gateway\<close>

record pending_abort =
  pa_packet :: fixed_packet
  pa_next_retry_ms :: u64

record gateway =
  gw_usb_decoder :: gw_decoder
  gw_duo_decoder :: gw_decoder
  gw_urgent_to_duo :: packet_queue
  gw_normal_to_duo :: packet_queue
  gw_to_usb :: packet_queue
  gw_to_network :: packet_queue
  gw_request_routes :: request_routes
  gw_event_upstream :: "upstream option"
  gw_pending_abort :: "pending_abort option"
  gw_packet_scratch :: "u8 list"

definition gateway_new :: gateway where
  "gateway_new = \<lparr> gw_usb_decoder = gw_decoder_new, gw_duo_decoder = gw_decoder_new,
     gw_urgent_to_duo = packet_queue_new URGENT_QUEUE_CAPACITY,
     gw_normal_to_duo = packet_queue_new NORMAL_QUEUE_CAPACITY,
     gw_to_usb = packet_queue_new UPSTREAM_QUEUE_CAPACITY,
     gw_to_network = packet_queue_new UPSTREAM_QUEUE_CAPACITY,
     gw_request_routes = request_routes_new, gw_event_upstream = None, gw_pending_abort = None,
     gw_packet_scratch = replicate MAX_PACKET_LEN 0 \<rparr>"

definition pending_abort_is :: "gateway \<Rightarrow> u32 \<Rightarrow> bool option" where
  "pending_abort_is g rid =
     (case gw_pending_abort g of
        None \<Rightarrow> Some False
      | Some pending \<Rightarrow> map_option (\<lambda>r. r = rid) (request_id (pa_packet pending)))"

definition abort_pending :: "gateway \<Rightarrow> bool" where
  "abort_pending g \<longleftrightarrow> gw_pending_abort g \<noteq> None"

definition saturating_add64 :: "u64 \<Rightarrow> u64 \<Rightarrow> u64" where
  "saturating_add64 a b = (if unat a + unat b < 2 ^ 64 then a + b else - 1)"

definition queue_upstream :: "gateway \<Rightarrow> upstream \<Rightarrow> fixed_packet \<Rightarrow>
    (gateway \<times> (gateway_error + unit)) option" where
  "queue_upstream g up p =
     (case up of
        Usb \<Rightarrow> do {
          (q, pushed) \<leftarrow> queue_push (gw_to_usb g) p;
          Some (g\<lparr> gw_to_usb := q \<rparr>, if pushed then Inr () else Inl (QueueFull ToUsb)) }
      | Network \<Rightarrow> do {
          (q, pushed) \<leftarrow> queue_push (gw_to_network g) p;
          Some (g\<lparr> gw_to_network := q \<rparr>, if pushed then Inr () else Inl (QueueFull ToNetwork)) })"

definition route_upstream_request :: "gateway \<Rightarrow> fixed_packet \<Rightarrow> upstream \<Rightarrow>
    (gateway \<times> (gateway_error + route_outcome)) option" where
  "route_upstream_request g p up = do {
     decoded \<leftarrow> fp_packet p;
     if pkt_kind decoded \<noteq> Request then Some (g, Inl UpstreamPacketMustBeRequest)
     else if pkt_request_id decoded = 0 then Some (g, Inl UpstreamRequestIdMustBeNonZero)
     else do {
       is_abort \<leftarrow> is_abort_request p;
       if is_abort then do {
         duplicate_pending \<leftarrow> pending_abort_is g (pkt_request_id decoded);
         duplicate \<leftarrow> (if duplicate_pending then Some True
                      else contains_request_id (gw_urgent_to_duo g) (pkt_request_id decoded));
         if duplicate then Some (g, Inr DuplicateAbortIgnored)
         else case routes_insert (gw_request_routes g)
             \<lparr> rr_request_id = pkt_request_id decoded, rr_upstream = up \<rparr> of
           Inl e \<Rightarrow> Some (g, Inl e)
         | Inr routes \<Rightarrow> do {
             let g = g\<lparr> gw_request_routes := routes \<rparr>;
             (q, pushed) \<leftarrow> queue_push (gw_urgent_to_duo g) p;
             let g = g\<lparr> gw_urgent_to_duo := q \<rparr>;
             if pushed then Some (g, Inr Queued)
             else Some (g\<lparr> gw_request_routes := fst (routes_remove routes (pkt_request_id decoded)) \<rparr>,
                        Inl (QueueFull UrgentToDuo)) } }
       else case routes_insert (gw_request_routes g)
           \<lparr> rr_request_id = pkt_request_id decoded, rr_upstream = up \<rparr> of
         Inl e \<Rightarrow> Some (g, Inl e)
       | Inr routes \<Rightarrow> do {
           let g = g\<lparr> gw_request_routes := routes \<rparr>;
           (q, pushed) \<leftarrow> queue_push (gw_normal_to_duo g) p;
           let g = g\<lparr> gw_normal_to_duo := q \<rparr>;
           if pushed then Some (g, Inr Queued)
           else Some (g\<lparr> gw_request_routes := fst (routes_remove routes (pkt_request_id decoded)) \<rparr>,
                      Inl (QueueFull NormalToDuo)) } } }"

definition ends_operation :: "u16 \<Rightarrow> bool" where
  "ends_operation opc \<longleftrightarrow>
     (case event_try_from opc of
        Inl raw \<Rightarrow> False
      | Inr e \<Rightarrow> e \<in> {OperationCompleted, event_opcode.Aborted, OperationFailed, event_opcode.Fault})"

definition route_duo_packet :: "gateway \<Rightarrow> fixed_packet \<Rightarrow>
    (gateway \<times> (gateway_error + unit)) option" where
  "route_duo_packet g p = do {
     decoded \<leftarrow> fp_packet p;
     case pkt_kind decoded of
       Request \<Rightarrow> Some (g, Inl DuoPacketMustBeResponseOrEvent)
     | Response \<Rightarrow> do {
         answered \<leftarrow> pending_abort_is g (pkt_request_id decoded);
         let g = (if answered then g\<lparr> gw_pending_abort := None \<rparr> else g);
         case routes_remove (gw_request_routes g) (pkt_request_id decoded) of
           (routes, None) \<Rightarrow> Some (g, Inl (UnmatchedResponseRequestId (pkt_request_id decoded)))
         | (routes, Some up) \<Rightarrow> do {
             let g = g\<lparr> gw_request_routes := routes \<rparr>;
             let g = (if pkt_opcode decoded = response_u16 CommandAccepted
                      then g\<lparr> gw_event_upstream := Some up \<rparr> else g);
             queue_upstream g up p } }
     | Event \<Rightarrow> do {
         (g, r) \<leftarrow> (if gw_event_upstream g = Some Usb then queue_upstream g Usb p
                   else Some (g, Inr ()));
         case r of
           Inl e \<Rightarrow> Some (g, Inl e)
         | Inr _ \<Rightarrow> do {
             (g, r) \<leftarrow> queue_upstream g Network p;
             case r of
               Inl e \<Rightarrow> Some (g, Inl e)
             | Inr _ \<Rightarrow> Some (if ends_operation (pkt_opcode decoded)
                            then g\<lparr> gw_event_upstream := None \<rparr> else g, Inr ()) } } }"

definition push_usb_byte :: "gateway \<Rightarrow> u8 \<Rightarrow>
    (gateway \<times> (gateway_error + route_outcome) option) option" where
  "push_usb_byte g byte = do {
     (d, r) \<leftarrow> gw_push (gw_usb_decoder g) byte;
     let g = g\<lparr> gw_usb_decoder := d \<rparr>;
     case r of
       None \<Rightarrow> Some (g, None)
     | Some (Inl e) \<Rightarrow> Some (g, Some (Inl e))
     | Some (Inr p) \<Rightarrow> map_option (\<lambda>(g, r). (g, Some r)) (route_upstream_request g p Usb) }"

definition push_network_packet :: "gateway \<Rightarrow> u8 list \<Rightarrow>
    (gateway \<times> (gateway_error + route_outcome)) option" where
  "push_network_packet g bytes = do {
     r \<leftarrow> from_bytes bytes;
     case r of
       Inl e \<Rightarrow> Some (g, Inl e)
     | Inr p \<Rightarrow> route_upstream_request g p Network }"

definition push_duo_byte :: "gateway \<Rightarrow> u8 \<Rightarrow>
    (gateway \<times> (gateway_error + unit) option) option" where
  "push_duo_byte g byte = do {
     (d, r) \<leftarrow> gw_push (gw_duo_decoder g) byte;
     let g = g\<lparr> gw_duo_decoder := d \<rparr>;
     case r of
       None \<Rightarrow> Some (g, None)
     | Some (Inl e) \<Rightarrow> Some (g, Some (Inl e))
     | Some (Inr p) \<Rightarrow> map_option (\<lambda>(g, r). (g, Some r)) (route_duo_packet g p) }"

definition frame_packet :: "gateway \<Rightarrow> fixed_packet \<Rightarrow> u8 list \<Rightarrow>
    (gateway \<times> (gateway_error + nat) \<times> u8 list) option" where
  "frame_packet g p out = do {
     k \<leftarrow> fp_packet p;
     (r, scratch, out) \<leftarrow> frame_uart k (gw_packet_scratch g) out;
     Some (g\<lparr> gw_packet_scratch := scratch \<rparr>,
           case r of Inl e \<Rightarrow> Inl (gateway_error.Wire e) | Inr n \<Rightarrow> Inr n, out) }"

definition some_right :: "'e + 'a \<Rightarrow> 'e + 'a option" where
  "some_right r = (case r of Inl e \<Rightarrow> Inl e | Inr x \<Rightarrow> Inr (Some x))"

definition next_to_duo :: "gateway \<Rightarrow> u64 \<Rightarrow> (gateway \<times> fixed_packet option) option" where
  "next_to_duo g now_ms = do {
     (q, r) \<leftarrow> queue_pop (gw_urgent_to_duo g);
     let g = g\<lparr> gw_urgent_to_duo := q \<rparr>;
     let r = (case r of
         Some p \<Rightarrow> Some p
       | None \<Rightarrow> (case gw_pending_abort g of
           Some pending \<Rightarrow> if now_ms \<ge> pa_next_retry_ms pending then Some (pa_packet pending) else None
         | None \<Rightarrow> None));
     case r of
       Some p \<Rightarrow> Some (g, Some p)
     | None \<Rightarrow> do {
         (q, r) \<leftarrow> queue_pop (gw_normal_to_duo g);
         Some (g\<lparr> gw_normal_to_duo := q \<rparr>, r) } }"

definition dequeue_duo_uart_frame :: "gateway \<Rightarrow> u64 \<Rightarrow> u8 list \<Rightarrow>
    (gateway \<times> (gateway_error + nat option) \<times> u8 list) option" where
  "dequeue_duo_uart_frame g now_ms out = do {
     (g, r) \<leftarrow> next_to_duo g now_ms;
     case r of
       None \<Rightarrow> Some (g, Inr None, out)
     | Some p \<Rightarrow> do {
         is_abort \<leftarrow> is_abort_request p;
         let g = (if is_abort then g\<lparr> gw_pending_abort := Some \<lparr> pa_packet = p,
                    pa_next_retry_ms = saturating_add64 now_ms ABORT_RETRY_INTERVAL_MS \<rparr> \<rparr> else g);
         map_option (\<lambda>(g, r, out). (g, some_right r, out)) (frame_packet g p out) } }"

definition dequeue_usb_frame :: "gateway \<Rightarrow> u8 list \<Rightarrow>
    (gateway \<times> (gateway_error + nat option) \<times> u8 list) option" where
  "dequeue_usb_frame g out = do {
     (q, r) \<leftarrow> queue_pop (gw_to_usb g);
     let g = g\<lparr> gw_to_usb := q \<rparr>;
     case r of
       None \<Rightarrow> Some (g, Inr None, out)
     | Some p \<Rightarrow> map_option (\<lambda>(g, r, out). (g, some_right r, out)) (frame_packet g p out) }"

definition dequeue_network_packet :: "gateway \<Rightarrow> u8 list \<Rightarrow>
    (gateway \<times> (gateway_error + nat option) \<times> u8 list) option" where
  "dequeue_network_packet g out = do {
     r \<leftarrow> queue_peek (gw_to_network g);
     case r of
       None \<Rightarrow> Some (g, Inr None, out)
     | Some p \<Rightarrow>
         if length out < fp_len p then Some (g, Inl (gateway_error.Wire OutputTooSmall), out)
         else do {
           (q, r) \<leftarrow> queue_pop (gw_to_network g);
           let g = g\<lparr> gw_to_network := q \<rparr>;
           p \<leftarrow> r;
           if fp_len p > length (fp_bytes p) then None
           else do {
             out \<leftarrow> blit out 0 (take (fp_len p) (fp_bytes p));
             Some (g, Inr (Some (fp_len p)), out) } } }"

definition cancel_network_request :: "gateway \<Rightarrow> u32 \<Rightarrow> (gateway \<times> bool) option" where
  "cancel_network_request g rid =
     (case routes_remove_for (gw_request_routes g) rid Network of
        (routes, False) \<Rightarrow> Some (g, False)
      | (routes, True) \<Rightarrow> do {
          let g = g\<lparr> gw_request_routes := routes \<rparr>;
          (q, _) \<leftarrow> remove_request_id (gw_normal_to_duo g) rid;
          let g = g\<lparr> gw_normal_to_duo := q \<rparr>;
          (q, _) \<leftarrow> remove_request_id (gw_urgent_to_duo g) rid;
          let g = g\<lparr> gw_urgent_to_duo := q \<rparr>;
          pending \<leftarrow> pending_abort_is g rid;
          Some (if pending then g\<lparr> gw_pending_abort := None \<rparr> else g, True) })"

end
