(* ===== verification/GatewaySafety.thy ===== *)
theory GatewaySafety
  imports Gateway
begin

text \<open>
  The correctness of the gateway core: every stored packet is the encoding of a packet
  (\<open>stored\<close>), the ring buffers are bounded queues and the decoder is a stream decoder (two
  interpretations), and the invariant \<open>gateway_ok\<close> holds of every state that the driver calls can
  reach (\<open>gateway_reach\<close>), so that no call panics.
\<close>

named_theorems gateway_simps \<open>evaluation of the gateway's operations on stored packets\<close>

section \<open>Stored packets\<close>

definition stored :: "packet \<Rightarrow> fixed_packet" where
  "stored k = \<lparr> fp_bytes = packet_bytes k @ replicate (MAX_PACKET_LEN - length (packet_bytes k)) 0,
     fp_len = length (packet_bytes k) \<rparr>"

lemma packet_fits: "packet_ok k \<Longrightarrow> length (packet_bytes k) \<le> MAX_PACKET_LEN"
  by (simp add: packet_ok_def wire_consts)

lemma from_packet_stored [gateway_simps]: "packet_ok k \<Longrightarrow> from_packet k = Some (Inr (stored k))"
  using packet_fits [of k]
  by (simp add: from_packet_def EMPTY_def stored_def encode_packet_bytes)

lemma fp_packet_stored [gateway_simps]: "packet_ok k \<Longrightarrow> fp_packet (stored k) = Some k"
  by (simp add: fp_packet_def stored_def decode_packet_bytes)

lemma request_id_stored [gateway_simps]:
  "packet_ok k \<Longrightarrow> request_id (stored k) = Some (pkt_request_id k)"
  by (simp add: request_id_def gateway_simps)

abbreviation abort_packet :: "packet \<Rightarrow> bool" where
  "abort_packet k \<equiv> pkt_kind k = Request \<and> pkt_opcode k = request_u16 request_opcode.Abort"

lemma is_abort_stored [gateway_simps]:
  "packet_ok k \<Longrightarrow> is_abort_request (stored k) = Some (abort_packet k)"
  by (simp add: is_abort_request_def gateway_simps)

lemma from_bytes_stored [gateway_simps]:
  "packet_ok k \<Longrightarrow> from_bytes (packet_bytes k) = Some (Inr (stored k))"
  by (simp add: from_bytes_def decode_packet_bytes gateway_simps)

lemma from_bytes_total:
  obtains e where "from_bytes bytes = Some (Inl e)"
  | k where "packet_ok k" and "bytes = packet_bytes k" and "from_bytes bytes = Some (Inr (stored k))"
proof (cases "decode_packet bytes")
  case (Inl e)
  then show ?thesis using that(1) by (simp add: from_bytes_def)
next
  case (Inr k)
  then have "packet_ok k" "bytes = packet_bytes k"
    using decode_packet_image by blast+
  then show ?thesis using that(2) [of k] by (simp add: gateway_simps)
qed

lemma stored_inject: "packet_ok k \<Longrightarrow> packet_ok l \<Longrightarrow> stored k = stored l \<longleftrightarrow> k = l"
  by (metis fp_packet_stored option.inject)

section \<open>The ring buffers are bounded queues\<close>

definition queue_ok :: "packet_queue \<Rightarrow> bool" where
  "queue_ok q \<longleftrightarrow> pq_len q \<le> length (pq_slots q) \<and>
     (pq_slots q \<noteq> [] \<longrightarrow> pq_head q < length (pq_slots q))"

definition queue_slot :: "packet_queue \<Rightarrow> nat \<Rightarrow> fixed_packet" where
  "queue_slot q i = pq_slots q ! ((pq_head q + i) mod length (pq_slots q))"

definition queue_contents :: "packet_queue \<Rightarrow> fixed_packet list" where
  "queue_contents q = map (queue_slot q) [0..<pq_len q]"

abbreviation queue_capacity :: "packet_queue \<Rightarrow> nat" where
  "queue_capacity q \<equiv> length (pq_slots q)"

lemma length_queue_contents [simp]: "length (queue_contents q) = pq_len q"
  by (simp add: queue_contents_def)

lemma ring_distinct:
  assumes "i < n" and "j < n" and "(h + i) mod n = (h + j) mod (n::nat)"
  shows "i = j"
proof (rule ccontr)
  assume "i \<noteq> j"
  moreover have False if "a < b" "b < n" "(h + a) mod n = (h + b) mod n" for a b
  proof -
    from that(3) have "n dvd (h + b) - (h + a)"
      using mod_eq_dvd_iff_nat [of "h + a" "h + b" n] that(1) by simp
    with that(1,2) show False using nat_dvd_not_less [of "b - a" n] by auto
  qed
  ultimately show False using assms by (metis linorder_neqE_nat)
qed

lemma queue_push_room:
  assumes "queue_ok q" and "pq_len q < queue_capacity q"
  shows "\<exists>q'. queue_push q p = Some (q', True) \<and> queue_ok q' \<and>
    queue_contents q' = queue_contents q @ [p] \<and> queue_capacity q' = queue_capacity q"
proof -
  let ?n = "queue_capacity q"
  let ?t = "(pq_head q + pq_len q) mod ?n"
  define q' where "q' = q\<lparr> pq_slots := (pq_slots q)[?t := p], pq_len := pq_len q + 1 \<rparr>"
  have n: "0 < ?n" using assms(2) by linarith
  then have t: "?t < ?n" by simp
  have "queue_slot q' i = queue_slot q i" if "i < pq_len q" for i
  proof -
    have "(pq_head q + i) mod ?n \<noteq> ?t"
      using ring_distinct [of i ?n "pq_len q" "pq_head q"] that assms(2) by auto
    then show ?thesis by (simp add: queue_slot_def q'_def)
  qed
  moreover have "queue_slot q' (pq_len q) = p"
    using t by (simp add: queue_slot_def q'_def)
  ultimately have "queue_contents q' = queue_contents q @ [p]"
    by (simp add: queue_contents_def q'_def)
  moreover have "queue_push q p = Some (q', True)"
    using assms(2) t by (simp add: queue_push_def poke_def q'_def Let_def)
  moreover have "queue_ok q'" "queue_capacity q' = ?n"
    using assms n by (simp_all add: queue_ok_def q'_def)
  ultimately show ?thesis by blast
qed

lemma queue_pop_Cons:
  assumes "queue_ok q" and "queue_contents q = p # ps"
  shows "\<exists>q'. queue_pop q = Some (q', Some p) \<and> queue_ok q' \<and> queue_contents q' = ps \<and>
    queue_capacity q' = queue_capacity q"
proof -
  let ?n = "queue_capacity q"
  define q' where "q' = q\<lparr> pq_head := (pq_head q + 1) mod ?n, pq_len := pq_len q - 1 \<rparr>"
  obtain m where m: "pq_len q = Suc m"
    using assms(2) length_queue_contents [of q] by (cases "pq_len q") auto
  then have n: "0 < ?n" "pq_head q < ?n"
    using assms(1) by (auto simp: queue_ok_def)
  have c: "queue_contents q = queue_slot q 0 # map (\<lambda>i. queue_slot q (Suc i)) [0..<m]"
    unfolding queue_contents_def m upt_conv_Cons [OF zero_less_Suc] map_Suc_upt [symmetric]
    by (simp add: comp_def)
  have "queue_slot q' = (\<lambda>i. queue_slot q (Suc i))"
    by (rule ext) (simp add: queue_slot_def q'_def mod_add_left_eq)
  moreover have "pq_len q' = m" by (simp add: q'_def m)
  ultimately have "queue_contents q' = ps"
    using c assms(2) by (simp add: queue_contents_def)
  moreover have "queue_pop q = Some (q', Some p)"
    using c assms(2) m n by (simp add: queue_pop_def q'_def queue_slot_def)
  moreover have "queue_ok q'" "queue_capacity q' = ?n"
    using assms(1) n by (auto simp: queue_ok_def q'_def)
  ultimately show ?thesis by blast
qed

interpretation ring: bounded_queue queue_push queue_pop queue_ok queue_contents queue_capacity
proof (unfold_locales, goal_cases)
  case (1 q x)
  then show ?case using queue_push_room by simp
next
  case (2 q x)
  then show ?case by (auto simp: queue_push_def queue_ok_def)
next
  case (3 q)
  then show ?case using length_queue_contents [of q] by (simp add: queue_pop_def)
next
  case (4 q x xs)
  then show ?case by (rule queue_pop_Cons)
next
  case (5 q)
  then show ?case by (simp add: queue_ok_def)
qed

lemma queue_new_ok [simp]: "queue_ok (packet_queue_new n)" "queue_contents (packet_queue_new n) = []"
  "queue_capacity (packet_queue_new n) = n"
  by (simp_all add: queue_ok_def queue_contents_def packet_queue_new_def)

section \<open>Queues of packets\<close>

text \<open>\<open>holds n q ks\<close>: the ring \<open>q\<close> of \<open>n\<close> slots holds exactly the packets \<open>ks\<close>, oldest first.\<close>

definition holds :: "nat \<Rightarrow> packet_queue \<Rightarrow> packet list \<Rightarrow> bool" where
  "holds n q ks \<longleftrightarrow> queue_ok q \<and> queue_capacity q = n \<and> queue_contents q = map stored ks \<and>
     (\<forall>k \<in> set ks. packet_ok k)"

lemma holds_new: "holds n (packet_queue_new n) []"
  by (simp add: holds_def)

lemma holds_bound: "holds n q ks \<Longrightarrow> length ks \<le> n"
  using ring.bound [of q] by (auto simp: holds_def simp flip: length_queue_contents)

lemma holds_len: "holds n q ks \<Longrightarrow> pq_len q = length ks"
  using length_queue_contents [of q] by (simp add: holds_def)

lemma holds_unique: "holds n q ks \<Longrightarrow> holds n q ls \<Longrightarrow> ks = ls"
proof -
  assume "holds n q ks" "holds n q ls"
  then have "map stored ks = map stored ls" "inj_on stored (set ks \<union> set ls)"
    by (auto simp: holds_def inj_on_def stored_inject)
  then show "ks = ls" by (rule map_inj_on)
qed

lemma holds_push:
  assumes "holds n q ks" and "packet_ok k"
  shows "\<exists>q'. queue_push q (stored k) = Some (q', length ks < n) \<and>
    holds n q' (if length ks < n then ks @ [k] else ks) \<and> (\<not> length ks < n \<longrightarrow> q' = q)"
proof (cases "length ks < n")
  case True
  then obtain q' where "queue_push q (stored k) = Some (q', True)" "queue_ok q'"
    "queue_contents q' = queue_contents q @ [stored k]" "queue_capacity q' = queue_capacity q"
    using ring.enq_room [of q "stored k"] assms(1) holds_len [OF assms(1)] by (auto simp: holds_def)
  with True assms show ?thesis by (auto simp: holds_def)
next
  case False
  then have "queue_push q (stored k) = Some (q, False)"
    using ring.enq_full [of q "stored k"] assms(1) holds_len [OF assms(1)] by (simp add: holds_def)
  with False assms show ?thesis by auto
qed

lemma holds_pop:
  assumes "holds n q ks"
  shows "\<exists>q'. queue_pop q = Some (q', case ks of [] \<Rightarrow> None | k # _ \<Rightarrow> Some (stored k)) \<and>
    holds n q' (tl ks) \<and> (ks = [] \<longrightarrow> q' = q)"
proof (cases ks)
  case Nil
  then show ?thesis using ring.deq_empty [of q] assms by (simp add: holds_def)
next
  case (Cons k ls)
  then obtain q' where "queue_pop q = Some (q', Some (stored k))" "queue_ok q'"
    "queue_contents q' = map stored ls" "queue_capacity q' = queue_capacity q"
    using ring.deq_Cons [of q "stored k" "map stored ls"] assms by (auto simp: holds_def)
  with Cons assms show ?thesis by (auto simp: holds_def)
qed

lemma holds_peek:
  assumes "holds n q ks"
  shows "queue_peek q = Some (case ks of [] \<Rightarrow> None | k # _ \<Rightarrow> Some (stored k))"
  using holds_pop [OF assms] by (auto simp: queue_pop_def queue_peek_def split: if_splits list.splits)

lemma drop_first_map: "drop_first p (map f xs) = map f (drop_first (p \<circ> f) xs)"
  by (induction xs) auto

lemma drop_first_cong: "(\<And>x. x \<in> set xs \<Longrightarrow> p x = q x) \<Longrightarrow> drop_first p xs = drop_first q xs"
  by (induction xs) auto

lemma holds_remove:
  assumes "holds n q ks"
  shows "\<exists>q'. remove_request_id q rid = Some (q', \<exists>k \<in> set ks. pkt_request_id k = rid) \<and>
    holds n q' (drop_first (\<lambda>k. pkt_request_id k = rid) ks)"
proof -
  define p where "p s = (request_id s = Some rid)" for s
  have ks: "queue_ok q" "queue_capacity q = n" "queue_contents q = map stored ks" "\<forall>k \<in> set ks. packet_ok k"
    using assms by (simp_all add: holds_def)
  have hit: "\<forall>s \<in> set (queue_contents q). map_option (\<lambda>r. r = rid) (request_id s) = Some (p s)"
    using ks(3,4) by (auto simp: p_def gateway_simps)
  obtain q' where q': "remove_request_id q rid = Some (q', \<exists>s \<in> set (queue_contents q). p s)"
    "queue_ok q'" "queue_capacity q' = n" "queue_contents q' = drop_first p (queue_contents q)"
    using ring.rotate_all [OF ks(1) hit] ks(2) by (force simp: remove_request_id_def)
  have p: "(p \<circ> stored) k = (pkt_request_id k = rid)" if "k \<in> set ks" for k
    using that ks(4) by (simp add: p_def gateway_simps)
  have "(\<exists>s \<in> set (queue_contents q). p s) = (\<exists>k \<in> set ks. pkt_request_id k = rid)"
    using p ks(3) by auto
  moreover have "queue_contents q' = map stored (drop_first (\<lambda>k. pkt_request_id k = rid) ks)"
    unfolding q'(4) ks(3) drop_first_map using p by (intro arg_cong [where f = "map stored"] drop_first_cong)
  moreover have "\<forall>k \<in> set (drop_first (\<lambda>k. pkt_request_id k = rid) ks). packet_ok k"
    using ks(4) set_drop_first by (metis subsetD)
  ultimately show ?thesis
    using q'(1-3) by (auto simp: holds_def)
qed

lemma holds_contains:
  assumes "holds n q ks"
  shows "contains_request_id q rid = Some (\<exists>k \<in> set ks. pkt_request_id k = rid)"
proof -
  have ks: "queue_contents q = map stored ks" "\<forall>k \<in> set ks. packet_ok k" "queue_ok q"
    using assms by (simp_all add: holds_def)
  have len: "pq_len q = length ks" using ks(1) by (metis length_map length_queue_contents)
  have slot: "request_id (queue_slot q i) = Some (pkt_request_id (ks ! i))" if "i < length ks" for i
  proof -
    have "queue_slot q i = queue_contents q ! i"
      using that len by (simp add: queue_contents_def)
    with that ks(1,2) show ?thesis by (simp add: gateway_simps)
  qed
  have "any_request_id q rid is = Some (\<exists>i \<in> set is. pkt_request_id (ks ! i) = rid)"
    if "\<forall>i \<in> set is. i < length ks" for "is"
    using that
  proof (induction "is")
    case (Cons i "is")
    then have "pq_slots q \<noteq> []" using len ks(3) by (auto simp: queue_ok_def)
    with Cons slot [of i] show ?case by (auto simp: queue_slot_def)
  qed simp
  from this [of "[0..<pq_len q]"] show ?thesis
    by (auto simp: contains_request_id_def len in_set_conv_nth Bex_def)
qed

end
