(* ===== verification/GatewayRefinement.thy ===== *)
theory GatewayRefinement
  imports GatewaySafety FrameHandler
begin

text \<open>
  What the gateway promises, over lists of packets and a finite map of routes (\<open>gateway_spec\<close>), and
  the refinement: every operation of the model acts on the abstract state as its specification says
  (\<open>refines\<close>). The serial ports are interpretations of \<open>frame_handler\<close>.
\<close>

section \<open>The specification\<close>

record gateway_spec =
  gs_urgent :: "packet list"
  gs_normal :: "packet list"
  gs_usb :: "packet list"
  gs_network :: "packet list"
  gs_routes :: "u32 \<rightharpoonup> upstream"
  gs_owner :: "upstream option"
  gs_abort :: "(packet \<times> u64) option"

definition spec_new :: gateway_spec where
  "spec_new = \<lparr> gs_urgent = [], gs_normal = [], gs_usb = [], gs_network = [], gs_routes = Map.empty,
     gs_owner = None, gs_abort = None \<rparr>"

definition awaits_abort :: "gateway_spec \<Rightarrow> u32 \<Rightarrow> bool" where
  "awaits_abort a rid \<longleftrightarrow> (\<exists>k t. gs_abort a = Some (k, t) \<and> pkt_request_id k = rid)"

definition queued_abort :: "gateway_spec \<Rightarrow> u32 \<Rightarrow> bool" where
  "queued_abort a rid \<longleftrightarrow> (\<exists>k \<in> set (gs_urgent a). pkt_request_id k = rid)"

definition spec_request :: "upstream \<Rightarrow> gateway_spec \<Rightarrow> packet \<Rightarrow>
    gateway_spec \<times> (gateway_error + route_outcome)" where
  "spec_request up a k =
     (let rid = pkt_request_id k in
      if pkt_kind k \<noteq> Request then (a, Inl UpstreamPacketMustBeRequest)
      else if rid = 0 then (a, Inl UpstreamRequestIdMustBeNonZero)
      else if abort_packet k \<and> (awaits_abort a rid \<or> queued_abort a rid)
        then (a, Inr DuplicateAbortIgnored)
      else if rid \<in> dom (gs_routes a) then (a, Inl (DuplicateRequestId rid))
      else if \<not> card (dom (gs_routes a)) < REQUEST_ROUTE_CAPACITY then (a, Inl (QueueFull RequestRoutes))
      else if abort_packet k then
        (if length (gs_urgent a) < URGENT_QUEUE_CAPACITY
         then (a\<lparr> gs_routes := (gs_routes a)(rid \<mapsto> up), gs_urgent := gs_urgent a @ [k] \<rparr>, Inr Queued)
         else (a, Inl (QueueFull UrgentToDuo)))
      else
        (if length (gs_normal a) < NORMAL_QUEUE_CAPACITY
         then (a\<lparr> gs_routes := (gs_routes a)(rid \<mapsto> up), gs_normal := gs_normal a @ [k] \<rparr>, Inr Queued)
         else (a, Inl (QueueFull NormalToDuo))))"

definition spec_deliver :: "upstream \<Rightarrow> gateway_spec \<Rightarrow> packet \<Rightarrow> gateway_spec \<times> (gateway_error + unit)" where
  "spec_deliver up a k =
     (case up of
        Usb \<Rightarrow> if length (gs_usb a) < UPSTREAM_QUEUE_CAPACITY
               then (a\<lparr> gs_usb := gs_usb a @ [k] \<rparr>, Inr ()) else (a, Inl (QueueFull ToUsb))
      | Network \<Rightarrow> if length (gs_network a) < UPSTREAM_QUEUE_CAPACITY
               then (a\<lparr> gs_network := gs_network a @ [k] \<rparr>, Inr ()) else (a, Inl (QueueFull ToNetwork)))"

definition spec_response :: "gateway_spec \<Rightarrow> packet \<Rightarrow> gateway_spec \<times> (gateway_error + unit)" where
  "spec_response a k =
     (let rid = pkt_request_id k;
          a = (if awaits_abort a rid then a\<lparr> gs_abort := None \<rparr> else a) in
      case gs_routes a rid of
        None \<Rightarrow> (a, Inl (UnmatchedResponseRequestId rid))
      | Some up \<Rightarrow>
          spec_deliver up (a\<lparr> gs_routes := (gs_routes a)(rid := None),
            gs_owner := (if pkt_opcode k = response_u16 CommandAccepted then Some up else gs_owner a) \<rparr>) k)"

definition spec_event :: "gateway_spec \<Rightarrow> packet \<Rightarrow> gateway_spec \<times> (gateway_error + unit)" where
  "spec_event a k =
     (case (if gs_owner a = Some Usb then spec_deliver Usb a k else (a, Inr ())) of
        (a, Inl e) \<Rightarrow> (a, Inl e)
      | (a, Inr _) \<Rightarrow>
         (case spec_deliver Network a k of
            (a, Inl e) \<Rightarrow> (a, Inl e)
          | (a, Inr _) \<Rightarrow>
             (if ends_operation (pkt_opcode k) then a\<lparr> gs_owner := None \<rparr> else a, Inr ())))"

definition spec_duo :: "gateway_spec \<Rightarrow> packet \<Rightarrow> gateway_spec \<times> (gateway_error + unit)" where
  "spec_duo a k =
     (case pkt_kind k of
        Request \<Rightarrow> (a, Inl DuoPacketMustBeResponseOrEvent)
      | Response \<Rightarrow> spec_response a k
      | Event \<Rightarrow> spec_event a k)"

definition spec_next :: "gateway_spec \<Rightarrow> u64 \<Rightarrow> gateway_spec \<times> packet option" where
  "spec_next a now =
     (case gs_urgent a of
        k # ks \<Rightarrow> (a\<lparr> gs_urgent := ks \<rparr>, Some k)
      | [] \<Rightarrow>
         (case gs_abort a of
            Some (k, t) \<Rightarrow> if t \<le> now then (a, Some k)
              else (a\<lparr> gs_normal := tl (gs_normal a) \<rparr>, case gs_normal a of [] \<Rightarrow> None | k # _ \<Rightarrow> Some k)
          | None \<Rightarrow> (a\<lparr> gs_normal := tl (gs_normal a) \<rparr>,
              case gs_normal a of [] \<Rightarrow> None | k # _ \<Rightarrow> Some k)))"

definition spec_dequeue :: "gateway_spec \<Rightarrow> u64 \<Rightarrow> gateway_spec \<times> packet option" where
  "spec_dequeue a now =
     (case spec_next a now of
        (a, Some k) \<Rightarrow> (if abort_packet k
            then a\<lparr> gs_abort := Some (k, saturating_add64 now ABORT_RETRY_INTERVAL_MS) \<rparr> else a, Some k)
      | (a, None) \<Rightarrow> (a, None))"

definition spec_cancel :: "gateway_spec \<Rightarrow> u32 \<Rightarrow> gateway_spec \<times> bool" where
  "spec_cancel a rid =
     (if gs_routes a rid = Some Network then
        (a\<lparr> gs_routes := (gs_routes a)(rid := None),
           gs_normal := drop_first (\<lambda>k. pkt_request_id k = rid) (gs_normal a),
           gs_urgent := drop_first (\<lambda>k. pkt_request_id k = rid) (gs_urgent a),
           gs_abort := (if awaits_abort a rid then None else gs_abort a) \<rparr>, True)
      else (a, False))"

section \<open>Routes\<close>

fun routes_map :: "request_routes \<Rightarrow> u32 \<rightharpoonup> upstream" where
  "routes_map [] = Map.empty"
| "routes_map (None # slots) = routes_map slots"
| "routes_map (Some r # slots) = (routes_map slots)(rr_request_id r \<mapsto> rr_upstream r)"

fun routes_distinct :: "request_routes \<Rightarrow> bool" where
  "routes_distinct [] = True"
| "routes_distinct (None # slots) = routes_distinct slots"
| "routes_distinct (Some r # slots) \<longleftrightarrow> rr_request_id r \<notin> dom (routes_map slots) \<and> routes_distinct slots"

definition routes_are :: "request_routes \<Rightarrow> (u32 \<rightharpoonup> upstream) \<Rightarrow> bool" where
  "routes_are slots m \<longleftrightarrow> length slots = REQUEST_ROUTE_CAPACITY \<and> routes_distinct slots \<and>
     routes_map slots = m"

lemma routes_new: "routes_are request_routes_new Map.empty"
  by (simp add: routes_are_def request_routes_new_def gateway_consts numeral_eq_Suc)

lemma finite_routes [simp]: "finite (dom (routes_map slots))"
  by (induction slots rule: routes_map.induct) auto

lemma routes_occupied:
  "list_ex (\<lambda>e. case e of None \<Rightarrow> False | Some x \<Rightarrow> rr_request_id x = rid) slots \<longleftrightarrow>
   rid \<in> dom (routes_map slots)"
  by (induction slots rule: routes_map.induct) auto

lemma routes_full: "routes_distinct slots \<Longrightarrow> card (dom (routes_map slots)) + length (filter ((=) None) slots) = length slots"
  by (induction slots rule: routes_map.induct) auto

lemma fill_first_spec:
  assumes "routes_distinct slots" and "rr_request_id r \<notin> dom (routes_map slots)"
  shows "case fill_first r slots of
      None \<Rightarrow> None \<notin> set slots
    | Some slots' \<Rightarrow> None \<in> set slots \<and> length slots' = length slots \<and> routes_distinct slots' \<and>
        routes_map slots' = (routes_map slots)(rr_request_id r \<mapsto> rr_upstream r)"
  using assms
proof (induction r slots rule: fill_first.induct)
  case (3 r x slots)
  then have "rr_request_id r \<noteq> rr_request_id x" "rr_request_id r \<notin> dom (routes_map slots)"
    "routes_distinct slots" "rr_request_id x \<notin> dom (routes_map slots)"
    by (simp_all add: domIff split: if_splits)
  with "3.IH" show ?case by (auto split: option.splits simp: fun_upd_twist)
qed auto

lemma routes_insert_spec:
  assumes "routes_are slots m"
  shows "routes_insert slots \<lparr> rr_request_id = rid, rr_upstream = up \<rparr> =
      (if rid \<in> dom m then Inl (DuplicateRequestId rid)
       else if card (dom m) < REQUEST_ROUTE_CAPACITY
       then Inr (the (fill_first \<lparr> rr_request_id = rid, rr_upstream = up \<rparr> slots))
       else Inl (QueueFull RequestRoutes))"
    and "rid \<notin> dom m \<Longrightarrow> card (dom m) < REQUEST_ROUTE_CAPACITY \<Longrightarrow>
      routes_are (the (fill_first \<lparr> rr_request_id = rid, rr_upstream = up \<rparr> slots)) (m(rid \<mapsto> up))"
proof -
  let ?r = "\<lparr> rr_request_id = rid, rr_upstream = up \<rparr>"
  have d: "routes_distinct slots" "routes_map slots = m" "length slots = REQUEST_ROUTE_CAPACITY"
    using assms by (simp_all add: routes_are_def)
  have room: "None \<in> set slots \<longleftrightarrow> card (dom m) < REQUEST_ROUTE_CAPACITY"
  proof -
    have "None \<in> set slots \<longleftrightarrow> 0 < length (filter ((=) None) slots)"
      by (auto simp: filter_empty_conv)
    moreover have "card (dom m) + length (filter ((=) None) slots) = REQUEST_ROUTE_CAPACITY"
      using routes_full [OF d(1)] d(2,3) by simp
    ultimately show ?thesis by arith
  qed
  note fill = fill_first_spec [OF d(1), of ?r, unfolded d(2), simplified]
  show "routes_insert slots ?r =
      (if rid \<in> dom m then Inl (DuplicateRequestId rid)
       else if card (dom m) < REQUEST_ROUTE_CAPACITY then Inr (the (fill_first ?r slots))
       else Inl (QueueFull RequestRoutes))"
    using fill room d(2)
    by (cases "rid \<in> dom m") (simp_all add: routes_insert_def routes_occupied split: option.splits)
  show "routes_are (the (fill_first ?r slots)) (m(rid \<mapsto> up))"
    if "rid \<notin> dom m" "card (dom m) < REQUEST_ROUTE_CAPACITY"
    using fill room that d(3) by (auto simp: routes_are_def split: option.splits)
qed

lemma take_first_spec:
  assumes "routes_distinct slots" and "\<And>r. p r \<Longrightarrow> rr_request_id r = rid"
  shows "case take_first p slots of
      None \<Rightarrow> (\<forall>up. routes_map slots rid = Some up \<longrightarrow> \<not> p \<lparr> rr_request_id = rid, rr_upstream = up \<rparr>)
    | Some (slots', r) \<Rightarrow> p r \<and> length slots' = length slots \<and> routes_distinct slots' \<and>
        routes_map slots rid = Some (rr_upstream r) \<and> routes_map slots' = (routes_map slots)(rid := None)"
  using assms
proof (induction p slots rule: take_first.induct)
  case (3 p x slots)
  have d: "routes_map slots (rr_request_id x) = None" "routes_distinct slots"
    using "3.prems"(1) by (simp_all add: domIff)
  show ?case
  proof (cases "p x")
    case True
    then have "rr_request_id x = rid" using "3.prems"(2) by blast
    with True d show ?thesis by (simp add: fun_upd_idem)
  next
    case False
    show ?thesis
    proof (cases "take_first p slots")
      case None
      have "\<not> p \<lparr> rr_request_id = rr_request_id x, rr_upstream = rr_upstream x \<rparr>"
        using False by (cases x) auto
      with "3.IH" [OF False d(2) "3.prems"(2)] None False show ?thesis by simp
    next
      case (Some sr)
      then obtain slots' r where sr: "take_first p slots = Some (slots', r)" by (cases sr) auto
      with "3.IH" [OF False d(2) "3.prems"(2)] have ih: "p r" "length slots' = length slots"
        "routes_distinct slots'" "routes_map slots rid = Some (rr_upstream r)"
        "routes_map slots' = (routes_map slots)(rid := None)"
        by simp_all
      then have "rr_request_id x \<noteq> rid" using d(1) by auto
      with ih d False sr show ?thesis by (simp add: fun_upd_twist domIff)
    qed
  qed
next
  case (2 p slots)
  then show ?case by (auto split: option.splits)
qed simp

lemma routes_remove_spec:
  assumes "routes_are slots m"
  shows "\<exists>slots'. routes_remove slots rid = (slots', m rid) \<and> routes_are slots' (m(rid := None))"
proof -
  have d: "routes_distinct slots" "routes_map slots = m" "length slots = REQUEST_ROUTE_CAPACITY"
    using assms by (simp_all add: routes_are_def)
  show ?thesis
    using take_first_spec [OF d(1), of "\<lambda>r. rr_request_id r = rid" rid] d
    by (cases "m rid") (auto simp: routes_remove_def routes_are_def fun_upd_idem split: option.splits)
qed

lemma routes_remove_for_spec:
  assumes "routes_are slots m"
  shows "\<exists>slots'. routes_remove_for slots rid up = (slots', m rid = Some up) \<and>
    routes_are slots' (if m rid = Some up then m(rid := None) else m)"
proof -
  have d: "routes_distinct slots" "routes_map slots = m" "length slots = REQUEST_ROUTE_CAPACITY"
    using assms by (simp_all add: routes_are_def)
  show ?thesis
    using take_first_spec [OF d(1), of "\<lambda>r. rr_request_id r = rid \<and> rr_upstream r = up" rid] d
    by (auto simp: routes_remove_for_def routes_are_def split: option.splits)
qed

end
