(* ===== verification/GatewaySteps.thy ===== *)
theory GatewaySteps
  imports GatewayRefinement
begin

text \<open>
  The refinement of the gateway: \<open>refines g a\<close> relates a concrete state to its specification, one
  lemma per operation shows that both move together and that no operation panics, and the two serial
  ports are interpreted as \<open>frame_handler\<close>s.
\<close>

section \<open>The serial decoders\<close>

definition gd_ok :: "gw_decoder \<Rightarrow> bool" where
  "gd_ok d \<longleftrightarrow> length (gd_encoded d) = MAX_UART_FRAME_LEN \<and>
     length (gd_decoded d) = MAX_PACKET_LEN \<and> gd_encoded_len d < MAX_UART_FRAME_LEN"

definition gd_pending :: "gw_decoder \<Rightarrow> u8 list option" where
  "gd_pending d =
     (if gd_overflowed d then None else Some (take (gd_encoded_len d) (gd_encoded d)))"

lemma gd_new: "gd_ok gw_decoder_new" "gd_pending gw_decoder_new = Some []"
  by (simp_all add: gd_ok_def gd_pending_def gw_decoder_new_def wire_consts)

lemma gw_push_end:
  assumes "gd_ok d" and "gd_pending d = Some xs" and "xs \<noteq> []"
  shows "\<exists>d' r. gw_push d UART_DELIMITER = Some (d', Some r) \<and> gd_ok d' \<and> gd_pending d' = Some [] \<and>
    (\<forall>k. packet_ok k \<longrightarrow> uart_frame_bytes k = xs @ [UART_DELIMITER] \<longrightarrow> r = Inr (stored k)) \<and>
    ((\<exists>k. packet_ok k \<and> r = Inr (stored k)) \<or> (\<exists>e. r = Inl e))"
proof -
  let ?n = "gd_encoded_len d"
  let ?enc = "(gd_encoded d)[?n := UART_DELIMITER]"
  from assms have no: "\<not> gd_overflowed d" and xs: "xs = take ?n (gd_encoded d)" and n0: "?n \<noteq> 0"
    and n: "?n < length (gd_encoded d)"
    by (auto simp: gd_pending_def gd_ok_def split: if_splits)
  have enc: "poke (gd_encoded d) ?n UART_DELIMITER = Some ?enc" "length ?enc = length (gd_encoded d)"
    using n by (simp_all add: poke_def)
  have frame: "take (?n + 1) ?enc = xs @ [UART_DELIMITER]"
    using n xs by (simp add: take_Suc_conv_app_nth)
  obtain r dec where dec: "parse_uart_frame (xs @ [UART_DELIMITER]) (gd_decoded d) = Some (r, dec)"
    "length dec = length (gd_decoded d)" "\<forall>q. r = Inr q \<longrightarrow> packet_ok q"
    "\<forall>p. packet_ok p \<longrightarrow> uart_frame_bytes p = xs @ [UART_DELIMITER] \<longrightarrow> r = Inr p"
    using frame_outcome [of "gd_decoded d" xs] assms(1) unfolding gd_ok_def by blast
  define d' where "d' = gw_reset (d\<lparr> gd_encoded := ?enc, gd_decoded := dec \<rparr>)"
  have d': "gd_ok d'" "gd_pending d' = Some []"
    using assms(1) enc dec(2) by (simp_all add: d'_def gd_ok_def gw_reset_def gd_pending_def)
  show ?thesis
  proof (cases r)
    case (Inl e)
    then have "gw_push d UART_DELIMITER = Some (d', Some (Inl (gateway_error.Wire e)))"
      using no n0 n enc dec(1) frame by (simp add: gw_push_def d'_def Let_def del: One_nat_def)
    with d' dec(4) Inl show ?thesis by auto
  next
    case (Inr q)
    then have q: "packet_ok q" using dec(3) by blast
    then have "from_packet q = Some (Inr (stored q))" by (rule from_packet_stored)
    then have "gw_push d UART_DELIMITER = Some (d', Some (Inr (stored q)))"
      using no n0 n enc dec(1) frame Inr by (simp add: gw_push_def d'_def Let_def del: One_nat_def)
    with d' dec(4) Inr q show ?thesis by auto
  qed
qed

interpretation gwd: stream_decoder gw_push gd_ok gd_pending "MAX_UART_FRAME_LEN - 1"
  uart_frame_bytes packet_ok "\<lambda>k. Inr (stored k)"
proof (unfold_locales, goal_cases)
  case (1 s b xs)
  then show ?case
    by (auto simp: gw_push_def gd_ok_def gd_pending_def poke_def take_Suc_conv_app_nth split: if_splits)
next
  case (2 s b xs)
  then show ?case
    by (auto simp: gw_push_def gd_ok_def gd_pending_def min_def split: if_splits)
next
  case (3 s xs)
  then show ?case using gw_push_end by blast
next
  case (4 s)
  then show ?case
    by (auto simp: gw_push_def gd_ok_def gd_pending_def gw_reset_def split: if_splits)
next
  case (5 p)
  then show ?case by (rule uart_frame_shape)
qed

lemma gw_push_outcome:
  assumes "gd_ok d" and "gw_push d b = Some (d', Some r)"
  shows "(\<exists>k. packet_ok k \<and> r = Inr (stored k)) \<or> (\<exists>e. r = Inl e)"
proof (cases "b = UART_DELIMITER \<and> \<not> gd_overflowed d \<and> gd_encoded_len d \<noteq> 0")
  case True
  then have "gd_pending d = Some (take (gd_encoded_len d) (gd_encoded d))"
    "take (gd_encoded_len d) (gd_encoded d) \<noteq> []"
    using assms(1) by (auto simp: gd_pending_def gd_ok_def)
  from gw_push_end [OF assms(1) this] assms(2) True show ?thesis by auto
next
  case False
  with assms show ?thesis
    by (auto simp: gw_push_def poke_def gd_ok_def split: if_splits)
qed

section \<open>The relation\<close>

definition refines :: "gateway \<Rightarrow> gateway_spec \<Rightarrow> bool" where
  "refines g a \<longleftrightarrow> gd_ok (gw_usb_decoder g) \<and> gd_ok (gw_duo_decoder g) \<and>
     holds URGENT_QUEUE_CAPACITY (gw_urgent_to_duo g) (gs_urgent a) \<and>
     holds NORMAL_QUEUE_CAPACITY (gw_normal_to_duo g) (gs_normal a) \<and>
     holds UPSTREAM_QUEUE_CAPACITY (gw_to_usb g) (gs_usb a) \<and>
     holds UPSTREAM_QUEUE_CAPACITY (gw_to_network g) (gs_network a) \<and>
     routes_are (gw_request_routes g) (gs_routes a) \<and>
     gw_event_upstream g = gs_owner a \<and>
     gw_pending_abort g = map_option (\<lambda>(k, t). \<lparr> pa_packet = stored k, pa_next_retry_ms = t \<rparr>) (gs_abort a) \<and>
     (\<forall>k t. gs_abort a = Some (k, t) \<longrightarrow> packet_ok k) \<and>
     length (gw_packet_scratch g) = MAX_PACKET_LEN"

lemma refines_new: "refines gateway_new spec_new"
  by (simp add: refines_def gateway_new_def spec_new_def gd_new holds_new routes_new)

lemma refines_decoders:
  assumes "refines g a" and "gd_ok d"
  shows "refines (g\<lparr> gw_usb_decoder := d \<rparr>) a" and "refines (g\<lparr> gw_duo_decoder := d \<rparr>) a"
  using assms by (simp_all add: refines_def)

abbreviation same_decoders :: "gateway \<Rightarrow> gateway \<Rightarrow> bool" where
  "same_decoders g' g \<equiv> gw_usb_decoder g' = gw_usb_decoder g \<and> gw_duo_decoder g' = gw_duo_decoder g"

lemma refinesD:
  assumes "refines g a"
  shows "holds URGENT_QUEUE_CAPACITY (gw_urgent_to_duo g) (gs_urgent a)"
    and "holds NORMAL_QUEUE_CAPACITY (gw_normal_to_duo g) (gs_normal a)"
    and "holds UPSTREAM_QUEUE_CAPACITY (gw_to_usb g) (gs_usb a)"
    and "holds UPSTREAM_QUEUE_CAPACITY (gw_to_network g) (gs_network a)"
    and "routes_are (gw_request_routes g) (gs_routes a)"
    and "gw_event_upstream g = gs_owner a"
    and "gw_pending_abort g = map_option (\<lambda>(k, t). \<lparr> pa_packet = stored k, pa_next_retry_ms = t \<rparr>) (gs_abort a)"
    and "gs_abort a = Some (k, t) \<Longrightarrow> packet_ok k"
    and "length (gw_packet_scratch g) = MAX_PACKET_LEN"
  using assms by (auto simp: refines_def)

lemma pending_abort_refines:
  assumes "refines g a"
  shows "pending_abort_is g rid = Some (awaits_abort a rid)"
  using refinesD(7,8) [OF assms]
  by (cases "gs_abort a") (auto simp: pending_abort_is_def awaits_abort_def gateway_simps)

section \<open>Packets from the upstreams\<close>

lemma routes_restored:
  assumes "routes_are slots m" and "rid \<notin> dom m"
    and "routes_are slots' (m(rid \<mapsto> up))"
  shows "routes_are (fst (routes_remove slots' rid)) m"
proof -
  have "m(rid := None) = m" using assms(2) by (auto simp: domIff)
  then show ?thesis
    using routes_remove_spec [OF assms(3), of rid] by (auto simp del: fun_upd_apply)
qed

lemma route_upstream_refines:
  assumes "refines g a" and "packet_ok k"
  shows "\<exists>g'. route_upstream_request g (stored k) up = Some (g', snd (spec_request up a k)) \<and>
    refines g' (fst (spec_request up a k)) \<and> same_decoders g' g"
proof -
  let ?rid = "pkt_request_id k"
  note parts = refinesD [OF assms(1)]
  note ev = route_upstream_request_def gateway_simps assms(1,2) holds_contains [OF parts(1)]
    routes_insert_spec(1) [OF parts(5)] pending_abort_refines [OF assms(1)]
  consider (kind) "pkt_kind k \<noteq> Request" | (zero) "pkt_kind k = Request" "?rid = 0"
    | (dup) "pkt_kind k = Request" "?rid \<noteq> 0" "abort_packet k" "awaits_abort a ?rid \<or> queued_abort a ?rid"
    | (new) "pkt_kind k = Request" "?rid \<noteq> 0" "\<not> (abort_packet k \<and> (awaits_abort a ?rid \<or> queued_abort a ?rid))"
    by blast
  then show ?thesis
  proof cases
    case kind
    then show ?thesis by (simp add: ev spec_request_def)
  next
    case zero
    then show ?thesis by (simp add: ev spec_request_def)
  next
    case dup
    then show ?thesis
      by (auto simp: ev spec_request_def queued_abort_def)
  next
    case new
    let ?slots = "the (fill_first \<lparr> rr_request_id = ?rid, rr_upstream = up \<rparr> (gw_request_routes g))"
    have not_dup: "\<not> awaits_abort a ?rid \<and> \<not> (\<exists>k \<in> set (gs_urgent a). pkt_request_id k = ?rid)" if "abort_packet k"
      using new that by (auto simp: queued_abort_def)
    show ?thesis
    proof (cases "?rid \<notin> dom (gs_routes a) \<and> card (dom (gs_routes a)) < REQUEST_ROUTE_CAPACITY")
      case False
      with new not_dup show ?thesis
        by (auto simp: ev spec_request_def queued_abort_def split: if_splits)
    next
      case True
      then have slots: "routes_are ?slots ((gs_routes a)(?rid \<mapsto> up))"
        using routes_insert_spec(2) [OF parts(5)] by blast
      note restored = routes_restored [OF parts(5) _ slots]
      obtain q where q: "queue_push (gw_urgent_to_duo g) (stored k) =
          Some (q, length (gs_urgent a) < URGENT_QUEUE_CAPACITY)"
        "holds URGENT_QUEUE_CAPACITY q (if length (gs_urgent a) < URGENT_QUEUE_CAPACITY
          then gs_urgent a @ [k] else gs_urgent a)"
        using holds_push [OF parts(1) assms(2)] by blast
      obtain p where p: "queue_push (gw_normal_to_duo g) (stored k) =
          Some (p, length (gs_normal a) < NORMAL_QUEUE_CAPACITY)"
        "holds NORMAL_QUEUE_CAPACITY p (if length (gs_normal a) < NORMAL_QUEUE_CAPACITY
          then gs_normal a @ [k] else gs_normal a)"
        using holds_push [OF parts(2) assms(2)] by blast
      show ?thesis
      proof (cases "abort_packet k")
        case abort: True
        with new True q not_dup [OF abort] slots restored parts assms(1) show ?thesis
          by (auto simp: ev spec_request_def queued_abort_def refines_def Let_def split: if_splits)
      next
        case abort: False
        with new True p slots restored parts assms(1) show ?thesis
          by (auto simp: ev spec_request_def queued_abort_def refines_def Let_def split: if_splits)
      qed
    qed
  qed
qed

section \<open>Packets from the daemon\<close>

lemma queue_upstream_refines:
  assumes "refines g a" and "packet_ok k" and "spec_deliver up a k = (a', out)"
  shows "\<exists>g'. queue_upstream g up (stored k) = Some (g', out) \<and> refines g' a' \<and> same_decoders g' g"
proof (cases up)
  case Usb
  obtain q where "queue_push (gw_to_usb g) (stored k) =
      Some (q, length (gs_usb a) < UPSTREAM_QUEUE_CAPACITY)"
    "holds UPSTREAM_QUEUE_CAPACITY q (if length (gs_usb a) < UPSTREAM_QUEUE_CAPACITY
      then gs_usb a @ [k] else gs_usb a)"
    using holds_push [OF refinesD(3) [OF assms(1)] assms(2)] by blast
  with Usb assms show ?thesis
    by (auto simp: queue_upstream_def spec_deliver_def refines_def split: if_splits)
next
  case Network
  obtain q where "queue_push (gw_to_network g) (stored k) =
      Some (q, length (gs_network a) < UPSTREAM_QUEUE_CAPACITY)"
    "holds UPSTREAM_QUEUE_CAPACITY q (if length (gs_network a) < UPSTREAM_QUEUE_CAPACITY
      then gs_network a @ [k] else gs_network a)"
    using holds_push [OF refinesD(4) [OF assms(1)] assms(2)] by blast
  with Network assms show ?thesis
    by (auto simp: queue_upstream_def spec_deliver_def refines_def split: if_splits)
qed

lemma route_response_refines:
  assumes "refines g a" and "packet_ok k" and "pkt_kind k = Response" and "spec_response a k = (a', out)"
  shows "\<exists>g'. route_duo_packet g (stored k) = Some (g', out) \<and> refines g' a' \<and> same_decoders g' g"
proof -
  let ?rid = "pkt_request_id k"
  let ?g = "if awaits_abort a ?rid then g\<lparr> gw_pending_abort := None \<rparr> else g"
  let ?a = "if awaits_abort a ?rid then a\<lparr> gs_abort := None \<rparr> else a"
  have rel: "refines ?g ?a" "gw_request_routes ?g = gw_request_routes g" "gs_routes ?a = gs_routes a"
    "gw_event_upstream ?g = gw_event_upstream g" "gs_owner ?a = gs_owner a"
    using assms(1) by (auto simp: refines_def)
  obtain slots where slots: "routes_remove (gw_request_routes g) ?rid = (slots, gs_routes a ?rid)"
    "routes_are slots ((gs_routes a)(?rid := None))"
    using routes_remove_spec [OF refinesD(5) [OF assms(1)]] by blast
  show ?thesis
  proof (cases "gs_routes a ?rid")
    case None
    with assms rel slots show ?thesis
      by (auto simp: route_duo_packet_def gateway_simps pending_abort_refines [OF assms(1)]
          spec_response_def Let_def)
  next
    case (Some up)
    let ?accepted = "pkt_opcode k = response_u16 CommandAccepted"
    let ?h = "(if ?accepted then ?g\<lparr> gw_request_routes := slots, gw_event_upstream := Some up \<rparr>
      else ?g\<lparr> gw_request_routes := slots \<rparr>)"
    let ?b = "?a\<lparr> gs_routes := (gs_routes a)(?rid := None),
      gs_owner := (if ?accepted then Some up else gs_owner ?a) \<rparr>"
    have "refines ?h ?b"
      using rel(1) slots(2) by (auto simp: refines_def)
    moreover have "spec_deliver up ?b k = (a', out)"
      using assms(4) Some unfolding spec_response_def Let_def rel(3) by simp
    ultimately obtain g' where "queue_upstream ?h up (stored k) = Some (g', out)" "refines g' a'" "same_decoders g' ?h"
      using queue_upstream_refines [OF _ assms(2)] by blast
    moreover have "route_duo_packet g (stored k) = queue_upstream ?h up (stored k)"
      using assms(1-3) slots Some rel(2)
      by (cases "awaits_abort a ?rid"; cases ?accepted)
        (simp_all add: route_duo_packet_def gateway_simps pending_abort_refines [OF assms(1)] del: response_u16.simps)
    ultimately show ?thesis by auto
  qed
qed

lemma route_event_refines:
  assumes "refines g a" and "packet_ok k" and "pkt_kind k = Event" and "spec_event a k = (a', out)"
  shows "\<exists>g'. route_duo_packet g (stored k) = Some (g', out) \<and> refines g' a' \<and> same_decoders g' g"
proof -
  obtain a1 r1 where r1: "(if gs_owner a = Some Usb then spec_deliver Usb a k else (a, Inr ())) = (a1, r1)"
    by fastforce
  have "\<exists>g1. (if gw_event_upstream g = Some Usb then queue_upstream g Usb (stored k)
      else Some (g, Inr ())) = Some (g1, r1) \<and> refines g1 a1 \<and> same_decoders g1 g"
    using queue_upstream_refines [OF assms(1,2), of Usb a1 r1] refinesD(6) [OF assms(1)] assms(1) r1
    by (cases "gs_owner a = Some Usb") auto
  then obtain g1 where g1: "(if gw_event_upstream g = Some Usb then queue_upstream g Usb (stored k)
      else Some (g, Inr ())) = Some (g1, r1)" "refines g1 a1" "same_decoders g1 g"
    by blast
  obtain a2 r2 where r2: "spec_deliver Network a1 k = (a2, r2)" by fastforce
  then obtain g2 where g2: "queue_upstream g1 Network (stored k) = Some (g2, r2)" "refines g2 a2"
    "same_decoders g2 g1"
    using queue_upstream_refines [OF g1(2) assms(2)] by blast
  have "refines (g2\<lparr> gw_event_upstream := None \<rparr>) (a2\<lparr> gs_owner := None \<rparr>)"
    using g2(2) by (simp add: refines_def)
  with g1 g2 r1 r2 assms show ?thesis
    by (cases r1; cases r2) (auto simp: route_duo_packet_def gateway_simps spec_event_def)
qed

lemma route_duo_refines:
  assumes "refines g a" and "packet_ok k" and "spec_duo a k = (a', out)"
  shows "\<exists>g'. route_duo_packet g (stored k) = Some (g', out) \<and> refines g' a' \<and> same_decoders g' g"
proof (cases "pkt_kind k")
  case Request
  with assms show ?thesis by (auto simp: route_duo_packet_def gateway_simps spec_duo_def)
next
  case Response
  with route_response_refines [OF assms(1,2)] assms(3) show ?thesis by (simp add: spec_duo_def)
next
  case Event
  with route_event_refines [OF assms(1,2)] assms(3) show ?thesis by (simp add: spec_duo_def)
qed

section \<open>Frames to the daemon and the upstreams\<close>

definition spec_frame :: "packet \<Rightarrow> u8 list \<Rightarrow> (gateway_error + nat) \<times> u8 list" where
  "spec_frame k out =
     (if max_encoded_len (length (packet_bytes k)) + 1 \<le> length out
      then (Inr (length (uart_frame_bytes k)), uart_frame_bytes k @ drop (length (uart_frame_bytes k)) out)
      else (Inl (gateway_error.Wire OutputTooSmall), out))"

definition spec_output :: "packet option \<Rightarrow> u8 list \<Rightarrow> (gateway_error + nat option) \<times> u8 list" where
  "spec_output r out =
     (case r of None \<Rightarrow> (Inr None, out) | Some k \<Rightarrow> apfst some_right (spec_frame k out))"

lemma frame_packet_refines:
  assumes "refines g a" and "packet_ok k"
  shows "\<exists>g'. frame_packet g (stored k) out = Some (g', spec_frame k out) \<and> refines g' a \<and> same_decoders g' g"
proof -
  have len: "length (packet_bytes k) \<le> length (gw_packet_scratch g)"
    using packet_fits [OF assms(2)] refinesD(9) [OF assms(1)] by simp
  obtain scratch where "frame_uart k (gw_packet_scratch g) out =
      Some (case fst (spec_frame k out) of Inl e \<Rightarrow> Inl OutputTooSmall | Inr n \<Rightarrow> Inr n, scratch, snd (spec_frame k out))"
    "length scratch = MAX_PACKET_LEN"
  proof (cases "max_encoded_len (length (packet_bytes k)) + 1 \<le> length out")
    case True
    then show ?thesis
      using that frame_uart_bytes [OF assms(2) len True] len refinesD(9) [OF assms(1)]
      by (simp add: spec_frame_def)
  next
    case False
    then show ?thesis
      using that len refinesD(9) [OF assms(1)]
      by (simp add: frame_uart_def encode_packet_bytes [OF assms(2) len] spec_frame_def)
  qed
  moreover from this(2) have "refines (g\<lparr> gw_packet_scratch := scratch \<rparr>) a"
    using assms(1) by (simp add: refines_def)
  ultimately show ?thesis
    by (auto simp: frame_packet_def gateway_simps assms(2) spec_frame_def split: sum.splits)
qed

lemma next_to_duo_refines:
  assumes "refines g a"
  shows "\<exists>g'. next_to_duo g now = Some (g', map_option stored (snd (spec_next a now))) \<and>
    refines g' (fst (spec_next a now)) \<and> same_decoders g' g"
proof -
  note parts = refinesD [OF assms]
  obtain q where q: "queue_pop (gw_urgent_to_duo g) =
      Some (q, case gs_urgent a of [] \<Rightarrow> None | k # _ \<Rightarrow> Some (stored k))"
    "holds URGENT_QUEUE_CAPACITY q (tl (gs_urgent a))" "gs_urgent a = [] \<Longrightarrow> q = gw_urgent_to_duo g"
    using holds_pop [OF parts(1)] by blast
  obtain p where p: "queue_pop (gw_normal_to_duo g) =
      Some (p, case gs_normal a of [] \<Rightarrow> None | k # _ \<Rightarrow> Some (stored k))"
    "holds NORMAL_QUEUE_CAPACITY p (tl (gs_normal a))"
    using holds_pop [OF parts(2)] by blast
  show ?thesis
  proof (cases "gs_urgent a")
    case (Cons k ks)
    with q assms show ?thesis
      by (auto simp: next_to_duo_def spec_next_def refines_def)
  next
    case Nil
    have normal: "refines (g\<lparr> gw_normal_to_duo := p \<rparr>) (a\<lparr> gs_normal := tl (gs_normal a) \<rparr>)"
      using assms p(2) by (simp add: refines_def)
    show ?thesis
    proof (cases "\<exists>k t. gs_abort a = Some (k, t) \<and> t \<le> now")
      case True
      with Nil q(1,3) assms parts(7) show ?thesis
        by (auto simp: next_to_duo_def spec_next_def)
    next
      case False
      then have "next_to_duo g now = Some (g\<lparr> gw_normal_to_duo := p \<rparr>,
          case gs_normal a of [] \<Rightarrow> None | k # _ \<Rightarrow> Some (stored k))"
        using Nil q(1,3) p(1) parts(7) by (auto simp: next_to_duo_def split: option.splits)
      moreover have "spec_next a now = (a\<lparr> gs_normal := tl (gs_normal a) \<rparr>,
          case gs_normal a of [] \<Rightarrow> None | k # _ \<Rightarrow> Some k)"
        using False Nil by (auto simp: spec_next_def split: option.splits)
      ultimately show ?thesis
        using normal by (auto split: list.splits)
    qed
  qed
qed

lemma spec_next_ok:
  assumes "refines g a" and "snd (spec_next a now) = Some k"
  shows "packet_ok k"
  using assms(2) refinesD(1,2,8) [OF assms(1)]
  by (auto simp: spec_next_def holds_def split: list.splits option.splits if_splits prod.splits)

lemma dequeue_duo_refines:
  assumes "refines g a"
  shows "\<exists>g'. dequeue_duo_uart_frame g now out = Some (g', spec_output (snd (spec_dequeue a now)) out) \<and>
    refines g' (fst (spec_dequeue a now)) \<and> same_decoders g' g"
proof -
  obtain g1 where g1: "next_to_duo g now = Some (g1, map_option stored (snd (spec_next a now)))"
    "refines g1 (fst (spec_next a now))" "same_decoders g1 g"
    using next_to_duo_refines [OF assms] by blast
  obtain b r where b: "spec_next a now = (b, r)" by fastforce
  show ?thesis
  proof (cases r)
    case None
    with g1 b show ?thesis
      by (simp add: dequeue_duo_uart_frame_def spec_dequeue_def spec_output_def)
  next
    case (Some k)
    then have ok: "packet_ok k" using spec_next_ok [OF assms, of now k] b by simp
    let ?t = "saturating_add64 now ABORT_RETRY_INTERVAL_MS"
    let ?g = "if abort_packet k then g1\<lparr> gw_pending_abort := Some \<lparr> pa_packet = stored k,
      pa_next_retry_ms = ?t \<rparr> \<rparr> else g1"
    let ?b = "if abort_packet k then b\<lparr> gs_abort := Some (k, ?t) \<rparr> else b"
    have "refines ?g ?b" "same_decoders ?g g1"
      using g1(2) b ok by (auto simp: refines_def)
    then obtain g2 where g2: "frame_packet ?g (stored k) out = Some (g2, spec_frame k out)"
      "refines g2 ?b" "same_decoders g2 g1"
      using frame_packet_refines [OF _ ok] by metis
    have "dequeue_duo_uart_frame g now out = Some (g2, apfst some_right (spec_frame k out))"
      using g1(1) b Some ok g2(1)
      by (simp add: dequeue_duo_uart_frame_def gateway_simps apfst_def map_prod_def split: prod.splits)
    moreover have "spec_dequeue a now = (?b, Some k)"
      using b Some by (simp add: spec_dequeue_def)
    ultimately show ?thesis
      using g2 g1(3) by (simp add: spec_output_def)
  qed
qed

lemma dequeue_usb_refines:
  assumes "refines g a"
  shows "\<exists>g'. dequeue_usb_frame g out =
      Some (g', spec_output (case gs_usb a of [] \<Rightarrow> None | k # _ \<Rightarrow> Some k) out) \<and>
    refines g' (a\<lparr> gs_usb := tl (gs_usb a) \<rparr>) \<and> same_decoders g' g"
proof -
  obtain q where q: "queue_pop (gw_to_usb g) = Some (q, case gs_usb a of [] \<Rightarrow> None | k # _ \<Rightarrow> Some (stored k))"
    "holds UPSTREAM_QUEUE_CAPACITY q (tl (gs_usb a))"
    using holds_pop [OF refinesD(3) [OF assms]] by blast
  have rel: "refines (g\<lparr> gw_to_usb := q \<rparr>) (a\<lparr> gs_usb := tl (gs_usb a) \<rparr>)"
    using assms q(2) by (simp add: refines_def)
  show ?thesis
  proof (cases "gs_usb a")
    case Nil
    with q rel show ?thesis by (auto simp: dequeue_usb_frame_def spec_output_def)
  next
    case (Cons k ks)
    then have "packet_ok k" using refinesD(3) [OF assms] by (simp add: holds_def)
    with frame_packet_refines [OF rel this, of out] q Cons show ?thesis
      by (auto simp: dequeue_usb_frame_def spec_output_def apfst_def map_prod_def split: prod.splits)
  qed
qed

text \<open>The network side takes whole packets, and leaves a packet queued when the buffer is too small.\<close>

definition spec_network :: "gateway_spec \<Rightarrow> u8 list \<Rightarrow>
    gateway_spec \<times> (gateway_error + nat option) \<times> u8 list" where
  "spec_network a out =
     (case gs_network a of
        [] \<Rightarrow> (a, Inr None, out)
      | k # ks \<Rightarrow>
         (if length (packet_bytes k) \<le> length out
          then (a\<lparr> gs_network := ks \<rparr>, Inr (Some (length (packet_bytes k))),
                packet_bytes k @ drop (length (packet_bytes k)) out)
          else (a, Inl (gateway_error.Wire OutputTooSmall), out)))"

lemma dequeue_network_refines:
  assumes "refines g a"
  shows "\<exists>g'. dequeue_network_packet g out = Some (g', snd (spec_network a out)) \<and>
    refines g' (fst (spec_network a out)) \<and> same_decoders g' g"
proof -
  note queue = refinesD(4) [OF assms]
  obtain q where q: "queue_pop (gw_to_network g) =
      Some (q, case gs_network a of [] \<Rightarrow> None | k # _ \<Rightarrow> Some (stored k))"
    "holds UPSTREAM_QUEUE_CAPACITY q (tl (gs_network a))"
    using holds_pop [OF queue] by blast
  have rel: "refines (g\<lparr> gw_to_network := q \<rparr>) (a\<lparr> gs_network := tl (gs_network a) \<rparr>)"
    using assms q(2) by (simp add: refines_def)
  show ?thesis
  proof (cases "gs_network a")
    case Nil
    with assms holds_peek [OF queue] show ?thesis
      by (simp add: dequeue_network_packet_def spec_network_def)
  next
    case (Cons k ks)
    then have "packet_ok k" using queue by (simp add: holds_def)
    then have bytes: "fp_len (stored k) = length (packet_bytes k)"
      "take (length (packet_bytes k)) (fp_bytes (stored k)) = packet_bytes k"
      "length (fp_bytes (stored k)) = MAX_PACKET_LEN" "length (packet_bytes k) \<le> MAX_PACKET_LEN"
      using packet_fits [of k] by (simp_all add: stored_def)
    show ?thesis
    proof (cases "length (packet_bytes k) \<le> length out")
      case True
      with Cons holds_peek [OF queue] q(1) rel bytes show ?thesis
        by (simp add: dequeue_network_packet_def spec_network_def buf_simps del: length_packet_bytes)
    next
      case False
      with Cons holds_peek [OF queue] assms bytes show ?thesis
        by (simp add: dequeue_network_packet_def spec_network_def del: length_packet_bytes)
    qed
  qed
qed

lemma cancel_refines:
  assumes "refines g a"
  shows "\<exists>g'. cancel_network_request g rid = Some (g', snd (spec_cancel a rid)) \<and>
    refines g' (fst (spec_cancel a rid)) \<and> same_decoders g' g"
proof -
  note parts = refinesD [OF assms]
  obtain slots where slots: "routes_remove_for (gw_request_routes g) rid Network =
      (slots, gs_routes a rid = Some Network)"
    "routes_are slots (if gs_routes a rid = Some Network then (gs_routes a)(rid := None) else gs_routes a)"
    using routes_remove_for_spec [OF parts(5)] by blast
  show ?thesis
  proof (cases "gs_routes a rid = Some Network")
    case False
    with slots(1) assms show ?thesis by (simp add: cancel_network_request_def spec_cancel_def)
  next
    case True
    obtain p b where p: "remove_request_id (gw_normal_to_duo g) rid = Some (p, b)"
      "holds NORMAL_QUEUE_CAPACITY p (drop_first (\<lambda>k. pkt_request_id k = rid) (gs_normal a))"
      using holds_remove [OF parts(2)] by blast
    obtain q c where q: "remove_request_id (gw_urgent_to_duo g) rid = Some (q, c)"
      "holds URGENT_QUEUE_CAPACITY q (drop_first (\<lambda>k. pkt_request_id k = rid) (gs_urgent a))"
      using holds_remove [OF parts(1)] by blast
    let ?g = "g\<lparr> gw_request_routes := slots, gw_normal_to_duo := p, gw_urgent_to_duo := q \<rparr>"
    have "pending_abort_is ?g rid = Some (awaits_abort a rid)"
      using pending_abort_refines [OF assms, of rid] by (simp add: pending_abort_is_def)
    with True slots p q assms show ?thesis
      by (auto simp: cancel_network_request_def spec_cancel_def refines_def)
  qed
qed

end
