(* ===== verification/GatewayReach.thy ===== *)
theory GatewayReach
  imports GatewaySteps
begin

text \<open>
  The gateway as its drivers use it: the serial ports as interpretations of \<open>frame_handler\<close>, the
  states reachable by any sequence of driver calls, and the invariant of every such state.
\<close>

section \<open>The serial ports\<close>

context frame_handler begin

text \<open>A byte leaves the specified state alone, or completes a packet and acts as that packet.\<close>

lemma byte_packet:
  assumes "rel s a" and "byte_step s b = Some (s', out)"
  shows "rel s' a \<or> (\<exists>d p. push (get s) b = Some (d, Some (accept p)) \<and> good p \<and> rel s' (fst (spec a p)))"
proof -
  obtain d r where push: "push (get s) b = Some (d, r)" "inv d"
    using push_total [OF rel_inv [OF assms(1)]] by blast
  then have rel: "rel (put d s) a" using rel_put [OF assms(1)] by blast
  show ?thesis
  proof (cases r)
    case None
    with push rel assms(2) show ?thesis by (simp add: framed_def)
  next
    case (Some res)
    consider p where "good p" "res = accept p" | out where "failed res = Some out"
      using push_outcome [OF rel_inv [OF assms(1)]] push(1) Some by blast
    then show ?thesis
    proof cases
      case 1
      obtain a' out where "spec a p = (a', out)" by fastforce
      with handle_frame [OF rel 1(1)] push Some 1 assms(2) show ?thesis by (auto simp: framed_def)
    next
      case 2
      with handle_error [OF rel] push Some rel assms(2) show ?thesis by (auto simp: framed_def)
    qed
  qed
qed

end

definition gw_failed :: "gateway_error + fixed_packet \<Rightarrow> (gateway_error + 'x) option" where
  "gw_failed r = (case r of Inl e \<Rightarrow> Some (Inl e) | Inr _ \<Rightarrow> None)"

definition usb_handle :: "gateway \<Rightarrow> gateway_error + fixed_packet \<Rightarrow>
    (gateway \<times> (gateway_error + route_outcome)) option" where
  "usb_handle g r = (case r of Inl e \<Rightarrow> Some (g, Inl e) | Inr p \<Rightarrow> route_upstream_request g p Usb)"

definition duo_handle :: "gateway \<Rightarrow> gateway_error + fixed_packet \<Rightarrow>
    (gateway \<times> (gateway_error + unit)) option" where
  "duo_handle g r = (case r of Inl e \<Rightarrow> Some (g, Inl e) | Inr p \<Rightarrow> route_duo_packet g p)"

interpretation usb_port: frame_handler gw_push gd_ok gd_pending "MAX_UART_FRAME_LEN - 1"
  uart_frame_bytes packet_ok "\<lambda>k. Inr (stored k)" gw_usb_decoder "\<lambda>d g. g\<lparr> gw_usb_decoder := d \<rparr>"
  usb_handle refines "spec_request Usb" gw_failed
proof (unfold_locales, goal_cases)
  case (4 s a p a' out)
  then show ?case
    using route_upstream_refines [of s a p Usb] by (auto simp: usb_handle_def)
next
  case (6 d b d' r)
  then show ?case using gw_push_outcome [of d b d' r] by (auto simp: gw_failed_def)
qed (auto simp: refines_def usb_handle_def gw_failed_def split: sum.splits)

interpretation duo_port: frame_handler gw_push gd_ok gd_pending "MAX_UART_FRAME_LEN - 1"
  uart_frame_bytes packet_ok "\<lambda>k. Inr (stored k)" gw_duo_decoder "\<lambda>d g. g\<lparr> gw_duo_decoder := d \<rparr>"
  duo_handle refines spec_duo gw_failed
proof (unfold_locales, goal_cases)
  case (4 s a p a' out)
  then show ?case
    using route_duo_refines [of s a p a' out] by (auto simp: duo_handle_def)
next
  case (6 d b d' r)
  then show ?case using gw_push_outcome [of d b d' r] by (auto simp: gw_failed_def)
qed (auto simp: refines_def duo_handle_def gw_failed_def split: sum.splits)

lemma push_usb_byte_framed:
  "push_usb_byte = framed gw_push gw_usb_decoder (\<lambda>d g. g\<lparr> gw_usb_decoder := d \<rparr>) usb_handle"
  by (intro ext) (auto simp: push_usb_byte_def framed_def usb_handle_def split: option.splits sum.splits
      Option.bind_splits)

lemma push_duo_byte_framed:
  "push_duo_byte = framed gw_push gw_duo_decoder (\<lambda>d g. g\<lparr> gw_duo_decoder := d \<rparr>) duo_handle"
  by (intro ext) (auto simp: push_duo_byte_def framed_def duo_handle_def split: option.splits sum.splits
      Option.bind_splits)

section \<open>Reachable states\<close>

datatype gateway_input =
    UsbByte u8 | NetworkPacket "u8 list" | DuoByte u8
  | DequeueDuo u64 "u8 list" | DequeueUsb "u8 list" | DequeueNetwork "u8 list" | CancelNetwork u32

definition gateway_call :: "gateway \<Rightarrow> gateway_input \<Rightarrow> gateway option" where
  "gateway_call g c =
     (case c of
        UsbByte b \<Rightarrow> map_option fst (push_usb_byte g b)
      | NetworkPacket bs \<Rightarrow> map_option fst (push_network_packet g bs)
      | DuoByte b \<Rightarrow> map_option fst (push_duo_byte g b)
      | DequeueDuo now out \<Rightarrow> map_option fst (dequeue_duo_uart_frame g now out)
      | DequeueUsb out \<Rightarrow> map_option fst (dequeue_usb_frame g out)
      | DequeueNetwork out \<Rightarrow> map_option fst (dequeue_network_packet g out)
      | CancelNetwork rid \<Rightarrow> map_option fst (cancel_network_request g rid))"

inductive gateway_reach :: "gateway \<Rightarrow> bool" where
  start: "gateway_reach gateway_new"
| call: "gateway_reach g \<Longrightarrow> gateway_call g c = Some g' \<Longrightarrow> gateway_reach g'"

text \<open>What every reachable abstract state satisfies: each queue holds packets of its own kind.\<close>

definition spec_ok :: "gateway_spec \<Rightarrow> bool" where
  "spec_ok a \<longleftrightarrow> (\<forall>k \<in> set (gs_urgent a). abort_packet k) \<and>
     (\<forall>k \<in> set (gs_normal a). pkt_kind k = Request \<and> \<not> abort_packet k) \<and>
     (\<forall>k \<in> set (gs_usb a) \<union> set (gs_network a). pkt_kind k \<noteq> Request) \<and>
     (\<forall>k t. gs_abort a = Some (k, t) \<longrightarrow> abort_packet k) \<and>
     card (dom (gs_routes a)) \<le> REQUEST_ROUTE_CAPACITY"

lemma spec_okD:
  assumes "spec_ok a"
  shows "k \<in> set (gs_urgent a) \<Longrightarrow> abort_packet k"
    and "k \<in> set (gs_normal a) \<Longrightarrow> pkt_kind k = Request \<and> \<not> abort_packet k"
    and "k \<in> set (gs_usb a) \<or> k \<in> set (gs_network a) \<Longrightarrow> pkt_kind k \<noteq> Request"
    and "gs_abort a = Some (k, t) \<Longrightarrow> abort_packet k"
    and "card (dom (gs_routes a)) \<le> REQUEST_ROUTE_CAPACITY"
  using assms by (auto simp: spec_ok_def)

lemma card_dom_upd: "card (dom m) < n \<Longrightarrow> card (dom (m(k \<mapsto> v))) \<le> n"
  by (cases "finite (dom m)") (auto simp: card_insert_if)

lemma card_dom_none: "card (dom m) \<le> n \<Longrightarrow> finite (dom m) \<Longrightarrow> card (dom (m(k := None))) \<le> n"
  by (simp add: dom_fun_upd) (meson card_Diff1_le le_trans)

lemma spec_request_ok: "spec_ok a \<Longrightarrow> spec_ok (fst (spec_request up a k))"
  by (auto simp: spec_request_def spec_ok_def Let_def card_dom_upd simp del: dom_fun_upd)

lemma spec_deliver_ok: "spec_ok a \<Longrightarrow> pkt_kind k \<noteq> Request \<Longrightarrow> spec_ok (fst (spec_deliver up a k))"
  by (auto simp: spec_deliver_def spec_ok_def split: upstream.split)

lemma spec_duo_ok:
  assumes "spec_ok a" and "finite (dom (gs_routes a))"
  shows "spec_ok (fst (spec_duo a k))"
proof (cases "pkt_kind k")
  case Request
  with assms show ?thesis by (simp add: spec_duo_def)
next
  case Response
  have "spec_ok (a\<lparr> gs_abort := None \<rparr>)" using assms(1) by (auto simp: spec_ok_def)
  moreover have "spec_ok (b\<lparr> gs_routes := (gs_routes a)(rid := None), gs_owner := ow \<rparr>)"
    if "spec_ok b" for b rid ow
    using that assms card_dom_none [of "gs_routes a" REQUEST_ROUTE_CAPACITY rid]
    by (auto simp: spec_ok_def simp del: dom_fun_upd)
  ultimately show ?thesis
    using Response assms(1) by (auto simp: spec_duo_def spec_response_def Let_def spec_deliver_ok split: option.splits)
next
  case Event
  have "spec_ok (fst (spec_deliver up b k))" "spec_ok (b\<lparr> gs_owner := None \<rparr>)" if "spec_ok b" for up b
    using spec_deliver_ok [OF that, of k up] that Event by (auto simp: spec_ok_def)
  then show ?thesis
    using Event assms(1) by (auto simp: spec_duo_def spec_event_def split: prod.splits sum.splits)
      (metis fst_conv)+
qed

lemma spec_ok_update:
  assumes "spec_ok a"
  shows "set ks \<subseteq> set (gs_urgent a) \<Longrightarrow> spec_ok (a\<lparr> gs_urgent := ks \<rparr>)"
    and "set ks \<subseteq> set (gs_normal a) \<Longrightarrow> spec_ok (a\<lparr> gs_normal := ks \<rparr>)"
    and "set ks \<subseteq> set (gs_usb a) \<Longrightarrow> spec_ok (a\<lparr> gs_usb := ks \<rparr>)"
    and "set ks \<subseteq> set (gs_network a) \<Longrightarrow> spec_ok (a\<lparr> gs_network := ks \<rparr>)"
    and "card (dom m) \<le> REQUEST_ROUTE_CAPACITY \<Longrightarrow> spec_ok (a\<lparr> gs_routes := m \<rparr>)"
    and "(\<forall>k t. r = Some (k, t) \<longrightarrow> abort_packet k) \<Longrightarrow> spec_ok (a\<lparr> gs_abort := r \<rparr>)"
  using assms by (auto simp: spec_ok_def)

lemma set_tl_subset: "set (tl xs) \<subseteq> set xs"
  by (cases xs) auto

lemma spec_next_cases:
  obtains k ks where "gs_urgent a = k # ks" "spec_next a now = (a\<lparr> gs_urgent := ks \<rparr>, Some k)"
  | k t where "gs_urgent a = []" "gs_abort a = Some (k, t)" "t \<le> now" "spec_next a now = (a, Some k)"
  | "gs_urgent a = []" "\<forall>k t. gs_abort a = Some (k, t) \<longrightarrow> \<not> t \<le> now"
    "spec_next a now = (a\<lparr> gs_normal := tl (gs_normal a) \<rparr>, case gs_normal a of [] \<Rightarrow> None | k # _ \<Rightarrow> Some k)"
proof (cases "gs_urgent a")
  case (Cons k ks)
  then show ?thesis using that(1) by (simp add: spec_next_def)
next
  case Nil
  show ?thesis
  proof (cases "\<exists>k t. gs_abort a = Some (k, t) \<and> t \<le> now")
    case True
    with Nil that(2) show ?thesis by (auto simp: spec_next_def)
  next
    case False
    with Nil that(3) show ?thesis by (auto simp: spec_next_def split: option.splits)
  qed
qed

lemma spec_dequeue_ok:
  assumes "spec_ok a"
  shows "spec_ok (fst (spec_dequeue a now))"
proof -
  have "spec_ok (fst (spec_next a now))"
    using assms spec_ok_update(1,2) [OF assms] set_tl_subset [of "gs_normal a"]
    by (cases rule: spec_next_cases [of a now]) auto
  moreover have "fst (spec_dequeue a now) = fst (spec_next a now) \<or>
      (\<exists>k t. abort_packet k \<and> fst (spec_dequeue a now) = (fst (spec_next a now))\<lparr> gs_abort := Some (k, t) \<rparr>)"
    by (auto simp: spec_dequeue_def split: prod.splits option.splits)
  ultimately show ?thesis
    using spec_ok_update(6) by auto
qed

lemma spec_cancel_ok:
  assumes "spec_ok a" and "finite (dom (gs_routes a))"
  shows "spec_ok (fst (spec_cancel a rid))"
proof (cases "gs_routes a rid = Some Network")
  case True
  let ?p = "\<lambda>k. pkt_request_id k = rid"
  have "spec_ok (a\<lparr> gs_routes := (gs_routes a)(rid := None) \<rparr>)"
    using spec_ok_update(5) [OF assms(1) card_dom_none [OF spec_okD(5) [OF assms(1)] assms(2)]] .
  from spec_ok_update(2) [OF this, of "drop_first ?p (gs_normal a)"]
  have "spec_ok (a\<lparr> gs_routes := (gs_routes a)(rid := None), gs_normal := drop_first ?p (gs_normal a) \<rparr>)"
    by (simp add: set_drop_first)
  from spec_ok_update(1) [OF this, of "drop_first ?p (gs_urgent a)"]
  have "spec_ok (a\<lparr> gs_routes := (gs_routes a)(rid := None), gs_normal := drop_first ?p (gs_normal a),
      gs_urgent := drop_first ?p (gs_urgent a) \<rparr>)"
    by (simp add: set_drop_first)
  from spec_ok_update(6) [OF this, of "if awaits_abort a rid then None else gs_abort a"]
    spec_okD(4) [OF assms(1)]
  show ?thesis
    using True by (cases "awaits_abort a rid") (simp_all add: spec_cancel_def)
qed (simp add: spec_cancel_def assms(1))

lemma run_spec_keeps:
  assumes "\<And>a p. P a \<Longrightarrow> P (fst (spec a p))" and "P a"
  shows "P (fst (run_spec spec a ps))"
  using assms(2)
proof (induction ps arbitrary: a)
  case (Cons p ps)
  from Cons.IH [OF assms(1) [OF Cons.prems, of p]] show ?case
    by (cases "spec a p") (auto split: prod.splits)
qed simp

definition gateway_inv :: "gateway \<Rightarrow> gateway_spec \<Rightarrow> bool" where
  "gateway_inv g a \<longleftrightarrow> refines g a \<and> spec_ok a \<and> finite (dom (gs_routes a))"

lemma spec_finite:
  assumes "finite (dom (gs_routes a))"
  shows "finite (dom (gs_routes (fst (spec_request up a k))))"
    and "finite (dom (gs_routes (fst (spec_duo a k))))"
  using assms
  by (auto simp: spec_request_def spec_duo_def spec_response_def spec_event_def spec_deliver_def Let_def
      split: message_kind.split option.split upstream.splits sum.splits prod.splits if_splits)

lemma gateway_new_inv: "gateway_inv gateway_new spec_new"
  using refines_new by (simp add: gateway_inv_def spec_ok_def spec_new_def)

lemma push_network_inv:
  assumes "gateway_inv g a"
  shows "\<exists>g' r a'. push_network_packet g bs = Some (g', r) \<and> gateway_inv g' a'"
proof (cases rule: from_bytes_total [of bs])
  case (1 e)
  with assms show ?thesis by (auto simp: push_network_packet_def)
next
  case (2 k)
  obtain g' where "route_upstream_request g (stored k) Network = Some (g', snd (spec_request Network a k))"
    "refines g' (fst (spec_request Network a k))"
    using route_upstream_refines [OF _ 2(1)] assms unfolding gateway_inv_def by blast
  with 2 assms spec_request_ok spec_finite(1) show ?thesis
    by (auto simp: push_network_packet_def gateway_inv_def intro!: exI [of _ "fst (spec_request Network a k)"])
qed

lemma gateway_call_inv:
  assumes "gateway_inv g a"
  shows "\<exists>g' a'. gateway_call g c = Some g' \<and> gateway_inv g' a'"
proof -
  have rel: "refines g a" and ok: "spec_ok a" and fin: "finite (dom (gs_routes a))"
    using assms by (simp_all add: gateway_inv_def)
  show ?thesis
  proof (cases c)
    case (UsbByte b)
    obtain g' r ks where "push_usb_byte g b = Some (g', r)" "refines g' (fst (run_spec (spec_request Usb) a ks))"
      using usb_port.byte_refines [OF rel, of b] push_usb_byte_framed by metis
    moreover have "spec_ok (fst (run_spec (spec_request Usb) a ks)) \<and>
        finite (dom (gs_routes (fst (run_spec (spec_request Usb) a ks))))"
      using spec_request_ok spec_finite(1) ok fin
      by (intro run_spec_keeps [where P = "\<lambda>a. spec_ok a \<and> finite (dom (gs_routes a))"]) auto
    ultimately show ?thesis
      using UsbByte by (auto simp: gateway_call_def gateway_inv_def)
  next
    case (NetworkPacket bs)
    with push_network_inv [OF assms, of bs] show ?thesis by (auto simp: gateway_call_def)
  next
    case (DuoByte b)
    obtain g' r ks where "push_duo_byte g b = Some (g', r)" "refines g' (fst (run_spec spec_duo a ks))"
      using duo_port.byte_refines [OF rel, of b] push_duo_byte_framed by metis
    moreover have "spec_ok (fst (run_spec spec_duo a ks)) \<and>
        finite (dom (gs_routes (fst (run_spec spec_duo a ks))))"
      using spec_duo_ok spec_finite(2) ok fin
      by (intro run_spec_keeps [where P = "\<lambda>a. spec_ok a \<and> finite (dom (gs_routes a))"]) auto
    ultimately show ?thesis
      using DuoByte by (auto simp: gateway_call_def gateway_inv_def)
  next
    case (DequeueDuo now out)
    have "finite (dom (gs_routes (fst (spec_dequeue a now))))"
      using fin by (auto simp: spec_dequeue_def spec_next_def split: list.splits option.splits prod.splits)
    with DequeueDuo dequeue_duo_refines [OF rel, of now out] spec_dequeue_ok [OF ok, of now] show ?thesis
      by (auto simp: gateway_call_def gateway_inv_def)
  next
    case (DequeueUsb out)
    have "spec_ok (a\<lparr> gs_usb := tl (gs_usb a) \<rparr>)"
      using spec_ok_update(3) [OF ok set_tl_subset] .
    with DequeueUsb dequeue_usb_refines [OF rel, of out] fin show ?thesis
      by (auto simp: gateway_call_def gateway_inv_def)
  next
    case (DequeueNetwork out)
    have "spec_ok (fst (spec_network a out)) \<and> finite (dom (gs_routes (fst (spec_network a out))))"
      using ok fin spec_ok_update(4) [OF ok, of "tl (gs_network a)"]
      by (cases "gs_network a") (auto simp: spec_network_def)
    with DequeueNetwork dequeue_network_refines [OF rel, of out] show ?thesis
      by (auto simp: gateway_call_def gateway_inv_def)
  next
    case (CancelNetwork rid)
    have "finite (dom (gs_routes (fst (spec_cancel a rid))))"
      using fin by (auto simp: spec_cancel_def)
    with CancelNetwork cancel_refines [OF rel, of rid] spec_cancel_ok [OF ok fin, of rid] show ?thesis
      by (auto simp: gateway_call_def gateway_inv_def)
  qed
qed

theorem gateway_reach_inv: "gateway_reach g \<Longrightarrow> \<exists>a. gateway_inv g a"
proof (induction rule: gateway_reach.induct)
  case start
  then show ?case using gateway_new_inv by blast
next
  case (call g c g')
  then show ?case using gateway_call_inv [of g _ c] by fastforce
qed

section \<open>Reading the specification off the state\<close>

lemma refines_queues:
  assumes "refines g a"
  shows "queue_contents (gw_urgent_to_duo g) = map stored (gs_urgent a)"
    and "queue_contents (gw_normal_to_duo g) = map stored (gs_normal a)"
    and "queue_contents (gw_to_usb g) = map stored (gs_usb a)"
    and "queue_contents (gw_to_network g) = map stored (gs_network a)"
    and "routes_map (gw_request_routes g) = gs_routes a"
    and "abort_pending g \<longleftrightarrow> gs_abort a \<noteq> None"
  using refinesD [OF assms] by (auto simp: holds_def routes_are_def abort_pending_def)

lemma refines_lengths:
  assumes "refines g a"
  shows "pq_len (gw_to_usb g) = length (gs_usb a)" and "pq_len (gw_to_network g) = length (gs_network a)"
  using refinesD(3,4) [OF assms] holds_len by blast+

lemma spec_output_frame:
  assumes "packet_ok k" and "MAX_UART_FRAME_LEN \<le> length out"
  shows "spec_output (Some k) out = (Inr (Some (length (uart_frame_bytes k))),
    uart_frame_bytes k @ drop (length (uart_frame_bytes k)) out)"
proof -
  have "length (packet_bytes k) div 254 \<le> MAX_PACKET_LEN div 254"
    using packet_fits [OF assms(1)] by (rule div_le_mono)
  then have "max_encoded_len (length (packet_bytes k)) + 1 \<le> length out"
    using packet_fits [OF assms(1)] assms(2) by (simp add: max_encoded_len_def MAX_UART_FRAME_LEN_def)
  then show ?thesis by (simp add: spec_output_def spec_frame_def some_right_def)
qed

text \<open>A response releases its route and goes to the upstream that asked.\<close>

lemma spec_response_routed:
  assumes "gs_routes a (pkt_request_id k) = Some up" and "pkt_kind k = Response"
    and "length (case up of Usb \<Rightarrow> gs_usb a | Network \<Rightarrow> gs_network a) < UPSTREAM_QUEUE_CAPACITY"
  shows "snd (spec_duo a k) = Inr ()"
    and "gs_usb (fst (spec_duo a k)) = gs_usb a @ (if up = Usb then [k] else [])"
    and "gs_network (fst (spec_duo a k)) = gs_network a @ (if up = Network then [k] else [])"
    and "gs_routes (fst (spec_duo a k)) = (gs_routes a)(pkt_request_id k := None)"
  using assms by (cases up; simp add: spec_duo_def spec_response_def spec_deliver_def Let_def)+

lemma spec_response_unmatched:
  assumes "gs_routes a (pkt_request_id k) = None" and "pkt_kind k = Response"
  shows "snd (spec_duo a k) = Inl (UnmatchedResponseRequestId (pkt_request_id k))"
  using assms by (simp add: spec_duo_def spec_response_def Let_def)

lemma spec_response_ends_abort:
  assumes "gs_abort a = Some (k, t)" and "pkt_kind r = Response" and "pkt_request_id r = pkt_request_id k"
  shows "gs_abort (fst (spec_duo a r)) = None"
  using assms by (auto simp: spec_duo_def spec_response_def spec_deliver_def awaits_abort_def Let_def
      split: option.splits upstream.splits)

section \<open>The repetition of an abort request\<close>

text \<open>
  A call that ends the repetition of the abort request \<open>i\<close>: the byte that completes a response to it,
  or its cancellation. \<open>awaiting i g cs g'\<close>: the calls \<open>cs\<close> lead from \<open>g\<close> to \<open>g'\<close>, none of them
  ends the repetition and none queues a further abort request. \<open>abort_due d cs\<close> is the time from which
  the request is due again after them, when it was due from \<open>d\<close> on before: every call of the serial
  transmitter at or after the due time sends it and sets the next one.
\<close>

definition ends_abort :: "u32 \<Rightarrow> gateway \<Rightarrow> gateway_input \<Rightarrow> bool" where
  "ends_abort i g c \<longleftrightarrow>
     (case c of
        DuoByte b \<Rightarrow> (\<exists>d k. gw_push (gw_duo_decoder g) b = Some (d, Some (Inr (stored k))) \<and> packet_ok k \<and>
          pkt_kind k = Response \<and> pkt_request_id k = i)
      | CancelNetwork j \<Rightarrow> j = i
      | _ \<Rightarrow> False)"

inductive awaiting :: "u32 \<Rightarrow> gateway \<Rightarrow> gateway_input list \<Rightarrow> gateway \<Rightarrow> bool" for i where
  none: "awaiting i g [] g"
| call: "gateway_call g c = Some g1 \<Longrightarrow> \<not> ends_abort i g c \<Longrightarrow> queue_contents (gw_urgent_to_duo g1) = [] \<Longrightarrow>
    awaiting i g1 cs g2 \<Longrightarrow> awaiting i g (c # cs) g2"

fun abort_due :: "u64 \<Rightarrow> gateway_input list \<Rightarrow> u64" where
  "abort_due d [] = d"
| "abort_due d (DequeueDuo now out # cs) =
     abort_due (if d \<le> now then saturating_add64 now ABORT_RETRY_INTERVAL_MS else d) cs"
| "abort_due d (_ # cs) = abort_due d cs"

lemma abort_due_one:
  "abort_due d (c # cs) = abort_due (abort_due d [c]) cs"
  by (cases c) auto

lemma spec_request_keeps_abort: "gs_abort (fst (spec_request up a k)) = gs_abort a"
  by (simp add: spec_request_def Let_def)

lemma spec_deliver_keeps: "gs_abort (fst (spec_deliver up a k)) = gs_abort a"
  by (simp add: spec_deliver_def split: upstream.split)

lemma spec_duo_keeps_abort:
  assumes "\<not> (pkt_kind r = Response \<and> awaits_abort a (pkt_request_id r))"
  shows "gs_abort (fst (spec_duo a r)) = gs_abort a"
proof (cases "pkt_kind r")
  case Response
  with assms show ?thesis
    by (auto simp: spec_duo_def spec_response_def spec_deliver_keeps Let_def split: option.split)
next
  case Event
  then show ?thesis
    using spec_deliver_keeps [of Usb a r] spec_deliver_keeps [of Network "fst (spec_deliver Usb a r)" r]
      spec_deliver_keeps [of Network a r]
    by (auto simp: spec_duo_def spec_event_def split: prod.split sum.split)
qed (simp add: spec_duo_def)

lemma spec_dequeue_abort:
  assumes "spec_ok a" and "gs_urgent a = []" and "gs_abort a = Some (k, d)"
  shows "snd (spec_dequeue a t) = (if d \<le> t then Some k else case gs_normal a of [] \<Rightarrow> None | l # _ \<Rightarrow> Some l)"
    and "gs_abort (fst (spec_dequeue a t)) = Some (k, abort_due d [DequeueDuo t out])"
    and "gs_urgent (fst (spec_dequeue a t)) = []"
    and "gs_normal (fst (spec_dequeue a t)) = (if d \<le> t then gs_normal a else tl (gs_normal a))"
  using spec_okD(2,4) [OF assms(1)] assms(2,3)
  by (auto simp: spec_dequeue_def spec_next_def split: list.splits)

lemma call_keeps_abort:
  assumes "gateway_inv g a" and "gs_abort a = Some (k, d)" and "gs_urgent a = []"
    and "gateway_call g c = Some g'" and "\<not> ends_abort (pkt_request_id k) g c"
    and "queue_contents (gw_urgent_to_duo g') = []"
  shows "\<exists>a'. gateway_inv g' a' \<and> gs_abort a' = Some (k, abort_due d [c]) \<and> gs_urgent a' = []"
proof -
  have rel: "refines g a" and ok: "spec_ok a" and fin: "finite (dom (gs_routes a))"
    using assms(1) by (simp_all add: gateway_inv_def)
  have urgent: "gs_urgent a' = []" if "refines g' a'" for a'
    using refines_queues(1) [OF that] assms(6) by simp
  have same: ?thesis if "refines g' a" "abort_due d [c] = d"
    using that assms(2,3) ok fin by (auto simp: gateway_inv_def)
  have request: ?thesis if "refines g' (fst (spec_request up a r))" "abort_due d [c] = d" for up r
    using that urgent [OF that(1)] assms(2) spec_request_keeps_abort [of up a r] spec_request_ok [OF ok, of up r]
      spec_finite(1) [OF fin, of up r]
    by (auto simp: gateway_inv_def intro!: exI [of _ "fst (spec_request up a r)"])
  show ?thesis
  proof (cases c)
    case (UsbByte b)
    then obtain r where "push_usb_byte g b = Some (g', r)" using assms(4) by (auto simp: gateway_call_def)
    then show ?thesis
      using usb_port.byte_packet [OF rel] same request [of Usb] UsbByte unfolding push_usb_byte_framed by fastforce
  next
    case (NetworkPacket bs)
    show ?thesis
    proof (cases rule: from_bytes_total [of bs])
      case (1 e)
      with NetworkPacket assms(4) rel same show ?thesis by (auto simp: gateway_call_def push_network_packet_def)
    next
      case (2 q)
      with NetworkPacket assms(4) route_upstream_refines [OF rel 2(1), of Network] request [of Network q] show ?thesis
        by (auto simp: gateway_call_def push_network_packet_def)
    qed
  next
    case (DuoByte b)
    then obtain r where r: "push_duo_byte g b = Some (g', r)" using assms(4) by (auto simp: gateway_call_def)
    have "refines g' a \<or> (\<exists>e p. gw_push (gw_duo_decoder g) b = Some (e, Some (Inr (stored p))) \<and> packet_ok p \<and>
        refines g' (fst (spec_duo a p)))"
      using duo_port.byte_packet [OF rel] r unfolding push_duo_byte_framed by blast
    then show ?thesis
    proof (elim disjE exE conjE)
      assume "refines g' a"
      then show ?thesis using same DuoByte by simp
    next
      fix e p
      assume p: "gw_push (gw_duo_decoder g) b = Some (e, Some (Inr (stored p)))" "packet_ok p"
        "refines g' (fst (spec_duo a p))"
      then have "\<not> (pkt_kind p = Response \<and> awaits_abort a (pkt_request_id p))"
        using assms(2,5) DuoByte by (auto simp: ends_abort_def awaits_abort_def)
      from spec_duo_keeps_abort [OF this] p(3) urgent [OF p(3)] assms(2) DuoByte spec_duo_ok [OF ok fin]
        spec_finite(2) [OF fin]
      show ?thesis by (auto simp: gateway_inv_def intro!: exI [of _ "fst (spec_duo a p)"])
    qed
  next
    case (DequeueDuo now out)
    note deq = spec_dequeue_abort [OF ok assms(3,2), of now]
    have "finite (dom (gs_routes (fst (spec_dequeue a now))))"
      using fin by (auto simp: spec_dequeue_def spec_next_def split: list.splits option.splits prod.splits)
    with DequeueDuo dequeue_duo_refines [OF rel, of now out] spec_dequeue_ok [OF ok, of now] deq(2,3) assms(4)
    show ?thesis
      by (auto simp: gateway_call_def gateway_inv_def intro!: exI [of _ "fst (spec_dequeue a now)"])
  next
    case (DequeueUsb out)
    have "spec_ok (a\<lparr> gs_usb := tl (gs_usb a) \<rparr>)"
      using spec_ok_update(3) [OF ok set_tl_subset] .
    with DequeueUsb dequeue_usb_refines [OF rel, of out] fin assms(2-4) show ?thesis
      by (auto simp: gateway_call_def gateway_inv_def intro!: exI [of _ "a\<lparr> gs_usb := tl (gs_usb a) \<rparr>"])
  next
    case (DequeueNetwork out)
    have "spec_ok (fst (spec_network a out)) \<and> finite (dom (gs_routes (fst (spec_network a out)))) \<and>
        gs_abort (fst (spec_network a out)) = gs_abort a \<and> gs_urgent (fst (spec_network a out)) = gs_urgent a"
      using ok fin spec_ok_update(4) [OF ok, of "tl (gs_network a)"]
      by (cases "gs_network a") (auto simp: spec_network_def)
    with DequeueNetwork dequeue_network_refines [OF rel, of out] assms(2-4) show ?thesis
      by (auto simp: gateway_call_def gateway_inv_def intro!: exI [of _ "fst (spec_network a out)"])
  next
    case (CancelNetwork j)
    have "finite (dom (gs_routes (fst (spec_cancel a j))))"
      using fin by (auto simp: spec_cancel_def)
    moreover have "gs_abort (fst (spec_cancel a j)) = Some (k, d) \<and> gs_urgent (fst (spec_cancel a j)) = []"
      using assms(2,3,5) CancelNetwork by (auto simp: spec_cancel_def awaits_abort_def ends_abort_def)
    ultimately show ?thesis
      using CancelNetwork cancel_refines [OF rel, of j] spec_cancel_ok [OF ok fin, of j] assms(4)
      by (auto simp: gateway_call_def gateway_inv_def intro!: exI [of _ "fst (spec_cancel a j)"])
  qed
qed

text \<open>While it is unanswered, the request and its due time are exactly as the calls so far make them.\<close>

lemma awaiting_inv:
  assumes "awaiting i g cs g1" and "i = pkt_request_id k"
    and "gateway_inv g a" and "gs_abort a = Some (k, d)" and "gs_urgent a = []"
  shows "\<exists>a1. gateway_inv g1 a1 \<and> gs_abort a1 = Some (k, abort_due d cs) \<and> gs_urgent a1 = []"
  using assms
proof (induction arbitrary: a d rule: awaiting.induct)
  case (call g c g1 cs g2)
  then obtain a1 where a1: "gateway_inv g1 a1" "gs_abort a1 = Some (k, abort_due d [c])" "gs_urgent a1 = []"
    using call_keeps_abort [of g a k d c g1] by blast
  from call.IH [OF call.prems(1) this] show ?case by (simp add: abort_due_one [of d c cs])
qed auto

text \<open>Calls of the serial transmitter never end the repetition.\<close>

lemma awaiting_dequeues:
  assumes "gateway_inv g a" and "gs_abort a = Some (k, d)" and "gs_urgent a = []"
  shows "\<exists>g1. awaiting i g (map (\<lambda>t. DequeueDuo t out) ts) g1"
  using assms
proof (induction ts arbitrary: g a d)
  case (Cons t ts)
  obtain g1 where g1: "dequeue_duo_uart_frame g t out = Some (g1, spec_output (snd (spec_dequeue a t)) out)"
    "refines g1 (fst (spec_dequeue a t))"
    using dequeue_duo_refines Cons.prems(1) unfolding gateway_inv_def by blast
  have ok: "spec_ok a" using Cons.prems(1) by (simp add: gateway_inv_def)
  have call: "gateway_call g (DequeueDuo t out) = Some g1" using g1(1) by (simp add: gateway_call_def)
  then obtain a1 where a1: "gateway_inv g1 a1"
    using gateway_call_inv [OF Cons.prems(1), of "DequeueDuo t out"] by auto
  have none: "queue_contents (gw_urgent_to_duo g1) = []"
    using refines_queues(1) [OF g1(2)] spec_dequeue_abort(3) [OF ok Cons.prems(3,2)] by simp
  obtain a2 where a2: "gateway_inv g1 a2" "gs_abort a2 = Some (k, abort_due d [DequeueDuo t out])" "gs_urgent a2 = []"
    using call_keeps_abort [OF Cons.prems call _ none] by (auto simp: ends_abort_def)
  then obtain g2 where "awaiting i g1 (map (\<lambda>t. DequeueDuo t out) ts) g2" using Cons.IH by blast
  then show ?case using awaiting.call [OF call _ none, of i] by (auto simp: ends_abort_def)
qed (auto intro: awaiting.none)

text \<open>What the gateway then does next.\<close>

lemma pending_abort_next:
  assumes "gateway_inv g a" and "gs_abort a = Some (k, d)" and "gs_urgent a = []"
    and "packet_ok k" and "MAX_UART_FRAME_LEN \<le> length out"
  shows "gw_pending_abort g = Some \<lparr> pa_packet = stored k, pa_next_retry_ms = d \<rparr> \<and>
    queue_contents (gw_urgent_to_duo g) = [] \<and>
    (\<exists>qs. (\<forall>q \<in> set qs. packet_ok q \<and> \<not> abort_packet q) \<and> queue_contents (gw_normal_to_duo g) = map stored qs \<and>
      (\<forall>t. \<exists>g2. dequeue_duo_uart_frame g t out = Some (g2,
          case (if d \<le> t then k # qs else qs) of
            [] \<Rightarrow> (Inr None, out)
          | q # _ \<Rightarrow> (Inr (Some (length (uart_frame_bytes q))), uart_frame_bytes q @ drop (length (uart_frame_bytes q)) out)) \<and>
        queue_contents (gw_normal_to_duo g2) = map stored (if d \<le> t then qs else tl qs))) \<and>
    (\<forall>r. packet_ok r \<and> pkt_kind r = Response \<and> pkt_request_id r = pkt_request_id k \<longrightarrow>
      (\<exists>g2 res. route_duo_packet g (stored r) = Some (g2, res) \<and> \<not> abort_pending g2)) \<and>
    (\<forall>g2. cancel_network_request g (pkt_request_id k) = Some (g2, True) \<longrightarrow> \<not> abort_pending g2)"
proof (intro conjI)
  have rel: "refines g a" and ok: "spec_ok a" using assms(1) by (simp_all add: gateway_inv_def)
  note deq = spec_dequeue_abort [OF ok assms(3,2)]
  show "gw_pending_abort g = Some \<lparr> pa_packet = stored k, pa_next_retry_ms = d \<rparr>"
    using refinesD(7) [OF rel] assms(2) by simp
  show "queue_contents (gw_urgent_to_duo g) = []" using refines_queues(1) [OF rel] assms(3) by simp
  let ?qs = "gs_normal a"
  have qs: "\<forall>q \<in> set ?qs. packet_ok q \<and> \<not> abort_packet q"
    using spec_okD(2) [OF ok] refinesD(2) [OF rel] by (auto simp: holds_def)
  moreover have "\<exists>g2. dequeue_duo_uart_frame g t out = Some (g2,
          case (if d \<le> t then k # ?qs else ?qs) of
            [] \<Rightarrow> (Inr None, out)
          | q # _ \<Rightarrow> (Inr (Some (length (uart_frame_bytes q))), uart_frame_bytes q @ drop (length (uart_frame_bytes q)) out)) \<and>
        queue_contents (gw_normal_to_duo g2) = map stored (if d \<le> t then ?qs else tl ?qs)" for t
  proof -
    obtain g2 where g2: "dequeue_duo_uart_frame g t out = Some (g2, spec_output (snd (spec_dequeue a t)) out)"
      "refines g2 (fst (spec_dequeue a t))"
      using dequeue_duo_refines [OF rel] by blast
    have "spec_output (Some q) out = (Inr (Some (length (uart_frame_bytes q))),
        uart_frame_bytes q @ drop (length (uart_frame_bytes q)) out)" if "q = k \<or> q \<in> set ?qs" for q
      using spec_output_frame [OF _ assms(5), of q] that assms(4) qs by blast
    then have "spec_output (snd (spec_dequeue a t)) out = (case (if d \<le> t then k # ?qs else ?qs) of
            [] \<Rightarrow> (Inr None, out)
          | q # _ \<Rightarrow> (Inr (Some (length (uart_frame_bytes q))), uart_frame_bytes q @ drop (length (uart_frame_bytes q)) out))"
      by (simp add: deq(1) spec_output_def split: list.split)
    with g2(1) refines_queues(2) [OF g2(2)] deq(4) [of t] show ?thesis by auto
  qed
  ultimately show "\<exists>qs. (\<forall>q \<in> set qs. packet_ok q \<and> \<not> abort_packet q) \<and>
      queue_contents (gw_normal_to_duo g) = map stored qs \<and>
      (\<forall>t. \<exists>g2. dequeue_duo_uart_frame g t out = Some (g2,
          case (if d \<le> t then k # qs else qs) of
            [] \<Rightarrow> (Inr None, out)
          | q # _ \<Rightarrow> (Inr (Some (length (uart_frame_bytes q))), uart_frame_bytes q @ drop (length (uart_frame_bytes q)) out)) \<and>
        queue_contents (gw_normal_to_duo g2) = map stored (if d \<le> t then qs else tl qs))"
    using refines_queues(2) [OF rel] by blast
  have "\<exists>g2 res. route_duo_packet g (stored r) = Some (g2, res) \<and> \<not> abort_pending g2"
    if "packet_ok r" "pkt_kind r = Response" "pkt_request_id r = pkt_request_id k" for r
    using route_duo_refines [OF rel that(1)] spec_response_ends_abort [OF assms(2) that(2,3)] refines_queues(6)
    by (metis prod.collapse)
  then show "\<forall>r. packet_ok r \<and> pkt_kind r = Response \<and> pkt_request_id r = pkt_request_id k \<longrightarrow>
      (\<exists>g2 res. route_duo_packet g (stored r) = Some (g2, res) \<and> \<not> abort_pending g2)" by blast
  show "\<forall>g2. cancel_network_request g (pkt_request_id k) = Some (g2, True) \<longrightarrow> \<not> abort_pending g2"
    using cancel_refines [OF rel, of "pkt_request_id k"] assms(2) refines_queues(6)
    by (fastforce simp: spec_cancel_def awaits_abort_def split: if_splits)
qed

section \<open>Two limits of the core\<close>

text \<open>
  An event of an operation that USB owns is lost for the network, and does not end the ownership,
  while the USB queue is full.
\<close>

lemma event_blocked_by_usb:
  assumes "refines g a" and "packet_ok k" and "pkt_kind k = Event" and "gs_owner a = Some Usb"
    and "length (gs_usb a) = UPSTREAM_QUEUE_CAPACITY"
  shows "\<exists>g'. route_duo_packet g (stored k) = Some (g', Inl (QueueFull ToUsb)) \<and> refines g' a"
  using route_duo_refines [OF assms(1,2), of a "Inl (QueueFull ToUsb)"] assms(3-5)
  by (auto simp: spec_duo_def spec_event_def spec_deliver_def)

text \<open>
  A second abort request that is sent while a first one is unanswered takes over the repetition: the
  first is not repeated again, although no response to it has arrived.
\<close>

lemma second_abort_replaces_first:
  assumes "refines g a" and "gs_abort a = Some (k, t)" and "gs_urgent a = l # ls" and "abort_packet l"
  shows "\<exists>g' r. dequeue_duo_uart_frame g now out = Some (g', r) \<and>
    gw_pending_abort g' = Some \<lparr> pa_packet = stored l,
      pa_next_retry_ms = saturating_add64 now ABORT_RETRY_INTERVAL_MS \<rparr>"
proof -
  have "gs_abort (fst (spec_dequeue a now)) = Some (l, saturating_add64 now ABORT_RETRY_INTERVAL_MS)"
    using assms by (simp add: spec_dequeue_def spec_next_def)
  moreover obtain g' where "dequeue_duo_uart_frame g now out = Some (g', spec_output (snd (spec_dequeue a now)) out)"
    "refines g' (fst (spec_dequeue a now))"
    using dequeue_duo_refines [OF assms(1)] by blast
  ultimately show ?thesis
    using refinesD(7) by fastforce
qed

section \<open>Reachable examples\<close>

text \<open>After one accepted network request the gateway is in the state its specification says.\<close>

lemma reach_request:
  assumes "packet_ok k"
  shows "\<exists>g. gateway_reach g \<and> refines g (fst (spec_request Network spec_new k))"
proof -
  obtain g r where "route_upstream_request gateway_new (stored k) Network = Some (g, r)"
    and g: "refines g (fst (spec_request Network spec_new k))"
    using route_upstream_refines [OF refines_new assms] by blast
  then have "gateway_call gateway_new (NetworkPacket (packet_bytes k)) = Some g"
    using assms by (simp add: gateway_call_def push_network_packet_def from_bytes_stored)
  with gateway_reach.call [OF gateway_reach.start] g show ?thesis by blast
qed

end
