(* ===== verification/DaemonLink.thy ===== *)
theory DaemonLink
  imports DaemonSafety GatewayReach
begin

text \<open>
  The composition over the serial line. With a writer that records the bytes (\<open>log_env\<close>) and
  serializers given by the bytes of each message, the received bytes act on the robot service as
  their packets, and the written bytes are the frames of the service's messages; so a request that
  enters the gateway is answered through it.
\<close>

section \<open>The recording environment\<close>

definition fill :: "('t \<Rightarrow> u8 list) \<Rightarrow> 't \<Rightarrow> u8 list \<Rightarrow> (unit + nat) \<times> u8 list" where
  "fill bytes v buf =
     (if length (bytes v) \<le> length buf
      then (Inr (length (bytes v)), bytes v @ drop (length (bytes v)) buf) else (Inl (), buf))"

definition log_env :: "(response_payload \<Rightarrow> u8 list) \<Rightarrow> (event_message \<Rightarrow> u8 list) \<Rightarrow>
    (u8 list, unit) daemon_env" where
  "log_env br be = \<lparr> write_all = (\<lambda>w bs. (True, w @ bs)), flush = (\<lambda>w. (True, w)),
     ser_response = fill br, ser_event = fill be \<rparr>"

definition payloads_fit :: "(response_payload \<Rightarrow> u8 list) \<Rightarrow> (event_message \<Rightarrow> u8 list) \<Rightarrow> bool" where
  "payloads_fit br be \<longleftrightarrow> (\<forall>v. length (br v) \<le> MAX_PAYLOAD_LEN) \<and> (\<forall>v. length (be v) \<le> MAX_PAYLOAD_LEN)"

lemma log_env_ok: "env_ok (log_env br be)"
  by (simp add: env_ok_def log_env_def serializer_ok_def fill_def)

fun message_packet :: "(response_payload \<Rightarrow> u8 list) \<Rightarrow> (event_message \<Rightarrow> u8 list) \<Rightarrow>
    service_message \<Rightarrow> packet" where
  "message_packet br be (service_message.Response r) =
     \<lparr> pkt_kind = message_kind.Response, pkt_opcode = response_u16 (rsp_opcode r),
       pkt_request_id = rsp_request_id r, pkt_payload = br (rsp_payload r) \<rparr>"
| "message_packet br be (service_message.Event e) =
     \<lparr> pkt_kind = message_kind.Event, pkt_opcode = event_u16 (event_opcode_of e),
       pkt_request_id = 0, pkt_payload = be e \<rparr>"

lemma message_packet_ok: "payloads_fit br be \<Longrightarrow> packet_ok (message_packet br be m)"
  by (cases m) (simp_all add: payloads_fit_def packet_ok_def)

lemma encode_frame_fill:
  assumes "encoder_ok e" and "length (bytes v) \<le> MAX_PAYLOAD_LEN"
  shows "\<exists>e'. encode_frame (fill bytes) e knd opc rid v =
      Some (Inr (uart_frame_bytes \<lparr> pkt_kind = knd, pkt_opcode = opc, pkt_request_id = rid,
        pkt_payload = bytes v \<rparr>), e') \<and> encoder_ok e'"
proof -
  let ?buf = "bytes v @ drop (length (bytes v)) (enc_payload e)"
  have len: "length (enc_payload e) = MAX_PAYLOAD_LEN" using assms(1) by (simp add: encoder_ok_def)
  then have "encoder_ok (e\<lparr> enc_payload := ?buf \<rparr>)" using assms by (simp add: encoder_ok_def)
  from encode_raw_frame [OF this assms(2), of knd opc rid] show ?thesis
    using len assms(2) by (auto simp: encode_frame_def encode_payload_def fill_def)
qed

lemma encode_uart_fill:
  assumes "encoder_ok e" and "payloads_fit br be"
  shows "\<exists>e'. encode_uart (fill br) (fill be) m e =
    Some (Inr (uart_frame_bytes (message_packet br be m)), e') \<and> encoder_ok e'"
  using assms by (cases m) (simp_all add: encode_frame_fill payloads_fit_def)

definition message_bytes :: "(response_payload \<Rightarrow> u8 list) \<Rightarrow> (event_message \<Rightarrow> u8 list) \<Rightarrow>
    service_message list \<Rightarrow> u8 list" where
  "message_bytes br be ms = concat (map uart_frame_bytes (map (message_packet br be) ms))"

lemma write_frames_log:
  assumes "encoder_ok e" and "payloads_fit br be"
  shows "\<exists>e'. write_frames (log_env br be) ms e w =
    Some (Inr (), e', w @ message_bytes br be ms) \<and> encoder_ok e'"
  using assms(1)
proof (induction ms arbitrary: e w)
  case Nil
  then show ?case by (simp add: log_env_def message_bytes_def)
next
  case (Cons m ms)
  obtain e1 where "encode_uart (fill br) (fill be) m e =
      Some (Inr (uart_frame_bytes (message_packet br be m)), e1)" "encoder_ok e1"
    using encode_uart_fill [OF Cons.prems assms(2)] by blast
  with Cons.IH [OF this(2), of "w @ uart_frame_bytes (message_packet br be m)"] show ?case
    by (auto simp: log_env_def message_bytes_def)
qed

section \<open>The daemon as a frame handler\<close>

definition daemon_handle :: "('d, 's) backend \<Rightarrow> ('w, 'pe) daemon_env \<Rightarrow> ('d, 's, 'w) daemon \<Rightarrow>
    stream_decode_error + received_packet \<Rightarrow>
    (('d, 's, 'w) daemon \<times> (string + unit) \<times> service_message list) option" where
  "daemon_handle B E d r =
     (case r of
        Inl e \<Rightarrow> Some (d, Inr (), [])
      | Inr packet \<Rightarrow> do {
          let d = observe (ObservedRequest packet) d;
          (messages, s) \<leftarrow> handle_packet B packet (dm_service d);
          (res, d) \<leftarrow> write_messages E messages (d\<lparr> dm_service := s \<rparr>);
          Some (observe (ObservedMessages messages) d, res, messages) })"

text \<open>What a packet does: to the service, and to the bytes written so far.\<close>

definition serve :: "('d, 's) backend \<Rightarrow> (response_payload \<Rightarrow> u8 list) \<Rightarrow> (event_message \<Rightarrow> u8 list) \<Rightarrow>
    ('d, 's) service \<times> u8 list \<Rightarrow> packet \<Rightarrow>
    (('d, 's) service \<times> u8 list) \<times> (string + unit) \<times> service_message list" where
  "serve B br be a k =
     (case handle_packet B (delivered k) (fst a) of
        None \<Rightarrow> (a, Inr (), [])
      | Some (messages, s) \<Rightarrow> ((s, snd a @ message_bytes br be messages), Inr (), messages))"

definition serving :: "(response_payload \<Rightarrow> u8 list) \<Rightarrow> (event_message \<Rightarrow> u8 list) \<Rightarrow>
    ('d, 's, u8 list) daemon \<Rightarrow> ('d, 's) service \<times> u8 list \<Rightarrow> bool" where
  "serving br be d a \<longleftrightarrow> daemon_ok d \<and> dm_service d = fst a \<and> dm_writer d = Some (snd a) \<and>
     payloads_fit br be"

definition frame_failed :: "stream_decode_error + received_packet \<Rightarrow>
    ((string + unit) \<times> service_message list) option" where
  "frame_failed r = (case r of Inl e \<Rightarrow> Some (Inr (), []) | Inr p \<Rightarrow> None)"

lemma push_outcome:
  assumes "decoder_ok d" and "push d b = Some (d', Some r)"
  shows "(\<exists>p. packet_ok p \<and> r = Inr (delivered p)) \<or> (\<exists>e. r = Inl e)"
  using assms parse_uart_frame_ok received_ok
  by (fastforce simp: push_def Let_def split: if_splits Option.bind_splits sum.splits)

lemma daemon_handle_packet:
  assumes "serving br be d a" and "packet_ok k" and "serve B br be a k = (a', out)"
  shows "\<exists>d'. daemon_handle B (log_env br be) d (Inr (delivered k)) = Some (d', out) \<and>
    serving br be d' a' \<and> dm_decoder d' = dm_decoder d"
proof -
  have d: "daemon_ok d" "dm_service d = fst a" "dm_writer d = Some (snd a)" "payloads_fit br be"
    using assms(1) by (simp_all add: serving_def)
  obtain ms s where s: "handle_packet B (delivered k) (fst a) = Some (ms, s)" "service_inv s" "svc_events s = []"
    using handle_packet_inv [of "fst a" B "delivered k"] d(1,2) by (auto simp: daemon_ok_def)
  obtain e' where e': "write_frames (log_env br be) ms (dm_encoder d) (snd a) =
      Some (Inr (), e', snd a @ message_bytes br be ms)" "encoder_ok e'"
    using write_frames_log [OF _ d(4)] d(1) by (metis daemon_ok_def)
  with s d assms(3) show ?thesis
    by (auto simp: daemon_handle_def serve_def serving_def write_messages_def daemon_ok_def)
qed

interpretation served: frame_handler push decoder_ok decoder_pending "MAX_UART_FRAME_LEN - 1"
  uart_frame_bytes packet_ok "\<lambda>p. Inr (delivered p)" dm_decoder "\<lambda>c d. d\<lparr> dm_decoder := c \<rparr>"
  "daemon_handle B (log_env br be)" "serving br be" "serve B br be" frame_failed
  for B br be
proof (unfold_locales, goal_cases)
  case (4 s a p a' out)
  then show ?case by (rule daemon_handle_packet)
next
  case (6 d b d' r)
  then show ?case using push_outcome [of d b d' r] by (auto simp: frame_failed_def)
qed (auto simp: serving_def daemon_ok_def daemon_handle_def frame_failed_def split: sum.splits)

lemma serve_never_fails: "fst (snd (serve B br be a k)) = Inr ()"
  by (simp add: serve_def split: option.split)

text \<open>With writes that succeed, the loop over the received bytes is the feeding of the port.\<close>

lemma handle_bytes_feed:
  assumes "serving br be d a"
    and "feed (framed push dm_decoder (\<lambda>c d. d\<lparr> dm_decoder := c \<rparr>) (daemon_handle B (log_env br be))) d bs =
      Some (d', outs)"
  shows "handle_bytes B (log_env br be) bs d = Some (Inr (), d')"
  using assms
proof (induction bs arbitrary: d a outs)
  case (Cons b bs)
  let ?put = "\<lambda>c d. d\<lparr> dm_decoder := c \<rparr>"
  obtain decoder r where r: "push (dm_decoder d) b = Some (decoder, r)" "decoder_ok decoder"
    using usd.push_total [of "dm_decoder d" b] Cons.prems(1) by (auto simp: serving_def daemon_ok_def)
  have ok: "serving br be (?put decoder d) a"
    using served.rel_put [OF Cons.prems(1) r(2)] .
  consider "r = None" | e where "r = Some (Inl e)" | k where "r = Some (Inr (delivered k))" "packet_ok k"
    using push_outcome [of "dm_decoder d" b decoder] r(1) Cons.prems(1)
    by (cases r) (auto simp: serving_def daemon_ok_def)
  then show ?case
  proof cases
    case 1
    with Cons.prems(2) r(1) Cons.IH [OF ok] show ?thesis
      by (auto simp: framed_def split: Option.bind_splits)
  next
    case 2
    with Cons.prems(2) r(1) Cons.IH [OF ok] show ?thesis
      by (auto simp: framed_def daemon_handle_def split: Option.bind_splits)
  next
    case (3 k)
    obtain a' out where a': "serve B br be a k = (a', out)" by (cases "serve B br be a k")
    obtain d2 where d2: "daemon_handle B (log_env br be) (?put decoder d) (Inr (delivered k)) = Some (d2, out)"
      "serving br be d2 a'"
      using daemon_handle_packet [OF ok 3(2) a'] by blast
    obtain outs' where "feed (framed push dm_decoder ?put (daemon_handle B (log_env br be))) d2 bs = Some (d', outs')"
    proof -
      have "framed push dm_decoder ?put (daemon_handle B (log_env br be)) d b = Some (d2, Some out)"
        using r(1) 3(1) d2(1) by (simp add: framed_def)
      with Cons.prems(2) that show ?thesis by (auto split: Option.bind_splits)
    qed
    from Cons.IH [OF d2(2) this] have rest: "handle_bytes B (log_env br be) bs d2 = Some (Inr (), d')" .
    have "fst out = Inr ()" using serve_never_fails [of B br be a k] a' by simp
    with d2(1) rest r(1) 3(1) show ?thesis
      by (auto simp: daemon_handle_def next_step_def split: Option.bind_splits)
  qed
qed simp

text \<open>The event loop serves the packets of a noisy byte stream.\<close>

theorem serves_stream:
  assumes "serving br be d (s, w)" and "\<forall>k \<in> set ks. packet_ok k"
  shows "\<exists>d' qs. (\<forall>q \<in> set qs. packet_ok q) \<and>
    handle_bytes B (log_env br be) (noise @ [UART_DELIMITER] @ concat (map uart_frame_bytes ks)) d =
      Some (Inr (), d') \<and>
    serving br be d' (fst (run_spec (serve B br be) (s, w) (qs @ ks)))"
proof -
  obtain d' outs qs where "\<forall>q \<in> set qs. packet_ok q"
    "feed (framed push dm_decoder (\<lambda>c d. d\<lparr> dm_decoder := c \<rparr>) (daemon_handle B (log_env br be))) d
      (noise @ [UART_DELIMITER] @ concat (map uart_frame_bytes ks)) =
      Some (d', outs @ snd (run_spec (serve B br be) (fst (run_spec (serve B br be) (s, w) qs)) ks))"
    "serving br be d' (fst (run_spec (serve B br be) (s, w) (qs @ ks)))"
    using served.noise_then_frames [OF assms, where noise = noise and B = B] by blast
  with handle_bytes_feed [OF assms(1) this(2)] show ?thesis by blast
qed

section \<open>A request and its response\<close>

text \<open>The daemon's answer to one framed packet, when its decoder is at a frame boundary.\<close>

lemma serves_frame:
  assumes "serving br be d (s, w)" and "decoder_pending (dm_decoder d) = Some []" and "packet_ok k"
    and "handle_packet B (delivered k) s = Some (ms, s')"
  shows "\<exists>d'. handle_bytes B (log_env br be) (uart_frame_bytes k) d = Some (Inr (), d') \<and>
    dm_service d' = s' \<and> dm_writer d' = Some (w @ message_bytes br be ms)"
proof -
  obtain d' where "feed (framed push dm_decoder (\<lambda>c d. d\<lparr> dm_decoder := c \<rparr>) (daemon_handle B (log_env br be))) d
      (uart_frame_bytes k) = Some (d', [snd (serve B br be (s, w) k)])"
    "serving br be d' (fst (serve B br be (s, w) k))"
    using served.frame_refines [OF assms(1-3)] by blast
  with handle_bytes_feed [OF assms(1) this(1)] assms(4) show ?thesis
    by (simp add: serving_def serve_def)
qed

text \<open>The gateway only appends to the network queue when it receives from the daemon.\<close>

lemma spec_duo_appends: "\<exists>xs. gs_network (fst (spec_duo a k)) = gs_network a @ xs"
  by (cases "pkt_kind k")
    (auto simp: spec_duo_def spec_response_def spec_event_def spec_deliver_def Let_def
      split: option.split upstream.splits sum.splits prod.splits if_splits)

lemma run_spec_duo_appends: "\<exists>xs. gs_network (fst (run_spec spec_duo a ks)) = gs_network a @ xs"
proof (induction ks arbitrary: a)
  case (Cons k ks)
  obtain b out where b: "spec_duo a k = (b, out)" by fastforce
  with spec_duo_appends [of a k] Cons.IH [of b] show ?case by (auto split: prod.splits)
qed simp

lemma answer_first:
  assumes "service_inv s" and "handle_packet B p s = Some (ms, s')"
  shows "\<exists>r es. ms = service_message.Response r # map service_message.Event es \<and>
    rsp_request_id r = rp_request_id p"
proof (cases "find (\<lambda>entry. rsp_request_id (cached_message entry) = rp_request_id p) (request_cache s)")
  case None
  then obtain r s1 where "dispatch_new_request B p s = Some (r, s1)" "rsp_request_id r = rp_request_id p"
    using dispatch_inv [OF assms(1), of p B] by (auto simp: answers_def)
  with None assms(2) show ?thesis
    by (auto simp: handle_packet_def drain_events_def)
next
  case (Some entry)
  then have "rsp_request_id (cached_message entry) = rp_request_id p"
    by (auto simp: find_Some_iff)
  with Some assms(2) show ?thesis
    by (auto simp: handle_packet_def drain_events_def rejected_def)
qed

text \<open>
  A request that enters the idle gateway from the network is answered: its frame reaches the daemon,
  and the frames the daemon writes make the response to it the first packet of the network queue.
\<close>

theorem request_answered:
  assumes g: "refines g a" "gs_urgent a = []" "gs_normal a = []" "gs_abort a = None" "gs_network a = []"
      "gs_routes a (pkt_request_id k) = None" "card (dom (gs_routes a)) < REQUEST_ROUTE_CAPACITY"
      "gd_pending (gw_duo_decoder g) = Some []"
    and k: "packet_ok k" "pkt_kind k = message_kind.Request" "pkt_request_id k \<noteq> 0" "\<not> abort_packet k"
    and d: "serving br be d (s, w)" "decoder_pending (dm_decoder d) = Some []"
    and out: "MAX_UART_FRAME_LEN \<le> length out"
  shows "\<exists>g1 g2 g3 outs d' ms s' r es rest.
    push_network_packet g (packet_bytes k) = Some (g1, Inr Queued) \<and>
    dequeue_duo_uart_frame g1 now out = Some (g2, Inr (Some (length (uart_frame_bytes k))),
      uart_frame_bytes k @ drop (length (uart_frame_bytes k)) out) \<and>
    handle_packet B (delivered k) s = Some (ms, s') \<and> ms = service_message.Response r # es \<and>
    rsp_request_id r = pkt_request_id k \<and>
    handle_bytes B (log_env br be) (uart_frame_bytes k) d = Some (Inr (), d') \<and> dm_service d' = s' \<and>
    dm_writer d' = Some (w @ message_bytes br be ms) \<and>
    feed push_duo_byte g2 (message_bytes br be ms) = Some (g3, outs) \<and>
    queue_contents (gw_to_network g3) =
      stored (message_packet br be (service_message.Response r)) # rest"
proof -
  let ?a1 = "a\<lparr> gs_routes := (gs_routes a)(pkt_request_id k \<mapsto> Network), gs_normal := [k] \<rparr>"
  let ?a2 = "a\<lparr> gs_routes := (gs_routes a)(pkt_request_id k \<mapsto> Network) \<rparr>"
  have "spec_request Network a k = (?a1, Inr Queued)"
    using g k by (simp add: spec_request_def Let_def domIff gateway_consts)
  then obtain g1 where g1: "push_network_packet g (packet_bytes k) = Some (g1, Inr Queued)" "refines g1 ?a1"
    "same_decoders g1 g"
    using route_upstream_refines [OF g(1) k(1), of Network]
    by (auto simp: push_network_packet_def from_bytes_stored [OF k(1)])
  have "spec_dequeue ?a1 now = (?a2, Some k)"
    using g(2-4) k(4) by (simp add: spec_dequeue_def spec_next_def)
  then obtain g2 where g2: "dequeue_duo_uart_frame g1 now out = Some (g2, spec_output (Some k) out)"
    "refines g2 ?a2" "same_decoders g2 g1"
    using dequeue_duo_refines [OF g1(2), of now out] by auto
  have inv: "service_inv s" using d(1) by (auto simp: serving_def daemon_ok_def)
  obtain ms s' where s': "handle_packet B (delivered k) s = Some (ms, s')"
    using handle_packet_inv [OF inv] by blast
  obtain r es where r: "ms = service_message.Response r # map service_message.Event es"
    "rsp_request_id r = pkt_request_id k"
    using answer_first [OF inv s'] by (auto simp: delivered_def)
  obtain d' where d': "handle_bytes B (log_env br be) (uart_frame_bytes k) d = Some (Inr (), d')"
    "dm_service d' = s'" "dm_writer d' = Some (w @ message_bytes br be ms)"
    using serves_frame [OF d k(1) s'] by blast
  let ?ps = "map (message_packet br be) ms"
  have fit: "payloads_fit br be" using d(1) by (simp add: serving_def)
  have "gd_pending (gw_duo_decoder g2) = Some []" using g(8) g1(3) g2(3) by simp
  with duo_port.frames_refine [OF g2(2), of ?ps] message_packet_ok [OF fit] obtain g3 where
    g3: "feed push_duo_byte g2 (message_bytes br be ms) = Some (g3, snd (run_spec spec_duo ?a2 ?ps))"
      "refines g3 (fst (run_spec spec_duo ?a2 ?ps))"
    by (auto simp: push_duo_byte_framed message_bytes_def)
  let ?p = "message_packet br be (service_message.Response r)"
  have p: "pkt_kind ?p = message_kind.Response" "gs_routes ?a2 (pkt_request_id ?p) = Some Network"
    using r(2) by simp_all
  have "gs_network (fst (spec_duo ?a2 ?p)) = [?p]"
    using spec_response_routed(3) [OF p(2,1)] g(5) by (simp add: gateway_consts)
  moreover have "fst (run_spec spec_duo ?a2 ?ps) =
      fst (run_spec spec_duo (fst (spec_duo ?a2 ?p)) (map (message_packet br be) (map service_message.Event es)))"
    by (simp add: r(1) split: prod.splits)
  ultimately obtain rest where "gs_network (fst (run_spec spec_duo ?a2 ?ps)) = ?p # rest"
    using run_spec_duo_appends [of "fst (spec_duo ?a2 ?p)"] by (metis append_Cons append_Nil)
  then have "queue_contents (gw_to_network g3) = stored ?p # map stored rest"
    using refines_queues(4) [OF g3(2)] by simp
  with g1(1) g2(1) spec_output_frame [OF k(1) out] s' r d' g3(1) show ?thesis by auto
qed

end
