(* ===== verification/SimLink.thy ===== *)
theory SimLink
  imports SimSessionSafety DaemonLink
begin

text \<open>
  A command posted to the simulator passes the frame encoder, the session's channel and the stream
  decoder of its daemon, and the response comes back through the telemetry to the waiting handler. The
  daemon of a session is an instance of the interface \<open>frame_handler\<close>.
\<close>

section \<open>The session's daemon as a frame handler\<close>

definition session_handle :: "(unit, u8 list) backend \<Rightarrow> session_daemon \<Rightarrow> stream_decode_error + received_packet \<Rightarrow>
    (session_daemon \<times> service_message list) option" where
  "session_handle B d r =
     (case r of
        Inl e \<Rightarrow> Some (d, [])
      | Inr packet \<Rightarrow> do {
          (messages, s) \<leftarrow> handle_packet B packet (sd_service d);
          Some (d\<lparr> sd_service := s, sd_engine := observe_messages messages (sd_engine d) \<rparr>, messages) })"

definition put_decoder :: "uart_stream_decoder \<Rightarrow> session_daemon \<Rightarrow> session_daemon" where
  "put_decoder c d = d\<lparr> sd_decoder := c \<rparr>"

text \<open>What a packet does: to the service and to the updates sent.\<close>

definition session_serve :: "(unit, u8 list) backend \<Rightarrow> (unit, u8 list) service \<times> sim_update list \<Rightarrow> packet \<Rightarrow>
    ((unit, u8 list) service \<times> sim_update list) \<times> service_message list" where
  "session_serve B a k =
     (case handle_packet B (delivered k) (fst a) of
        None \<Rightarrow> (a, [])
      | Some (messages, s) \<Rightarrow> ((s, snd a @ map message_update messages), messages))"

definition session_serving :: "session_daemon \<Rightarrow> (unit, u8 list) service \<times> sim_update list \<Rightarrow> bool" where
  "session_serving d a \<longleftrightarrow> session_daemon_ok d \<and> sd_service d = fst a \<and> en_sent (sd_engine d) = snd a"

definition session_failed :: "stream_decode_error + received_packet \<Rightarrow> service_message list option" where
  "session_failed r = (case r of Inl e \<Rightarrow> Some [] | Inr p \<Rightarrow> None)"

lemma session_handle_packet:
  assumes "session_serving d a" and "session_serve B a k = (a', out)"
  shows "\<exists>d'. session_handle B d (Inr (delivered k)) = Some (d', out) \<and> session_serving d' a' \<and> sd_decoder d' = sd_decoder d"
proof -
  have d: "session_daemon_ok d" "sd_service d = fst a" "en_sent (sd_engine d) = snd a"
    using assms(1) by (simp_all add: session_serving_def)
  obtain ms s where s: "handle_packet B (delivered k) (fst a) = Some (ms, s)" "service_inv s" "svc_events s = []"
    using handle_packet_inv [of "fst a" B "delivered k"] d(1,2) by (auto simp: session_daemon_ok_def)
  have "motion_inv s" using handle_packet_moves [OF _ s(1)] d(1,2) by (simp add: session_daemon_ok_def)
  with s d assms(2) show ?thesis
    by (auto simp: session_handle_def session_serve_def session_serving_def session_daemon_ok_def
        observe_messages_ok observe_messages_sent)
qed

interpretation session: frame_handler push decoder_ok decoder_pending "MAX_UART_FRAME_LEN - 1"
  uart_frame_bytes packet_ok "\<lambda>p. Inr (delivered p)" sd_decoder put_decoder
  "session_handle B" session_serving "session_serve B" session_failed
  for B
proof (unfold_locales, goal_cases)
  case (4 s a p a' out)
  then show ?case using session_handle_packet by blast
next
  case (6 d b d' r)
  then show ?case using push_outcome [of d b d' r] by (auto simp: session_failed_def)
qed (auto simp: session_serving_def session_daemon_ok_def session_handle_def session_failed_def put_decoder_def
    split: sum.splits)

lemma daemon_bytes_feed:
  "daemon_bytes B bytes d = map_option fst (feed (session.byte_step B) d bytes)"
proof (induction bytes arbitrary: d)
  case (Cons byte bytes)
  show ?case
    by (auto simp: Cons.IH framed_def session_handle_def put_decoder_def map_option_case
        split: option.split sum.split prod.split Option.bind_split)
qed simp

text \<open>The frame of a packet, at a frame boundary: the packet is handled and its messages are sent.\<close>

lemma session_serves_frame:
  assumes "session_daemon_ok d" "decoder_pending (sd_decoder d) = Some []" "packet_ok k"
  shows "\<exists>ms s d'. handle_packet B (delivered k) (sd_service d) = Some (ms, s) \<and>
    daemon_bytes B (uart_frame_bytes k) d = Some d' \<and> sd_service d' = s \<and> decoder_pending (sd_decoder d') = Some [] \<and>
    en_sent (sd_engine d') = en_sent (sd_engine d) @ map message_update ms"
proof -
  let ?a = "(sd_service d, en_sent (sd_engine d))"
  have serving: "session_serving d ?a" using assms(1) by (simp add: session_serving_def)
  obtain ms s where s: "handle_packet B (delivered k) (sd_service d) = Some (ms, s)"
    using handle_packet_inv [of "sd_service d" B "delivered k"] assms(1) by (auto simp: session_daemon_ok_def)
  obtain d' where "feed (session.byte_step B) d (uart_frame_bytes k) = Some (d', [snd (session_serve B ?a k)])"
    "session_serving d' (fst (session_serve B ?a k))" "decoder_pending (sd_decoder d') = Some []"
    using session.frame_refines [OF serving assms(2,3)] by blast
  then show ?thesis using s by (simp add: daemon_bytes_feed session_serve_def session_serving_def)
qed

section \<open>A posted command is answered\<close>

lemma post_scramble_replied: "post_scramble sequence s \<noteq> Some (Waiting i c, s1)"
  by (auto simp: post_scramble_def split: Option.bind_splits sum.splits if_splits)

lemma post_request_waiting: "post_request S accepting command s = Some (Waiting i c, s1) \<Longrightarrow> command = c"
  by (auto simp: post_request_def Let_def split: Option.bind_splits sum.splits if_splits)

lemma post_request_frame:
  assumes "post_request S accepting command s = Some (Waiting i c :: 'pe post_result, s1)"
    and "encode_command S (sn_encoder s) (sn_next_request_id s) command = Some (r, e')"
  shows "\<exists>frame. r = Inr frame \<and> sn_inbound s1 = sn_inbound s @ [frame] \<and> i \<in> set (sn_responders s1) \<and>
    i = sn_next_request_id s"
proof (cases r)
  case (Inl e)
  then show ?thesis using assms by (simp add: post_request_def Let_def)
next
  case (Inr frame)
  then show ?thesis using assms by (cases accepting) (auto simp: post_request_def Let_def)
qed

theorem posted_command:
  assumes "session_ok s0" "serializers_ok S" "post_begin from_str S accepting body s0 = Some (Waiting i c :: 'pe post_result, s1)"
    and "session_daemon_ok d" "decoder_pending (sd_decoder d) = Some []"
  shows "\<exists>frame k ms r es service d'. sn_inbound s1 = sn_inbound s0 @ [frame] \<and> i \<in> set (sn_responders s1) \<and>
    pkt_kind k = message_kind.Request \<and> pkt_opcode k = request_u16 (command_opcode c) \<and> pkt_request_id k = i \<and>
    handle_packet B (delivered k) (sd_service d) = Some (ms, service) \<and>
    ms = service_message.Response r # map service_message.Event es \<and> rsp_request_id r = i \<and>
    daemon_bytes B frame d = Some d' \<and> sd_service d' = service \<and> decoder_pending (sd_decoder d') = Some [] \<and>
    en_sent (sd_engine d') = en_sent (sd_engine d) @
      ResponseUpdate i (response_u16 (rsp_opcode r)) (rsp_payload r) # map (message_update \<circ> service_message.Event) es"
proof -
  have c: "post_request S accepting c s0 = Some (Waiting i c :: 'pe post_result, s1)"
  proof (cases "parse_command from_str body")
    case (Inr command)
    have "post_request S accepting command s0 = Some (Waiting i c :: 'pe post_result, s1)"
    proof (cases command)
      case (LoadScramble sequence)
      then have "post_scramble sequence s0 = Some (Waiting i c :: 'pe post_result, s1)"
        using Inr assms(3) by (simp add: post_begin_def)
      then show ?thesis by (rule post_scramble_replied [THEN notE])
    qed (use Inr assms(3) in \<open>simp_all add: post_begin_def\<close>)
    with post_request_waiting [OF this] show ?thesis by simp
  qed (use assms(3) in \<open>simp add: post_begin_def\<close>)
  obtain r' e' where e: "encode_command S (sn_encoder s0) (sn_next_request_id s0) c = Some (r', e')"
    "\<And>frame. r' = Inr frame \<Longrightarrow> request_frame (sn_next_request_id s0) (command_opcode c) frame"
    using encode_command_ok [OF _ assms(2)] assms(1) unfolding session_ok_def by blast
  obtain frame where f: "r' = Inr frame" "sn_inbound s1 = sn_inbound s0 @ [frame]" "i \<in> set (sn_responders s1)"
    "i = sn_next_request_id s0"
    using post_request_frame [OF c e(1)] by blast
  obtain content where content: "length content \<le> MAX_PAYLOAD_LEN" "frame = uart_frame_bytes
     \<lparr> pkt_kind = message_kind.Request, pkt_opcode = request_u16 (command_opcode c), pkt_request_id = i, pkt_payload = content \<rparr>"
    using e(2) [OF f(1)] f(4) by (auto simp: request_frame_def)
  let ?k = "\<lparr> pkt_kind = message_kind.Request, pkt_opcode = request_u16 (command_opcode c), pkt_request_id = i,
    pkt_payload = content \<rparr>"
  have "packet_ok ?k" using content(1) by (simp add: packet_ok_def)
  from session_serves_frame [OF assms(4,5) this] obtain ms s d' where
    s: "handle_packet B (delivered ?k) (sd_service d) = Some (ms, s)"
      "daemon_bytes B (uart_frame_bytes ?k) d = Some d'" "sd_service d' = s" "decoder_pending (sd_decoder d') = Some []"
      "en_sent (sd_engine d') = en_sent (sd_engine d) @ map message_update ms"
    by blast
  obtain r es where r: "ms = service_message.Response r # map service_message.Event es" "rsp_request_id r = i"
    using answer_first [OF _ s(1)] assms(4) by (auto simp: session_daemon_ok_def delivered_def)
  show ?thesis
    using f(2,3) content(2) s r
    by (intro exI [of _ frame] exI [of _ ?k] exI [of _ ms] exI [of _ r] exI [of _ es] exI [of _ s] exI [of _ d']) simp
qed

text \<open>The response in the telemetry answers the handler that waits for it.\<close>

lemma response_answers:
  "i \<in> set (sn_responders s) \<Longrightarrow> \<exists>s'. pump_update F now (ResponseUpdate i opcode content) s = Some s' \<and>
     (i, content) \<in> set (sn_answers s') \<and> i \<notin> set (sn_responders s')"
  by (simp add: pump_update_def)

end
