(* ===== verification/Bench.thy ===== *)
theory Bench
  imports RobotRequests
begin

text \<open>
  A concrete backend, on which the witnesses evaluate the service: outputs and scanner have no state
  and never fail, the camera sees a solved cube, the solver answers with a fixed sequence, and a
  command is decoded from its raw bytes (session, revision and solution as single bytes).
\<close>

definition bench_face :: "cube_face \<Rightarrow> recognized_face" where
  "bench_face f = \<lparr> rf_colors = replicate 9 (case f of
       cube_face.Up \<Rightarrow> link_sticker_color.White | cube_face.Right \<Rightarrow> link_sticker_color.Red
     | cube_face.Front \<Rightarrow> link_sticker_color.Green | cube_face.Down \<Rightarrow> link_sticker_color.Yellow
     | cube_face.Left \<Rightarrow> link_sticker_color.Orange | cube_face.Back \<Rightarrow> link_sticker_color.Blue),
     rf_confidence = [] \<rparr>"

definition bench :: "(unit, unit) backend" where
  "bench = \<lparr> set_channels = (\<lambda>d _. (True, d)), disable_channels = (\<lambda>d _. (True, d)),
     all_off = (\<lambda>d. (True, d)), available = (\<lambda>_. True), begin_scan = (\<lambda>s _. (True, s)),
     capture_face = (\<lambda>s f. (Inr (bench_face f), s)), finish_scan = (\<lambda>s _. s), abort_scan = (\<lambda>s. s),
     min2phase = (\<lambda>_ _. ''R2 F U''),
     take_session = (\<lambda>bs. case bs of [a] \<Rightarrow> Inr (ucast a, []) | _ \<Rightarrow> Inl ''session''),
     take_solve = (\<lambda>bs. case bs of
         [a, b] \<Rightarrow> Inr (\<lparr> solve_session_id = ucast a, solve_scan_revision = ucast b \<rparr>, [])
       | _ \<Rightarrow> Inl ''solve''),
     take_execute = (\<lambda>bs. case bs of
         [a, b, c] \<Rightarrow> Inr (\<lparr> exec_session_id = ucast a, exec_scan_revision = ucast b,
           exec_solution_id = ucast c \<rparr>, [])
       | _ \<Rightarrow> Inl ''execute''),
     take_moves = (\<lambda>bs. case bs of
         a # b # moves \<Rightarrow> Inr ((ucast a, moves, b), [])
       | _ \<Rightarrow> Inl ''moves'') \<rparr>"

definition bench_start :: "(unit, unit) service" where
  "bench_start = with_scanner () default_calibration ()"

definition bench_packet :: "request_opcode \<Rightarrow> u32 \<Rightarrow> u8 list \<Rightarrow> received_packet" where
  "bench_packet opcode request_id bytes = \<lparr> rp_kind = message_kind.Request, rp_opcode = request_u16 opcode,
     rp_request_id = request_id, rp_payload_len = length bytes, rp_payload = bytes \<rparr>"

text \<open>A stand that holds a scanned cube with a two-move solution.\<close>

definition bench_moves :: "cube_move list" where
  "bench_moves = [\<lparr> mv_face = logical_face.Right, mv_turn = move_turn.Half \<rparr>,
     \<lparr> mv_face = logical_face.Front, mv_turn = move_turn.Clockwise \<rparr>]"

definition bench_scan :: scan_status where
  "bench_scan = empty_scan\<lparr> scan_state := Valid, scan_revision := Some 1, scan_scanned_faces := 63,
     scan_faces := map (\<lambda>f. Some (bench_face f)) [cube_face.Up, cube_face.Right, cube_face.Front,
       cube_face.Down, cube_face.Left, cube_face.Back],
     scan_color_counts := replicate 6 9 \<rparr>"

definition bench_stand :: stand_state where
  "bench_stand = \<lparr> stand_pose = canonical_grip_pose,
     stand_rails = replicate 4 \<lparr> rail_motion = Stable, rail_current = Some link_rail_position.Grip,
       rail_target = None \<rparr>,
     stand_grippers = replicate 4 \<lparr> gripper_motion = Stable,
       gripper_current = Some link_gripper_orientation.FramePerpendicular, gripper_target = None \<rparr>,
     stand_outputs_enabled = True \<rparr>"

definition bench_ready :: "(unit, unit) service" where
  "bench_ready = bench_start\<lparr> svc_status := unknown_status\<lparr> st_stand := bench_stand,
     st_cube_session := Some \<lparr> cs_id = 1 \<rparr>, st_scan := bench_scan,
     st_solution := solved 1 1 bench_moves \<rparr> \<rparr>"

end
