(* ===== verification/SimBench.thy ===== *)
theory SimBench
  imports Complex_Main SimLink Bench
begin

text \<open>
  Concrete parameters on which the witnesses evaluate the simulator: real numbers in place of \<open>f32\<close>,
  request serializers that write nothing, a reader of JSON that always sees an abort command, and the
  backend of Bench with the simulated hardware.
\<close>

definition real_ops :: "real f32_ops" where
  "real_ops = \<lparr> f_of_u32 = (\<lambda>w. real (unat w)), f_of_u64 = (\<lambda>w. real (unat w)), f_secs = (\<lambda>ms. real ms / 1000),
     f_hundredths = (\<lambda>n. real n / 100), f_pi = pi, f_frac_pi_2 = pi / 2, f_add = (+), f_sub = (-), f_mul = (*),
     f_div = (/), f_rem_euclid = (\<lambda>x y. x - y * real_of_int \<lfloor>x / y\<rfloor>), f_abs = abs,
     f_round = (\<lambda>x. real_of_int (round x)), f_max = max, f_min = min, f_less = (<) \<rparr>"

definition write_nothing :: "'t \<Rightarrow> u8 list \<Rightarrow> (unit + nat) \<times> u8 list" where
  "write_nothing v buf = (Inr 0, buf)"

definition bench_serializers :: "unit request_serializers" where
  "bench_serializers = \<lparr> ser_open = write_nothing, ser_scan = write_nothing, ser_solve = write_nothing,
     ser_execute = write_nothing, ser_auto = write_nothing, ser_moves = write_nothing \<rparr>"

lemma bench_serializers_ok: "serializers_ok bench_serializers"
  by (simp add: serializers_ok_def serializer_ok_def bench_serializers_def write_nothing_def)

definition abort_json :: "string \<Rightarrow> string + json" where
  "abort_json body = Inr (\<lambda>name. if name = ''command'' then Some (JsonString ''abort'') else None)"

definition sim_bench :: "(unit, u8 list) backend" where
  "sim_bench = sim_backend bench"

definition bench_system :: "real sim_system" where
  "bench_system = \<lparr> sy_session = new_session real_ops default_calibration,
     sy_daemon = new_daemon default_calibration new_facelets 0 0, sy_read = 0, sy_waiting = [] \<rparr>"

lemma bench_system_reached:
  "sim_reach (sim_backend B) mul real_ops S from_str bench_system"
  unfolding bench_system_def by (rule sim_reach.spawn)

text \<open>A status of a held cube with every rail open: custody is lost.\<close>

definition dropped_status :: status_snapshot where
  "dropped_status = unknown_status\<lparr> st_cube_session := Some \<lparr> cs_id = 1 \<rparr>,
     st_stand := bench_stand\<lparr> stand_rails := replicate 4 \<lparr> rail_motion = Stable,
       rail_current = Some link_rail_position.Open, rail_target = None \<rparr> \<rparr> \<rparr>"

definition dropped_sim :: "real sim_state" where
  "dropped_sim = (new_sim real_ops default_calibration new_facelets)\<lparr> ss_status := Some dropped_status \<rparr>"

lemma dropped_collision:
  "map ev_rule (fst (collisions real_ops now dropped_sim)) = [custody_rule]"
proof -
  have p: "rail_progress real_ops now dropped_sim i = 0" if "i < 4" for i
    using that by (simp add: rail_progress_def dropped_sim_def dropped_status_def f_zero_def real_ops_def)
  have a: "gripper_angles real_ops now dropped_sim = [None, None, None, None]"
    by (simp add: gripper_angles_def dropped_sim_def dropped_status_def bench_stand_def gripper_angle_at_def new_sim_def Let_def
        eval_nat_numeral)
  have overlap: "claw_overlap real_ops [None, None, None, None] progress = None" for progress :: "real list"
    by (simp add: claw_overlap_def claw_pairs_def swung_flat_def)
  have lost: "custody_lost real_ops dropped_status [0, 0, 0, 0]"
    by (simp add: custody_lost_def past_45_def real_ops_def dropped_status_def intentional_release_def unknown_status_def)
  have still: "\<not> concurrent_motion dropped_status"
    by (simp add: concurrent_motion_def rail_moving_def dropped_status_def list_ex_iff)
  have "ss_status dropped_sim = Some dropped_status" "\<not> ss_rule1_active dropped_sim" "\<not> ss_rule2_active dropped_sim"
    "\<not> ss_concurrent_motion_active dropped_sim"
    by (simp_all add: dropped_sim_def new_sim_def)
  then show ?thesis
    by (simp add: collisions_def Let_def p a overlap lost still transition_def)
qed

end
