(* ===== verification/RobotClient.thy ===== *)
theory RobotClient
  imports SimCommands ServiceTypes
begin

text \<open>
  \<open>src/robot_client.rs\<close>: the client side of the control protocol, a state machine without I/O. It
  numbers and encodes commands, decodes the packets of the robot, and keeps a copy of the robot's
  status that responses replace and events update. The postcard decoders are the record
  \<open>client_decoders\<close>, its encoders \<open>request_serializers\<close>. \<open>None\<close> is an index panic.
\<close>

section \<open>Messages\<close>

datatype client_command =
    GetStatus
  | Grip
  | StartScan u32
  | Solve solve_command
  | Execute execute_command
  | ScanSolveExecute u32
  | Open u32
  | RecoverToOpen
  | ExecuteMoves execute_moves_command
  | Abort

fun client_opcode :: "client_command \<Rightarrow> request_opcode" where
  "client_opcode client_command.GetStatus = request_opcode.GetStatus"
| "client_opcode client_command.Grip = request_opcode.Grip"
| "client_opcode (client_command.StartScan _) = request_opcode.StartScan"
| "client_opcode (client_command.Solve _) = request_opcode.Solve"
| "client_opcode (client_command.Execute _) = request_opcode.Execute"
| "client_opcode (client_command.ScanSolveExecute _) = request_opcode.ScanSolveExecute"
| "client_opcode (client_command.Open _) = request_opcode.Open"
| "client_opcode client_command.RecoverToOpen = request_opcode.RecoverToOpen"
| "client_opcode (client_command.ExecuteMoves _) = request_opcode.ExecuteMoves"
| "client_opcode client_command.Abort = request_opcode.Abort"

datatype client_response =
    Accepted u32 "u32 option"
  | Rejected u32 rejection_reason controller_state
  | Status u32 status_snapshot

fun response_request_id :: "client_response \<Rightarrow> u32" where
  "response_request_id (client_response.Accepted i _) = i"
| "response_request_id (client_response.Rejected i _ _) = i"
| "response_request_id (client_response.Status i _) = i"

record plan_changed =
  pc_operation_id :: u32
  pc_actions :: "mechanical_action option list"
  pc_action_count :: u8

record action_progress =
  ap_operation_id :: u32
  ap_action :: mechanical_action

datatype client_event =
    RobotStateChanged controller_state "operation_status option"
  | StandStateChanged stand_state
  | FaceScanned u32 cube_face recognized_face u8
  | PlanChanged plan_changed
  | ActionStarted action_progress
  | ActionCompleted action_progress
  | OperationCompleted u32 operation_kind
  | Aborted "u32 option"
  | CubeSessionChanged "cube_session_status option"
  | OperationFailed u32 operation_failure_kind
  | Fault "u32 option" robot_fault

datatype client_message = Response client_response | Event client_event

datatype 'pe client_error =
    Encode "'pe frame_encode_error"
  | StreamError stream_decode_error
  | PayloadError "'pe payload_error"
  | UnexpectedMessageKind message_kind
  | InvalidRequestId message_kind u32
  | UnknownOpcode message_kind u16
  | InvalidSchema schema_error

section \<open>Commands\<close>

record robot_client =
  rc_encoder :: uart_frame_encoder
  rc_decoder :: uart_stream_decoder
  rc_next_request_id :: u32
  rc_snapshot :: "status_snapshot option"

definition with_initial_request_id :: "u32 \<Rightarrow> robot_client" where
  "with_initial_request_id request_id = \<lparr> rc_encoder = default_encoder, rc_decoder = default_decoder,
     rc_next_request_id = max request_id 1, rc_snapshot = None \<rparr>"

definition default_client :: robot_client where
  "default_client = with_initial_request_id 1"

definition client_frame :: "'pe request_serializers \<Rightarrow> uart_frame_encoder \<Rightarrow> u32 \<Rightarrow> client_command \<Rightarrow>
    (('pe frame_encode_error + u8 list) \<times> uart_frame_encoder) option" where
  "client_frame S encoder request_id command =
     (let knd = message_kind.Request; opcode = request_u16 (client_opcode command) in
      case command of
        client_command.StartScan c \<Rightarrow> encode_frame (ser_scan S) encoder knd opcode request_id c
      | client_command.Solve c \<Rightarrow> encode_frame (ser_solve S) encoder knd opcode request_id c
      | client_command.Execute c \<Rightarrow> encode_frame (ser_execute S) encoder knd opcode request_id c
      | client_command.ScanSolveExecute c \<Rightarrow> encode_frame (ser_auto S) encoder knd opcode request_id c
      | client_command.Open c \<Rightarrow> encode_frame (ser_open S) encoder knd opcode request_id c
      | client_command.ExecuteMoves c \<Rightarrow>
          encode_frame (ser_moves S) encoder knd opcode request_id (serialize_execute_moves c)
      | _ \<Rightarrow> encode_empty encoder knd opcode request_id)"

text \<open>The identifier is used up even when the command cannot be encoded.\<close>

definition client_encode :: "'pe request_serializers \<Rightarrow> client_command \<Rightarrow> robot_client \<Rightarrow>
    (('pe client_error + u32 \<times> u8 list) \<times> robot_client) option" where
  "client_encode S command c =
     (let request_id = rc_next_request_id c;
          c = c\<lparr> rc_next_request_id := max (rc_next_request_id c + 1) 1 \<rparr>;
          refused = (case command of
              client_command.ExecuteMoves p \<Rightarrow> (case execute_moves_validate p of Inl e \<Rightarrow> Some e | Inr _ \<Rightarrow> None)
            | _ \<Rightarrow> None)
      in case refused of
           Some e \<Rightarrow> Some (Inl (InvalidSchema e), c)
         | None \<Rightarrow> do {
             (r, encoder) \<leftarrow> client_frame S (rc_encoder c) request_id command;
             Some (case r of Inl e \<Rightarrow> Inl (Encode e) | Inr frame \<Rightarrow> Inr (request_id, frame),
               c\<lparr> rc_encoder := encoder \<rparr>) })"

section \<open>Decoding\<close>

type_synonym ('pe, 't) taker = "u8 list \<Rightarrow> 'pe + ('t \<times> u8 list)"

record 'pe client_decoders =
  take_accepted :: "('pe, u32 option) taker"
  take_rejected :: "('pe, rejection_reason \<times> controller_state) taker"
  take_status :: "('pe, status_snapshot) taker"
  take_robot_state :: "('pe, controller_state \<times> operation_status option) taker"
  take_stand :: "('pe, stand_state) taker"
  take_face :: "('pe, u32 \<times> cube_face \<times> recognized_face \<times> u8) taker"
  take_plan :: "('pe, plan_changed) taker"
  take_action :: "('pe, action_progress) taker"
  take_completed :: "('pe, u32 \<times> operation_kind) taker"
  take_aborted :: "('pe, u32 option) taker"
  take_cube_session :: "('pe, cube_session_status option) taker"
  take_failed :: "('pe, u32 \<times> operation_failure_kind) taker"
  take_fault :: "('pe, u32 option \<times> robot_fault) taker"

definition decode_as :: "('pe, 't) taker \<Rightarrow> u8 list \<Rightarrow> ('t \<Rightarrow> 'm) \<Rightarrow> 'pe client_error + 'm" where
  "decode_as taker bytes f =
     (case decode_payload taker bytes of Inl e \<Rightarrow> Inl (PayloadError e) | Inr x \<Rightarrow> Inr (f x))"

definition schema_checked :: "schema_error + unit \<Rightarrow> 'm \<Rightarrow> 'pe client_error + 'm" where
  "schema_checked v m = (case v of Inl e \<Rightarrow> Inl (InvalidSchema e) | Inr _ \<Rightarrow> Inr m)"

definition plan_validate :: "plan_changed \<Rightarrow> schema_error + unit" where
  "plan_validate p = (if unat (pc_action_count p) > MAX_PLAN_PREVIEW_ACTIONS
     then Inl (TooManyPreviewActions (pc_action_count p)) else Inr ())"

definition decode_response :: "'pe client_decoders \<Rightarrow> received_packet \<Rightarrow> 'pe client_error + client_response" where
  "decode_response D p =
     (let i = rp_request_id p; bytes = payload p in
      if i = 0 then Inl (InvalidRequestId (rp_kind p) i)
      else case response_try_from (rp_opcode p) of
        Inl opcode \<Rightarrow> Inl (UnknownOpcode (rp_kind p) opcode)
      | Inr response_opcode.CommandAccepted \<Rightarrow> decode_as (take_accepted D) bytes (client_response.Accepted i)
      | Inr response_opcode.CommandRejected \<Rightarrow>
          decode_as (take_rejected D) bytes (\<lambda>(reason, controller). client_response.Rejected i reason controller)
      | Inr response_opcode.StatusSnapshot \<Rightarrow>
          bind_sum (decode_as (take_status D) bytes id) (\<lambda>snapshot.
            schema_checked (snapshot_validate snapshot) (client_response.Status i snapshot)))"

definition decode_event :: "'pe client_decoders \<Rightarrow> received_packet \<Rightarrow> 'pe client_error + client_event" where
  "decode_event D p =
     (let bytes = payload p in
      if rp_request_id p \<noteq> 0 then Inl (InvalidRequestId (rp_kind p) (rp_request_id p))
      else case event_try_from (rp_opcode p) of
        Inl opcode \<Rightarrow> Inl (UnknownOpcode (rp_kind p) opcode)
      | Inr opcode \<Rightarrow> (case opcode of
          event_opcode.RobotStateChanged \<Rightarrow>
            decode_as (take_robot_state D) bytes (\<lambda>(c, opr). client_event.RobotStateChanged c opr)
        | event_opcode.StandStateChanged \<Rightarrow> decode_as (take_stand D) bytes client_event.StandStateChanged
        | event_opcode.FaceScanned \<Rightarrow>
            decode_as (take_face D) bytes (\<lambda>(i, f, r, m). client_event.FaceScanned i f r m)
        | event_opcode.PlanChanged \<Rightarrow> bind_sum (decode_as (take_plan D) bytes id) (\<lambda>plan.
            schema_checked (plan_validate plan) (client_event.PlanChanged plan))
        | event_opcode.ActionStarted \<Rightarrow> decode_as (take_action D) bytes client_event.ActionStarted
        | event_opcode.ActionCompleted \<Rightarrow> decode_as (take_action D) bytes client_event.ActionCompleted
        | event_opcode.OperationCompleted \<Rightarrow>
            decode_as (take_completed D) bytes (\<lambda>(i, k). client_event.OperationCompleted i k)
        | event_opcode.Aborted \<Rightarrow> decode_as (take_aborted D) bytes client_event.Aborted
        | event_opcode.CubeSessionChanged \<Rightarrow>
            decode_as (take_cube_session D) bytes client_event.CubeSessionChanged
        | event_opcode.OperationFailed \<Rightarrow>
            decode_as (take_failed D) bytes (\<lambda>(i, k). client_event.OperationFailed i k)
        | event_opcode.Fault \<Rightarrow> decode_as (take_fault D) bytes (\<lambda>(i, f). client_event.Fault i f)))"

definition decode_message :: "'pe client_decoders \<Rightarrow> received_packet \<Rightarrow> 'pe client_error + client_message" where
  "decode_message D p =
     (case rp_kind p of
        message_kind.Request \<Rightarrow> Inl (UnexpectedMessageKind (rp_kind p))
      | message_kind.Response \<Rightarrow> map_sum id client_message.Response (decode_response D p)
      | message_kind.Event \<Rightarrow> map_sum id client_message.Event (decode_event D p))"

section \<open>The copy of the status\<close>

fun apply_event :: "client_event \<Rightarrow> status_snapshot \<Rightarrow> schema_error + status_snapshot" where
  "apply_event (client_event.RobotStateChanged controller operation) s =
     Inr (s\<lparr> st_controller := controller, st_active_operation := operation \<rparr>)"
| "apply_event (client_event.StandStateChanged stand) s = Inr (s\<lparr> st_stand := stand \<rparr>)"
| "apply_event (client_event.CubeSessionChanged session) s = Inr (s\<lparr> st_cube_session := session \<rparr>)"
| "apply_event (client_event.FaceScanned _ f recognized scanned) s =
     Inr (s\<lparr> st_scan := (st_scan s)\<lparr> scan_current_face := Some f, scan_camera_face := Some recognized,
       scan_scanned_faces := scanned,
       scan_faces := (scan_faces (st_scan s))[cube_face_index f := Some recognized] \<rparr> \<rparr>)"
| "apply_event (client_event.PlanChanged plan) s =
     (case plan_validate plan of
        Inl e \<Rightarrow> Inl e
      | Inr _ \<Rightarrow> Inr (s\<lparr> st_plan := pc_actions plan, st_plan_count := pc_action_count plan \<rparr>))"
| "apply_event (client_event.OperationCompleted _ _) s =
     Inr (s\<lparr> st_active_operation := None, st_controller := controller_state.Ready \<rparr>)"
| "apply_event (client_event.Aborted _) s =
     Inr (s\<lparr> st_active_operation := None, st_controller := controller_state.Aborted, st_cube_session := None \<rparr>)"
| "apply_event (client_event.Fault _ fault) s =
     Inr (s\<lparr> st_active_operation := None, st_controller := controller_state.Faulted, st_fault := Some fault \<rparr>)"
| "apply_event _ s = Inr s"

definition apply_message :: "client_message \<Rightarrow> robot_client \<Rightarrow> (schema_error + unit) \<times> robot_client" where
  "apply_message message c =
     (case message of
        client_message.Response (client_response.Status _ snapshot) \<Rightarrow>
          (case snapshot_validate snapshot of
             Inl e \<Rightarrow> (Inl e, c)
           | Inr _ \<Rightarrow> (Inr (), c\<lparr> rc_snapshot := Some snapshot \<rparr>))
      | client_message.Response _ \<Rightarrow> (Inr (), c)
      | client_message.Event event \<Rightarrow>
          (case rc_snapshot c of
             None \<Rightarrow> (Inr (), c)
           | Some snapshot \<Rightarrow> (case apply_event event snapshot of
               Inl e \<Rightarrow> (Inl e, c)
             | Inr snapshot \<Rightarrow> (Inr (), c\<lparr> rc_snapshot := Some snapshot \<rparr>))))"

definition receive_packet :: "'pe client_decoders \<Rightarrow> received_packet \<Rightarrow> robot_client \<Rightarrow>
    ('pe client_error + client_message) \<times> robot_client" where
  "receive_packet D p c =
     (case decode_message D p of
        Inl e \<Rightarrow> (Inl e, c)
      | Inr message \<Rightarrow> (case apply_message message c of
          (Inl e, c) \<Rightarrow> (Inl (InvalidSchema e), c)
        | (Inr _, c) \<Rightarrow> (Inr message, c)))"

definition client_push :: "'pe client_decoders \<Rightarrow> robot_client \<Rightarrow> u8 \<Rightarrow>
    (robot_client \<times> ('pe client_error + client_message) option) option" where
  "client_push D c byte = do {
     (decoder, r) \<leftarrow> push (rc_decoder c) byte;
     let c = c\<lparr> rc_decoder := decoder \<rparr> in
     Some (case r of
         None \<Rightarrow> (c, None)
       | Some (Inl e) \<Rightarrow> (c, Some (Inl (StreamError e)))
       | Some (Inr p) \<Rightarrow> (case receive_packet D p c of (m, c) \<Rightarrow> (c, Some m))) }"

end
