(* ===== verification/ClientFollows.thy ===== *)
theory ClientFollows
  imports RobotClient ServiceMotion
begin

unbundle bit_operations_syntax

text \<open>
  The copy a client keeps (\<open>apply\<close> of \<open>src/robot_client.rs\<close>) against the status it copies
  (\<open>src/robot_service.rs\<close>). Events carry part of the status only, so the copy agrees with it on the
  controller, on which operation is active and, between operations, on the stand; and the client knows
  every session the robot has. A session that a recovery or a fault drops is not announced.
\<close>

section \<open>The events of the service as the client reads them\<close>

fun client_event_of :: "event_message \<Rightarrow> client_event" where
  "client_event_of (event_message.RobotStateChanged c opr) = client_event.RobotStateChanged c opr"
| "client_event_of (event_message.StandStateChanged x) = client_event.StandStateChanged x"
| "client_event_of (event_message.CubeSessionChanged x) = client_event.CubeSessionChanged x"
| "client_event_of (event_message.FaceScanned i f r m) = client_event.FaceScanned i f r m"
| "client_event_of (event_message.OperationFailed i k) = client_event.OperationFailed i k"
| "client_event_of (event_message.OperationCompleted i k) = client_event.OperationCompleted i k"
| "client_event_of (event_message.Aborted i) = client_event.Aborted i"
| "client_event_of (event_message.Fault i f) = client_event.Fault i f"

definition updated :: "event_message \<Rightarrow> status_snapshot \<Rightarrow> status_snapshot" where
  "updated e c = (case apply_event (client_event_of e) c of Inl _ \<Rightarrow> c | Inr c \<Rightarrow> c)"

lemma apply_client_event: "apply_event (client_event_of e) c = Inr (updated e c)"
  by (cases e) (simp_all add: updated_def)

lemma updated_simps [simp]:
  "updated (event_message.RobotStateChanged controller opr) c =
     c\<lparr> st_controller := controller, st_active_operation := opr \<rparr>"
  "updated (event_message.StandStateChanged x) c = c\<lparr> st_stand := x \<rparr>"
  "updated (event_message.CubeSessionChanged session) c = c\<lparr> st_cube_session := session \<rparr>"
  "updated (event_message.OperationFailed i k) c = c"
  "updated (event_message.OperationCompleted i k') c =
     c\<lparr> st_active_operation := None, st_controller := controller_state.Ready \<rparr>"
  "updated (event_message.Aborted j) c =
     c\<lparr> st_active_operation := None, st_controller := controller_state.Aborted, st_cube_session := None \<rparr>"
  "updated (event_message.Fault j f) c =
     c\<lparr> st_active_operation := None, st_controller := controller_state.Faulted, st_fault := Some f \<rparr>"
  by (simp_all add: updated_def)

lemma updated_face [simp]:
  "st_controller (updated (event_message.FaceScanned i f r m) c) = st_controller c"
  "st_active_operation (updated (event_message.FaceScanned i f r m) c) = st_active_operation c"
  "st_stand (updated (event_message.FaceScanned i f r m) c) = st_stand c"
  "st_cube_session (updated (event_message.FaceScanned i f r m) c) = st_cube_session c"
  by (simp_all add: updated_def)

text \<open>Events that keep a valid copy valid.\<close>

fun event_valid :: "event_message \<Rightarrow> bool" where
  "event_valid (event_message.RobotStateChanged _ opr) \<longleftrightarrow>
     (\<forall>x. opr = Some x \<longrightarrow> op_current_action x \<le> op_action_count x)"
| "event_valid (event_message.FaceScanned _ _ _ m) \<longleftrightarrow> m AND (NOT ALL_FACES_MASK) = 0"
| "event_valid _ \<longleftrightarrow> True"

lemma updated_valid:
  assumes "event_valid e" "snapshot_validate c = Inr ()"
  shows "snapshot_validate (updated e c) = Inr ()"
  using assms by (cases e) (auto simp: updated_def snapshot_validate_iff scan_validate_def operation_validate_def)

lemma fold_updated_valid:
  "list_all event_valid es \<Longrightarrow> snapshot_validate c = Inr () \<Longrightarrow> snapshot_validate (fold updated es c) = Inr ()"
  by (induction es arbitrary: c) (simp_all add: updated_valid)

section \<open>What the pending events tell\<close>

definition operation_shown :: "status_snapshot \<Rightarrow> controller_state \<times> (u32 \<times> operation_kind) option" where
  "operation_shown c = (st_controller c, map_option (\<lambda>x. (op_id x, op_kind x)) (st_active_operation c))"

definition shown :: "status_snapshot \<Rightarrow> ('d, 's) service \<Rightarrow> status_snapshot" where
  "shown c s = fold updated (svc_events s) c"

text \<open>A response whose opcode says which payload it carries, with a valid status.\<close>

definition fits :: "response_message \<Rightarrow> bool" where
  "fits r \<longleftrightarrow> (case rsp_payload r of
     response_payload.Accepted _ \<Rightarrow> rsp_opcode r = response_opcode.CommandAccepted
   | response_payload.Rejected _ _ \<Rightarrow> rsp_opcode r = response_opcode.CommandRejected
   | response_payload.Status st \<Rightarrow> rsp_opcode r = response_opcode.StatusSnapshot \<and> snapshot_validate st = Inr ())"

definition cache_fits :: "('d, 's) service \<Rightarrow> bool" where
  "cache_fits s \<longleftrightarrow> (\<forall>x \<in> set (request_cache s). fits (cached_message x))"

definition mid_told :: "status_snapshot \<Rightarrow> ('d, 's) service \<Rightarrow> bool" where
  "mid_told c s \<longleftrightarrow> list_all event_valid (svc_events s) \<and> cache_fits s \<and>
     (st_cube_session (svc_status s) \<noteq> None \<longrightarrow> st_cube_session (shown c s) = st_cube_session (svc_status s)) \<and>
     operation_shown (shown c s) = operation_shown (svc_status s)"

definition told :: "status_snapshot \<Rightarrow> ('d, 's) service \<Rightarrow> bool" where
  "told c s \<longleftrightarrow> mid_told c s \<and> (fields_of s = (None, None, None) \<longrightarrow> st_stand (shown c s) = st_stand (svc_status s))"

lemma told_mid: "told c s \<Longrightarrow> mid_told c s"
  by (simp add: told_def)

lemma mid_told_cong:
  assumes "svc_events s = svc_events t" "operation_shown (svc_status s) = operation_shown (svc_status t)"
    "st_cube_session (svc_status s) = st_cube_session (svc_status t)" "request_cache s = request_cache t"
  shows "mid_told c s = mid_told c t"
  using assms by (simp add: mid_told_def shown_def cache_fits_def)

lemma told_cong:
  assumes "svc_events s = svc_events t" "operation_shown (svc_status s) = operation_shown (svc_status t)"
    "st_cube_session (svc_status s) = st_cube_session (svc_status t)" "st_stand (svc_status s) = st_stand (svc_status t)"
    "request_cache s = request_cache t" "fields_of s = fields_of t"
  shows "told c s = told c t"
  using assms mid_told_cong [OF assms(1-3,5)] by (simp add: told_def shown_def)

lemmas told_defs = mid_told_def cache_fits_def shown_def operation_shown_def svc_defs

lemma mid_told_simps [simp]:
  "mid_told c (set_pose p s) = mid_told c s" "mid_told c (set_outputs_enabled b s) = mid_told c s"
  "mid_told c (on_scan f s) = mid_told c s" "mid_told c (on_solution g s) = mid_told c s"
  "mid_told c (clear_scan_and_solution s) = mid_told c s" "mid_told c (advance_action_counter s) = mid_told c s"
  "mid_told c (s\<lparr> svc_scan := x \<rparr>) = mid_told c s" "mid_told c (s\<lparr> svc_execute := y \<rparr>) = mid_told c s"
  "mid_told c (s\<lparr> svc_motion := z \<rparr>) = mid_told c s" "mid_told c (s\<lparr> svc_solve := w \<rparr>) = mid_told c s"
  "mid_told c (s\<lparr> svc_scanner := v \<rparr>) = mid_told c s" "mid_told c (s\<lparr> svc_output := d \<rparr>) = mid_told c s"
  "mid_told c (s\<lparr> next_session_id := n \<rparr>) = mid_told c s" "mid_told c (s\<lparr> next_solution_id := n \<rparr>) = mid_told c s"
  "mid_told c (emit_stand s) = mid_told c s"
  by (simp_all add: told_defs advance_action_counter_def option.map_comp comp_def)

lemma mid_told_drop_session:
  "mid_told c s \<Longrightarrow> mid_told c (on_status (\<lambda>st. st\<lparr> st_cube_session := None \<rparr>) s)"
  by (simp add: told_defs)

lemma mid_told_current:
  "mid_told c s \<Longrightarrow> mid_told c (on_operation (\<lambda>x. x\<lparr> op_current_action := n \<rparr>) s)"
  by (simp add: told_defs option.map_comp comp_def)

lemma mid_told_touches:
  assumes "touches s t"
  shows "mid_told c t = mid_told c s"
  using assms by (auto simp: touches_def told_defs)

lemma mid_told_emit_face:
  "mid_told c s \<Longrightarrow> event_valid (event_message.FaceScanned i f r m) \<Longrightarrow>
     mid_told c (emit (event_message.FaceScanned i f r m) s)"
  by (simp add: told_defs)

lemma motion_simps [simp]:
  "svc_motion (set_pose p s) = svc_motion s" "svc_motion (set_outputs_enabled b s) = svc_motion s"
  "svc_motion (on_status f s) = svc_motion s" "svc_motion (clear_scan_and_solution s) = svc_motion s"
  "svc_motion (emit e s) = svc_motion s" "svc_motion (emit_stand s) = svc_motion s"
  by (simp_all add: svc_defs)

lemma told_writes [simp]:
  "told c (s\<lparr> svc_scan := Some x \<rparr>) = mid_told c s" "told c (s\<lparr> svc_execute := Some y \<rparr>) = mid_told c s"
  by (simp_all add: told_def fields_of_def)

section \<open>Handlers that end an operation\<close>

lemma enter_fault_told: "list_all event_valid (svc_events s) \<Longrightarrow> cache_fits s \<Longrightarrow> told c (enter_fault B i s)"
  by (simp add: enter_fault_def told_def told_defs fields_of_def Let_def)

lemma abort_told: "list_all event_valid (svc_events s) \<Longrightarrow> cache_fits s \<Longrightarrow> told c (abort B i s)"
  by (auto simp: abort_def told_def told_defs fields_of_def Let_def enter_fault_def split: prod.split bool.split)

lemma settle_told:
  "outcome_all (told c) (mid_told c) r \<Longrightarrow> settle B i r = Some s' \<Longrightarrow> told c s'"
  by (cases r) (auto simp: settle_def mid_told_def intro: enter_fault_told)

lemma complete_operation_told:
  "mid_told c s \<Longrightarrow> svc_motion s \<noteq> None \<Longrightarrow> outcome_all (told c) (mid_told c) (complete_operation s)"
  by (auto simp: complete_operation_def told_def told_defs fields_of_def Let_def)

lemma phase_told:
  assumes "mid_told c s" "svc_motion s \<noteq> None"
  shows "outcome_all (told c) (mid_told c) (and_then (set_motion_phase phase d n s) (\<lambda>s. Done (emit_stand s)))"
proof -
  obtain m where m: "svc_motion s = Some m" using assms(2) by blast
  define u where "u = on_operation (\<lambda>x. x\<lparr> op_current_action := n \<rparr>)
    (s\<lparr> svc_motion := Some (m\<lparr> am_phase := phase, am_deadline := Some d \<rparr>) \<rparr>)"
  have "set_motion_phase phase d n s = Done u"
    by (simp add: set_motion_phase_def m u_def Let_def)
  moreover have "mid_told c u" unfolding u_def by (rule mid_told_current) (simp add: assms(1))
  moreover have "svc_motion u \<noteq> None" by (simp add: u_def svc_defs)
  ultimately show ?thesis by (auto simp: told_def fields_of_def)
qed

lemma commanded_told:
  assumes "outcome_all (touches s) (touches s) r" "mid_told c s"
  shows "outcome_all (\<lambda>t. mid_told c t \<and> svc_motion t = svc_motion s \<and> fields_of t = fields_of s) (mid_told c) r"
proof (rule outcome_all_mono [OF assms(1)])
  fix t assume t: "touches s t"
  then show told: "mid_told c t" using mid_told_touches assms(2) by blast
  have "svc_motion t = svc_motion s \<and> fields_of t = fields_of s"
    using t unfolding touches_def fields_of_def by (elim exE conjE) simp
  with told show "mid_told c t \<and> svc_motion t = svc_motion s \<and> fields_of t = fields_of s" by simp
qed

lemma then_told:
  assumes "outcome_all (touches s) (touches s) r" "mid_told c s"
    and "\<And>t. mid_told c t \<Longrightarrow> svc_motion t = svc_motion s \<Longrightarrow> fields_of t = fields_of s \<Longrightarrow> touches s t \<Longrightarrow>
      outcome_all (told c) (mid_told c) (f t)"
  shows "outcome_all (told c) (mid_told c) (and_then r f)"
  using assms(1,2) commanded_told [OF assms(1,2)] assms(3) by (cases r) auto

section \<open>Recovery and grip\<close>

lemmas command_touches = command_rail_pair_touches command_all_grippers_touches use_output_touches
  command_motion_rails_touches command_scan_grippers_touches finish_pending_touches

lemma recover_start_told:
  assumes "mid_told c s" "svc_motion s \<noteq> None"
  shows "outcome_all (told c) (mid_told c) (recover_start B now s)"
  unfolding recover_start_def Let_def
  by (rule then_told [OF command_rail_pair_touches [OF touches_refl]])
    (use assms mid_told_drop_session [OF assms(1)] in \<open>auto intro!: phase_told\<close>)

lemma touches_told: "touches s t \<Longrightarrow> mid_told c s \<Longrightarrow> mid_told c t"
  by (simp add: mid_told_touches)

lemma touches_motion: "touches s t \<Longrightarrow> svc_motion t = svc_motion s"
  by (auto simp: touches_def)

lemma recover_finish_left_right_told:
  fixes s :: "('d, 's) service"
  assumes "mid_told c s" "svc_motion s \<noteq> None"
  shows "outcome_all (told c) (mid_told c) (recover_finish_left_right B now s)"
  unfolding recover_finish_left_right_def
proof (rule then_told [OF use_output_touches [OF touches_refl] assms(1)])
  fix t :: "('d, 's) service"
  assume t: "mid_told c t" "svc_motion t = svc_motion s"
  have u: "touches t (finish_rails axes position t)" for axes position by (simp add: touches_folds)
  show "outcome_all (told c) (mid_told c) (and_then (command_rail_pair B [TopRail, BottomRail] [axis.Top, axis.Bottom] FarOpen
      (finish_rails [axis.Left, axis.Right] link_rail_position.Open t)) (\<lambda>s. and_then (set_motion_phase RecoverFinishTopBottom
      (now + rail_duration (svc_calibration s) FarOpen) 1 s) (\<lambda>s. Done (emit_stand s))))"
    by (rule then_told [OF command_rail_pair_touches [OF touches_refl]])
      (use t assms touches_told [OF u] touches_motion [OF u] in \<open>auto intro!: phase_told\<close>)
qed

lemma recover_finish_top_bottom_told:
  fixes s :: "('d, 's) service"
  assumes "mid_told c s" "svc_motion s \<noteq> None"
  shows "outcome_all (told c) (mid_told c) (recover_finish_top_bottom B now s)"
  unfolding recover_finish_top_bottom_def
proof (rule then_told [OF use_output_touches [OF touches_refl] assms(1)])
  fix t :: "('d, 's) service"
  assume t: "mid_told c t" "svc_motion t = svc_motion s"
  have u: "touches t (finish_rails axes position t)" for axes position by (simp add: touches_folds)
  show "outcome_all (told c) (mid_told c) (and_then (command_all_grippers_perpendicular B
      (finish_rails [axis.Top, axis.Bottom] link_rail_position.Open t)) (\<lambda>s. and_then (set_motion_phase RecoverFinishGrippers
      (now + gripper_pose_duration (svc_calibration s)) 2 s) (\<lambda>s. Done (emit_stand s))))"
    by (rule then_told [OF command_all_grippers_touches [OF touches_refl]])
      (use t assms touches_told [OF u] touches_motion [OF u] in \<open>auto intro!: phase_told\<close>)
qed

lemma recover_finish_grippers_told:
  fixes s :: "('d, 's) service"
  assumes "mid_told c s" "svc_motion s \<noteq> None"
  shows "outcome_all (told c) (mid_told c) (recover_finish_grippers B s)"
  unfolding recover_finish_grippers_def Let_def
proof (rule then_told [OF use_output_touches [OF touches_refl] assms(1)])
  fix t :: "('d, 's) service"
  assume t: "mid_told c t" "svc_motion t = svc_motion s"
  have u: "touches t (finish_all_grippers_perpendicular t)" by (simp add: touches_simps)
  show "outcome_all (told c) (mid_told c) (complete_operation (set_pose open_pose (set_outputs_enabled False
      (finish_all_grippers_perpendicular t))))"
    by (rule complete_operation_told) (use t assms touches_told [OF u] touches_motion [OF u] in auto)
qed

lemma grip_start_told:
  assumes "mid_told c s" "svc_motion s \<noteq> None"
  shows "outcome_all (told c) (mid_told c) (grip_start B now s)"
  unfolding grip_start_def Let_def
  by (rule then_told [OF command_all_grippers_touches [OF touches_refl]])
    (use assms in \<open>auto intro!: phase_told\<close>)

lemma grip_finish_grippers_told:
  fixes s :: "('d, 's) service"
  assumes "mid_told c s" "svc_motion s \<noteq> None"
  shows "outcome_all (told c) (mid_told c) (grip_finish_grippers B now s)"
  unfolding grip_finish_grippers_def Let_def
proof (rule then_told [OF use_output_touches [OF touches_refl]])
  have u: "touches s (finish_all_grippers_perpendicular s)" by (simp add: touches_simps)
  show "mid_told c (finish_all_grippers_perpendicular s)" using touches_told [OF u assms(1)] .
  fix t :: "('d, 's) service"
  assume t: "mid_told c t" "svc_motion t = svc_motion (finish_all_grippers_perpendicular s)"
  have v: "touches t (set_outputs_enabled True (moving_rails is p t))" for "is" p by (simp add: touches_simps touches_folds)
  show "outcome_all (told c) (mid_told c) (and_then (set_motion_phase GripFinishRails (now + rail_duration
      (svc_calibration (set_outputs_enabled True (moving_rails (map axis_index [axis.Left, axis.Right, axis.Top, axis.Bottom])
        link_rail_position.Grip t))) NearGrip) 1 (set_outputs_enabled True (moving_rails (map axis_index
        [axis.Left, axis.Right, axis.Top, axis.Bottom]) link_rail_position.Grip t))) (\<lambda>s. Done (emit_stand s)))"
    by (rule phase_told) (use t assms touches_told [OF v] touches_motion [OF v] touches_motion [OF u] in auto)
qed

lemma grip_finish_rails_told:
  fixes s :: "('d, 's) service"
  assumes "mid_told c s" "svc_motion s \<noteq> None"
  shows "outcome_all (told c) (mid_told c) (grip_finish_rails B s)"
  unfolding grip_finish_rails_def Let_def
proof (rule then_told [OF use_output_touches [OF touches_refl] assms(1)])
  fix t :: "('d, 's) service"
  assume t: "mid_told c t" "svc_motion t = svc_motion s"
  define u where "u = finish_rails [axis.Top, axis.Bottom] link_rail_position.Grip
    (finish_rails [axis.Left, axis.Right] link_rail_position.Grip t)"
  have v: "touches t u" by (simp add: u_def touches_folds)
  have session: "mid_told c (emit (event_message.CubeSessionChanged (Some x)) (on_status (\<lambda>st. st\<lparr> st_cube_session := Some x \<rparr>)
      (w\<lparr> next_session_id := n \<rparr>)))" if "mid_told c w" for w :: "('d, 's) service" and x n
    using that by (simp add: told_defs)
  show "outcome_all (told c) (mid_told c) (complete_operation (emit (event_message.CubeSessionChanged
      (Some \<lparr> cs_id = next_session_id (set_pose canonical_grip_pose (finish_rails [axis.Top, axis.Bottom] link_rail_position.Grip
        (finish_rails [axis.Left, axis.Right] link_rail_position.Grip t))) \<rparr>)) (on_status (\<lambda>st. st\<lparr> st_cube_session :=
      Some \<lparr> cs_id = next_session_id (set_pose canonical_grip_pose (finish_rails [axis.Top, axis.Bottom] link_rail_position.Grip
        (finish_rails [axis.Left, axis.Right] link_rail_position.Grip t))) \<rparr> \<rparr>)
      ((set_pose canonical_grip_pose (finish_rails [axis.Top, axis.Bottom] link_rail_position.Grip
        (finish_rails [axis.Left, axis.Right] link_rail_position.Grip t)))\<lparr> next_session_id := next_id (next_session_id
        (set_pose canonical_grip_pose (finish_rails [axis.Top, axis.Bottom] link_rail_position.Grip
        (finish_rails [axis.Left, axis.Right] link_rail_position.Grip t)))) \<rparr>))))"
    unfolding u_def [symmetric]
    by (rule complete_operation_told [OF session])
      (use t assms touches_told [OF v] touches_motion [OF v] in auto)
qed

lemma advance_motion_told:
  assumes "told c s" "advance_motion B now s = Some s'"
  shows "told c s'"
proof (cases "svc_motion s")
  case (Some m)
  have "outcome_all (told c) (mid_told c) (motion_handler B (am_phase m) now s)"
    using told_mid [OF assms(1)] Some
    by (cases "am_phase m") (auto simp: motion_handler_def recover_start_told recover_finish_left_right_told
        recover_finish_top_bottom_told recover_finish_grippers_told grip_start_told grip_finish_grippers_told
        grip_finish_rails_told)
  then show ?thesis
    using settle_told [of c _ B "am_operation_id m" s'] assms(2) Some by (auto simp: advance_motion_def settle_def)
qed (use assms in \<open>simp add: advance_motion_def\<close>)

section \<open>Scans\<close>

lemma face_mask_kept:
  "m AND (NOT ALL_FACES_MASK) = 0 \<Longrightarrow> (m OR push_bit (cube_face_index f) 1) AND (NOT ALL_FACES_MASK) = 0"
  by (cases f) (simp_all add: bit.conj_disj_distrib2 ALL_FACES_MASK_def FACE_COUNT_def)

lemma accept_face_told:
  assumes "mid_told c s" "scan_validate (st_scan (svc_status s)) = Inr ()" "accept_face i f r s = Some s'"
  shows "mid_told c s'"
proof -
  obtain counts where counts: "add_color_counts (scan_color_counts (st_scan (svc_status s))) (rf_colors r) = Some counts"
    using assms(3) by (auto simp: accept_face_def bind_eq_Some_conv)
  define u where "u = on_scan (\<lambda>sc. sc\<lparr> scan_camera_face := Some r, scan_faces := (scan_faces sc)[cube_face_index f := Some r],
      scan_scanned_faces := scan_scanned_faces sc OR push_bit (cube_face_index f) 1, scan_color_counts := counts \<rparr>) s"
  have "s' = emit (event_message.FaceScanned i f r (scan_scanned_faces (st_scan (svc_status u)))) u"
    using assms(3) counts by (simp add: accept_face_def u_def Let_def)
  moreover have "scan_scanned_faces (st_scan (svc_status u)) AND (NOT ALL_FACES_MASK) = 0"
    using assms(2) face_mask_kept by (simp add: u_def svc_defs scan_validate_mask)
  moreover have "mid_told c u" using assms(1) by (simp add: u_def)
  ultimately show ?thesis using mid_told_emit_face by simp
qed

lemma capture_step_told:
  assumes "mid_told c s" "scan_validate (st_scan (svc_status s)) = Inr ()" "capture_step B f scan s = Some (scan', s')"
  shows "mid_told c s'"
proof -
  let ?s = "on_scan (\<lambda>sc. sc\<lparr> scan_current_face := Some f \<rparr>) (set_pose \<lparr> pose_kind = ScanPose, pose_camera_face = Some f \<rparr> s)"
  have start: "mid_told c (?s\<lparr> svc_scanner := x \<rparr>)" "scan_validate (st_scan (svc_status (?s\<lparr> svc_scanner := x \<rparr>))) = Inr ()" for x
    using assms(1,2) by (simp_all, simp add: svc_defs scan_validate_mask)
  show ?thesis
    using assms(1,3) accept_face_told [OF start]
    by (auto simp: capture_step_def capture_result_def Let_def bind_eq_Some_conv
        split: if_splits prod.splits sum.splits option.splits)
qed

lemma emit_stand_told:
  "mid_told c s \<Longrightarrow> told c (emit_stand s)"
  by (simp add: told_def) (simp add: told_defs)

text \<open>The end of an operation: the controller is ready, and the stand has been reported.\<close>

lemma ready_told:
  assumes "told c s"
  shows "told c (emit_robot_state (set_controller controller_state.Ready None s))"
    and "told c (emit (event_message.OperationCompleted i k) (emit_robot_state (set_controller controller_state.Ready None s)))"
    and "told c (emit (event_message.OperationFailed i k') (emit_robot_state (set_controller controller_state.Ready None s)))"
  using assms by (simp_all add: told_def told_defs fields_of_def)

lemma told_simps [simp]:
  "told c (on_scan f s) = told c s" "told c (on_solution g s) = told c s"
  "told c (s\<lparr> svc_scanner := v \<rparr>) = told c s" "told c (s\<lparr> svc_solve := w \<rparr>) = told c s"
  "told c (s\<lparr> next_scan_revision := n \<rparr>) = told c s" "told c (s\<lparr> next_solution_id := n \<rparr>) = told c s"
  "told c (s\<lparr> next_operation_id := n \<rparr>) = told c s" "told c (begin_solver i r k fs s) = told c s"
  by (rule told_cong; simp add: svc_defs fields_of_def operation_shown_def begin_solver_def Let_def)+

lemma saturating_add16_ge: "x \<le> saturating_add16 x y"
  by (simp add: saturating_add16_def word_le_nat_alt [of x "x + y"] unat_word_ariths)

text \<open>An announced operation: the same identifier and kind, and a counter within its total.\<close>

lemma announce_told:
  assumes "told c s" "st_stand (svc_status t) = st_stand (svc_status s)" "svc_events t = svc_events s"
    and "st_cube_session (svc_status t) = st_cube_session (svc_status s)"
    and "fields_of t = fields_of s \<or> fields_of t \<noteq> (None, None, None)" "request_cache t = request_cache s"
    and "\<forall>x. st_active_operation (svc_status t) = Some x \<longrightarrow> op_current_action x \<le> op_action_count x"
  shows "told c (emit_robot_state t)"
  using assms by (auto simp: told_def mid_told_def cache_fits_def shown_def operation_shown_def emit_robot_state_def emit_def fields_of_def)

lemma solver_announced:
  assumes "told c s"
  shows "told c (emit_robot_state (begin_solver i r k fs (on_operation (\<lambda>opr. opr\<lparr> op_current_action := op_action_count opr,
      op_action_count := saturating_add16 (op_action_count opr) 1 \<rparr>) s)))"
  by (rule announce_told [OF assms]) (auto simp: svc_defs begin_solver_def fields_of_def saturating_add16_ge Let_def)

lemma finish_scan_told:
  assumes "mid_told c s" "finish_scan_operation B scan s = Some s'"
  shows "told c s'"
  using assms unfolding finish_scan_operation_def Let_def
  by (auto simp: bind_eq_Some_conv ready_told solver_announced emit_stand_told split: if_splits option.splits)

lemma pending_told:
  assumes "mid_told c s"
  shows "outcome_all (told c) (mid_told c) (and_then (finish_pending B pending s) (\<lambda>s.
      Done ((emit_stand (advance_action_counter s))\<lparr> svc_scan := Some x \<rparr>)))"
    and "outcome_all (told c) (mid_told c) (and_then (finish_pending B pending s) (\<lambda>s.
      Done ((emit_stand (advance_action_counter s))\<lparr> svc_execute := Some y \<rparr>)))"
  by (rule then_told [OF finish_pending_touches [OF touches_refl] assms], simp)+

lemma command_told:
  assumes "mid_told c s"
  shows "outcome_all (told c) (mid_told c) (and_then (command_motion_rails B target position s) (\<lambda>s.
      Done (s\<lparr> svc_scan := Some (f s) \<rparr>)))"
    and "outcome_all (told c) (mid_told c) (and_then (command_motion_rails B target position s) (\<lambda>s.
      Done (s\<lparr> svc_execute := Some (g s) \<rparr>)))"
    and "outcome_all (told c) (mid_told c) (and_then (command_scan_grippers B poses s) (\<lambda>s.
      Done (s\<lparr> svc_scan := Some (f s) \<rparr>)))"
    and "outcome_all (told c) (mid_told c) (and_then (command_scan_grippers B poses s) (\<lambda>s.
      Done (s\<lparr> svc_execute := Some (g s) \<rparr>)))"
  by (rule then_told [OF command_motion_rails_touches [OF touches_refl] assms]
      then_told [OF command_scan_grippers_touches [OF touches_refl] assms], simp)+

lemma scan_step_told:
  assumes "mid_told c s" "scan_validate (st_scan (svc_status s)) = Inr ()" "scan_step B now step scan s = Some s'"
  shows "told c s'"
proof (cases step)
  case (SetRails target position)
  then show ?thesis
    using assms(3) settle_told [OF command_told(1) [where s = "set_pose transitional_pose s" and f = "\<lambda>s. scan\<lparr>
      as_pending := Some (Rails target position), as_deadline := Some (now + rail_duration (svc_calibration s) position) \<rparr>"]]
      assms(1) by (simp add: scan_step_def)
next
  case (SetGrippers poses)
  then show ?thesis
    using assms(3) settle_told [OF command_told(3) [where s = "set_pose transitional_pose s" and f = "\<lambda>t. scan\<lparr>
      as_pending := Some (Grippers poses),
      as_deadline := Some (now + gripper_motion_duration (set_pose transitional_pose s) poses) \<rparr>"]]
      assms(1) by (simp add: scan_step_def Let_def)
next
  case (Capture f)
  then show ?thesis
    using assms capture_step_told [OF assms(1,2)] by (auto simp: scan_step_def bind_eq_Some_conv)
qed (use assms settle_told [of c "outcome.Failed NonScanAction s"] in \<open>auto simp: scan_step_def\<close>)

lemma advance_scan_told:
  assumes "told c s" "scan_validate (st_scan (svc_status s)) = Inr ()" "advance_scan B now s = Some s'"
  shows "told c s'"
proof (cases "svc_scan s")
  case (Some scan)
  have m: "mid_told c (s\<lparr> svc_scan := None \<rparr>)" using told_mid [OF assms(1)] by simp
  show ?thesis
  proof (cases "as_pending scan")
    case (Some pending)
    then show ?thesis
      using assms(1,3) \<open>svc_scan s = Some scan\<close> settle_told [OF pending_told(1) [OF m]]
      by (auto simp: advance_scan_def Let_def split: if_splits)
  next
    case None
    then show ?thesis
      using assms \<open>svc_scan s = Some scan\<close> finish_scan_told [OF m] scan_step_told [OF m]
      by (auto simp: advance_scan_def Let_def split: if_splits list.splits)
  qed
qed (use assms in \<open>simp add: advance_scan_def\<close>)

section \<open>The solver and executions\<close>

lemma finish_solve_failure_told: "told c s \<Longrightarrow> told c (finish_solve_failure i s)"
  by (simp add: finish_solve_failure_def Let_def ready_told)

lemma finish_solve_told:
  assumes "told c s" "finish_solve active moves s = Some s'"
  shows "told c s'"
proof -
  have *: "told c (emit_robot_state ((on_operation (\<lambda>opr. let current = saturating_add16 (op_current_action opr) 1
      in opr\<lparr> op_current_action := current, op_action_count := saturating_add16 current n \<rparr>) t)\<lparr> svc_execute := Some x \<rparr>))"
    if "told c t" for t :: "('a, 'b) service" and n x
    by (rule announce_told [OF that]) (auto simp: svc_defs fields_of_def saturating_add16_ge Let_def)
  show ?thesis
    using assms *
    by (auto simp: finish_solve_def Let_def bind_eq_Some_conv ready_told finish_solve_failure_told split: if_splits option.splits)
qed

lemma advance_solve_told:
  assumes "told c s" "advance_solve B poll s = Some s'"
  shows "told c s'"
proof -
  have "finish_solve x moves (s\<lparr> svc_solve := None \<rparr>) = Some s' \<Longrightarrow> told c s'" for x moves
    using finish_solve_told [of c "s\<lparr> svc_solve := None \<rparr>"] assms(1) by simp
  then show ?thesis
    using assms by (auto simp: advance_solve_def Let_def finish_solve_failure_told
        split: option.splits try_recv.splits sum.splits)
qed

lemma finish_execute_told:
  assumes "mid_told c s"
  shows "told c (finish_execute_operation i k s)"
  using assms by (simp add: finish_execute_operation_def told_def told_defs Let_def)

lemma execute_step_told:
  assumes "mid_told c s"
  shows "outcome_all (told c) (mid_told c) (execute_step B now step execute s)"
proof (cases step)
  case AllOff
  then show ?thesis
    by (simp add: execute_step_def Let_def) (rule then_told [OF use_output_touches [OF touches_refl] assms], simp)
qed (use assms in \<open>simp_all add: execute_step_def Let_def command_told\<close>)

lemma advance_execute_told:
  assumes "told c s" "advance_execute B now s = Some s'"
  shows "told c s'"
proof (cases "svc_execute s")
  case (Some x)
  have m: "mid_told c (s\<lparr> svc_execute := None \<rparr>)" using told_mid [OF assms(1)] by simp
  show ?thesis
  proof (cases "ae_pending x")
    case (Some pending)
    then show ?thesis
      using assms \<open>svc_execute s = Some x\<close> settle_told [OF pending_told(2) [OF m]]
      by (auto simp: advance_execute_def Let_def split: if_splits)
  next
    case None
    then show ?thesis
      using assms \<open>svc_execute s = Some x\<close> finish_execute_told [OF m] settle_told [OF execute_step_told [OF m]]
      by (auto simp: advance_execute_def Let_def split: if_splits list.splits)
  qed
qed (use assms in \<open>simp add: advance_execute_def\<close>)

section \<open>The tick and the requests\<close>

lemma tick_told:
  assumes "service_inv s" "told c s" "tick B now poll s = Some (ms, s')"
  shows "\<exists>t. told c t \<and> ms = map service_message.Event (svc_events t) \<and> s' = t\<lparr> svc_events := [] \<rparr>"
proof -
  obtain a b d t where steps: "tick_motion B now s = Some a" "advance_scan B now a = Some b"
    "advance_solve B poll b = Some d" "advance_execute B now d = Some t" "drain_events t = (ms, s')"
    using assms(3) by (auto simp: tick_def bind_eq_Some_conv)
  have a: "told c a"
    using steps(1) assms(2) advance_motion_told [OF assms(2)]
    by (auto simp: tick_motion_def split: option.splits if_splits)
  obtain a' where "tick_motion B now s = Some a'" "service_inv a'" using tick_motion_inv [OF assms(1)] by blast
  then have "scan_validate (st_scan (svc_status a)) = Inr ()"
    using steps(1) by (auto simp: service_inv_def status_ok_def scan_ok_def)
  from advance_execute_told [OF advance_solve_told [OF advance_scan_told [OF a this steps(2)] steps(3)] steps(4)]
  show ?thesis using steps(5) by (auto simp: drain_events_def)
qed

lemma begun_told:
  assumes "told c s" "svc_events t = svc_events s" "st_stand (svc_status t) = st_stand (svc_status s)"
    and "st_cube_session (svc_status t) = st_cube_session (svc_status s)"
    and "fields_of t = fields_of s \<or> fields_of t \<noteq> (None, None, None)" "request_cache t = request_cache s"
    and "st_active_operation (svc_status t) = Some \<lparr> op_id = i, op_kind = k, op_current_action = 0, op_action_count = n \<rparr>"
  shows "told c (emit_robot_state t)"
  by (rule announce_told [OF assms(1)]) (use assms in auto)

lemma begin_motion_told:
  "told c s \<Longrightarrow> told c (emit_robot_state ((on_status (\<lambda>st. st\<lparr> st_fault := None \<rparr>) (set_controller controller_state.Busy (Some \<lparr> op_id = i, op_kind = k,
      op_current_action = 0, op_action_count = m \<rparr>) (s\<lparr> next_operation_id := n \<rparr>)))\<lparr> svc_motion := Some x \<rparr>))"
  by (rule begun_told [of c s]) (simp_all add: svc_defs fields_of_def)

lemma start_operation_told: "told c s \<Longrightarrow> told c (snd (start_operation k s))"
  by (simp add: start_operation_def Let_def split_beta begin_motion_told split: sum.split)

lemma begin_scan_told:
  "told c s \<Longrightarrow> told c (emit_robot_state ((on_solution g (on_scan f (set_controller controller_state.Busy (Some \<lparr> op_id = i, op_kind = k,
      op_current_action = 0, op_action_count = m \<rparr>) (s\<lparr> svc_scanner := y, next_scan_revision := q, next_operation_id := n \<rparr>))))\<lparr> svc_scan := Some x \<rparr>))"
  by (rule begun_told [of c s]) (simp_all add: svc_defs fields_of_def)

lemma start_scan_told:
  "told c s \<Longrightarrow> start_scan_operation B i session k s = Some (r, s') \<Longrightarrow> told c s'"
  by (auto simp: start_scan_operation_def Let_def split_beta bind_eq_Some_conv begin_scan_told
      split: if_splits option.splits bool.splits)

lemma begin_solver_told:
  "told c s \<Longrightarrow> told c (emit_robot_state (begin_solver i' r k' f (set_controller controller_state.Busy (Some \<lparr> op_id = i, op_kind = k,
      op_current_action = 0, op_action_count = m \<rparr>) (s\<lparr> next_operation_id := n \<rparr>))))"
  by (rule begun_told [of c s]) (auto simp: begin_solver_def svc_defs fields_of_def Let_def)

lemma start_solve_told:
  assumes "told c s" "start_solve_request B p s = Some (r, s')"
  shows "told c s'"
proof (cases "cube_from_scan (st_scan (svc_status s))")
  case None
  then show ?thesis
    using assms by (auto simp: start_solve_request_def Let_def split_beta split: sum.splits if_splits option.splits)
next
  case (Some x)
  define fs where "fs = (case x of Inl _ \<Rightarrow> Some None
    | Inr cube \<Rightarrow> map_option (\<lambda>r. case r of Inl _ \<Rightarrow> None | Inr f \<Rightarrow> Some f) (facelet_string cube))"
  show ?thesis
    using assms unfolding start_solve_request_def Let_def split_beta Some bind.bind_lunit fs_def [symmetric]
    by (cases fs) (auto simp: begin_solver_told split: sum.splits if_splits option.splits)
qed

lemma begin_execute_told:
  assumes "told c s"
  shows "told c (emit_robot_state (begin_execute i' k' steps (set_controller controller_state.Busy (Some \<lparr> op_id = i, op_kind = k,
      op_current_action = 0, op_action_count = m \<rparr>) (s\<lparr> next_operation_id := n \<rparr>))))"
    and "told c (emit_robot_state (begin_execute i' k' steps (on_solution g (set_controller controller_state.Busy (Some \<lparr> op_id = i, op_kind = k,
      op_current_action = 0, op_action_count = m \<rparr>) (s\<lparr> next_operation_id := n \<rparr>)))))"
  by (rule begun_told [OF assms]; simp add: begin_execute_def svc_defs fields_of_def Let_def)+

lemma start_execute_told:
  "told c s \<Longrightarrow> start_execute_request B p s = Some (r, s') \<Longrightarrow> told c s'"
  by (auto simp: start_execute_request_def Let_def split_beta bind_eq_Some_conv begin_execute_told
      split: sum.splits if_splits option.splits)

lemma start_execute_moves_told:
  "told c s \<Longrightarrow> start_execute_moves_request B p s = Some (r, s') \<Longrightarrow> told c s'"
  by (auto simp: start_execute_moves_request_def Let_def split_beta bind_eq_Some_conv begin_execute_told
      split: sum.splits if_splits option.splits)

lemma start_open_told: "told c s \<Longrightarrow> told c (snd (start_open_request B p s))"
  by (auto simp: start_open_request_def Let_def split_beta begin_execute_told split: sum.split option.split)

lemma dispatch_told:
  assumes "told c s" "dispatch_new_request B p s = Some (r, s')"
  shows "told c s'"
proof -
  have empty: "told c (snd (start_empty_payload_operation p k s))" for k
    using start_operation_told [OF assms(1), of k]
    by (auto simp: start_empty_payload_operation_def assms(1) split: prod.split sum.split)
  have scan: "start_scan_request B p k s = Some (r, s') \<Longrightarrow> told c s'" for k
    using start_scan_told [OF assms(1)] assms(1) by (auto simp: start_scan_request_def split: sum.splits)
  have "told c (abort B i s)" for i
    by (rule abort_told) (use assms(1) in \<open>simp_all add: told_def mid_told_def\<close>)
  then show ?thesis
    using assms empty [of operation_kind.RecoverToOpen] empty [of operation_kind.Grip] start_open_told [OF assms(1), of B p]
      scan start_solve_told [OF assms(1)] start_execute_told [OF assms(1)] start_execute_moves_told [OF assms(1)]
    by (auto simp: dispatch_new_request_def Let_def split: sum.splits if_splits request_opcode.splits)
qed

lemma fits_simps [simp]: "fits (accepted i x)" "fits (rejected s i reason)"
  by (simp_all add: fits_def accepted_def rejected_def)

lemma valid_status:
  assumes "service_inv s"
  shows "snapshot_validate (svc_status s) = Inr ()"
proof -
  obtain a where a: "status_ok (svc_status s)" "activity_ok a (svc_status s)"
    using assms by (auto simp: service_inv_def)
  have "operation_validate opr = Inr ()" if "st_active_operation (svc_status s) = Some opr" for opr
    using a(2) that
    by (cases a) (auto simp: running_def operation_validate_def motion_ok_def scan_running_def
        solve_running_def execute_running_def word_le_nat_alt not_less)
  then show ?thesis
    using a(1) by (auto simp: snapshot_validate_iff status_ok_def scan_ok_def solution_ok_def)
qed

lemma start_fits:
  "start_scan_operation B i session k s = Some (r, s') \<Longrightarrow> fits r"
  "start_execute_request B p s = Some (r, s') \<Longrightarrow> fits r"
  "start_execute_moves_request B p s = Some (r, s') \<Longrightarrow> fits r"
  "start_open_request B p s = (r, s') \<Longrightarrow> fits r"
  "start_empty_payload_operation p k s = (r, s') \<Longrightarrow> fits r"
  by (auto simp: start_scan_operation_def start_execute_request_def start_execute_moves_request_def start_open_request_def
      start_empty_payload_operation_def Let_def split_beta bind_eq_Some_conv
      split: if_splits option.splits bool.splits sum.splits prod.splits)

lemma start_solve_fits:
  assumes "start_solve_request B p s = Some (r, s')"
  shows "fits r"
proof (cases "cube_from_scan (st_scan (svc_status s))")
  case None
  then show ?thesis
    using assms by (auto simp: start_solve_request_def Let_def split_beta split: sum.splits if_splits option.splits)
next
  case (Some x)
  define fs where "fs = (case x of Inl _ \<Rightarrow> Some None
    | Inr cube \<Rightarrow> map_option (\<lambda>r. case r of Inl _ \<Rightarrow> None | Inr f \<Rightarrow> Some f) (facelet_string cube))"
  show ?thesis
    using assms unfolding start_solve_request_def Let_def split_beta Some bind.bind_lunit fs_def [symmetric]
    by (cases fs) (auto split: sum.splits if_splits option.splits)
qed

lemma dispatch_fits:
  assumes "service_inv s" "dispatch_new_request B p s = Some (r, s')"
  shows "fits r"
proof -
  have "start_scan_request B p k s = Some (r, s') \<Longrightarrow> fits r" for k
    using start_fits(1) by (auto simp: start_scan_request_def split: sum.splits)
  then show ?thesis
    using assms(2) valid_status [OF assms(1)] start_fits(2-5) start_solve_fits
    by (auto simp: dispatch_new_request_def Let_def fits_def [of "\<lparr> rsp_request_id = _, rsp_opcode = _, rsp_payload = _ \<rparr>"]
        split: sum.splits if_splits request_opcode.splits)
qed

lemma told_cache:
  assumes "told c s" "fits r"
  shows "told c (cache_response opc r s)"
proof -
  have "cache_fits (cache_response opc r s)"
    using assms by (cases "request_cache s")
      (auto simp: told_def mid_told_def cache_fits_def cache_response_def Let_def)
  then show ?thesis
    using assms(1) by (auto simp: told_def mid_told_def shown_def fields_of_def cache_response_def Let_def)
qed

lemma handle_packet_told:
  assumes "service_inv s" "told c s" "handle_packet B p s = Some (ms, s')"
  shows "\<exists>r t. told c t \<and> ms = service_message.Response r # map service_message.Event (svc_events t) \<and>
    s' = t\<lparr> svc_events := [] \<rparr> \<and> fits r"
proof (cases "find (\<lambda>entry. rsp_request_id (cached_message entry) = rp_request_id p) (request_cache s)")
  case None
  then obtain r t where "dispatch_new_request B p s = Some (r, t)"
    "(ms, s') = (service_message.Response r # fst (drain_events (cache_response (rp_opcode p) r t)),
      snd (drain_events (cache_response (rp_opcode p) r t)))"
    using assms(3) by (auto simp: handle_packet_def Let_def bind_eq_Some_conv split_beta)
  with dispatch_told [OF assms(2) this(1)] dispatch_fits [OF assms(1) this(1)] told_cache show ?thesis
    by (intro exI [of _ r] exI [of _ "cache_response (rp_opcode p) r t"]) (simp add: drain_events_def)
next
  case (Some x)
  then have "x \<in> set (request_cache s)" by (auto simp: find_Some_iff)
  then have "fits (cached_message x)" using assms(2) by (simp add: told_def mid_told_def cache_fits_def)
  then show ?thesis using assms Some by (auto simp: handle_packet_def drain_events_def intro!: exI [of _ s])
qed

lemma handle_local_told:
  assumes "told c s" "handle_local_command B k s = Some ((r, ms), s')"
  shows "\<exists>t. told c t \<and> ms = map service_message.Event (svc_events t) \<and> s' = t\<lparr> svc_events := [] \<rparr>"
proof (cases k)
  case (ScanSolveExecute i)
  obtain a t where t: "start_scan_operation B 0 i operation_kind.ScanSolveExecute s = Some (a, t)"
    using assms(2) by (cases "start_scan_operation B 0 i operation_kind.ScanSolveExecute s")
      (auto simp: handle_local_command_def ScanSolveExecute)
  then show ?thesis
    using assms(2) start_scan_told [OF assms(1) t]
    by (cases "rsp_payload a") (auto simp: handle_local_command_def ScanSolveExecute drain_events_def)
next
  case Abort
  have "told c (abort B i s)" for i
    by (rule abort_told) (use assms(1) in \<open>simp_all add: told_def mid_told_def\<close>)
  then show ?thesis using assms(2) by (auto simp: handle_local_command_def Abort drain_events_def Let_def)
next
  case RecoverToOpen
  show ?thesis
    using assms(2) start_operation_told [OF assms(1), of operation_kind.RecoverToOpen]
    by (cases "start_operation operation_kind.RecoverToOpen s")
      (auto simp: handle_local_command_def RecoverToOpen drain_events_def split: sum.splits)
next
  case Grip
  show ?thesis
    using assms(2) start_operation_told [OF assms(1), of operation_kind.Grip]
    by (cases "start_operation operation_kind.Grip s")
      (auto simp: handle_local_command_def Grip drain_events_def split: sum.splits)
qed

section \<open>A client that follows the robot\<close>

text \<open>
  The client took a status that was current, and from then on every event. Responses between them
  carry no status.
\<close>

inductive follow_reach :: "('d, 's) backend \<Rightarrow> ('d, 's) service \<Rightarrow> status_snapshot \<Rightarrow> bool" for B where
  status: "service_reach B s \<Longrightarrow> follow_reach B s (svc_status s)"
| packet: "follow_reach B s c \<Longrightarrow>
    handle_packet B p s = Some (service_message.Response r # map service_message.Event es, s') \<Longrightarrow>
    follow_reach B s' (fold updated es c)"
| local: "follow_reach B s c \<Longrightarrow> handle_local_command B k s = Some ((r, map service_message.Event es), s') \<Longrightarrow>
    follow_reach B s' (fold updated es c)"
| time: "follow_reach B s c \<Longrightarrow> tick B now poll s = Some (map service_message.Event es, s') \<Longrightarrow>
    follow_reach B s' (fold updated es c)"

definition follows :: "status_snapshot \<Rightarrow> ('d, 's) service \<Rightarrow> bool" where
  "follows c s \<longleftrightarrow> service_inv s \<and> svc_events s = [] \<and> told c s \<and> snapshot_validate c = Inr ()"

lemma event_list [simp]: "(map service_message.Event es = map service_message.Event es') = (es = es')"
  by (simp add: inj_map_eq_map inj_def)

lemma told_drained:
  assumes "told c t"
  shows "told (fold updated (svc_events t) c) (t\<lparr> svc_events := [] \<rparr>)"
    and "snapshot_validate c = Inr () \<Longrightarrow> snapshot_validate (fold updated (svc_events t) c) = Inr ()"
  using assms fold_updated_valid [of "svc_events t" c]
  by (auto simp: told_def mid_told_def cache_fits_def shown_def fields_of_def)

lemma told_self: "told c s \<Longrightarrow> svc_events s = [] \<Longrightarrow> told (svc_status s) s"
  by (simp add: told_def mid_told_def shown_def)

lemma service_reach_told: "service_reach B s \<Longrightarrow> told (svc_status s) s"
proof (induction rule: service_reach.induct)
  case (start dev c scanner)
  show ?case by (simp add: told_def mid_told_def cache_fits_def shown_def with_scanner_def)
next
  case (packet s p ms s')
  then show ?case using handle_packet_told [of s "svc_status s" B p ms s'] told_drained told_self service_reach_inv
    by (metis service_reach.packet)
next
  case (local s k r s')
  then show ?case using handle_local_told [of "svc_status s" s B k] told_drained told_self service_reach_inv
    by (metis prod.exhaust service_reach.local)
next
  case (time s now poll ms s')
  then show ?case using tick_told [of s "svc_status s" B now poll ms s'] told_drained told_self service_reach_inv
    by (metis service_reach.time)
qed

lemma follow_reach_follows: "follow_reach B s c \<Longrightarrow> service_reach B s \<and> follows c s"
proof (induction rule: follow_reach.induct)
  case (status s)
  then have "service_inv s" "svc_events s = []" using service_reach_inv by blast+
  then show ?case
    using status valid_status service_reach_told by (auto simp: follows_def)
next
  case (packet s c p r es s')
  then have "service_reach B s'" by (blast intro: service_reach.packet)
  moreover obtain r' t where "told c t" "service_message.Response r # map service_message.Event es =
      service_message.Response r' # map service_message.Event (svc_events t)" "s' = t\<lparr> svc_events := [] \<rparr>"
    using handle_packet_told packet by (metis follows_def)
  ultimately show ?case
    using told_drained [of c t] packet.IH service_reach_inv by (auto simp: follows_def)
next
  case (local s c k r es s')
  then have "service_reach B s'" by (blast intro: service_reach.local)
  moreover obtain t where "told c t" "map service_message.Event es = map service_message.Event (svc_events t)"
    "s' = t\<lparr> svc_events := [] \<rparr>"
    using handle_local_told local by (metis follows_def)
  ultimately show ?case
    using told_drained [of c t] local.IH service_reach_inv by (auto simp: follows_def)
next
  case (time s c now poll es s')
  then have "service_reach B s'" by (blast intro: service_reach.time)
  moreover obtain t where "told c t" "map service_message.Event es = map service_message.Event (svc_events t)"
    "s' = t\<lparr> svc_events := [] \<rparr>"
    using tick_told time by (metis follows_def)
  ultimately show ?case
    using told_drained [of c t] time.IH service_reach_inv by (auto simp: follows_def)
qed

end
