(* ===== verification/ClientLink.thy ===== *)
theory ClientLink
  imports ClientFollows SimLink
begin

text \<open>
  The client of \<open>src/robot_client.rs\<close> on the serial line. Its decoder is an instance of the interface
  \<open>frame_handler\<close>, so that a noisy stream acts as the packets in it; with decoders that invert the
  daemon's serializers on the messages sent (\<open>reads_back\<close>) the client reads back what the daemon writes, and a command of the
  client is answered through the daemon.
\<close>

section \<open>The client as a frame handler\<close>

definition client_handle :: "'pe client_decoders \<Rightarrow> robot_client \<Rightarrow> stream_decode_error + received_packet \<Rightarrow>
    (robot_client \<times> ('pe client_error + client_message)) option" where
  "client_handle D c r =
     (case r of
        Inl e \<Rightarrow> Some (c, Inl (StreamError e))
      | Inr p \<Rightarrow> (case receive_packet D p c of (m, c) \<Rightarrow> Some (c, m)))"

definition put_client_decoder :: "uart_stream_decoder \<Rightarrow> robot_client \<Rightarrow> robot_client" where
  "put_client_decoder d c = c\<lparr> rc_decoder := d \<rparr>"

definition client_ok :: "robot_client \<Rightarrow> bool" where
  "client_ok c \<longleftrightarrow> encoder_ok (rc_encoder c) \<and> decoder_ok (rc_decoder c) \<and> rc_next_request_id c \<noteq> 0"

definition client_shows :: "robot_client \<Rightarrow> status_snapshot option \<Rightarrow> bool" where
  "client_shows c a \<longleftrightarrow> client_ok c \<and> rc_snapshot c = a"

text \<open>What a packet does to the copy of the status, and the message it yields.\<close>

definition client_serve :: "'pe client_decoders \<Rightarrow> status_snapshot option \<Rightarrow> packet \<Rightarrow>
    status_snapshot option \<times> ('pe client_error + client_message)" where
  "client_serve D a k =
     (case receive_packet D (delivered k) (default_client\<lparr> rc_snapshot := a \<rparr>) of (m, c) \<Rightarrow> (rc_snapshot c, m))"

definition stream_failed :: "stream_decode_error + received_packet \<Rightarrow> ('pe client_error + client_message) option" where
  "stream_failed r = (case r of Inl e \<Rightarrow> Some (Inl (StreamError e)) | Inr p \<Rightarrow> None)"

lemma client_push_framed: "client_push D = framed push rc_decoder put_client_decoder (client_handle D)"
  by (intro ext) (auto simp: client_push_def framed_def client_handle_def put_client_decoder_def Let_def
      split: option.splits sum.splits prod.splits Option.bind_splits intro!: Option.bind_cong)

lemma default_client_ok: "client_ok default_client"
  by (simp add: client_ok_def default_client_def with_initial_request_id_def default_encoder_ok default_decoder_ok)

lemma receive_packet_snapshot:
  "receive_packet D p c = (m, c') \<Longrightarrow>
     receive_packet D p (c1\<lparr> rc_snapshot := rc_snapshot c \<rparr>) = (m, c1\<lparr> rc_snapshot := rc_snapshot c' \<rparr>) \<and>
     c' = c\<lparr> rc_snapshot := rc_snapshot c' \<rparr>"
  by (auto simp: receive_packet_def apply_message_def
      split: sum.splits prod.splits client_message.splits client_response.splits option.splits)

lemma client_handle_packet:
  assumes "client_shows c a" "client_serve D a k = (a', out)"
  shows "\<exists>c'. client_handle D c (Inr (delivered k)) = Some (c', out) \<and> client_shows c' a' \<and> rc_decoder c' = rc_decoder c"
proof -
  obtain m c' where r: "receive_packet D (delivered k) c = (m, c')" by fastforce
  from receive_packet_snapshot [OF r, of default_client] assms(1)
  have same: "receive_packet D (delivered k) (default_client\<lparr> rc_snapshot := a \<rparr>) =
      (m, default_client\<lparr> rc_snapshot := rc_snapshot c' \<rparr>)" "c' = c\<lparr> rc_snapshot := rc_snapshot c' \<rparr>"
    by (simp_all add: client_shows_def)
  then have "a' = rc_snapshot c'" "out = m" using assms(2) by (simp_all add: client_serve_def)
  moreover have "client_ok c'" "rc_decoder c' = rc_decoder c"
    using assms(1) by (subst same(2), simp add: client_shows_def client_ok_def)+
  ultimately show ?thesis using r by (simp add: client_handle_def client_shows_def)
qed

interpretation client: frame_handler push decoder_ok decoder_pending "MAX_UART_FRAME_LEN - 1"
  uart_frame_bytes packet_ok "\<lambda>p. Inr (delivered p)" rc_decoder put_client_decoder
  "client_handle D" client_shows "client_serve D" stream_failed
  for D
proof (unfold_locales, goal_cases)
  case (4 s a p a' out)
  then show ?case using client_handle_packet by blast
next
  case (6 d b d' r)
  then show ?case using push_outcome [of d b d' r] by (auto simp: stream_failed_def)
qed (auto simp: client_shows_def client_ok_def client_handle_def stream_failed_def put_client_decoder_def split: sum.splits)

section \<open>Reading what the daemon writes\<close>

fun reads_back :: "'pe client_decoders \<Rightarrow> (response_payload \<Rightarrow> u8 list) \<Rightarrow> (event_message \<Rightarrow> u8 list) \<Rightarrow>
    service_message \<Rightarrow> bool" where
  "reads_back D br be (service_message.Response r) \<longleftrightarrow>
     (case rsp_payload r of
        response_payload.Accepted i \<Rightarrow> take_accepted D (br (response_payload.Accepted i)) = Inr (i, [])
      | response_payload.Rejected x c \<Rightarrow> take_rejected D (br (response_payload.Rejected x c)) = Inr ((x, c), [])
      | response_payload.Status st \<Rightarrow> take_status D (br (response_payload.Status st)) = Inr (st, []))"
| "reads_back D br be (service_message.Event e) \<longleftrightarrow>
     (case e of
        event_message.RobotStateChanged c x \<Rightarrow> take_robot_state D (be e) = Inr ((c, x), [])
      | event_message.StandStateChanged x \<Rightarrow> take_stand D (be e) = Inr (x, [])
      | event_message.CubeSessionChanged x \<Rightarrow> take_cube_session D (be e) = Inr (x, [])
      | event_message.FaceScanned i f r m \<Rightarrow> take_face D (be e) = Inr ((i, f, r, m), [])
      | event_message.OperationFailed i k \<Rightarrow> take_failed D (be e) = Inr ((i, k), [])
      | event_message.OperationCompleted i k \<Rightarrow> take_completed D (be e) = Inr ((i, k), [])
      | event_message.Aborted i \<Rightarrow> take_aborted D (be e) = Inr (i, [])
      | event_message.Fault i f \<Rightarrow> take_fault D (be e) = Inr ((i, f), []))"

fun client_message_of :: "service_message \<Rightarrow> client_message" where
  "client_message_of (service_message.Response r) = client_message.Response
     (case rsp_payload r of
        response_payload.Accepted i \<Rightarrow> client_response.Accepted (rsp_request_id r) i
      | response_payload.Rejected x c \<Rightarrow> client_response.Rejected (rsp_request_id r) x c
      | response_payload.Status st \<Rightarrow> client_response.Status (rsp_request_id r) st)"
| "client_message_of (service_message.Event e) = client_message.Event (client_event_of e)"

fun message_shown :: "service_message \<Rightarrow> status_snapshot option \<Rightarrow> status_snapshot option" where
  "message_shown (service_message.Response r) a =
     (case rsp_payload r of response_payload.Status st \<Rightarrow> Some st | _ \<Rightarrow> a)"
| "message_shown (service_message.Event e) a = map_option (updated e) a"

fun message_ok :: "service_message \<Rightarrow> bool" where
  "message_ok (service_message.Response r) \<longleftrightarrow> rsp_request_id r \<noteq> 0 \<and> fits r"
| "message_ok (service_message.Event e) \<longleftrightarrow> True"

lemma delivered_simps [simp]:
  "rp_kind (delivered k) = pkt_kind k" "rp_opcode (delivered k) = pkt_opcode k"
  "rp_request_id (delivered k) = pkt_request_id k"
  by (simp_all add: delivered_def)

lemma client_reads_message:
  assumes "reads_back D br be m" "message_ok m"
  shows "client_serve D a (message_packet br be m) = (message_shown m a, Inr (client_message_of m))"
proof (cases m)
  case (Response r)
  then show ?thesis
    using assms
    by (cases "rsp_payload r")
      (auto simp: fits_def client_serve_def receive_packet_def decode_message_def decode_response_def decode_as_def
        decode_payload_def schema_checked_def apply_message_def
        response_try_from_def Let_def)
next
  case (Event e)
  have "decode_message D (delivered (message_packet br be m)) = Inr (client_message_of m)"
    using assms(1) Event by (cases e) (simp_all add: decode_message_def decode_event_def decode_as_def
        decode_payload_def event_try_from_def Let_def)
  then show ?thesis
    using Event by (cases a) (simp_all add: client_serve_def receive_packet_def apply_message_def apply_client_event)
qed

lemma client_reads_messages:
  assumes "\<forall>m \<in> set ms. reads_back D br be m" "\<forall>m \<in> set ms. message_ok m"
  shows "run_spec (client_serve D) a (map (message_packet br be) ms) =
    (fold message_shown ms a, map (Inr \<circ> client_message_of) ms)"
  using assms by (induction ms arbitrary: a) (simp_all add: client_reads_message)

text \<open>After noise and one delimiter the client reads the messages of the daemon, in order.\<close>

theorem client_reads_stream:
  assumes "client_ok c" "\<forall>m \<in> set ms. reads_back D br be m" "payloads_fit br be" "\<forall>m \<in> set ms. message_ok m"
  shows "\<exists>c' outs a. feed (client_push D) c (noise @ [UART_DELIMITER] @ message_bytes br be ms) =
      Some (c', outs @ map (Inr \<circ> client_message_of) ms) \<and>
    client_ok c' \<and> rc_snapshot c' = fold message_shown ms a"
proof -
  have "client_shows c (rc_snapshot c)" using assms(1) by (simp add: client_shows_def)
  moreover have "\<forall>k \<in> set (map (message_packet br be) ms). packet_ok k" using message_packet_ok [OF assms(3)] by simp
  ultimately obtain c' outs qs where
    "feed (client.byte_step D) c (noise @ [UART_DELIMITER] @ concat (map uart_frame_bytes (map (message_packet br be) ms))) =
      Some (c', outs @ snd (run_spec (client_serve D) (fst (run_spec (client_serve D) (rc_snapshot c) qs))
        (map (message_packet br be) ms)))"
    "client_shows c' (fst (run_spec (client_serve D) (rc_snapshot c) (qs @ map (message_packet br be) ms)))"
    using client.noise_then_frames [of c "rc_snapshot c" "map (message_packet br be) ms" D noise] by blast
  then show ?thesis
    by (auto simp: client_push_framed message_bytes_def client_reads_messages [OF assms(2,4)] fst_run_spec_append
        client_shows_def)
qed

text \<open>At a frame boundary no message is lost.\<close>

lemma client_reads_frames:
  assumes "client_ok c" "decoder_pending (rc_decoder c) = Some []"
    and "\<forall>m \<in> set ms. reads_back D br be m" "payloads_fit br be"
    and "\<forall>m \<in> set ms. message_ok m"
  shows "\<exists>c'. feed (client_push D) c (message_bytes br be ms) = Some (c', map (Inr \<circ> client_message_of) ms) \<and>
    client_ok c' \<and> rc_snapshot c' = fold message_shown ms (rc_snapshot c) \<and> decoder_pending (rc_decoder c') = Some []"
proof -
  have "client_shows c (rc_snapshot c)" using assms(1) by (simp add: client_shows_def)
  moreover have "\<forall>k \<in> set (map (message_packet br be) ms). packet_ok k" using message_packet_ok [OF assms(4)] by simp
  ultimately obtain c' where
    "feed (client.byte_step D) c (concat (map uart_frame_bytes (map (message_packet br be) ms))) =
      Some (c', snd (run_spec (client_serve D) (rc_snapshot c) (map (message_packet br be) ms)))"
    "client_shows c' (fst (run_spec (client_serve D) (rc_snapshot c) (map (message_packet br be) ms)))"
    "decoder_pending (rc_decoder c') = Some []"
    using client.frames_refine [of c "rc_snapshot c" "map (message_packet br be) ms" D] assms(2) by blast
  then show ?thesis
    by (auto simp: client_push_framed message_bytes_def client_reads_messages [OF assms(3,5)] client_shows_def)
qed

section \<open>Encoding a command\<close>

definition written :: "('t \<Rightarrow> u8 list \<Rightarrow> ('pe + nat) \<times> u8 list) \<Rightarrow> 't \<Rightarrow> u8 list \<Rightarrow> u8 list \<Rightarrow> bool" where
  "written ser x buf content \<longleftrightarrow> (\<exists>n buf'. ser x buf = (Inr n, buf') \<and> content = take n buf')"

text \<open>The payload of a command: what its serializer writes into the encoder's buffer.\<close>

definition command_content :: "'pe request_serializers \<Rightarrow> u8 list \<Rightarrow> client_command \<Rightarrow> u8 list \<Rightarrow> bool" where
  "command_content S buf command =
     (case command of
        client_command.StartScan c \<Rightarrow> written (ser_scan S) c buf
      | client_command.Solve c \<Rightarrow> written (ser_solve S) c buf
      | client_command.Execute c \<Rightarrow> written (ser_execute S) c buf
      | client_command.ScanSolveExecute c \<Rightarrow> written (ser_auto S) c buf
      | client_command.Open c \<Rightarrow> written (ser_open S) c buf
      | client_command.ExecuteMoves c \<Rightarrow> written (ser_moves S) (serialize_execute_moves c) buf
      | _ \<Rightarrow> (\<lambda>content. content = []))"

definition command_packet :: "u32 \<Rightarrow> request_opcode \<Rightarrow> u8 list \<Rightarrow> packet" where
  "command_packet i opcode content = \<lparr> pkt_kind = message_kind.Request, pkt_opcode = request_u16 opcode,
     pkt_request_id = i, pkt_payload = content \<rparr>"

definition frames_as :: "u32 \<Rightarrow> request_opcode \<Rightarrow> (u8 list \<Rightarrow> bool) \<Rightarrow>
    (('pe frame_encode_error + u8 list) \<times> uart_frame_encoder) option \<Rightarrow> bool" where
  "frames_as i opcode P out \<longleftrightarrow> (\<exists>r e'. out = Some (r, e') \<and> encoder_ok e' \<and>
     (\<forall>frame. r = Inr frame \<longrightarrow> (\<exists>content. P content \<and> length content \<le> MAX_PAYLOAD_LEN \<and>
        frame = uart_frame_bytes (command_packet i opcode content))))"

lemma encode_empty_command:
  assumes "encoder_ok e"
  shows "frames_as i opcode (\<lambda>content. content = []) (encode_empty e message_kind.Request (request_u16 opcode) i)"
  using encode_raw_frame [OF assms, of 0 message_kind.Request "request_u16 opcode" i]
  by (auto simp: encode_empty_def frames_as_def command_packet_def)

lemma encode_frame_command:
  assumes "encoder_ok e" "serializer_ok ser"
  shows "frames_as i opcode (written ser x (enc_payload e)) (encode_frame ser e message_kind.Request (request_u16 opcode) i x)"
proof -
  obtain out buf where s: "ser x (enc_payload e) = (out, buf)" by fastforce
  then have buf: "length buf = length (enc_payload e)" "\<And>n. out = Inr n \<Longrightarrow> n \<le> length (enc_payload e)"
    using assms(2) unfolding serializer_ok_def by (metis fst_conv snd_conv)+
  have e: "encoder_ok (e\<lparr> enc_payload := buf \<rparr>)" using assms(1) buf(1) by (simp add: encoder_ok_def)
  show ?thesis
  proof (cases out)
    case (Inl err)
    then show ?thesis using s e by (simp add: encode_frame_def encode_payload_def frames_as_def)
  next
    case (Inr n)
    then have n: "n \<le> MAX_PAYLOAD_LEN" using buf(2) assms(1) by (simp add: encoder_ok_def)
    from encode_raw_frame [OF e n, of message_kind.Request "request_u16 opcode" i] obtain e' where
      "encode_frame ser e message_kind.Request (request_u16 opcode) i x =
        Some (Inr (uart_frame_bytes (command_packet i opcode (take n buf))), e')" "encoder_ok e'"
      using s Inr by (auto simp: encode_frame_def encode_payload_def command_packet_def)
    moreover have "written ser x (enc_payload e) (take n buf)" "length (take n buf) \<le> MAX_PAYLOAD_LEN"
      using s Inr n by (auto simp: written_def)
    ultimately show ?thesis unfolding frames_as_def by blast
  qed
qed

lemma client_frame_ok:
  assumes "encoder_ok e" "serializers_ok S"
  shows "frames_as i (client_opcode command) (command_content S (enc_payload e) command) (client_frame S e i command)"
  using assms by (cases command)
    (simp_all add: client_frame_def serializers_ok_def encode_empty_command encode_frame_command command_content_def
      del: request_u16.simps)

text \<open>
  Encoding always returns; a frame is a request with the client's next identifier, and the next one
  is the successor, never zero.
\<close>

lemma client_encode_ok:
  assumes "client_ok c" "serializers_ok S"
  shows "\<exists>r c'. client_encode S command c = Some (r, c') \<and> client_ok c' \<and>
    rc_decoder c' = rc_decoder c \<and> rc_snapshot c' = rc_snapshot c \<and>
    rc_next_request_id c' = (if rc_next_request_id c = - 1 then 1 else rc_next_request_id c + 1) \<and>
    (\<forall>i frame. r = Inr (i, frame) \<longrightarrow> i = rc_next_request_id c \<and>
       (\<exists>content. command_content S (enc_payload (rc_encoder c)) command content \<and> length content \<le> MAX_PAYLOAD_LEN \<and>
          frame = uart_frame_bytes (command_packet i (client_opcode command) content)))"
proof -
  let ?n = "rc_next_request_id c"
  have succ: "max (?n + 1) 1 = (if ?n = - 1 then 1 else ?n + 1)"
  proof (cases "?n = - 1")
    case False
    then have "?n + 1 \<noteq> 0" by (simp add: add_eq_0_iff2)
    then have "1 \<le> ?n + 1" by (simp add: word_le_nat_alt unat_gt_0 Suc_le_eq)
    then show ?thesis using False by (simp add: max_def)
  qed (simp add: max_def)
  have nz: "max (?n + 1) 1 \<noteq> 0" by (auto simp: max_def split: if_splits)
  obtain r e' where f: "client_frame S (rc_encoder c) ?n command = Some (r, e')" "encoder_ok e'"
    "\<And>frame. r = Inr frame \<Longrightarrow> \<exists>content. command_content S (enc_payload (rc_encoder c)) command content \<and>
      length content \<le> MAX_PAYLOAD_LEN \<and> frame = uart_frame_bytes (command_packet ?n (client_opcode command) content)"
    using client_frame_ok [OF _ assms(2)] assms(1) unfolding client_ok_def frames_as_def by blast
  then show ?thesis
    using assms(1) succ nz
    by (cases r; cases command) (auto simp: client_encode_def client_ok_def Let_def split: sum.splits)
qed

section \<open>A command and its answer\<close>

text \<open>
  The command's frame reaches the daemon, and what the daemon writes for it the client reads: first
  the response to the command, then the events, and the copy of the status follows them.
\<close>

theorem command_answered:
  assumes c: "client_ok c" "serializers_ok S" "client_encode S command c = Some (Inr (i, frame), c1)"
      "decoder_pending (rc_decoder c) = Some []"
    and d: "serving br be d (s, w)" "decoder_pending (dm_decoder d) = Some []" "service_reach B s"
  shows "\<exists>k r es s' d' c2. handle_packet B (delivered k) s =
        Some (service_message.Response r # map service_message.Event es, s') \<and>
      k = command_packet i (client_opcode command) (pkt_payload k) \<and>
      command_content S (enc_payload (rc_encoder c)) command (pkt_payload k) \<and> rsp_request_id r = i \<and>
      handle_bytes B (log_env br be) frame d = Some (Inr (), d') \<and> dm_service d' = s' \<and>
      dm_writer d' = Some (w @ message_bytes br be (service_message.Response r # map service_message.Event es)) \<and>
      ((\<forall>m \<in> set (service_message.Response r # map service_message.Event es). reads_back D br be m) \<longrightarrow>
        feed (client_push D) c1 (message_bytes br be (service_message.Response r # map service_message.Event es)) =
          Some (c2, map (Inr \<circ> client_message_of) (service_message.Response r # map service_message.Event es)) \<and>
        rc_snapshot c2 = map_option (fold updated es) (message_shown (service_message.Response r) (rc_snapshot c)))"
proof -
  obtain r c' where e: "client_encode S command c = Some (r, c')" "client_ok c'" "rc_decoder c' = rc_decoder c"
    "rc_snapshot c' = rc_snapshot c"
    "\<And>i frame. r = Inr (i, frame) \<Longrightarrow> i = rc_next_request_id c \<and>
      (\<exists>content. command_content S (enc_payload (rc_encoder c)) command content \<and> length content \<le> MAX_PAYLOAD_LEN \<and>
         frame = uart_frame_bytes (command_packet i (client_opcode command) content))"
    using client_encode_ok [OF c(1,2)] by metis
  then obtain content where e': "client_ok c1" "rc_decoder c1 = rc_decoder c" "rc_snapshot c1 = rc_snapshot c"
    "i = rc_next_request_id c"
    and content: "command_content S (enc_payload (rc_encoder c)) command content" "length content \<le> MAX_PAYLOAD_LEN"
      "frame = uart_frame_bytes (command_packet i (client_opcode command) content)"
    using c(3) by auto
  define k where "k = command_packet i (client_opcode command) content"
  have ok: "packet_ok k" using content(2) by (simp add: packet_ok_def k_def command_packet_def)
  have inv: "service_inv s" using service_reach_inv [OF d(3)] by blast
  obtain ms s' where s': "handle_packet B (delivered k) s = Some (ms, s')" using handle_packet_inv [OF inv] by blast
  obtain a es where t: "ms = service_message.Response a # map service_message.Event es" "fits a"
    using handle_packet_told [OF inv service_reach_told [OF d(3)] s'] by blast
  have "rsp_request_id a = i" using answer_first [OF inv s'] t(1) by (auto simp: k_def command_packet_def)
  moreover obtain d' where "handle_bytes B (log_env br be) (uart_frame_bytes k) d = Some (Inr (), d')"
    "dm_service d' = s'" "dm_writer d' = Some (w @ message_bytes br be ms)"
    using serves_frame [OF d(1,2) ok s'] by blast
  moreover have "i \<noteq> 0" using c(1) e'(4) by (simp add: client_ok_def)
  then have "\<forall>m \<in> set ms. message_ok m" using t \<open>rsp_request_id a = i\<close> by auto
  then have "\<exists>c2. (\<forall>m \<in> set ms. reads_back D br be m) \<longrightarrow>
    feed (client_push D) c1 (message_bytes br be ms) = Some (c2, map (Inr \<circ> client_message_of) ms) \<and>
    rc_snapshot c2 = fold message_shown ms (rc_snapshot c1)"
    using client_reads_frames [OF e'(1), of ms D br be] c(4) d(1) e'(2) unfolding serving_def by metis
  then obtain c2 where "(\<forall>m \<in> set ms. reads_back D br be m) \<longrightarrow>
    feed (client_push D) c1 (message_bytes br be ms) = Some (c2, map (Inr \<circ> client_message_of) ms) \<and>
    rc_snapshot c2 = fold message_shown ms (rc_snapshot c1)" by blast
  moreover have "fold message_shown (map service_message.Event es) x = map_option (fold updated es) x" for es x
    by (induction es arbitrary: x) (auto simp: option.map_comp option.map_id comp_def)
  ultimately show ?thesis
    using s' t(1) content e'(3)
    by (intro exI [of _ k] exI [of _ a] exI [of _ es] exI [of _ s'] exI [of _ d'] exI [of _ c2])
      (auto simp: k_def command_packet_def)
qed

section \<open>A command that is repeated\<close>

text \<open>A packet that was handled gets its response again, without any effect.\<close>

lemma handled_again:
  assumes "service_inv s" "svc_events s = []" "rp_request_id p \<noteq> 0" "handle_packet B p s = Some (msgs, s1)"
  shows "handle_packet B p s1 = Some ([hd msgs], s1)"
proof (cases "find (\<lambda>entry. rsp_request_id (cached_message entry) = rp_request_id p) (request_cache s)")
  case None
  obtain r where r: "hd msgs = service_message.Response r" "rsp_request_id r = rp_request_id p"
    "cached_within 0 \<lparr> cached_opcode = rp_opcode p, cached_message = r \<rparr> s1"
    using handled_cached [OF assms None] by blast
  have "service_inv s1" "svc_events s1 = []" using handle_packet_inv [OF assms(1), of B p] assms(4) by auto
  with cached_found [OF _ r(3)] r(1,2) show ?thesis by (simp add: handle_packet_def drain_events_def Let_def)
next
  case (Some entry)
  have "s1 = s" "tl msgs = []" "msgs \<noteq> []"
    using assms(2,4) Some by (auto simp: handle_packet_def drain_events_def Let_def)
  then show ?thesis using assms(4) by (cases msgs) auto
qed

lemma fst_run_spec: "fst (run_spec spec a (p # ps)) = fst (run_spec spec (fst (spec a p)) ps)"
  by (simp split: prod.split)

lemma message_bytes_simps:
  "message_bytes br be [] = []" "message_bytes br be (xs @ ys) = message_bytes br be xs @ message_bytes br be ys"
  "message_bytes br be (x # xs) = message_bytes br be [x] @ message_bytes br be xs"
  by (simp_all add: message_bytes_def)

lemma serve_repeated:
  assumes "service_inv s" "svc_events s = []" "pkt_request_id k \<noteq> 0"
    and "handle_packet B (delivered k) s = Some (service_message.Response r # ms, s')"
  shows "fst (run_spec (serve B br be) (s, w) (replicate (Suc n) k)) =
    (s', w @ message_bytes br be (service_message.Response r # ms @ replicate n (service_message.Response r)))"
proof -
  have again: "handle_packet B (delivered k) s' = Some ([service_message.Response r], s')"
    using handled_again [OF assms(1,2) _ assms(4)] assms(3) by simp
  have "fst (run_spec (serve B br be) (s', v) (replicate n k)) =
      (s', v @ message_bytes br be (replicate n (service_message.Response r)))" for v
  proof (induction n arbitrary: v)
    case (Suc n)
    have "fst (serve B br be (s', v) k) = (s', v @ message_bytes br be [service_message.Response r])"
      by (simp add: serve_def again)
    then show ?case
      by (simp only: replicate_Suc fst_run_spec Suc.IH) (subst message_bytes_simps(3), simp)
  qed (simp add: message_bytes_simps)
  moreover have "fst (serve B br be (s, w) k) = (s', w @ message_bytes br be (service_message.Response r # ms))"
    by (simp add: serve_def assms(4))
  ultimately show ?thesis
    by (simp only: replicate_Suc fst_run_spec) (simp add: message_bytes_simps(2) append_Cons [symmetric] del: append_Cons)
qed

lemma command_content_unique:
  "command_content S buf command content \<Longrightarrow> command_content S buf command content' \<Longrightarrow> content = content'"
  by (cases command) (auto simp: command_content_def written_def)

text \<open>Fewer bytes than the first frame has yield no message.\<close>

lemma client_reads_part:
  assumes "client_ok c" "decoder_pending (rc_decoder c) = Some []" "payloads_fit br be"
    and "n < length (message_bytes br be [m])"
  shows "\<exists>c'. feed (client_push D) c (take n (message_bytes br be (m # ms))) = Some (c', [])"
proof -
  obtain body where body: "uart_frame_bytes (message_packet br be m) = body @ [UART_DELIMITER]"
    "UART_DELIMITER \<notin> set body" "length body \<le> MAX_UART_FRAME_LEN - 1"
    using uart_frame_shape [OF message_packet_ok [OF assms(3)]] by blast
  then have "take n (message_bytes br be (m # ms)) = take n body" using assms(4) by (simp add: message_bytes_def)
  moreover have "client_shows c (rc_snapshot c)" using assms(1) by (simp add: client_shows_def)
  moreover have "UART_DELIMITER \<notin> set (take n body)" "length (take n body) \<le> MAX_UART_FRAME_LEN - 1"
    using body(2,3) in_set_takeD by fastforce+
  ultimately show ?thesis
    using client.body_silent [of c "rc_snapshot c" "[]" "take n body" D] assms(2) by (auto simp: client_push_framed)
qed

text \<open>The daemon answers every repetition of a command's frame with the same response.\<close>

lemma command_repeated:
  assumes c: "client_ok c" "serializers_ok S" "client_encode S command c = Some (Inr (i, frame), c1)"
      "decoder_pending (rc_decoder c) = Some []"
    and d: "serving br be d (s, w)" "decoder_pending (dm_decoder d) = Some []" "service_reach B s"
  shows "\<exists>k r es s'. handle_packet B (delivered k) s =
        Some (service_message.Response r # map service_message.Event es, s') \<and>
      k = command_packet i (client_opcode command) (pkt_payload k) \<and>
      command_content S (enc_payload (rc_encoder c)) command (pkt_payload k) \<and> rsp_request_id r = i \<and>
      (\<forall>n. \<exists>d'. handle_bytes B (log_env br be) (concat (replicate (Suc n) frame)) d = Some (Inr (), d') \<and> dm_service d' = s' \<and>
        dm_writer d' = Some (w @ message_bytes br be
          (service_message.Response r # map service_message.Event es @ replicate n (service_message.Response r))))"
proof -
  obtain k r es s' where *: "handle_packet B (delivered k) s = Some (service_message.Response r # map service_message.Event es, s')"
    "k = command_packet i (client_opcode command) (pkt_payload k)"
    "command_content S (enc_payload (rc_encoder c)) command (pkt_payload k)" "rsp_request_id r = i"
    using command_answered [OF assms] by blast
  obtain content where content: "command_content S (enc_payload (rc_encoder c)) command content"
    "length content \<le> MAX_PAYLOAD_LEN" "frame = uart_frame_bytes (command_packet i (client_opcode command) content)"
    "i \<noteq> 0"
    using client_encode_ok [OF c(1,2), of command] c(1,3) by (auto simp: client_ok_def)
  then have frame: "frame = uart_frame_bytes k" and ok: "packet_ok k" and "pkt_request_id k \<noteq> 0"
    using *(2) command_content_unique [OF *(3) content(1)] by (auto simp: packet_ok_def command_packet_def)
  moreover have "service_inv s" "svc_events s = []" using service_reach_inv [OF d(3)] by auto
  ultimately have served: "fst (run_spec (serve B br be) (s, w) (replicate (Suc n) k)) =
      (s', w @ message_bytes br be (service_message.Response r # map service_message.Event es @ replicate n (service_message.Response r)))" for n
    using serve_repeated [OF _ _ _ *(1)] by blast
  have "\<exists>d'. handle_bytes B (log_env br be) (concat (replicate (Suc n) frame)) d = Some (Inr (), d') \<and>
      serving br be d' (fst (run_spec (serve B br be) (s, w) (replicate (Suc n) k)))" for n
  proof -
    have "\<forall>p \<in> set (replicate (Suc n) k). packet_ok p" using ok by simp
    from served.frames_refine [OF d(1,2) this, where B = B] obtain d' where
      "feed (framed push dm_decoder (\<lambda>c d. d\<lparr> dm_decoder := c \<rparr>) (daemon_handle B (log_env br be))) d
        (concat (map uart_frame_bytes (replicate (Suc n) k))) = Some (d', snd (run_spec (serve B br be) (s, w) (replicate (Suc n) k)))"
      "serving br be d' (fst (run_spec (serve B br be) (s, w) (replicate (Suc n) k)))"
      by blast
    with handle_bytes_feed [OF d(1) this(1)] show ?thesis by (auto simp: frame)
  qed
  then show ?thesis using * unfolding served serving_def by (metis fst_conv snd_conv)
qed

end
