(* ===== verification/RobotCtl.thy ===== *)
theory RobotCtl
  imports ClientLink Notation
begin

unbundle bit_operations_syntax

text \<open>
  \<open>src/bin/rubik-robotctl.rs\<close>: one command from the command line. The command is encoded once, its frame
  is written and repeated until a response arrives, and the messages of the robot decide the result. An
  iteration of the waiting loop takes the instants its clock reads, what the reader thread delivered
  and whether a write worked; instants are milliseconds. Argument parsing, the serial device and the
  layout of the printed text are the environment.
\<close>

section \<open>Commands\<close>

datatype control_command = Status | Recover | Grip | Abort | Moves u32 string

definition parse_moves :: "u32 \<Rightarrow> string \<Rightarrow> (singmaster_error + execute_moves_command) option" where
  "parse_moves session sequence = do {
     r \<leftarrow> parse_singmaster sequence;
     Some (case r of
         Inl e \<Rightarrow> Inl e
       | Inr (moves, move_count) \<Rightarrow>
           Inr \<lparr> em_session_id = session, em_moves = moves, em_move_count = move_count \<rparr>) }"

fun protocol_command :: "control_command \<Rightarrow> (singmaster_error + client_command) option" where
  "protocol_command Status = Some (Inr client_command.GetStatus)"
| "protocol_command Recover = Some (Inr client_command.RecoverToOpen)"
| "protocol_command Grip = Some (Inr client_command.Grip)"
| "protocol_command Abort = Some (Inr client_command.Abort)"
| "protocol_command (Moves session sequence) = do {
     r \<leftarrow> parse_moves session sequence;
     Some (map_sum id client_command.ExecuteMoves r) }"

fun may_move_stand :: "control_command \<Rightarrow> bool" where
  "may_move_stand Recover \<longleftrightarrow> True"
| "may_move_stand Grip \<longleftrightarrow> True"
| "may_move_stand (Moves _ _) \<longleftrightarrow> True"
| "may_move_stand _ \<longleftrightarrow> False"

fun command_name :: "control_command \<Rightarrow> string" where
  "command_name Status = ''status''"
| "command_name Recover = ''recover''"
| "command_name Grip = ''grip''"
| "command_name Abort = ''abort''"
| "command_name (Moves _ _) = ''moves''"

text \<open>The first request identifier, from the hash of the time and the process.\<close>

definition initial_request_id :: "64 word \<Rightarrow> u32" where
  "initial_request_id hash = max (ucast hash AND 0x7fffffff) 1"

section \<open>Waiting for the result\<close>

datatype 'pe control_error =
    NeedsConfirmation string
  | BadMoves singmaster_error
  | NotEncoded "'pe client_error"
  | SendFailed
  | TimedOut u32
  | ReaderFailed string
  | ReaderStopped
  | RejectedBy rejection_reason controller_state
  | RobotFaulted robot_fault

definition RETRY_INTERVAL :: nat where
  "RETRY_INTERVAL = 500"

text \<open>A write is kept with the instants read before and after it.\<close>

record 'pe ctl_wait =
  cw_client :: robot_client
  cw_next_retry :: nat
  cw_response_received :: bool
  cw_accepted_operation :: "u32 option"
  cw_retries :: "(nat \<times> u8 list \<times> nat) list"
  cw_printed :: "('pe client_error + client_message) list"

record ctl_request =
  rq_frame :: "u8 list"
  rq_id :: u32
  rq_command :: control_command
  rq_deadline :: nat

type_synonym 'pe ctl_result = "'pe control_error + unit"

definition ctl_message :: "ctl_request \<Rightarrow> client_message \<Rightarrow> 'pe ctl_wait \<Rightarrow> 'pe ctl_result option \<times> 'pe ctl_wait" where
  "ctl_message R message w =
     (case message of
        client_message.Response (client_response.Status response_id _) \<Rightarrow>
          (if response_id = rq_id R \<and> rq_command R = Status then Some (Inr ()) else None, w)
      | client_message.Response (client_response.Rejected response_id reason controller) \<Rightarrow>
          (if response_id = rq_id R then Some (Inl (RejectedBy reason controller)) else None, w)
      | client_message.Response (client_response.Accepted response_id operation_id) \<Rightarrow>
          if response_id = rq_id R then
            (if operation_id = None \<and> rq_command R \<noteq> Abort then Some (Inr ()) else None,
             w\<lparr> cw_response_received := True, cw_accepted_operation := operation_id \<rparr>)
          else (None, w)
      | client_message.Event (client_event.OperationCompleted operation_id _) \<Rightarrow>
          (if cw_accepted_operation w = Some operation_id then Some (Inr ()) else None, w)
      | client_message.Event (client_event.Aborted _) \<Rightarrow>
          (if rq_command R = Abort then Some (Inr ()) else None, w)
      | client_message.Event (client_event.Fault _ fault) \<Rightarrow> (Some (Inl (RobotFaulted fault)), w)
      | _ \<Rightarrow> (None, w))"

definition print_out :: "'pe client_error + client_message \<Rightarrow> 'pe ctl_wait \<Rightarrow> 'pe ctl_wait" where
  "print_out m w = w\<lparr> cw_printed := cw_printed w @ [m] \<rparr>"

fun ctl_bytes :: "'pe client_decoders \<Rightarrow> ctl_request \<Rightarrow> u8 list \<Rightarrow> 'pe ctl_wait \<Rightarrow>
    ('pe ctl_result option \<times> 'pe ctl_wait) option" where
  "ctl_bytes D R [] w = Some (None, w)"
| "ctl_bytes D R (byte # bytes) w = do {
     (client, out) \<leftarrow> client_push D (cw_client w) byte;
     let w = w\<lparr> cw_client := client \<rparr> in
     case out of
       None \<Rightarrow> ctl_bytes D R bytes w
     | Some (Inl e) \<Rightarrow> ctl_bytes D R bytes (print_out (Inl e) w)
     | Some (Inr m) \<Rightarrow>
         (case ctl_message R m (print_out (Inr m) w) of
            (None, w) \<Rightarrow> ctl_bytes D R bytes w
          | (Some r, w) \<Rightarrow> Some (Some r, w)) }"

datatype receipt = Received "u8 list" | ReadError string | Timeout | Disconnected

text \<open>
  One iteration: the instants of the deadline check and of the retry computation, what
  \<open>recv_timeout\<close> returned, the instant after it, and for a retry whether it was written and the instant
  after that.
\<close>

record wait_input =
  wi_check :: nat
  wi_plan :: nat
  wi_receipt :: receipt
  wi_after :: nat
  wi_written :: bool
  wi_sent :: nat

definition receive_for :: "ctl_request \<Rightarrow> wait_input \<Rightarrow> 'pe ctl_wait \<Rightarrow> nat" where
  "receive_for R i w =
     (let remaining = rq_deadline R - wi_check i in
      if cw_response_received w then remaining else min remaining (cw_next_retry w - wi_plan i))"

definition wait_step :: "'pe client_decoders \<Rightarrow> ctl_request \<Rightarrow> wait_input \<Rightarrow> 'pe ctl_wait \<Rightarrow>
    ('pe ctl_result option \<times> 'pe ctl_wait) option" where
  "wait_step D R i w =
     (if rq_deadline R - wi_check i = 0 then Some (Some (Inl (TimedOut (rq_id R))), w)
      else case wi_receipt i of
        Received bytes \<Rightarrow> ctl_bytes D R bytes w
      | ReadError e \<Rightarrow> Some (Some (Inl (ReaderFailed e)), w)
      | Timeout \<Rightarrow>
          if \<not> cw_response_received w \<and> wi_after i < rq_deadline R then
            if wi_written i then Some (None, w\<lparr> cw_next_retry := wi_sent i + RETRY_INTERVAL,
                cw_retries := cw_retries w @ [(wi_after i, rq_frame R, wi_sent i)] \<rparr>)
            else Some (Some (Inl SendFailed), w)
          else Some (Some (Inl (TimedOut (rq_id R))), w)
      | Disconnected \<Rightarrow> Some (Some (Inl ReaderStopped), w))"

text \<open>The loop; its result is \<open>None\<close> while it still waits.\<close>

fun wait_loop :: "'pe client_decoders \<Rightarrow> ctl_request \<Rightarrow> wait_input list \<Rightarrow> 'pe ctl_wait \<Rightarrow>
    ('pe ctl_result option \<times> 'pe ctl_wait) option" where
  "wait_loop D R [] w = Some (None, w)"
| "wait_loop D R (i # is) w = do {
     (r, w) \<leftarrow> wait_step D R i w;
     case r of None \<Rightarrow> wait_loop D R is w | Some r \<Rightarrow> Some (Some r, w) }"

definition new_wait :: "robot_client \<Rightarrow> nat \<Rightarrow> 'pe ctl_wait" where
  "new_wait c now = \<lparr> cw_client = c, cw_next_retry = now + RETRY_INTERVAL, cw_response_received = False,
     cw_accepted_operation = None, cw_retries = [], cw_printed = [] \<rparr>"

text \<open>The two first instants set the deadline and the time of the first retry.\<close>

definition wait_for_result :: "'pe client_decoders \<Rightarrow> robot_client \<Rightarrow> u8 list \<Rightarrow> u32 \<Rightarrow> control_command \<Rightarrow> nat \<Rightarrow>
    nat \<Rightarrow> nat \<Rightarrow> wait_input list \<Rightarrow> ('pe ctl_result option \<times> 'pe ctl_wait) option" where
  "wait_for_result D c sent_frame rid command timeout now0 now1 is =
     wait_loop D \<lparr> rq_frame = sent_frame, rq_id = rid, rq_command = command, rq_deadline = now0 + timeout \<rparr>
       is (new_wait c now1)"

text \<open>
  \<open>main\<close> after the arguments are read and with the serial device open: the guard, the command, the first
  write and the wait.
\<close>

datatype 'pe ctl_run = NothingSent "'pe control_error" | Sent "u8 list" "'pe ctl_result option" "'pe ctl_wait"

definition run_robotctl :: "'pe request_serializers \<Rightarrow> 'pe client_decoders \<Rightarrow> 64 word \<Rightarrow> bool \<Rightarrow> control_command \<Rightarrow> nat \<Rightarrow>
    bool \<Rightarrow> nat \<Rightarrow> nat \<Rightarrow> wait_input list \<Rightarrow> 'pe ctl_run option" where
  "run_robotctl S D hash confirmed command timeout sent now0 now1 is =
     (if may_move_stand command \<and> \<not> confirmed then Some (NothingSent (NeedsConfirmation (command_name command)))
      else do {
        protocol \<leftarrow> protocol_command command;
        case protocol of
          Inl e \<Rightarrow> Some (NothingSent (BadMoves e))
        | Inr request \<Rightarrow> do {
            (encoded, client) \<leftarrow> client_encode S request (with_initial_request_id (initial_request_id hash));
            case encoded of
              Inl e \<Rightarrow> Some (NothingSent (NotEncoded e))
            | Inr (rid, frame) \<Rightarrow>
                if \<not> sent then Some (NothingSent SendFailed)
                else do {
                  (r, w) \<leftarrow> wait_for_result D client frame rid command timeout now0 now1 is;
                  Some (Sent frame r w) } } })"

end
