(* ===== verification/RobotCtlSafety.thy ===== *)
theory RobotCtlSafety
  imports RobotCtl
begin

text \<open>
  The waiting loop of \<open>rubik-robotctl\<close>: it ends at the deadline, its retries are spaced by the retry
  interval and stop at the response, and its result is the one the messages of the robot decide.
\<close>

section \<open>Bytes and messages\<close>

text \<open>The loop over bytes acts on the messages that the client's decoder yields.\<close>

fun ctl_outs :: "ctl_request \<Rightarrow> ('pe client_error + client_message) list \<Rightarrow> 'pe ctl_wait \<Rightarrow>
    'pe ctl_result option \<times> 'pe ctl_wait" where
  "ctl_outs R [] w = (None, w)"
| "ctl_outs R (Inl e # outs) w = ctl_outs R outs (print_out (Inl e) w)"
| "ctl_outs R (Inr m # outs) w =
     (case ctl_message R m (print_out (Inr m) w) of
        (None, w) \<Rightarrow> ctl_outs R outs w
      | r \<Rightarrow> r)"

definition at_client :: "robot_client \<Rightarrow> 'pe ctl_result option \<times> 'pe ctl_wait \<Rightarrow> 'pe ctl_result option \<times> 'pe ctl_wait" where
  "at_client c x = (fst x, (snd x)\<lparr> cw_client := c \<rparr>)"

lemma at_client_simps [simp]:
  "at_client c (at_client c' x) = at_client c x" "at_client c (r, w) = (r, w\<lparr> cw_client := c \<rparr>)"
  by (simp_all add: at_client_def)

lemma client_push_total:
  assumes "client_ok c"
  shows "\<exists>c' out. client_push D c b = Some (c', out) \<and> client_ok c'"
  using client.byte_refines [of c "rc_snapshot c" D b] assms by (fastforce simp: client_push_framed client_shows_def)

lemma client_feed_total: "client_ok c \<Longrightarrow> \<exists>c' outs. feed (client_push D) c bytes = Some (c', outs) \<and> client_ok c'"
proof (induction bytes arbitrary: c)
  case (Cons b bytes)
  obtain c1 out where "client_push D c b = Some (c1, out)" "client_ok c1"
    using client_push_total [OF Cons.prems] by blast
  with Cons.IH [of c1] show ?case by auto
qed simp

lemma print_out_fields [simp]:
  "cw_client (print_out m w) = cw_client w" "cw_retries (print_out m w) = cw_retries w"
  "cw_next_retry (print_out m w) = cw_next_retry w" "cw_printed (print_out m w) = cw_printed w @ [m]"
  "cw_response_received (print_out m w) = cw_response_received w"
  "cw_accepted_operation (print_out m w) = cw_accepted_operation w"
  "print_out m (w\<lparr> cw_client := c \<rparr>) = (print_out m w)\<lparr> cw_client := c \<rparr>"
  by (simp_all add: print_out_def)

lemma ctl_message_client [simp]:
  "ctl_message R m (w\<lparr> cw_client := c \<rparr>) = at_client c (ctl_message R m w)"
  by (auto simp: ctl_message_def at_client_def split: client_message.split client_response.split client_event.split)

lemma ctl_outs_client [simp]:
  "ctl_outs R outs (w\<lparr> cw_client := c \<rparr>) = at_client c (ctl_outs R outs w)"
  by (induction R outs w rule: ctl_outs.induct) (auto split: prod.splits option.splits)

text \<open>Messages leave the clock and the writes alone, and a response stays received.\<close>

definition kept :: "'pe ctl_wait \<Rightarrow> 'pe ctl_wait \<Rightarrow> bool" where
  "kept w w' \<longleftrightarrow> cw_retries w' = cw_retries w \<and> cw_next_retry w' = cw_next_retry w \<and>
     (cw_response_received w \<longrightarrow> cw_response_received w')"

lemma kept_simps [simp]: "kept w w" "kept w (print_out m w)" "kept w (w'\<lparr> cw_client := c \<rparr>) = kept w w'"
  by (simp_all add: kept_def)

lemma kept_trans: "kept u v \<Longrightarrow> kept v w \<Longrightarrow> kept u w"
  by (simp add: kept_def)

lemma ctl_message_kept: "kept w (snd (ctl_message R m w))"
  by (auto simp: ctl_message_def kept_def split: client_message.split client_response.split client_event.split)

lemma ctl_message_printed [simp]: "cw_printed (snd (ctl_message R m w)) = cw_printed w"
  by (auto simp: ctl_message_def split: client_message.split client_response.split client_event.split)

lemma ctl_outs_kept: "kept w (snd (ctl_outs R outs w))"
proof (induction R outs w rule: ctl_outs.induct)
  case (2 R e outs w)
  then show ?case using kept_trans [OF kept_simps(2)] by simp
next
  case (3 R m outs w)
  obtain r1 w1 where m: "ctl_message R m (print_out (Inr m) w) = (r1, w1)" by fastforce
  have "kept w w1" using ctl_message_kept [of "print_out (Inr m) w" R m] kept_trans [OF kept_simps(2)] m by simp
  then show ?case using 3 [OF m [symmetric]] kept_trans m by (cases r1) auto
qed simp

lemma ctl_bytes_outs:
  assumes "client_ok (cw_client w)"
  shows "\<exists>c outs. client_ok c \<and> ctl_bytes D R bytes w =
    Some (at_client c (ctl_outs R outs w))"
  using assms
proof (induction bytes arbitrary: w)
  case Nil
  then show ?case by (intro exI [of _ "cw_client w"] exI [of _ "[]"]) simp
next
  case (Cons b bytes)
  obtain c out where p: "client_push D (cw_client w) b = Some (c, out)" "client_ok c"
    using client_push_total [OF Cons.prems] by blast
  have IH: "\<exists>c' outs. client_ok c' \<and> ctl_bytes D R bytes (v\<lparr> cw_client := c \<rparr>) =
      Some (at_client c' (ctl_outs R outs v))" for v
    using Cons.IH [of "v\<lparr> cw_client := c \<rparr>"] p(2) by simp
  consider "out = None" | e where "out = Some (Inl e)" | m where "out = Some (Inr m)"
    by (metis not_Some_eq sum.exhaust)
  then show ?case
  proof cases
    case 1
    then show ?thesis using IH [of w] p by simp
  next
    case (2 e)
    obtain c' outs where "client_ok c'" "ctl_bytes D R bytes ((print_out (Inl e) w)\<lparr> cw_client := c \<rparr>) =
        Some (at_client c' (ctl_outs R outs (print_out (Inl e) w)))"
      using IH by blast
    then show ?thesis using p 2 by (intro exI [of _ c'] exI [of _ "Inl e # outs"]) simp
  next
    case (3 m)
    obtain r1 w1 where m: "ctl_message R m (print_out (Inr m) w) = (r1, w1)" by fastforce
    show ?thesis
    proof (cases r1)
      case None
      obtain c' outs where "client_ok c'" "ctl_bytes D R bytes (w1\<lparr> cw_client := c \<rparr>) =
          Some (at_client c' (ctl_outs R outs w1))"
        using IH by blast
      then show ?thesis using p 3 m None by (intro exI [of _ c'] exI [of _ "Inr m # outs"]) simp
    next
      case (Some r)
      then show ?thesis using p 3 m by (intro exI [of _ c] exI [of _ "[Inr m]"]) simp
    qed
  qed
qed

text \<open>With a decoder that yields the messages \<open>outs\<close>, they are the ones the loop acts on.\<close>

lemma ctl_bytes_feed:
  assumes "feed (client_push D) (cw_client w) bytes = Some (c, outs)"
  shows "\<exists>c'. ctl_bytes D R bytes w = Some (at_client c' (ctl_outs R outs w))"
  using assms
proof (induction bytes arbitrary: w c outs)
  case Nil
  then show ?case by (intro exI [of _ "cw_client w"]) auto
next
  case (Cons b bytes)
  then obtain c1 out outs1 where p: "client_push D (cw_client w) b = Some (c1, out)"
    "feed (client_push D) c1 bytes = Some (c, outs1)" "outs = (case out of None \<Rightarrow> outs1 | Some r \<Rightarrow> r # outs1)"
    by (auto split: Option.bind_splits)
  have IH: "\<exists>c'. ctl_bytes D R bytes (v\<lparr> cw_client := c1 \<rparr>) =
      Some (at_client c' (ctl_outs R outs1 v))" for v
    using Cons.IH [of "v\<lparr> cw_client := c1 \<rparr>"] p(2) by simp
  consider "out = None" | e where "out = Some (Inl e)" | m where "out = Some (Inr m)"
    by (metis not_Some_eq sum.exhaust)
  then show ?case
  proof cases
    case 1
    then show ?thesis using IH [of w] p by simp
  next
    case (2 e)
    then show ?thesis using IH [of "print_out (Inl e) w"] p by simp
  next
    case (3 m)
    obtain r1 w1 where m: "ctl_message R m (print_out (Inr m) w) = (r1, w1)" by fastforce
    show ?thesis
    proof (cases r1)
      case None
      then show ?thesis using IH [of w1] p 3 m by simp
    next
      case (Some r)
      then show ?thesis using p 3 m by (intro exI [of _ c1]) simp
    qed
  qed
qed

section \<open>The loop ends\<close>

lemma ctl_bytes_total:
  assumes "client_ok (cw_client w)"
  shows "\<exists>r w'. ctl_bytes D R bytes w = Some (r, w') \<and> client_ok (cw_client w') \<and> kept w w'"
proof -
  obtain c outs where c: "client_ok c" "ctl_bytes D R bytes w = Some (at_client c (ctl_outs R outs w))"
    using ctl_bytes_outs [OF assms] by blast
  obtain r w' where "ctl_outs R outs w = (r, w')" by fastforce
  then show ?thesis using c ctl_outs_kept [of w R outs] by simp
qed

lemma wait_step_total:
  assumes "client_ok (cw_client w)"
  shows "\<exists>r w'. wait_step D R i w = Some (r, w') \<and> client_ok (cw_client w')"
  using ctl_bytes_total [OF assms, of D R] assms
  by (cases "wi_receipt i") (auto simp: wait_step_def, fastforce)

lemma wait_loop_total:
  "client_ok (cw_client w) \<Longrightarrow> \<exists>r w'. wait_loop D R is w = Some (r, w') \<and> client_ok (cw_client w')"
proof (induction "is" arbitrary: w)
  case (Cons i "is")
  obtain r w1 where w1: "wait_step D R i w = Some (r, w1)" "client_ok (cw_client w1)"
    using wait_step_total [OF Cons.prems] by blast
  then show ?case using Cons.IH [OF w1(2)] by (cases r) auto
qed simp

lemma wait_loop_ends:
  "i \<in> set is \<Longrightarrow> rq_deadline R \<le> wi_check i \<Longrightarrow> wait_loop D R is w = Some (r, w') \<Longrightarrow> r \<noteq> None"
proof (induction "is" arbitrary: w)
  case (Cons j "is")
  then obtain r1 w1 where w1: "wait_step D R j w = Some (r1, w1)" by (auto split: Option.bind_splits)
  show ?case
  proof (cases "j = i")
    case True
    then show ?thesis using Cons.prems by (auto simp: wait_step_def)
  next
    case False
    then show ?thesis using Cons w1 by (cases r1) auto
  qed
qed simp

section \<open>Retries\<close>

text \<open>The clock does not run backwards, and a wait that times out has waited.\<close>

fun timely :: "'pe client_decoders \<Rightarrow> ctl_request \<Rightarrow> nat \<Rightarrow> wait_input list \<Rightarrow> 'pe ctl_wait \<Rightarrow> bool" where
  "timely D R now [] w \<longleftrightarrow> True"
| "timely D R now (i # is) w \<longleftrightarrow>
     now \<le> wi_check i \<and> wi_check i \<le> wi_plan i \<and> wi_plan i \<le> wi_after i \<and> wi_after i \<le> wi_sent i \<and>
     (wi_receipt i = Timeout \<longrightarrow> wi_plan i + receive_for R i w \<le> wi_after i) \<and>
     (case wait_step D R i w of
        Some (None, w) \<Rightarrow> timely D R (wi_sent i) is w
      | _ \<Rightarrow> True)"

text \<open>Writes that start no earlier than \<open>from\<close> and than the retry interval after the one before, all before the deadline.\<close>

fun spaced :: "ctl_request \<Rightarrow> nat \<Rightarrow> (nat \<times> u8 list \<times> nat) list \<Rightarrow> bool" where
  "spaced R start [] \<longleftrightarrow> True"
| "spaced R start ((began, bytes, ended) # rs) \<longleftrightarrow> start \<le> began \<and> began \<le> ended \<and> began < rq_deadline R \<and>
     bytes = rq_frame R \<and> spaced R (ended + RETRY_INTERVAL) rs"

fun next_write :: "nat \<Rightarrow> (nat \<times> u8 list \<times> nat) list \<Rightarrow> nat" where
  "next_write start [] = start"
| "next_write start ((began, bytes, ended) # rs) = next_write (ended + RETRY_INTERVAL) rs"

lemma spaced_snoc:
  "spaced R start (rs @ [(began, bytes, ended)]) \<longleftrightarrow>
     spaced R start rs \<and> next_write start rs \<le> began \<and> began \<le> ended \<and> began < rq_deadline R \<and> bytes = rq_frame R"
  by (induction R start rs rule: spaced.induct) auto

lemma next_write_snoc: "next_write start (rs @ [(began, bytes, ended)]) = ended + RETRY_INTERVAL"
  by (induction start rs rule: next_write.induct) auto

lemma spaced_bound: "spaced R start rs \<Longrightarrow> rs \<noteq> [] \<Longrightarrow> start + RETRY_INTERVAL * (length rs - 1) < rq_deadline R"
proof (induction R start rs rule: spaced.induct)
  case (2 R start began bytes ended rs)
  then show ?case by (cases rs) auto
qed simp

definition retries_ok :: "ctl_request \<Rightarrow> nat \<Rightarrow> 'pe ctl_wait \<Rightarrow> bool" where
  "retries_ok R start w \<longleftrightarrow> spaced R start (cw_retries w) \<and> cw_next_retry w = next_write start (cw_retries w)"

lemma retries_ok_kept: "kept w w' \<Longrightarrow> retries_ok R start w \<Longrightarrow> retries_ok R start w'"
  by (simp add: kept_def retries_ok_def)

lemma wait_step_retries:
  assumes "client_ok (cw_client w)" "retries_ok R start w" "timely D R now (i # is) w" "wait_step D R i w = Some (r, w')"
  shows "retries_ok R start w' \<and> (cw_response_received w \<longrightarrow> cw_response_received w' \<and> cw_retries w' = cw_retries w)"
proof (cases "rq_deadline R - wi_check i = 0 \<or> wi_receipt i \<noteq> Timeout")
  case True
  moreover have "kept w w'" if "ctl_bytes D R bytes w = Some (r, w')" for bytes
    using ctl_bytes_total [OF assms(1), of D R bytes] that by auto
  ultimately have "kept w w'"
    using assms(4) by (auto simp: wait_step_def split: if_splits receipt.splits)
  then show ?thesis using retries_ok_kept [OF _ assms(2)] by (simp add: kept_def)
next
  case False
  then have t: "wi_receipt i = Timeout" "wi_check i < rq_deadline R" by auto
  show ?thesis
  proof (cases "\<not> cw_response_received w \<and> wi_after i < rq_deadline R \<and> wi_written i")
    case True
    then have w': "w' = w\<lparr> cw_next_retry := wi_sent i + RETRY_INTERVAL,
        cw_retries := cw_retries w @ [(wi_after i, rq_frame R, wi_sent i)] \<rparr>"
      using assms(4) t by (auto simp: wait_step_def)
    have "cw_next_retry w \<le> wi_after i"
      using assms(3) t True by (auto simp: receive_for_def Let_def min_def split: if_splits)
    then show ?thesis
      using assms(2,3) True by (simp add: w' retries_ok_def spaced_snoc next_write_snoc)
  next
    case False
    then show ?thesis using assms(2,4) t by (auto simp: wait_step_def split: if_splits)
  qed
qed

lemma wait_loop_retries:
  "client_ok (cw_client w) \<Longrightarrow> retries_ok R start w \<Longrightarrow> timely D R now is w \<Longrightarrow> wait_loop D R is w = Some (r, w') \<Longrightarrow>
     retries_ok R start w' \<and> (cw_response_received w \<longrightarrow> cw_retries w' = cw_retries w)"
proof (induction "is" arbitrary: w now)
  case (Cons i "is")
  obtain r1 w1 where w1: "wait_step D R i w = Some (r1, w1)" "client_ok (cw_client w1)"
    using wait_step_total [OF Cons.prems(1)] by blast
  note step = wait_step_retries [OF Cons.prems(1-3) w1(1)]
  show ?case
  proof (cases r1)
    case None
    then show ?thesis using Cons.IH [OF w1(2), of "wi_sent i"] Cons.prems(3,4) w1(1) step by auto
  next
    case (Some x)
    then show ?thesis using Cons.prems(4) w1(1) step by auto
  qed
qed simp

section \<open>The result\<close>

text \<open>
  What the messages read so far say: whether this request was accepted, and the operation that the last
  acceptance of it named.
\<close>

definition responded :: "ctl_request \<Rightarrow> ('pe client_error + client_message) list \<Rightarrow> bool" where
  "responded R ms \<longleftrightarrow> (\<exists>x. Inr (client_message.Response (client_response.Accepted (rq_id R) x)) \<in> set ms)"

fun operation_after :: "ctl_request \<Rightarrow> 'pe client_error + client_message \<Rightarrow> u32 option \<Rightarrow> u32 option" where
  "operation_after R (Inr (client_message.Response (client_response.Accepted i operation))) known =
     (if i = rq_id R then operation else known)"
| "operation_after R _ known = known"

definition operation_named :: "ctl_request \<Rightarrow> ('pe client_error + client_message) list \<Rightarrow> u32 option" where
  "operation_named R ms = fold (operation_after R) ms None"

text \<open>The message \<open>m\<close>, read after the messages \<open>ms\<close>, decides the result.\<close>

inductive decided :: "ctl_request \<Rightarrow> ('pe client_error + client_message) list \<Rightarrow> client_message \<Rightarrow> 'pe ctl_result \<Rightarrow> bool"
  for R ms where
  status: "rq_command R = Status \<Longrightarrow> decided R ms (client_message.Response (client_response.Status (rq_id R) st)) (Inr ())"
| refused: "decided R ms (client_message.Response (client_response.Rejected (rq_id R) reason controller))
    (Inl (RejectedBy reason controller))"
| at_once: "rq_command R \<noteq> Abort \<Longrightarrow>
    decided R ms (client_message.Response (client_response.Accepted (rq_id R) None)) (Inr ())"
| completed: "operation_named R ms = Some operation \<Longrightarrow>
    decided R ms (client_message.Event (client_event.OperationCompleted operation k)) (Inr ())"
| aborted: "rq_command R = Abort \<Longrightarrow> decided R ms (client_message.Event (client_event.Aborted x)) (Inr ())"
| faulted: "decided R ms (client_message.Event (client_event.Fault x fault)) (Inl (RobotFaulted fault))"

inductive_simps decided_simps [simp]:
  "decided R ms (client_message.Response (client_response.Status i st)) r"
  "decided R ms (client_message.Response (client_response.Rejected i reason controller)) r"
  "decided R ms (client_message.Response (client_response.Accepted i operation)) r"
  "decided R ms (client_message.Event (client_event.OperationCompleted operation k)) r"
  "decided R ms (client_message.Event (client_event.Aborted x)) r"
  "decided R ms (client_message.Event (client_event.Fault x fault)) r"
  "decided R ms (client_message.Event e) r"

text \<open>No message of \<open>ms\<close> decides the result after those before it.\<close>

definition undecided :: "ctl_request \<Rightarrow> ('pe client_error + client_message) list \<Rightarrow> bool" where
  "undecided R ms \<longleftrightarrow> (\<forall>before m after. ms = before @ Inr m # after \<longrightarrow> (\<forall>r. \<not> decided R before m r))"

lemma undecided_Nil [simp]: "undecided R []"
  by (simp add: undecided_def)

lemma undecided_snoc [simp]:
  "undecided R (ms @ [x]) \<longleftrightarrow> undecided R ms \<and> (\<forall>m r. x = Inr m \<longrightarrow> \<not> decided R ms m r)"
proof
  assume left: "undecided R (ms @ [x])"
  have "\<not> decided R before m r" if "ms = before @ Inr m # after" for before m after r
    using left that unfolding undecided_def by (metis append_Cons append_assoc)
  moreover have "\<not> decided R ms m r" if "x = Inr m" for m r
    using left that unfolding undecided_def by blast
  ultimately show "undecided R ms \<and> (\<forall>m r. x = Inr m \<longrightarrow> \<not> decided R ms m r)" by (simp add: undecided_def)
next
  assume right: "undecided R ms \<and> (\<forall>m r. x = Inr m \<longrightarrow> \<not> decided R ms m r)"
  have "\<not> decided R before m r" if "ms @ [x] = before @ Inr m # after" for before m after r
  proof (cases after rule: rev_cases)
    case Nil
    then show ?thesis using that right by auto
  next
    case (snoc ys y)
    then have "ms = before @ Inr m # ys" using that by auto
    then show ?thesis using right by (auto simp: undecided_def)
  qed
  then show "undecided R (ms @ [x])" by (simp add: undecided_def)
qed

lemma operation_named_simps [simp]:
  "operation_named R [] = None" "operation_named R (ms @ [x]) = operation_after R x (operation_named R ms)"
  by (simp_all add: operation_named_def)

lemma responded_simps [simp]:
  "\<not> responded R []"
  "responded R (ms @ [x]) \<longleftrightarrow> responded R ms \<or> (\<exists>y. x = Inr (client_message.Response (client_response.Accepted (rq_id R) y)))"
  by (auto simp: responded_def)

text \<open>The state of the wait remembers of the messages read what the later ones need.\<close>

definition history_ok :: "ctl_request \<Rightarrow> 'pe ctl_wait \<Rightarrow> bool" where
  "history_ok R w \<longleftrightarrow> undecided R (cw_printed w) \<and>
     cw_response_received w = responded R (cw_printed w) \<and> cw_accepted_operation w = operation_named R (cw_printed w)"

definition verdict :: "ctl_request \<Rightarrow> 'pe ctl_result \<Rightarrow> 'pe ctl_wait \<Rightarrow> bool" where
  "verdict R r w \<longleftrightarrow> (\<exists>ms m. cw_printed w = ms @ [Inr m] \<and> undecided R ms \<and> decided R ms m r)"

lemma ctl_message_verdict:
  assumes "history_ok R w" "ctl_message R m (print_out (Inr m) w) = (r, w')"
  shows "case r of None \<Rightarrow> history_ok R w' | Some x \<Rightarrow> verdict R x w'"
proof -
  have w: "undecided R (cw_printed w)" "cw_response_received w = responded R (cw_printed w)"
    "cw_accepted_operation w = operation_named R (cw_printed w)"
    using assms(1) by (simp_all add: history_ok_def)
  have printed: "cw_printed w' = cw_printed w @ [Inr m]"
    using ctl_message_printed [of R m "print_out (Inr m) w"] assms(2) by simp
  have "decided R (cw_printed w) m x" if "r = Some x" for x
  proof (cases m)
    case (Response response)
    then show ?thesis using assms(2) that by (cases response) (auto simp: ctl_message_def split: if_splits)
  next
    case (Event event)
    then show ?thesis using assms(2) that w(3)
      by (cases event) (auto simp: ctl_message_def intro: decided.intros split: if_splits)
  qed
  moreover have "\<not> decided R (cw_printed w) m x \<and> cw_response_received w' = responded R (cw_printed w') \<and>
      cw_accepted_operation w' = operation_named R (cw_printed w')" if "r = None" for x
  proof (cases m)
    case (Response response)
    then show ?thesis using assms(2) that w printed by (cases response) (auto simp: ctl_message_def split: if_splits)
  next
    case (Event event)
    then show ?thesis using assms(2) that w printed by (cases event) (auto simp: ctl_message_def split: if_splits)
  qed
  ultimately show ?thesis
    using w(1) printed by (auto simp: verdict_def history_ok_def split: option.split)
qed

lemma verdict_client [simp]: "verdict R x (w\<lparr> cw_client := c \<rparr>) = verdict R x w"
  by (simp add: verdict_def)

lemma history_ok_client [simp]: "history_ok R (w\<lparr> cw_client := c \<rparr>) = history_ok R w"
  by (simp add: history_ok_def)

text \<open>
  The bytes of one read: the messages that the client's decoder yields on them are printed, up to the one that
  decides the result.
\<close>

lemma ctl_bytes_reads:
  assumes "client_ok (cw_client w)" "history_ok R w" "ctl_bytes D R bytes w = Some (r, w')"
  shows "\<exists>c outs rest. feed (client_push D) (cw_client w) bytes = Some (c, outs @ rest) \<and>
    cw_printed w' = cw_printed w @ outs \<and>
    (case r of None \<Rightarrow> rest = [] \<and> cw_client w' = c \<and> history_ok R w' | Some x \<Rightarrow> verdict R x w')"
  using assms
proof (induction bytes arbitrary: w)
  case Nil
  then show ?case by auto
next
  case (Cons b bytes)
  obtain c out where p: "client_push D (cw_client w) b = Some (c, out)" "client_ok c"
    using client_push_total [OF Cons.prems(1)] by blast
  have IH: "\<exists>c' outs rest. feed (client_push D) c bytes = Some (c', outs @ rest) \<and>
      cw_printed w' = cw_printed v @ outs \<and>
      (case r of None \<Rightarrow> rest = [] \<and> cw_client w' = c' \<and> history_ok R w' | Some x \<Rightarrow> verdict R x w')"
    if "history_ok R v" "ctl_bytes D R bytes (v\<lparr> cw_client := c \<rparr>) = Some (r, w')" for v
    using Cons.IH [of "v\<lparr> cw_client := c \<rparr>"] that p(2) by simp
  consider "out = None" | e where "out = Some (Inl e)" | m where "out = Some (Inr m)"
    by (metis not_Some_eq sum.exhaust)
  then show ?case
  proof cases
    case 1
    then show ?thesis using IH [OF Cons.prems(2)] p Cons.prems(3) by auto
  next
    case (2 e)
    have "history_ok R (print_out (Inl e) w)" using Cons.prems(2) by (simp add: history_ok_def)
    from IH [OF this] p 2 Cons.prems(3) obtain c' outs rest where
      "feed (client_push D) c bytes = Some (c', outs @ rest)" "cw_printed w' = cw_printed w @ Inl e # outs"
      "case r of None \<Rightarrow> rest = [] \<and> cw_client w' = c' \<and> history_ok R w' | Some x \<Rightarrow> verdict R x w'"
      by auto
    with p 2 show ?thesis by (intro exI [of _ c'] exI [of _ "Inl e # outs"] exI [of _ rest]) simp
  next
    case (3 m)
    obtain r1 w1 where m: "ctl_message R m (print_out (Inr m) w) = (r1, w1)" by fastforce
    note one = ctl_message_verdict [OF Cons.prems(2) m]
    have printed: "cw_printed w1 = cw_printed w @ [Inr m]"
      using ctl_message_printed [of R m "print_out (Inr m) w"] m by simp
    show ?thesis
    proof (cases r1)
      case None
      then obtain c' outs rest where
        "feed (client_push D) c bytes = Some (c', outs @ rest)" "cw_printed w' = cw_printed w @ Inr m # outs"
        "case r of None \<Rightarrow> rest = [] \<and> cw_client w' = c' \<and> history_ok R w' | Some x \<Rightarrow> verdict R x w'"
        using IH [of w1] one p 3 m Cons.prems(3) printed by auto
      with p 3 show ?thesis by (intro exI [of _ c'] exI [of _ "Inr m # outs"] exI [of _ rest]) simp
    next
      case (Some x)
      obtain c' outs where "feed (client_push D) c bytes = Some (c', outs)"
        using client_feed_total [OF p(2)] by blast
      then show ?thesis using p 3 m Some one printed Cons.prems(3)
        by (intro exI [of _ c'] exI [of _ "[Inr m]"] exI [of _ outs]) auto
    qed
  qed
qed

section \<open>After the response\<close>

lemma wait_step_responded:
  assumes "client_ok (cw_client w)" "cw_response_received w" "wait_step D R i w = Some (r, w')"
  shows "cw_retries w' = cw_retries w \<and> cw_response_received w'"
proof -
  have "kept w w'" if "ctl_bytes D R bytes w = Some (r, w')" for bytes
    using ctl_bytes_total [OF assms(1), of D R bytes] that by auto
  then show ?thesis using assms(2,3) by (auto simp: wait_step_def kept_def split: if_splits receipt.splits)
qed

lemma wait_loop_responded:
  "client_ok (cw_client w) \<Longrightarrow> cw_response_received w \<Longrightarrow> wait_loop D R is w = Some (r, w') \<Longrightarrow> cw_retries w' = cw_retries w"
proof (induction "is" arbitrary: w)
  case (Cons i "is")
  obtain r1 w1 where w1: "wait_step D R i w = Some (r1, w1)" "client_ok (cw_client w1)"
    using wait_step_total [OF Cons.prems(1)] by blast
  note step = wait_step_responded [OF Cons.prems(1,2) w1(1)]
  show ?case
  proof (cases r1)
    case None
    then show ?thesis using Cons.IH [OF w1(2)] Cons.prems(3) w1(1) step by auto
  next
    case (Some x)
    then show ?thesis using Cons.prems(3) w1(1) step by auto
  qed
qed simp

lemma wait_loop_append:
  "wait_loop D R is1 w = Some (None, w1) \<Longrightarrow> wait_loop D R (is1 @ is2) w = wait_loop D R is2 w1"
  by (induction is1 arbitrary: w) (auto split: Option.bind_splits option.splits)

section \<open>The stream of an operation\<close>

text \<open>However the bytes are cut into reads, the loop acts on their concatenation.\<close>

definition received_bytes :: "wait_input \<Rightarrow> u8 list" where
  "received_bytes i = (case wi_receipt i of Received bytes \<Rightarrow> bytes | _ \<Rightarrow> [])"

lemma ctl_bytes_append:
  "ctl_bytes D R (xs @ ys) w = do {
     (r, w) \<leftarrow> ctl_bytes D R xs w;
     case r of None \<Rightarrow> ctl_bytes D R ys w | Some r \<Rightarrow> Some (Some r, w) }"
proof (induction xs arbitrary: w)
  case (Cons x xs)
  show ?case
  proof (cases "client_push D (cw_client w) x")
    case (Some p)
    then obtain c out where p: "p = (c, out)" by fastforce
    consider "out = None" | e where "out = Some (Inl e)" | m where "out = Some (Inr m)"
      by (metis not_Some_eq sum.exhaust)
    then show ?thesis
      using Some p Cons.IH by cases (auto split: prod.splits option.splits)
  qed simp
qed simp

lemma wait_loop_chunks:
  assumes "\<forall>i \<in> set is. wi_check i < rq_deadline R \<and> (\<exists>bytes. wi_receipt i = Received bytes)"
  shows "wait_loop D R is w = ctl_bytes D R (concat (map received_bytes is)) w"
  using assms
proof (induction "is" arbitrary: w)
  case (Cons i "is")
  then obtain bytes where b: "wi_receipt i = Received bytes" "wi_check i < rq_deadline R" by auto
  moreover have "received_bytes i = bytes" using b by (simp add: received_bytes_def)
  moreover from b have "wait_step D R i w = ctl_bytes D R bytes w" by (simp add: wait_step_def)
  moreover have "wait_loop D R is v = ctl_bytes D R (concat (map received_bytes is)) v" for v
    using Cons by simp
  ultimately show ?case by (simp add: ctl_bytes_append cong: option.case_cong)
qed simp

section \<open>Why the wait ended\<close>

text \<open>
  The bytes an iteration reads, and the results that no message decides: \<open>x\<close> tells whether the request was
  accepted before, \<open>i\<close> is the last iteration.
\<close>

definition read_bytes :: "ctl_request \<Rightarrow> wait_input \<Rightarrow> u8 list" where
  "read_bytes R i = (if rq_deadline R \<le> wi_check i then [] else received_bytes i)"

inductive gave_up :: "ctl_request \<Rightarrow> bool \<Rightarrow> wait_input \<Rightarrow> 'pe ctl_result \<Rightarrow> bool" for R x i where
  late: "rq_deadline R \<le> wi_check i \<Longrightarrow> gave_up R x i (Inl (TimedOut (rq_id R)))"
| silent: "wi_check i < rq_deadline R \<Longrightarrow> wi_receipt i = Timeout \<Longrightarrow> x \<or> rq_deadline R \<le> wi_after i \<Longrightarrow>
    gave_up R x i (Inl (TimedOut (rq_id R)))"
| unwritten: "wi_check i < rq_deadline R \<Longrightarrow> wi_receipt i = Timeout \<Longrightarrow> \<not> x \<Longrightarrow> wi_after i < rq_deadline R \<Longrightarrow>
    \<not> wi_written i \<Longrightarrow> gave_up R x i (Inl SendFailed)"
| failed: "wi_check i < rq_deadline R \<Longrightarrow> wi_receipt i = ReadError e \<Longrightarrow> gave_up R x i (Inl (ReaderFailed e))"
| stopped: "wi_check i < rq_deadline R \<Longrightarrow> wi_receipt i = Disconnected \<Longrightarrow> gave_up R x i (Inl ReaderStopped)"

text \<open>A wait that timed out has lasted until the deadline, when its clock is timely.\<close>

definition lasted :: "'pe client_decoders \<Rightarrow> ctl_request \<Rightarrow> nat \<Rightarrow> wait_input list \<Rightarrow> 'pe ctl_wait \<Rightarrow> wait_input \<Rightarrow>
    'pe ctl_result \<Rightarrow> bool" where
  "lasted D R now is w i r \<longleftrightarrow>
     (timely D R now is w \<and> r = Inl (TimedOut (rq_id R)) \<longrightarrow> rq_deadline R \<le> max (wi_check i) (wi_after i))"

lemma wait_step_result:
  assumes "client_ok (cw_client w)" "history_ok R w" "wait_step D R i w = Some (r, w')"
  shows "\<exists>c outs rest. feed (client_push D) (cw_client w) (read_bytes R i) = Some (c, outs @ rest) \<and>
    cw_printed w' = cw_printed w @ outs \<and>
    (case r of
       None \<Rightarrow> rest = [] \<and> cw_client w' = c \<and> history_ok R w'
     | Some x \<Rightarrow> verdict R x w' \<or> rest = [] \<and> history_ok R w' \<and> gave_up R (responded R (cw_printed w')) i x \<and>
         lasted D R now (i # is) w i x)"
proof (cases "rq_deadline R \<le> wi_check i \<or> (\<forall>bytes. wi_receipt i \<noteq> Received bytes)")
  case False
  then obtain bytes where bytes: "wi_check i < rq_deadline R" "wi_receipt i = Received bytes" by auto
  then have "ctl_bytes D R bytes w = Some (r, w')" "read_bytes R i = bytes"
    using assms(3) by (auto simp: wait_step_def read_bytes_def received_bytes_def)
  with ctl_bytes_reads [OF assms(1,2), of D bytes r w'] show ?thesis by (cases r) fastforce+
next
  case True
  then have none: "feed (client_push D) (cw_client w) (read_bytes R i) = Some (cw_client w, [])"
    by (auto simp: read_bytes_def received_bytes_def split: receipt.split)
  have w: "cw_response_received w = responded R (cw_printed w)" using assms(2) by (simp add: history_ok_def)
  have "cw_printed w' = cw_printed w \<and>
    (case r of
       None \<Rightarrow> cw_client w' = cw_client w \<and> history_ok R w'
     | Some x \<Rightarrow> history_ok R w' \<and> gave_up R (responded R (cw_printed w')) i x \<and> lasted D R now (i # is) w i x)"
    using True assms(2,3) w
    by (cases "wi_receipt i")
      (auto simp: wait_step_def history_ok_def lasted_def receive_for_def Let_def gave_up.simps not_le split: if_splits)
  with none show ?thesis by (cases r) fastforce+
qed

lemma wait_loop_result:
  assumes "client_ok (cw_client w)" "history_ok R w" "wait_loop D R is w = Some (r, w')"
  shows "\<exists>read later c outs rest. is = read @ later \<and>
    feed (client_push D) (cw_client w) (concat (map (read_bytes R) read)) = Some (c, outs @ rest) \<and>
    cw_printed w' = cw_printed w @ outs \<and>
    (case r of
       None \<Rightarrow> later = [] \<and> rest = [] \<and> history_ok R w'
     | Some x \<Rightarrow> read \<noteq> [] \<and> (verdict R x w' \<or> rest = [] \<and> history_ok R w' \<and>
         gave_up R (responded R (cw_printed w')) (last read) x \<and> lasted D R now is w (last read) x))"
  using assms
proof (induction "is" arbitrary: w now)
  case Nil
  then show ?case by auto
next
  case (Cons i "is")
  obtain r1 w1 where w1: "wait_step D R i w = Some (r1, w1)" "client_ok (cw_client w1)"
    using wait_step_total [OF Cons.prems(1)] by blast
  obtain c outs rest where step: "feed (client_push D) (cw_client w) (read_bytes R i) = Some (c, outs @ rest)"
    "cw_printed w1 = cw_printed w @ outs"
    "case r1 of
       None \<Rightarrow> rest = [] \<and> cw_client w1 = c \<and> history_ok R w1
     | Some x \<Rightarrow> verdict R x w1 \<or> rest = [] \<and> history_ok R w1 \<and> gave_up R (responded R (cw_printed w1)) i x \<and>
         lasted D R now (i # is) w i x"
    using wait_step_result [OF Cons.prems(1,2) w1(1), of now "is"] by blast
  show ?case
  proof (cases r1)
    case (Some x)
    then show ?thesis using step w1 Cons.prems(3)
      by (intro exI [of _ "[i]"] exI [of _ "is"] exI [of _ c] exI [of _ outs] exI [of _ rest]) auto
  next
    case None
    then have w: "history_ok R w1" "cw_client w1 = c" "wait_loop D R is w1 = Some (r, w')" "rest = []"
      using step(3) w1 Cons.prems(3) by auto
    have lasts: "lasted D R now (i # is) w j x" if "lasted D R (wi_sent i) is w1 j x" for j x
      using that w1(1) None by (auto simp: lasted_def)
    obtain read later c' outs' rest' where later: "is = read @ later"
      "feed (client_push D) c (concat (map (read_bytes R) read)) = Some (c', outs' @ rest')"
      "cw_printed w' = cw_printed w1 @ outs'"
      "case r of
         None \<Rightarrow> later = [] \<and> rest' = [] \<and> history_ok R w'
       | Some x \<Rightarrow> read \<noteq> [] \<and> (verdict R x w' \<or> rest' = [] \<and> history_ok R w' \<and>
           gave_up R (responded R (cw_printed w')) (last read) x \<and> lasted D R (wi_sent i) is w1 (last read) x)"
      using Cons.IH [OF w1(2) w(1,3), of "wi_sent i"] unfolding w(2) by blast
    have "case r of
         None \<Rightarrow> later = [] \<and> rest' = [] \<and> history_ok R w'
       | Some x \<Rightarrow> i # read \<noteq> [] \<and> (verdict R x w' \<or> rest' = [] \<and> history_ok R w' \<and>
           gave_up R (responded R (cw_printed w')) (last (i # read)) x \<and> lasted D R now (i # is) w (last (i # read)) x)"
      using later(4) lasts by (cases r) auto
    with step(1,2) w(4) later(1-3) show ?thesis
      by (intro exI [of _ "i # read"] exI [of _ later] exI [of _ c'] exI [of _ "outs @ outs'"] exI [of _ rest'])
        (simp add: feed_append)
  qed
qed

section \<open>The answer to a command\<close>

text \<open>
  After a response that leaves the result open, the first event that ends the wait: the completion of the
  operation that was accepted, an abort for an abort command, or a fault.
\<close>

fun ends_wait :: "control_command \<Rightarrow> u32 option \<Rightarrow> event_message \<Rightarrow> bool" where
  "ends_wait command operation (event_message.OperationCompleted i _) \<longleftrightarrow> operation = Some i"
| "ends_wait command operation (event_message.Aborted _) \<longleftrightarrow> command = Abort"
| "ends_wait command operation (event_message.Fault _ _) \<longleftrightarrow> True"
| "ends_wait command operation _ \<longleftrightarrow> False"

fun event_result :: "event_message \<Rightarrow> 'pe ctl_result" where
  "event_result (event_message.Fault _ fault) = Inl (RobotFaulted fault)"
| "event_result _ = Inr ()"

fun events_of :: "service_message list \<Rightarrow> event_message list" where
  "events_of [] = []"
| "events_of (service_message.Event e # ms) = e # events_of ms"
| "events_of (service_message.Response r # ms) = events_of ms"

definition first_end :: "control_command \<Rightarrow> u32 option \<Rightarrow> service_message list \<Rightarrow> 'pe ctl_result option" where
  "first_end command operation ms = map_option event_result (find (ends_wait command operation) (events_of ms))"

text \<open>
  Reads that deliver a stream before the deadline, with time-outs, each followed by a repetition of the
  request, as long as fewer than \<open>n\<close> bytes have arrived.
\<close>

definition arrives :: "nat \<Rightarrow> nat \<Rightarrow> wait_input list \<Rightarrow> bool" where
  "arrives deadline n is \<longleftrightarrow> (\<forall>x \<in> set is. wi_check x < deadline) \<and>
     (\<exists>early late. is = early @ late \<and> length (concat (map received_bytes early)) < n \<and>
       (\<forall>x \<in> set early. (\<exists>bytes. wi_receipt x = Received bytes) \<or>
         wi_receipt x = Timeout \<and> wi_after x < deadline \<and> wi_written x) \<and>
       (\<forall>x \<in> set late. \<exists>bytes. wi_receipt x = Received bytes))"

lemma ctl_outs_first_end:
  assumes "\<And>v. cw_accepted_operation v = operation \<Longrightarrow>
      fst (ctl_message R (client_message_of (service_message.Response r)) v :: 'pe ctl_result option \<times> 'pe ctl_wait) = None \<and>
      cw_accepted_operation (snd (ctl_message R (client_message_of (service_message.Response r)) v)) = operation"
    and "set tail \<subseteq> {service_message.Response r} \<union> range service_message.Event"
    and "cw_accepted_operation (w :: 'pe ctl_wait) = operation"
  shows "fst (ctl_outs R (map (Inr \<circ> client_message_of) tail) w) = first_end (rq_command R) operation tail"
  using assms(2,3)
proof (induction tail arbitrary: w)
  case (Cons m tail)
  define v where "v = print_out (Inr (client_message_of m)) w"
  have v: "cw_accepted_operation v = operation" using Cons.prems(2) by (simp add: v_def)
  have rest: "fst (ctl_outs R (map (Inr \<circ> client_message_of) tail) u) = first_end (rq_command R) operation tail"
    if "cw_accepted_operation u = operation" for u :: "'pe ctl_wait"
    using Cons.IH [OF _ that] Cons.prems(1) unfolding comp_def by simp
  have m: "m = service_message.Response r \<or> (\<exists>e. m = service_message.Event e)" using Cons.prems(1) by auto
  have one: "ctl_outs R (map (Inr \<circ> client_message_of) (m # tail)) w = (case ctl_message R (client_message_of m) v of
      (None, u) \<Rightarrow> ctl_outs R (map (Inr \<circ> client_message_of) tail) u | x \<Rightarrow> x)"
    by (simp only: list.map comp_apply ctl_outs.simps v_def)
  show ?case
  proof (cases "m = service_message.Response r")
    case True
    obtain u where u: "ctl_message R (client_message_of m) v = (None, u)" "cw_accepted_operation u = operation"
      using assms(1) [OF v] unfolding True by (metis prod.collapse)
    show ?thesis unfolding one using u(1) rest [OF u(2)] by (simp add: first_end_def True del: client_message_of.simps)
  next
    case False
    then obtain e where e: "m = service_message.Event e" using m by blast
    show ?thesis
    proof (cases "ends_wait (rq_command R) operation e")
      case True
      then show ?thesis unfolding one using v by (cases e) (auto simp: e ctl_message_def first_end_def)
    next
      case False
      then have "ctl_message R (client_message_of m) v = (None, v)"
        using v by (cases e) (auto simp: e ctl_message_def)
      then show ?thesis unfolding one using rest [OF v] False by (simp add: e first_end_def)
    qed
  qed
qed (simp add: first_end_def)

text \<open>Bytes that complete no message change nothing but the decoder, and neither do the repetitions.\<close>

lemma ctl_bytes_silent:
  assumes "feed (client_push D) (cw_client w) bytes = Some (c, [])"
  shows "ctl_bytes D R bytes w = Some (None, w\<lparr> cw_client := c \<rparr>)"
  using assms
proof (induction bytes arbitrary: w)
  case (Cons b bytes)
  then obtain c1 where "client_push D (cw_client w) b = Some (c1, None)" "feed (client_push D) c1 bytes = Some (c, [])"
    by (auto split: Option.bind_splits option.splits)
  with Cons.IH [of "w\<lparr> cw_client := c1 \<rparr>"] show ?case by simp
qed auto

lemma feed_silent_append:
  "feed f s (xs @ ys) = Some (s', []) \<Longrightarrow> \<exists>s1. feed f s xs = Some (s1, []) \<and> feed f s1 ys = Some (s', [])"
  by (auto simp: feed_append split: Option.bind_splits)

definition same_messages :: "'pe ctl_wait \<Rightarrow> 'pe ctl_wait \<Rightarrow> bool" where
  "same_messages w w' \<longleftrightarrow> cw_printed w' = cw_printed w \<and> cw_response_received w' = cw_response_received w \<and>
     cw_accepted_operation w' = cw_accepted_operation w"

lemma wait_loop_early:
  assumes "\<forall>x \<in> set is. wi_check x < rq_deadline R \<and> ((\<exists>bytes. wi_receipt x = Received bytes) \<or>
      wi_receipt x = Timeout \<and> wi_after x < rq_deadline R \<and> wi_written x)"
    and "feed (client_push D) (cw_client w) (concat (map received_bytes is)) = Some (c, [])"
    and "\<not> cw_response_received w"
  shows "\<exists>w'. wait_loop D R is w = Some (None, w') \<and> cw_client w' = c \<and> same_messages w w'"
  using assms
proof (induction "is" arbitrary: w)
  case (Cons x "is")
  have "feed (client_push D) (cw_client w) (received_bytes x @ concat (map received_bytes is)) = Some (c, [])"
    using Cons.prems(2) by simp
  from feed_silent_append [OF this] obtain c1 where c1: "feed (client_push D) (cw_client w) (received_bytes x) = Some (c1, [])"
    "feed (client_push D) c1 (concat (map received_bytes is)) = Some (c, [])" by blast
  obtain w1 where w1: "wait_step D R x w = Some (None, w1)" "cw_client w1 = c1" "same_messages w w1"
  proof (cases "wi_receipt x = Timeout")
    case True
    then show ?thesis
      using that Cons.prems(1,3) c1(1) by (fastforce simp: wait_step_def received_bytes_def same_messages_def)
  next
    case False
    then obtain bytes where "wi_receipt x = Received bytes" "wi_check x < rq_deadline R" using Cons.prems(1) by auto
    then show ?thesis
      using that [of "w\<lparr> cw_client := c1 \<rparr>"] ctl_bytes_silent [OF c1(1)]
      by (simp add: wait_step_def received_bytes_def same_messages_def)
  qed
  have "\<not> cw_response_received w1" using w1(3) Cons.prems(3) by (simp add: same_messages_def)
  then obtain w' where "wait_loop D R is w1 = Some (None, w')" "cw_client w' = c" "same_messages w1 w'"
    using Cons.IH [of w1] Cons.prems(1) c1(2) w1(2) by auto
  with w1 show ?case by (auto simp: same_messages_def)
qed (auto simp: same_messages_def)

lemma arrives_acts:
  assumes "arrives (rq_deadline R) n is" "\<not> cw_response_received w"
    and "feed (client_push D) (cw_client w) (concat (map received_bytes is)) = Some (c, outs)"
    and "\<And>m. m < n \<Longrightarrow> \<exists>c. feed (client_push D) (cw_client w) (take m (concat (map received_bytes is))) = Some (c, [])"
  shows "\<exists>v c'. same_messages w v \<and> wait_loop D R is w = Some (at_client c' (ctl_outs R outs v))"
proof -
  obtain early late where el: "is = early @ late" "length (concat (map received_bytes early)) < n"
    "\<forall>x \<in> set early. wi_check x < rq_deadline R \<and> ((\<exists>bytes. wi_receipt x = Received bytes) \<or>
      wi_receipt x = Timeout \<and> wi_after x < rq_deadline R \<and> wi_written x)"
    "\<forall>x \<in> set late. wi_check x < rq_deadline R \<and> (\<exists>bytes. wi_receipt x = Received bytes)"
    using assms(1) unfolding arrives_def by fastforce
  then obtain c1 where c1: "feed (client_push D) (cw_client w) (concat (map received_bytes early)) = Some (c1, [])"
    using assms(4) [OF el(2)] by auto
  obtain v where v: "wait_loop D R early w = Some (None, v)" "cw_client v = c1" "same_messages w v"
    using wait_loop_early [OF el(3) c1 assms(2)] by blast
  have "feed (client_push D) (cw_client v) (concat (map received_bytes late)) = Some (c, outs)"
    using assms(3) c1 v(2) by (auto simp: el(1) feed_append split: Option.bind_splits)
  then obtain c' where "ctl_bytes D R (concat (map received_bytes late)) v = Some (at_client c' (ctl_outs R outs v))"
    using ctl_bytes_feed by blast
  then show ?thesis
    using v wait_loop_append [OF v(1), of late] wait_loop_chunks [OF el(4), of D v] by (auto simp: el(1))
qed

text \<open>The result after a response and what follows it.\<close>

definition answer_result :: "control_command \<Rightarrow> response_message \<Rightarrow> service_message list \<Rightarrow> 'pe ctl_result option" where
  "answer_result command r tail =
     (case rsp_payload r of
        response_payload.Rejected reason controller \<Rightarrow> Some (Inl (RejectedBy reason controller))
      | response_payload.Status _ \<Rightarrow> if command = Status then Some (Inr ()) else first_end command None tail
      | response_payload.Accepted operation \<Rightarrow>
          if operation = None \<and> command \<noteq> Abort then Some (Inr ()) else first_end command operation tail)"

lemma ctl_outs_answer:
  assumes "rsp_request_id r = rq_id R" "cw_accepted_operation w = None"
    and "set tail \<subseteq> {service_message.Response r} \<union> range service_message.Event"
  shows "fst (ctl_outs R (map (Inr \<circ> client_message_of) (service_message.Response r # tail)) w) =
    answer_result (rq_command R) r tail"
proof (cases "rsp_payload r")
  case (Status st)
  have "ctl_outs R (map (Inr \<circ> client_message_of) (service_message.Response r # tail)) w =
      ctl_outs R (map (Inr \<circ> client_message_of) tail) (print_out (Inr (client_message_of (service_message.Response r))) w)"
    if "rq_command R \<noteq> Status" using Status that by (simp add: ctl_message_def)
  then show ?thesis
    using Status assms ctl_outs_first_end [of None R r tail "print_out (Inr (client_message_of (service_message.Response r))) w"]
    by (cases "rq_command R = Status") (simp_all add: answer_result_def ctl_message_def)
next
  case (Accepted operation)
  show ?thesis
  proof (cases "operation = None \<and> rq_command R \<noteq> Abort")
    case True
    then show ?thesis using Accepted assms(1) by (simp add: answer_result_def ctl_message_def)
  next
    case False
    then have "fst (ctl_outs R (map (Inr \<circ> client_message_of) tail) u) = first_end (rq_command R) operation tail"
      if "cw_accepted_operation u = operation" for u :: "'a ctl_wait"
      using Accepted assms(1,3) that by (intro ctl_outs_first_end [of operation R r tail u]) (auto simp: ctl_message_def)
    then show ?thesis using False Accepted assms(1) by (auto simp: answer_result_def ctl_message_def)
  qed
qed (use assms(1) in \<open>simp add: answer_result_def ctl_message_def\<close>)

end
