(* ===== verification/ClientSpec.thy ===== *)
theory ClientSpec
  imports SimBench RobotCtlSafety
begin

section \<open>The client\<close>



text \<open>
  C30: a command of the client is answered. At frame boundaries, encoding a command yields a frame on which
  the daemon handles exactly one request, with the command's opcode and the identifier the client was
  given; what the daemon writes for it is the response to that request and then the events, and a client
  whose decoders read these messages receives them in this order and updates its snapshot by them.
\<close>

theorem client_command_answered:
  assumes "client_ok c" "serializers_ok S" "client_encode S command c = Some (Inr (i, frame), c1)"
    and "decoder_pending (rc_decoder c) = Some []"
    and "daemon_ok d" "payloads_fit br be" "dm_writer d = Some w" "decoder_pending (dm_decoder d) = Some []"
    and "service_reach B (dm_service d)"
  shows "\<exists>k r es s' d' c2. handle_packet B (delivered k) (dm_service d) =
        Some (service_message.Response r # map service_message.Event es, s') \<and>
      k = command_packet i (client_opcode command) (pkt_payload k) \<and>
      command_content S (enc_payload (rc_encoder c)) command (pkt_payload k) \<and> rsp_request_id r = i \<and>
      handle_bytes B (log_env br be) frame d = Some (Inr (), d') \<and> dm_service d' = s' \<and>
      dm_writer d' = Some (w @ message_bytes br be (service_message.Response r # map service_message.Event es)) \<and>
      ((\<forall>m \<in> set (service_message.Response r # map service_message.Event es). reads_back D br be m) \<longrightarrow>
        feed (client_push D) c1 (message_bytes br be (service_message.Response r # map service_message.Event es)) =
          Some (c2, map (Inr \<circ> client_message_of) (service_message.Response r # map service_message.Event es)) \<and>
        rc_snapshot c2 = map_option (fold updated es) (message_shown (service_message.Response r) (rc_snapshot c)))"
proof -
  have "serving br be d (dm_service d, w)" using assms(5-7) by (simp add: serving_def)
  then show ?thesis using command_answered [OF assms(1-4) _ assms(8,9)] by blast
qed

definition bench_daemon :: "(unit, unit, u8 list) daemon" where
  "bench_daemon = \<lparr> dm_decoder = default_decoder, dm_encoder = default_encoder, dm_writer = Some [],
     dm_service = bench_start, dm_button = None, dm_observed = None \<rparr>"

definition bench_decoders :: "unit client_decoders" where
  "bench_decoders = \<lparr> take_accepted = \<lambda>_. Inl (), take_rejected = \<lambda>_. Inl (),
     take_status = \<lambda>_. Inr (svc_status bench_start, []), take_robot_state = \<lambda>_. Inl (), take_stand = \<lambda>_. Inl (),
     take_face = \<lambda>_. Inl (), take_plan = \<lambda>_. Inl (), take_action = \<lambda>_. Inl (), take_completed = \<lambda>_. Inl (),
     take_aborted = \<lambda>_. Inl (), take_cube_session = \<lambda>_. Inl (), take_failed = \<lambda>_. Inl (), take_fault = \<lambda>_. Inl () \<rparr>"

lemma initial_client_ok: "client_ok (with_initial_request_id i)"
  by (auto simp: client_ok_def with_initial_request_id_def default_encoder_ok default_decoder_ok max_def)

lemma bench_daemon_ready:
  "service_reach bench (dm_service bench_daemon)" "daemon_ok bench_daemon" "payloads_fit (\<lambda>_. []) (\<lambda>_. [])"
  "dm_writer bench_daemon = Some []" "decoder_pending (dm_decoder bench_daemon) = Some []"
  using with_scanner_inv [of "()" default_calibration "()"]
  by (simp_all add: payloads_fit_def daemon_ok_def default_decoder_ok default_encoder_ok bench_daemon_def
      default_decoder_pending bench_start_def with_scanner_def service_reach.start [unfolded with_scanner_def])

lemma bench_status_answer:
  assumes "i \<noteq> 0" "handle_packet bench (delivered (command_packet i request_opcode.GetStatus [])) (dm_service bench_daemon) =
      Some (service_message.Response r # map service_message.Event es, s)"
  shows "es = []" "rsp_payload r = response_payload.Status (svc_status bench_start)" "rsp_request_id r = i"
  using assms
  by (auto simp: handle_packet_def dispatch_new_request_def bench_daemon_def bench_start_def with_scanner_def
      drain_events_def Let_def cache_response_def delivered_def payload_def command_packet_def
      request_try_from_def split: sum.splits)

lemma bench_status_encoded:
  "\<exists>frame c1. client_encode bench_serializers client_command.GetStatus (with_initial_request_id 5) = Some (Inr (5, frame), c1)"
proof -
  obtain frame e' where "(encode_raw (rc_encoder (with_initial_request_id 5)) message_kind.Request (request_u16 request_opcode.GetStatus) 5 0 ::
      ((unit frame_encode_error + u8 list) \<times> uart_frame_encoder) option) = Some (Inr frame, e')"
    using encode_raw_request [of "rc_encoder (with_initial_request_id 5)" 0 request_opcode.GetStatus 5] initial_client_ok [of 5]
    by (auto simp: client_ok_def)
  then show ?thesis
    by (auto simp: client_encode_def client_frame_def encode_empty_def Let_def with_initial_request_id_def)
qed

theorem client_command_answered_witness:
  "\<exists>frame c1 bytes c2. client_encode bench_serializers GetStatus default_client = Some (Inr (1, frame), c1) \<and>
     feed (client_push bench_decoders) c1 bytes =
       Some (c2, [Inr (client_message.Response (client_response.Status 1 (svc_status bench_start)))]) \<and>
     rc_snapshot c2 = Some (svc_status bench_start)"
proof -
  let ?br = "\<lambda>_. []" and ?be = "\<lambda>_. []"
  have c: "decoder_pending (rc_decoder default_client) = Some []"
    by (simp add: default_client_def with_initial_request_id_def default_decoder_pending)
  obtain frame e' where "(encode_raw (rc_encoder default_client) message_kind.Request (request_u16 request_opcode.GetStatus) 1 0 ::
      ((unit frame_encode_error + u8 list) \<times> uart_frame_encoder) option) = Some (Inr frame, e')"
    using encode_raw_request [of "rc_encoder default_client" 0 request_opcode.GetStatus 1] default_client_ok
    by (auto simp: client_ok_def)
  then obtain c1 where e: "client_encode bench_serializers GetStatus default_client = Some (Inr (1, frame), c1)"
    by (auto simp: client_encode_def client_frame_def encode_empty_def Let_def default_client_def with_initial_request_id_def)
  obtain k r es s' c2 where *: "handle_packet bench (delivered k) (dm_service bench_daemon) =
      Some (service_message.Response r # map service_message.Event es, s')"
    "k = command_packet 1 request_opcode.GetStatus (pkt_payload k)" "pkt_payload k = []"
    "(\<forall>m \<in> set (service_message.Response r # map service_message.Event es). reads_back bench_decoders ?br ?be m) \<longrightarrow>
        feed (client_push bench_decoders) c1 (message_bytes ?br ?be (service_message.Response r # map service_message.Event es)) =
          Some (c2, map (Inr \<circ> client_message_of) (service_message.Response r # map service_message.Event es)) \<and>
        rc_snapshot c2 = map_option (fold updated es) (message_shown (service_message.Response r) (rc_snapshot default_client))"
    using client_command_answered [OF default_client_ok bench_serializers_ok e c bench_daemon_ready(2-5,1), of bench_decoders]
    by (simp only: client_opcode.simps command_content_def client_command.case) (elim exE conjE, rule that, assumption+)
  have "es = []" "rsp_payload r = response_payload.Status (svc_status bench_start)" "rsp_request_id r = 1"
    using bench_status_answer [of 1 r es s'] *(1-3) by auto
  with *(4) e show ?thesis by (auto simp: bench_decoders_def)
qed

section \<open>The command line client\<close>

text \<open>
  C33: waiting for the result of a command is bounded. With a clock that does not run backwards and waits
  that are not cut short, the loop never panics, has ended once an iteration starts at the deadline, and
  writes nothing but the command's frame: each retry starts before the deadline and at least the retry
  interval after the write before it ended, so that there are at most as many as intervals in the
  timeout; and after the response there is none.
\<close>

theorem robotctl_waits:
  assumes "client_ok c" "now0 \<le> now1"
    and "R = \<lparr> rq_frame = frame, rq_id = i, rq_command = command, rq_deadline = now0 + timeout \<rparr>"
    and "timely D R now1 is (new_wait c now1)"
  shows "\<exists>r w. wait_for_result D c frame i command timeout now0 now1 is = Some (r, w) \<and>
    ((\<exists>x \<in> set is. now0 + timeout \<le> wi_check x) \<longrightarrow> r \<noteq> None) \<and>
    spaced R (now1 + RETRY_INTERVAL) (cw_retries w) \<and> RETRY_INTERVAL * length (cw_retries w) \<le> timeout \<and>
    (\<forall>is1 is2 w1. is = is1 @ is2 \<and> wait_for_result D c frame i command timeout now0 now1 is1 = Some (None, w1) \<and>
       cw_response_received w1 \<longrightarrow> cw_retries w = cw_retries w1)"
proof -
  let ?w = "new_wait c now1"
  have ok: "client_ok (cw_client ?w)" "retries_ok R (now1 + RETRY_INTERVAL) ?w"
    using assms(1) by (simp_all add: new_wait_def retries_ok_def)
  obtain r w where w: "wait_loop D R is ?w = Some (r, w)" using wait_loop_total [OF ok(1)] by blast
  have spaced: "spaced R (now1 + RETRY_INTERVAL) (cw_retries w)"
    using wait_loop_retries [OF ok assms(4) w] by (simp add: retries_ok_def)
  moreover have "RETRY_INTERVAL * length (cw_retries w) \<le> timeout"
    using spaced_bound [OF spaced] assms(2,3) by (cases "cw_retries w") auto
  moreover have "cw_retries w = cw_retries w1"
    if "is = is1 @ is2" "wait_loop D R is1 ?w = Some (None, w1)" "cw_response_received w1" for is1 is2 w1
  proof -
    have "client_ok (cw_client w1)" using wait_loop_total [OF ok(1), of D R is1] that(2) by auto
    then show ?thesis using wait_loop_append [OF that(2)] wait_loop_responded that(1,3) w by metis
  qed
  ultimately show ?thesis
    using w wait_loop_ends [OF _ _ w] by (auto simp: wait_for_result_def assms(3))
qed

definition silent :: "nat \<Rightarrow> wait_input" where
  "silent t = \<lparr> wi_check = t, wi_plan = t, wi_receipt = Timeout, wi_after = t + 500, wi_written = True, wi_sent = t + 500 \<rparr>"

theorem robotctl_waits_witness:
  "\<exists>w. wait_for_result bench_decoders default_client [1] 1 Grip 1000 0 0 [silent 0, silent 500, silent 1000] =
      Some (Some (Inl (TimedOut 1)), w) \<and> cw_retries w = [(500, [1], 500)] \<and>
    spaced \<lparr> rq_frame = [1], rq_id = 1, rq_command = Grip, rq_deadline = 1000 \<rparr> 500 (cw_retries w)"
proof -
  let ?R = "\<lparr> rq_frame = [1], rq_id = 1, rq_command = Grip, rq_deadline = 0 + 1000 \<rparr>"
  note defs = wait_for_result_def new_wait_def wait_step_def silent_def RETRY_INTERVAL_def receive_for_def
  have "timely bench_decoders ?R 0 [silent 0, silent 500, silent 1000] (new_wait default_client 0)"
    by (simp add: defs)
  from robotctl_waits [OF default_client_ok _ _ this] show ?thesis by (simp add: defs)
qed

text \<open>
  C32: the result is the one the robot's messages decide. The iterations of a wait read a prefix of the
  line, and the messages printed are those the client decodes from it, up to the one that decides. A wait
  that ended was decided by the last message printed, the first that decides: the status for a status
  command, a rejection of this request, an acceptance without an operation unless the command is an abort,
  the completion of the operation that the last acceptance of this request named, an abort for an abort
  command, or a fault. Otherwise no message decided, and its last iteration found the deadline passed, or timed out
  with the request already accepted or at the deadline, or could not write a repetition before it, or met
  an error or the end of the reader; it has then timed out at the deadline or later. A wait that has
  not ended read everything and found no message that decides.
\<close>

theorem robotctl_result:
  assumes "client_ok c" "wait_for_result D c frame i command timeout now0 now1 is = Some (result, w)"
    and "R = \<lparr> rq_frame = frame, rq_id = i, rq_command = command, rq_deadline = now0 + timeout \<rparr>"
  shows "\<exists>read later c' unread. is = read @ later \<and>
    feed (client_push D) c (concat (map (read_bytes R) read)) = Some (c', cw_printed w @ unread) \<and>
    (case result of
       None \<Rightarrow> later = [] \<and> unread = [] \<and> undecided R (cw_printed w)
     | Some r \<Rightarrow> read \<noteq> [] \<and>
        ((\<exists>ms m. cw_printed w = ms @ [Inr m] \<and> undecided R ms \<and> decided R ms m r) \<or>
         unread = [] \<and> undecided R (cw_printed w) \<and> gave_up R (responded R (cw_printed w)) (last read) r \<and>
         (timely D R now1 is (new_wait c now1) \<and> r = Inl (TimedOut i) \<longrightarrow>
            now0 + timeout \<le> max (wi_check (last read)) (wi_after (last read)))))"
proof -
  have new: "history_ok R (new_wait c now1)" "client_ok (cw_client (new_wait c now1))"
    using assms(1) by (simp_all add: history_ok_def new_wait_def)
  have "wait_loop D R is (new_wait c now1) = Some (result, w)"
    using assms(2,3) by (simp add: wait_for_result_def)
  from wait_loop_result [OF new(2,1) this, of now1] obtain read later c' outs unread where
    "is = read @ later" "feed (client_push D) c (concat (map (read_bytes R) read)) = Some (c', outs @ unread)"
    "cw_printed w = outs"
    "case result of
       None \<Rightarrow> later = [] \<and> unread = [] \<and> history_ok R w
     | Some x \<Rightarrow> read \<noteq> [] \<and> (verdict R x w \<or> unread = [] \<and> history_ok R w \<and>
         gave_up R (responded R (cw_printed w)) (last read) x \<and> lasted D R now1 is (new_wait c now1) (last read) x)"
    by (auto simp: new_wait_def)
  then show ?thesis
    by (intro exI [of _ read] exI [of _ later] exI [of _ c'] exI [of _ unread])
      (auto simp: verdict_def history_ok_def lasted_def assms(3) split: option.splits)
qed

theorem robotctl_result_witness:
  "\<exists>w read later. wait_for_result bench_decoders default_client [1] 1 Grip 1000 0 0 [silent 0, silent 500, silent 1000] =
      Some (Some (Inl (TimedOut 1)), w) \<and> read \<noteq> [] \<and> [silent 0, silent 500, silent 1000] = read @ later \<and>
    gave_up \<lparr> rq_frame = [1], rq_id = 1, rq_command = Grip, rq_deadline = 1000 \<rparr> False (last read)
      (Inl (TimedOut 1) :: unit ctl_result) \<and> 1000 \<le> max (wi_check (last read)) (wi_after (last read))"
proof -
  let ?R = "\<lparr> rq_frame = [1], rq_id = 1, rq_command = Grip, rq_deadline = 0 + 1000 \<rparr>"
  note defs = wait_for_result_def new_wait_def wait_step_def silent_def RETRY_INTERVAL_def receive_for_def
  obtain w where w: "wait_for_result bench_decoders default_client [1] 1 Grip 1000 0 0 [silent 0, silent 500, silent 1000] =
      Some (Some (Inl (TimedOut 1)), w)" "cw_printed w = []"
    by (simp add: defs)
  have "timely bench_decoders ?R 0 [silent 0, silent 500, silent 1000] (new_wait default_client 0)"
    by (simp add: defs)
  with robotctl_result [OF default_client_ok w(1) refl] w show ?thesis
    by auto
qed

text \<open>
  C31: a command from the command line is carried out or refused by the robot, and the tool says which. The
  daemon handles its frame as one request with the command's opcode, however often the frame arrives: each
  repetition gets the same response and has no further effect. When the response and what follows it - events
  and the responses to repetitions, in any order - arrive before the deadline, in reads cut in any way, with
  time-outs and repetitions before the response is complete, the tool ends with the rejection; with success and the printed status for
  a status command; with success for an acceptance that names no operation, unless the command is an
  abort; and otherwise as the first deciding event says: success at the completion of the
  accepted operation, or at an abort for an abort command, and the fault at a fault. Without such an event it waits on.
\<close>

theorem robotctl_answered:
  fixes S :: "'pe request_serializers"
  assumes "serializers_ok S" "may_move_stand command \<longrightarrow> confirmed" "protocol_command command = Some (Inr request)"
    and "client_encode S request (with_initial_request_id (initial_request_id hash)) = Some (Inr (i, frame), c)"
    and "daemon_ok d" "payloads_fit br be" "dm_writer d = Some w" "decoder_pending (dm_decoder d) = Some []"
    and "service_reach B (dm_service d)"
  shows "\<exists>k r es s'. handle_packet B (delivered k) (dm_service d) =
        Some (service_message.Response r # map service_message.Event es, s') \<and>
      k = command_packet i (client_opcode request) (pkt_payload k) \<and>
      command_content S (replicate MAX_PAYLOAD_LEN 0) request (pkt_payload k) \<and> rsp_request_id r = i \<and>
      (\<forall>n. \<exists>d'. handle_bytes B (log_env br be) (concat (replicate (Suc n) frame)) d = Some (Inr (), d') \<and> dm_service d' = s' \<and>
        dm_writer d' = Some (w @ message_bytes br be
          (service_message.Response r # map service_message.Event es @ replicate n (service_message.Response r)))) \<and>
      (\<forall>tail is. set tail \<subseteq> {service_message.Response r} \<union> range service_message.Event \<and>
         (\<forall>m \<in> set (service_message.Response r # tail). reads_back D br be m) \<and>
         arrives (now0 + timeout) (length (message_bytes br be [service_message.Response r])) is \<and>
         concat (map received_bytes is) = message_bytes br be (service_message.Response r # tail) \<longrightarrow>
         (\<exists>v. run_robotctl S D hash confirmed command timeout True now0 now1 is =
             Some (Sent frame (case rsp_payload r of
                response_payload.Rejected reason controller \<Rightarrow> Some (Inl (RejectedBy reason controller))
              | response_payload.Status _ \<Rightarrow> if command = Status then Some (Inr ()) else first_end command None tail
              | response_payload.Accepted operation \<Rightarrow>
                  if operation = None \<and> command \<noteq> Abort then Some (Inr ()) else first_end command operation tail) v) \<and>
           (\<forall>st. rsp_payload r = response_payload.Status st \<and> command = Status \<longrightarrow>
              cw_printed v = [Inr (client_message.Response (client_response.Status i st))])))"
proof -
  let ?c0 = "with_initial_request_id (initial_request_id hash)"
  let ?ms = "\<lambda>r tail. service_message.Response r # tail"
  have c0: "decoder_pending (rc_decoder ?c0) = Some []"
    by (simp add: with_initial_request_id_def default_decoder_pending)
  have "serving br be d (dm_service d, w)" using assms(5-7) by (simp add: serving_def)
  from command_repeated [OF initial_client_ok assms(1,4) c0 this assms(8,9)]
  obtain k r es s' where *: "handle_packet B (delivered k) (dm_service d) =
        Some (service_message.Response r # map service_message.Event es, s')"
    "k = command_packet i (client_opcode request) (pkt_payload k)"
    "command_content S (enc_payload (rc_encoder ?c0)) request (pkt_payload k)" "rsp_request_id r = i"
    "\<forall>n. \<exists>d'. handle_bytes B (log_env br be) (concat (replicate (Suc n) frame)) d = Some (Inr (), d') \<and> dm_service d' = s' \<and>
        dm_writer d' = Some (w @ message_bytes br be
          (service_message.Response r # map service_message.Event es @ replicate n (service_message.Response r)))"
    by (elim exE conjE) (rule that, assumption+)
  obtain out c1 where e: "client_encode S request ?c0 = Some (out, c1)" "client_ok c1" "rc_decoder c1 = rc_decoder ?c0"
    "\<And>j f. out = Inr (j, f) \<Longrightarrow> j = rc_next_request_id ?c0"
    using client_encode_ok [OF initial_client_ok assms(1), of request "initial_request_id hash"] by metis
  then have c: "client_ok c" "decoder_pending (rc_decoder c) = Some []" "i \<noteq> 0"
    using assms(4) c0 initial_client_ok [of "initial_request_id hash"] by (auto simp: client_ok_def)
  have fits: "fits r"
    using handle_packet_told [OF _ service_reach_told [OF assms(9)] *(1)] service_reach_inv [OF assms(9)] by auto
  have "enc_payload (rc_encoder ?c0) = replicate MAX_PAYLOAD_LEN 0"
    by (simp add: with_initial_request_id_def default_encoder_def)
  moreover have "\<exists>v. run_robotctl S D hash confirmed command timeout True now0 now1 is =
        Some (Sent frame (answer_result command r tail) v) \<and>
      (\<forall>st. rsp_payload r = response_payload.Status st \<and> command = Status \<longrightarrow>
         cw_printed v = [Inr (client_message.Response (client_response.Status i st))])"
    if h: "set tail \<subseteq> {service_message.Response r} \<union> range service_message.Event"
      "\<forall>m \<in> set (?ms r tail). reads_back D br be m"
      "arrives (now0 + timeout) (length (message_bytes br be [service_message.Response r])) is"
      "concat (map received_bytes is) = message_bytes br be (?ms r tail)" for tail "is"
  proof -
    define R where "R = \<lparr> rq_frame = frame, rq_id = i, rq_command = command, rq_deadline = now0 + timeout \<rparr>"
    define v0 where "v0 = (new_wait c now1 :: 'pe ctl_wait)"
    have v0: "cw_client v0 = c" "\<not> cw_response_received v0" "cw_accepted_operation v0 = None" "cw_printed v0 = []"
      by (simp_all add: v0_def new_wait_def)
    have ok: "\<forall>m \<in> set (?ms r tail). message_ok m" using fits c(3) *(4) h(1) by auto
    obtain c2 where "feed (client_push D) (cw_client v0) (concat (map received_bytes is)) =
        Some (c2, map (Inr \<circ> client_message_of) (?ms r tail))"
      using client_reads_frames [OF c(1,2) h(2) assms(6) ok] by (auto simp: h(4) v0)
    moreover have "\<exists>c'. feed (client_push D) (cw_client v0) (take n (concat (map received_bytes is))) = Some (c', [])"
      if "n < length (message_bytes br be [service_message.Response r])" for n
      using client_reads_part [OF c(1,2) assms(6) that] by (simp add: h(4) v0)
    moreover have "arrives (rq_deadline R) (length (message_bytes br be [service_message.Response r])) is"
      using h(3) by (simp add: R_def)
    ultimately obtain v c' where v: "same_messages v0 v"
      "wait_loop D R is v0 = Some (at_client c' (ctl_outs R (map (Inr \<circ> client_message_of) (?ms r tail)) v))"
      using arrives_acts [of R _ "is" v0 D] v0(2) by blast
    have "run_robotctl S D hash confirmed command timeout True now0 now1 is =
        (case wait_loop D R is v0 of None \<Rightarrow> None | Some (r, u) \<Rightarrow> Some (Sent frame r u))"
      using assms(2-4) by (simp add: run_robotctl_def wait_for_result_def R_def v0_def split: option.split)
    moreover have "fst (ctl_outs R (map (Inr \<circ> client_message_of) (?ms r tail)) v) = answer_result command r tail"
      using ctl_outs_answer [of r R v tail] *(4) h(1) v(1) v0(3) by (simp add: R_def same_messages_def)
    moreover have "cw_printed (snd (ctl_outs R (map (Inr \<circ> client_message_of) (?ms r tail)) v)) =
        [Inr (client_message.Response (client_response.Status i st))]"
      if "rsp_payload r = response_payload.Status st" "command = Status" for st
      using that *(4) v(1) v0(4) by (simp add: R_def ctl_message_def same_messages_def)
    ultimately show ?thesis by (simp add: v(2) at_client_def)
  qed
  ultimately show ?thesis
    using * unfolding answer_result_def
    by (intro exI [of _ k] exI [of _ r] exI [of _ es] exI [of _ s']) simp
qed

definition abort_decoders :: "unit client_decoders" where
  "abort_decoders = bench_decoders\<lparr> take_accepted := \<lambda>_. Inr (None, []), take_aborted := \<lambda>_. Inr (None, []) \<rparr>"

lemma bench_abort_answer:
  assumes "i \<noteq> 0" "handle_packet bench (delivered (command_packet i request_opcode.Abort [])) (dm_service bench_daemon) =
      Some (service_message.Response r # ms, s)"
  shows "rsp_payload r = response_payload.Accepted None"
  using assms
  by (auto simp: handle_packet_def dispatch_new_request_def bench_daemon_def bench_start_def with_scanner_def
      drain_events_def Let_def accepted_def delivered_def payload_def command_packet_def request_try_from_def)

lemma bench_abort_encoded:
  "\<exists>frame c1. client_encode bench_serializers client_command.Abort (with_initial_request_id 5) = Some (Inr (5, frame), c1)"
proof -
  obtain frame e' where "(encode_raw (rc_encoder (with_initial_request_id 5)) message_kind.Request (request_u16 request_opcode.Abort) 5 0 ::
      ((unit frame_encode_error + u8 list) \<times> uart_frame_encoder) option) = Some (Inr frame, e')"
    using encode_raw_request [of "rc_encoder (with_initial_request_id 5)" 0 request_opcode.Abort 5] initial_client_ok [of 5]
    by (auto simp: client_ok_def)
  then show ?thesis
    by (auto simp: client_encode_def client_frame_def encode_empty_def Let_def with_initial_request_id_def)
qed

theorem robotctl_answered_witness:
  "\<exists>is1 is2 frame v1 v2. wi_receipt (hd is1) = Timeout \<and>
     run_robotctl bench_serializers abort_decoders 5 False Abort 1000 True 0 0 is1 = Some (Sent frame None v1) \<and>
     run_robotctl bench_serializers abort_decoders 5 False Abort 1000 True 0 0 is2 = Some (Sent frame (Some (Inr ())) v2)"
proof -
  have id: "initial_request_id 5 = 5" by (simp add: initial_request_id_def)
  obtain frame c1 where e: "client_encode bench_serializers client_command.Abort (with_initial_request_id (initial_request_id 5)) =
      Some (Inr (5, frame), c1)"
    using bench_abort_encoded unfolding id by blast
  have guard: "may_move_stand Abort \<longrightarrow> False" "protocol_command Abort = Some (Inr client_command.Abort)"
    by simp_all
  define x where "x = (\<lambda>m. \<lparr> wi_check = 500, wi_plan = 500, wi_receipt = m, wi_after = 500, wi_written = True, wi_sent = 500 \<rparr>)"
  define bytes where "bytes = message_bytes (\<lambda>_. []) (\<lambda>_. [])"
  have arrives: "arrives (0 + 1000) (length (bytes [m])) [x Timeout, x (Received data)]" for m data
    unfolding arrives_def
    by (intro conjI, simp add: x_def, intro exI [of _ "[x Timeout]"] exI [of _ "[x (Received data)]"])
      (auto simp: x_def received_bytes_def bytes_def message_bytes_def uart_frame_bytes_def)
  from robotctl_answered [OF bench_serializers_ok guard e bench_daemon_ready(2-5,1), of abort_decoders 0 1000 0]
  show ?thesis
  proof (elim exE conjE, goal_cases)
    case (1 k r es s')
    then have "pkt_payload k = []" by (simp add: command_content_def)
    with 1 have r: "rsp_payload r = response_payload.Accepted None" using bench_abort_answer [of 5 r _ s'] by simp
    have "\<exists>v. run_robotctl bench_serializers abort_decoders 5 False Abort 1000 True 0 0
          [x Timeout, x (Received (bytes (service_message.Response r # tail)))] = Some (Sent frame (first_end Abort None tail) v)"
      if "tail = [] \<or> tail = [service_message.Event (event_message.Aborted None)]" for tail
      using 1(6) [rule_format, of tail "[x Timeout, x (Received (bytes (service_message.Response r # tail)))]"]
        arrives that r by (auto simp: bytes_def [symmetric] received_bytes_def x_def abort_decoders_def)
    from this [of "[]"] this [of "[service_message.Event (event_message.Aborted None)]"]
    obtain v1 v2 where
      "run_robotctl bench_serializers abort_decoders 5 False Abort 1000 True 0 0
        [x Timeout, x (Received (bytes [service_message.Response r]))] = Some (Sent frame None v1)"
      "run_robotctl bench_serializers abort_decoders 5 False Abort 1000 True 0 0
        [x Timeout, x (Received (bytes [service_message.Response r, service_message.Event (event_message.Aborted None)]))] =
        Some (Sent frame (Some (Inr ())) v2)"
      by (auto simp: first_end_def)
    moreover have "wi_receipt (hd [x Timeout, y]) = Timeout" for y by (simp add: x_def)
    ultimately show ?case by blast
  qed
qed

end
