(* ===== verification/StandShell.thy ===== *)
theory StandShell
  imports StandRuntimeCalls
begin

text \<open>
  The diagnostic shells around the stand runtime. This theory holds what they share, and the shell of
  \<open>src/bin/rubik-stand-runtime.rs\<close>: a loop over the lines of the terminal that ends at \<open>quit\<close>, at the
  end of the input or at Ctrl-C. Printed text is kept as data, and only the write of the prompt fails;
  opening the device, the reading thread, and what installing the signal handler returns are the environment.
\<close>

section \<open>Addresses and names\<close>

text \<open>\<open>u16::from_str_radix\<close>: an optional plus sign and at least one digit, without overflow.\<close>

definition digit_value :: "nat \<Rightarrow> char \<Rightarrow> nat option" where
  "digit_value radix c =
     (let n = (of_char c :: nat);
          v = (if 48 \<le> n \<and> n \<le> 57 then Some (n - 48)
               else if 97 \<le> n \<and> n \<le> 122 then Some (n - 87)
               else if 65 \<le> n \<and> n \<le> 90 then Some (n - 55)
               else None)
      in case v of Some d \<Rightarrow> if d < radix then Some d else None | None \<Rightarrow> None)"

fun digits_value :: "nat \<Rightarrow> nat \<Rightarrow> string \<Rightarrow> nat option" where
  "digits_value radix acc [] = Some acc"
| "digits_value radix acc (c # cs) =
     (case digit_value radix c of
        None \<Rightarrow> None
      | Some d \<Rightarrow> let acc = acc * radix + d in if acc \<ge> 2 ^ 16 then None else digits_value radix acc cs)"

definition from_str_radix :: "nat \<Rightarrow> string \<Rightarrow> nat option" where
  "from_str_radix radix s =
     (let digits = (case s of c # cs \<Rightarrow> if c = CHR ''+'' then cs else s | [] \<Rightarrow> s) in
      if digits = [] then None else digits_value radix 0 digits)"

datatype address_error = BadNumber string | NotSevenBit nat

definition without_prefix :: "string \<Rightarrow> string \<Rightarrow> string option" where
  "without_prefix prefix s = (if take (length prefix) s = prefix then Some (drop (length prefix) s) else None)"

definition parse_address :: "string \<Rightarrow> address_error + nat" where
  "parse_address input =
     (let text = trim input;
          parsed = (case without_prefix ''0x'' text of
              Some hex \<Rightarrow> from_str_radix 16 hex
            | None \<Rightarrow> (case without_prefix ''0X'' text of
                  Some hex \<Rightarrow> from_str_radix 16 hex
                | None \<Rightarrow> from_str_radix 10 text))
      in case parsed of
           None \<Rightarrow> Inl (BadNumber text)
         | Some n \<Rightarrow> if n > 0x7f then Inl (NotSevenBit n) else Inr n)"

fun state_name :: "commanded_stand_state \<Rightarrow> string" where
  "state_name commanded_stand_state.Unknown = ''unknown''"
| "state_name OutputsOff = ''outputs-off''"
| "state_name SafeOpen = ''safe-open''"
| "state_name Gripped = ''gripped''"
| "state_name (ScanHold f) = scan_face_name f"
| "state_name commanded_stand_state.Faulted = ''faulted''"

section \<open>Input\<close>

text \<open>
  What one wait for a line gives. The loop also ends when the list of inputs does: the flag of the
  signal handler is cleared, or the channel is closed. A failed write of the prompt ends it at once.
\<close>

datatype shell_input = Line string bool | ReadFailed string | NoLine

datatype shell_error = ReadError string | PromptError | OffError runtime_error | ResetError runtime_error
  | StartupError string

datatype shell_end = Ended | ShellFailed shell_error

text \<open>\<open>off\<close> at the end of a shell, with \<open>?\<close>.\<close>

definition shell_off :: "('d, 't) runtime_env \<Rightarrow> ('d, 't) stand_runtime \<Rightarrow> shell_end \<times> ('d, 't) stand_runtime" where
  "shell_off E r = (case off E r of Finished r \<Rightarrow> (Ended, r) | Stopped e r \<Rightarrow> (ShellFailed (OffError e), r))"

section \<open>The commands of the stand shell\<close>

datatype face_error = Usage | UnknownFace string

definition parse_scan_pose :: "string \<Rightarrow> face_error + scan_face" where
  "parse_scan_pose command =
     (case split_words is_whitespace command of
        [_, face] \<Rightarrow>
          if face = ''front'' \<or> face = ''f'' then Inr scan_face.Front
          else if face = ''left'' \<or> face = ''l'' then Inr scan_face.Left
          else if face = ''right'' \<or> face = ''r'' then Inr scan_face.Right
          else if face = ''up'' \<or> face = ''u'' then Inr scan_face.Up
          else if face = ''down'' \<or> face = ''d'' then Inr scan_face.Down
          else if face = ''back'' \<or> face = ''b'' then Inr scan_face.Back
          else Inl (UnknownFace face)
      | _ \<Rightarrow> Inl Usage)"

datatype stand_command =
    NoCommand | Help | PrintState | RunCall runtime_call | BadFace face_error | Quit | UnknownCommand string

definition stand_command_of :: "string \<Rightarrow> stand_command" where
  "stand_command_of line =
     (let command = trim line in
      if command = '''' then NoCommand
      else if command = ''help'' then Help
      else if command = ''state'' then PrintState
      else if command = ''safe-open'' then RunCall CallSafeOpen
      else if command = ''grip'' then RunCall CallGrip
      else if take 9 command = ''scan-pose'' then
        (case parse_scan_pose command of Inr face \<Rightarrow> RunCall (CallScanPose face) | Inl e \<Rightarrow> BadFace e)
      else if take 9 command = ''scan-next'' then
        (case parse_scan_pose command of Inr face \<Rightarrow> RunCall (CallScanNext face) | Inl e \<Rightarrow> BadFace e)
      else if command = ''off'' then RunCall CallOff
      else if command = ''reset'' then RunCall CallReset
      else if command = ''quit'' \<or> command = ''exit'' then Quit
      else UnknownCommand command)"

datatype shell_message =
    Commands | StateIs string | CommandFailed runtime_error | FaceError face_error | Unrecognized string

definition report_motion :: "('d, 't) stand_runtime attempt \<Rightarrow> shell_message \<times> ('d, 't) stand_runtime" where
  "report_motion a = (case a of Finished r \<Rightarrow> (StateIs (state_name (rt_state r)), r)
     | Stopped e r \<Rightarrow> (CommandFailed e, r))"

definition stand_command_step :: "('d, 't) runtime_env \<Rightarrow> stand_command \<Rightarrow> ('d, 't) stand_runtime \<Rightarrow>
    shell_message list \<times> ('d, 't) stand_runtime" where
  "stand_command_step E command r =
     (case command of
        Help \<Rightarrow> ([Commands], r)
      | PrintState \<Rightarrow> ([StateIs (state_name (rt_state r))], r)
      | RunCall call \<Rightarrow> (case report_motion (run_call E call r) of (m, r) \<Rightarrow> ([m], r))
      | BadFace e \<Rightarrow> ([FaceError e], r)
      | UnknownCommand text \<Rightarrow> ([Unrecognized text], r)
      | _ \<Rightarrow> ([], r))"

fun stand_shell :: "('d, 't) runtime_env \<Rightarrow> shell_input list \<Rightarrow> ('d, 't) stand_runtime \<Rightarrow>
    shell_message list \<Rightarrow> (shell_end \<times> ('d, 't) stand_runtime) \<times> shell_message list" where
  "stand_shell E [] r out = (shell_off E r, out)"
| "stand_shell E (NoLine # is) r out = stand_shell E is r out"
| "stand_shell E (ReadFailed e # is) r out = ((ShellFailed (ReadError e), r), out)"
| "stand_shell E (Line line prompted # is) r out =
     (let command = stand_command_of line in
      if command = Quit then (shell_off E r, out)
      else case stand_command_step E command r of
        (ms, r) \<Rightarrow>
          if prompted then stand_shell E is r (out @ ms) else ((ShellFailed PromptError, r), out @ ms))"

text \<open>The first argument is what installing the Ctrl-C handler returns.\<close>

definition run_stand_shell :: "(string + unit) \<Rightarrow> ('d, 't) runtime_env \<Rightarrow> bool \<Rightarrow> shell_input list \<Rightarrow> ('d, 't) stand_runtime \<Rightarrow>
    (shell_end \<times> ('d, 't) stand_runtime) \<times> shell_message list" where
  "run_stand_shell handler E prompted is r =
     (case handler of
        Inl e \<Rightarrow> ((ShellFailed (StartupError e), r), [])
      | Inr _ \<Rightarrow> if prompted then stand_shell E is r [] else ((ShellFailed PromptError, r), []))"

text \<open>After the device is open: the reset, then the loop.\<close>

definition stand_shell_main :: "(string + unit) \<Rightarrow> ('d, 't) runtime_env \<Rightarrow> bool \<Rightarrow> shell_input list \<Rightarrow> ('d, 't) stand_runtime \<Rightarrow>
    (shell_end \<times> ('d, 't) stand_runtime) \<times> shell_message list" where
  "stand_shell_main handler E prompted is r =
     (case reset E r of
        Stopped e r \<Rightarrow> ((ShellFailed (ResetError e), r), [])
      | Finished r \<Rightarrow> run_stand_shell handler E prompted is r)"

section \<open>How a shell ends\<close>

text \<open>
  \<open>ended_off\<close>: the shell asked for all outputs to be switched off as its last command, and says whether
  that worked. A terminal that cannot be read or written, and a failing start, end a shell without it.
\<close>

definition ended_off :: "('d, 't) runtime_env \<Rightarrow> shell_end \<times> ('d, 't) stand_runtime \<Rightarrow> bool" where
  "ended_off E result \<longleftrightarrow> (\<exists>d. rt_output (snd result) = snd (pwm_all_off E d) \<and>
     (case fst result of
        Ended \<Rightarrow> fst (pwm_all_off E d) \<and> rt_state (snd result) = OutputsOff
      | ShellFailed e \<Rightarrow> (\<exists>e'. e = OffError e') \<and> rt_state (snd result) = commanded_stand_state.Faulted))"

definition terminal_failed :: "shell_end \<Rightarrow> bool" where
  "terminal_failed r \<longleftrightarrow> r = ShellFailed PromptError \<or> (\<exists>e. r = ShellFailed (ReadError e))"

lemma shell_off_ended: "ended_off E (shell_off E r)"
proof -
  obtain ok d where d: "pwm_all_off E (rt_output r) = (ok, d)" by fastforce
  show ?thesis
  proof (cases ok)
    case True
    then show ?thesis using d
      by (auto simp: shell_off_def off_def reset_def ended_off_def set_state_def intro!: exI [of _ "rt_output r"])
  next
    case False
    obtain ok' d' where "pwm_all_off E d = (ok', d')" by fastforce
    then show ?thesis using d False
      by (auto simp: shell_off_def off_def reset_def fault_def ended_off_def intro!: exI [of _ d])
  qed
qed

lemma stand_command_reach:
  assumes "runtime_reach E r" "stand_command_step E command r = (ms, r')"
  shows "runtime_reach E r'"
proof (cases command)
  case (RunCall call)
  have "runtime_reach E (runtime_after (run_call E call r))" using assms(1) by (rule runtime_reach.call)
  then show ?thesis
    using assms(2) RunCall by (cases "run_call E call r") (simp_all add: stand_command_step_def report_motion_def)
qed (use assms in \<open>simp_all add: stand_command_step_def\<close>)

lemma shell_off_reach: "runtime_reach E r \<Longrightarrow> runtime_reach E (snd (shell_off E r))"
  using runtime_reach.call [of E r CallOff] by (cases "off E r") (simp_all add: shell_off_def)

lemma stand_shell_ends:
  assumes "runtime_reach E r"
  shows "runtime_reach E (snd (fst (stand_shell E is r out))) \<and>
    (ended_off E (fst (stand_shell E is r out)) \<or> terminal_failed (fst (fst (stand_shell E is r out))))"
  using assms
proof (induction E "is" r out rule: stand_shell.induct)
  case (1 E r out)
  then show ?case by (simp add: shell_off_ended shell_off_reach)
next
  case (3 E e "is" r out)
  then show ?case by (simp add: terminal_failed_def)
next
  case (4 E line prompted "is" r out)
  obtain ms r' where r': "stand_command_step E (stand_command_of line) r = (ms, r')" by fastforce
  have reach: "runtime_reach E r'" using stand_command_reach [OF 4(2) r'] .
  show ?case
  proof (cases "stand_command_of line = Quit")
    case True
    then show ?thesis using 4(2) by (simp add: shell_off_ended shell_off_reach)
  next
    case False
    then show ?thesis
      using 4(1) [OF refl False r' [symmetric] _ reach] r' reach
      by (cases prompted) (simp_all add: terminal_failed_def)
  qed
qed simp

end
