(* ===== verification/ScanShell.thy ===== *)
theory ScanShell
  imports StandShell
begin

text \<open>
  The full scan of \<open>src/bin/rubik-full-scan.rs\<close>: gripping the cube, the six captures, the report, and
  the shell that solves and executes. Camera, detector and image processing are the function \<open>capture\<close>
  of \<open>scan_env\<close>; the files of a recording are left out. Printed text is
  kept as data, and only the write of the prompt fails. \<open>None\<close> is the panic of \<open>facelet_string\<close>.
\<close>

section \<open>Results\<close>

record scan_result =
  sr_state :: cube_state
  sr_faces :: "face option list"

definition default_result :: scan_result where
  "default_result = \<lparr> sr_state = default_cube, sr_faces = replicate 6 None \<rparr>"

record ('d, 't, 'c) scan_env =
  se_stand :: "('d, 't) runtime_env"
  se_capture :: "'c \<Rightarrow> (string + face) \<times> 'c"
  se_solver :: "string \<Rightarrow> nat \<Rightarrow> string"
  se_max_moves :: nat

datatype scan_error =
    StandStopped runtime_error
  | CaptureFailed string
  | CubeError cube_error
  | MissingFace logical_face
  | CannotStartScan commanded_stand_state
  | CannotExecute commanded_stand_state

fun logical_face_of :: "scan_face \<Rightarrow> logical_face" where
  "logical_face_of scan_face.Front = logical_face.Front"
| "logical_face_of scan_face.Left = logical_face.Left"
| "logical_face_of scan_face.Right = logical_face.Right"
| "logical_face_of scan_face.Up = logical_face.Up"
| "logical_face_of scan_face.Down = logical_face.Down"
| "logical_face_of scan_face.Back = logical_face.Back"

definition record_face :: "scan_result \<Rightarrow> scan_face \<Rightarrow> face \<Rightarrow> scan_error + scan_result" where
  "record_face result f picture =
     (let l = logical_face_of f in
      case record_scan (sr_state result) \<lparr> sp_face = l, sp_camera_to_face = quarter_turns.Zero \<rparr> picture of
        (Inl e, _) \<Rightarrow> Inl (CubeError e)
      | (Inr _, cube) \<Rightarrow> Inr (result\<lparr> sr_state := cube, sr_faces := (sr_faces result)[face_index l := Some picture] \<rparr>))"

section \<open>Scanning\<close>

text \<open>A step of the scan: the runtime and the camera, with an error or a result.\<close>

type_synonym ('d, 't, 'c, 'x) scan_outcome = "(scan_error + 'x) \<times> ('d, 't) stand_runtime \<times> 'c"

definition stand_then :: "('d, 't) stand_runtime attempt \<Rightarrow> 'c \<Rightarrow> (('d, 't) stand_runtime \<Rightarrow> ('d, 't, 'c, 'x) scan_outcome) \<Rightarrow>
    ('d, 't, 'c, 'x) scan_outcome" where
  "stand_then a c f = (case a of Finished r \<Rightarrow> f r | Stopped e r \<Rightarrow> (Inl (StandStopped e), r, c))"

definition capture_and_record :: "('d, 't, 'c) scan_env \<Rightarrow> scan_face \<Rightarrow> scan_result \<Rightarrow> ('d, 't) stand_runtime \<Rightarrow> 'c \<Rightarrow>
    ('d, 't, 'c, scan_result) scan_outcome" where
  "capture_and_record K f result r c =
     (case se_capture K c of
        (Inl e, c) \<Rightarrow> (Inl (CaptureFailed e), r, c)
      | (Inr picture, c) \<Rightarrow> (record_face result f picture, r, c))"

fun scan_rest :: "('d, 't, 'c) scan_env \<Rightarrow> scan_face list \<Rightarrow> scan_result \<Rightarrow> ('d, 't) stand_runtime \<Rightarrow> 'c \<Rightarrow>
    ('d, 't, 'c, scan_result) scan_outcome" where
  "scan_rest K [] result r c = (Inr result, r, c)"
| "scan_rest K (f # fs) result r c =
     stand_then (scan_next (se_stand K) f r) c (\<lambda>r.
       case capture_and_record K f result r c of
         (Inl e, r, c) \<Rightarrow> (Inl e, r, c)
       | (Inr result, r, c) \<Rightarrow> scan_rest K fs result r c)"

datatype scan_completion = OpenStand | KeepGripped

definition remaining_faces :: "scan_face list" where
  "remaining_faces = [scan_face.Right, scan_face.Down, scan_face.Up, scan_face.Front, scan_face.Back]"

definition full_scan :: "('d, 't, 'c) scan_env \<Rightarrow> scan_completion \<Rightarrow> ('d, 't) stand_runtime \<Rightarrow> 'c \<Rightarrow>
    ('d, 't, 'c, scan_result) scan_outcome" where
  "full_scan K completion r c =
     (if rt_state r \<noteq> SafeOpen then (Inl (CannotStartScan (rt_state r)), r, c)
      else stand_then (grip_cube (se_stand K) r) c (\<lambda>r.
        stand_then (scan_pose_op (se_stand K) scan_face.Left r) c (\<lambda>r.
          case capture_and_record K scan_face.Left default_result r c of
            (Inl e, r, c) \<Rightarrow> (Inl e, r, c)
          | (Inr result, r, c) \<Rightarrow>
              (case scan_rest K remaining_faces result r c of
                 (Inl e, r, c) \<Rightarrow> (Inl e, r, c)
               | (Inr result, r, c) \<Rightarrow>
                   stand_then (case completion of
                       OpenStand \<Rightarrow> finish_scan (se_stand K) r
                     | KeepGripped \<Rightarrow> finish_scan_for_execution (se_stand K) r) c (\<lambda>r. (Inr result, r, c))))))"

section \<open>The report\<close>

definition face_row :: "face \<Rightarrow> nat \<Rightarrow> string" where
  "face_row f row = (case map color_symbol (take 3 (drop (row * 3) (stickers f))) of
     [] \<Rightarrow> [] | c # cs \<Rightarrow> c # concat (map (\<lambda>c. [CHR '' '', c]) cs))"

definition color_counts :: "face list \<Rightarrow> u8 list" where
  "color_counts fs = fold (\<lambda>color counts. counts[color_index color := counts ! color_index color + 1])
     (concat (map stickers fs)) (replicate 6 0)"

datatype report_line =
    SingleFace string
  | SideFaces "string list"
  | ColorFacelet string
  | ColorCounts "u8 list"
  | SolverFacelet string

definition result_face :: "scan_result \<Rightarrow> logical_face \<Rightarrow> scan_error + face" where
  "result_face result l = (case sr_faces result ! face_index l of None \<Rightarrow> Inl (MissingFace l) | Some f \<Rightarrow> Inr f)"

definition print_scan_result :: "scan_result \<Rightarrow> ((scan_error + string) \<times> report_line list) option" where
  "print_scan_result result =
     (case collect_results (result_face result) [logical_face.Up, logical_face.Right, logical_face.Front,
         logical_face.Down, logical_face.Left, logical_face.Back] of
        Inr [up, right, front, down, left, rear] \<Rightarrow>
          let net = map (\<lambda>row. SingleFace (face_row up row)) [0, 1, 2] @
                map (\<lambda>row. SideFaces (map (\<lambda>f. face_row f row) [left, front, right, rear])) [0, 1, 2] @
                map (\<lambda>row. SingleFace (face_row down row)) [0, 1, 2] @
                [ColorFacelet (concat (map compact [up, right, front, down, left, rear])),
                 ColorCounts (color_counts [up, right, front, down, left, rear])] in do {
          r \<leftarrow> facelet_string (sr_state result);
          (case r of
             Inl e \<Rightarrow> Some (Inl (CubeError e), net)
           | Inr facelets \<Rightarrow> Some (Inr facelets, net @ [SolverFacelet facelets])) }
      | Inl e \<Rightarrow> Some (Inl e, [])
      | Inr _ \<Rightarrow> None)"

section \<open>Execution\<close>

fun probe_moves :: "('d, 't) runtime_env \<Rightarrow> cube_move list \<Rightarrow> ('d, 't) stand_runtime \<Rightarrow> ('d, 't) stand_runtime attempt" where
  "probe_moves E [] r = Finished r"
| "probe_moves E (m # ms) r = on_finish (execute_probe_move E m r) (probe_moves E ms)"

definition execute_solution :: "('d, 't) runtime_env \<Rightarrow> cube_move list \<Rightarrow> ('d, 't) stand_runtime \<Rightarrow>
    (scan_error + unit) \<times> ('d, 't) stand_runtime" where
  "execute_solution E moves r =
     (let ready = (case rt_state r of
          SafeOpen \<Rightarrow> Some (grip_cube E r)
        | Gripped \<Rightarrow> Some (Finished r)
        | _ \<Rightarrow> None)
      in case ready of
           None \<Rightarrow> (Inl (CannotExecute (rt_state r)), r)
         | Some a \<Rightarrow> (case on_finish a (probe_moves E moves) of
               Finished r \<Rightarrow> (Inr (), r)
             | Stopped e r \<Rightarrow> (Inl (StandStopped e), r)))"

section \<open>The shell\<close>

record ('d, 't, 'c) scan_shell =
  sh_stand :: "('d, 't) stand_runtime"
  sh_camera :: 'c
  sh_last_scan :: "scan_result option"
  sh_pending :: "cube_move list option"
  sh_scan_number :: u32

datatype shell_command =
    NoCommand | Help | PrintState | Scan | Solve | Execute | ScanSolveExecute | Cancel | SwitchOff | Quit
  | UnknownCommand string

definition shell_command_of :: "string \<Rightarrow> shell_command" where
  "shell_command_of line =
     (let command = trim line in
      if command = '''' then NoCommand
      else if command = ''help'' then Help
      else if command = ''state'' then PrintState
      else if command = ''scan'' then Scan
      else if command = ''solve'' then Solve
      else if command = ''execute'' then Execute
      else if command = ''scan-solve-execute'' then ScanSolveExecute
      else if command = ''cancel'' then Cancel
      else if command = ''off'' then SwitchOff
      else if command = ''quit'' \<or> command = ''exit'' then Quit
      else UnknownCommand command)"

datatype scan_message =
    Commands
  | StateIs string
  | Report "report_line list"
  | ScanAccepted
  | InvalidFacelet scan_error
  | ScanStopped scan_error
  | Solution string
  | ReadyToExecute nat
  | UnreadableSolution cube_error
  | SolverRefused cube_error
  | NoScan
  | Executed
  | ExecutionStopped string scan_error
  | NotArmed
  | AllDone
  | Cancelled
  | OutputsAreOff
  | Unrecognized string

definition shell_scan :: "('d, 't, 'c) scan_env \<Rightarrow> ('d, 't, 'c) scan_shell \<Rightarrow>
    (scan_message list \<times> ('d, 't, 'c) scan_shell) option" where
  "shell_scan K s =
     (let s = s\<lparr> sh_pending := None, sh_last_scan := None, sh_scan_number := sh_scan_number s + 1 \<rparr> in
      case full_scan K OpenStand (sh_stand s) (sh_camera s) of
        (Inl e, r, c) \<Rightarrow> Some ([ScanStopped e], s\<lparr> sh_stand := r, sh_camera := c \<rparr>)
      | (Inr result, r, c) \<Rightarrow>
          let s = s\<lparr> sh_stand := r, sh_camera := c \<rparr> in do {
          (facelets, report) \<leftarrow> print_scan_result result;
          (case facelets of
             Inl e \<Rightarrow> Some ([Report report, InvalidFacelet e], s)
           | Inr _ \<Rightarrow> Some ([Report report, ScanAccepted], s\<lparr> sh_last_scan := Some result \<rparr>)) })"

text \<open>Solving the saved scan: the messages and the parsed moves.\<close>

definition solve_scan :: "('d, 't, 'c) scan_env \<Rightarrow> scan_result \<Rightarrow> (scan_message list \<times> (string \<times> cube_move list) option) option" where
  "solve_scan K result = do {
     r \<leftarrow> cube_solve (se_solver K) (sr_state result) (se_max_moves K);
     (case r of
        Inl e \<Rightarrow> Some ([SolverRefused e], None)
      | Inr solution \<Rightarrow> (case parse_solution solution of
            Inl e \<Rightarrow> Some ([UnreadableSolution e], None)
          | Inr moves \<Rightarrow> Some ([Solution solution], Some (solution, moves)))) }"

definition shell_solve :: "('d, 't, 'c) scan_env \<Rightarrow> ('d, 't, 'c) scan_shell \<Rightarrow>
    (scan_message list \<times> ('d, 't, 'c) scan_shell) option" where
  "shell_solve K s =
     (case sh_last_scan s of
        None \<Rightarrow> Some ([NoScan], s)
      | Some result \<Rightarrow> do {
          (ms, solved) \<leftarrow> solve_scan K result;
          (case solved of
             None \<Rightarrow> Some (ms, s\<lparr> sh_pending := None \<rparr>)
           | Some (_, moves) \<Rightarrow> Some (ms @ [ReadyToExecute (length moves)], s\<lparr> sh_pending := Some moves \<rparr>)) })"

definition shell_execute :: "('d, 't, 'c) scan_env \<Rightarrow> ('d, 't, 'c) scan_shell \<Rightarrow> scan_message list \<times> ('d, 't, 'c) scan_shell" where
  "shell_execute K s =
     (case sh_pending s of
        None \<Rightarrow> ([NotArmed], s)
      | Some moves \<Rightarrow>
          let s = s\<lparr> sh_pending := None \<rparr> in
          case execute_solution (se_stand K) moves (sh_stand s) of
            (Inr _, r) \<Rightarrow> ([Executed], s\<lparr> sh_stand := r \<rparr>)
          | (Inl e, r) \<Rightarrow> ([ExecutionStopped (state_name (rt_state r)) e], s\<lparr> sh_stand := r \<rparr>))"

definition shell_automatic :: "('d, 't, 'c) scan_env \<Rightarrow> ('d, 't, 'c) scan_shell \<Rightarrow>
    (scan_message list \<times> ('d, 't, 'c) scan_shell) option" where
  "shell_automatic K s =
     (let s = s\<lparr> sh_pending := None, sh_last_scan := None, sh_scan_number := sh_scan_number s + 1 \<rparr> in
      case full_scan K KeepGripped (sh_stand s) (sh_camera s) of
        (Inl e, r, c) \<Rightarrow> Some ([ScanStopped e], s\<lparr> sh_stand := r, sh_camera := c \<rparr>)
      | (Inr result, r, c) \<Rightarrow>
          let s = s\<lparr> sh_stand := r, sh_camera := c \<rparr> in do {
          (facelets, report) \<leftarrow> print_scan_result result;
          (case facelets of
             Inl e \<Rightarrow> Some ([Report report, InvalidFacelet e], s)
           | Inr _ \<Rightarrow> do {
               (ms, solved) \<leftarrow> solve_scan K result;
               let (done_ms, r) = (case solved of
                   None \<Rightarrow> ([], sh_stand s)
                 | Some (_, moves) \<Rightarrow>
                     (case execute_solution (se_stand K) moves (sh_stand s) of
                        (Inl e, r) \<Rightarrow> ([ExecutionStopped (state_name (rt_state r)) e], r)
                      | (Inr _, r) \<Rightarrow> (case safe_open (se_stand K) r of
                            Finished r \<Rightarrow> ([AllDone], r)
                          | Stopped e r \<Rightarrow> ([ExecutionStopped (state_name (rt_state r)) (StandStopped e)], r)))) in
               Some (Report report # ms @ done_ms, s\<lparr> sh_stand := r, sh_last_scan := Some result \<rparr>) }) })"

text \<open>One line. The second component says how the shell ended, if it did.\<close>

definition shell_line :: "('d, 't, 'c) scan_env \<Rightarrow> string \<Rightarrow> ('d, 't, 'c) scan_shell \<Rightarrow>
    (scan_message list \<times> shell_end option \<times> ('d, 't, 'c) scan_shell) option" where
  "shell_line K line s =
     (let continue = map_option (\<lambda>(ms, s). (ms, None, s)) in
      case shell_command_of line of
        NoCommand \<Rightarrow> Some ([], None, s)
      | Help \<Rightarrow> Some ([Commands], None, s)
      | PrintState \<Rightarrow> Some ([StateIs (state_name (rt_state (sh_stand s)))], None, s)
      | Scan \<Rightarrow> continue (shell_scan K s)
      | Solve \<Rightarrow> continue (shell_solve K s)
      | Execute \<Rightarrow> continue (Some (shell_execute K s))
      | ScanSolveExecute \<Rightarrow> continue (shell_automatic K s)
      | Cancel \<Rightarrow> Some ([Cancelled], None, s\<lparr> sh_pending := None \<rparr>)
      | SwitchOff \<Rightarrow> (case shell_off (se_stand K) (sh_stand s) of
            (Ended, r) \<Rightarrow> Some ([OutputsAreOff], None, s\<lparr> sh_stand := r \<rparr>)
          | (e, r) \<Rightarrow> Some ([], Some e, s\<lparr> sh_stand := r \<rparr>))
      | Quit \<Rightarrow> (case shell_off (se_stand K) (sh_stand s) of (e, r) \<Rightarrow>
            Some (if e = Ended then [OutputsAreOff] else [], Some e, s\<lparr> sh_stand := r \<rparr>))
      | UnknownCommand text \<Rightarrow> Some ([Unrecognized text], None, s))"

fun scan_shell_loop :: "('d, 't, 'c) scan_env \<Rightarrow> shell_input list \<Rightarrow> ('d, 't, 'c) scan_shell \<Rightarrow> scan_message list \<Rightarrow>
    (shell_end \<times> ('d, 't, 'c) scan_shell \<times> scan_message list) option" where
  "scan_shell_loop K [] s out =
     (case shell_off (se_stand K) (sh_stand s) of (e, r) \<Rightarrow>
        Some (e, s\<lparr> sh_stand := r \<rparr>, if e = Ended then out @ [OutputsAreOff] else out))"
| "scan_shell_loop K (NoLine # is) s out = scan_shell_loop K is s out"
| "scan_shell_loop K (ReadFailed e # is) s out = Some (ShellFailed (ReadError e), s, out)"
| "scan_shell_loop K (Line line prompted # is) s out = do {
     (ms, ended, s) \<leftarrow> shell_line K line s;
     (case ended of
        Some e \<Rightarrow> Some (e, s, out @ ms)
      | None \<Rightarrow> if prompted then scan_shell_loop K is s (out @ ms)
          else Some (ShellFailed PromptError, s, out @ ms)) }"

definition new_scan_shell :: "('d, 't) stand_runtime \<Rightarrow> 'c \<Rightarrow> ('d, 't, 'c) scan_shell" where
  "new_scan_shell r c = \<lparr> sh_stand = r, sh_camera = c, sh_last_scan = None, sh_pending = None, sh_scan_number = 0 \<rparr>"

text \<open>
  What the rest of the start returns, after the stand is open: the path of the sensor configuration as a C
  string, the camera, its warm-up, the detector, and the Ctrl-C handler, in this order.
\<close>

record scan_startup =
  su_sensor_path :: "string + unit"
  su_camera :: "string + unit"
  su_warmup :: "string + unit"
  su_detector :: "string + unit"
  su_handler :: "string + unit"

definition start_scanner :: "scan_startup \<Rightarrow> string + unit" where
  "start_scanner u =
     (case su_sensor_path u of Inl e \<Rightarrow> Inl e | Inr _ \<Rightarrow>
      case su_camera u of Inl e \<Rightarrow> Inl e | Inr _ \<Rightarrow>
      case su_warmup u of Inl e \<Rightarrow> Inl e | Inr _ \<Rightarrow>
      case su_detector u of Inl e \<Rightarrow> Inl e | Inr _ \<Rightarrow> su_handler u)"

text \<open>
  \<open>main\<close> after the device is open: the reset, the opening of the stand, the rest of the start, of which every
  error returns at once, and the loop.
\<close>

definition run_scan_shell :: "('d, 't, 'c) scan_env \<Rightarrow> scan_startup \<Rightarrow> bool \<Rightarrow> shell_input list \<Rightarrow> ('d, 't) stand_runtime \<Rightarrow>
    'c \<Rightarrow> (shell_end \<times> ('d, 't, 'c) scan_shell \<times> scan_message list) option" where
  "run_scan_shell K u prompted is r c =
     (case on_finish (reset (se_stand K) r) (safe_open (se_stand K)) of
        Stopped e r \<Rightarrow> Some (ShellFailed (ResetError e), new_scan_shell r c, [])
      | Finished r \<Rightarrow>
          (case start_scanner u of
             Inl e \<Rightarrow> Some (ShellFailed (StartupError e), new_scan_shell r c, [])
           | Inr _ \<Rightarrow>
               if prompted then scan_shell_loop K is (new_scan_shell r c) []
               else Some (ShellFailed PromptError, new_scan_shell r c, [])))"

end
