(* ===== verification/ScanShellSafety.thy ===== *)
theory ScanShellSafety
  imports ScanShell
begin

text \<open>
  The full scan shell: no input makes it panic, and it ends with the outputs commanded off unless its
  start or the terminal fails; with working outputs the automatic command scans with the scanning plan and executes
  the solver's answer with the baseline plan, so that it makes exactly those moves.
\<close>

section \<open>Pictures and the recorded cube\<close>

text \<open>A \<open>Face\<close> holds nine stickers.\<close>

definition camera_ok :: "('d, 't, 'c) scan_env \<Rightarrow> bool" where
  "camera_ok K \<longleftrightarrow> (\<forall>c f c'. se_capture K c = (Inr f, c') \<longrightarrow> face_ok f)"

lemma record_face_ok:
  assumes "record_face result f picture = Inr result'" "cube_ok (sr_state result)" "face_ok picture"
  shows "cube_ok (sr_state result')"
proof -
  let ?pose = "\<lparr> sp_face = logical_face_of f, sp_camera_to_face = quarter_turns.Zero \<rparr>"
  obtain x cube where x: "record_scan (sr_state result) ?pose picture = (x, cube)" by fastforce
  then have "sr_state result' = cube"
    using assms(1) by (auto simp: record_face_def Let_def split: sum.splits)
  then show ?thesis using record_scan_ok [OF assms(2,3), of ?pose] x by simp
qed

lemma capture_and_record_ok:
  assumes "capture_and_record K f result r c = (x, r', c')" "camera_ok K" "cube_ok (sr_state result)"
  shows "r' = r \<and> (\<forall>result'. x = Inr result' \<longrightarrow> cube_ok (sr_state result'))"
proof -
  obtain y d where y: "se_capture K c = (y, d)" by fastforce
  show ?thesis
  proof (cases y)
    case (Inr picture)
    then have "face_ok picture" using assms(2) y by (auto simp: camera_ok_def)
    then show ?thesis
      using assms(1) y Inr record_face_ok [OF _ assms(3)] by (auto simp: capture_and_record_def)
  qed (use assms(1) y in \<open>auto simp: capture_and_record_def\<close>)
qed

definition outcome_ok :: "('d, 't, 'c) scan_env \<Rightarrow> ('d, 't, 'c, scan_result) scan_outcome \<Rightarrow> bool" where
  "outcome_ok K out = (case out of (x, r, c) \<Rightarrow> runtime_reach (se_stand K) r \<and>
     (\<forall>result. x = Inr result \<longrightarrow> cube_ok (sr_state result)))"

lemma outcome_ok_simps [simp]:
  "outcome_ok K (Inl e, r, c) = runtime_reach (se_stand K) r"
  "outcome_ok K (Inr result, r, c) = (runtime_reach (se_stand K) r \<and> cube_ok (sr_state result))"
  by (simp_all add: outcome_ok_def)

lemma stand_then_ok:
  assumes "runtime_reach (se_stand K) r" "a = run_call (se_stand K) call r"
    and "\<And>r'. runtime_reach (se_stand K) r' \<Longrightarrow> outcome_ok K (f r')"
  shows "outcome_ok K (stand_then a c f)"
  using runtime_reach.call [OF assms(1), of call] assms(3) unfolding assms(2)
  by (cases "run_call (se_stand K) call r") (auto simp: stand_then_def)

lemma capture_then_ok:
  assumes "camera_ok K" "cube_ok (sr_state result)" "runtime_reach (se_stand K) r"
    and "\<And>result' c'. cube_ok (sr_state result') \<Longrightarrow> outcome_ok K (g result' r c')"
  shows "outcome_ok K (case capture_and_record K f result r c of
    (Inl e, r, c) \<Rightarrow> (Inl e, r, c) | (Inr result, r, c) \<Rightarrow> g result r c)"
proof -
  obtain x r' c' where x: "capture_and_record K f result r c = (x, r', c')" by (metis prod.exhaust)
  then show ?thesis
    using capture_and_record_ok [OF x assms(1,2)] assms(3,4) by (cases x) auto
qed

lemma scan_rest_ok:
  "camera_ok K \<Longrightarrow> cube_ok (sr_state result) \<Longrightarrow> runtime_reach (se_stand K) r \<Longrightarrow> outcome_ok K (scan_rest K fs result r c)"
proof (induction fs arbitrary: result r c)
  case (Cons f fs)
  show ?case
    unfolding scan_rest.simps
    by (rule stand_then_ok [OF Cons.prems(3), of _ "CallScanNext f"])
      (use Cons in \<open>auto intro!: capture_then_ok\<close>)
qed simp

lemma default_result_ok: "cube_ok (sr_state default_result)"
  by (simp add: default_result_def default_cube_ok)

lemma full_scan_ok:
  assumes "camera_ok K" "runtime_reach (se_stand K) r"
  shows "outcome_ok K (full_scan K completion r c)"
proof -
  have last: "outcome_ok K (stand_then (case completion of OpenStand \<Rightarrow> finish_scan (se_stand K) r
      | KeepGripped \<Rightarrow> finish_scan_for_execution (se_stand K) r) c (\<lambda>r. (Inr result, r, c)))"
    if "cube_ok (sr_state result)" "runtime_reach (se_stand K) r" for result r c
    by (rule stand_then_ok [OF that(2), of _ "case completion of OpenStand \<Rightarrow> CallFinishScan | KeepGripped \<Rightarrow> CallFinishForExecution"])
      (use that in \<open>auto split: scan_completion.split\<close>)
  have rest: "outcome_ok K (case scan_rest K remaining_faces result r c of (Inl e, r, c) \<Rightarrow> (Inl e, r, c)
      | (Inr result, r, c) \<Rightarrow> stand_then (case completion of OpenStand \<Rightarrow> finish_scan (se_stand K) r
          | KeepGripped \<Rightarrow> finish_scan_for_execution (se_stand K) r) c (\<lambda>r. (Inr result, r, c)))"
    if "cube_ok (sr_state result)" "runtime_reach (se_stand K) r" for result r c
  proof -
    obtain x r' c' where x: "scan_rest K remaining_faces result r c = (x, r', c')" by (metis prod.exhaust)
    then show ?thesis using scan_rest_ok [OF assms(1) that, of remaining_faces c] last by (cases x) simp_all
  qed
  show ?thesis
  proof (cases "rt_state r = SafeOpen")
    case True
    have left: "outcome_ok K (stand_then (scan_pose_op (se_stand K) scan_face.Left r) c (\<lambda>r.
        case capture_and_record K scan_face.Left default_result r c of (Inl e, r, c) \<Rightarrow> (Inl e, r, c)
        | (Inr result, r, c) \<Rightarrow> (case scan_rest K remaining_faces result r c of (Inl e, r, c) \<Rightarrow> (Inl e, r, c)
          | (Inr result, r, c) \<Rightarrow> stand_then (case completion of OpenStand \<Rightarrow> finish_scan (se_stand K) r
              | KeepGripped \<Rightarrow> finish_scan_for_execution (se_stand K) r) c (\<lambda>r. (Inr result, r, c)))))"
      if "runtime_reach (se_stand K) r" for r
      by (rule stand_then_ok [OF that, of _ "CallScanPose scan_face.Left"])
        (simp, intro capture_then_ok [OF assms(1) default_result_ok] rest)
    have "full_scan K completion r c = stand_then (grip_cube (se_stand K) r) c (\<lambda>r.
        stand_then (scan_pose_op (se_stand K) scan_face.Left r) c (\<lambda>r.
        case capture_and_record K scan_face.Left default_result r c of (Inl e, r, c) \<Rightarrow> (Inl e, r, c)
        | (Inr result, r, c) \<Rightarrow> (case scan_rest K remaining_faces result r c of (Inl e, r, c) \<Rightarrow> (Inl e, r, c)
          | (Inr result, r, c) \<Rightarrow> stand_then (case completion of OpenStand \<Rightarrow> finish_scan (se_stand K) r
              | KeepGripped \<Rightarrow> finish_scan_for_execution (se_stand K) r) c (\<lambda>r. (Inr result, r, c)))))"
      by (simp add: full_scan_def True)
    then show ?thesis using stand_then_ok [OF assms(2), of _ CallGrip, OF _ left] by simp
  qed (use assms in \<open>simp add: full_scan_def\<close>)
qed

section \<open>The shell never panics\<close>

lemma print_scan_result_total:
  assumes "cube_ok (sr_state result)"
  shows "\<exists>x. print_scan_result result = Some x"
proof -
  let ?faces = "[logical_face.Up, logical_face.Right, logical_face.Front, logical_face.Down, logical_face.Left, logical_face.Back]"
  obtain y where y: "facelet_string (sr_state result) = Some y" using facelet_string_spec [OF assms] by blast
  show ?thesis
  proof (cases "collect_results (result_face result) ?faces")
    case (Inr fs)
    then have "length fs = length ?faces" using collect_results_ok list_all2_lengthD by metis
    then obtain a b c d e f where "fs = [a, b, c, d, e, f]"
      by (auto simp: length_Suc_conv)
    then show ?thesis using Inr y by (cases y) (simp_all add: print_scan_result_def Let_def)
  qed (simp add: print_scan_result_def)
qed

lemma solve_scan_total:
  assumes "cube_ok (sr_state result)"
  shows "\<exists>ms solved. solve_scan K result = Some (ms, solved)"
proof -
  obtain y where "facelet_string (sr_state result) = Some y" using facelet_string_spec [OF assms] by blast
  then obtain z where "cube_solve (se_solver K) (sr_state result) (se_max_moves K) = Some z"
    by (cases y) (simp_all add: cube_solve_def)
  then show ?thesis by (cases z) (auto simp: solve_scan_def split: sum.split)
qed

definition shell_ok :: "('d, 't, 'c) scan_env \<Rightarrow> ('d, 't, 'c) scan_shell \<Rightarrow> bool" where
  "shell_ok K s \<longleftrightarrow> runtime_reach (se_stand K) (sh_stand s) \<and>
     (\<forall>result. sh_last_scan s = Some result \<longrightarrow> cube_ok (sr_state result))"

definition line_ok :: "('d, 't, 'c) scan_env \<Rightarrow> (scan_message list \<times> ('d, 't, 'c) scan_shell) option \<Rightarrow> bool" where
  "line_ok K out \<longleftrightarrow> (\<exists>ms s. out = Some (ms, s) \<and> shell_ok K s)"

lemma line_ok_Some [simp]: "line_ok K (Some (ms, s)) = shell_ok K s"
  by (simp add: line_ok_def)

lemma shell_scan_ok:
  assumes "camera_ok K" "shell_ok K s"
  shows "line_ok K (shell_scan K s)"
proof -
  obtain x r c where x: "full_scan K OpenStand (sh_stand s) (sh_camera s) = (x, r, c)" by (metis prod.exhaust)
  have ok: "outcome_ok K (x, r, c)"
    using full_scan_ok [OF assms(1), of "sh_stand s" OpenStand "sh_camera s"] assms(2) x by (simp add: shell_ok_def)
  show ?thesis
  proof (cases x)
    case (Inr result)
    obtain facelets report where p: "print_scan_result result = Some (facelets, report)"
      using print_scan_result_total [of result] ok Inr by auto
    then show ?thesis using x ok Inr by (cases facelets) (simp_all add: shell_scan_def shell_ok_def Let_def)
  qed (use x ok in \<open>simp add: shell_scan_def shell_ok_def Let_def\<close>)
qed

lemma shell_solve_ok:
  assumes "shell_ok K s"
  shows "line_ok K (shell_solve K s)"
proof (cases "sh_last_scan s")
  case (Some result)
  then obtain ms solved where "solve_scan K result = Some (ms, solved)"
    using solve_scan_total assms unfolding shell_ok_def by metis
  then show ?thesis using assms Some by (auto simp: shell_solve_def shell_ok_def split: option.split)
qed (use assms in \<open>simp add: shell_solve_def\<close>)

lemma probe_moves_reach:
  "runtime_reach E r \<Longrightarrow> runtime_reach E (runtime_after (probe_moves E ms r))"
proof (induction ms arbitrary: r)
  case (Cons m ms)
  then show ?case using runtime_reach.call [OF Cons.prems, of "CallProbeMove m"]
    by (cases "execute_probe_move E m r") simp_all
qed simp

lemma execute_solution_reach:
  assumes "runtime_reach E r" "execute_solution E moves r = (x, r')"
  shows "runtime_reach E r'"
proof -
  have "runtime_reach E (runtime_after (grip_cube E r))"
    using runtime_reach.call [OF assms(1), of CallGrip] by simp
  then have "runtime_reach E (runtime_after (on_finish (grip_cube E r) (probe_moves E moves)))"
    using probe_moves_reach by (cases "grip_cube E r") auto
  moreover have "runtime_reach E (runtime_after (probe_moves E moves r))" using probe_moves_reach assms(1) .
  ultimately show ?thesis
    using assms by (auto simp: execute_solution_def split: commanded_stand_state.splits attempt.splits)
qed

lemma shell_execute_ok: "shell_ok K s \<Longrightarrow> shell_ok K (snd (shell_execute K s))"
  by (auto simp: shell_execute_def shell_ok_def Let_def split: option.split sum.split prod.split
      dest: execute_solution_reach)

lemma shell_automatic_ok:
  assumes "camera_ok K" "shell_ok K s"
  shows "line_ok K (shell_automatic K s)"
proof -
  obtain x r c where x: "full_scan K KeepGripped (sh_stand s) (sh_camera s) = (x, r, c)" by (metis prod.exhaust)
  have ok: "outcome_ok K (x, r, c)"
    using full_scan_ok [OF assms(1), of "sh_stand s" KeepGripped "sh_camera s"] assms(2) x by (simp add: shell_ok_def)
  have opened: "runtime_reach (se_stand K) r \<Longrightarrow> runtime_reach (se_stand K) (runtime_after (safe_open (se_stand K) r))" for r
    using runtime_reach.call [of "se_stand K" r CallSafeOpen] by simp
  show ?thesis
  proof (cases x)
    case (Inr result)
    obtain facelets report where p: "print_scan_result result = Some (facelets, report)"
      using print_scan_result_total [of result] ok Inr by auto
    obtain ms solved where s: "solve_scan K result = Some (ms, solved)"
      using solve_scan_total [of result K] ok Inr by auto
    show ?thesis
    proof (cases facelets)
      case (Inl e)
      then show ?thesis using x ok Inr p by (simp add: shell_automatic_def shell_ok_def Let_def)
    next
      case f: (Inr facelet)
      show ?thesis
      proof (cases solved)
        case None
        then show ?thesis using x ok Inr p s f by (simp add: shell_automatic_def shell_ok_def Let_def)
      next
        case (Some m)
        obtain y r' where y: "execute_solution (se_stand K) (snd m) r = (y, r')" by fastforce
        then have "runtime_reach (se_stand K) r'" using execute_solution_reach ok Inr by auto
        then show ?thesis using x ok Inr p s f Some y opened [of r']
          by (cases m; cases y; cases "safe_open (se_stand K) r'")
            (simp_all add: shell_automatic_def shell_ok_def Let_def)
      qed
    qed
  qed (use x ok in \<open>simp add: shell_automatic_def shell_ok_def Let_def\<close>)
qed

lemma shell_line_ok:
  assumes "camera_ok K" "shell_ok K s"
  shows "\<exists>ms e s'. shell_line K line s = Some (ms, e, s') \<and> shell_ok K s' \<and>
    (\<forall>x. e = Some x \<longrightarrow> ended_off (se_stand K) (x, sh_stand s'))"
proof -
  obtain x r where off: "shell_off (se_stand K) (sh_stand s) = (x, r)" by fastforce
  have "shell_ok K (s\<lparr> sh_stand := r \<rparr>)" "ended_off (se_stand K) (x, r)"
    using shell_off_reach [of "se_stand K" "sh_stand s"] shell_off_ended [of "se_stand K" "sh_stand s"] assms(2) off
    by (simp_all add: shell_ok_def)
  moreover have "shell_ok K (s\<lparr> sh_pending := None \<rparr>)" using assms(2) by (simp add: shell_ok_def)
  moreover obtain ms1 s1 ms2 s2 ms3 s3 where "shell_scan K s = Some (ms1, s1)" "shell_ok K s1"
    "shell_solve K s = Some (ms2, s2)" "shell_ok K s2" "shell_automatic K s = Some (ms3, s3)" "shell_ok K s3"
    using shell_scan_ok [OF assms] shell_solve_ok [OF assms(2)] shell_automatic_ok [OF assms]
    unfolding line_ok_def by blast
  moreover obtain ms4 s4 where "shell_execute K s = (ms4, s4)" "shell_ok K s4"
    using shell_execute_ok [OF assms(2)] by (cases "shell_execute K s") simp
  ultimately show ?thesis
    using assms(2) off
    by (cases "shell_command_of line"; cases x) (simp_all add: shell_line_def Let_def)
qed

lemma scan_shell_loop_ends:
  "camera_ok K \<Longrightarrow> shell_ok K s \<Longrightarrow> \<exists>e s' out'. scan_shell_loop K is s out = Some (e, s', out') \<and> shell_ok K s' \<and>
     (ended_off (se_stand K) (e, sh_stand s') \<or> terminal_failed e)"
proof (induction K "is" s out rule: scan_shell_loop.induct)
  case (1 K s out)
  then show ?case
    using shell_off_reach [of "se_stand K" "sh_stand s"] shell_off_ended [of "se_stand K" "sh_stand s"]
    by (auto simp: shell_ok_def split: prod.split)
next
  case (3 K e "is" s out)
  then show ?case by (simp add: terminal_failed_def)
next
  case (4 K line prompted "is" s out)
  obtain ms e s' where l: "shell_line K line s = Some (ms, e, s')" "shell_ok K s'"
    "\<forall>x. e = Some x \<longrightarrow> ended_off (se_stand K) (x, sh_stand s')"
    using shell_line_ok [OF 4(2,3)] by blast
  then show ?case
    using 4(1) [of "(ms, e, s')" ms "(e, s')" e s'] 4(2) by (cases e; cases prompted) (auto simp: terminal_failed_def)
qed simp

section \<open>From the first command to the last\<close>

definition commanded_off :: "('d, 't) runtime_env \<Rightarrow> ('d, 't) stand_runtime \<Rightarrow> bool" where
  "commanded_off E r \<longleftrightarrow> (\<exists>d. rt_output r = snd (pwm_all_off E d))"

lemma reset_off: "commanded_off E (runtime_after (reset E r))"
proof -
  obtain ok d where d: "pwm_all_off E (rt_output r) = (ok, d)" by fastforce
  obtain ok' d' where "pwm_all_off E d = (ok', d')" by fastforce
  then have "\<exists>x. d = snd (pwm_all_off E x)" "\<exists>x. d' = snd (pwm_all_off E x)" using d by (metis snd_conv)+
  then show ?thesis
    using d \<open>pwm_all_off E d = (ok', d')\<close>
    by (cases ok) (simp_all add: reset_def fault_def commanded_off_def set_state_def Let_def)
qed

lemma call_off:
  assumes "run_call E call r = Stopped e r'" "commanded_off E r"
  shows "commanded_off E r'"
  using call_stopped [OF assms(1)] assms(2) by (auto simp: faulted_def commanded_off_def)

lemma ended_commanded_off: "ended_off E (e, r) \<Longrightarrow> commanded_off E r"
  by (auto simp: ended_off_def commanded_off_def)

lemma new_scan_shell_ok: "runtime_reach (se_stand K) r \<Longrightarrow> shell_ok K (new_scan_shell r c)"
  by (simp add: shell_ok_def new_scan_shell_def)

lemma safe_open_state: "safe_open E r = Finished r' \<Longrightarrow> rt_state r' = SafeOpen"
  by (cases "operational (rt_state r)") (auto simp: safe_open_drive safe_open_refused set_state_def on_finish_eq_Finished)

text \<open>A start that fails after the stand was opened: nothing is commanded any more.\<close>

definition start_failed :: "('d, 't, 'c) scan_env \<Rightarrow> scan_startup \<Rightarrow> ('d, 't) stand_runtime \<Rightarrow> shell_end \<Rightarrow>
    ('d, 't) stand_runtime \<Rightarrow> bool" where
  "start_failed K u r e r' \<longleftrightarrow> (\<exists>x. start_scanner u = Inl x \<and> e = ShellFailed (StartupError x)) \<and>
     on_finish (reset (se_stand K) r) (safe_open (se_stand K)) = Finished r' \<and> rt_state r' = SafeOpen"

lemma run_scan_shell_ends:
  assumes "camera_ok K" "runtime_reach (se_stand K) r"
  shows "\<exists>e s out. run_scan_shell K u prompted is r c = Some (e, s, out) \<and> runtime_reach (se_stand K) (sh_stand s) \<and>
    (commanded_off (se_stand K) (sh_stand s) \<or> terminal_failed e \<or> start_failed K u r e (sh_stand s)) \<and>
    (e = Ended \<longrightarrow> ended_off (se_stand K) (e, sh_stand s) \<and> start_scanner u = Inr ())"
proof (cases "reset (se_stand K) r")
  case (Stopped e r1)
  then have "runtime_reach (se_stand K) r1" "commanded_off (se_stand K) r1"
    using runtime_reach.call [OF assms(2), of CallReset] reset_off [of "se_stand K" r] by simp_all
  then show ?thesis using Stopped by (simp add: run_scan_shell_def new_scan_shell_def)
next
  case (Finished r1)
  then have r1: "runtime_reach (se_stand K) r1" "commanded_off (se_stand K) r1"
    using runtime_reach.call [OF assms(2), of CallReset] reset_off [of "se_stand K" r] by simp_all
  show ?thesis
  proof (cases "safe_open (se_stand K) r1")
    case (Stopped e r2)
    then have "runtime_reach (se_stand K) r2" "commanded_off (se_stand K) r2"
      using runtime_reach.call [OF r1(1), of CallSafeOpen] call_off [of "se_stand K" CallSafeOpen r1] r1(2) by simp_all
    then show ?thesis using Finished Stopped by (simp add: run_scan_shell_def new_scan_shell_def)
  next
    case opened: (Finished r2)
    then have r2: "runtime_reach (se_stand K) r2" "rt_state r2 = SafeOpen"
      using runtime_reach.call [OF r1(1), of CallSafeOpen] safe_open_state by simp_all
    then have ok: "shell_ok K (new_scan_shell r2 c)" by (intro new_scan_shell_ok)
    show ?thesis
    proof (cases "start_scanner u")
      case (Inl x)
      then show ?thesis
        using Finished opened r2 by (simp add: run_scan_shell_def new_scan_shell_def start_failed_def)
    next
      case (Inr x)
      obtain e s out where loop: "scan_shell_loop K is (new_scan_shell r2 c) [] = Some (e, s, out)" "shell_ok K s"
        "ended_off (se_stand K) (e, sh_stand s) \<or> terminal_failed e"
        using scan_shell_loop_ends [OF assms(1) ok] by blast
      then have "commanded_off (se_stand K) (sh_stand s) \<or> terminal_failed e" using ended_commanded_off by blast
      moreover have "e = Ended \<longrightarrow> ended_off (se_stand K) (e, sh_stand s)"
        using loop(3) by (auto simp: terminal_failed_def)
      moreover have "runtime_reach (se_stand K) (sh_stand s)" "runtime_reach (se_stand K) (sh_stand (new_scan_shell r2 c))"
        using loop(2) ok by (simp_all add: shell_ok_def)
      ultimately show ?thesis
        using Finished opened loop(1) Inr by (cases prompted) (auto simp: run_scan_shell_def terminal_failed_def)
    qed
  qed
qed

section \<open>Scan, solve and execute\<close>

text \<open>The next pictures of a camera.\<close>

fun captures :: "('d, 't, 'c) scan_env \<Rightarrow> nat \<Rightarrow> 'c \<Rightarrow> (face list \<times> 'c) option" where
  "captures K 0 c = Some ([], c)"
| "captures K (Suc n) c = (case se_capture K c of
     (Inl e, c) \<Rightarrow> None
   | (Inr p, c) \<Rightarrow> map_option (\<lambda>(ps, c). (p # ps, c)) (captures K n c))"

lemma captures_Suc:
  "captures K (Suc n) c = Some (ps, c') \<longleftrightarrow>
     (\<exists>p qs c1. ps = p # qs \<and> se_capture K c = (Inr p, c1) \<and> captures K n c1 = Some (qs, c'))"
  by (auto split: prod.splits sum.splits)

definition scanned :: "face \<Rightarrow> face \<Rightarrow> face \<Rightarrow> face \<Rightarrow> face \<Rightarrow> face \<Rightarrow> scan_result" where
  "scanned left right down up front rear =
     (let fs = map Some [up, right, front, down, left, rear] in \<lparr> sr_state = \<lparr> faces = fs \<rparr>, sr_faces = fs \<rparr>)"

lemma rotated_Zero [simp]: "rotated f quarter_turns.Zero = f"
  by (simp add: rotated_def)

lemma full_scan_works:
  assumes "works (se_stand K)" "rt_state r = SafeOpen"
    and "captures K 6 c = Some ([left, right, down, up, front, rear], c')"
  shows "\<exists>r1 r2. grip_cube (se_stand K) r = Finished r1 \<and> drive (se_stand K) canonical_plan r1 = Finished r2 \<and>
    rt_state r2 = Gripped \<and> rt_holding_pair r2 = None \<and>
    full_scan K KeepGripped r c = (Inr (scanned left right down up front rear), r2, c')"
proof -
  let ?E = "se_stand K"
  obtain q where "move_all_rails ?E NearGrip r = Finished q"
    using set_channels_works [OF assms(1)] disable_channels_works [OF assms(1)]
    unfolding move_all_rails_def by (metis on_finish.simps(1))
  then have r1: "grip_cube ?E r = Finished (set_state Gripped None q)"
    using assms(2) by (simp add: grip_cube_def)
  let ?r1 = "set_state Gripped None q"
  obtain r2 where r2: "run_calls ?E canonical_scan ?r1 = Finished r2" "drive ?E canonical_plan ?r1 = Finished r2"
    "same_pose ?r1 r2"
    using canonical_scan_drives [OF assms(1), of ?r1] by auto
  obtain c1 c2 c3 c4 c5 where c: "se_capture K c = (Inr left, c1)" "se_capture K c1 = (Inr right, c2)"
    "se_capture K c2 = (Inr down, c3)" "se_capture K c3 = (Inr up, c4)" "se_capture K c4 = (Inr front, c5)"
    "se_capture K c5 = (Inr rear, c')"
    using assms(3) by (auto simp: captures_Suc numeral_eq_Suc simp del: captures.simps(2))
  from r2(1) obtain q1 q2 q3 q4 q5 q6 where
    "scan_pose_op ?E scan_face.Left ?r1 = Finished q1" "scan_next ?E scan_face.Right q1 = Finished q2"
    "scan_next ?E scan_face.Down q2 = Finished q3" "scan_next ?E scan_face.Up q3 = Finished q4"
    "scan_next ?E scan_face.Front q4 = Finished q5" "scan_next ?E scan_face.Back q5 = Finished q6"
    "finish_scan_for_execution ?E q6 = Finished r2"
    by (auto simp: canonical_scan_def on_finish_eq_Finished)
  then have "full_scan K KeepGripped r c = (Inr (scanned left right down up front rear), r2, c')"
    using c assms(2) r1
    by (simp add: full_scan_def stand_then_def remaining_faces_def capture_and_record_def record_face_def
        record_scan_def default_result_def default_cube_def scanned_def Let_def numeral_eq_Suc)
  then show ?thesis using r1 r2 by (auto simp: same_pose_def)
qed

lemma baseline_append:
  "baseline_held_steps [m] = Some plan \<Longrightarrow> baseline_move steps m = Some (steps @ plan)"
  using baseline_turn_plan [of "(LeftGripper, LeftRail)"] baseline_turn_plan [of "(RightGripper, RightRail)"]
    baseline_turn_plan [of "(TopGripper, TopRail)"] baseline_turn_plan [of "(BottomGripper, BottomRail)"]
  by (cases "mv_face m") (auto simp: baseline_held_steps_def baseline_move_def position_front_back_def restore_front_def)

text \<open>Probe moves, one after the other, are the baseline plan of the moves.\<close>

lemma probe_moves_drive:
  assumes "works E" "rt_state r = Gripped" "rt_holding_pair r = None"
  shows "\<exists>plan r'. (\<forall>steps. baseline_loop ms steps = Some (steps @ plan)) \<and> drive E plan r = Finished r' \<and>
    probe_moves E ms r = Finished r' \<and> same_pose r r'"
  using assms(2,3)
proof (induction ms arbitrary: r)
  case Nil
  then show ?case by (intro exI [of _ "[]"] exI [of _ r]) (simp add: same_pose_def)
next
  case (Cons m ms)
  obtain p where p: "baseline_held_steps [m] = Some (p @ [move_plan_step.MoveCompleted])"
    "execute_probe_move E m r = on_finish (drive E p r) (\<lambda>r. Finished (set_state Gripped None r))"
    using execute_probe_move_drive [OF Cons.prems(1)] by blast
  obtain q where q: "drive E p r = Finished q" "same_pose r q"
    using drive_works [OF assms(1) motor_probe [OF p(1)]] by blast
  then have "rt_state q = Gripped" "rt_holding_pair q = None" using Cons.prems by (simp_all add: same_pose_def)
  then have q': "set_state Gripped None q = q" by (rule set_state_same)
  obtain plan r' where r': "\<forall>steps. baseline_loop ms steps = Some (steps @ plan)" "drive E plan q = Finished r'"
    "probe_moves E ms q = Finished r'" "same_pose q r'"
    using Cons.IH [of q] q(2) Cons.prems by (auto simp: same_pose_def)
  have "drive E ((p @ [move_plan_step.MoveCompleted]) @ plan) r = Finished r'"
    using q(1) r'(2) by (simp add: drive_append)
  moreover have "baseline_loop (m # ms) steps = Some (steps @ (p @ [move_plan_step.MoveCompleted]) @ plan)" for steps
    using baseline_append [OF p(1), of steps] r'(1) by simp
  ultimately show ?case
    using p(2) q q' r'(3,4) by (intro exI [of _ "(p @ [move_plan_step.MoveCompleted]) @ plan"] exI [of _ r'])
      (auto simp: same_pose_def)
qed

text \<open>
  The automatic command: with working outputs and six pictures that make a consistent cube, it drives the
  scanning plan, then the baseline plan of the solver's moves, and then opens the stand.
\<close>

lemma shell_automatic_works:
  assumes E: "works (se_stand K)" and s: "rt_state (sh_stand s) = SafeOpen"
    and c: "captures K 6 (sh_camera s) = Some ([left, right, down, up, front, rear], c')"
    and cube: "facelet_string (sr_state (scanned left right down up front rear)) = Some (Inr facelets)"
    and answer: "cube_solve (se_solver K) (sr_state (scanned left right down up front rear)) (se_max_moves K) =
        Some (Inr solution)" "parse_solution solution = Inr moves"
  shows "\<exists>report r1 r2 steps r3 r4. shell_automatic K s = Some ([Report report, Solution solution, AllDone],
      s\<lparr> sh_stand := set_state SafeOpen None r4, sh_camera := c', sh_pending := None,
         sh_last_scan := Some (scanned left right down up front rear), sh_scan_number := sh_scan_number s + 1 \<rparr>) \<and>
    grip_cube (se_stand K) (sh_stand s) = Finished r1 \<and> drive (se_stand K) canonical_plan r1 = Finished r2 \<and>
    baseline_held_steps moves = Some steps \<and> drive (se_stand K) steps r2 = Finished r3 \<and>
    drive (se_stand K) release_plan r3 = Finished r4"
proof -
  let ?E = "se_stand K"
  obtain r1 r2 where r2: "grip_cube ?E (sh_stand s) = Finished r1" "drive ?E canonical_plan r1 = Finished r2"
    "rt_state r2 = Gripped" "rt_holding_pair r2 = None"
    "full_scan K KeepGripped (sh_stand s) (sh_camera s) = (Inr (scanned left right down up front rear), r2, c')"
    using full_scan_works [OF E s c] by blast
  obtain steps r3 where r3: "\<forall>prefix. baseline_loop moves prefix = Some (prefix @ steps)" "drive ?E steps r2 = Finished r3"
    "probe_moves ?E moves r2 = Finished r3" "same_pose r2 r3"
    using probe_moves_drive [OF E r2(3,4)] by blast
  obtain r4 where r4: "drive ?E release_plan r3 = Finished r4" using drive_works [OF E motor_release] by blast
  have "operational (rt_state r3)" using r3(4) r2(3) by (simp add: same_pose_def)
  then have opened: "safe_open ?E r3 = Finished (set_state SafeOpen None r4)"
    using r4 by (simp add: safe_open_drive)
  obtain report where "print_scan_result (scanned left right down up front rear) = Some (Inr facelets, report)"
    using cube by (simp add: print_scan_result_def result_face_def scanned_def Let_def)
  moreover have "execute_solution ?E moves r2 = (Inr (), r3)"
    using r2(3) r3(3) by (simp add: execute_solution_def)
  moreover have "baseline_held_steps moves = Some steps" using r3(1) by (simp add: baseline_held_steps_def)
  ultimately show ?thesis
    using r2 r3(2) r4 opened answer
    by (intro exI [of _ report] exI [of _ r1] exI [of _ r2] exI [of _ steps] exI [of _ r3] exI [of _ r4])
      (simp add: shell_automatic_def solve_scan_def Let_def)
qed

section \<open>Properties\<close>

text \<open>
  C34: the full scan shell never panics, and says how it leaves the outputs. Whatever lines are typed, pictures
  taken and commands answered, the program ends, and there are three ways. The last thing it commands is to
  switch all outputs off; or the terminal fails, at a read or at the prompt; or, after the stand was
  opened, the rest of the start fails - the path of the sensor configuration, the camera, its warm-up, the
  detector or the Ctrl-C handler - and the stand is left as opening it left it, with no further command.
  It ends normally only if the start succeeded and switching off worked, with the outputs off.
\<close>

theorem scan_shell_ends:
  assumes "camera_ok K" "runtime_reach (se_stand K) r"
  shows "\<exists>e s out. run_scan_shell K u prompted is r c = Some (e, s, out) \<and>
    ((\<exists>d. rt_output (sh_stand s) = snd (pwm_all_off (se_stand K) d)) \<or>
      e = ShellFailed PromptError \<or> (\<exists>x. e = ShellFailed (ReadError x)) \<or>
      (\<exists>x. start_scanner u = Inl x \<and> e = ShellFailed (StartupError x)) \<and>
        on_finish (reset (se_stand K) r) (safe_open (se_stand K)) = Finished (sh_stand s) \<and>
        rt_state (sh_stand s) = SafeOpen) \<and>
    (e = Ended \<longrightarrow> ended_off (se_stand K) (e, sh_stand s) \<and> start_scanner u = Inr ())"
  using run_scan_shell_ends [OF assms, of u prompted "is" c]
  unfolding commanded_off_def terminal_failed_def start_failed_def by blast

definition scanner_started :: scan_startup where
  "scanner_started = \<lparr> su_sensor_path = Inr (), su_camera = Inr (), su_warmup = Inr (), su_detector = Inr (), su_handler = Inr () \<rparr>"

definition bench_pictures :: "face list" where
  "bench_pictures = map (\<lambda>c. \<lparr> stickers = replicate 9 c \<rparr>) [sticker_color.Orange, sticker_color.Red,
     sticker_color.Yellow, sticker_color.White, sticker_color.Green, sticker_color.Blue]"

definition bench_scan_env :: "((u8 \<times> u16) list list, unit, face list) scan_env" where
  "bench_scan_env = \<lparr> se_stand = log_runtime,
     se_capture = (\<lambda>c. case c of p # c \<Rightarrow> (if length (stickers p) = 9 then Inr p else Inl ''grid'', c) | [] \<Rightarrow> (Inl ''camera'', [])),
     se_solver = (\<lambda>_ _. ''R2 U''), se_max_moves = 21 \<rparr>"

theorem scan_shell_ends_witness:
  "\<exists>s out. run_scan_shell bench_scan_env scanner_started True [Line ''quit'' True] (with_delay [] default_calibration ()) [] =
      Some (Ended, s, out) \<and> ended_off log_runtime (Ended, sh_stand s)"
proof -
  let ?r = "with_delay [] default_calibration ()"
  have ok: "camera_ok bench_scan_env"
    by (auto simp: camera_ok_def bench_scan_env_def face_ok_def split: list.splits if_splits)
  have stand: "se_stand bench_scan_env = log_runtime" by (simp add: bench_scan_env_def)
  obtain e s out where *: "run_scan_shell bench_scan_env scanner_started True [Line ''quit'' True] ?r [] = Some (e, s, out)"
    "e = Ended \<longrightarrow> ended_off log_runtime (e, sh_stand s)"
    using scan_shell_ends [OF ok runtime_reach.start, of scanner_started True "[Line ''quit'' True]" "[]" default_calibration "()" "[]"]
    unfolding stand by blast
  obtain r1 where "reset log_runtime ?r = Finished r1" "operational (rt_state r1)"
    by (auto simp: reset_def log_runtime_def)
  moreover from this(2) obtain r2 where "safe_open log_runtime r1 = Finished r2"
    using works_finishes [OF log_works motor_release, of r1] by (auto simp: safe_open_drive)
  moreover have "shell_command_of ''quit'' = Quit"
    by (simp add: shell_command_of_def trim_def is_whitespace_def Let_def)
  moreover have "shell_off log_runtime r = (x, y) \<Longrightarrow> x = Ended" for r x y
    by (simp add: shell_off_def off_def reset_def log_runtime_def)
  ultimately have "e = Ended"
    using *(1) by (auto simp: run_scan_shell_def start_scanner_def scanner_started_def shell_line_def stand Let_def new_scan_shell_def split: prod.splits)
  with * show ?thesis by blast
qed

text \<open>
  C35: scan, solve and execute does what it says. With working outputs, from the open stand, and when the
  six pictures show a consistent cube for which the solver answers with moves, the command grips the cube,
  drives the scanning plan of the robot service, drives the baseline plan of the solver's moves, which
  makes exactly those face turns, and opens the stand; it reports the solution and that all was done.
\<close>

theorem scan_shell_solves:
  assumes "works (se_stand K)" "rt_state (sh_stand s) = SafeOpen"
    and "captures K 6 (sh_camera s) = Some ([left, right, down, up, front, rear], c')"
    and "facelet_string (sr_state (scanned left right down up front rear)) = Some (Inr facelets)"
    and "solve_facelets (se_solver K) facelets (se_max_moves K) = Inr solution" "parse_solution solution = Inr moves"
  shows "\<exists>report r1 r2 steps r3 r4 s'. shell_automatic K s = Some ([Report report, Solution solution, AllDone], s') \<and>
    sh_stand s' = set_state SafeOpen None r4 \<and> sh_last_scan s' = Some (scanned left right down up front rear) \<and>
    grip_cube (se_stand K) (sh_stand s) = Finished r1 \<and>
    drive (se_stand K) canonical_plan r1 = Finished r2 \<and>
    motion_steps canonical_plan = filter (\<lambda>x. case x of Capture f \<Rightarrow> False | _ \<Rightarrow> True) scan_steps \<and>
    baseline_held_steps moves = Some steps \<and> drive (se_stand K) steps r2 = Finished r3 \<and>
    exec steps canonical_grip = Some (canonical_grip\<lparr> completed := map turn_of moves \<rparr>) \<and>
    drive (se_stand K) release_plan r3 = Finished r4"
proof -
  have "cube_solve (se_solver K) (sr_state (scanned left right down up front rear)) (se_max_moves K) = Some (Inr solution)"
    using assms(4,5) by (simp add: cube_solve_def)
  from shell_automatic_works [OF assms(1-4) this assms(6)] obtain report r1 r2 steps r3 r4 where
    "shell_automatic K s = Some ([Report report, Solution solution, AllDone],
      s\<lparr> sh_stand := set_state SafeOpen None r4, sh_camera := c', sh_pending := None,
         sh_last_scan := Some (scanned left right down up front rear), sh_scan_number := sh_scan_number s + 1 \<rparr>)"
    "grip_cube (se_stand K) (sh_stand s) = Finished r1" "drive (se_stand K) canonical_plan r1 = Finished r2"
    "baseline_held_steps moves = Some steps" "drive (se_stand K) steps r2 = Finished r3"
    "drive (se_stand K) release_plan r3 = Finished r4"
    by blast
  moreover have "exec steps canonical_grip = Some (canonical_grip\<lparr> completed := map turn_of moves \<rparr>)"
    using baseline_held_run [of moves] \<open>baseline_held_steps moves = Some steps\<close> by auto
  ultimately show ?thesis using canonical_plan_steps by fastforce
qed

theorem scan_shell_solves_witness:
  "\<exists>s report s'. rt_state (sh_stand s) = SafeOpen \<and>
     shell_automatic bench_scan_env s = Some ([Report report, Solution ''R2 U'', AllDone], s')"
proof -
  define s :: "((u8 \<times> u16) list list, unit, face list) scan_shell" where
    "s = new_scan_shell (set_state SafeOpen None (with_delay [] default_calibration ())) bench_pictures"
  let ?f = "\<lambda>c. \<lparr> stickers = replicate 9 c \<rparr>"
  have "works (se_stand bench_scan_env)" by (simp add: bench_scan_env_def log_works)
  moreover have "rt_state (sh_stand s) = SafeOpen" by (simp add: s_def new_scan_shell_def)
  moreover have "captures bench_scan_env 6 (sh_camera s) = Some ([?f sticker_color.Orange, ?f sticker_color.Red,
      ?f sticker_color.Yellow, ?f sticker_color.White, ?f sticker_color.Green, ?f sticker_color.Blue], [])"
    by (simp add: s_def new_scan_shell_def bench_pictures_def bench_scan_env_def numeral_eq_Suc)
  moreover have "facelet_string (sr_state (scanned (?f sticker_color.Orange) (?f sticker_color.Red)
      (?f sticker_color.Yellow) (?f sticker_color.White) (?f sticker_color.Green) (?f sticker_color.Blue))) =
      Some (Inr (concat (map (replicate 9) ''URFDLB'')))"
    by code_simp
  moreover have "solve_facelets (se_solver bench_scan_env) (concat (map (replicate 9) ''URFDLB'')) (se_max_moves bench_scan_env) =
      Inr ''R2 U''"
    by (simp add: solve_facelets_def bench_scan_env_def FACELET_LEN_def trim_def is_whitespace_def Let_def)
  moreover have "parse_solution ''R2 U'' = Inr [\<lparr> mv_face = logical_face.Right, mv_turn = move_turn.Half \<rparr>,
      \<lparr> mv_face = logical_face.Up, mv_turn = move_turn.Clockwise \<rparr>]"
    by code_simp
  ultimately show ?thesis using scan_shell_solves [of bench_scan_env s] by blast
qed

end
