(* ===== verification/SimStrokes.thy ===== *)
theory SimStrokes
  imports SimStateSafety
begin

text \<open>
  When the displayed cube turns: the statuses of a manual operation show grippers that start and stop
  together, and a stroke of one gripper is displayed as the next expected face turn exactly when it
  turns a layer that its claw owns. \<open>frame_seen\<close>, \<open>owned_face\<close> and \<open>turning\<close> say this of the statuses
  alone; \<open>turned_moves\<close> collects the moves that a sequence of strokes displays.
\<close>

section \<open>Strokes\<close>

definition moving_axes :: "status_snapshot \<Rightarrow> nat list" where
  "moving_axes status = filter (\<lambda>i. gripper_motion (stand_grippers (st_stand status) ! i) = Moving) [0, 1, 2, 3]"

definition manual :: "status_snapshot \<Rightarrow> bool" where
  "manual status \<longleftrightarrow> (\<exists>operation. st_active_operation status = Some operation \<and> op_kind operation = operation_kind.ExecuteMoves)"

text \<open>
  The frame the cube is held in: 0 in canonical grip; with the left and right claws away, 1 once the top
  and bottom claws have turned the cube to the front, and 0 once they have turned it back.
\<close>

definition frame_seen :: "u8 \<Rightarrow> status_snapshot \<Rightarrow> u8" where
  "frame_seen q status =
     (let X = st_stand status; q = (if canonical_status status then 0 else q) in
      if st_active_operation status \<noteq> None \<and>
         rail_current (stand_rails X ! 0) = Some link_rail_position.Open \<and>
         rail_current (stand_rails X ! 1) = Some link_rail_position.Open \<and>
         gripper_motion (stand_grippers X ! 2) \<noteq> Moving \<and> gripper_motion (stand_grippers X ! 3) \<noteq> Moving then
        (if gripper_current (stand_grippers X ! 2) = Some link_gripper_orientation.FrameParallel \<and>
            gripper_current (stand_grippers X ! 3) = Some link_gripper_orientation.FrameParallelReversed then 1
         else if gripper_current (stand_grippers X ! 2) = Some link_gripper_orientation.FrameParallelReversed \<and>
            gripper_current (stand_grippers X ! 3) = Some link_gripper_orientation.FrameParallel then 0
         else q)
      else q)"

definition owned_face :: "u8 \<Rightarrow> nat \<Rightarrow> cube_face" where
  "owned_face q axis =
     (if axis = 0 then (if q = 0 then cube_face.Left else cube_face.Back)
      else if axis = 1 then (if q = 0 then cube_face.Right else cube_face.Front)
      else if axis = 2 then cube_face.Up else cube_face.Down)"

text \<open>
  The status shows the turn of the move: one gripper moves, alone, to a parallel orientation, its claw
  grips and owns the face, and for a half turn it moves through both quarters.
\<close>

definition turning :: "u8 \<Rightarrow> visual_move \<Rightarrow> status_snapshot \<Rightarrow> bool" where
  "turning q m status =
     (case moving_axes status of
        [axis] \<Rightarrow>
          let gripper = stand_grippers (st_stand status) ! axis in
          (gripper_target gripper = Some link_gripper_orientation.FrameParallel \<or>
           gripper_target gripper = Some link_gripper_orientation.FrameParallelReversed) \<and>
          rail_current (stand_rails (st_stand status) ! axis) = Some link_rail_position.Grip \<and>
          owned_face q axis = vm_face m \<and>
          (\<bar>vm_turns m\<bar> = 2 \<longrightarrow> (case (gripper_current gripper, gripper_target gripper) of
             (Some current, Some target) \<Rightarrow> \<bar>sim_orientation_index current - sim_orientation_index target\<bar> = 2
           | _ \<Rightarrow> False))
      | _ \<Rightarrow> False)"

text \<open>
  Statuses with the time they were taken: one at rest, or a stroke, which is a status in which grippers have started,
  statuses with the same stand, and one in which all have stopped.
\<close>

datatype segment = Still "nat \<times> status_snapshot"
  | Stroke "nat \<times> status_snapshot" "(nat \<times> status_snapshot) list" "nat \<times> status_snapshot"

fun segment_statuses :: "segment \<Rightarrow> (nat \<times> status_snapshot) list" where
  "segment_statuses (Still x) = [x]"
| "segment_statuses (Stroke b hs d) = b # hs @ [d]"

fun segment_ok :: "segment \<Rightarrow> bool" where
  "segment_ok (Still x) \<longleftrightarrow> status_ok (snd x) \<and> keeps_expected (snd x) \<and> moving_axes (snd x) = []"
| "segment_ok (Stroke b hs d) \<longleftrightarrow> status_ok (snd b) \<and> manual (snd b) \<and> moving_axes (snd b) \<noteq> [] \<and>
     (\<forall>h \<in> set hs. status_ok (snd h) \<and> manual (snd h) \<and> st_stand (snd h) = st_stand (snd b)) \<and>
     status_ok (snd d) \<and> manual (snd d) \<and> moving_axes (snd d) = []"

fun turned_moves :: "u8 \<Rightarrow> visual_move list \<Rightarrow> segment list \<Rightarrow> visual_move list" where
  "turned_moves q ms [] = []"
| "turned_moves q ms (Still x # segments) = turned_moves (frame_seen q (snd x)) ms segments"
| "turned_moves q ms (Stroke b hs d # segments) =
     (let first = frame_seen q (snd b); second = frame_seen first (snd d) in
      if ms \<noteq> [] \<and> turning first (hd ms) (snd b) then hd ms # turned_moves second (tl ms) segments
      else turned_moves second ms segments)"

lemma manual_keeps: "manual status \<Longrightarrow> keeps_expected status"
  by (auto simp: manual_def keeps_expected_def)

lemma axis_below: "i \<in> set [0, 1, 2, 3] \<longleftrightarrow> i < (4 :: nat)"
  by auto

lemma moving_axes_set: "i \<in> set (moving_axes status) \<longleftrightarrow> i < 4 \<and> gripper_motion (stand_grippers (st_stand status) ! i) = Moving"
  by (simp only: moving_axes_def set_filter mem_Collect_eq axis_below)

lemma moving_axes_stand: "st_stand s = st_stand t \<Longrightarrow> moving_axes s = moving_axes t"
  by (simp add: moving_axes_def)

section \<open>The rounds over the axes\<close>

definition motion_at :: "status_snapshot \<Rightarrow> nat \<Rightarrow> axis_motion" where
  "motion_at status i = gripper_motion (stand_grippers (st_stand status) ! i)"

definition noted :: "status_snapshot \<Rightarrow> nat list \<Rightarrow> axis_motion option list \<Rightarrow> axis_motion option list" where
  "noted status axes p = fold (\<lambda>i p. p[i := Some (motion_at status i)]) axes p"

lemma noted_simps [simp]:
  "noted status [] p = p" "noted status (a # axes) p = noted status axes (p[a := Some (motion_at status a)])"
  by (simp_all add: noted_def)

lemma noted_length [simp]: "length (noted status axes p) = length p"
  by (induction axes arbitrary: p) simp_all

lemma noted_nth:
  "i < length p \<Longrightarrow> noted status axes p ! i = (if i \<in> set axes then Some (motion_at status i) else p ! i)"
  by (induction axes arbitrary: p) (auto simp: nth_list_update)

text \<open>Axes that neither start a turn nor end one are only noted.\<close>

definition unmoved :: "status_snapshot \<Rightarrow> nat list \<Rightarrow> nat list \<Rightarrow> active_visual_turn option \<Rightarrow> bool" where
  "unmoved status sa axes active \<longleftrightarrow> (\<forall>a \<in> set axes. sa \<noteq> [a] \<or> active \<noteq> None) \<and>
     (case active of None \<Rightarrow> True | Some t \<Rightarrow> at_axis t \<notin> set axes \<or> motion_at status (at_axis t) = Moving)"

lemma passive_rounds:
  "unmoved status sa axes (vr_active r) \<Longrightarrow> axis_rounds status i sa axes (r, c) =
    Some (r\<lparr> vr_previous_motion := noted status axes (vr_previous_motion r) \<rparr>, c)"
proof (induction axes arbitrary: r)
  case (Cons a axes)
  let ?r = "r\<lparr> vr_previous_motion := (vr_previous_motion r)[a := Some (motion_at status a)] \<rparr>"
  have rest: "unmoved status sa axes (vr_active ?r)"
    using Cons.prems by (auto simp: unmoved_def split: option.splits)
  have "start_turn status i sa a r = Some (r, True)"
    using Cons.prems by (auto simp: start_turn_def unmoved_def Let_def)
  moreover have "finish_turn status a (r, c) = (?r, c)"
    using Cons.prems by (auto simp: finish_turn_def motion_at_def unmoved_def Let_def split: option.splits)
  ultimately have "axis_round status i sa a (r, c) = Some (?r, c)"
    by (simp add: axis_round_def)
  then show ?case using Cons.IH [OF rest] by simp
qed simp

lemma axis_rounds_append:
  "axis_rounds status i sa (xs @ ys) rc = do { rc \<leftarrow> axis_rounds status i sa xs rc; axis_rounds status i sa ys rc }"
  by (induction xs arbitrary: rc) (auto split: Option.bind_splits)

lemma four_axes:
  assumes "a < (4::nat)"
  obtains xs ys where "[0, 1, 2, 3] = xs @ a # ys" "a \<notin> set xs" "a \<notin> set ys"
proof -
  have "a \<in> set [0, 1, 2, 3]" using assms by (simp only: axis_below)
  then obtain xs ys where *: "[0, 1, 2, 3] = xs @ a # ys" by (metis split_list)
  have "distinct (xs @ a # ys)" by (simp flip: *)
  with * show ?thesis using that by auto
qed

lemma physical_face_owned: "a < 4 \<Longrightarrow> physical_face r a = Some (owned_face (vr_frame_quarters r) a)"
  by (auto simp: physical_face_def owned_face_def)

text \<open>The one axis that starts begins the turn of the expected move, or nothing.\<close>

definition starts :: "visual_replay \<Rightarrow> status_snapshot \<Rightarrow> bool" where
  "starts r status \<longleftrightarrow> vr_expected_index r < length (vr_expected r) \<and>
     turning (vr_frame_quarters r) (vr_expected r ! vr_expected_index r) status"

lemma start_turn_starts:
  assumes "moving_axes status = [a]" "vr_active r = None"
  shows "\<exists>r' go. start_turn status i [a] a r = Some (r', go) \<and> vr_expected r' = vr_expected r \<and>
    vr_expected_index r' = vr_expected_index r \<and> vr_frame_quarters r' = vr_frame_quarters r \<and>
    vr_previous_motion r' = vr_previous_motion r \<and>
    (if starts r status then go \<and> (\<exists>t. vr_active r' = Some t \<and> at_axis t = a) else vr_active r' = None)"
proof -
  define gripper where "gripper = stand_grippers (st_stand status) ! a"
  define e where "e = vr_expected r ! vr_expected_index r"
  have "a < 4" using assms(1) moving_axes_set [of a status] by simp
  note face = physical_face_owned [OF this, of r]
  have starts: "starts r status \<longleftrightarrow> vr_expected_index r < length (vr_expected r) \<and> is_parallel (gripper_target gripper) \<and>
      rail_current (stand_rails (st_stand status) ! a) = Some link_rail_position.Grip \<and>
      owned_face (vr_frame_quarters r) a = vm_face e \<and>
      (\<bar>vm_turns e\<bar> = 2 \<longrightarrow> (case (gripper_current gripper, gripper_target gripper) of
         (Some current, Some target) \<Rightarrow> \<bar>sim_orientation_index current - sim_orientation_index target\<bar> = 2
       | _ \<Rightarrow> False))"
    by (simp add: starts_def turning_def assms(1) is_parallel_def gripper_def e_def Let_def)
  have turn: "start_turn status i [a] a r =
     (if is_parallel (gripper_target gripper) \<and> vr_expected_index r < length (vr_expected r) \<and>
         rail_current (stand_rails (st_stand status) ! a) = Some link_rail_position.Grip then
        let begin_turn = (\<lambda>rendered. r\<lparr> vr_active := Some \<lparr> at_operation_id = i,
              at_move_index = vr_expected_index r, at_axis = a, at_cube_move = rendered \<rparr> \<rparr>) in
        (if owned_face (vr_frame_quarters r) a \<noteq> vm_face e then
           Some (r\<lparr> vr_violation := Some (WrongOwner (vm_face e) a (owned_face (vr_frame_quarters r) a)) \<rparr>, False)
         else if \<bar>vm_turns e\<bar> = 2 then
           (case (gripper_current gripper, gripper_target gripper) of
              (Some current, Some target) \<Rightarrow>
                let physical_turns = sim_orientation_index current - sim_orientation_index target in
                if \<bar>physical_turns\<bar> \<noteq> 2 then
                  Some (r\<lparr> vr_violation := Some (NotHalfTurn a physical_turns) \<rparr>, False)
                else Some (begin_turn (e\<lparr> vm_turns := physical_turns \<rparr>), True)
            | _ \<Rightarrow> Some (r, False))
         else Some (begin_turn e, True))
      else Some (r, True))"
    by (simp add: start_turn_def face assms(2) gripper_def e_def Let_def split: option.split)
  show ?thesis
    unfolding turn starts using assms(2)
    by (cases "gripper_current gripper"; cases "gripper_target gripper") (simp_all add: Let_def ex_bool_eq)
qed

text \<open>The rounds at a status in which grippers move.\<close>

lemma started_filter:
  "started_axes status r = filter (\<lambda>a. vr_previous_motion r ! a \<noteq> Some Moving) (moving_axes status)"
  by (simp only: started_axes_def moving_axes_def filter_filter)

lemma noted_all:
  "length p = 4 \<Longrightarrow> a < 4 \<Longrightarrow> noted status [0, 1, 2, 3] p ! a = Some (motion_at status a)"
  by (simp only: noted_nth axis_below if_True)

lemma started_noted:
  assumes "length p = 4"
  shows "started_axes status (r\<lparr> vr_previous_motion := noted status [0, 1, 2, 3] p \<rparr>) = []"
  using noted_all [OF assms] moving_axes_set [of _ status]
  by (auto simp: started_filter filter_empty_conv motion_at_def simp del: noted_simps)

definition turn_begun :: "status_snapshot \<Rightarrow> visual_replay \<Rightarrow> bool" where
  "turn_begun status r \<longleftrightarrow> (\<exists>t. moving_axes status = [at_axis t] \<and> vr_active r = Some t \<and>
     vr_previous_motion r ! at_axis t = Some Moving)"

definition turn_refused :: "status_snapshot \<Rightarrow> visual_replay \<Rightarrow> bool" where
  "turn_refused status r \<longleftrightarrow> vr_active r = None \<and> \<not> starts r status \<and>
     (started_axes status r = [] \<or> started_axes status r = moving_axes status)"

definition same_course :: "visual_replay \<Rightarrow> visual_replay \<Rightarrow> bool" where
  "same_course r r' \<longleftrightarrow> vr_expected r' = vr_expected r \<and> vr_expected_index r' = vr_expected_index r \<and>
     vr_frame_quarters r' = vr_frame_quarters r \<and> length (vr_previous_motion r') = length (vr_previous_motion r)"

lemma starts_same: "same_course r r' \<Longrightarrow> starts r' status = starts r status"
  by (simp add: same_course_def starts_def)

lemma single_axis_rounds:
  assumes "moving_axes status = [a]" "vr_active r = None" "length (vr_previous_motion r) = 4"
  shows "\<exists>r'. axis_rounds status i [a] [0, 1, 2, 3] (r, None) = Some (r', None) \<and> same_course r r' \<and>
    (if starts r status then turn_begun status r' else turn_refused status r')"
proof -
  have a: "a < 4" "motion_at status a = Moving"
    using assms(1) moving_axes_set [of a status] by (simp_all add: motion_at_def)
  obtain xs ys where axes: "[0, 1, 2, 3] = xs @ a # ys" "a \<notin> set xs" "a \<notin> set ys"
    using four_axes [OF a(1)] .
  let ?r = "r\<lparr> vr_previous_motion := noted status xs (vr_previous_motion r) \<rparr>"
  have before: "axis_rounds status i [a] xs (r, None) = Some (?r, None)"
    by (rule passive_rounds) (use assms(2) axes(2) in \<open>auto simp: unmoved_def\<close>)
  have same: "same_course r ?r" by (simp add: same_course_def)
  obtain r2 go where r2: "start_turn status i [a] a ?r = Some (r2, go)" "same_course ?r r2"
    "vr_previous_motion r2 = vr_previous_motion ?r"
    "if starts ?r status then go \<and> (\<exists>t. vr_active r2 = Some t \<and> at_axis t = a) else vr_active r2 = None"
    using start_turn_starts [OF assms(1), of ?r i] assms(2) by (auto simp: same_course_def)
  have two: "same_course r r2" using same r2(2) by (simp add: same_course_def)
  define r3 where "r3 = (if go then r2\<lparr> vr_previous_motion := (vr_previous_motion r2)[a := Some Moving] \<rparr> else r2)"
  have round: "axis_round status i [a] a (?r, None) = Some (r3, None)"
    using r2(1) a(2) by (cases go) (auto simp: axis_round_def r3_def finish_turn_def motion_at_def Let_def split: option.split)
  let ?e = "r3\<lparr> vr_previous_motion := noted status ys (vr_previous_motion r3) \<rparr>"
  have "unmoved status [a] ys (vr_active r3)"
    using r2(4) axes(3) a(2) by (auto simp: unmoved_def r3_def split: if_splits option.splits)
  then have after: "axis_rounds status i [a] ys (r3, None) = Some (?e, None)" by (rule passive_rounds)
  have run: "axis_rounds status i [a] [0, 1, 2, 3] (r, None) = Some (?e, None)"
    unfolding axes(1) axis_rounds_append using before round after by simp
  have course: "same_course r ?e" using two by (simp add: same_course_def r3_def)
  have "if starts r status then turn_begun status ?e else turn_refused status ?e"
  proof (cases "starts r status")
    case True
    then have "starts ?r status" using starts_same [OF same] by simp
    then obtain t where t: "go" "vr_active r2 = Some t" "at_axis t = a" using r2(4) by auto
    have "vr_previous_motion ?e ! a = Some Moving"
      using t(1) axes(3) assms(3) a(1) r2(3) by (simp add: noted_nth r3_def)
    then have "turn_begun status ?e" using t assms(1) by (simp add: turn_begun_def r3_def)
    then show ?thesis using True by simp
  next
    case False
    then have "\<not> starts ?r status" using starts_same [OF same] by simp
    then have "vr_active ?e = None" using r2(4) by (simp add: r3_def)
    moreover have "\<not> starts ?e status" using False starts_same [OF course] by simp
    moreover have "started_axes status ?e = [] \<or> started_axes status ?e = moving_axes status"
      by (simp add: started_filter assms(1))
    ultimately have "turn_refused status ?e" by (simp add: turn_refused_def)
    then show ?thesis using False by simp
  qed
  with run course show ?thesis by blast
qed

lemma moving_rounds:
  assumes "vr_active r = None" "length (vr_previous_motion r) = 4"
    and "started_axes status r = moving_axes status \<or> started_axes status r = [] \<and> \<not> starts r status"
  shows "\<exists>r'. axis_rounds status i (started_axes status r) [0, 1, 2, 3] (r, None) = Some (r', None) \<and> same_course r r' \<and>
    (if starts r status then turn_begun status r' else turn_refused status r')"
proof (cases "\<exists>a. started_axes status r = [a]")
  case True
  then obtain a where a: "started_axes status r = [a]" "moving_axes status = [a]" using assms(3) by auto
  show ?thesis using single_axis_rounds [OF a(2) assms(1,2)] a(1) by simp
next
  case False
  let ?e = "r\<lparr> vr_previous_motion := noted status [0, 1, 2, 3] (vr_previous_motion r) \<rparr>"
  have "unmoved status (started_axes status r) [0, 1, 2, 3] (vr_active r)"
    using False assms(1) by (simp add: unmoved_def)
  then have "axis_rounds status i (started_axes status r) [0, 1, 2, 3] (r, None) = Some (?e, None)"
    by (rule passive_rounds)
  moreover have course: "same_course r ?e" by (simp add: same_course_def)
  moreover have "\<not> starts r status"
    using False assms(3) by (auto simp: starts_def turning_def split: list.splits)
  moreover have "turn_refused status ?e"
    using started_noted [OF assms(2)] assms(1) starts_same [OF course] \<open>\<not> starts r status\<close>
    by (simp add: turn_refused_def del: noted_simps)
  ultimately show ?thesis by (metis (full_types))
qed

text \<open>A turn that was begun goes on while the axis moves, and the move is completed when it stops.\<close>

lemma held_rounds:
  assumes "turn_begun status r" "length (vr_previous_motion r) = 4"
  shows "\<exists>r'. axis_rounds status i (started_axes status r) [0, 1, 2, 3] (r, None) = Some (r', None) \<and> same_course r r' \<and>
    turn_begun status r'"
proof -
  obtain t where t: "moving_axes status = [at_axis t]" "vr_active r = Some t" "vr_previous_motion r ! at_axis t = Some Moving"
    using assms(1) by (auto simp: turn_begun_def)
  have a: "at_axis t < 4" "motion_at status (at_axis t) = Moving"
    using t(1) moving_axes_set [of "at_axis t" status] by (simp_all add: motion_at_def)
  let ?e = "r\<lparr> vr_previous_motion := noted status [0, 1, 2, 3] (vr_previous_motion r) \<rparr>"
  have "unmoved status (started_axes status r) [0, 1, 2, 3] (vr_active r)"
    using a t(2) by (simp add: unmoved_def)
  then have "axis_rounds status i (started_axes status r) [0, 1, 2, 3] (r, None) = Some (?e, None)"
    by (rule passive_rounds)
  moreover have "turn_begun status ?e"
    using t a noted_all [OF assms(2) a(1), of status] by (simp add: turn_begun_def del: noted_simps)
  ultimately show ?thesis by (intro exI [of _ ?e]) (simp add: same_course_def del: noted_simps)
qed

definition at_ease :: "visual_replay \<Rightarrow> bool" where
  "at_ease r \<longleftrightarrow> vr_active r = None \<and> (\<forall>a < 4. vr_previous_motion r ! a \<noteq> Some Moving)"

lemma at_ease_started: "at_ease r \<Longrightarrow> started_axes status r = moving_axes status"
  by (auto simp: started_filter at_ease_def filter_id_conv moving_axes_set)

lemma no_motion: "moving_axes status = [] \<Longrightarrow> a < 4 \<Longrightarrow> motion_at status a \<noteq> Moving"
  using moving_axes_set [of a status] by (simp add: motion_at_def)

lemma stopped_rounds:
  assumes "moving_axes status = []" "length (vr_previous_motion r) = 4"
  shows "vr_active r = None \<Longrightarrow> \<exists>r'. axis_rounds status i (started_axes status r) [0, 1, 2, 3] (r, None) = Some (r', None) \<and>
      same_course r r' \<and> at_ease r'"
    "vr_active r = Some t \<Longrightarrow> at_axis t < 4 \<Longrightarrow> vr_previous_motion r ! at_axis t = Some Moving \<Longrightarrow>
      \<exists>r'. axis_rounds status i (started_axes status r) [0, 1, 2, 3] (r, None) = Some (r', Some (at_cube_move t)) \<and>
        same_course (r\<lparr> vr_expected_index := vr_expected_index r + 1 \<rparr>) r' \<and> at_ease r'"
proof -
  have started: "started_axes status r = []" by (simp add: started_filter assms(1))
  {
    let ?e = "r\<lparr> vr_previous_motion := noted status [0, 1, 2, 3] (vr_previous_motion r) \<rparr>"
    assume none: "vr_active r = None"
    then have "axis_rounds status i [] [0, 1, 2, 3] (r, None) = Some (?e, None)"
      by (intro passive_rounds) (simp add: unmoved_def)
    moreover have "at_ease ?e"
      using none no_motion [OF assms(1)] noted_all [OF assms(2)] by (simp add: at_ease_def del: noted_simps)
    ultimately show "\<exists>r'. axis_rounds status i (started_axes status r) [0, 1, 2, 3] (r, None) = Some (r', None) \<and>
        same_course r r' \<and> at_ease r'"
      unfolding started by (intro exI [of _ ?e]) (simp add: same_course_def del: noted_simps)
  }
  assume t: "vr_active r = Some t" "at_axis t < 4" "vr_previous_motion r ! at_axis t = Some Moving"
  obtain xs ys where axes: "[0, 1, 2, 3] = xs @ at_axis t # ys" "at_axis t \<notin> set xs" "at_axis t \<notin> set ys"
    using four_axes [OF t(2)] .
  let ?r = "r\<lparr> vr_previous_motion := noted status xs (vr_previous_motion r) \<rparr>"
  have before: "axis_rounds status i [] xs (r, None) = Some (?r, None)"
    by (rule passive_rounds) (use t(1) axes(2) in \<open>simp add: unmoved_def\<close>)
  let ?f = "?r\<lparr> vr_expected_index := vr_expected_index r + 1, vr_active := None,
    vr_previous_motion := (vr_previous_motion ?r)[at_axis t := Some (motion_at status (at_axis t))] \<rparr>"
  have "start_turn status i [] (at_axis t) ?r = Some (?r, True)" by (simp add: start_turn_def Let_def)
  moreover have "finish_turn status (at_axis t) (?r, None) = (?f, Some (at_cube_move t))"
    using t axes(2) assms(2) no_motion [OF assms(1) t(2)] by (simp add: finish_turn_def motion_at_def noted_nth Let_def)
  ultimately have round: "axis_round status i [] (at_axis t) (?r, None) = Some (?f, Some (at_cube_move t))"
    by (simp add: axis_round_def)
  let ?e = "?f\<lparr> vr_previous_motion := noted status ys (vr_previous_motion ?f) \<rparr>"
  have after: "axis_rounds status i [] ys (?f, Some (at_cube_move t)) = Some (?e, Some (at_cube_move t))"
    by (rule passive_rounds) (simp add: unmoved_def)
  have "vr_previous_motion ?e ! a = Some (motion_at status a)" if "a < 4" for a
  proof -
    have "a \<in> set (xs @ at_axis t # ys)" unfolding axes(1) [symmetric] using that by (simp only: axis_below)
    then show ?thesis using assms(2) that t(2) by (cases "a = at_axis t") (auto simp: noted_nth)
  qed
  then have "at_ease ?e" using no_motion [OF assms(1)] by (simp add: at_ease_def)
  moreover have "same_course (r\<lparr> vr_expected_index := vr_expected_index r + 1 \<rparr>) ?e" by (simp add: same_course_def)
  moreover have "axis_rounds status i [] [0, 1, 2, 3] (r, None) = Some (?e, Some (at_cube_move t))"
    unfolding axes(1) axis_rounds_append using before round after by simp
  ultimately show "\<exists>r'. axis_rounds status i (started_axes status r) [0, 1, 2, 3] (r, None) = Some (r', Some (at_cube_move t)) \<and>
      same_course (r\<lparr> vr_expected_index := vr_expected_index r + 1 \<rparr>) r' \<and> at_ease r'"
    unfolding started by blast
qed

section \<open>Statuses\<close>

abbreviation with_frame :: "status_snapshot \<Rightarrow> visual_replay \<Rightarrow> visual_replay" where
  "with_frame status r \<equiv> r\<lparr> vr_frame_quarters := frame_seen (vr_frame_quarters r) status \<rparr>"

lemma replay_frame_seen:
  assumes "st_active_operation status \<noteq> None"
  shows "replay_frame status (if canonical_status status then r\<lparr> vr_frame_quarters := 0 \<rparr> else r) = with_frame status r"
proof -
  let ?l = "gripper_current (stand_grippers (st_stand status) ! 2)"
  let ?r = "gripper_current (stand_grippers (st_stand status) ! 3)"
  have same: "r\<lparr> vr_frame_quarters := vr_frame_quarters r \<rparr> = r" by simp
  show ?thesis
    using assms
    by (cases ?l; cases ?r; cases "the ?l"; cases "the ?r")
      (simp_all add: replay_frame_def frame_seen_def is_parallel_def Let_def)
qed

text \<open>A manual operation compares the axes with the moves the display was given.\<close>

lemma manual_replay:
  assumes "manual status"
  shows "\<exists>r1 i. replay_status status r = axis_rounds status i (started_axes status r1) [0, 1, 2, 3] (r1, None) \<and>
    same_course (with_frame status r) r1 \<and> vr_active r1 = vr_active r \<and> vr_previous_motion r1 = vr_previous_motion r"
proof -
  obtain operation where operation: "st_active_operation status = Some operation" "op_kind operation = operation_kind.ExecuteMoves"
    using assms by (auto simp: manual_def)
  let ?r = "if canonical_status status then r\<lparr> vr_frame_quarters := 0 \<rparr> else r"
  let ?o = "\<lambda>r. replay_operation operation status r"
  have solution: "replay_solution operation status (?o ?r) = Some (?o ?r)"
    using operation(2) by (simp add: replay_solution_def Let_def)
  have o: "vr_expected (?o x) = vr_expected x" "vr_expected_index (?o x) = vr_expected_index x"
    "vr_frame_quarters (?o x) = vr_frame_quarters x" "vr_active (?o x) = vr_active x"
    "vr_previous_motion (?o x) = vr_previous_motion x" for x
    using operation(2) by (simp_all add: replay_operation_def Let_def)
  have f: "vr_expected (replay_frame status x) = vr_expected x" "vr_expected_index (replay_frame status x) = vr_expected_index x"
    "vr_active (replay_frame status x) = vr_active x" "vr_previous_motion (replay_frame status x) = vr_previous_motion x" for x
    by (simp_all add: replay_frame_def Let_def)
  have q: "vr_frame_quarters x = vr_frame_quarters y \<Longrightarrow>
      vr_frame_quarters (replay_frame status x) = vr_frame_quarters (replay_frame status y)" for x y
    by (simp add: replay_frame_def Let_def split: option.split link_gripper_orientation.split)
  have "vr_frame_quarters (replay_frame status (?o ?r)) = frame_seen (vr_frame_quarters r) status"
    using q [OF o(3) [of ?r]] replay_frame_seen [of status r] operation(1) by simp
  then have "same_course (with_frame status r) (replay_frame status (?o ?r))"
    by (simp add: same_course_def f o)
  moreover have "vr_active (replay_frame status (?o ?r)) = vr_active r"
    "vr_previous_motion (replay_frame status (?o ?r)) = vr_previous_motion r"
    by (simp_all add: f o)
  moreover have "replay_status status r =
      axis_rounds status (op_id operation) (started_axes status (replay_frame status (?o ?r))) [0, 1, 2, 3]
        (replay_frame status (?o ?r), None)"
    using operation solution by (simp add: replay_status_def replay_axes_def Let_def)
  ultimately show ?thesis by blast
qed

lemma same_course_trans: "same_course a b \<Longrightarrow> same_course b c \<Longrightarrow> same_course a c"
  by (simp add: same_course_def)

lemma at_ease_status:
  assumes "at_ease r" "length (vr_previous_motion r) = 4" "status_ok status" "keeps_expected status" "moving_axes status = []"
  shows "\<exists>r' out. replay_status status r = Some (r', out) \<and> same_course (with_frame status r) r' \<and> at_ease r'"
proof (cases "st_active_operation status")
  case None
  have len: "length (stand_grippers (st_stand status)) = 4" using assms(3) by (simp add: status_ok_def stand_ok_def)
  have "replay_status status r = Some ((if canonical_status status then r\<lparr> vr_frame_quarters := 0 \<rparr> else r)
      \<lparr> vr_previous_motion := motions status, vr_active := None, vr_operation_id := None, vr_solution_id_at_start := None \<rparr>, None)"
    using None by (simp add: replay_status_def)
  moreover have "at_ease (x\<lparr> vr_previous_motion := motions status, vr_active := None, vr_operation_id := None,
      vr_solution_id_at_start := None \<rparr>)" for x
    using no_motion [OF assms(5)] len by (simp add: at_ease_def motions_def motion_at_def)
  ultimately show ?thesis
    using None len assms(2) by (auto simp: same_course_def frame_seen_def motions_def Let_def)
next
  case (Some operation)
  then have "manual status" using assms(4) by (auto simp: manual_def keeps_expected_def)
  from manual_replay [OF this] obtain r1 i where r1:
    "replay_status status r = axis_rounds status i (started_axes status r1) [0, 1, 2, 3] (r1, None)"
    "same_course (with_frame status r) r1" "vr_active r1 = vr_active r" "vr_previous_motion r1 = vr_previous_motion r"
    by blast
  then show ?thesis
    using stopped_rounds(1) [OF assms(5), of r1 i] assms(1,2) same_course_trans [OF r1(2)]
    by (force simp: at_ease_def)
qed

lemma begin_status:
  assumes "at_ease r" "length (vr_previous_motion r) = 4" "manual status"
  shows "\<exists>r' out. replay_status status r = Some (r', out) \<and> same_course (with_frame status r) r' \<and>
    (if starts (with_frame status r) status then turn_begun status r' else turn_refused status r')"
proof -
  obtain r1 i where r1: "replay_status status r = axis_rounds status i (started_axes status r1) [0, 1, 2, 3] (r1, None)"
    "same_course (with_frame status r) r1" "vr_active r1 = vr_active r" "vr_previous_motion r1 = vr_previous_motion r"
    using manual_replay [OF assms(3)] by blast
  have "at_ease r1" using assms(1) r1(3,4) by (simp add: at_ease_def)
  from at_ease_started [OF this, of status] moving_rounds [of r1 status i] show ?thesis
    using assms(1,2) r1 same_course_trans [OF r1(2)] starts_same [OF r1(2), of status]
    by (force simp: at_ease_def)
qed

lemma same_stand:
  assumes "st_stand h = st_stand b"
  shows "starts r h = starts r b" "turn_begun h r = turn_begun b r" "turn_refused h r = turn_refused b r"
proof -
  note m = moving_axes_stand [OF assms]
  show s: "starts r h = starts r b" unfolding starts_def turning_def m assms by rule
  show "turn_begun h r = turn_begun b r" by (simp add: turn_begun_def m)
  show "turn_refused h r = turn_refused b r" by (simp add: turn_refused_def s started_filter m)
qed

lemma frame_seen_again:
  assumes "st_stand h = st_stand b" "manual h" "manual b"
  shows "frame_seen (frame_seen q b) h = frame_seen q b"
  using assms by (auto simp: frame_seen_def manual_def canonical_status_def Let_def)

lemma hold_status:
  assumes "manual status" "length (vr_previous_motion r) = 4" "frame_seen (vr_frame_quarters r) status = vr_frame_quarters r"
  shows "turn_begun status r \<Longrightarrow> \<exists>r' out. replay_status status r = Some (r', out) \<and> same_course r r' \<and> turn_begun status r'"
    "turn_refused status r \<Longrightarrow> \<exists>r' out. replay_status status r = Some (r', out) \<and> same_course r r' \<and> turn_refused status r'"
proof -
  obtain r1 i where r1: "replay_status status r = axis_rounds status i (started_axes status r1) [0, 1, 2, 3] (r1, None)"
    "same_course r r1" "vr_active r1 = vr_active r" "vr_previous_motion r1 = vr_previous_motion r"
    using manual_replay [OF assms(1), of r] assms(3) by auto
  have started: "started_axes status r1 = started_axes status r" by (simp add: started_filter r1(4))
  {
    assume "turn_begun status r"
    then have "turn_begun status r1" by (simp add: turn_begun_def r1(3,4))
    then show "\<exists>r' out. replay_status status r = Some (r', out) \<and> same_course r r' \<and> turn_begun status r'"
      using held_rounds [of status r1 i] assms(2) r1 same_course_trans [OF r1(2)] by force
  next
    assume refused: "turn_refused status r"
    then have "\<not> starts r1 status" using starts_same [OF r1(2)] by (simp add: turn_refused_def)
    with refused show "\<exists>r' out. replay_status status r = Some (r', out) \<and> same_course r r' \<and> turn_refused status r'"
      using moving_rounds [of r1 status i] assms(2) r1 same_course_trans [OF r1(2)] started
      by (force simp: turn_refused_def)
  }
qed

lemma end_status:
  assumes "manual status" "length (vr_previous_motion r) = 4" "moving_axes status = []"
  shows "turn_begun b r \<Longrightarrow> \<exists>r' out. replay_status status r = Some (r', out) \<and>
      same_course ((with_frame status r)\<lparr> vr_expected_index := vr_expected_index r + 1 \<rparr>) r' \<and> at_ease r'"
    "turn_refused b r \<Longrightarrow> \<exists>r' out. replay_status status r = Some (r', out) \<and> same_course (with_frame status r) r' \<and> at_ease r'"
proof -
  obtain r1 i where r1: "replay_status status r = axis_rounds status i (started_axes status r1) [0, 1, 2, 3] (r1, None)"
    "same_course (with_frame status r) r1" "vr_active r1 = vr_active r" "vr_previous_motion r1 = vr_previous_motion r"
    using manual_replay [OF assms(1)] by blast
  {
    assume "turn_begun b r"
    then obtain t where t: "moving_axes b = [at_axis t]" "vr_active r1 = Some t" "vr_previous_motion r1 ! at_axis t = Some Moving"
      using r1(3,4) by (auto simp: turn_begun_def)
    then have "at_axis t < 4" using moving_axes_set [of "at_axis t" b] by simp
    moreover have "same_course ((with_frame status r)\<lparr> vr_expected_index := vr_expected_index r + 1 \<rparr>)
        (r1\<lparr> vr_expected_index := vr_expected_index r1 + 1 \<rparr>)"
      using r1(2) by (simp add: same_course_def)
    ultimately show "\<exists>r' out. replay_status status r = Some (r', out) \<and>
        same_course ((with_frame status r)\<lparr> vr_expected_index := vr_expected_index r + 1 \<rparr>) r' \<and> at_ease r'"
      using stopped_rounds(2) [OF assms(3), of r1 t i] t assms(2) r1(1,4) same_course_trans by force
  next
    assume "turn_refused b r"
    then show "\<exists>r' out. replay_status status r = Some (r', out) \<and> same_course (with_frame status r) r' \<and> at_ease r'"
      using stopped_rounds(1) [OF assms(3), of r1 i] assms(2) r1 same_course_trans [OF r1(2)]
      by (force simp: turn_refused_def)
  }
qed

section \<open>Segments\<close>

text \<open>The replay over a sequence of statuses; each violation is taken from it as it is shown.\<close>

fun watches :: "(nat \<times> status_snapshot) list \<Rightarrow> visual_replay \<Rightarrow> visual_replay option" where
  "watches [] r = Some r"
| "watches ((now, status) # xs) r = do {
     (r, out) \<leftarrow> replay_status status r;
     watches xs (r\<lparr> vr_violation := None \<rparr>) }"

lemma watches_append: "watches (xs @ ys) r = do { r \<leftarrow> watches xs r; watches ys r }"
  by (induction xs arbitrary: r) (auto split: Option.bind_splits)

lemma violation_kept [simp]:
  "same_course r (r'\<lparr> vr_violation := v \<rparr>) = same_course r r'" "at_ease (r'\<lparr> vr_violation := v \<rparr>) = at_ease r'"
  "turn_begun status (r'\<lparr> vr_violation := v \<rparr>) = turn_begun status r'"
  "turn_refused status (r'\<lparr> vr_violation := v \<rparr>) = turn_refused status r'"
  by (simp_all add: same_course_def at_ease_def turn_begun_def turn_refused_def starts_def started_filter)

lemma watches_one:
  "\<exists>r' out. replay_status (snd x) r = Some (r', out) \<and> same_course s r' \<and> P (r'\<lparr> vr_violation := None \<rparr>) \<Longrightarrow>
   \<exists>r'. watches [x] r = Some r' \<and> same_course s r' \<and> P r'"
  by (cases x) force

lemma watches_kept:
  assumes step: "\<And>h r. manual h \<Longrightarrow> st_stand h = st_stand b \<Longrightarrow> length (vr_previous_motion r) = 4 \<Longrightarrow>
      frame_seen (vr_frame_quarters r) h = vr_frame_quarters r \<Longrightarrow> P r \<Longrightarrow>
      \<exists>r' out. replay_status h r = Some (r', out) \<and> same_course r r' \<and> P (r'\<lparr> vr_violation := None \<rparr>)"
    and "manual b"
  shows "\<forall>h \<in> set hs. manual (snd h) \<and> st_stand (snd h) = st_stand b \<Longrightarrow> length (vr_previous_motion r) = 4 \<Longrightarrow>
    frame_seen (vr_frame_quarters r) b = vr_frame_quarters r \<Longrightarrow> P r \<Longrightarrow>
    \<exists>r'. watches hs r = Some r' \<and> same_course r r' \<and> P r'"
proof (induction hs arbitrary: r)
  case Nil
  then show ?case by (simp add: same_course_def)
next
  case (Cons h hs)
  have h: "manual (snd h)" "st_stand (snd h) = st_stand b" using Cons.prems(1) by auto
  have "frame_seen (vr_frame_quarters r) (snd h) = vr_frame_quarters r"
    using frame_seen_again [OF h(2,1) assms(2), of "vr_frame_quarters r"] Cons.prems(3) by simp
  from watches_one [OF step [OF h Cons.prems(2) this Cons.prems(4)]] obtain r1 where
    r1: "watches [h] r = Some r1" "same_course r r1" "P r1" by (elim exE conjE)
  have "length (vr_previous_motion r1) = 4" "frame_seen (vr_frame_quarters r1) b = vr_frame_quarters r1"
    using r1(2) Cons.prems(2,3) by (simp_all add: same_course_def)
  with Cons.IH [of r1] Cons.prems(1) r1(3) obtain r2 where
    r2: "watches hs r1 = Some r2" "same_course r1 r2" "P r2" by auto
  have "watches (h # hs) r = Some r2"
    using watches_append [of "[h]" hs r] r1(1) r2(1) by simp
  then show ?case using r2(3) same_course_trans [OF r1(2) r2(2)] by blast
qed

lemma hold_begun:
  assumes "manual h" "st_stand h = st_stand b" "length (vr_previous_motion r) = 4"
    "frame_seen (vr_frame_quarters r) h = vr_frame_quarters r" "turn_begun b r"
  shows "\<exists>r' out. replay_status h r = Some (r', out) \<and> same_course r r' \<and> turn_begun b (r'\<lparr> vr_violation := None \<rparr>)"
  using hold_status(1) [OF assms(1,3,4)] assms(5) unfolding same_stand(2) [OF assms(2)] violation_kept .

lemma hold_refused:
  assumes "manual h" "st_stand h = st_stand b" "length (vr_previous_motion r) = 4"
    "frame_seen (vr_frame_quarters r) h = vr_frame_quarters r" "turn_refused b r"
  shows "\<exists>r' out. replay_status h r = Some (r', out) \<and> same_course r r' \<and> turn_refused b (r'\<lparr> vr_violation := None \<rparr>)"
  using hold_status(2) [OF assms(1,3,4)] assms(5) unfolding same_stand(3) [OF assms(2)] violation_kept .

lemma watches_begun:
  assumes "manual b" "\<forall>h \<in> set hs. manual (snd h) \<and> st_stand (snd h) = st_stand b" "turn_begun b r"
    and "length (vr_previous_motion r) = 4 \<and> frame_seen (vr_frame_quarters r) b = vr_frame_quarters r"
  shows "\<exists>r'. watches hs r = Some r' \<and> same_course r r' \<and> turn_begun b r'"
  by (rule watches_kept [OF hold_begun assms(1,2)]) (use assms(3,4) in \<open>simp_all\<close>)

lemma watches_refused:
  assumes "manual b" "\<forall>h \<in> set hs. manual (snd h) \<and> st_stand (snd h) = st_stand b" "turn_refused b r"
    and "length (vr_previous_motion r) = 4 \<and> frame_seen (vr_frame_quarters r) b = vr_frame_quarters r"
  shows "\<exists>r'. watches hs r = Some r' \<and> same_course r r' \<and> turn_refused b r'"
  by (rule watches_kept [OF hold_refused assms(1,2)]) (use assms(3,4) in \<open>simp_all\<close>)

fun frame_after :: "u8 \<Rightarrow> segment \<Rightarrow> u8" where
  "frame_after q (Still x) = frame_seen q (snd x)"
| "frame_after q (Stroke b hs d) = frame_seen (frame_seen q (snd b)) (snd d)"

fun turns_in :: "visual_replay \<Rightarrow> segment \<Rightarrow> nat" where
  "turns_in r (Still x) = 0"
| "turns_in r (Stroke b hs d) = (if starts (with_frame (snd b) r) (snd b) then 1 else 0)"

lemma watches_rest:
  assumes "at_ease r" "length (vr_previous_motion r) = 4" "status_ok (snd x)" "keeps_expected (snd x)" "moving_axes (snd x) = []"
  shows "\<exists>r'. watches [x] r = Some r' \<and> same_course (with_frame (snd x) r) r' \<and> at_ease r'"
  by (rule watches_one) (unfold violation_kept, rule at_ease_status [OF assms])

lemma watches_begin:
  assumes "at_ease r" "length (vr_previous_motion r) = 4" "manual (snd x)"
  shows "starts (with_frame (snd x) r) (snd x) \<Longrightarrow>
      \<exists>r'. watches [x] r = Some r' \<and> same_course (with_frame (snd x) r) r' \<and> turn_begun (snd x) r'"
    "\<not> starts (with_frame (snd x) r) (snd x) \<Longrightarrow>
      \<exists>r'. watches [x] r = Some r' \<and> same_course (with_frame (snd x) r) r' \<and> turn_refused (snd x) r'"
  by (rule watches_one, unfold violation_kept, use begin_status [OF assms] in simp)+

lemma watches_end:
  assumes "manual (snd x)" "length (vr_previous_motion r) = 4" "moving_axes (snd x) = []"
  shows "turn_begun b r \<Longrightarrow> \<exists>r'. watches [x] r = Some r' \<and>
      same_course ((with_frame (snd x) r)\<lparr> vr_expected_index := vr_expected_index r + 1 \<rparr>) r' \<and> at_ease r'"
    "turn_refused b r \<Longrightarrow> \<exists>r'. watches [x] r = Some r' \<and> same_course (with_frame (snd x) r) r' \<and> at_ease r'"
  by (rule watches_one, unfold violation_kept, rule end_status [OF assms], assumption)+

lemma watches_stroke:
  assumes "at_ease r" "length (vr_previous_motion r) = 4" "manual (snd b)" "manual (snd d)" "moving_axes (snd d) = []"
    and "\<forall>h \<in> set hs. manual (snd h) \<and> st_stand (snd h) = st_stand (snd b)"
  shows "\<exists>r'. watches ([b] @ hs @ [d]) r = Some r' \<and> at_ease r' \<and>
    same_course (r\<lparr> vr_frame_quarters := frame_seen (frame_seen (vr_frame_quarters r) (snd b)) (snd d),
      vr_expected_index := vr_expected_index r + (if starts (with_frame (snd b) r) (snd b) then 1 else 0) \<rparr>) r'"
proof -
  have keep: "length (vr_previous_motion r1) = 4 \<and> frame_seen (vr_frame_quarters r1) (snd b) = vr_frame_quarters r1"
    if "same_course (with_frame (snd b) r) r1" for r1
    using that assms(2) frame_seen_again [OF refl assms(3,3)] by (simp add: same_course_def)
  have all: "watches ([b] @ hs @ [d]) r = Some r3"
    if "watches [b] r = Some r1" "watches hs r1 = Some r2" "watches [d] r2 = Some r3" for r1 r2 r3
    unfolding watches_append that bind.bind_lunit ..
  show ?thesis
  proof (cases "starts (with_frame (snd b) r) (snd b)")
    case True
    obtain r1 where r1: "watches [b] r = Some r1" "same_course (with_frame (snd b) r) r1" "turn_begun (snd b) r1"
      using watches_begin(1) [OF assms(1-3) True] by (elim exE conjE)
    obtain r2 where r2: "watches hs r1 = Some r2" "same_course r1 r2" "turn_begun (snd b) r2"
      using watches_begun [OF assms(3,6) r1(3) keep [OF r1(2)]] by (elim exE conjE)
    note course = same_course_trans [OF r1(2) r2(2)]
    obtain r3 where r3: "watches [d] r2 = Some r3"
      "same_course ((with_frame (snd d) r2)\<lparr> vr_expected_index := vr_expected_index r2 + 1 \<rparr>) r3" "at_ease r3"
      using watches_end(1) [OF assms(4) conjunct1 [OF keep [OF course]] assms(5) r2(3)] by (elim exE conjE)
    show ?thesis
      using all [OF r1(1) r2(1) r3(1)] r3(2,3) course True by (intro exI [of _ r3]) (simp add: same_course_def)
  next
    case False
    obtain r1 where r1: "watches [b] r = Some r1" "same_course (with_frame (snd b) r) r1" "turn_refused (snd b) r1"
      using watches_begin(2) [OF assms(1-3) False] by (elim exE conjE)
    obtain r2 where r2: "watches hs r1 = Some r2" "same_course r1 r2" "turn_refused (snd b) r2"
      using watches_refused [OF assms(3,6) r1(3) keep [OF r1(2)]] by (elim exE conjE)
    note course = same_course_trans [OF r1(2) r2(2)]
    obtain r3 where r3: "watches [d] r2 = Some r3" "same_course (with_frame (snd d) r2) r3" "at_ease r3"
      using watches_end(2) [OF assms(4) conjunct1 [OF keep [OF course]] assms(5) r2(3)] by (elim exE conjE)
    show ?thesis
      using all [OF r1(1) r2(1) r3(1)] r3(2,3) course False by (intro exI [of _ r3]) (simp add: same_course_def)
  qed
qed

lemma watches_segment:
  assumes "segment_ok x" "at_ease r" "length (vr_previous_motion r) = 4"
  shows "\<exists>r'. watches (segment_statuses x) r = Some r' \<and> at_ease r' \<and>
    same_course (r\<lparr> vr_frame_quarters := frame_after (vr_frame_quarters r) x,
      vr_expected_index := vr_expected_index r + turns_in r x \<rparr>) r'"
proof (cases x)
  case (Still y)
  then have "status_ok (snd y)" "keeps_expected (snd y)" "moving_axes (snd y) = []" using assms(1) by auto
  from watches_rest [OF assms(2,3) this] Still show ?thesis by auto
next
  case (Stroke b hs d)
  have "segment_statuses x = [b] @ hs @ [d]" using Stroke by simp
  moreover have "manual (snd b)" "manual (snd d)" "moving_axes (snd d) = []"
    "\<forall>h \<in> set hs. manual (snd h) \<and> st_stand (snd h) = st_stand (snd b)"
    using assms(1) Stroke by auto
  note watches_stroke [OF assms(2,3) this]
  ultimately show ?thesis using Stroke by simp
qed

lemma watches_segments:
  assumes "\<forall>x \<in> set xs. segment_ok x" "at_ease r" "length (vr_previous_motion r) = 4"
    and "vr_expected_index r \<le> length (vr_expected r)"
  shows "\<exists>r'. watches (concat (map segment_statuses xs)) r = Some r' \<and> vr_expected r' = vr_expected r \<and>
    take (vr_expected_index r') (vr_expected r) = take (vr_expected_index r) (vr_expected r) @
      turned_moves (vr_frame_quarters r) (drop (vr_expected_index r) (vr_expected r)) xs"
  using assms
proof (induction xs arbitrary: r)
  case (Cons x xs)
  obtain r1 where r1: "watches (segment_statuses x) r = Some r1" "at_ease r1"
    "same_course (r\<lparr> vr_frame_quarters := frame_after (vr_frame_quarters r) x,
      vr_expected_index := vr_expected_index r + turns_in r x \<rparr>) r1"
    using watches_segment [of x r] Cons.prems by auto
  let ?i = "vr_expected_index r" and ?e = "vr_expected r"
  have same: "vr_expected r1 = ?e" "vr_expected_index r1 = ?i + turns_in r x"
    "vr_frame_quarters r1 = frame_after (vr_frame_quarters r) x" "length (vr_previous_motion r1) = 4"
    using r1(3) Cons.prems(3) by (simp_all add: same_course_def)
  have index: "turns_in r x = 0 \<or> turns_in r x = 1 \<and> ?i < length ?e"
    by (cases x) (simp_all add: starts_def)
  then have "vr_expected_index r1 \<le> length (vr_expected r1)" using same Cons.prems(4) by auto
  then obtain r2 where r2: "watches (concat (map segment_statuses xs)) r1 = Some r2" "vr_expected r2 = ?e"
    "take (vr_expected_index r2) ?e = take (vr_expected_index r1) ?e @
      turned_moves (frame_after (vr_frame_quarters r) x) (drop (vr_expected_index r1) ?e) xs"
    using Cons.IH [of r1] Cons.prems(1) r1(2) same by auto
  have "take (vr_expected_index r1) ?e @ turned_moves (frame_after (vr_frame_quarters r) x) (drop (vr_expected_index r1) ?e) xs =
      take ?i ?e @ turned_moves (vr_frame_quarters r) (drop ?i ?e) (x # xs)"
  proof (cases x)
    case (Stroke b hs d)
    have "starts (with_frame (snd b) r) (snd b) \<longleftrightarrow> drop ?i ?e \<noteq> [] \<and>
        turning (frame_seen (vr_frame_quarters r) (snd b)) (hd (drop ?i ?e)) (snd b)"
      by (auto simp: starts_def hd_drop_conv_nth)
    then show ?thesis
      using Stroke same(2) by (auto simp: Let_def take_Suc_conv_app_nth hd_drop_conv_nth drop_Suc tl_drop)
  qed (simp add: same(2))
  then show ?case
    using r1(1) r2 by (simp add: watches_append)
qed simp

section \<open>The displayed cube\<close>

lemma sim_apply_status_watches:
  assumes "sim_apply_status F now status s = Some s'"
  shows "watches [(now, status)] (ss_visual s) = Some (ss_visual s')"
proof -
  let ?a = "if sol_move_count (st_solution status) > 0
    then s\<lparr> ss_last_solution := Some (st_solution status) \<rparr> else s"
  let ?b = "?a\<lparr> ss_presentation := present_status status (ss_presentation ?a) \<rparr>"
  let ?c = "note_axes F now status (note_scan_pose status ?b)"
  have same: "ss_visual ?c = ss_visual s" by (simp add: note_scan_pose_def)
  obtain s1 where s1: "replay_visual status ?c = Some s1" "s' = (note_mismatch s1)\<lparr> ss_status := Some status, ss_dirty := True \<rparr>"
    using assms by (auto simp: sim_apply_status_def Let_def)
  obtain out where "replay_status status (ss_visual s) = Some (ss_visual s1, out)"
    using s1(1) same by (auto simp: replay_visual_def turn_shown_cube_def Let_def split: option.splits)
  moreover have "ss_visual s' = (ss_visual s1)\<lparr> vr_violation := None \<rparr>"
    using s1(2) by (simp add: note_mismatch_def Let_def split: option.split)
  ultimately show ?thesis by simp
qed

lemma sim_statuses_watches: "sim_statuses F xs s = Some s' \<Longrightarrow> watches xs (ss_visual s) = Some (ss_visual s')"
proof (induction xs arbitrary: s)
  case (Cons x xs)
  obtain now status where x: "x = (now, status)" by (cases x)
  then obtain s1 where s1: "sim_apply_status F now status s = Some s1" "sim_statuses F xs s1 = Some s'"
    using Cons.prems by (auto split: Option.bind_splits)
  have "watches ([(now, status)] @ xs) (ss_visual s) = Some (ss_visual s')"
    unfolding watches_append sim_apply_status_watches [OF s1(1)] bind.bind_lunit by (rule Cons.IH [OF s1(2)])
  then show ?case using x by simp
qed simp

definition frame_known :: "'f sim_state \<Rightarrow> u8" where
  "frame_known s = (case ss_status s of
     None \<Rightarrow> vr_frame_quarters (ss_visual s)
   | Some status \<Rightarrow> frame_seen (vr_frame_quarters (ss_visual s)) status)"

definition at_rest :: "'f sim_state \<Rightarrow> bool" where
  "at_rest s \<longleftrightarrow> (case ss_status s of
     None \<Rightarrow> True | Some status \<Rightarrow> status_ok status \<and> keeps_expected status \<and> moving_axes status = [])"

lemma set_visual_moves_rests:
  assumes "at_rest s" "set_visual_moves moves s = Some s0"
  shows "at_ease (ss_visual s0) \<and> vr_expected (ss_visual s0) = map visual_move_of moves \<and> vr_expected_index (ss_visual s0) = 0 \<and>
    vr_frame_quarters (ss_visual s0) = frame_known s"
proof (cases "ss_status s")
  case None
  then have "ss_visual s0 = set_expected moves (ss_visual s)" using assms(2) by (auto simp: set_visual_moves_def)
  then show ?thesis using None by (simp add: set_expected_def at_ease_def frame_known_def nth_replicate)
next
  case (Some status)
  let ?r = "set_expected moves (ss_visual s)"
  have r: "at_ease ?r" "length (vr_previous_motion ?r) = 4" by (simp_all add: set_expected_def at_ease_def nth_replicate)
  obtain r' out where r': "replay_status status ?r = Some (r', out)" "same_course (with_frame status ?r) r'" "at_ease r'"
    using at_ease_status [OF r, of status] assms(1) Some by (auto simp: at_rest_def)
  have "ss_visual s0 = r'"
    using assms(2) Some r'(1) by (auto simp: set_visual_moves_def replay_visual_def turn_shown_cube_def Let_def split: option.splits)
  then show ?thesis using r'(2,3) Some by (simp add: same_course_def frame_known_def) (simp add: set_expected_def)
qed

lemma segment_statuses_ok:
  assumes "segment_ok x" "y \<in> set (segment_statuses x)"
  shows "status_ok (snd y) \<and> keeps_expected (snd y)"
  using assms manual_keeps by (cases x) auto

lemma turns_shown:
  assumes "sim_ok s" "at_rest s" "\<forall>x \<in> set xs. segment_ok x"
  shows "\<exists>s0 s'. set_visual_moves moves s = Some s0 \<and> sim_statuses F (concat (map segment_statuses xs)) s0 = Some s' \<and>
    sc_cubies (ss_cube s') = sc_cubies (fold apply_move (turned_moves (frame_known s) (map visual_move_of moves) xs) (ss_cube s)) \<and>
    cube_facelets (ss_cube s') = Some (ss_facelets s')"
proof -
  let ?ys = "concat (map segment_statuses xs)" and ?ms = "map visual_move_of moves"
  have current: "\<And>status. ss_status s = Some status \<Longrightarrow> status_ok status \<and> keeps_expected status"
    using assms(2) by (simp add: at_rest_def)
  have ys: "\<forall>y \<in> set ?ys. status_ok (snd y) \<and> keeps_expected (snd y)"
    using assms(3) segment_statuses_ok by auto
  obtain s0 where s0: "set_visual_moves moves s = Some s0" "sim_ok s0" "follows (ss_cube s) s0"
    using set_visual_moves_ok [OF assms(1) current] by blast
  note rest = set_visual_moves_rests [OF assms(2) s0(1)]
  obtain s' where s': "sim_statuses F ?ys s0 = Some s'" "sim_ok s'" "follows (ss_cube s) s'"
    using sim_statuses_follow [OF s0(2) _ s0(3), of ?ys F] ys by blast
  have "length (vr_previous_motion (ss_visual s0)) = 4" using s0(2) by (simp add: sim_ok_def replay_ok_def)
  then obtain r' where "watches ?ys (ss_visual s0) = Some r'" "vr_expected r' = ?ms"
    "take (vr_expected_index r') ?ms = turned_moves (frame_known s) ?ms xs"
    using watches_segments [OF assms(3), of "ss_visual s0"] rest by auto
  with sim_statuses_watches [OF s'(1)]
  have "take (vr_expected_index (ss_visual s')) (vr_expected (ss_visual s')) = turned_moves (frame_known s) ?ms xs"
    by simp
  then show ?thesis using s0(1) s' by (auto simp: follows_def sim_ok_def)
qed

section \<open>A stroke of the right claw\<close>

text \<open>The right claw grips the cube and turns by half a turn; a request of manual moves is active.\<close>

definition stroke_status :: "axis_motion \<Rightarrow> link_gripper_orientation \<Rightarrow> link_gripper_orientation \<Rightarrow> status_snapshot" where
  "stroke_status motion current target = unknown_status\<lparr>
     st_stand := unknown_stand\<lparr>
       stand_rails := (stand_rails unknown_stand)[1 := \<lparr> rail_motion = Stable,
         rail_current = Some link_rail_position.Grip, rail_target = Some link_rail_position.Grip \<rparr>],
       stand_grippers := (stand_grippers unknown_stand)[1 := \<lparr> gripper_motion = motion,
         gripper_current = Some current, gripper_target = Some target \<rparr>] \<rparr>,
     st_active_operation := Some \<lparr> op_id = 9, op_kind = operation_kind.ExecuteMoves, op_current_action = 1,
       op_action_count = 4 \<rparr> \<rparr>"

definition half_stroke :: segment where
  "half_stroke = (let b = stroke_status Moving link_gripper_orientation.FrameParallel link_gripper_orientation.FrameParallelReversed
     in Stroke (10, b) [(400, b)]
       (800, stroke_status Stable link_gripper_orientation.FrameParallelReversed link_gripper_orientation.FrameParallelReversed))"

definition back_stroke :: segment where
  "back_stroke = (let b = stroke_status Moving link_gripper_orientation.FrameParallelReversed link_gripper_orientation.FrameParallel
     in Stroke (900, b) [(1200, b)]
       (1600, stroke_status Stable link_gripper_orientation.FrameParallel link_gripper_orientation.FrameParallel))"

lemma stroke_fields:
  "st_active_operation (stroke_status m c t) = Some \<lparr> op_id = 9, op_kind = operation_kind.ExecuteMoves, op_current_action = 1,
     op_action_count = 4 \<rparr>"
  "stand_grippers (st_stand (stroke_status m c t)) ! 1 = \<lparr> gripper_motion = m, gripper_current = Some c, gripper_target = Some t \<rparr>"
  "i < 4 \<Longrightarrow> i \<noteq> 1 \<Longrightarrow> gripper_motion (stand_grippers (st_stand (stroke_status m c t)) ! i) = axis_motion.Unknown"
  "i < 4 \<Longrightarrow> i \<noteq> 1 \<Longrightarrow> rail_current (stand_rails (st_stand (stroke_status m c t)) ! i) = None"
  "rail_current (stand_rails (st_stand (stroke_status m c t)) ! 1) = Some link_rail_position.Grip"
  "\<not> canonical_status (stroke_status m c t)"
  by (simp_all add: stroke_status_def unknown_stand_def AXIS_COUNT_def canonical_status_def nth_replicate)

lemma stroke_status_ok: "status_ok (stroke_status m c t)" "manual (stroke_status m c t)"
  by (simp_all add: status_ok_def stroke_status_def unknown_status_def stand_ok_def manual_def)
    (simp_all add: unknown_stand_def AXIS_COUNT_def)

lemma stroke_axes: "moving_axes (stroke_status m c t) = (if m = Moving then [1] else [])"
  by (simp add: moving_axes_def stroke_fields(2,3) [simplified])

lemma stroke_frame [simp]: "frame_seen q (stroke_status m c t) = q"
  using stroke_fields(4) [of 0 m c t] stroke_fields(6) [of m c t] by (simp add: frame_seen_def)

lemma strokes_ok: "segment_ok half_stroke" "segment_ok back_stroke"
  by (simp_all add: half_stroke_def back_stroke_def stroke_status_ok stroke_axes Let_def)

lemma strokes_turn:
  "turned_moves 0 [\<lparr> vm_face = cube_face.Right, vm_turns = 2 \<rparr>, \<lparr> vm_face = cube_face.Up, vm_turns = -1 \<rparr>] [half_stroke, back_stroke] =
     [\<lparr> vm_face = cube_face.Right, vm_turns = 2 \<rparr>]"
  by (simp add: half_stroke_def back_stroke_def turning_def stroke_axes stroke_fields(2,5) [simplified] owned_face_def Let_def)

end
