(* ===== verification/Spec2Isabelle.thy ===== *)
theory Spec2Isabelle
  imports PwmDriver ClientSpec ScanShellSafety SimStrokes SimBench DaemonLink RobotLink Notation PlannerCost ScanSafety ServiceRequests Bench
begin

text \<open>
  A verification library of the Rubik's cube solving robot. The robot is a daemon on an embedded
  board: it receives framed requests over a serial line, drives sixteen PWM channels that move four
  rails and four grippers around a cube, scans the six faces with a camera, calls a solver and turns
  the faces. The library models the daemon's own logic and proves what makes it correct.

  The link protocol (\<open>crates/rubik-link-protocol\<close>).
    Crc (\<open>crc.rs\<close>), Cobs (\<open>cobs.rs\<close>), Opcode (\<open>opcode.rs\<close>) and Wire (\<open>wire.rs\<close>): checksum, byte
    stuffing, opcode tables and packets, on the caller's fixed buffers; \<open>None\<close> is an index panic and
    \<open>Inl\<close> a \<open>WireError\<close>. LinkState (\<open>state.rs\<close>, \<open>message.rs\<close>): status and message types with their
    validation and the packed move buffer. Notation (\<open>notation.rs\<close>): the Singmaster parser.
    The lemmas are round trips, exactness of the decoder and detection of one corrupted byte.

  The serial link (\<open>src/robot_link.rs\<close>, \<open>payload.rs\<close>).
    Stream states the interface of an incremental frame decoder as the locale \<open>stream_decoder\<close> and
    derives delivery and resynchronisation; RobotLink models the daemon's encoder and decoder and
    interprets the locale on them.

  The cube and the stand (\<open>src/cube.rs\<close>, \<open>src/stand.rs\<close>, \<open>src/move_planner.rs\<close>).
    Cube: scanned faces and facelet strings. Stand: the calibration, its validation and the pulse and
    duration tables. MovePlanner: the baseline planner and the optimised planner with its per-axis
    state. Mechanics is the specification: an abstract machine of rails and grippers around a cube
    that gets stuck on a collision, on a dropped cube or on a turn without support.
    PlannerSafety proves that every plan runs on it and makes exactly the requested turns (a
    simulation between planner state and machine); PlannerCost compares the planners, with the locale
    \<open>step_weight\<close> interpreted on durations and on step counts.

  The robot service (\<open>src/robot_service.rs\<close>).
    ServiceTypes holds the state record \<open>service\<close> (one field per field of \<open>RobotService\<close>), the plans
    and the record \<open>backend\<close> of everything outside the repository; RobotService the motion primitives,
    abort and faults; RobotPlans the stepping of scans, solving and execution and \<open>tick\<close>;
    RobotRequests admission of requests and local commands. Each handler returns the new state with
    its events, or \<open>None\<close> where the code panics. ServiceEffects, ServiceInvariant, ServiceProgress and
    ServiceRequests prove the invariant \<open>service_inv\<close> handler by handler and for every reachable state
    (\<open>service_reach\<close>); ScanData and ScanSafety relate scans to solver input and to the machine. Bench
    is a concrete backend for witnesses.

  The gateway (\<open>crates/rubik-link-gateway/src/lib.rs\<close>).
    BoundedQueue states the interface of a bounded queue as a locale. Gateway models every function of
    the controller's routing core on its ring buffers, route slots and frame buffers. GatewaySafety
    interprets the queue on the ring buffers; GatewayRefinement is the specification over plain lists
    and a map of routes; GatewaySteps proves that every operation refines it, GatewayReach that every
    reachable state does, and follows a pending abort request through any calls (\<open>awaiting\<close>). FrameHandler, a locale that extends \<open>stream_decoder\<close>, turns bytes into
    packets for both serial ports and for the daemon.

  The button and the daemon (\<open>src/operator_button.rs\<close>, \<open>src/robot_daemon.rs\<close>).
    OperatorButton: pad configuration, debouncer and press workflow; the debouncer is characterised by
    the history of readings. Daemon: the event loop over the inputs of each iteration, with writer and
    serializers as parameters. DaemonSafety proves that it never panics; DaemonLink composes it with
    the gateway over a serial line that loses no bytes.

  The stand runtime (\<open>src/stand_runtime.rs\<close>).
    StandRuntime: every method of the synchronous runtime, with its error paths. StandRuntimeSafety
    shows that the methods drive plans of the planner and relates the commanded states to the machine
    of Mechanics; StandRuntimeCalls treats sequences of calls, faults and the full scan.

  The motion of the service. ServiceMotion refines the invariant of the service: which rails and
  grippers the current step may be moving, and that nothing else moves (\<open>motion_inv\<close>).

  The simulator (\<open>src/sim_server.rs\<close>), a server that runs the robot service on a simulated cube.
    SimCube: the cube of 26 cubies, its turns and its facelets; SimCubeSafety proves that turns permute
    the stickers. SimScanner: the simulated camera and the solver string of its scan. SimReplay: how the
    display follows layer turns and turns of the whole cube from statuses, with SimReplaySafety. SimState
    and SimStateSafety: the display's state, its commands and collision rules; \<open>f32\<close> arithmetic is the
    record \<open>f32_ops\<close>. SimSequence: the loop that normalises move sequences. SimCommands: session names,
    the pool of sessions, command parsing and encoding. SimSession: the handler of commands, the pump of
    telemetry and the daemon of one session; SimSessionSafety runs them as a system (\<open>sim_reach\<close>) and
    SimLink interprets \<open>frame_handler\<close> on the session's daemon. SimStrokes says of the statuses alone
    which strokes of the claws turn a layer, and shows that the display turns exactly at these. SimBench
    holds witnesses' parameters.

  The PWM driver (\<open>src/pca9685.rs\<close>).
    Pca9685: every operation as reads and writes of registers, with \<open>f64\<close> arithmetic as a parameter.
    PwmOutputs states the trait \<open>PwmOutput\<close> as the locale \<open>pwm_output\<close> and proves in it what the stand
    runtime leaves on the channels; PwmDriver shows that the driver satisfies the trait on every device
    whose registers follow the data sheet (\<open>led_registers\<close>), and on a register file.

  The clients.
    RobotClient (\<open>src/robot_client.rs\<close>): encoding of commands, decoding of packets, the copy of the
    status. ClientFollows: how the copy follows the robot through packets, buttons and ticks
    (\<open>follow_reach\<close>). ClientLink interprets \<open>frame_handler\<close> on the client and connects it to the daemon.
    RobotCtl (\<open>src/bin/rubik-robotctl.rs\<close>): one command with its retries and its verdict, over the list of
    what each wait saw; RobotCtlSafety relates its result to the messages read (\<open>decided\<close>, \<open>undecided\<close>,
    \<open>gave_up\<close>) and to the answer that arrives, and ClientSpec states the properties of both.

  The shells (\<open>src/bin/rubik-stand-runtime.rs\<close>, \<open>src/bin/rubik-full-scan.rs\<close>).
    StandShell and ScanShell: the command loops over the typed lines, and the full scan with its report,
    solving and execution; the camera is the function \<open>se_capture\<close>, and what the steps of the start
    return is the record \<open>scan_startup\<close>. ScanShellSafety proves that a shell that started
    ends with the outputs off unless the terminal fails, and that scan, solve and execute does what it
    says.
  Bounds. Buffers have the sizes of the code. A plan of n moves has at most 20 n + 3 steps, which
  fits the 16-bit action counters for the at most 32 moves a request can carry. The request cache
  holds 16 responses. Instants are milliseconds as natural numbers. Machine integers are words;
  identifiers wrap as the code's do. No definition uses fuel: the loops recurse on their data, and the
  normaliser of move sequences is a \<open>partial_function\<close> proved to return.

  Not modelled. The camera, the neural network and image processing are floating-point and hardware code: the
  scanner is a field of \<open>backend\<close> and of \<open>scan_env\<close>, as are the solver and the serializer. File and
  socket I/O, the argument parsing and printed layout of the command line tools, the calibration tools,
  the HTTP routing, JSON text and event stream of the simulator server, and the controller firmware
  (drivers, Wi-Fi and HTTP around the gateway core) are glue around the modelled parts.
\<close>

section \<open>The robot service\<close>

text \<open>
  C1: the robot service never panics. In every state the daemon can reach by handling packets,
  button commands and ticks in any order, whatever the outputs, the scanner and the solver answer,
  every further packet, command and tick is handled to its end.
\<close>

theorem service_never_panics:
  assumes "service_reach B s"
  shows "(\<exists>r. handle_packet B p s = Some r) \<and> (\<exists>r. handle_local_command B c s = Some r) \<and>
    (\<exists>r. tick B now polled s = Some r)"
  using service_reach_inv [OF assms] handle_packet_inv [of s B p] handle_local_command_inv [of s B c]
    tick_inv [of s B now polled] by blast

theorem service_never_panics_witness:
  "service_reach bench bench_start \<and>
   (\<exists>r. handle_packet bench (bench_packet request_opcode.RecoverToOpen 1 []) bench_start = Some r) \<and>
   (\<exists>r. tick bench 0 Delivered bench_start = Some r)"
proof -
  have "service_reach bench bench_start"
    unfolding bench_start_def by (rule service_reach.start)
  with service_never_panics [OF this, of "bench_packet request_opcode.RecoverToOpen 1 []"] show ?thesis
    by blast
qed

text \<open>
  C2: the published status describes the service. In every reachable state at most one operation is
  active; the controller is Busy, and the status names an active operation, exactly while one is;
  and the status is a snapshot that passes the protocol's own validation.
\<close>

theorem service_status_sound:
  assumes "service_reach B s"
  shows "(operation_active s \<longleftrightarrow> st_controller (svc_status s) = controller_state.Busy) \<and>
    (operation_active s \<longleftrightarrow> st_active_operation (svc_status s) \<noteq> None) \<and>
    length (filter id [svc_motion s \<noteq> None, svc_scan s \<noteq> None, svc_solve s \<noteq> None, svc_execute s \<noteq> None]) \<le> 1 \<and>
    snapshot_validate (svc_status s) = Inr ()"
proof -
  obtain a where a: "ids_ok s" "status_ok (svc_status s)" "in_activity a s" "activity_ok a (svc_status s)"
    using service_reach_inv [OF assms] by (auto simp: service_inv_def)
  have "operation_validate opr = Inr ()" if "st_active_operation (svc_status s) = Some opr" for opr
    using a(4) that
    by (cases a) (auto simp: running_def operation_validate_def motion_ok_def scan_running_def
        solve_running_def execute_running_def word_le_nat_alt not_less)
  then have "snapshot_validate (svc_status s) = Inr ()"
    using a(2) by (auto simp: snapshot_validate_iff status_ok_def scan_ok_def solution_ok_def)
  then show ?thesis
    using a(3,4) operation_active_iff [OF a(3)]
    by (cases a) (auto simp: in_activity_def running_def)
qed

theorem service_status_sound_witness:
  "service_reach bench bench_start \<and> snapshot_validate (svc_status bench_start) = Inr ()"
proof -
  have "service_reach bench bench_start"
    unfolding bench_start_def by (rule service_reach.start)
  with service_status_sound [OF this] show ?thesis by blast
qed

text \<open>
  C4: requests are handled once. After a request with a fresh non-zero identifier, up to fifteen
  further packets may arrive; sending the request again then yields the first response and no event,
  and the same identifier with another opcode is rejected, in both cases without any effect.
\<close>

theorem duplicate_requests:
  assumes "service_reach B s" "rp_request_id p \<noteq> 0" "handle_packet B p s = Some (msgs, s1)"
    and "\<forall>e \<in> set (request_cache s). rsp_request_id (cached_message e) \<noteq> rp_request_id p"
    and "length ps \<le> 15" "handle_packets B ps s1 = Some s2"
    and "rp_request_id q = rp_request_id p"
  shows "handle_packet B q s2 = Some ([if rp_opcode q = rp_opcode p then hd msgs
    else service_message.Response (rejected s2 (rp_request_id p) InvalidPayload)], s2)"
proof -
  note inv = service_reach_inv [OF assms(1)]
  have "find (\<lambda>entry. rsp_request_id (cached_message entry) = rp_request_id p) (request_cache s) = None"
    using assms(4) by (auto simp: find_None_iff)
  then obtain r where r: "hd msgs = service_message.Response r" "rsp_request_id r = rp_request_id p"
    "cached_within 0 \<lparr> cached_opcode = rp_opcode p, cached_message = r \<rparr> s1"
    using handled_cached [of s p B msgs s1] inv assms(2,3) by blast
  have "service_inv s1" "svc_events s1 = []"
    using handle_packet_inv [of s B p] inv assms(3) by auto
  then have s2: "service_inv s2" "cached_within (length ps) \<lparr> cached_opcode = rp_opcode p, cached_message = r \<rparr> s2"
    "svc_events s2 = []"
    using handle_packets_keeps [OF _ r(3), of ps B s2] assms(5,6) by (auto simp: REQUEST_CACHE_CAPACITY_def)
  show ?thesis
    using cached_found [OF s2(1,2)] r s2(3) assms(7)
    by (simp add: handle_packet_def drain_events_def Let_def)
qed

theorem duplicate_requests_witness:
  "\<exists>msgs s1. handle_packet bench (bench_packet request_opcode.RecoverToOpen 1 []) bench_start = Some (msgs, s1) \<and>
     handle_packet bench (bench_packet request_opcode.RecoverToOpen 1 []) s1 = Some ([hd msgs], s1)"
proof -
  let ?p = "bench_packet request_opcode.RecoverToOpen 1 []"
  have reach: "service_reach bench bench_start"
    unfolding bench_start_def by (rule service_reach.start)
  obtain msgs s1 where "handle_packet bench ?p bench_start = Some (msgs, s1)"
    using handle_packet_inv [of bench_start bench ?p] service_reach_inv [OF reach] by blast
  with duplicate_requests [OF reach, of ?p msgs s1 "[]" s1 ?p] show ?thesis
    by (simp add: bench_packet_def bench_start_def with_scanner_def)
qed

text \<open>
  C5: a busy service rejects work. While an operation is active, a packet other than a status query or
  an abort, with an identifier that is not cached, is rejected: as invalid when it is no request, has the
  identifier zero or a payload its opcode does not allow, as unsupported when its opcode is unknown or
  it asks for a scan without a scanner, and otherwise because an operation is active. Nothing but the
  request cache changes: unless the identifier is zero, the rejection is appended to it, and the oldest of
  sixteen entries is dropped. A packet with a cached identifier changes nothing at all; it gets the cached
  response when the opcode is the cached one and a rejection as invalid otherwise.
\<close>

theorem busy_service_rejects:
  assumes "service_reach B s" "operation_active s"
    and "rp_opcode p \<notin> {request_u16 request_opcode.GetStatus, request_u16 request_opcode.Abort}"
  shows "handle_packet B p s =
      (case find (\<lambda>entry. rsp_request_id (cached_message entry) = rp_request_id p) (request_cache s) of
         Some entry \<Rightarrow> Some ([service_message.Response (if cached_opcode entry = rp_opcode p then cached_message entry
           else rejected s (rp_request_id p) InvalidPayload)], s)
       | None \<Rightarrow> Some ([service_message.Response (rejected s (rp_request_id p) (busy_reason B p s))],
           s\<lparr> request_cache := (if rp_request_id p = 0 then request_cache s
             else (if length (request_cache s) = 16 then tl (request_cache s) else request_cache s) @
               [\<lparr> cached_opcode = rp_opcode p, cached_message = rejected s (rp_request_id p) (busy_reason B p s) \<rparr>]) \<rparr>))"
proof -
  have drained: "s\<lparr> svc_events := [] \<rparr> = s" "svc_events s = []"
    using service_reach_inv [OF assms(1)] by auto
  have "s\<lparr> request_cache := c, svc_events := [] \<rparr> = s\<lparr> request_cache := c \<rparr>" for c
    using drained(2) by simp
  with drained show ?thesis
    by (auto simp: handle_packet_def drain_events_def busy_dispatch [OF assms(2,3)] cache_response_def Let_def
        rejected_def REQUEST_CACHE_CAPACITY_def split: option.split)
qed

theorem busy_service_rejects_witness:
  "\<exists>s msgs s'. service_reach bench s \<and> operation_active s \<and>
     handle_packet bench (bench_packet request_opcode.Grip 2 []) s =
       Some ([service_message.Response (rejected s 2 OperationAlreadyActive)], s') \<and>
     handle_packet bench (bench_packet request_opcode.RecoverToOpen 1 []) s = Some ([hd msgs], s) \<and>
     handle_packet bench (bench_packet request_opcode.RecoverToOpen 1 []) bench_start = Some (msgs, s)"
proof -
  let ?p = "bench_packet request_opcode.RecoverToOpen 1 []"
  have reach: "service_reach bench bench_start"
    unfolding bench_start_def by (rule service_reach.start)
  have opcode: "request_try_from (request_u16 c) = Inr c" for c by (simp add: request_try_from_iff)
  have bench_cache: "request_cache bench_start = []" by (simp add: bench_start_def with_scanner_def)
  obtain r t where r: "start_operation operation_kind.RecoverToOpen bench_start = (Inr r, t)" "operation_active t"
    "request_cache t = []"
    by (simp add: start_operation_def bench_start_def with_scanner_def operation_active_def begin_operation_def
        svc_defs Let_def)
  define s where "s = t\<lparr> request_cache := [\<lparr> cached_opcode = rp_opcode ?p, cached_message = accepted 1 (Some r) \<rparr>],
    svc_events := [] \<rparr>"
  have s: "handle_packet bench ?p bench_start =
      Some (service_message.Response (accepted 1 (Some r)) # map service_message.Event (svc_events t), s)"
    using r opcode [of request_opcode.RecoverToOpen]
    by (simp add: s_def handle_packet_def dispatch_new_request_def start_empty_payload_operation_def
        cache_response_def drain_events_def Let_def bench_packet_def payload_def accepted_def
        REQUEST_CACHE_CAPACITY_def bench_cache del: request_u16.simps)
  have active: "service_reach bench s" "operation_active s"
    using service_reach.packet [OF reach s] r(2) by (simp_all add: s_def operation_active_def)
  have "busy_reason bench (bench_packet request_opcode.Grip 2 []) s = OperationAlreadyActive"
    using opcode [of request_opcode.Grip]
    by (simp add: busy_reason_def well_formed_def bench_packet_def payload_def del: request_u16.simps)
  then have "handle_packet bench (bench_packet request_opcode.Grip 2 []) s =
      Some ([service_message.Response (rejected s 2 OperationAlreadyActive)], s\<lparr> request_cache := request_cache s @
        [\<lparr> cached_opcode = request_u16 request_opcode.Grip, cached_message = rejected s 2 OperationAlreadyActive \<rparr>] \<rparr>)"
    using busy_service_rejects [OF active, of "bench_packet request_opcode.Grip 2 []"]
    by (simp add: bench_packet_def s_def accepted_def)
  moreover have "handle_packet bench ?p s = Some ([service_message.Response (accepted 1 (Some r))], s)"
    using busy_service_rejects [OF active, of ?p] by (simp add: bench_packet_def s_def accepted_def)
  ultimately show ?thesis
    using s active list.sel(1) by metis
qed

text \<open>
  C6: a solve request is accepted exactly when the service is ready with the named session, a valid
  scan of the named revision and the cube in canonical grip: a scan the service has published as
  valid is never found unusable afterwards.
\<close>

theorem solve_admission:
  assumes "service_reach B s" "decode_payload (take_solve B) (payload p) = Inr c"
  shows "(\<exists>i s'. start_solve_request B p s = Some (accepted (rp_request_id p) (Some i), s')) \<longleftrightarrow>
    st_controller (svc_status s) = controller_state.Ready \<and>
    st_cube_session (svc_status s) = Some \<lparr> cs_id = solve_session_id c \<rparr> \<and>
    scan_state (st_scan (svc_status s)) = Valid \<and>
    scan_revision (st_scan (svc_status s)) = Some (solve_scan_revision c) \<and>
    pose_kind (stand_pose (st_stand (svc_status s))) = CanonicalGrip"
proof -
  obtain a where a: "status_ok (svc_status s)" "in_activity a s" "activity_ok a (svc_status s)"
    using service_reach_inv [OF assms(1)] by (auto simp: service_inv_def)
  have idle: "\<not> operation_active s" if "st_controller (svc_status s) = controller_state.Ready"
    using a(3) that operation_active_iff [OF a(2)] by (cases a) (auto simp: running_def)
  have solv: "solvable (st_scan (svc_status s))" if "scan_state (st_scan (svc_status s)) = Valid"
    using a(1) that by (simp add: status_ok_def scan_ok_def)
  have session: "session = \<lparr> cs_id = i \<rparr> \<longleftrightarrow> cs_id session = i" for session i
    by (cases session) simp
  show ?thesis
    using idle solv
    by (cases "st_cube_session (svc_status s)")
      (auto simp: start_solve_request_def Let_def assms(2) split_beta accepted_def rejected_def solvable_def session
        split: if_splits)
qed

theorem solve_admission_witness:
  "\<nexists>i s'. start_solve_request bench (bench_packet request_opcode.Solve 7 [1, 1]) bench_start =
     Some (accepted 7 (Some i), s')"
proof -
  have reach: "service_reach bench bench_start"
    unfolding bench_start_def by (rule service_reach.start)
  have dec: "decode_payload (take_solve bench) (payload (bench_packet request_opcode.Solve 7 [1, 1])) =
      Inr \<lparr> solve_session_id = 1, solve_scan_revision = 1 \<rparr>"
    by (simp add: bench_def bench_packet_def payload_def decode_payload_def)
  from solve_admission [OF reach dec] show ?thesis
    by (simp add: bench_packet_def bench_start_def with_scanner_def unknown_status_def)
qed

text \<open>
  C7: an execute request is accepted exactly when the service is ready with the named session, scan
  revision and solution and the cube in canonical grip; it then runs the release plan of exactly the
  moves of the published solution, and reports the solution as executing with no move done.
\<close>

theorem execute_admission:
  assumes "service_reach B s" "decode_payload (take_execute B) (payload p) = Inr c"
  shows "(\<exists>i s' e. start_execute_request B p s = Some (accepted (rp_request_id p) (Some i), s') \<and>
      svc_execute s' = Some e \<and> ae_operation_id e = i \<and>
      Some (ae_steps e) = execute_steps (map internal_move
        (take (unat (sol_move_count (st_solution (svc_status s)))) (sol_moves (st_solution (svc_status s))))) \<and>
      sol_state (st_solution (svc_status s')) = solution_state_kind.Executing \<and>
      sol_completed_moves (st_solution (svc_status s')) = 0) \<longleftrightarrow>
    st_controller (svc_status s) = controller_state.Ready \<and>
    st_cube_session (svc_status s) = Some \<lparr> cs_id = exec_session_id c \<rparr> \<and>
    scan_state (st_scan (svc_status s)) = Valid \<and>
    scan_revision (st_scan (svc_status s)) = Some (exec_scan_revision c) \<and>
    sol_state (st_solution (svc_status s)) = solution_state_kind.Ready \<and>
    sol_id (st_solution (svc_status s)) = Some (exec_solution_id c) \<and>
    sol_source_scan_revision (st_solution (svc_status s)) = Some (exec_scan_revision c) \<and>
    pose_kind (stand_pose (st_stand (svc_status s))) = CanonicalGrip"
proof -
  obtain a where a: "status_ok (svc_status s)" "in_activity a s" "activity_ok a (svc_status s)"
    using service_reach_inv [OF assms(1)] by (auto simp: service_inv_def)
  have idle: "\<not> operation_active s" if "st_controller (svc_status s) = controller_state.Ready"
    using a(3) that operation_active_iff [OF a(2)] by (cases a) (auto simp: running_def)
  let ?sol = "st_solution (svc_status s)"
  have sol: "length (sol_moves ?sol) = 32" "unat (sol_move_count ?sol) \<le> 32"
    using a(1) by (auto simp: status_ok_def solution_ok_def solution_validate_iff)
  let ?moves = "map internal_move (take (unat (sol_move_count ?sol)) (sol_moves ?sol))"
  have slice: "move_slice (sol_moves ?sol) (sol_move_count ?sol) = Some ?moves"
    by (rule move_slice_ok [OF sol(2,1)])
  obtain steps where steps: "execute_steps ?moves = Some steps" "length steps \<le> 20 * length ?moves + 3"
    using execute_steps_ok [of ?moves] by blast
  have small: "length steps < 65536" using steps(2) sol by simp
  have session: "session = \<lparr> cs_id = i \<rparr> \<longleftrightarrow> cs_id session = i" for session i
    by (cases session) simp
  show ?thesis
    using idle checked_u16_small [OF small]
    by (cases "st_cube_session (svc_status s)")
      (auto simp: start_execute_request_def Let_def assms(2) split_beta accepted_def rejected_def session slice steps(1)
        begin_execute_def svc_defs split: if_splits)
qed

theorem execute_admission_witness:
  "\<nexists>i s' e. start_execute_request bench (bench_packet request_opcode.Execute 7 [1, 1, 1]) bench_start =
     Some (accepted 7 (Some i), s') \<and> svc_execute s' = Some e \<and> ae_operation_id e = i \<and>
     Some (ae_steps e) = execute_steps [] \<and>
     sol_state (st_solution (svc_status s')) = solution_state_kind.Executing \<and>
     sol_completed_moves (st_solution (svc_status s')) = 0"
proof -
  have reach: "service_reach bench bench_start"
    unfolding bench_start_def by (rule service_reach.start)
  have dec: "decode_payload (take_execute bench) (payload (bench_packet request_opcode.Execute 7 [1, 1, 1])) =
      Inr \<lparr> exec_session_id = 1, exec_scan_revision = 1, exec_solution_id = 1 \<rparr>"
    by (simp add: bench_def bench_packet_def payload_def decode_payload_def)
  from execute_admission [OF reach dec] show ?thesis
    by (simp add: bench_packet_def bench_start_def with_scanner_def unknown_status_def empty_solution_def empty_scan_def)
qed

text \<open>
  C8: an abort request always stops the robot. In every reachable state it is accepted, ends every
  operation, and forgets the cube, the scan, the solution and the stand's position; the outputs
  are off and the state is Aborted, or, if they could not be switched off, Faulted. The events say so.
\<close>

theorem abort_stops:
  assumes "service_reach B s" "rp_kind p = message_kind.Request" "rp_request_id p \<noteq> 0"
    and "rp_opcode p = request_u16 request_opcode.Abort" "payload p = []"
    and "\<forall>e \<in> set (request_cache s). rsp_request_id (cached_message e) \<noteq> rp_request_id p"
    and "fst (all_off B (svc_output s)) = ok" "handle_packet B p s = Some (msgs, s')"
  shows "\<not> operation_active s' \<and> st_cube_session (svc_status s') = None \<and>
    st_stand (svc_status s') = unknown_stand \<and> st_scan (svc_status s') = empty_scan \<and>
    st_solution (svc_status s') = empty_solution \<and>
    st_controller (svc_status s') = (if ok then controller_state.Aborted else controller_state.Faulted) \<and>
    take 2 msgs = [service_message.Response (accepted (rp_request_id p) None),
      service_message.Event (if ok then event_message.Aborted (map_option op_id (st_active_operation (svc_status s)))
             else event_message.Fault
               (case st_active_operation (svc_status s) of None \<Rightarrow> None
                | Some opr \<Rightarrow> if op_id opr = 0 then None else Some (op_id opr))
               \<lparr> fault_code = fault_code.I2c, fault_detail = 0 \<rparr>)]"
proof -
  have "find (\<lambda>entry. rsp_request_id (cached_message entry) = rp_request_id p) (request_cache s) = None"
    using assms(6) by (auto simp: find_None_iff)
  moreover have "svc_events s = []"
    using service_reach_inv [OF assms(1)] by simp
  moreover have "dispatch_new_request B p s = Some (accepted (rp_request_id p) None,
      abort B (map_option op_id (st_active_operation (svc_status s))) s)"
    using assms(2-5) by (simp add: dispatch_new_request_def Let_def del: request_u16.simps)
  ultimately have "s' = (cache_response (rp_opcode p) (accepted (rp_request_id p) None)
        (abort B (map_option op_id (st_active_operation (svc_status s))) s))\<lparr> svc_events := [] \<rparr>"
    "msgs = service_message.Response (accepted (rp_request_id p) None) #
      map service_message.Event (svc_events (abort B (map_option op_id (st_active_operation (svc_status s))) s))"
    using assms(8) by (auto simp: handle_packet_def drain_events_def cache_response_def Let_def)
  then show ?thesis
    using assms(7) \<open>svc_events s = []\<close>
    by (cases "all_off B (svc_output s)"; cases "st_active_operation (svc_status s)")
      (auto simp: abort_def enter_fault_def Let_def svc_defs operation_active_def cache_response_def)
qed

theorem abort_stops_witness:
  "\<exists>msgs s'. handle_packet bench (bench_packet request_opcode.Abort 9 []) bench_start = Some (msgs, s') \<and>
     st_controller (svc_status s') = controller_state.Aborted \<and> \<not> operation_active s'"
proof -
  let ?p = "bench_packet request_opcode.Abort 9 []"
  have reach: "service_reach bench bench_start"
    unfolding bench_start_def by (rule service_reach.start)
  obtain msgs s' where "handle_packet bench ?p bench_start = Some (msgs, s')"
    using handle_packet_inv [of bench_start bench ?p] service_reach_inv [OF reach] by blast
  with abort_stops [OF reach, of ?p True msgs s'] show ?thesis
    by (auto simp: bench_packet_def bench_start_def with_scanner_def bench_def payload_def)
qed

text \<open>
  an actuator failure is a fault. When an output call fails in a step of a recovery or grip, a
  scan or an execution, the operation ends, the controller is Faulted, the cube and the stand's
  position are forgotten and the operation's fault is announced.
\<close>

theorem output_failure_faults:
  "\<exists>s'. settle B i (Failed e s) = Some s' \<and> \<not> operation_active s' \<and>
     st_controller (svc_status s') = controller_state.Faulted \<and> st_active_operation (svc_status s') = None \<and>
     st_cube_session (svc_status s') = None \<and> st_stand (svc_status s') = unknown_stand \<and>
     st_fault (svc_status s') = Some \<lparr> fault_code = fault_code.I2c, fault_detail = 0 \<rparr> \<and>
     svc_output s' = snd (all_off B (svc_output s)) \<and>
     event_message.Fault (if i = 0 then None else Some i) \<lparr> fault_code = fault_code.I2c, fault_detail = 0 \<rparr>
       \<in> set (svc_events s')"
  by (simp add: settle_def enter_fault_def Let_def svc_defs operation_active_def)

section \<open>Mechanical plans\<close>

text \<open>
  C9: the optimised plan of any sequence of moves exists, can be carried out from the canonical grip
  without ever losing the cube or letting two closed adjacent grippers be parallel to the frame,
  makes exactly those face turns, in order, and ends in the canonical grip with the cube as it stood.
\<close>

theorem optimized_plan_correct:
  "\<exists>steps. optimized_held_steps moves = Some steps \<and>
     exec steps canonical_grip = Some (canonical_grip\<lparr> completed := map turn_of moves \<rparr>)"
  by (rule optimized_held_run)

text \<open>
  the plan for a solution that is released afterwards is as safe and makes the same turns; it
  ends with all rails closed, so the cube is still held when the rails are opened.
\<close>

theorem release_plan_correct:
  "\<exists>steps m. execute_steps moves = Some (motion_steps (append_open_steps steps)) \<and>
     exec steps canonical_grip = Some m \<and> completed m = map turn_of moves \<and> turned m = [] \<and>
     (\<forall>d. rail m d = NearGrip)"
  using optimized_execute_run [of moves] by (auto simp: execute_steps_def)

text \<open>C10: the baseline plan has the same effect as the optimised one.\<close>

theorem baseline_plan_correct:
  "\<exists>steps steps'. baseline_held_steps moves = Some steps \<and> optimized_held_steps moves = Some steps' \<and>
     exec steps canonical_grip = Some (canonical_grip\<lparr> completed := map turn_of moves \<rparr>) \<and>
     exec steps canonical_grip = exec steps' canonical_grip"
  using baseline_held_run [of moves] optimized_held_run [of moves] by auto

text \<open>
  C11: under every calibration, and for every sequence of moves, the optimised plan is estimated to
  take no longer than the baseline plan, and it has no more steps.
\<close>

theorem optimized_plan_faster:
  assumes "optimized_held_steps moves = Some steps" "baseline_held_steps moves = Some steps'"
  shows "estimated_duration steps c \<le> estimated_duration steps' c \<and> length steps \<le> length steps'"
  using duration.optimized_le_baseline [of moves CanonicalHeld steps steps' c]
    step_count.optimized_le_baseline [of moves CanonicalHeld steps steps'] assms
  by (simp add: optimized_held_steps_def estimated_duration_cost length_cost del: One_nat_def)

theorem optimized_plan_faster_witness:
  "\<exists>steps steps'. optimized_held_steps bench_moves = Some steps \<and> baseline_held_steps bench_moves = Some steps' \<and>
     estimated_duration steps default_calibration \<le> estimated_duration steps' default_calibration"
  using optimized_plan_faster [of bench_moves] optimized_held_run [of bench_moves] baseline_held_run [of bench_moves]
  by blast

text \<open>
  a plan the service executes has at most twenty actions per move and three to release the
  cube, so the longest solution the protocol carries fits the 16-bit action counter.
\<close>

theorem execute_plan_bound:
  "\<exists>steps. execute_steps moves = Some steps \<and> length steps \<le> 20 * length moves + 3 \<and>
     (length moves \<le> MAX_SOLUTION_MOVES \<longrightarrow> checked_u16 (length steps) = Some (of_nat (length steps)))"
proof -
  obtain steps where "execute_steps moves = Some steps" "length steps \<le> 20 * length moves + 3"
    using execute_steps_ok by blast
  then show ?thesis by (auto simp: MAX_SOLUTION_MOVES_def checked_u16_def)
qed

theorem execute_plan_bound_witness:
  "\<exists>steps. execute_steps bench_moves = Some steps \<and> checked_u16 (length steps) = Some (of_nat (length steps))"
  using execute_plan_bound [of bench_moves] by (auto simp: bench_moves_def MAX_SOLUTION_MOVES_def)

text \<open>
  C12: the scanning plan is safe, shows the camera each face at the moment it captures it, captures
  all six faces once, and returns the cube to the canonical grip as it stood.
\<close>

theorem scan_plan_correct:
  "exec_motions scan_steps canonical_grip = Some canonical_grip \<and> distinct (captured scan_steps) \<and>
   set (captured scan_steps) = UNIV"
proof -
  have "f \<in> set (captured scan_steps)" for f
    by (cases f) (simp_all add: scan_steps_faces)
  then show ?thesis
    using scan_steps_run by (auto simp: scan_steps_faces)
qed

section \<open>The cube\<close>

text \<open>
  C13: on a cube of well-formed faces, the facelet string never panics, and it is produced exactly for
  a completely scanned cube with six different centres and nine stickers of each colour; it then
  names, sticker by sticker, the face whose centre has the sticker's colour.
\<close>

theorem facelet_string_exact:
  assumes "cube_ok c"
  shows "\<exists>r. facelet_string c = Some r \<and> (\<forall>s. r = Inr s \<longleftrightarrow>
    (\<exists>fs. faces c = map Some fs \<and> distinct (map center fs) \<and>
      (\<forall>col. count_list (concat (map stickers fs)) col = 9) \<and> s = facelets_of fs))"
  by (rule facelet_string_spec [OF assms])

theorem facelet_string_exact_witness:
  "\<exists>r. facelet_string default_cube = Some r \<and> (\<forall>s. r \<noteq> Inr s)"
  using facelet_string_exact [OF default_cube_ok]
  by (auto simp: default_cube_def numeral_eq_Suc Cons_eq_map_conv)

text \<open>
  a face is read from a symbol string exactly if the string is the compact form of a face of nine
  stickers; rotating a face keeps its centre, and four quarter turns change nothing.
\<close>

theorem face_round_trip:
  "(from_symbols str = Inr f \<longleftrightarrow> face_ok f \<and> str = Cube.compact f) \<and> center (rotated f q) = center f \<and>
   (face_ok f \<longrightarrow> (rotate_once ^^ 4) f = f)"
  using from_symbols_iff rotate_four by auto

theorem face_round_trip_witness:
  "(rotate_once ^^ 4) \<lparr> stickers = replicate 8 White @ [Red] \<rparr> = \<lparr> stickers = replicate 8 White @ [Red] \<rparr>"
  using face_round_trip [of "[]" "\<lparr> stickers = replicate 8 White @ [Red] \<rparr>" Zero]
  by (simp add: face_ok_def)

section \<open>The calibration\<close>

text \<open>
  a calibration that validates keeps every servo pulse and every motion time in its bounds, for
  every axis, position and orientation; the built-in calibration validates.
\<close>

theorem calibration_bounds:
  assumes "calibration_validate c = Inr ()"
  shows "300 \<le> rail_pulse c axis position \<and> rail_pulse c axis position \<le> 2800 \<and>
    (\<forall>p. gripper_pulse c axis orientation = Some p \<longrightarrow> 400 \<le> p \<and> p \<le> 2700) \<and>
    100 \<le> rail_duration c position \<and> rail_duration c position \<le> 5000 \<and>
    100 \<le> gripper_pose_duration c \<and> gripper_pose_duration c \<le> 5000"
  using calibration_rail_pulse [OF assms] calibration_gripper_pulse [OF assms]
    calibration_rail_duration [OF assms] calibration_gripper_duration [OF assms] by blast

theorem calibration_bounds_witness:
  "300 \<le> rail_pulse default_calibration LeftRail FarOpen \<and> rail_pulse default_calibration LeftRail FarOpen \<le> 2800"
  using calibration_bounds [OF default_calibration_valid] by blast

section \<open>The robot link\<close>

text \<open>
  C14: the UART decoder recovers from any noise. From every state it can be in, after arbitrary bytes
  and one delimiter, it delivers exactly the packets of the well-formed frames that follow, in order.
\<close>

theorem stream_resynchronises:
  assumes "decoder_ok d" "\<forall>p \<in> set ps. packet_ok p"
  shows "\<exists>d' rs. feed push d (noise @ [UART_DELIMITER] @ concat (map uart_frame_bytes ps)) =
    Some (d', rs @ map (\<lambda>p. Inr (delivered p)) ps) \<and> decoder_ok d'"
  using usd.feed_resync [OF assms] by blast

theorem stream_resynchronises_witness:
  "\<exists>d' rs. feed push default_decoder ([1, 2] @ [UART_DELIMITER] @ concat (map uart_frame_bytes
     [\<lparr> pkt_kind = message_kind.Request, pkt_opcode = 1, pkt_request_id = 7, pkt_payload = [0, 5] \<rparr>])) =
     Some (d', rs @ [Inr (delivered
       \<lparr> pkt_kind = message_kind.Request, pkt_opcode = 1, pkt_request_id = 7, pkt_payload = [0, 5] \<rparr>)])"
  using stream_resynchronises [OF default_decoder_ok, of
      "[\<lparr> pkt_kind = message_kind.Request, pkt_opcode = 1, pkt_request_id = 7, pkt_payload = [0, 5] \<rparr>]" "[1, 2]"]
  by (auto simp: packet_ok_def MAX_PAYLOAD_LEN_def)

text \<open>the decoder never panics, whatever bytes it receives.\<close>

theorem stream_decoder_total: "\<exists>d rs. feed push default_decoder bytes = Some (d, rs)"
  using usd.feed_total [OF default_decoder_ok, of bytes] by blast

text \<open>
  C15: what the encoder sends, the decoder receives. Encoding a payload of at most 1024 bytes succeeds,
  the frame fits the link's frame size, and a decoder at a frame boundary turns it into one packet
  with the same kind, opcode, request identifier and payload.
\<close>

theorem encoder_decoder_round_trip:
  assumes "encoder_ok e" "n \<le> MAX_PAYLOAD_LEN" "decoder_ok d" "decoder_pending d = Some []"
  shows "\<exists>frame e' d' p. (encode_raw e knd opc rid n ::
      (('pe frame_encode_error + u8 list) \<times> uart_frame_encoder) option) = Some (Inr frame, e') \<and> length frame \<le> MAX_UART_FRAME_LEN \<and>
    feed push d frame = Some (d', [Inr p]) \<and> decoder_pending d' = Some [] \<and>
    rp_kind p = knd \<and> rp_opcode p = opc \<and> rp_request_id p = rid \<and> payload p = take n (enc_payload e)"
proof -
  let ?p = "\<lparr> pkt_kind = knd, pkt_opcode = opc, pkt_request_id = rid, pkt_payload = take n (enc_payload e) \<rparr>"
  have ok: "packet_ok ?p"
    using assms(2) by (simp add: packet_ok_def)
  obtain e' where "(encode_raw e knd opc rid n ::
      (('pe frame_encode_error + u8 list) \<times> uart_frame_encoder) option) = Some (Inr (uart_frame_bytes ?p), e')"
    using encode_raw_frame [OF assms(1,2)] by blast
  moreover obtain d' where "feed push d (uart_frame_bytes ?p) = Some (d', [Inr (delivered ?p)])"
    "decoder_pending d' = Some []"
    using usd.feed_frame [OF assms(3,4) ok] by blast
  ultimately show ?thesis
    using length_uart_frame [OF ok]
    by (intro exI [of _ "uart_frame_bytes ?p"] exI [of _ e'] exI [of _ d'] exI [of _ "delivered ?p"])
      simp
qed

theorem encoder_decoder_round_trip_witness:
  "\<exists>frame e' d' p. (encode_raw default_encoder message_kind.Request 1 7 3 ::
      ((string frame_encode_error + u8 list) \<times> uart_frame_encoder) option) = Some (Inr frame, e') \<and>
     feed push default_decoder frame = Some (d', [Inr p]) \<and> rp_request_id p = 7"
  using encoder_decoder_round_trip [OF default_encoder_ok _ default_decoder_ok default_decoder_pending, of 3
      message_kind.Request 1 7]
  by (auto simp: MAX_PAYLOAD_LEN_def)

text \<open>
  the packet decoder accepts exactly the encodings of packets, so encoding is injective and what
  is decoded is what was sent.
\<close>

theorem decode_packet_exact: "decode_packet input = Inr p \<longleftrightarrow> packet_ok p \<and> input = packet_bytes p"
  by (rule decode_packet_iff)

text \<open>C16: changing any single byte of a valid packet makes the decoder reject it.\<close>

theorem single_byte_corruption_detected:
  assumes "decode_packet (before @ x # after) = Inr p" "y \<noteq> x"
  shows "\<exists>e. decode_packet (before @ y # after) = Inl e"
proof (cases "decode_packet (before @ y # after)")
  case (Inr q)
  then show ?thesis
    using assms packet_bytes_one_byte [of p before x after q y] by (auto simp: decode_packet_iff)
qed blast

theorem single_byte_corruption_detected_witness:
  "\<exists>e. decode_packet (2 # tl (packet_bytes
     \<lparr> pkt_kind = message_kind.Request, pkt_opcode = 1, pkt_request_id = 7, pkt_payload = [] \<rparr>)) = Inl e"
proof -
  let ?p = "\<lparr> pkt_kind = message_kind.Request, pkt_opcode = 1, pkt_request_id = 7, pkt_payload = [] \<rparr>"
  have bytes: "packet_bytes ?p = [] @ 1 # tl (packet_bytes ?p)"
    by (simp add: packet_bytes_eq PROTOCOL_VERSION_def)
  have "decode_packet ([] @ 1 # tl (packet_bytes ?p)) = Inr ?p"
    unfolding decode_packet_iff bytes [symmetric] by (simp add: packet_ok_def)
  from single_byte_corruption_detected [OF this, of 2] show ?thesis by simp
qed

text \<open>
  C17: COBS framing is a bijection onto delimiter-free strings: encoding succeeds into a buffer of the
  announced size, its output has no zero byte and at most that length, decoding gives the input back,
  and decoding an arbitrary string never leaves its buffer.
\<close>

theorem cobs_round_trip:
  assumes "max_encoded_len (length input) \<le> length out" "length input \<le> length out'"
  shows "\<exists>n buf. encode input out = Some (Inr n, buf) \<and> n \<le> max_encoded_len (length input) \<and>
    0 \<notin> set (take n buf) \<and>
    (\<exists>buf'. decode (take n buf) out' = Some (Inr (length input), buf') \<and> take (length input) buf' = input) \<and>
    (\<exists>r buf''. decode anything out' = Some (r, buf'') \<and> length buf'' = length out')"
  using encode_blocks [OF assms(1)] decode_blocks [OF assms(2)] cobs_blocks_no_zero [of "[]" input]
    length_cobs_blocks [of "[]" input] decode_total [of anything out']
  by auto

theorem cobs_round_trip_witness:
  "\<exists>n buf. encode [1, 0, 2] (replicate 10 0) = Some (Inr n, buf) \<and> 0 \<notin> set (take n buf)"
  using cobs_round_trip [of "[1, 0, 2]" "replicate 10 0" "replicate 10 0" "[]"]
  by (auto simp: max_encoded_len_def)

text \<open>
  the three opcode families are disjoint, and converting a raw opcode succeeds exactly for the
  discriminants of the family.
\<close>

theorem opcode_families:
  "(request_try_from v = Inr q \<longleftrightarrow> v = request_u16 q) \<and> (response_try_from v = Inr r \<longleftrightarrow> v = response_u16 r) \<and>
   (event_try_from v = Inr e \<longleftrightarrow> v = event_u16 e) \<and>
   request_u16 q < response_u16 r \<and> response_u16 r < event_u16 e"
proof -
  have "request_u16 q < response_u16 r" "response_u16 r < event_u16 e"
    using request_family [of q] response_family [of r] event_family [of e] by (meson order_less_le_trans)+
  then show ?thesis
    by (simp only: request_try_from_iff response_try_from_iff event_try_from_iff simp_thms)
qed

text \<open>
  a manual move command survives its packed representation: what is unpacked has the session, the
  count and the counted moves of what was packed, and passes validation.
\<close>

theorem execute_moves_round_trip:
  assumes "unat (em_move_count c) \<le> MAX_SOLUTION_MOVES" "length (em_moves c) = MAX_SOLUTION_MOVES"
  shows "\<exists>c'. deserialize_execute_moves (serialize_execute_moves c) = Inr c' \<and>
    em_session_id c' = em_session_id c \<and> em_move_count c' = em_move_count c \<and>
    take (unat (em_move_count c)) (em_moves c') = take (unat (em_move_count c)) (em_moves c) \<and>
    length (em_moves c') = MAX_SOLUTION_MOVES \<and> execute_moves_validate c' = Inr ()"
  using deserialize_serialize [of c] assms by (simp add: execute_moves_validate_def)

theorem execute_moves_round_trip_witness:
  "\<exists>c'. deserialize_execute_moves (serialize_execute_moves
     \<lparr> em_session_id = 4, em_moves = replicate 32 empty_move, em_move_count = 2 \<rparr>) = Inr c' \<and> em_move_count c' = 2"
  using execute_moves_round_trip [of "\<lparr> em_session_id = 4, em_moves = replicate 32 empty_move, em_move_count = 2 \<rparr>"]
  by (auto simp: MAX_SOLUTION_MOVES_def)

text \<open>
  C18: the Singmaster parser never panics and decides every input: it reports the first bad token among
  the first 32, too many tokens or no token, and otherwise returns the moves the tokens denote; every
  move's notation denotes it.
\<close>

theorem singmaster_exact:
  "parse_token (show_move m) = Some m \<and>
   parse_singmaster s = (let tokens = split_words is_ascii_whitespace s in
    Some (case those (map parse_token (take MAX_SOLUTION_MOVES tokens)) of
        None \<Rightarrow> Inl (InvalidToken (of_nat (length (takeWhile (\<lambda>t. parse_token t \<noteq> None) tokens))))
      | Some ms \<Rightarrow> if MAX_SOLUTION_MOVES < length tokens then Inl singmaster_error.TooManyMoves
          else if ms = [] then Inl singmaster_error.Empty
          else Inr (ms @ replicate (MAX_SOLUTION_MOVES - length ms) empty_move, of_nat (length ms))))"
  using parse_singmaster_spec parse_show_move by blast

section \<open>The gateway\<close>

text \<open>
  the gateway's ring buffers are bounded first-in-first-out queues. Any sequence of pushes and
  pops on a fresh ring of n slots never panics and answers exactly as a list of at most n packets.
\<close>

theorem packet_queue_fifo:
  "\<exists>q. run_queue queue_push queue_pop (packet_queue_new n) ops = Some (q, snd (run_bounded n [] ops)) \<and>
    queue_contents q = fst (run_bounded n [] ops)"
  using ring.run_refines [of "packet_queue_new n" ops] by auto

text \<open>
  C19: the gateway never panics. In every state that any sequence of driver calls can reach, every
  further byte, packet, dequeue into a buffer of any size and cancellation is handled to its end.
\<close>

theorem gateway_never_panics:
  assumes "gateway_reach g"
  shows "\<exists>g'. gateway_call g c = Some g'"
  using gateway_reach_inv [OF assms] gateway_call_inv by blast

theorem gateway_never_panics_witness:
  "gateway_reach gateway_new \<and> (\<exists>g'. gateway_call gateway_new (DequeueDuo 5 [0, 0]) = Some g')"
  using gateway_never_panics [OF gateway_reach.start] gateway_reach.start by blast

text \<open>
  C20: the gateway acts on the packets of the daemon's byte stream. In a reachable state, whatever
  bytes arrived before, after one delimiter the frames of packets have exactly the effect of those
  packets, in order: results and state are those of the specification, run from the state that the
  packets received before left behind.
\<close>

theorem gateway_daemon_stream:
  assumes "gateway_reach g" and "\<forall>k \<in> set ks. packet_ok k"
  shows "\<exists>a qs g' outs. refines g a \<and> (\<forall>q \<in> set qs. packet_ok q) \<and>
    feed push_duo_byte g (noise @ [UART_DELIMITER] @ concat (map uart_frame_bytes ks)) =
      Some (g', outs @ snd (run_spec spec_duo (fst (run_spec spec_duo a qs)) ks)) \<and>
    refines g' (fst (run_spec spec_duo a (qs @ ks)))"
proof -
  obtain a where "refines g a" using gateway_reach_inv [OF assms(1)] by (auto simp: gateway_inv_def)
  with duo_port.noise_then_frames [OF this assms(2), of noise] show ?thesis
    unfolding push_duo_byte_framed by blast
qed

theorem gateway_daemon_stream_witness:
  "\<exists>g' outs a. feed push_duo_byte gateway_new ([7, 9] @ [UART_DELIMITER] @ concat (map uart_frame_bytes
      [\<lparr> pkt_kind = message_kind.Event, pkt_opcode = 0x2000, pkt_request_id = 0, pkt_payload = [1] \<rparr>])) =
      Some (g', outs @ snd (run_spec spec_duo a
        [\<lparr> pkt_kind = message_kind.Event, pkt_opcode = 0x2000, pkt_request_id = 0, pkt_payload = [1] \<rparr>]))"
proof -
  have "\<forall>k \<in> set [\<lparr> pkt_kind = message_kind.Event, pkt_opcode = 0x2000, pkt_request_id = 0, pkt_payload = [1] \<rparr>].
      packet_ok k"
    by (simp add: packet_ok_def MAX_PAYLOAD_LEN_def)
  from gateway_daemon_stream [OF gateway_reach.start this, of "[7, 9]"] show ?thesis by blast
qed

text \<open>
  a response goes to the upstream that asked, and only there. In a reachable state in which the
  identifier of a response is routed to an upstream whose queue has room, the response is appended to
  that upstream's queue, the other queue keeps its packets, the route is released, and a second
  response with the same identifier is refused.
\<close>

theorem gateway_response_routed:
  assumes "gateway_reach g" and "packet_ok k" and "pkt_kind k = message_kind.Response"
    and "routes_map (gw_request_routes g) (pkt_request_id k) = Some up"
    and "pq_len (case up of Usb \<Rightarrow> gw_to_usb g | Network \<Rightarrow> gw_to_network g) < UPSTREAM_QUEUE_CAPACITY"
  shows "\<exists>g'. route_duo_packet g (stored k) = Some (g', Inr ()) \<and>
    queue_contents (gw_to_usb g') = queue_contents (gw_to_usb g) @ (if up = Usb then [stored k] else []) \<and>
    queue_contents (gw_to_network g') =
      queue_contents (gw_to_network g) @ (if up = Network then [stored k] else []) \<and>
    routes_map (gw_request_routes g') = (routes_map (gw_request_routes g))(pkt_request_id k := None) \<and>
    (\<exists>g''. route_duo_packet g' (stored k) =
      Some (g'', Inl (UnmatchedResponseRequestId (pkt_request_id k))))"
proof -
  obtain a where a: "refines g a" using gateway_reach_inv [OF assms(1)] by (auto simp: gateway_inv_def)
  note view = refines_queues [OF a] refines_lengths [OF a]
  have room: "length (case up of Usb \<Rightarrow> gs_usb a | Network \<Rightarrow> gs_network a) < UPSTREAM_QUEUE_CAPACITY"
    using assms(5) view(7,8) by (simp split: upstream.splits)
  have routed: "gs_routes a (pkt_request_id k) = Some up" using assms(4) view(5) by simp
  note spec = spec_response_routed [OF routed assms(3) room]
  obtain g' where g': "route_duo_packet g (stored k) = Some (g', Inr ())" "refines g' (fst (spec_duo a k))"
    using route_duo_refines [OF a assms(2), of "fst (spec_duo a k)" "Inr ()"] spec(1)
    by (metis prod.collapse)
  obtain g'' where "route_duo_packet g' (stored k) =
      Some (g'', Inl (UnmatchedResponseRequestId (pkt_request_id k)))"
    using route_duo_refines [OF g'(2) assms(2)] spec(4) spec_response_unmatched [OF _ assms(3)]
    by (metis fun_upd_same prod.collapse)
  with g' refines_queues [OF g'(2)] view spec show ?thesis by auto
qed

theorem gateway_response_routed_witness:
  "\<exists>g g'. gateway_reach g \<and> route_duo_packet g (stored \<lparr> pkt_kind = message_kind.Response, pkt_opcode = 0x1000,
      pkt_request_id = 7, pkt_payload = [] \<rparr>) = Some (g', Inr ()) \<and>
    queue_contents (gw_to_network g') = [stored \<lparr> pkt_kind = message_kind.Response, pkt_opcode = 0x1000,
      pkt_request_id = 7, pkt_payload = [] \<rparr>]"
proof -
  let ?q = "\<lparr> pkt_kind = message_kind.Request, pkt_opcode = 0x0001, pkt_request_id = 7, pkt_payload = [] \<rparr>"
  let ?k = "\<lparr> pkt_kind = message_kind.Response, pkt_opcode = 0x1000, pkt_request_id = 7, pkt_payload = [] \<rparr>"
  have ok: "packet_ok ?q" "packet_ok ?k" by (simp_all add: packet_ok_def MAX_PAYLOAD_LEN_def)
  obtain g where g: "gateway_reach g" "refines g (fst (spec_request Network spec_new ?q))"
    using reach_request [OF ok(1)] by blast
  have a: "gs_network (fst (spec_request Network spec_new ?q)) = []"
    "gs_routes (fst (spec_request Network spec_new ?q)) = [7 \<mapsto> Network]"
    by (simp_all add: spec_request_def spec_new_def Let_def gateway_consts)
  have "\<exists>g'. route_duo_packet g (stored ?k) = Some (g', Inr ()) \<and>
      queue_contents (gw_to_network g') = queue_contents (gw_to_network g) @ [stored ?k]"
    using gateway_response_routed [OF g(1) ok(2), of Network] refines_queues [OF g(2)] refines_lengths [OF g(2)] a
    by (auto simp: gateway_consts)
  with g refines_queues(4) [OF g(2)] a show ?thesis by auto
qed

text \<open>
  C21: abort requests come first and are repeated until they are answered. In a reachable state whose
  urgent queue holds one abort request, the next frame to the daemon is that request, whatever else is
  queued. After any further calls that neither complete a response to it, nor cancel it, nor queue
  another abort request, it is still pending, due one retry interval after it was last sent: a call of
  the serial transmitter from then on sends it again before any queued request, and an earlier call
  takes the oldest queued request, which is not an abort. A response with its identifier ends the
  repetition, and so does its cancellation by the network.
\<close>

theorem gateway_abort_repeated:
  assumes "gateway_reach g" and "queue_contents (gw_urgent_to_duo g) = [stored k]" and "packet_ok k"
    and "MAX_UART_FRAME_LEN \<le> length out"
  shows "\<exists>g'. dequeue_duo_uart_frame g now out = Some (g', Inr (Some (length (uart_frame_bytes k))),
      uart_frame_bytes k @ drop (length (uart_frame_bytes k)) out) \<and>
    (\<forall>cs g1 d. awaiting (pkt_request_id k) g' cs g1 \<and>
        d = abort_due (saturating_add64 now ABORT_RETRY_INTERVAL_MS) cs \<longrightarrow>
      gw_pending_abort g1 = Some \<lparr> pa_packet = stored k, pa_next_retry_ms = d \<rparr> \<and>
      queue_contents (gw_urgent_to_duo g1) = [] \<and>
      (\<exists>qs. (\<forall>q \<in> set qs. packet_ok q \<and> \<not> abort_packet q) \<and> queue_contents (gw_normal_to_duo g1) = map stored qs \<and>
        (\<forall>t. \<exists>g2. dequeue_duo_uart_frame g1 t out = Some (g2,
            case (if d \<le> t then k # qs else qs) of
              [] \<Rightarrow> (Inr None, out)
            | q # _ \<Rightarrow> (Inr (Some (length (uart_frame_bytes q))), uart_frame_bytes q @ drop (length (uart_frame_bytes q)) out)) \<and>
          queue_contents (gw_normal_to_duo g2) = map stored (if d \<le> t then qs else tl qs))) \<and>
      (\<forall>r. packet_ok r \<and> pkt_kind r = message_kind.Response \<and> pkt_request_id r = pkt_request_id k \<longrightarrow>
        (\<exists>g2 res. route_duo_packet g1 (stored r) = Some (g2, res) \<and> \<not> abort_pending g2)) \<and>
      (\<forall>g2. cancel_network_request g1 (pkt_request_id k) = Some (g2, True) \<longrightarrow> \<not> abort_pending g2))"
proof -
  obtain a where a: "refines g a" "spec_ok a" "finite (dom (gs_routes a))"
    using gateway_reach_inv [OF assms(1)] by (auto simp: gateway_inv_def)
  obtain l where l: "gs_urgent a = [l]" "stored l = stored k"
    using refines_queues(1) [OF a(1)] assms(2) by auto
  then have "packet_ok l" using refinesD(1) [OF a(1)] by (simp add: holds_def)
  with l(2) assms(3) have [simp]: "l = k" using stored_inject by blast
  have k: "abort_packet k" using spec_okD(1) [OF a(2), of l] l(1) by simp
  define b where "b = fst (spec_dequeue a now)"
  have b: "spec_dequeue a now = (b, Some k)" "gs_urgent b = []" "gs_routes b = gs_routes a"
    "gs_abort b = Some (k, saturating_add64 now ABORT_RETRY_INTERVAL_MS)"
    using l k by (simp_all add: b_def spec_dequeue_def spec_next_def)
  obtain g' where g': "dequeue_duo_uart_frame g now out = Some (g', spec_output (Some k) out)" "refines g' b"
    using dequeue_duo_refines [OF a(1), of now out] b(1) by auto
  have inv: "gateway_inv g' b"
    using g'(2) a(3) b(3) spec_dequeue_ok [OF a(2), of now] by (simp add: gateway_inv_def b_def)
  show ?thesis
  proof (rule exI [of _ g'], rule conjI, goal_cases)
    case 1
    then show ?case using g'(1) spec_output_frame [OF assms(3,4)] by simp
  next
    case 2
    show ?case
    proof (intro allI impI, elim conjE, goal_cases)
      case (1 cs g1 d)
      then obtain a1 where "gateway_inv g1 a1" "gs_abort a1 = Some (k, d)" "gs_urgent a1 = []"
        using awaiting_inv [OF 1(1) refl inv b(4,2)] by blast
      then show ?case by (rule pending_abort_next [OF _ _ _ assms(3,4)])
    qed
  qed
qed

theorem gateway_abort_repeated_witness:
  "\<exists>g g1 k. gateway_reach g \<and> gw_pending_abort g1 = Some \<lparr> pa_packet = stored k, pa_next_retry_ms = 210 \<rparr> \<and>
    awaiting (pkt_request_id k) g [DequeueDuo 110 [], DequeueDuo 150 []] g1 \<and>
    (\<exists>g2. dequeue_duo_uart_frame g1 210 (replicate MAX_UART_FRAME_LEN 0) = Some (g2,
      Inr (Some (length (uart_frame_bytes k))), uart_frame_bytes k @ drop (length (uart_frame_bytes k)) (replicate MAX_UART_FRAME_LEN 0)))"
proof -
  let ?k = "\<lparr> pkt_kind = message_kind.Request, pkt_opcode = 0x00ff, pkt_request_id = 9, pkt_payload = [] \<rparr>"
  let ?out = "replicate MAX_UART_FRAME_LEN 0"
  let ?cs = "map (\<lambda>t. DequeueDuo t []) [110, 150]"
  have ok: "packet_ok ?k" by (simp add: packet_ok_def MAX_PAYLOAD_LEN_def)
  obtain g where g: "gateway_reach g" "refines g (fst (spec_request Network spec_new ?k))"
    using reach_request [OF ok] by blast
  have urgent: "queue_contents (gw_urgent_to_duo g) = [stored ?k]"
    using refines_queues(1) [OF g(2)]
    by (simp add: spec_request_def spec_new_def Let_def gateway_consts awaits_abort_def queued_abort_def)
  have "MAX_UART_FRAME_LEN \<le> length ?out" by simp
  from gateway_abort_repeated [OF g(1) urgent ok this, of 10] show ?thesis
  proof (elim exE conjE, goal_cases)
    case (1 g')
    note run = 1(2) [rule_format, OF conjI]
    have "gateway_reach g'" using gateway_reach.call [OF g(1), of "DequeueDuo 10 ?out"] 1(1) by (simp add: gateway_call_def)
    then obtain a where a: "gateway_inv g' a" using gateway_reach_inv by blast
    have "gw_pending_abort g' \<noteq> None" "queue_contents (gw_urgent_to_duo g') = []"
      using run [OF awaiting.none refl] by simp_all
    then obtain k d where "gs_abort a = Some (k, d)" "gs_urgent a = []"
      using a refinesD(7) [of g' a] refines_queues(1) [of g' a] by (auto simp: gateway_inv_def)
    then obtain g1 where g1: "awaiting (pkt_request_id ?k) g' ?cs g1" using awaiting_dequeues [OF a] by blast
    have due: "210 = abort_due (saturating_add64 10 ABORT_RETRY_INTERVAL_MS) ?cs"
      by (simp add: saturating_add64_def ABORT_RETRY_INTERVAL_MS_def)
    obtain qs where "\<forall>t. \<exists>g2. dequeue_duo_uart_frame g1 t ?out = Some (g2,
        case (if 210 \<le> t then ?k # qs else qs) of
          [] \<Rightarrow> (Inr None, ?out)
        | q # _ \<Rightarrow> (Inr (Some (length (uart_frame_bytes q))), uart_frame_bytes q @ drop (length (uart_frame_bytes q)) ?out))"
      using run [OF g1 due] by blast
    from this [rule_format, of 210] \<open>gateway_reach g'\<close> g1 run [OF g1 due] show ?case
      by (intro exI [of _ g'] exI [of _ g1] exI [of _ ?k]) auto
  qed
qed

section \<open>The operator button and the daemon\<close>

text \<open>
  C22: the debouncer reports presses, not bounces. From a new button on, every reported press ends a
  reading of "pressed" that was steady for the debounce time and follows an earlier "released"
  reading; between two reported presses lies a steady release; and a button that reads "pressed"
  without being stably so is reported at exactly the first later reading that is steady long enough.
\<close>

theorem button_reports_presses:
  assumes "run_debounce (button_new d start) samples = (b, es)"
  shows "(\<forall>i < length es. es ! i \<longrightarrow> (\<exists>k. steady d True samples k i) \<and> (\<exists>k < i. \<not> fst (samples ! k))) \<and>
    (\<forall>j < length es. \<forall>i < j. es ! i \<and> es ! j \<longrightarrow> (\<exists>k l. i < k \<and> l < j \<and> steady d False samples k l)) \<and>
    (\<forall>later. ob_raw_pressed b = Some True \<and> (\<forall>s \<in> set later. fst s) \<longrightarrow>
      snd (run_debounce b later) = map (\<lambda>i. \<not> ob_stable_pressed b \<and> d \<le> snd (later ! i) - ob_raw_changed_at b \<and>
        (\<forall>j < i. \<not> d \<le> snd (later ! j) - ob_raw_changed_at b)) [0..<length later])"
proof -
  have "ob_debounce b = d"
    using run_debounce_debounce [of "button_new d start" samples] unfolding assms by (simp add: button_new_def)
  moreover have "debounced b samples es"
    using debounced_run [OF debounced_new assms] by simp
  ultimately show ?thesis
    using debouncedD(3-5) [of b samples es] pressed_run [of b] by (intro conjI allI impI; simp)
qed

theorem button_reports_presses_witness:
  "snd (run_debounce (button_new 20 0) [(False, 0), (True, 10), (True, 25), (True, 40)]) = [False, False, False, True] \<and>
    (\<exists>k. steady 20 True [(False, 0), (True, 10), (True, 25), (True, 40)] k 3)"
proof -
  let ?samples = "[(False, 0), (True, 10), (True, 25), (True, 40)] :: sample list"
  have run: "snd (run_debounce (button_new 20 0) ?samples) = [False, False, False, True]"
    by (simp add: button_new_def update_debounce_def)
  then obtain b where "run_debounce (button_new 20 0) ?samples = (b, [False, False, False, True])"
    by (cases "run_debounce (button_new 20 0) ?samples") auto
  from button_reports_presses [OF this] run show ?thesis by auto
qed

text \<open>
  C23: the daemon runs to its end and leaves the stand unpowered. For every sequence of readings,
  received bytes and instants, and serializers that stay within their buffer, the loop does not panic;
  when it ends, for whatever reason, the last output command was to disable all channels, and the
  daemon reports success only if that command succeeded and the status says so.
\<close>

theorem daemon_shuts_down:
  assumes "env_ok E"
  shows "\<exists>res d dev'. run_uart_daemon B E is w button hub (with_scanner dev c scanner) = Some (res, d) \<and>
    svc_output (dm_service d) = snd (all_off B dev') \<and>
    (res = Inr () \<longrightarrow> fst (all_off B dev') \<and> \<not> stand_outputs_enabled (st_stand (svc_status (dm_service d))))"
proof -
  let ?s = "with_scanner dev c scanner"
  let ?d = "observe (ObservedStatus (svc_status ?s)) \<lparr> dm_decoder = default_decoder, dm_encoder = default_encoder,
    dm_writer = w, dm_service = ?s, dm_button = button, dm_observed = (if hub then Some [] else None) \<rparr>"
  have "daemon_ok ?d"
    using with_scanner_inv [of dev c scanner]
    by (simp add: daemon_ok_def default_decoder_ok default_encoder_ok with_scanner_def)
  then obtain res d where d: "run_event_loop B E is ?d = Some (res, d)"
    using run_event_loop_ok [OF _ assms, of ?d B "is"] by (auto simp: runs_to_def)
  show ?thesis
    by (cases rule: shutdown_cases [of B "dm_service d"])
      (auto simp: run_uart_daemon_def d set_outputs_enabled_def on_stand_def on_status_def
        intro!: exI [of _ "svc_output (dm_service d)"])
qed

theorem daemon_shuts_down_witness:
  "\<exists>res d. run_uart_daemon bench (log_env (\<lambda>_. []) (\<lambda>_. []))
      [\<lparr> li_button = Inr True, li_button_now = 0, li_inbound = [], li_uart = Some (UartBytes [0, 7]), li_now = 5,
         li_poll = try_recv.Empty \<rparr>, \<lparr> li_button = Inl ''gpio'', li_button_now = 10, li_inbound = [[1]],
         li_uart = Some UartTimeout, li_now = 15, li_poll = try_recv.Empty \<rparr>]
      (Some []) (Some (button_new 50 0)) True bench_start = Some (res, d) \<and> svc_output (dm_service d) = ()"
  unfolding bench_start_def
  using daemon_shuts_down [OF log_env_ok [of "\<lambda>_. []" "\<lambda>_. []"], of bench _ "Some []" "Some (button_new 50 0)" True
      "()" default_calibration "()"] by simp blast

text \<open>
  C24: the daemon serves the packets of a noisy line. Whatever bytes arrived before, after one
  delimiter the frames of packets are handled by the robot service in order, and the bytes written are
  the frames of its messages.
\<close>

theorem daemon_serves_stream:
  assumes "payloads_fit br be" and "\<forall>k \<in> set ks. packet_ok k"
    and "daemon_ok d" and "dm_writer d = Some w"
  shows "\<exists>d' qs. (\<forall>q \<in> set qs. packet_ok q) \<and>
    handle_bytes B (log_env br be) (noise @ [UART_DELIMITER] @ concat (map uart_frame_bytes ks)) d =
      Some (Inr (), d') \<and>
    (dm_service d', the (dm_writer d')) = fst (run_spec (serve B br be) (dm_service d, w) (qs @ ks))"
proof -
  have "serving br be d (dm_service d, w)" using assms by (simp add: serving_def)
  from serves_stream [OF this assms(2), of B noise] show ?thesis
    by (fastforce simp: serving_def)
qed

theorem daemon_serves_stream_witness:
  "\<exists>d'. handle_bytes bench (log_env (\<lambda>_. []) (\<lambda>_. [])) ([3, 3] @ [UART_DELIMITER] @ concat (map uart_frame_bytes
      [\<lparr> pkt_kind = message_kind.Request, pkt_opcode = 1, pkt_request_id = 7, pkt_payload = [] \<rparr>]))
    \<lparr> dm_decoder = default_decoder, dm_encoder = default_encoder, dm_writer = Some [], dm_service = bench_start,
      dm_button = None, dm_observed = None \<rparr> = Some (Inr (), d')"
proof -
  let ?k = "\<lparr> pkt_kind = message_kind.Request, pkt_opcode = 1, pkt_request_id = 7, pkt_payload = [] \<rparr>"
  let ?d = "\<lparr> dm_decoder = default_decoder, dm_encoder = default_encoder, dm_writer = Some [], dm_service = bench_start,
    dm_button = None, dm_observed = None \<rparr> :: (unit, unit, u8 list) daemon"
  have "\<forall>k \<in> set [?k]. packet_ok k" "payloads_fit (\<lambda>_. []) (\<lambda>_. [])" "daemon_ok ?d"
    using with_scanner_inv [of "()" default_calibration "()"]
    by (simp_all add: packet_ok_def payloads_fit_def daemon_ok_def default_decoder_ok default_encoder_ok
        bench_start_def with_scanner_def)
  from daemon_serves_stream [OF this(2,1,3), of "[]" bench "[3, 3]"] show ?thesis by auto
qed

text \<open>
  C25: a request from the network is answered through gateway and daemon. When the gateway has nothing
  queued and no route for the identifier, the frame it sends makes the daemon's service handle the
  request, and the bytes the daemon writes, fed to the gateway, make the response with the request's
  identifier the first packet for the network.
\<close>

theorem network_request_answered:
  assumes g: "gateway_reach g" "queue_contents (gw_urgent_to_duo g) = []" "queue_contents (gw_normal_to_duo g) = []"
      "queue_contents (gw_to_network g) = []" "\<not> abort_pending g"
      "routes_map (gw_request_routes g) (pkt_request_id k) = None"
      "card (dom (routes_map (gw_request_routes g))) < REQUEST_ROUTE_CAPACITY"
      "gd_pending (gw_duo_decoder g) = Some []"
    and k: "packet_ok k" "pkt_kind k = message_kind.Request" "pkt_request_id k \<noteq> 0" "\<not> abort_packet k"
    and d: "daemon_ok d" "payloads_fit br be" "dm_writer d = Some w" "decoder_pending (dm_decoder d) = Some []"
    and out: "MAX_UART_FRAME_LEN \<le> length out"
  shows "\<exists>g1 g2 g3 outs d' ms s' r es rest.
    push_network_packet g (packet_bytes k) = Some (g1, Inr Queued) \<and>
    dequeue_duo_uart_frame g1 now out = Some (g2, Inr (Some (length (uart_frame_bytes k))),
      uart_frame_bytes k @ drop (length (uart_frame_bytes k)) out) \<and>
    handle_packet B (delivered k) (dm_service d) = Some (ms, s') \<and> ms = service_message.Response r # es \<and>
    rsp_request_id r = pkt_request_id k \<and>
    handle_bytes B (log_env br be) (uart_frame_bytes k) d = Some (Inr (), d') \<and> dm_service d' = s' \<and>
    dm_writer d' = Some (w @ message_bytes br be ms) \<and>
    feed push_duo_byte g2 (message_bytes br be ms) = Some (g3, outs) \<and>
    queue_contents (gw_to_network g3) = stored (message_packet br be (service_message.Response r)) # rest"
proof -
  obtain a where a: "refines g a" using gateway_reach_inv [OF g(1)] by (auto simp: gateway_inv_def)
  have "serving br be d (dm_service d, w)" using d by (simp add: serving_def)
  moreover have "gs_urgent a = []" "gs_normal a = []" "gs_network a = []"
    "gs_routes a (pkt_request_id k) = None" "card (dom (gs_routes a)) < REQUEST_ROUTE_CAPACITY"
    using refines_queues(1,2,4,5) [OF a] g(2-4,6,7) by simp_all
  moreover have "gs_abort a = None" using refines_queues(6) [OF a] g(5) by blast
  ultimately show ?thesis
    using request_answered [OF a, of k br be d "dm_service d" w out now B] g(8) k d(4) out by blast
qed

theorem network_request_answered_witness:
  "\<exists>g1 g2 n out. push_network_packet gateway_new (packet_bytes
      \<lparr> pkt_kind = message_kind.Request, pkt_opcode = 1, pkt_request_id = 7, pkt_payload = [] \<rparr>) = Some (g1, Inr Queued) \<and>
    dequeue_duo_uart_frame g1 0 (replicate MAX_UART_FRAME_LEN 0) = Some (g2, Inr (Some n), out)"
proof -
  let ?k = "\<lparr> pkt_kind = message_kind.Request, pkt_opcode = 1, pkt_request_id = 7, pkt_payload = [] \<rparr>"
  let ?d = "\<lparr> dm_decoder = default_decoder, dm_encoder = default_encoder, dm_writer = Some [], dm_service = bench_start,
    dm_button = None, dm_observed = None \<rparr> :: (unit, unit, u8 list) daemon"
  have k: "packet_ok ?k" "pkt_kind ?k = message_kind.Request" "pkt_request_id ?k \<noteq> 0" "\<not> abort_packet ?k"
    by (simp_all add: packet_ok_def)
  have d: "daemon_ok ?d" "payloads_fit (\<lambda>_. []) (\<lambda>_. [])" "dm_writer ?d = Some []"
    "decoder_pending (dm_decoder ?d) = Some []"
    using with_scanner_inv [of "()" default_calibration "()"]
    by (simp_all add: payloads_fit_def daemon_ok_def default_decoder_ok default_encoder_ok
        default_decoder_pending bench_start_def with_scanner_def)
  note new = refines_queues [OF refines_new]
  have g: "queue_contents (gw_urgent_to_duo gateway_new) = []" "queue_contents (gw_normal_to_duo gateway_new) = []"
    "queue_contents (gw_to_network gateway_new) = []" "\<not> abort_pending gateway_new"
    "routes_map (gw_request_routes gateway_new) (pkt_request_id ?k) = None"
    "card (dom (routes_map (gw_request_routes gateway_new))) < REQUEST_ROUTE_CAPACITY"
    "gd_pending (gw_duo_decoder gateway_new) = Some []"
    using new by (simp_all add: spec_new_def gateway_consts gateway_new_def gd_new)
  from network_request_answered [OF gateway_reach.start g k d, of "replicate MAX_UART_FRAME_LEN 0" 0 bench]
  show ?thesis by auto
qed

section \<open>The stand runtime\<close>

text \<open>
  C26: the synchronous runtime moves the cube as its commanded state says. In a state that any calls
  have reached, a scanning call is refused without a command, or drives a plan that is safe on the
  stand its state describes and ends on the stand its new state describes, where the camera looks at
  the named face with a rail pair opened, or the cube is gripped as in the beginning.
\<close>

theorem stand_runtime_scan_safe:
  assumes "runtime_reach E r"
    and "call \<in> {CallFinishForExecution} \<union> range CallScanPose \<union> range CallScanNext"
  shows "(\<exists>e. run_call E call r = Stopped e r) \<or>
    (\<exists>plan m m' st pair. commanded_pose (rt_state r) (rt_holding_pair r) = Some m \<and> exec plan m = Some m' \<and>
       commanded_pose st pair = Some m' \<and>
       run_call E call r = on_finish (drive E plan r) (\<lambda>r. Finished (set_state st pair r)) \<and>
       (case st of ScanHold f \<Rightarrow> shows_face m' PCamera = camera_face f \<and> camera_free m' \<and> safe m'
        | _ \<Rightarrow> m' = canonical_grip))"
proof -
  have "moves_as_stated E r (run_call E call r)"
    using assms(2) scan_pose_moves [OF runtime_reach_pose [OF assms(1)]] scan_next_moves finish_for_execution_moves
    by auto
  moreover have "case st of ScanHold f \<Rightarrow> shows_face m' PCamera = camera_face f \<and> camera_free m' \<and> safe m'
      | _ \<Rightarrow> m' = canonical_grip" if "commanded_pose st pair = Some m'" for st pair m'
  proof (cases st)
    case (ScanHold f)
    with that show ?thesis by (cases pair) (use commanded_pose_camera in auto)
  qed (use that in \<open>cases pair; simp\<close>)+
  ultimately show ?thesis unfolding moves_as_stated_def by metis
qed

theorem stand_runtime_scan_safe_witness:
  "\<exists>r plan m q. runtime_reach log_runtime r \<and> exec plan canonical_grip = Some m \<and>
    run_call log_runtime (CallScanPose scan_face.Up) r = Finished (set_state (ScanHold scan_face.Up) (Some TB) q) \<and>
    drive log_runtime plan r = Finished q \<and> shows_face m PCamera = logical_face.Up"
proof -
  obtain r where r: "runtime_reach log_runtime r" "rt_state r = Gripped" "rt_holding_pair r = None"
    using log_gripped by blast
  obtain q where q: "drive log_runtime (pose_plan scan_face.Up) r = Finished q"
    using works_finishes [OF log_works motor_plans(1)] by blast
  have run: "run_call log_runtime (CallScanPose scan_face.Up) r =
      Finished (set_state (ScanHold scan_face.Up) (Some TB) q)"
    unfolding run_call.simps scan_pose_drive [OF r(2)] q by (simp add: pose_holder_def)
  obtain plan m st pair where *: "exec plan canonical_grip = Some m" "commanded_pose st pair = Some m"
    "Finished (set_state (ScanHold scan_face.Up) (Some TB) q) =
      on_finish (drive log_runtime plan r) (\<lambda>r. Finished (set_state st pair r))"
    "case st of ScanHold f \<Rightarrow> shows_face m PCamera = camera_face f \<and> camera_free m \<and> safe m | _ \<Rightarrow> m = canonical_grip"
    using stand_runtime_scan_safe [OF r(1), of "CallScanPose scan_face.Up"] unfolding run r(2,3) by auto
  then obtain q' where q': "drive log_runtime plan r = Finished q'"
    "set_state st pair q' = set_state (ScanHold scan_face.Up) (Some TB) q"
    by (cases "drive log_runtime plan r") auto
  then have "st = ScanHold scan_face.Up" "pair = Some TB" by (metis set_state_simps(1), metis set_state_simps(2))
  with * q' r(1) run show ?thesis by fastforce
qed

text \<open>
  a probe move is the baseline planner's plan of that move, and turns that face only. From the
  gripped state it drives exactly the plan, which leaves the cube gripped as before with the one turn
  made; from any other state it is refused without a command.
\<close>

theorem probe_move_turns:
  "if rt_state r = Gripped
   then \<exists>plan. baseline_held_steps [m] = Some (plan @ [move_plan_step.MoveCompleted]) \<and>
      exec plan canonical_grip = Some (canonical_grip\<lparr> turned := turn_of m \<rparr>) \<and>
      execute_probe_move E m r = on_finish (drive E plan r) (\<lambda>r. Finished (set_state Gripped None r))
   else execute_probe_move E m r = Stopped (ExpectedGripped (rt_state r)) r"
proof (cases "rt_state r = Gripped")
  case True
  then obtain plan where plan: "baseline_held_steps [m] = Some (plan @ [move_plan_step.MoveCompleted])"
    "execute_probe_move E m r = on_finish (drive E plan r) (\<lambda>r. Finished (set_state Gripped None r))"
    using execute_probe_move_drive by blast
  with baseline_probe_run [OF plan(1)] True show ?thesis by auto
qed (simp add: execute_probe_move_def)

text \<open>
  C27: a failed output stops the runtime. A call that does not finish has either changed nothing, or
  has commanded all outputs off and left the runtime faulted, where every call but a reset is refused
  without a command.
\<close>

theorem stand_runtime_faults:
  "case run_call E call r of
     Finished r' \<Rightarrow> call \<noteq> CallReset \<and> call \<noteq> CallOff \<longrightarrow> operational (rt_state r)
   | Stopped e r' \<Rightarrow> r' = r \<or>
      rt_state r' = commanded_stand_state.Faulted \<and> (\<exists>d. rt_output r' = snd (pwm_all_off E d)) \<and>
      (\<forall>c. c \<noteq> CallReset \<and> c \<noteq> CallOff \<longrightarrow> (\<exists>e'. run_call E c r' = Stopped e' r'))"
proof (cases "run_call E call r")
  case (Stopped e r')
  then show ?thesis
    using call_stopped [OF Stopped] not_operational_refused [of r' _ E] by (auto simp: faulted_def)
next
  case (Finished r')
  then show ?thesis using not_operational_refused [of r call E] by auto
qed

theorem stand_runtime_faults_witness:
  "\<exists>e r' e'. run_call (log_runtime\<lparr> pwm_set_channels := \<lambda>d channels. (False, d) \<rparr>) (CallScanPose scan_face.Left)
      (set_state Gripped None (with_delay [] default_calibration ())) = Stopped e r' \<and>
    rt_state r' = commanded_stand_state.Faulted \<and>
    run_call (log_runtime\<lparr> pwm_set_channels := \<lambda>d channels. (False, d) \<rparr>) CallGrip r' = Stopped e' r'"
proof -
  let ?E = "log_runtime\<lparr> pwm_set_channels := \<lambda>d channels. (False, d) \<rparr>"
  let ?r = "set_state Gripped None (with_delay [] default_calibration ())"
  have set: "rt_set_channels ?E channels r = fault ?E ''failed to update PCA9685 PWM outputs'' r" for channels r
    by (simp add: rt_set_channels_def)
  have fault: "\<exists>e r'. fault ?E message r = Stopped e r' \<and> rt_state r' = commanded_stand_state.Faulted" for message r
    by (simp add: fault_def split: prod.split)
  have "\<exists>e r'. drive ?E (pose_plan scan_face.Left) ?r = Stopped e r' \<and> rt_state r' = commanded_stand_state.Faulted"
    using fault [of "''failed to update PCA9685 PWM outputs''" ?r] by (auto simp: drive_rails_def set)
  then obtain e r' where r': "drive ?E (pose_plan scan_face.Left) ?r = Stopped e r'"
    "rt_state r' = commanded_stand_state.Faulted" by blast
  have "run_call ?E (CallScanPose scan_face.Left) ?r = Stopped e r'"
    using scan_pose_drive [of ?r ?E scan_face.Left] r'(1) by (simp del: pose_plan.simps)
  moreover have "r' \<noteq> ?r" using r'(2) by (auto simp: set_state_def)
  ultimately have r': "run_call ?E (CallScanPose scan_face.Left) ?r = Stopped e r'" "r' \<noteq> ?r" by simp_all
  show ?thesis
    using stand_runtime_faults [of "CallScanPose scan_face.Left" ?r ?E] r' by auto
qed

text \<open>
  the canonical scan completes and is the service's scanning plan. On outputs that accept every
  command, the calls of the full scan finish from the gripped state, gripped again; what they drive
  is, captures aside, exactly the plan the robot service queues for a scan.
\<close>

theorem canonical_scan_completes:
  assumes "works E" "rt_state r = Gripped" "rt_holding_pair r = None"
  shows "\<exists>plan r'. run_calls E canonical_scan r = Finished r' \<and> drive E plan r = Finished r' \<and>
    rt_state r' = Gripped \<and> rt_holding_pair r' = None \<and>
    motion_steps plan = filter (\<lambda>x. case x of Capture f \<Rightarrow> False | _ \<Rightarrow> True) scan_steps"
  using canonical_scan_drives [OF assms] canonical_plan_steps assms(2,3) by (metis same_pose_def)

theorem canonical_scan_completes_witness:
  "\<exists>r r'. rt_state r = Gripped \<and> run_calls log_runtime canonical_scan r = Finished r' \<and> rt_state r' = Gripped"
  using log_gripped canonical_scan_completes [OF log_works] by blast

section \<open>The simulator\<close>



text \<open>
  C36: a simulator session never panics. In every state that its daemon, its pump and its request
  handlers can reach together, each of them can take its next step: the daemon on any bytes and to its
  end, the pump on the next update or none, a handler on any body, and a waiting handler on any answer.
\<close>

theorem simulator_never_panics:
  fixes F :: "'f f32_ops" and S :: "'pe request_serializers"
  assumes "sim_reach (sim_backend B) mul F S from_str x" "serializers_ok S"
  shows "(\<exists>d. run_session_daemon (sim_backend B) mul is (sy_daemon x) = Some d) \<and>
    (\<exists>s. pump_round F now (next_update x) (sy_session x) = Some s) \<and>
    (\<exists>s. pump_round F now None (sy_session x) = Some s) \<and>
    (\<exists>r s. post_begin from_str S accepting body (sy_session x) = Some (r, s)) \<and>
    ((i, c) \<in> set (sy_waiting x) \<longrightarrow> (\<exists>r s. post_finish c answer (sy_session x) = Some (r :: 'pe http_reply, s)))"
proof -
  have ok: "system_ok x" by (rule system_reach_ok [OF assms])
  then have s: "session_ok (sy_session x)" "session_daemon_ok (sy_daemon x)"
    "(i, c) \<in> set (sy_waiting x) \<Longrightarrow> moves_accepted c"
    by (auto simp: system_ok_def)
  have "\<exists>s. pump_round F now (next_update x) (sy_session x) = Some s" "\<exists>s. pump_round F now None (sy_session x) = Some s"
    using pump_round_ok [OF s(1), of _ F now] next_update_good [OF ok] by (metis option.discI)+
  moreover have "\<exists>d. run_session_daemon (sim_backend B) mul is (sy_daemon x) = Some d"
    by (rule session_daemon_ends [OF s(2)])
  moreover have "\<exists>r s. post_begin from_str S accepting body (sy_session x) = Some (r, s)"
    using post_begin_ok [OF s(1) assms(2)] by blast
  ultimately show ?thesis using post_finish_ok [OF s(1,3)] by blast
qed

theorem simulator_never_panics_witness:
  "\<exists>d s. run_session_daemon sim_bench (\<lambda>n w. n) [] (sy_daemon bench_system) = Some d \<and>
    pump_round real_ops 0 (next_update bench_system) (sy_session bench_system) = Some s"
  using simulator_never_panics [OF bench_system_reached [of bench "\<lambda>n w. n" bench_serializers abort_json]
      bench_serializers_ok] unfolding sim_bench_def by blast

text \<open>
  C37: the simulated cube can always be scanned and solved. In every reachable state of a session the
  facelets the scanner reads are those of the displayed cube, each colour nine times; a scan of them is
  accepted, and its solver string is the facelets in the solver's letters.
\<close>

theorem simulator_cube_scans:
  assumes "sim_reach (sim_backend B) mul F S from_str x" "serializers_ok S"
  shows "\<exists>fs. fs = ss_facelets (sn_sim (sy_session x)) \<and> cube_facelets (ss_cube (sn_sim (sy_session x))) = Some fs \<and>
    mset fs = mset new_facelets \<and> cube_from_scan (simulated_scan fs sc) = Some (Inr (scanned_cube fs)) \<and>
    facelet_string (scanned_cube fs) = Some (Inr (map solver_symbol fs))"
proof -
  have "sim_ok (sn_sim (sy_session x))"
    using system_reach_ok [OF assms] by (simp add: system_ok_def session_ok_def)
  then have c: "cube_reach (ss_cube (sn_sim (sy_session x)))"
    "cube_facelets (ss_cube (sn_sim (sy_session x))) = Some (ss_facelets (sn_sim (sy_session x)))"
    by (simp_all add: sim_ok_def)
  then show ?thesis using reachable_cube_scans [OF c(1), of sc] by auto
qed

theorem simulator_cube_scans_witness:
  "facelet_string (scanned_cube (ss_facelets (sn_sim (sy_session bench_system)))) =
     Some (Inr (map solver_symbol (ss_facelets (sn_sim (sy_session bench_system)))))"
  using simulator_cube_scans [OF bench_system_reached [of bench "\<lambda>n w. n" bench_serializers abort_json]
      bench_serializers_ok] by blast

text \<open>
  two rules of the simulator never fire. Whatever requests a session receives, no status that its
  daemon reports moves a rail and a gripper together, so that rule is never active or recorded; nor is
  the rule about the pose of the scanned cube, which looks at the pose right after resetting it.
\<close>

theorem simulator_rules_silent:
  assumes "sim_reach (sim_backend B) mul F S from_str x" "serializers_ok S"
  shows "\<not> rule_active (sn_sim (sy_session x)) concurrent_rule \<and>
    Rule concurrent_rule \<notin> set (ss_violations (sn_sim (sy_session x))) \<and>
    Rule scan_pose_rule \<notin> set (ss_violations (sn_sim (sy_session x))) \<and>
    (StatusUpdate status \<in> set (en_sent (sd_engine (sy_daemon x))) \<longrightarrow> \<not> concurrent_motion status)"
  using system_reach_ok [OF assms]
  by (auto simp: system_ok_def session_ok_def quiet_def rule_active_def session_daemon_ok_def engine_ok_def good_status_def)

theorem simulator_rules_silent_witness:
  "Rule scan_pose_rule \<notin> set (ss_violations (sn_sim (sy_session bench_system)))"
  using simulator_rules_silent [OF bench_system_reached [of bench "\<lambda>n w. n" bench_serializers abort_json]
      bench_serializers_ok] by blast

text \<open>
  C38: the displayed cube follows the strokes of manual moves. The display is given the moves of an
  accepted request while the grippers rest, and then sees statuses of that operation or of none: at rest,
  or in strokes, which are a status in which grippers have started to move, any number with the same stand, and
  one in which all have stopped. A stroke turns the displayed cube by the next move exactly when it shows
  that turn: one gripper moves, alone, to a parallel orientation, its claw grips, it owns the face of the
  move in the frame the cube is held in, and for a half turn it moves through two quarters. Any other
  stroke leaves the cube. The cube shown is the one there was with exactly these moves
  made, in order, and the scanner's facelets are those of that cube.
\<close>

theorem displayed_cube_follows:
  assumes "sim_ok s" "at_rest s" "\<forall>x \<in> set xs. segment_ok x"
  shows "\<exists>s0 s'. set_visual_moves moves s = Some s0 \<and> sim_statuses F (concat (map segment_statuses xs)) s0 = Some s' \<and>
    sc_cubies (ss_cube s') = sc_cubies (fold apply_move (turned_moves (frame_known s) (map visual_move_of moves) xs) (ss_cube s)) \<and>
    cube_facelets (ss_cube s') = Some (ss_facelets s')"
  by (rule turns_shown [OF assms])

text \<open>Of the moves R2 U, the half stroke of the right claw makes the first; its stroke back does not make the second.\<close>

theorem displayed_cube_follows_witness:
  "\<exists>s0 s'. set_visual_moves [\<lparr> lm_face = cube_face.Right, lm_turn = turn_amount.Half \<rparr>,
        \<lparr> lm_face = cube_face.Up, lm_turn = turn_amount.Clockwise \<rparr>] (new_sim real_ops default_calibration new_facelets) = Some s0 \<and>
    sim_statuses real_ops (segment_statuses half_stroke @ segment_statuses back_stroke) s0 = Some s' \<and>
    sc_cubies (ss_cube s') = sc_cubies (apply_move \<lparr> vm_face = cube_face.Right, vm_turns = 2 \<rparr> solved_cube) \<and>
    cube_facelets (ss_cube s') = Some (ss_facelets s')"
proof -
  let ?s = "new_sim real_ops default_calibration new_facelets"
  have "sim_ok ?s" unfolding new_facelets_solved by (rule new_sim_ok)
  moreover have "at_rest ?s" by (simp add: at_rest_def new_sim_def)
  moreover have "frame_known ?s = 0" "ss_cube ?s = solved_cube"
    by (simp_all add: frame_known_def new_sim_def default_replay_def)
  ultimately show ?thesis
    using displayed_cube_follows [of ?s "[half_stroke, back_stroke]"
        "[\<lparr> lm_face = cube_face.Right, lm_turn = turn_amount.Half \<rparr>, \<lparr> lm_face = cube_face.Up, lm_turn = turn_amount.Clockwise \<rparr>]" real_ops]
      strokes_ok strokes_turn
    by (simp add: visual_move_of_def)
qed

text \<open>
  the collision rules report every change once. A check returns an event exactly for the rules whose
  activity changed, with the new activity; a rule that becomes active is remembered as violated; and
  checking again at the same time reports nothing and changes nothing.
\<close>

theorem collision_reports:
  assumes "collisions F now s = (events, s')"
  shows "(rule_active s' rule \<noteq> rule_active s rule \<longleftrightarrow> (\<exists>e \<in> set events. ev_rule e = rule)) \<and>
    (\<forall>e \<in> set events. ev_active e = rule_active s' (ev_rule e)) \<and> distinct (map ev_rule events) \<and>
    set (ss_violations s') = set (ss_violations s) \<union> {Rule (ev_rule e) |e. e \<in> set events \<and> ev_active e} \<and>
    collisions F now s' = ([], s')"
  by (rule collisions_transitions [OF assms])

theorem collision_reports_witness:
  "\<exists>e s'. collisions real_ops 5 dropped_sim = ([e], s') \<and> ev_rule e = custody_rule \<and> ev_active e = rule_active s' custody_rule \<and>
    collisions real_ops 5 s' = ([], s')"
proof -
  obtain events s' where c: "collisions real_ops 5 dropped_sim = (events, s')" by fastforce
  then obtain e where "events = [e]" "ev_rule e = custody_rule" using dropped_collision [of 5] by auto
  then show ?thesis using collision_reports [OF c] c by auto
qed

text \<open>
  normalising a move sequence always ends, on every text. Its result is the text of some moves in
  Singmaster notation, which the protocol's parser reads back as exactly these moves (or rejects only
  because there are too many), and normalising that text again changes nothing.
\<close>

theorem sequence_normalised:
  "\<exists>r. normalize_sim_sequence str = Some r \<and> (\<forall>t. r = Inr t \<longrightarrow> normalize_sim_sequence t = Some (Inr t) \<and>
     (\<exists>ms. ms \<noteq> [] \<and> t = join_words (map show_move ms) \<and>
        parse_singmaster t = Some (if length ms > MAX_SOLUTION_MOVES then Inl TooManyMoves
          else Inr (ms @ replicate (MAX_SOLUTION_MOVES - length ms) empty_move, of_nat (length ms)))))"
  using normalize_accepts [of str] normalize_shown by blast

theorem sequence_normalised_witness:
  "normalize_sim_sequence ''r2u, b'' = Some (Inr ''R2 U B'') \<and>
    normalize_sim_sequence ''R2 U B'' = Some (Inr ''R2 U B'')"
proof -
  have t: "sim_token ''r2ub'' 0 = Inr (''R2'', 2)" "sim_token ''r2ub'' 2 = Inr (''U'', 3)"
    "sim_token ''r2ub'' 3 = Inr (''B'', 4)" by code_simp+
  have "sim_tokens ''r2ub'' 4 ts = Some (Inr ts)" for ts by (subst sim_tokens.simps) simp
  then have "sim_tokens ''r2ub'' 3 ts = Some (Inr (ts @ [''B'']))" for ts by (subst sim_tokens.simps) (simp add: t)
  then have "sim_tokens ''r2ub'' 2 ts = Some (Inr (ts @ [''U'', ''B'']))" for ts by (subst sim_tokens.simps) (simp add: t)
  then have "sim_tokens ''r2ub'' 0 [] = Some (Inr [''R2'', ''U'', ''B''])" by (subst sim_tokens.simps) (simp add: t)
  moreover have "compact_sequence ''r2u, b'' = ''r2ub''" by code_simp
  ultimately have "normalize_sim_sequence ''r2u, b'' = Some (Inr ''R2 U B'')"
    by (simp add: normalize_sim_sequence_def)
  then show ?thesis using sequence_normalised [of "''r2u, b''"] by simp
qed

text \<open>
  the pool of sessions is bounded and loses only what it must. Asking for a session keeps at most 64,
  with distinct names; it returns the live session of that name or a new one, keeps the others as they
  are, and stops only sessions that expired or, when all 64 are alive, the least recently used one.
\<close>

theorem session_pool_bounded:
  assumes "pool_ok sessions" "session_pool now fresh key sessions = (stopped, sessions')"
  shows "pool_ok sessions' \<and>
    map_of sessions' key = Some (case map_of (filter (alive now) sessions) key of
      Some e \<Rightarrow> e\<lparr> se_last_access := now \<rparr> | None \<Rightarrow> \<lparr> se_last_access = now, se_session = fresh \<rparr>) \<and>
    (\<forall>i. i \<noteq> key \<longrightarrow> map_of sessions' i = (if i \<in> set stopped then None else map_of sessions i)) \<and>
    (\<forall>i \<in> set stopped. \<exists>e. map_of sessions i = Some e \<and>
      (\<not> alive now (i, e) \<or> map_of (filter (alive now) sessions) key = None \<and>
         length (filter (alive now) sessions) = MAX_SESSIONS \<and>
         (\<forall>x \<in> set (filter (alive now) sessions). se_last_access e \<le> se_last_access (snd x))))"
  by (rule session_pool_spec [OF assms])

theorem session_pool_bounded_witness:
  "\<exists>stopped sessions'. session_pool 9 True ''a'' [(''b'', \<lparr> se_last_access = 3, se_session = False \<rparr>)] = (stopped, sessions') \<and>
    pool_ok sessions' \<and> map_of sessions' ''a'' = Some \<lparr> se_last_access = 9, se_session = True \<rparr>"
proof -
  let ?sessions = "[(''b'', \<lparr> se_last_access = 3, se_session = False \<rparr>)]"
  have ok: "pool_ok ?sessions" by (simp add: pool_ok_def MAX_SESSIONS_def)
  obtain stopped sessions' where p: "session_pool 9 True ''a'' ?sessions = (stopped, sessions')" by fastforce
  show ?thesis using session_pool_bounded [OF ok p] p by simp
qed

text \<open>
  C40: face turns show a well-formed cube. After any turns from the solved cube the 54 facelets exist, are
  a rearrangement of the solved ones with every centre in place, and the opposite turns in reverse
  order bring every cubie back.
\<close>

theorem turned_cube_well_formed:
  "\<exists>fs. cube_facelets (fold apply_move ms solved_cube) = Some fs \<and> length fs = 54 \<and> mset fs = mset solved_facelets \<and>
    fs ! (9 * cube_face_index f + 4) = solved_facelets ! (9 * cube_face_index f + 4) \<and>
    sc_cubies (fold apply_move (undo ms) (fold apply_move ms solved_cube)) = sc_cubies solved_cube"
proof -
  have "cube_reach (fold apply_move ms c)" if "cube_reach c" for c
    using that by (induction ms arbitrary: c) (simp_all add: cube_reach.move)
  then have reach: "cube_reach (fold apply_move ms solved_cube)" using cube_reach.solved .
  then obtain fs where fs: "SimCubeSafety.shown (fold apply_move ms solved_cube) fs" "mset fs = mset solved_facelets"
    using cube_reach_shown by blast
  then show ?thesis
    using shown_centers [OF reach fs(1), of f] undo_moves [of ms solved_cube] by (auto simp: SimCubeSafety.shown_def)
qed

text \<open>
  C39: a posted command reaches the daemon and is answered. When a handler waits for the response to a
  command, the frame it queued makes a daemon at a frame boundary handle exactly one request, with the
  command's opcode and the handler's identifier; the first update the daemon then sends is the response
  to it, and the pump hands it to the handler.
\<close>

theorem posted_command_answered:
  assumes "session_ok s0" "serializers_ok S" "post_begin from_str S accepting body s0 = Some (Waiting i c :: 'pe post_result, s1)"
    and "session_daemon_ok d" "decoder_pending (sd_decoder d) = Some []"
  shows "\<exists>frame k ms service d' opcode content updates s2. sn_inbound s1 = sn_inbound s0 @ [frame] \<and>
    pkt_opcode k = request_u16 (command_opcode c) \<and> pkt_request_id k = i \<and>
    handle_packet B (delivered k) (sd_service d) = Some (ms, service) \<and>
    daemon_bytes B frame d = Some d' \<and> sd_service d' = service \<and> decoder_pending (sd_decoder d') = Some [] \<and>
    en_sent (sd_engine d') = en_sent (sd_engine d) @ ResponseUpdate i opcode content # updates \<and>
    pump_update F now (ResponseUpdate i opcode content) s1 = Some s2 \<and> (i, content) \<in> set (sn_answers s2)"
proof -
  have "\<exists>frame k ms service d' opcode content updates. sn_inbound s1 = sn_inbound s0 @ [frame] \<and> i \<in> set (sn_responders s1) \<and>
    pkt_opcode k = request_u16 (command_opcode c) \<and> pkt_request_id k = i \<and>
    handle_packet B (delivered k) (sd_service d) = Some (ms, service) \<and>
    daemon_bytes B frame d = Some d' \<and> sd_service d' = service \<and> decoder_pending (sd_decoder d') = Some [] \<and>
    en_sent (sd_engine d') = en_sent (sd_engine d) @ ResponseUpdate i opcode content # updates"
    using posted_command [OF assms, of B] by (elim exE conjE) (intro exI conjI, assumption+)
  then show ?thesis using response_answers [of i s1 F now] by blast
qed

theorem posted_command_answered_witness:
  "\<exists>i c s1 frame d'. post_begin abort_json bench_serializers True ''{}'' (new_session real_ops default_calibration) = Some (Waiting i c, s1) \<and>
    sn_inbound s1 = [frame] \<and> daemon_bytes sim_bench frame (new_daemon default_calibration new_facelets 0 0) = Some d'"
proof -
  let ?s0 = "new_session real_ops default_calibration"
  have s0: "session_ok ?s0" by (rule new_session_ok)
  have d: "session_daemon_ok (new_daemon default_calibration new_facelets 0 0)"
    "decoder_pending (sd_decoder (new_daemon default_calibration new_facelets 0 0)) = Some []"
    by (simp_all add: new_daemon_ok) (simp add: new_daemon_def default_decoder_pending Let_def)
  obtain r e' where "(encode_raw (sn_encoder ?s0) message_kind.Request (request_u16 request_opcode.Abort)
      (sn_next_request_id ?s0) 0 :: ((unit frame_encode_error + u8 list) \<times> uart_frame_encoder) option) = Some (Inr r, e')"
    using encode_raw_request [of "sn_encoder ?s0" 0 request_opcode.Abort "sn_next_request_id ?s0"] s0
    by (auto simp: session_ok_def)
  then have e: "encode_command bench_serializers (sn_encoder ?s0) (sn_next_request_id ?s0) sim_command.Abort = Some (Inr r, e')"
    by (simp add: encode_command_def encode_bare_def frame_result_def encode_empty_def)
  then obtain i s1 where p: "post_begin abort_json bench_serializers True ''{}'' ?s0 = Some (Waiting i sim_command.Abort, s1)"
    by (auto simp: post_begin_def parse_command_def abort_json_def field_string_def parse_named_def post_request_def Let_def)
  have "sn_inbound ?s0 = []" by (simp add: new_session_def)
  then show ?thesis
    using posted_command_answered [OF s0 bench_serializers_ok p d, of sim_bench real_ops 0] p by fastforce
qed

end
